(* ===== verification/Prelude.thy ===== *)
theory Prelude
  imports Main "HOL-Library.Code_Target_Nat"
begin

text \<open>
  Vocabulary shared by every component: JavaScript strings as lists of UTF-16 code units, thrown
  errors as a sum, the state-and-exception monad of code that awaits a database, and the ordered
  maps and sets of the language (\<open>Map\<close> and \<open>Set\<close> keep insertion order, which the source
  relies on when it folds floating-point sums over them).
\<close>

named_theorems monad_simps \<open>unfolding rules of the error and state monads\<close>
named_theorems row_simps \<open>facts about updates of table rows\<close>

section \<open>Strings\<close>

text \<open>
  A JavaScript string is a sequence of 16-bit code units; \<open>length\<close> counts them.
  \<open>u\<close> turns an ASCII literal into such a string.
\<close>

type_synonym ustr = "nat list"

definition u :: "string \<Rightarrow> ustr" where
  "u s = map of_char s"

lemma u_inject [simp]: "u s = u t \<longleftrightarrow> s = t"
  by (simp add: u_def inj_map_eq_map inj_def)

lemma u_Nil [simp]: "u [] = []"
  by (simp add: u_def)

lemma u_Nil_iff [simp]: "u s = [] \<longleftrightarrow> s = []" "[] = u s \<longleftrightarrow> s = []"
  by (simp_all add: u_def)

lemma length_u [simp]: "length (u s) = length s"
  by (simp add: u_def)

lemma u_append: "u (s @ t) = u s @ u t"
  by (simp add: u_def)

lemma u_Cons: "u (c # s) = of_char c # u s"
  by (simp add: u_def)

text \<open>A separator that does not occur in the suffixes splits a string in one way.\<close>

lemma append_sep_inject:
  assumes "a @ c # x = b @ c # y" "c \<notin> set x" "c \<notin> set y"
  shows "a = b \<and> x = y"
proof -
  have "takeWhile (\<lambda>d. d \<noteq> c) (rev z @ c # w) = rev z" if "c \<notin> set z" for z w
    using that by (intro takeWhile_tail[THEN trans]) (auto simp: takeWhile_append2)
  from this[OF assms(2), of "rev a"] this[OF assms(3), of "rev b"] arg_cong[OF assms(1), of rev]
  have "rev x = rev y" by simp
  with assms(1) show ?thesis by simp
qed

section \<open>Thrown errors\<close>

text \<open>
  Reading a property of \<open>null\<close> or \<open>undefined\<close> throws a \<open>TypeError\<close>; \<open>Thrown e\<close> is an error
  the code throws itself.
\<close>

datatype 'e thrown = TypeError | Thrown 'e

definition sbind :: "'e + 'a \<Rightarrow> ('a \<Rightarrow> 'e + 'b) \<Rightarrow> 'e + 'b" where
  "sbind m f = (case m of Inl e \<Rightarrow> Inl e | Inr x \<Rightarrow> f x)"

lemma sbind_simps [simp, monad_simps]:
  "sbind (Inl e) f = Inl e"
  "sbind (Inr x) f = f x"
  by (simp_all add: sbind_def)

lemma sbind_eq_Inr: "sbind m f = Inr y \<longleftrightarrow> (\<exists>x. m = Inr x \<and> f x = Inr y)"
  by (cases m) auto

lemma sbind_eq_Inl: "sbind m f = Inl e \<longleftrightarrow> m = Inl e \<or> (\<exists>x. m = Inr x \<and> f x = Inl e)"
  by (cases m) auto

lemma sbind_assoc: "sbind (sbind m f) g = sbind m (\<lambda>x. sbind (f x) g)"
  by (cases m) auto

lemma sbind_cong [fundef_cong]:
  "m = m' \<Longrightarrow> (\<And>x. m' = Inr x \<Longrightarrow> f x = f' x) \<Longrightarrow> sbind m f = sbind m' f'"
  by (cases m') auto

text \<open>\<open>if (!b) throw e;\<close>\<close>

definition ensure :: "bool \<Rightarrow> 'e \<Rightarrow> 'e + unit" where
  "ensure b e = (if b then Inr () else Inl e)"

lemma ensure_eq [simp]:
  "ensure b e = Inr x \<longleftrightarrow> b"
  "ensure b e = Inl e' \<longleftrightarrow> \<not> b \<and> e' = e"
  by (auto simp: ensure_def)

lemma ensure_simps [simp]: "ensure True e = Inr ()" "ensure False e = Inl e"
  by (simp_all add: ensure_def)

text \<open>A \<open>for\<close> loop whose body may throw, threading an accumulator.\<close>

fun foldE :: "('s \<Rightarrow> 'a \<Rightarrow> 'e + 's) \<Rightarrow> 's \<Rightarrow> 'a list \<Rightarrow> 'e + 's" where
  "foldE f s [] = Inr s"
| "foldE f s (x # xs) = sbind (f s x) (\<lambda>s'. foldE f s' xs)"

lemma foldE_cong [fundef_cong]:
  "s = s' \<Longrightarrow> xs = xs' \<Longrightarrow> (\<And>a x. x \<in> set xs' \<Longrightarrow> f a x = g a x) \<Longrightarrow> foldE f s xs = foldE g s' xs'"
proof (induction xs arbitrary: s s' xs')
  case Nil
  then show ?case by simp
next
  case (Cons x xs)
  then show ?case by (cases "g s' x") auto
qed

lemma foldE_append: "foldE f s (xs @ ys) = sbind (foldE f s xs) (\<lambda>s'. foldE f s' ys)"
  by (induction xs arbitrary: s) (simp_all add: sbind_assoc)

text \<open>\<open>Array.prototype.map\<close> with a callback that may throw.\<close>

fun mapE :: "('a \<Rightarrow> 'e + 'b) \<Rightarrow> 'a list \<Rightarrow> 'e + 'b list" where
  "mapE f [] = Inr []"
| "mapE f (x # xs) = sbind (f x) (\<lambda>y. sbind (mapE f xs) (\<lambda>ys. Inr (y # ys)))"

lemma mapE_cong [fundef_cong]:
  "xs = xs' \<Longrightarrow> (\<And>x. x \<in> set xs' \<Longrightarrow> f x = g x) \<Longrightarrow> mapE f xs = mapE g xs'"
  by (induction xs arbitrary: xs') auto

lemma mapE_eq_Inr: "mapE f xs = Inr ys \<longleftrightarrow> list_all2 (\<lambda>x y. f x = Inr y) xs ys"
  by (induction xs arbitrary: ys) (auto simp: sbind_eq_Inr list_all2_Cons1)

lemma mapE_length: "mapE f xs = Inr ys \<Longrightarrow> length ys = length xs"
  by (auto simp: mapE_eq_Inr dest: list_all2_lengthD)

lemma foldE_unit: "foldE (\<lambda>_. f) () xs = Inr () \<longleftrightarrow> (\<forall>x \<in> set xs. f x = Inr ())"
  by (induction xs) (auto simp: sbind_eq_Inr)

text \<open>
  A loop that collects the entries of a list into a \<open>Set\<close> or \<open>Map\<close> and throws on a bad element
  or on an entry whose key is already present.
\<close>

locale unique_loop =
  fixes step :: "'s list \<Rightarrow> 'a \<Rightarrow> 'e + 's list"
    and good :: "'a \<Rightarrow> bool"
    and entry :: "'a \<Rightarrow> 's"
    and clash :: "'s \<Rightarrow> 's \<Rightarrow> bool"
  assumes step_ok: "step acc x = Inr r \<longleftrightarrow> good x \<and> (\<forall>z \<in> set acc. \<not> clash z (entry x)) \<and> r = acc @ [entry x]"
begin

abbreviation separated :: "'s list \<Rightarrow> bool" where
  "separated \<equiv> sorted_wrt (\<lambda>a b. \<not> clash a b)"

lemma loop_from: "separated acc \<Longrightarrow> foldE step acc xs = Inr r \<longleftrightarrow>
    (\<forall>x \<in> set xs. good x) \<and> r = acc @ map entry xs \<and> separated (acc @ map entry xs)"
proof (induction xs arbitrary: acc)
  case (Cons x xs)
  show ?case
  proof (cases "good x \<and> (\<forall>z \<in> set acc. \<not> clash z (entry x))")
    case True
    then have "step acc x = Inr (acc @ [entry x])" by (simp add: step_ok)
    moreover have "separated (acc @ [entry x])" using Cons.prems True by (simp add: sorted_wrt_append)
    ultimately show ?thesis using Cons.IH[of "acc @ [entry x]"] True by simp
  next
    case False
    then have "\<nexists>r. step acc x = Inr r" using step_ok by blast
    then obtain e where "step acc x = Inl e" by (cases "step acc x") auto
    with False show ?thesis by (auto simp: sorted_wrt_append)
  qed
qed auto

lemma loop_ok: "foldE step [] xs = Inr r \<longleftrightarrow>
    (\<forall>x \<in> set xs. good x) \<and> r = map entry xs \<and> separated (map entry xs)"
  using loop_from[of "[]"] by simp

end

section \<open>State with exceptions\<close>

text \<open>
  Code that awaits database calls: a computation takes the database and gives a result or an
  error, and the database as the calls made so far have left it. An error does not undo the
  calls that were already awaited; only a single \<open>batch\<close> is a transaction.
\<close>

type_synonym ('s, 'e, 'a) st = "'s \<Rightarrow> ('e + 'a) \<times> 's"

definition st_return :: "'a \<Rightarrow> ('s, 'e, 'a) st" where
  "st_return x = (\<lambda>s. (Inr x, s))"

definition st_throw :: "'e \<Rightarrow> ('s, 'e, 'a) st" where
  "st_throw e = (\<lambda>s. (Inl e, s))"

definition st_bind :: "('s, 'e, 'a) st \<Rightarrow> ('a \<Rightarrow> ('s, 'e, 'b) st) \<Rightarrow> ('s, 'e, 'b) st" where
  "st_bind m f = (\<lambda>s. case m s of (Inl e, s') \<Rightarrow> (Inl e, s') | (Inr x, s') \<Rightarrow> f x s')"

definition st_get :: "('s \<Rightarrow> 'a) \<Rightarrow> ('s, 'e, 'a) st" where
  "st_get f = (\<lambda>s. (Inr (f s), s))"

definition st_modify :: "('s \<Rightarrow> 's) \<Rightarrow> ('s, 'e, unit) st" where
  "st_modify f = (\<lambda>s. (Inr (), f s))"

definition st_lift :: "'e + 'a \<Rightarrow> ('s, 'e, 'a) st" where
  "st_lift r = (\<lambda>s. (r, s))"

definition st_ensure :: "bool \<Rightarrow> 'e \<Rightarrow> ('s, 'e, unit) st" where
  "st_ensure b e = (if b then st_return () else st_throw e)"

text \<open>\<open>try m catch h\<close>: the handler runs on the database the failed part has left.\<close>

definition st_catch :: "('s, 'e, 'a) st \<Rightarrow> ('e \<Rightarrow> ('s, 'e, 'a) st) \<Rightarrow> ('s, 'e, 'a) st" where
  "st_catch m h = (\<lambda>s. case m s of (Inl e, s') \<Rightarrow> h e s' | (Inr x, s') \<Rightarrow> (Inr x, s'))"

lemma st_simps [monad_simps]:
  "st_return x s = (Inr x, s)"
  "st_throw e s = (Inl e, s)"
  "st_get f s = (Inr (f s), s)"
  "st_modify g s = (Inr (), g s)"
  "st_lift r s = (r, s)"
  "st_ensure b e s = (if b then Inr () else Inl e, s)"
  by (simp_all add: st_return_def st_throw_def st_get_def st_modify_def st_lift_def st_ensure_def)

lemma st_bind_run [monad_simps]:
  "st_bind m f s = (case fst (m s) of Inl e \<Rightarrow> (Inl e, snd (m s)) | Inr x \<Rightarrow> f x (snd (m s)))"
  by (auto simp: st_bind_def split: prod.splits sum.splits)

lemma st_catch_run [monad_simps]:
  "st_catch m h s = (case fst (m s) of Inl e \<Rightarrow> h e (snd (m s)) | Inr x \<Rightarrow> (Inr x, snd (m s)))"
  by (auto simp: st_catch_def split: prod.splits sum.splits)

lemma st_bind_Inr:
  "st_bind m f s = (Inr y, s'') \<longleftrightarrow> (\<exists>x s'. m s = (Inr x, s') \<and> f x s' = (Inr y, s''))"
  by (auto simp: st_bind_def split: prod.splits sum.splits)

text \<open>
  A relation on databases that every call respects is respected by a whole computation; the
  components use it with "the invariant is kept" and "reachable by atomic steps".
\<close>

definition st_pres :: "('s \<Rightarrow> 's \<Rightarrow> bool) \<Rightarrow> ('s, 'e, 'a) st \<Rightarrow> bool" where
  "st_pres R m \<longleftrightarrow> (\<forall>s. R s (snd (m s)))"

lemma st_presI: "(\<And>s. R s (snd (m s))) \<Longrightarrow> st_pres R m"
  by (simp add: st_pres_def)

lemma st_presD: "st_pres R m \<Longrightarrow> R s (snd (m s))"
  by (simp add: st_pres_def)

lemma st_pres_pure [intro]:
  assumes "\<And>s. R s s"
  shows "st_pres R (st_return x)" "st_pres R (st_throw e)" "st_pres R (st_get f)"
    "st_pres R (st_lift r)" "st_pres R (st_ensure b e)"
  using assms by (auto simp: st_pres_def st_simps)

lemma st_pres_bind:
  assumes "\<And>a b c. R a b \<Longrightarrow> R b c \<Longrightarrow> R a c" "st_pres R m" "\<And>x. st_pres R (f x)"
  shows "st_pres R (st_bind m f)"
  using assms unfolding st_pres_def st_bind_run by (auto split: sum.splits) blast+

lemma st_pres_catch:
  assumes "\<And>a b c. R a b \<Longrightarrow> R b c \<Longrightarrow> R a c" "st_pres R m" "\<And>e. st_pres R (h e)"
  shows "st_pres R (st_catch m h)"
  using assms unfolding st_pres_def st_catch_run by (auto split: sum.splits) blast+

section \<open>Ordered maps and sets of the language\<close>

text \<open>
  \<open>Map\<close>: \<open>set\<close> on a present key keeps its place, on a new key appends; \<open>keys()\<close> lists them in
  that order. \<open>Set\<close> is the list of first occurrences.
\<close>

type_synonym ('k, 'v) omap = "('k \<times> 'v) list"

fun omap_set :: "'k \<Rightarrow> 'v \<Rightarrow> ('k, 'v) omap \<Rightarrow> ('k, 'v) omap" where
  "omap_set k v [] = [(k, v)]"
| "omap_set k v ((k', v') # m) = (if k = k' then (k, v) # m else (k', v') # omap_set k v m)"

abbreviation omap_get :: "('k, 'v) omap \<Rightarrow> 'k \<Rightarrow> 'v option" where
  "omap_get \<equiv> map_of"

abbreviation omap_keys :: "('k, 'v) omap \<Rightarrow> 'k list" where
  "omap_keys m \<equiv> map fst m"

lemma omap_get_set [simp]: "omap_get (omap_set k v m) = (omap_get m)(k \<mapsto> v)"
  by (induction m) auto

lemma omap_keys_set:
  "omap_keys (omap_set k v m) = (if k \<in> set (omap_keys m) then omap_keys m else omap_keys m @ [k])"
  by (induction m) (auto simp: image_iff split: if_splits)

lemma distinct_omap_set: "distinct (omap_keys m) \<Longrightarrow> distinct (omap_keys (omap_set k v m))"
  by (simp add: omap_keys_set)

text \<open>\<open>new Map(entries)\<close>: a later entry overwrites an earlier one.\<close>

definition omap_of_entries :: "('k \<times> 'v) list \<Rightarrow> ('k, 'v) omap" where
  "omap_of_entries es = foldl (\<lambda>m (k, v). omap_set k v m) [] es"

definition oset_add :: "'a list \<Rightarrow> 'a \<Rightarrow> 'a list" where
  "oset_add s x = (if x \<in> set s then s else s @ [x])"

text \<open>\<open>new Set(xs)\<close>, listed in insertion order.\<close>

definition oset_of :: "'a list \<Rightarrow> 'a list" where
  "oset_of xs = foldl oset_add [] xs"

lemma set_oset_add [simp]: "set (oset_add s x) = insert x (set s)"
  by (auto simp: oset_add_def)

lemma distinct_oset_add [simp]: "distinct (oset_add s x) \<longleftrightarrow> distinct s"
  by (auto simp: oset_add_def)

lemma foldl_oset_add: "set (foldl oset_add s xs) = set s \<union> set xs"
  "distinct (foldl oset_add s xs) \<longleftrightarrow> distinct s"
  by (induction xs arbitrary: s) auto

lemma set_oset_of [simp]: "set (oset_of xs) = set xs"
  by (simp add: oset_of_def foldl_oset_add)

lemma distinct_oset_of [simp]: "distinct (oset_of xs)"
  by (simp add: oset_of_def foldl_oset_add)

lemma length_oset_of: "length (oset_of xs) = card (set xs)"
  by (metis distinct_card distinct_oset_of set_oset_of)

section \<open>Rows\<close>

text \<open>\<open>UPDATE t SET f WHERE p\<close> and the number of rows it changes.\<close>

definition update_rows :: "('r \<Rightarrow> bool) \<Rightarrow> ('r \<Rightarrow> 'r) \<Rightarrow> 'r list \<Rightarrow> 'r list" where
  "update_rows p f rows = map (\<lambda>r. if p r then f r else r) rows"

definition count_rows :: "('r \<Rightarrow> bool) \<Rightarrow> 'r list \<Rightarrow> nat" where
  "count_rows p rows = length (filter p rows)"

lemma count_rows_0 [row_simps]: "count_rows p rows = 0 \<longleftrightarrow> (\<forall>r \<in> set rows. \<not> p r)"
  by (auto simp: count_rows_def filter_empty_conv)

lemma update_rows_none [row_simps]: "count_rows p rows = 0 \<Longrightarrow> update_rows p f rows = rows"
  by (auto simp: count_rows_0 update_rows_def intro: map_idI)

lemma map_update_rows [row_simps]:
  "(\<And>r. g (f r) = g r) \<Longrightarrow> map g (update_rows p f rows) = map g rows"
  by (simp add: update_rows_def)

lemma length_update_rows [simp]: "length (update_rows p f rows) = length rows"
  by (simp add: update_rows_def)

lemma set_update_rows: "set (update_rows p f rows) = (\<lambda>r. if p r then f r else r) ` set rows"
  by (simp add: update_rows_def)

lemma find_update_rows [row_simps]:
  assumes "\<And>r. q (f r) = q r"
  shows "List.find q (update_rows p f rows) =
    map_option (\<lambda>r. if p r then f r else r) (List.find q rows)"
  using assms by (induction rows) (auto simp: update_rows_def)

lemma find_append: "List.find q (xs @ ys) =
    (case List.find q xs of None \<Rightarrow> List.find q ys | Some r \<Rightarrow> Some r)"
  by (induction xs) auto

lemma find_key_unique:
  assumes "distinct (map k rows)" "r \<in> set rows"
  shows "List.find (\<lambda>x. k x = k r) rows = Some r"
  using assms by (induction rows) (auto simp: rev_image_eqI)

lemma find_SomeD: "List.find q rows = Some r \<Longrightarrow> r \<in> set rows \<and> q r"
  by (auto simp: find_Some_iff)

end
