(* ===== verification/Binary64.thy ===== *)
theory Binary64
  imports Complex_Main "HOL-Library.Log_Nat" Prelude
begin

text \<open>
  IEEE 754 double arithmetic as the source's \<open>number\<close> performs it: a finite double is a
  rational, and every operation is the exact result rounded to 53 significant bits, ties to even,
  with the subnormal exponent floor. Results of magnitude \<open>2^1024\<close> or more do not occur in the
  modelled code (counts, ratios and their products) and are not represented; nor are NaN and
  negative zero. \<open>Number::toString\<close> is in the theory of JavaScript values.
\<close>

section \<open>Rounding\<close>

text \<open>Round a rational to the nearest integer, a tie to the even one.\<close>

definition rne_part :: "int \<Rightarrow> rat \<Rightarrow> int" where
  "rne_part f d = (if d < 1/2 then f else if d > 1/2 then f + 1 else if even f then f else f + 1)"

definition rne :: "rat \<Rightarrow> int" where
  "rne x = rne_part \<lfloor>x\<rfloor> (x - of_int \<lfloor>x\<rfloor>)"

lemma rne_of_int [simp]: "rne (of_int n) = n"
  by (simp add: rne_def rne_part_def)

lemma rne_cases: "rne x = \<lfloor>x\<rfloor> \<or> rne x = \<lfloor>x\<rfloor> + 1"
  by (simp add: rne_def rne_part_def)

lemma rne_mono:
  assumes "x \<le> y"
  shows "rne x \<le> rne y"
proof (cases "\<lfloor>x\<rfloor> = \<lfloor>y\<rfloor>")
  case True
  with assms show ?thesis by (auto simp: rne_def rne_part_def)
next
  case False
  with floor_mono[OF assms] have "\<lfloor>x\<rfloor> + 1 \<le> \<lfloor>y\<rfloor>" by linarith
  with rne_cases[of x] rne_cases[of y] show ?thesis by linarith
qed

lemma rne_le: "x \<le> of_int n \<Longrightarrow> rne x \<le> n"
  using rne_mono[of x "of_int n"] by simp

lemma rne_ge: "of_int n \<le> x \<Longrightarrow> n \<le> rne x"
  using rne_mono[of "of_int n" x] by simp

text \<open>The binary exponent of a positive rational.\<close>

definition ilog2_from :: "int \<Rightarrow> rat \<Rightarrow> int" where
  "ilog2_from l x = (if 2 powi l \<le> x then l else l - 1)"

definition ilog2 :: "rat \<Rightarrow> int" where
  "ilog2 x = (case quotient_of x of (p, q) \<Rightarrow> ilog2_from (bitlen p - bitlen q) x)"

lemma bitlen_bounds_powi:
  assumes "0 < a"
  shows "(2::rat) powi (bitlen a - 1) \<le> of_int a" "of_int a < (2::rat) powi bitlen a"
proof -
  obtain n where n: "bitlen a = int (Suc n)"
  proof -
    have "0 < bitlen a" using assms by (simp add: bitlen_alt_def)
    then show thesis using that by (metis gr0_implies_Suc zero_less_imp_eq_int int_ops(4) of_nat_0_less_iff)
  qed
  have b: "2 ^ nat (bitlen a - 1) \<le> a \<and> a < 2 ^ nat (bitlen a)"
    using bitlen_bounds[OF assms] .
  then have "(2::int) ^ n \<le> a" "a < 2 ^ Suc n" by (simp_all add: n nat_add_distrib)
  then have "(of_int (2 ^ n)::rat) \<le> of_int a" "(of_int a::rat) < of_int (2 ^ Suc n)"
    by (simp_all only: of_int_le_iff of_int_less_iff)
  then show "(2::rat) powi (bitlen a - 1) \<le> of_int a" "of_int a < (2::rat) powi bitlen a"
    by (simp_all add: n power_int_def nat_add_distrib)
qed

lemma ilog2_bounds:
  assumes "0 < x"
  shows "2 powi ilog2 x \<le> x" "x < 2 powi (ilog2 x + 1)"
proof -
  obtain p q where pq: "quotient_of x = (p, q)" by fastforce
  have q: "0 < q" using quotient_of_denom_pos[OF pq] .
  have x: "x = of_int p / of_int q" using quotient_of_div[OF pq] .
  have p: "0 < p" using assms q by (simp add: x zero_less_divide_iff)
  note bp = bitlen_bounds_powi[OF p] and bq = bitlen_bounds_powi[OF q]
  let ?l = "bitlen p - bitlen q"
  have "(2::rat) powi (?l - 1) = 2 powi (bitlen p - 1 - bitlen q)"
    by (simp add: algebra_simps)
  also have "\<dots> = 2 powi (bitlen p - 1) / 2 powi bitlen q"
    by (rule power_int_diff) simp
  also have "\<dots> \<le> x"
    unfolding x using bp bq p q by (intro frac_le) auto
  finally have lo: "2 powi (?l - 1) \<le> x" .
  have "x < 2 powi bitlen p / 2 powi (bitlen q - 1)"
    unfolding x using bp bq p q by (intro frac_less) auto
  also have "\<dots> = 2 powi (bitlen p - (bitlen q - 1))"
    by (rule power_int_diff[symmetric]) simp
  also have "bitlen p - (bitlen q - 1) = ?l + 1" by simp
  finally have hi: "x < 2 powi (?l + 1)" .
  show "2 powi ilog2 x \<le> x" "x < 2 powi (ilog2 x + 1)"
    using lo hi by (auto simp: ilog2_def ilog2_from_def pq)
qed

lemma ilog2_unique:
  assumes "2 powi k \<le> x" "x < 2 powi (k + 1)"
  shows "ilog2 x = k"
proof -
  have pos: "0 < x" using assms(1) by (meson less_le_trans zero_less_power_int zero_less_numeral)
  note b = ilog2_bounds[OF pos]
  have lt: "a < b" if "(2::rat) powi a < 2 powi b" for a b :: int
    using that power_int_increasing[of b a "2::rat"] by (meson not_le one_le_numeral zero_less_numeral leD linorder_not_less)
  have "(2::rat) powi k < 2 powi (ilog2 x + 1)" "(2::rat) powi ilog2 x < 2 powi (k + 1)"
    using assms b by linarith+
  then show ?thesis using lt[of k "ilog2 x + 1"] lt[of "ilog2 x" "k + 1"] by linarith
qed

lemma ilog2_mono:
  assumes "0 < x" "x \<le> y"
  shows "ilog2 x \<le> ilog2 y"
proof (rule ccontr)
  assume "\<not> ?thesis"
  then have "(2::rat) powi (ilog2 y + 1) \<le> 2 powi ilog2 x" by (intro power_int_increasing) auto
  then show False using ilog2_bounds[OF assms(1)] ilog2_bounds[of y] assms by simp
qed

text \<open>The exponent of the unit in the last place.\<close>

definition ulp_exp :: "rat \<Rightarrow> int" where
  "ulp_exp x = max (ilog2 x - 52) (- 1074)"

definition round_to :: "rat \<Rightarrow> rat \<Rightarrow> rat" where
  "round_to ulp x = of_int (rne (x / ulp)) * ulp"

definition fl_pos :: "rat \<Rightarrow> rat" where
  "fl_pos x = round_to (2 powi ulp_exp x) x"

definition fl :: "rat \<Rightarrow> rat" where
  "fl x = (if x = 0 then 0 else if x < 0 then - fl_pos (- x) else fl_pos x)"

definition fadd :: "rat \<Rightarrow> rat \<Rightarrow> rat" where "fadd a b = fl (a + b)"
definition fsub :: "rat \<Rightarrow> rat \<Rightarrow> rat" where "fsub a b = fl (a - b)"
definition fmul :: "rat \<Rightarrow> rat \<Rightarrow> rat" where "fmul a b = fl (a * b)"
definition fdiv :: "rat \<Rightarrow> rat \<Rightarrow> rat" where "fdiv a b = fl (a / b)"

lemmas float_ops = fadd_def fsub_def fmul_def fdiv_def

section \<open>Monotonicity and exactness\<close>

text \<open>An integer multiple of the unit in the last place is not moved by rounding.\<close>

lemma fl_pos_exact: "x = of_int n * 2 powi ulp_exp x \<Longrightarrow> fl_pos x = x"
  by (simp add: fl_pos_def round_to_def) (metis (no_types) nonzero_mult_div_cancel_right power_int_eq_0_iff rne_of_int zero_neq_numeral)

lemma fl_pos_mono:
  assumes "0 < x" "x \<le> y"
  shows "fl_pos x \<le> fl_pos y"
proof (cases "ulp_exp x = ulp_exp y")
  case True
  have "x / 2 powi ulp_exp y \<le> y / 2 powi ulp_exp y"
    using assms by (simp add: divide_right_mono)
  then show ?thesis
    by (simp add: fl_pos_def round_to_def True rne_mono)
next
  case False
  let ?ex = "ulp_exp x" and ?ey = "ulp_exp y"
  from ilog2_mono[OF assms] False have lt: "ilog2 x < ilog2 y" and ey: "?ey = ilog2 y - 52"
    and le: "?ex + 53 \<le> ilog2 y"
    by (auto simp: ulp_exp_def split: if_splits)
  have ex: "ilog2 x + 1 \<le> ?ex + 53" by (simp add: ulp_exp_def)
  have y: "0 < y" using assms by simp
  have "x < 2 powi (ilog2 x + 1)" using ilog2_bounds(2)[OF assms(1)] .
  also have "\<dots> \<le> 2 powi (?ex + 53)" using ex by (intro power_int_increasing) auto
  finally have "x / 2 powi ?ex \<le> of_int (2 ^ 53)"
    by (simp add: field_simps power_int_add)
  then have "rne (x / 2 powi ?ex) \<le> 2 ^ 53" by (rule rne_le)
  then have "(of_int (rne (x / 2 powi ?ex))::rat) \<le> of_int (2 ^ 53)"
    by (simp only: of_int_le_iff)
  then have "fl_pos x \<le> 2 powi (?ex + 53)"
    by (simp add: fl_pos_def round_to_def power_int_add mult_right_mono)
  also have "\<dots> \<le> 2 powi ilog2 y" using le by (intro power_int_increasing) auto
  also have "\<dots> \<le> fl_pos y"
  proof -
    have "2 powi ilog2 y \<le> y" using ilog2_bounds(1)[OF y] .
    then have "of_int (2 ^ 52) \<le> y / 2 powi ?ey"
      by (simp add: ey power_int_diff field_simps)
    then have "2 ^ 52 \<le> rne (y / 2 powi ?ey)" by (rule rne_ge)
    then have "(of_int (2 ^ 52)::rat) \<le> of_int (rne (y / 2 powi ?ey))"
      by (simp only: of_int_le_iff)
    then have "of_int (2 ^ 52) * 2 powi ?ey \<le> fl_pos y"
      by (simp add: fl_pos_def round_to_def mult_right_mono)
    then show ?thesis by (simp add: ey power_int_diff)
  qed
  finally show ?thesis .
qed

lemma fl_pos_nonneg: "0 < x \<Longrightarrow> 0 \<le> fl_pos x"
  unfolding fl_pos_def round_to_def by (intro mult_nonneg_nonneg) (auto intro!: rne_ge[of 0, simplified])

lemma fl_mono: "x \<le> y \<Longrightarrow> fl x \<le> fl y"
  using fl_pos_mono[of x y] fl_pos_mono[of "- y" "- x"] fl_pos_nonneg[of "- x"] fl_pos_nonneg[of y]
  by (auto simp: fl_def)

lemma fl_0 [simp]: "fl 0 = 0"
  by (simp add: fl_def)

text \<open>Integers up to \<open>2^53\<close> are doubles.\<close>

lemma fl_pos_of_int:
  assumes "0 < n" "n \<le> 2 ^ 53"
  shows "fl_pos (of_int n) = of_int n"
proof (cases "n = 2 ^ 53")
  case True
  have "ilog2 (of_int n) = 53" by (rule ilog2_unique) (simp_all add: True power_int_def)
  then have "ulp_exp (of_int n) = 1" by (simp add: ulp_exp_def)
  then have "(of_int n :: rat) = of_int (2 ^ 52) * 2 powi ulp_exp (of_int n)"
    by (simp add: True)
  then show ?thesis by (rule fl_pos_exact)
next
  case False
  with assms have lt: "n < 2 ^ 53" by simp
  have "(of_int n::rat) < of_int (2 ^ 53)" using lt by (simp only: of_int_less_iff)
  then have lt': "(of_int n::rat) < 2 powi 53" by (simp add: power_int_def)
  have "2 powi ilog2 (of_int n) \<le> (of_int n::rat)" using assms by (intro ilog2_bounds) simp
  from this lt' have "(2::rat) powi ilog2 (of_int n) < 2 powi 53" by (rule le_less_trans)
  then have il: "ilog2 (of_int n) \<le> 52"
    using power_int_increasing[of 53 "ilog2 (of_int n)" "2::rat"] by linarith
  define e where "e = nat (- ulp_exp (of_int n))"
  have e: "ulp_exp (of_int n) = - int e" using il by (simp add: ulp_exp_def e_def)
  have "(of_int n :: rat) = of_int (n * 2 ^ e) * 2 powi ulp_exp (of_int n)"
    by (simp add: e power_int_minus field_simps)
  then show ?thesis by (rule fl_pos_exact)
qed

lemma fl_of_int: "\<bar>n\<bar> \<le> 2 ^ 53 \<Longrightarrow> fl (of_int n) = of_int n"
  using fl_pos_of_int[of n] fl_pos_of_int[of "- n"] by (auto simp: fl_def)

lemma fl_1 [simp]: "fl 1 = 1"
  using fl_of_int[of 1] by simp

lemma fl_neg1 [simp]: "fl (- 1) = - 1"
  using fl_of_int[of "-1"] by simp

lemma fl_bounds:
  "0 \<le> x \<Longrightarrow> 0 \<le> fl x" "x \<le> 0 \<Longrightarrow> fl x \<le> 0" "x \<le> 1 \<Longrightarrow> fl x \<le> 1" "1 \<le> x \<Longrightarrow> 1 \<le> fl x"
  "-1 \<le> x \<Longrightarrow> - 1 \<le> fl x"
  using fl_mono[of 0 x] fl_mono[of x 0] fl_mono[of x 1] fl_mono[of 1 x] fl_mono[of "-1" x] by simp_all

text \<open>The representable rationals are the fixed points of rounding.\<close>

lemma fl_minus [simp]: "fl (- x) = - fl x"
  by (auto simp: fl_def)

text \<open>Subtracting a double other than 1 from 1 never rounds to zero.\<close>

lemma ulp_exp_ge: "1/4 < y \<Longrightarrow> - 54 \<le> ulp_exp y"
proof -
  have "ilog2 (1/4) = - 2" by code_simp
  then show "1/4 < y \<Longrightarrow> ?thesis"
    using ilog2_mono[of "1/4" y] by (simp add: ulp_exp_def)
qed

lemma fl_dyadic:
  assumes "1/4 < y"
  obtains m :: int where "fl y = of_int m / 2 ^ 54"
proof -
  define k where "k = nat (ulp_exp y + 54)"
  have k: "ulp_exp y = int k - 54" using ulp_exp_ge[OF assms] by (simp add: k_def)
  have "fl y = of_int (rne (y / 2 powi ulp_exp y)) * 2 powi ulp_exp y"
    using assms by (simp add: fl_def fl_pos_def round_to_def)
  also have "\<dots> = of_int (rne (y / 2 powi ulp_exp y) * 2 ^ k) / 2 ^ 54"
    by (simp add: k power_int_diff)
  finally show thesis by (rule that)
qed

lemma fl_quarter: "fl (1/4) = 1/4" and fl_half: "fl (1/2) = 1/2"
  by code_simp+

lemma fl_tiny_pos: "0 < fl (1 / 2 ^ 54)"
  by code_simp

lemma fl_one_minus_nonzero:
  assumes "e = fl y" "e \<noteq> 1"
  shows "fl (1 - e) \<noteq> 0"
proof -
  consider "e \<le> 1/2" | "2 \<le> e" | "1/2 < e" "e < 2" by linarith
  then show ?thesis
  proof cases
    case 1
    then show ?thesis using fl_mono[of "1/2" "1 - e"] fl_half by auto
  next
    case 2
    then show ?thesis using fl_mono[of "1 - e" "-1"] by auto
  next
    case 3
    then have "1/4 < y" using fl_mono[of y "1/4"] fl_quarter assms(1) by fastforce
    then obtain m where m: "e = of_int m / 2 ^ 54" using assms(1) fl_dyadic by metis
    have d: "1 - e = of_int (2 ^ 54 - m) / 2 ^ 54" by (simp add: m field_simps)
    have "2 ^ 54 - m \<noteq> 0" using assms(2) m by auto
    then consider "1 \<le> 2 ^ 54 - m" | "2 ^ 54 - m \<le> - 1" by linarith
    then have "1 / 2 ^ 54 \<le> 1 - e \<or> 1 - e \<le> - (1 / 2 ^ 54)"
    proof cases
      case 1
      then have "(of_int 1 :: rat) \<le> of_int (2 ^ 54 - m)" by (simp only: of_int_le_iff)
      then show ?thesis unfolding d by (simp add: divide_right_mono)
    next
      case 2
      then have "(of_int (2 ^ 54 - m) :: rat) \<le> of_int (- 1)" by (simp only: of_int_le_iff)
      then show ?thesis unfolding d by (simp add: field_simps)
    qed
    then show ?thesis
      using fl_mono[of "1 / 2 ^ 54" "1 - e"] fl_mono[of "1 - e" "- (1 / 2 ^ 54)"] fl_tiny_pos
      by auto
  qed
qed

end
