(* ===== verification/JsValue.thy ===== *)
theory JsValue
  imports Binary64 "HOL-Library.List_Lexorder"
begin

text \<open>
  The JavaScript values the code computes on: parsed JSON documents, with \<open>undefined\<close> for absent
  properties. Numbers are finite doubles (rationals); an object lists its own properties in the
  language's enumeration order (array-index keys ascending, then insertion order). The standard
  library functions modelled here are the ones the source calls: property access, truthiness,
  \<open>===\<close>, \<open>String(x)\<close>, \<open>Number::toString\<close>, \<open>Object.fromEntries\<close>, \<open>Array.prototype.sort\<close> on
  keys, and \<open>JSON.stringify\<close>.
\<close>

datatype jsv =
    JUndef
  | JNull
  | JBool bool
  | JNum rat
  | JStr ustr
  | JArr "jsv list"
  | JObj "(ustr \<times> jsv) list"

section \<open>Property access and tests\<close>

definition nullish :: "jsv \<Rightarrow> bool" where
  "nullish v \<longleftrightarrow> v = JUndef \<or> v = JNull"

definition own :: "jsv \<Rightarrow> ustr \<Rightarrow> jsv" where
  "own v k = (case v of JObj kvs \<Rightarrow> (case map_of kvs k of Some x \<Rightarrow> x | None \<Rightarrow> JUndef) | _ \<Rightarrow> JUndef)"

text \<open>\<open>v.k\<close> throws on \<open>null\<close> and \<open>undefined\<close>; \<open>v?.k\<close> is \<open>undefined\<close> there.\<close>

definition field :: "jsv \<Rightarrow> ustr \<Rightarrow> 'e thrown + jsv" where
  "field v k = (if nullish v then Inl TypeError else Inr (own v k))"

abbreviation dot :: "jsv \<Rightarrow> string \<Rightarrow> jsv" where
  "dot v k \<equiv> own v (u k)"

abbreviation opt_prop :: "jsv \<Rightarrow> ustr \<Rightarrow> jsv" where
  "opt_prop \<equiv> own"

lemma own_nullish [simp]: "own JUndef k = JUndef" "own JNull k = JUndef"
  by (simp_all add: own_def)

lemma own_JObj [simp]:
  "own (JObj kvs) k = (case map_of kvs k of Some x \<Rightarrow> x | None \<Rightarrow> JUndef)"
  by (simp add: own_def)

lemma nullish_simps [simp]:
  "nullish JUndef" "nullish JNull" "\<not> nullish (JBool b)" "\<not> nullish (JNum n)"
  "\<not> nullish (JStr s)" "\<not> nullish (JArr vs)" "\<not> nullish (JObj kvs)"
  by (simp_all add: nullish_def)

fun truthy :: "jsv \<Rightarrow> bool" where
  "truthy JUndef = False"
| "truthy JNull = False"
| "truthy (JBool b) = b"
| "truthy (JNum n) = (n \<noteq> 0)"
| "truthy (JStr s) = (s \<noteq> [])"
| "truthy (JArr vs) = True"
| "truthy (JObj kvs) = True"

lemma truthy_not_nullish: "truthy v \<Longrightarrow> \<not> nullish v"
  by (cases v) auto

text \<open>\<open>a ?? b\<close> and \<open>a || b\<close>.\<close>

definition coalesce :: "jsv \<Rightarrow> jsv \<Rightarrow> jsv" where
  "coalesce a b = (if nullish a then b else a)"

definition js_or :: "jsv \<Rightarrow> jsv \<Rightarrow> jsv" where
  "js_or a b = (if truthy a then a else b)"

text \<open>
  \<open>===\<close>. Objects and arrays compare by identity; the operands the source compares come from
  separately parsed documents, so two of them are never the same object.
\<close>

fun strict_eq :: "jsv \<Rightarrow> jsv \<Rightarrow> bool" where
  "strict_eq JUndef JUndef = True"
| "strict_eq JNull JNull = True"
| "strict_eq (JBool a) (JBool b) = (a = b)"
| "strict_eq (JNum a) (JNum b) = (a = b)"
| "strict_eq (JStr a) (JStr b) = (a = b)"
| "strict_eq _ _ = False"

lemma strict_eq_JStr [simp]: "strict_eq v (JStr s) \<longleftrightarrow> v = JStr s"
  "strict_eq (JStr s) v \<longleftrightarrow> v = JStr s"
  by (cases v; auto)+

lemma strict_eqD: "strict_eq a b \<Longrightarrow> a = b"
  by (cases a; cases b) auto

lemma strict_eq_sym: "strict_eq a b \<longleftrightarrow> strict_eq b a"
  by (cases a; cases b) auto

text \<open>\<open>Array.isArray\<close>, \<open>Number.isInteger\<close>, \<open>Number.isSafeInteger\<close>.\<close>

fun js_is_array :: "jsv \<Rightarrow> bool" where
  "js_is_array (JArr vs) = True"
| "js_is_array _ = False"

fun elems :: "jsv \<Rightarrow> jsv list" where
  "elems (JArr vs) = vs"
| "elems _ = []"

fun js_is_integer :: "jsv \<Rightarrow> bool" where
  "js_is_integer (JNum n) = (n = of_int \<lfloor>n\<rfloor>)"
| "js_is_integer _ = False"

definition js_is_safe_integer :: "jsv \<Rightarrow> bool" where
  "js_is_safe_integer v \<longleftrightarrow> js_is_integer v \<and> (case v of JNum n \<Rightarrow> \<bar>n\<bar> \<le> 2 ^ 53 - 1 | _ \<Rightarrow> False)"

fun js_is_string :: "jsv \<Rightarrow> bool" where
  "js_is_string (JStr s) = True"
| "js_is_string _ = False"

fun js_is_number :: "jsv \<Rightarrow> bool" where
  "js_is_number (JNum n) = True"
| "js_is_number _ = False"

text \<open>\<open>value && typeof value === "object" && !Array.isArray(value)\<close>.\<close>

fun js_is_plain_object :: "jsv \<Rightarrow> bool" where
  "js_is_plain_object (JObj kvs) = True"
| "js_is_plain_object _ = False"

definition high_surrogate :: "nat \<Rightarrow> bool" where "high_surrogate c \<longleftrightarrow> 0xD800 \<le> c \<and> c \<le> 0xDBFF"
definition low_surrogate :: "nat \<Rightarrow> bool" where "low_surrogate c \<longleftrightarrow> 0xDC00 \<le> c \<and> c \<le> 0xDFFF"

text \<open>Iterating \<open>for (const x of v)\<close>: a string gives its code points, what is no array nor
  string throws a \<open>TypeError\<close>.\<close>

fun string_points :: "ustr \<Rightarrow> ustr list" where
  "string_points [] = []"
| "string_points (c # d # s) =
    (if high_surrogate c \<and> low_surrogate d then [c, d] # string_points s
     else [c] # string_points (d # s))"
| "string_points [c] = [[c]]"

definition iter :: "jsv \<Rightarrow> 'e thrown + jsv list" where
  "iter v = (case v of JArr vs \<Rightarrow> Inr vs | JStr s \<Rightarrow> Inr (map JStr (string_points s)) | _ \<Rightarrow> Inl TypeError)"

text \<open>\<open>v.length\<close>.\<close>

definition length_prop :: "jsv \<Rightarrow> 'e thrown + jsv" where
  "length_prop v = (case v of JArr vs \<Rightarrow> Inr (JNum (of_nat (length vs))) | JStr s \<Rightarrow> Inr (JNum (of_nat (length s)))
     | _ \<Rightarrow> field v (u ''length''))"

lemma length_prop_JArr [simp]: "length_prop (JArr vs) = Inr (JNum (of_nat (length vs)))"
  by (simp add: length_prop_def)

lemma iter_JArr [simp]: "iter (JArr vs) = Inr vs"
  by (simp add: iter_def)

section \<open>Numbers as strings\<close>

fun nat_str :: "nat \<Rightarrow> ustr" where
  "nat_str n = (if n < 10 then [48 + n] else nat_str (n div 10) @ [48 + n mod 10])"

declare nat_str.simps [simp del]

definition digits_val :: "ustr \<Rightarrow> nat" where
  "digits_val ds = foldl (\<lambda>a d. 10 * a + (d - 48)) 0 ds"

lemma digits_val_nat_str [simp]: "digits_val (nat_str n) = n"
proof (induction n rule: nat_str.induct)
  case (1 n)
  then show ?case by (subst nat_str.simps) (auto simp: digits_val_def)
qed

lemma nat_str_inject [simp]: "nat_str m = nat_str n \<longleftrightarrow> m = n"
  by (metis digits_val_nat_str)

lemma nat_str_digits: "d \<in> set (nat_str n) \<Longrightarrow> 48 \<le> d \<and> d \<le> 57"
proof (induction n rule: nat_str.induct)
  case (1 n)
  then show ?case
    using nat_str.simps[of n] by (auto split: if_splits)
qed

lemma nat_str_nonempty [simp]: "nat_str n \<noteq> []"
  by (subst nat_str.simps) simp

definition int_str :: "int \<Rightarrow> ustr" where
  "int_str i = (if i < 0 then u ''-'' @ nat_str (nat (- i)) else nat_str (nat i))"

lemma int_str_inject [simp]: "int_str i = int_str j \<longleftrightarrow> i = j"
proof -
  have "nat_str m \<noteq> u ''-'' @ r" for m r
    using nat_str_digits[of 45 m] by (auto simp: u_def)
  from this this[symmetric] show ?thesis by (auto simp: int_str_def)
qed

lemma int_str_digits: "d \<in> set (int_str i) \<Longrightarrow> d = 45 \<or> 48 \<le> d \<and> d \<le> 57"
  by (auto simp: int_str_def u_def dest: nat_str_digits split: if_splits)

lemma int_str_nonempty [simp]: "int_str n \<noteq> []"
  by (simp add: int_str_def)

lemma int_str_sep:
  assumes "\<not> (c = 45 \<or> 48 \<le> c \<and> c \<le> 57)" "a @ c # int_str m = b @ c # int_str n"
  shows "a = b \<and> m = n"
  using append_sep_inject[OF assms(2)] assms(1) int_str_digits by fastforce

lemma nat_str_sep:
  assumes "\<not> (48 \<le> c \<and> c \<le> 57)" "a @ c # nat_str m = b @ c # nat_str n"
  shows "a = b \<and> m = n"
  using append_sep_inject[OF assms(2)] assms(1) nat_str_digits by fastforce

text \<open>
  \<open>Number::toString\<close>: the shortest digits \<open>s\<close> (\<open>k\<close> of them) and the exponent \<open>n\<close> with
  \<open>s * 10 ^ (n - k)\<close> rounding to the double, laid out by the language's rules. An integer of at
  most 53 bits is its decimal digits.
\<close>

definition dec_exp :: "rat \<Rightarrow> int" where
  "dec_exp x = (case quotient_of x of (p, q) \<Rightarrow>
     let n = int (length (nat_str (nat p))) - int (length (nat_str (nat q))) in
     if x < 10 powi n then n else n + 1)"

definition shortest_with :: "rat \<Rightarrow> int \<Rightarrow> nat \<Rightarrow> nat option" where
  "shortest_with x n k = (let s = nat (rne (x * 10 powi (int k - n))) in
     if fl (of_nat s * 10 powi (n - int k)) = x then Some s else None)"

definition shortest :: "rat \<Rightarrow> ustr \<times> int" where
  "shortest x = (let n = dec_exp x in
     case List.find (\<lambda>k. shortest_with x n k \<noteq> None) [1..<18] of
       Some k \<Rightarrow> (let ds = nat_str (the (shortest_with x n k)) in
                   (rev (dropWhile (\<lambda>d. d = 48) (rev ds)), n + int (length ds) - int k))
     | None \<Rightarrow> (u ''0'', n))"

definition layout :: "ustr \<Rightarrow> int \<Rightarrow> ustr" where
  "layout ds n = (let k = int (length ds); e = n - 1;
       expo = u ''e'' @ (if e < 0 then u ''-'' else u ''+'') @ nat_str (nat \<bar>e\<bar>) in
     if k \<le> n \<and> n \<le> 21 then ds @ replicate (nat (n - k)) 48
     else if 0 < n \<and> n \<le> 21 then take (nat n) ds @ u ''.'' @ drop (nat n) ds
     else if -6 < n \<and> n \<le> 0 then u ''0.'' @ replicate (nat (- n)) 48 @ ds
     else if k = 1 then ds @ expo
     else take 1 ds @ u ''.'' @ drop 1 ds @ expo)"

definition num_str :: "rat \<Rightarrow> ustr" where
  "num_str x = (if x = of_int \<lfloor>x\<rfloor> \<and> \<bar>x\<bar> \<le> 2 ^ 53 then int_str \<lfloor>x\<rfloor>
     else let (ds, n) = shortest \<bar>x\<bar> in (if x < 0 then u ''-'' else []) @ layout ds n)"

lemma num_str_of_int: "\<bar>i\<bar> \<le> 2 ^ 53 \<Longrightarrow> num_str (of_int i) = int_str i"
proof -
  assume "\<bar>i\<bar> \<le> 2 ^ 53"
  then have "(of_int \<bar>i\<bar>::rat) \<le> of_int (2 ^ 53)" by (simp only: of_int_le_iff)
  then show ?thesis by (simp add: num_str_def)
qed

section \<open>Strings of values\<close>

fun join_with :: "ustr \<Rightarrow> ustr list \<Rightarrow> ustr" where
  "join_with sep [] = []"
| "join_with sep [x] = x"
| "join_with sep (x # xs) = x @ sep @ join_with sep xs"

text \<open>\<open>String(v)\<close>, also what a template literal inserts.\<close>

primrec to_str :: "jsv \<Rightarrow> ustr" where
  "to_str JUndef = u ''undefined''"
| "to_str JNull = u ''null''"
| "to_str (JBool b) = (if b then u ''true'' else u ''false'')"
| "to_str (JNum n) = num_str n"
| "to_str (JStr s) = s"
| "to_str (JArr vs) = join_with (u '','')
     (map (\<lambda>(v, s). if nullish v then [] else s) (map (\<lambda>v. (v, to_str v)) vs))"
| "to_str (JObj kvs) = u ''[object Object]''"

text \<open>JSON string quoting, with lone surrogates escaped (well-formed \<open>JSON.stringify\<close>).\<close>

definition hex_digit :: "nat \<Rightarrow> nat" where
  "hex_digit d = (if d < 10 then 48 + d else 87 + d)"

definition hex4 :: "nat \<Rightarrow> ustr" where
  "hex4 c = [hex_digit (c div 4096 mod 16), hex_digit (c div 256 mod 16),
     hex_digit (c div 16 mod 16), hex_digit (c mod 16)]"

definition quote_unit :: "nat \<Rightarrow> ustr" where
  "quote_unit c =
    (if c = 34 then [92, 34] else if c = 92 then [92, 92]
     else if c = 8 then [92, 98] else if c = 12 then [92, 102] else if c = 10 then [92, 110]
     else if c = 13 then [92, 114] else if c = 9 then [92, 116]
     else if c < 32 \<or> high_surrogate c \<or> low_surrogate c then [92, 117] @ hex4 c
     else [c])"

fun quote_body :: "ustr \<Rightarrow> ustr" where
  "quote_body [] = []"
| "quote_body (c # d # s) =
    (if high_surrogate c \<and> low_surrogate d then c # d # quote_body s
     else quote_unit c @ quote_body (d # s))"
| "quote_body [c] = quote_unit c"

definition json_quote :: "ustr \<Rightarrow> ustr" where
  "json_quote s = [34] @ quote_body s @ [34]"

text \<open>\<open>JSON.stringify(v)\<close>: \<open>undefined\<close> for \<open>undefined\<close>, which arrays print as \<open>null\<close> and
  objects leave out.\<close>

primrec json_stringify :: "jsv \<Rightarrow> ustr option" where
  "json_stringify JUndef = None"
| "json_stringify JNull = Some (u ''null'')"
| "json_stringify (JBool b) = Some (if b then u ''true'' else u ''false'')"
| "json_stringify (JNum n) = Some (num_str n)"
| "json_stringify (JStr s) = Some (json_quote s)"
| "json_stringify (JArr vs) = Some (u ''['' @ join_with (u '','')
     (map (\<lambda>r. case r of None \<Rightarrow> u ''null'' | Some s \<Rightarrow> s) (map json_stringify vs)) @ u '']'')"
| "json_stringify (JObj kvs) = Some (u ''{'' @ join_with (u '','')
     (concat (map (\<lambda>(k, r). case r of None \<Rightarrow> [] | Some s \<Rightarrow> [json_quote k @ u '':'' @ s])
        (map (map_prod id json_stringify) kvs))) @ u ''}'')"

definition json_text :: "jsv \<Rightarrow> ustr" where
  "json_text v = (case json_stringify v of None \<Rightarrow> u ''undefined'' | Some s \<Rightarrow> s)"

section \<open>Key order\<close>

text \<open>Array-index keys: canonical decimals below \<open>2^32 - 1\<close>.\<close>

definition index_key :: "ustr \<Rightarrow> bool" where
  "index_key k \<longleftrightarrow> k \<noteq> [] \<and> list_all (\<lambda>d. 48 \<le> d \<and> d \<le> 57) k \<and> (length k > 1 \<longrightarrow> hd k \<noteq> 48)
     \<and> digits_val k < 4294967295"

text \<open>\<open>Object.fromEntries\<close> on distinct keys.\<close>

definition from_entries :: "(ustr \<times> jsv) list \<Rightarrow> jsv" where
  "from_entries kvs = JObj (sort_key (\<lambda>(k, v). digits_val k) (filter (\<lambda>(k, v). index_key k) kvs)
     @ filter (\<lambda>(k, v). \<not> index_key k) kvs)"

text \<open>The source's \<open>sortObject\<close>: keys sorted by code units, recursively.\<close>

primrec sort_object :: "jsv \<Rightarrow> jsv" where
  "sort_object JUndef = JUndef"
| "sort_object JNull = JNull"
| "sort_object (JBool b) = JBool b"
| "sort_object (JNum n) = JNum n"
| "sort_object (JStr s) = JStr s"
| "sort_object (JArr vs) = JArr (map sort_object vs)"
| "sort_object (JObj kvs) = from_entries (sort_key fst (map (map_prod id sort_object) kvs))"

definition canonical_json :: "jsv \<Rightarrow> ustr" where
  "canonical_json v = json_text (sort_object v)"

end
