(* ===== verification/Utf8.thy ===== *)
theory Utf8
  imports JsValue
begin

text \<open>
  \<open>TextEncoder.encode\<close>: UTF-16 code units to UTF-8 bytes, a lone surrogate becoming U+FFFD.
  Hash preimages are byte strings, and the canonical builder writes byte lengths.
\<close>

fun code_points :: "ustr \<Rightarrow> nat list" where
  "code_points [] = []"
| "code_points (c # d # s) =
    (if high_surrogate c \<and> low_surrogate d
     then (0x10000 + (c - 0xD800) * 0x400 + (d - 0xDC00)) # code_points s
     else (if high_surrogate c \<or> low_surrogate c then 0xFFFD else c) # code_points (d # s))"
| "code_points [c] = [if high_surrogate c \<or> low_surrogate c then 0xFFFD else c]"

definition utf8_point :: "nat \<Rightarrow> nat list" where
  "utf8_point c =
    (if c < 0x80 then [c]
     else if c < 0x800 then [0xC0 + c div 64, 0x80 + c mod 64]
     else if c < 0x10000 then [0xE0 + c div 4096, 0x80 + c div 64 mod 64, 0x80 + c mod 64]
     else [0xF0 + c div 262144, 0x80 + c div 4096 mod 64, 0x80 + c div 64 mod 64, 0x80 + c mod 64])"

definition utf8_encode :: "ustr \<Rightarrow> nat list" where
  "utf8_encode s = concat (map utf8_point (code_points s))"

section \<open>Decoding\<close>

text \<open>
  The encoding of a sequence of code points determines it: the lead byte says how many bytes
  follow. \<open>utf8_decode\<close> is the reference decoder for the proof.
\<close>

fun utf8_decode :: "nat list \<Rightarrow> nat list" where
  "utf8_decode [] = []"
| "utf8_decode (b # bs) =
    (if b < 0x80 then b # utf8_decode bs
     else if b < 0xE0 then
       (case bs of b1 # r \<Rightarrow> ((b - 0xC0) * 64 + (b1 - 0x80)) # utf8_decode r | _ \<Rightarrow> [])
     else if b < 0xF0 then
       (case bs of b1 # b2 # r \<Rightarrow>
          ((b - 0xE0) * 4096 + (b1 - 0x80) * 64 + (b2 - 0x80)) # utf8_decode r | _ \<Rightarrow> [])
     else (case bs of b1 # b2 # b3 # r \<Rightarrow>
          ((b - 0xF0) * 262144 + (b1 - 0x80) * 4096 + (b2 - 0x80) * 64 + (b3 - 0x80)) # utf8_decode r
        | _ \<Rightarrow> []))"

lemma split3: "(c::nat) div 4096 * 4096 + (c div 64 mod 64) * 64 + c mod 64 = c"
proof -
  have "c div 4096 = c div 64 div 64" by (simp add: div_mult2_eq[symmetric])
  then show ?thesis
    using div_mult_mod_eq[of c 64] div_mult_mod_eq[of "c div 64" 64] by linarith
qed

lemma split4:
  "(c::nat) div 262144 * 262144 + (c div 4096 mod 64) * 4096 + (c div 64 mod 64) * 64 + c mod 64 = c"
proof -
  have "c div 262144 = c div 4096 div 64" by (simp add: div_mult2_eq[symmetric])
  then show ?thesis
    using split3[of c] div_mult_mod_eq[of "c div 4096" 64] by linarith
qed

lemma utf8_decode_point:
  assumes "c < 0x110000"
  shows "utf8_decode (utf8_point c @ bs) = c # utf8_decode bs"
proof -
  consider "c < 0x80" | "0x80 \<le> c" "c < 0x800" | "0x800 \<le> c" "c < 0x10000" | "0x10000 \<le> c"
    by linarith
  then show ?thesis
  proof cases
    case 2
    then have "c div 64 < 32" "192 + c div 64 < 224" by auto
    with 2 show ?thesis by (simp add: utf8_point_def)
  next
    case 3
    then have "c div 4096 < 16" by auto
    with 3 split3[of c] show ?thesis by (simp add: utf8_point_def)
  next
    case 4
    with assms split4[of c] show ?thesis by (simp add: utf8_point_def)
  qed (simp add: utf8_point_def)
qed

lemma utf8_decode_encode:
  assumes "\<forall>c \<in> set cs. c < 0x110000"
  shows "utf8_decode (concat (map utf8_point cs)) = cs"
  using assms by (induction cs) (simp_all add: utf8_decode_point)

text \<open>A code-unit string is well formed when its surrogates come in pairs.\<close>

fun well_formed :: "ustr \<Rightarrow> bool" where
  "well_formed [] = True"
| "well_formed (c # d # s) =
    (if high_surrogate c \<and> low_surrogate d then well_formed s
     else c < 0x10000 \<and> \<not> high_surrogate c \<and> \<not> low_surrogate c \<and> well_formed (d # s))"
| "well_formed [c] = (c < 0x10000 \<and> \<not> high_surrogate c \<and> \<not> low_surrogate c)"

fun utf16_units :: "nat list \<Rightarrow> ustr" where
  "utf16_units [] = []"
| "utf16_units (c # cs) =
    (if c < 0x10000 then c # utf16_units cs
     else (0xD800 + (c - 0x10000) div 0x400) # (0xDC00 + (c - 0x10000) mod 0x400) # utf16_units cs)"

lemma code_points_bound: "\<forall>c \<in> set s. c < 0x10000 \<Longrightarrow> p \<in> set (code_points s) \<Longrightarrow> p < 0x110000"
  by (induction s rule: code_points.induct)
    (auto simp: high_surrogate_def low_surrogate_def split: if_splits)

lemma well_formed_units: "well_formed s \<Longrightarrow> c \<in> set s \<Longrightarrow> c < 0x10000"
  by (induction s rule: well_formed.induct)
    (auto simp: high_surrogate_def low_surrogate_def split: if_splits)

lemma surrogate_pair:
  assumes "0xDC00 \<le> (d::nat)" "d \<le> 0xDFFF"
  shows "(a * 0x400 + d - 0xDC00) div 0x400 = a" "(a * 0x400 + d - 0xDC00) mod 0x400 = d - 0xDC00"
proof -
  have "a * 0x400 + d - 0xDC00 = (d - 0xDC00) + a * 0x400" "d - 0xDC00 < 0x400" using assms by auto
  then show "(a * 0x400 + d - 0xDC00) div 0x400 = a" "(a * 0x400 + d - 0xDC00) mod 0x400 = d - 0xDC00"
    by simp_all
qed

lemma utf16_code_points: "well_formed s \<Longrightarrow> utf16_units (code_points s) = s"
  by (induction s rule: code_points.induct)
    (auto simp: surrogate_pair high_surrogate_def low_surrogate_def split: if_splits)

lemma utf8_encode_inject:
  assumes "well_formed s" "well_formed t" "utf8_encode s = utf8_encode t"
  shows "s = t"
proof -
  have "code_points s = code_points t"
    using assms(3) utf8_decode_encode[of "code_points s"] utf8_decode_encode[of "code_points t"]
      code_points_bound well_formed_units[OF assms(1)] well_formed_units[OF assms(2)]
    unfolding utf8_encode_def by metis
  then show ?thesis using utf16_code_points assms(1,2) by metis
qed

lemma well_formed_ascii: "\<forall>c \<in> set s. c < 128 \<Longrightarrow> well_formed s"
  by (induction s rule: well_formed.induct) (auto simp: high_surrogate_def low_surrogate_def)

lemma utf8_encode_ascii: "\<forall>c \<in> set s. c < 128 \<Longrightarrow> utf8_encode s = s"
  by (induction s rule: code_points.induct)
    (auto simp: utf8_encode_def utf8_point_def high_surrogate_def low_surrogate_def)

lemma code_points_Cons:
  "\<not> (high_surrogate c \<and> low_surrogate d) \<Longrightarrow> code_points (c # d # s) =
     (if high_surrogate c \<or> low_surrogate c then 0xFFFD else c) # code_points (d # s)"
  by simp

lemma code_points_append: "well_formed a \<Longrightarrow> code_points (a @ b) = code_points a @ code_points b"
proof (induction a rule: well_formed.induct)
  case (3 c)
  then show ?case by (cases b) auto
qed (auto split: if_splits)

lemma utf8_encode_Nil [simp]: "utf8_encode [] = []"
  by (simp add: utf8_encode_def)

lemma utf8_encode_append: "well_formed a \<Longrightarrow> utf8_encode (a @ b) = utf8_encode a @ utf8_encode b"
  by (simp add: utf8_encode_def code_points_append)

end
