(* ===== verification/Consensus.thy ===== *)
theory Consensus
  imports Utf8
begin

text \<open>
  \<open>src/consensus.js\<close>: the state machine of a task version, identities of task versions and
  rounds, the agreement metrics of two independent annotations, the metric policy, the count of
  decisions an adjudicator made that neither annotator proposed, and the hash of an event.
  Annotations are JSON documents of a participant, so they are values of unknown shape here and
  every check of the source is a branch. \<open>sha256\<close> is the runtime's digest (bytes to lowercase
  hexadecimal text), a parameter.
\<close>

section \<open>Task states\<close>

datatype task_state =
    Draft | Open | IndependentReview | Discussion | FinalReview | Approved | Published
  | Escalated | Reissued | Revoked | Failed

fun allowed_transitions :: "task_state \<Rightarrow> task_state list" where
  "allowed_transitions Draft = [Open, Failed]"
| "allowed_transitions Open = [IndependentReview, Failed]"
| "allowed_transitions IndependentReview = [Discussion, Escalated, Failed]"
| "allowed_transitions Discussion = [FinalReview, Escalated, Failed]"
| "allowed_transitions FinalReview = [Approved, Escalated, Failed]"
| "allowed_transitions Approved = [Published, Revoked, Escalated]"
| "allowed_transitions Published = [Revoked]"
| "allowed_transitions Escalated = [Reissued, Failed]"
| "allowed_transitions Reissued = [IndependentReview, Failed]"
| "allowed_transitions Revoked = [Reissued, Failed]"
| "allowed_transitions Failed = []"

text \<open>The text a state has in the database and in hashed events.\<close>

fun state_name :: "task_state \<Rightarrow> ustr" where
  "state_name Draft = u ''draft''"
| "state_name Open = u ''open''"
| "state_name IndependentReview = u ''independent-review''"
| "state_name Discussion = u ''discussion''"
| "state_name FinalReview = u ''final-review''"
| "state_name Approved = u ''approved''"
| "state_name Published = u ''published''"
| "state_name Escalated = u ''escalated''"
| "state_name Reissued = u ''reissued''"
| "state_name Revoked = u ''revoked''"
| "state_name Failed = u ''failed''"

datatype consensus_error =
    TransitionNotAllowed task_state task_state
  | SentencesMissing
  | SentenceIdsNotUnique
  | TokensMissing
  | TokenIdsNotUnique
  | AnnotationCoverageDiffers
  | SentenceCoverageDiffers
  | TokenCoverageDiffers
  | FinalUnitNotBound ustr
  | FinalCoverageDiffers
  | DecisionUnitDuplicated ustr

definition assert_consensus_transition ::
  "task_state \<Rightarrow> task_state \<Rightarrow> consensus_error thrown + unit" where
  "assert_consensus_transition from to =
     ensure (to \<in> set (allowed_transitions from)) (Thrown (TransitionNotAllowed from to))"

definition ROUND_DEADLINE_MS :: int where "ROUND_DEADLINE_MS = 14 * 24 * 60 * 60 * 1000"
definition APPEAL_WINDOW_MS :: int where "APPEAL_WINDOW_MS = 14 * 24 * 60 * 60 * 1000"

section \<open>Identities\<close>

text \<open>The fields of a validated packet that bind a task version.\<close>

record packet_binding =
  pkTaskId :: ustr
  pkTaskVersion :: int
  pkPacketId :: ustr
  pkHoldoutId :: ustr
  pkGuidelineVersion :: ustr
  pkDataVersion :: ustr
  pkProtocolVersion :: ustr
  pkMetricPolicy :: jsv

record task_identity =
  tiId :: ustr
  tiTaskId :: ustr
  tiTaskVersion :: int
  tiPacketId :: ustr
  tiHoldoutId :: ustr
  tiPacketMerkleRoot :: ustr
  tiGuidelineVersion :: ustr
  tiDataVersion :: ustr
  tiProtocolVersion :: ustr

definition task_version_identity :: "packet_binding \<Rightarrow> ustr \<Rightarrow> task_identity" where
  "task_version_identity packet packetRoot =
    \<lparr>tiId = pkTaskId packet @ u '':v'' @ int_str (pkTaskVersion packet),
     tiTaskId = pkTaskId packet, tiTaskVersion = pkTaskVersion packet,
     tiPacketId = pkPacketId packet, tiHoldoutId = pkHoldoutId packet,
     tiPacketMerkleRoot = packetRoot, tiGuidelineVersion = pkGuidelineVersion packet,
     tiDataVersion = pkDataVersion packet, tiProtocolVersion = pkProtocolVersion packet\<rparr>"

definition consensus_round_id :: "ustr \<Rightarrow> nat \<Rightarrow> ustr" where
  "consensus_round_id taskVersionId roundNumber = taskVersionId @ u '':r'' @ nat_str roundNumber"

section \<open>Coverage\<close>

definition canonical_value :: "jsv \<Rightarrow> ustr" where
  "canonical_value v = (if nullish v then u ''null'' else json_text v)"

text \<open>The body of the inner and outer loops of \<open>annotationCoverage\<close>; a key list is a \<open>Set\<close>.\<close>

definition cover_token :: "jsv \<Rightarrow> ustr list \<Rightarrow> jsv \<Rightarrow> consensus_error thrown + ustr list" where
  "cover_token sentenceId keys token =
    (let tokenKey = u ''token:'' @ to_str sentenceId @ u '':'' @ to_str (opt_prop token (u ''tokenId'')) in
     if \<not> js_is_integer (opt_prop token (u ''tokenId'')) \<or> tokenKey \<in> set keys
     then Inl (Thrown TokenIdsNotUnique)
     else Inr (keys @ [tokenKey]))"

definition cover_sentence :: "ustr list \<Rightarrow> jsv \<Rightarrow> consensus_error thrown + ustr list" where
  "cover_sentence keys sentence =
    (let sentenceId = opt_prop sentence (u ''sentenceId'');
         sentenceKey = u ''sentence:'' @ to_str sentenceId in
     if \<not> truthy sentenceId \<or> sentenceKey \<in> set keys then Inl (Thrown SentenceIdsNotUnique)
     else if \<not> js_is_array (own sentence (u ''tokens'')) then Inl (Thrown TokensMissing)
     else foldE (cover_token sentenceId) (keys @ [sentenceKey]) (elems (own sentence (u ''tokens''))))"

definition annotation_coverage :: "jsv \<Rightarrow> consensus_error thrown + ustr list" where
  "annotation_coverage annotation =
    (let sentences = opt_prop annotation (u ''sentences'') in
     if \<not> js_is_array sentences then Inl (Thrown SentencesMissing)
     else foldE cover_sentence [] (elems sentences))"

definition assert_comparable_coverage :: "jsv \<Rightarrow> jsv \<Rightarrow> consensus_error thrown + unit" where
  "assert_comparable_coverage annotationA annotationB =
    sbind (annotation_coverage annotationA) (\<lambda>left.
    sbind (annotation_coverage annotationB) (\<lambda>right.
      ensure (length left = length right \<and> set left \<subseteq> set right) (Thrown AnnotationCoverageDiffers)))"

section \<open>Paired decisions\<close>

text \<open>\<open>new Map(entries).get(key)\<close> with keys that are values: the last equal entry.\<close>

definition js_map_get :: "(jsv \<times> 'v) list \<Rightarrow> jsv \<Rightarrow> 'v option" where
  "js_map_get entries key = map_option snd (List.find (\<lambda>(k, v). strict_eq k key) (rev entries))"

definition sentences_of :: "jsv \<Rightarrow> jsv list" where
  "sentences_of annotation = elems (own annotation (u ''sentences''))"

definition tokens_of :: "jsv \<Rightarrow> jsv list" where
  "tokens_of sentence = elems (own sentence (u ''tokens''))"

text \<open>
  The coverage check has rejected every document on which the reads below would throw, so they
  are plain reads; only the two explicit checks remain.
\<close>

definition sentence_pairs :: "jsv \<Rightarrow> jsv \<Rightarrow> ustr \<Rightarrow> consensus_error thrown + (ustr \<times> ustr) list" where
  "sentence_pairs annotationA annotationB fld =
    (let right = map (\<lambda>s. (own s (u ''sentenceId''), s)) (sentences_of annotationB) in
     mapE (\<lambda>sentence. case js_map_get right (own sentence (u ''sentenceId'')) of
         None \<Rightarrow> Inl (Thrown SentenceCoverageDiffers)
       | Some other \<Rightarrow> Inr (canonical_value (own sentence fld), canonical_value (own other fld)))
       (sentences_of annotationA))"

definition token_key :: "jsv \<Rightarrow> jsv \<Rightarrow> ustr" where
  "token_key sentence token =
    to_str (own sentence (u ''sentenceId'')) @ u '':'' @ to_str (own token (u ''tokenId''))"

definition keyed_tokens :: "jsv \<Rightarrow> (ustr \<times> jsv) list" where
  "keyed_tokens annotation =
    concat (map (\<lambda>s. map (\<lambda>t. (token_key s t, t)) (tokens_of s)) (sentences_of annotation))"

definition token_pairs :: "jsv \<Rightarrow> jsv \<Rightarrow> ustr \<Rightarrow> consensus_error thrown + (ustr \<times> ustr) list" where
  "token_pairs annotationA annotationB fld =
    (let right = omap_of_entries (keyed_tokens annotationB) in
     mapE (\<lambda>(key, token). case omap_get right key of
         None \<Rightarrow> Inl (Thrown TokenCoverageDiffers)
       | Some other \<Rightarrow> Inr (canonical_value (own token fld), canonical_value (own other fld)))
       (keyed_tokens annotationA))"

section \<open>Metrics\<close>

text \<open>\<open>counts.set(label, (counts.get(label) || 0) + 1)\<close>.\<close>

definition bump :: "'a \<Rightarrow> ('a, nat) omap \<Rightarrow> ('a, nat) omap" where
  "bump label counts =
    omap_set label ((case omap_get counts label of None \<Rightarrow> 0 | Some c \<Rightarrow> c) + 1) counts"

fun kappa_counts :: "('a \<times> 'a) list \<Rightarrow> nat \<times> ('a, nat) omap \<times> ('a, nat) omap \<Rightarrow>
    nat \<times> ('a, nat) omap \<times> ('a, nat) omap" where
  "kappa_counts [] acc = acc"
| "kappa_counts ((left, right) # pairs) (agreement, leftCounts, rightCounts) =
     kappa_counts pairs
       (if left = right then agreement + 1 else agreement, bump left leftCounts, bump right rightCounts)"

definition count_of :: "('a, nat) omap \<Rightarrow> 'a \<Rightarrow> nat" where
  "count_of counts label = (case omap_get counts label of None \<Rightarrow> 0 | Some c \<Rightarrow> c)"

definition expected_agreement ::
  "('a, nat) omap \<Rightarrow> ('a, nat) omap \<Rightarrow> nat \<Rightarrow> rat" where
  "expected_agreement leftCounts rightCounts n =
    foldl (\<lambda>expected label. fadd expected
        (fmul (fdiv (of_nat (count_of leftCounts label)) (of_nat n))
              (fdiv (of_nat (count_of rightCounts label)) (of_nat n))))
      0 (oset_of (omap_keys leftCounts @ omap_keys rightCounts))"

definition kappa_ratio :: "rat \<Rightarrow> rat \<Rightarrow> rat option" where
  "kappa_ratio observed expected =
    (if expected = 1 then None
     else Some (fdiv (fsub observed expected) (fsub 1 expected)))"

definition cohen_kappa :: "('a \<times> 'a) list \<Rightarrow> rat option" where
  "cohen_kappa pairs =
    (if pairs = [] then None else
      (case kappa_counts pairs (0, [], []) of (agreement, leftCounts, rightCounts) \<Rightarrow>
        kappa_ratio (fdiv (of_nat agreement) (of_nat (length pairs)))
          (expected_agreement leftCounts rightCounts (length pairs))))"

record dimension =
  dimName :: ustr
  unitCount :: nat
  disagreementCount :: nat
  rawAgreement :: rat
  cohenKappa :: "rat option"

definition dimension_of :: "ustr \<Rightarrow> ('a \<times> 'a) list \<Rightarrow> dimension" where
  "dimension_of name pairs =
    (let n = length pairs; d = length (filter (\<lambda>(left, right). left \<noteq> right) pairs) in
     \<lparr>dimName = name, unitCount = n, disagreementCount = d,
      rawAgreement = (if n \<noteq> 0 then fdiv (of_nat (n - d)) (of_nat n) else 1),
      cohenKappa = cohen_kappa pairs\<rparr>)"

definition average :: "rat list \<Rightarrow> rat" where
  "average values = (if values = [] then 0 else fdiv (foldl fadd 0 values) (of_nat (length values)))"

record agreement =
  agUnitCount :: nat
  exactAgreement :: bool
  macroRawAgreement :: rat
  macroDefinedKappa :: "rat option"
  dimensions :: "dimension list"

definition sentence_dimensions :: "(ustr \<times> ustr) list" where
  "sentence_dimensions =
    [(u ''sentence.structurallyAcceptable'', u ''structurallyAcceptable''),
     (u ''sentence.completePredicate'', u ''completePredicate'')]"

definition token_dimensions :: "(ustr \<times> ustr) list" where
  "token_dimensions =
    [(u ''token.universalPartOfSpeech'', u ''universalPartOfSpeech''),
     (u ''token.headTokenId'', u ''headTokenId''),
     (u ''token.dependencyRelation'', u ''dependencyRelation''),
     (u ''token.irabHeadTokenId'', u ''irabHeadTokenId''),
     (u ''token.irabCategory'', u ''irabCategory''),
     (u ''token.irabNotApplicable'', u ''irabNotApplicable'')]"

definition defined_kappas :: "dimension list \<Rightarrow> rat list" where
  "defined_kappas ds = List.map_filter cohenKappa ds"

definition agreement_of :: "dimension list \<Rightarrow> agreement" where
  "agreement_of ds =
     \<lparr>agUnitCount = sum_list (map unitCount ds),
      exactAgreement = list_all (\<lambda>d. disagreementCount d = 0) ds,
      macroRawAgreement = average (map rawAgreement ds),
      macroDefinedKappa = (if defined_kappas ds = [] then None else Some (average (defined_kappas ds))),
      dimensions = ds\<rparr>"

definition compute_independent_agreement :: "jsv \<Rightarrow> jsv \<Rightarrow> consensus_error thrown + agreement" where
  "compute_independent_agreement annotationA annotationB =
    sbind (assert_comparable_coverage annotationA annotationB) (\<lambda>_.
    sbind (mapE (\<lambda>(name, fld). sbind (sentence_pairs annotationA annotationB fld)
        (\<lambda>pairs. Inr (dimension_of name pairs))) sentence_dimensions) (\<lambda>sentenceDims.
    sbind (mapE (\<lambda>(name, fld). sbind (token_pairs annotationA annotationB fld)
        (\<lambda>pairs. Inr (dimension_of name pairs))) token_dimensions) (\<lambda>tokenDims.
    Inr (agreement_of (sentenceDims @ tokenDims)))))"

section \<open>The metric policy\<close>

text \<open>The two thresholds are numbers in every packet that passed validation.\<close>

record metric_policy =
  minimumRawAgreement :: rat
  minimumDefinedKappa :: rat
  undefinedKappaFallback :: jsv

definition metric_policy_of :: "jsv \<Rightarrow> metric_policy option" where
  "metric_policy_of policy =
    (case (own policy (u ''minimumRawAgreement''), own policy (u ''minimumDefinedKappa'')) of
       (JNum raw, JNum kappa) \<Rightarrow> Some \<lparr>minimumRawAgreement = raw, minimumDefinedKappa = kappa,
          undefinedKappaFallback = own policy (u ''undefinedKappaFallback'')\<rparr>
     | _ \<Rightarrow> None)"

definition DEFAULT_METRIC_POLICY :: metric_policy where
  "DEFAULT_METRIC_POLICY = \<lparr>minimumRawAgreement = fl (9/10), minimumDefinedKappa = fl (8/10),
     undefinedKappaFallback = JStr (u ''raw-agreement'')\<rparr>"

definition agreement_policy_passed :: "agreement \<Rightarrow> metric_policy \<Rightarrow> bool" where
  "agreement_policy_passed metrics policy =
    (if macroRawAgreement metrics < minimumRawAgreement policy then False
     else case macroDefinedKappa metrics of
       None \<Rightarrow> undefinedKappaFallback policy = JStr (u ''raw-agreement'')
     | Some kappa \<Rightarrow> kappa \<ge> minimumDefinedKappa policy)"

section \<open>Novel decisions\<close>

definition set_unique_decision_value ::
  "(ustr, ustr) omap \<Rightarrow> ustr \<Rightarrow> ustr \<Rightarrow> consensus_error thrown + (ustr, ustr) omap" where
  "set_unique_decision_value values key value =
    (if omap_get values key \<noteq> None then Inl (Thrown (DecisionUnitDuplicated key))
     else Inr (omap_set key value values))"

definition decide_token ::
  "jsv \<Rightarrow> (ustr, ustr) omap \<Rightarrow> jsv \<Rightarrow> consensus_error thrown + (ustr, ustr) omap" where
  "decide_token sentence values token =
    sbind (field token (u ''tokenId'')) (\<lambda>tokenId.
      let prefix = to_str (own sentence (u ''sentenceId'')) @ u '':'' @ to_str tokenId in
      foldE (\<lambda>values fld. set_unique_decision_value values (prefix @ u '':'' @ fld)
                (canonical_value (own token fld)))
        values (map snd token_dimensions))"

definition decide_sentence ::
  "(ustr, ustr) omap \<Rightarrow> jsv \<Rightarrow> consensus_error thrown + (ustr, ustr) omap" where
  "decide_sentence values sentence =
    sbind (field sentence (u ''sentenceId'')) (\<lambda>sentenceId.
    sbind (set_unique_decision_value values (to_str sentenceId @ u '':structurallyAcceptable'')
        (canonical_value (own sentence (u ''structurallyAcceptable'')))) (\<lambda>values.
    sbind (set_unique_decision_value values (to_str sentenceId @ u '':completePredicate'')
        (canonical_value (own sentence (u ''completePredicate'')))) (\<lambda>values.
    sbind (iter (own sentence (u ''tokens''))) (\<lambda>tokens.
      foldE (decide_token sentence) values tokens))))"

definition decision_map :: "jsv \<Rightarrow> consensus_error thrown + (ustr, ustr) omap" where
  "decision_map annotation =
    sbind (field annotation (u ''sentences'')) (\<lambda>sentences.
    sbind (iter sentences) (foldE decide_sentence []))"

definition novel_step :: "(ustr, ustr) omap \<Rightarrow> (ustr, ustr) omap \<Rightarrow> nat \<Rightarrow> ustr \<times> ustr \<Rightarrow>
    consensus_error thrown + nat" where
  "novel_step a b count entry =
    (case entry of (key, finalValue) \<Rightarrow>
      (case (omap_get a key, omap_get b key) of
         (Some va, Some vb) \<Rightarrow>
           Inr (if finalValue \<noteq> va \<and> finalValue \<noteq> vb then count + 1 else count)
       | _ \<Rightarrow> Inl (Thrown (FinalUnitNotBound key))))"

definition count_novel_primary_decisions :: "jsv \<Rightarrow> jsv \<Rightarrow> jsv \<Rightarrow> consensus_error thrown + nat" where
  "count_novel_primary_decisions annotationA annotationB finalDecision =
    sbind (decision_map annotationA) (\<lambda>a.
    sbind (decision_map annotationB) (\<lambda>b.
    sbind (decision_map finalDecision) (\<lambda>final.
    sbind (foldE (novel_step a b) 0 final) (\<lambda>count.
    sbind (ensure (length final = length a \<and> length final = length b) (Thrown FinalCoverageDiffers))
      (\<lambda>_. Inr count)))))"

section \<open>Event hashes\<close>

definition consensus_event_hash :: "(nat list \<Rightarrow> ustr) \<Rightarrow> jsv \<Rightarrow> ustr" where
  "consensus_event_hash sha256 event = sha256 (utf8_encode (canonical_json event))"

section \<open>Facts\<close>

subsection \<open>Identities\<close>

lemma colon_v_inject: "a @ u '':v'' @ int_str m = b @ u '':v'' @ int_str n \<longleftrightarrow> a = b \<and> m = n"
  using int_str_sep[of 118 "a @ [58]" m "b @ [58]" n] by (auto simp: u_def)

lemma colon_r_inject: "a @ u '':r'' @ nat_str m = b @ u '':r'' @ nat_str n \<longleftrightarrow> a = b \<and> m = n"
  using nat_str_sep[of 114 "a @ [58]" m "b @ [58]" n] by (auto simp: u_def)

lemma tiId_inject:
  "tiId (task_version_identity p r) = tiId (task_version_identity p' r') \<longleftrightarrow>
     pkTaskId p = pkTaskId p' \<and> pkTaskVersion p = pkTaskVersion p'"
  by (simp add: task_version_identity_def colon_v_inject)

lemma consensus_round_id_inject [simp]:
  "consensus_round_id a m = consensus_round_id b n \<longleftrightarrow> a = b \<and> m = n"
  by (simp add: consensus_round_id_def colon_r_inject)

subsection \<open>Counting and bounds\<close>

lemma count_of_bump: "count_of (bump l m) k = count_of m k + (if k = l then 1 else 0)"
  by (auto simp: count_of_def bump_def split: option.splits)

lemma omap_keys_bump: "fst ` set (bump l m) = insert l (fst ` set m)"
  using omap_keys_set[of l _ m] by (metis bump_def list.set_map insert_absorb set_append
      Un_insert_right append_Nil2 list.simps(15) sup_bot_right empty_set)

lemma kappa_counts_eq:
  "kappa_counts pairs (n, l, r) = (n', l', r') \<Longrightarrow>
     n' = n + length (filter (\<lambda>(a, b). a = b) pairs)
   \<and> (\<forall>k. count_of l' k = count_of l k + count_list (map fst pairs) k)
   \<and> (\<forall>k. count_of r' k = count_of r k + count_list (map snd pairs) k)
   \<and> set (omap_keys l') = set (omap_keys l) \<union> fst ` set pairs
   \<and> set (omap_keys r') = set (omap_keys r) \<union> snd ` set pairs"
proof (induction pairs arbitrary: n l r)
  case Nil
  then show ?case by simp
next
  case (Cons p pairs)
  obtain a b where p: "p = (a, b)" by fastforce
  with Cons.prems have "kappa_counts pairs (if a = b then n + 1 else n, bump a l, bump b r) = (n', l', r')"
    by simp
  from Cons.IH[OF this] show ?case
    by (auto simp: p count_of_bump omap_keys_bump)
qed

lemma sum_fadd_bounds:
  assumes "\<forall>x \<in> set xs. 0 \<le> x \<and> x \<le> 1" "0 \<le> a" "a \<le> of_nat k" "k + length xs \<le> 2 ^ 53"
  shows "0 \<le> foldl fadd a xs \<and> foldl fadd a xs \<le> of_nat (k + length xs)"
  using assms
proof (induction xs arbitrary: a k)
  case Nil
  then show ?case by simp
next
  case (Cons x xs)
  have "fl (a + x) \<le> fl (of_int (int (k + 1)))"
    using Cons.prems by (intro fl_mono) auto
  also have "\<dots> = of_nat (k + 1)" using Cons.prems by (subst fl_of_int) auto
  finally have "fadd a x \<le> of_nat (k + 1)" by (simp add: fadd_def)
  moreover have "0 \<le> fadd a x" using Cons.prems by (simp add: fadd_def fl_bounds)
  ultimately show ?case using Cons.IH[of "fadd a x" "k + 1"] Cons.prems by simp
qed

lemma average_bounds:
  assumes "\<forall>x \<in> set xs. 0 \<le> x \<and> x \<le> 1" "length xs \<le> 2 ^ 53"
  shows "0 \<le> average xs" "average xs \<le> 1"
proof -
  note b = sum_fadd_bounds[OF assms(1), of 0 0]
  show "0 \<le> average xs" using b assms by (auto simp: average_def fdiv_def intro!: fl_bounds)
  show "average xs \<le> 1"
    using b assms by (auto simp: average_def fdiv_def divide_le_eq_1 intro!: fl_bounds)
qed

lemma dimension_of_bounds:
  "0 \<le> rawAgreement (dimension_of nm ps)" "rawAgreement (dimension_of nm ps) \<le> 1"
  "disagreementCount (dimension_of nm ps) \<le> unitCount (dimension_of nm ps)"
  by (auto simp: dimension_of_def Let_def fdiv_def intro!: fl_bounds simp: divide_le_eq_1)

lemma dimension_of_agree:
  "disagreementCount (dimension_of nm ps) = 0 \<Longrightarrow> rawAgreement (dimension_of nm ps) = 1"
  by (auto simp: dimension_of_def Let_def fdiv_def)

subsection \<open>Full agreement\<close>

lemma foldl_fadd_ones: "k + n \<le> 2 ^ 53 \<Longrightarrow> foldl fadd (of_nat k) (replicate n 1) = of_nat (k + n)"
proof (induction n arbitrary: k)
  case 0
  then show ?case by simp
next
  case (Suc n)
  have "fadd (of_nat k) 1 = of_nat (k + 1)"
    using fl_of_int[of "int (k + 1)"] Suc.prems by (simp add: fadd_def add.commute)
  then show ?case using Suc.IH[of "k + 1"] Suc.prems by simp
qed

lemma average_ones:
  assumes "\<forall>x \<in> set xs. x = 1" "xs \<noteq> []" "length xs \<le> 2 ^ 53"
  shows "average xs = 1"
proof -
  have "xs = replicate (length xs) 1" using assms(1) by (simp add: replicate_eqI)
  then have "foldl fadd 0 xs = of_nat (length xs)"
    using foldl_fadd_ones[of 0 "length xs"] assms(3) by (metis add_0 of_nat_0)
  then show ?thesis using assms(2) by (simp add: average_def fdiv_def)
qed

lemma foldl_fadd_range:
  "foldl (\<lambda>e x. fadd e (f x)) 0 xs = 0 \<or> (\<exists>y. foldl (\<lambda>e x. fadd e (f x)) 0 xs = fl y)"
  by (induction xs rule: rev_induct) (auto simp: fadd_def)

lemma cohen_kappa_agree:
  assumes "\<forall>(a, b) \<in> set pairs. a = b" "cohen_kappa pairs = Some k"
  shows "k = 1"
proof -
  obtain n l r where c: "kappa_counts pairs (0, [], []) = (n, l, r)" by (metis prod_cases3)
  have ne: "pairs \<noteq> []" using assms(2) by (auto simp: cohen_kappa_def)
  have "filter (\<lambda>(a, b). a = b) pairs = pairs" using assms(1) by (simp add: filter_id_conv)
  with kappa_counts_eq[OF c] have n: "n = length pairs" by simp
  define e where "e = expected_agreement l r (length pairs)"
  have "e = 0 \<or> (\<exists>y. e = fl y)"
    unfolding e_def expected_agreement_def by (rule foldl_fadd_range)
  then obtain y where y: "e = fl y" by (metis fl_0)
  have k: "e \<noteq> 1" "k = fdiv (fsub 1 e) (fsub 1 e)"
    using assms(2) ne c by (auto simp: cohen_kappa_def kappa_ratio_def e_def n fdiv_def split: if_splits)
  with fl_one_minus_nonzero[OF y] show "k = 1" by (simp add: fdiv_def fsub_def)
qed

lemma dimension_of_kappa:
  assumes "disagreementCount (dimension_of nm ps) = 0" "cohenKappa (dimension_of nm ps) = Some k"
  shows "k = 1"
  using assms by (intro cohen_kappa_agree[of ps]) (auto simp: dimension_of_def Let_def filter_empty_conv)

subsection \<open>The dimensions of a computed agreement\<close>

lemma compute_independent_agreement_dims:
  assumes "compute_independent_agreement a b = Inr m"
  shows "\<exists>sps tps. m = agreement_of
      (map2 (\<lambda>(nm, _) ps. dimension_of nm ps) sentence_dimensions sps
       @ map2 (\<lambda>(nm, _) ps. dimension_of nm ps) token_dimensions tps)
    \<and> list_all2 (\<lambda>(_, fld) ps. sentence_pairs a b fld = Inr ps) sentence_dimensions sps
    \<and> list_all2 (\<lambda>(_, fld) ps. token_pairs a b fld = Inr ps) token_dimensions tps
    \<and> assert_comparable_coverage a b = Inr ()"
proof -
  have gen: "\<exists>pss. ds = map2 (\<lambda>(nm, _) ps. dimension_of nm ps) xs pss
      \<and> list_all2 (\<lambda>(_, fld) ps. P fld = Inr ps) xs pss"
    if "list_all2 (\<lambda>(nm, fld) d. sbind (P fld) (\<lambda>ps. Inr (dimension_of nm ps)) = Inr d) xs ds"
    for P :: "ustr \<Rightarrow> consensus_error thrown + (ustr \<times> ustr) list" and xs :: "(ustr \<times> ustr) list"
      and ds :: "dimension list"
    using that
  proof (induction rule: list_all2_induct)
    case Nil
    then show ?case by simp
  next
    case (Cons x xs d ds)
    obtain nm fld where x: "x = (nm, fld)" by fastforce
    with Cons.hyps obtain ps where ps: "P fld = Inr ps" "d = dimension_of nm ps"
      by (auto simp: sbind_eq_Inr)
    from Cons.IH obtain pss where "ds = map2 (\<lambda>(nm, _) ps. dimension_of nm ps) xs pss"
      "list_all2 (\<lambda>(_, fld) ps. P fld = Inr ps) xs pss" by blast
    with ps x show ?case by (intro exI[of _ "ps # pss"]) simp
  qed
  from assms show ?thesis
    unfolding compute_independent_agreement_def sbind_eq_Inr mapE_eq_Inr
    by (auto simp: case_prod_unfold dest!: gen[unfolded case_prod_unfold])
qed

lemma list_all2_unitCount:
  assumes "list_all2 (\<lambda>(_, fld) ps. P fld = Inr ps) xs pss" "\<And>fld ps. P fld = Inr ps \<Longrightarrow> length ps = n"
  shows "\<forall>d \<in> set (map2 (\<lambda>(nm, _) ps. dimension_of nm ps) xs pss). unitCount d = n"
  using assms(1)
  by (induction rule: list_all2_induct) (auto simp: dimension_of_def Let_def dest: assms(2))

lemma sentence_pairs_length: "sentence_pairs a b fld = Inr ps \<Longrightarrow> length ps = length (sentences_of a)"
  by (auto simp: sentence_pairs_def dest: mapE_length)

lemma token_pairs_length: "token_pairs a b fld = Inr ps \<Longrightarrow> length ps = length (keyed_tokens a)"
  by (auto simp: token_pairs_def dest: mapE_length)

text \<open>Every dimension is one that \<open>dimension_of\<close> built.\<close>

lemma compute_independent_agreement_built:
  assumes "compute_independent_agreement a b = Inr m"
  obtains ds where "m = agreement_of ds" "length ds = 8"
    "\<forall>d \<in> set ds. \<exists>nm (ps :: (ustr \<times> ustr) list). d = dimension_of nm ps"
proof -
  obtain sps tps where m: "m = agreement_of
      (map2 (\<lambda>(nm, _) ps. dimension_of nm ps) sentence_dimensions sps
       @ map2 (\<lambda>(nm, _) ps. dimension_of nm ps) token_dimensions tps)"
    and l: "list_all2 (\<lambda>(_, fld) ps. sentence_pairs a b fld = Inr ps) sentence_dimensions sps"
      "list_all2 (\<lambda>(_, fld) ps. token_pairs a b fld = Inr ps) token_dimensions tps"
    using compute_independent_agreement_dims[OF assms] by blast
  have "length sps = 2" "length tps = 6"
    using l[THEN list_all2_lengthD] by (simp_all add: sentence_dimensions_def token_dimensions_def)
  then show thesis
    by (intro that[OF m])
      (auto simp: sentence_dimensions_def token_dimensions_def case_prod_unfold)
qed

lemma agreement_of_fields:
  "agUnitCount (agreement_of ds) = sum_list (map unitCount ds)"
  "exactAgreement (agreement_of ds) \<longleftrightarrow> (\<forall>d \<in> set ds. disagreementCount d = 0)"
  "macroRawAgreement (agreement_of ds) = average (map rawAgreement ds)"
  "macroDefinedKappa (agreement_of ds) =
     (if defined_kappas ds = [] then None else Some (average (defined_kappas ds)))"
  "dimensions (agreement_of ds) = ds"
  by (simp_all add: agreement_of_def list_all_iff)

lemma length_map_filter: "length (List.map_filter f xs) \<le> length xs"
  by (induction xs) (auto simp: map_filter_simps split: option.splits)

lemma set_defined_kappas: "k \<in> set (defined_kappas ds) \<Longrightarrow> \<exists>d \<in> set ds. cohenKappa d = Some k"
  by (auto simp: defined_kappas_def List.map_filter_def split: if_splits)

subsection \<open>Decision maps\<close>

lemma set_unique_distinct:
  "set_unique_decision_value m k v = Inr m' \<Longrightarrow> distinct (omap_keys m) \<Longrightarrow> distinct (omap_keys m')"
  by (auto simp: set_unique_decision_value_def distinct_omap_set split: if_splits)

lemma foldE_invariant:
  assumes "\<And>s x s'. P s \<Longrightarrow> f s x = Inr s' \<Longrightarrow> P s'" "foldE f s xs = Inr s'" "P s"
  shows "P s'"
  using assms(2,3) by (induction xs arbitrary: s) (auto simp: sbind_eq_Inr dest: assms(1))

lemma decision_map_distinct:
  assumes "decision_map a = Inr m"
  shows "distinct (omap_keys m)"
proof -
  have tok: "distinct (omap_keys m')" if "decide_token s m t = Inr m'" "distinct (omap_keys m)" for s m t m'
    using that unfolding decide_token_def Let_def sbind_eq_Inr
    by (auto elim!: foldE_invariant[where P = "\<lambda>m. distinct (omap_keys m)", rotated]
        dest: set_unique_distinct)
  have sen: "distinct (omap_keys m')" if "decide_sentence m s = Inr m'" "distinct (omap_keys m)" for s m m'
    using that unfolding decide_sentence_def sbind_eq_Inr
    by (auto elim!: foldE_invariant[where P = "\<lambda>m. distinct (omap_keys m)", rotated]
        dest: set_unique_distinct tok)
  from assms show ?thesis unfolding decision_map_def sbind_eq_Inr
    by (auto elim!: foldE_invariant[where P = "\<lambda>m. distinct (omap_keys m)", rotated] dest: sen)
qed

lemma novel_fold:
  "foldE (novel_step a b) n fs = Inr n' \<Longrightarrow>
     n' = n + length (filter (\<lambda>(k, v). map_of a k \<noteq> Some v \<and> map_of b k \<noteq> Some v) fs)
   \<and> fst ` set fs \<subseteq> dom (map_of a) \<and> fst ` set fs \<subseteq> dom (map_of b)"
proof (induction fs arbitrary: n)
  case Nil
  then show ?case by simp
next
  case (Cons e fs)
  obtain k v where e: "e = (k, v)" by fastforce
  from Cons.prems obtain n1 where s: "novel_step a b n e = Inr n1" "foldE (novel_step a b) n1 fs = Inr n'"
    by (auto simp: sbind_eq_Inr)
  from s(1) have "n1 = n + (if map_of a k \<noteq> Some v \<and> map_of b k \<noteq> Some v then 1 else 0)"
    "k \<in> dom (map_of a)" "k \<in> dom (map_of b)"
    by (auto simp: e novel_step_def split: option.splits)
  with Cons.IH[OF s(2)] show ?case by (simp add: e)
qed

lemma subset_length_eq:
  assumes "distinct (map fst f)" "distinct (map fst a)" "fst ` set f \<subseteq> dom (map_of a)"
    "length f = length a"
  shows "dom (map_of f) = dom (map_of a)"
proof -
  have "card (fst ` set f) = card (fst ` set a)"
    using assms(1,2,4) by (metis distinct_card length_map list.set_map)
  moreover have "fst ` set f \<subseteq> fst ` set a" using assms(3) by (simp add: dom_map_of_conv_image_fst)
  ultimately show ?thesis
    by (simp add: card_subset_eq dom_map_of_conv_image_fst)
qed

section \<open>Properties\<close>

text \<open>A one-sentence, one-token document, to evaluate the definitions on.\<close>

definition sample_annotation :: "string \<Rightarrow> jsv" where
  "sample_annotation pos = JObj [(u ''sentences'', JArr [JObj
     [(u ''sentenceId'', JStr (u ''s1'')), (u ''structurallyAcceptable'', JBool True),
      (u ''completePredicate'', JBool False),
      (u ''tokens'', JArr [JObj [(u ''tokenId'', JNum 1), (u ''universalPartOfSpeech'', JStr (u pos)),
         (u ''headTokenId'', JNull), (u ''irabNotApplicable'', JBool True)]])]])]"

lemma sample_agreement:
  "\<exists>m. compute_independent_agreement (sample_annotation ''NOUN'') (sample_annotation ''NOUN'') = Inr m
     \<and> exactAgreement m"
  by (simp add: compute_independent_agreement_def assert_comparable_coverage_def annotation_coverage_def
      cover_sentence_def cover_token_def sentence_pairs_def token_pairs_def keyed_tokens_def
      sentences_of_def tokens_of_def js_map_get_def sample_annotation_def sentence_dimensions_def
      token_dimensions_def omap_of_entries_def token_key_def num_str_def u_def agreement_of_def
      dimension_of_def Let_def)

text \<open>
  Identities are unambiguous: two packets get the same task-version identifier exactly when
  they agree on task id and version, although both are free text and an integer joined by a
  separator that a task id may itself contain.
\<close>

theorem task_version_identity_unambiguous:
  "tiId (task_version_identity p r) = tiId (task_version_identity p' r') \<longleftrightarrow>
     pkTaskId p = pkTaskId p' \<and> pkTaskVersion p = pkTaskVersion p'"
  by (rule tiId_inject)

text \<open>
  Coverage of a computed agreement: the two annotations name the same units, there are eight
  dimensions, the two sentence dimensions count the sentences of A and the six token dimensions
  its tokens, and the total is the sum of those.
\<close>

theorem agreement_counts_units:
  assumes "compute_independent_agreement a b = Inr m"
  shows "(\<exists>ka kb. annotation_coverage a = Inr ka \<and> annotation_coverage b = Inr kb \<and> set ka \<subseteq> set kb
            \<and> length ka = length kb)
       \<and> map unitCount (dimensions m) =
           replicate 2 (length (sentences_of a)) @ replicate 6 (length (keyed_tokens a))
       \<and> agUnitCount m = 2 * length (sentences_of a) + 6 * length (keyed_tokens a)"
proof -
  obtain sps tps where m: "m = agreement_of
      (map2 (\<lambda>(nm, _) ps. dimension_of nm ps) sentence_dimensions sps
       @ map2 (\<lambda>(nm, _) ps. dimension_of nm ps) token_dimensions tps)"
    and l: "list_all2 (\<lambda>(_, fld) ps. sentence_pairs a b fld = Inr ps) sentence_dimensions sps"
      "list_all2 (\<lambda>(_, fld) ps. token_pairs a b fld = Inr ps) token_dimensions tps"
    and c: "assert_comparable_coverage a b = Inr ()"
    using compute_independent_agreement_dims[OF assms] by blast
  have "map unitCount (map2 (\<lambda>(nm, _) ps. dimension_of nm ps) sentence_dimensions sps)
      = replicate 2 (length (sentences_of a))"
    using list_all2_unitCount[OF l(1) sentence_pairs_length] list_all2_lengthD[OF l(1)]
    by (intro replicate_eqI) (auto simp: sentence_dimensions_def)
  moreover have "map unitCount (map2 (\<lambda>(nm, _) ps. dimension_of nm ps) token_dimensions tps)
      = replicate 6 (length (keyed_tokens a))"
    using list_all2_unitCount[OF l(2) token_pairs_length] list_all2_lengthD[OF l(2)]
    by (intro replicate_eqI) (auto simp: token_dimensions_def)
  ultimately have u: "map unitCount (dimensions m) =
      replicate 2 (length (sentences_of a)) @ replicate 6 (length (keyed_tokens a))"
    by (simp add: m agreement_of_fields)
  moreover have "agUnitCount m = sum_list (map unitCount (dimensions m))"
    by (simp add: m agreement_of_fields)
  ultimately show ?thesis
    using c by (auto simp: assert_comparable_coverage_def sbind_eq_Inr sum_list_replicate)
qed

theorem agreement_counts_units_witness:
  "\<exists>m. compute_independent_agreement (sample_annotation ''NOUN'') (sample_annotation ''NOUN'') = Inr m
     \<and> agUnitCount m = 8"
proof -
  have "length (sentences_of (sample_annotation ''NOUN'')) = 1"
    "length (keyed_tokens (sample_annotation ''NOUN'')) = 1" by code_simp+
  with sample_agreement agreement_counts_units show ?thesis by force
qed

text \<open>
  C32. The metrics are in range, rounding included: every raw agreement and their average lie in
  the unit interval, no dimension reports more disagreements than units, and a dimension without
  disagreements reports exactly 1.
\<close>

theorem agreement_metrics_bounded:
  assumes "compute_independent_agreement a b = Inr m"
  shows "0 \<le> macroRawAgreement m \<and> macroRawAgreement m \<le> 1
       \<and> (\<forall>d \<in> set (dimensions m). 0 \<le> rawAgreement d \<and> rawAgreement d \<le> 1
            \<and> disagreementCount d \<le> unitCount d
            \<and> (disagreementCount d = 0 \<longrightarrow> rawAgreement d = 1))"
proof -
  obtain ds where m: "m = agreement_of ds" "length ds = 8"
    and built: "\<forall>d \<in> set ds. \<exists>nm (ps :: (ustr \<times> ustr) list). d = dimension_of nm ps"
    by (rule compute_independent_agreement_built[OF assms])
  have d: "0 \<le> rawAgreement d \<and> rawAgreement d \<le> 1 \<and> disagreementCount d \<le> unitCount d
      \<and> (disagreementCount d = 0 \<longrightarrow> rawAgreement d = 1)" if "d \<in> set ds" for d
    using bspec[OF built that] by (auto simp: dimension_of_bounds dimension_of_agree)
  with average_bounds[of "map rawAgreement ds"] m show ?thesis
    by (simp add: agreement_of_fields)
qed

theorem agreement_metrics_bounded_witness:
  "\<exists>m. compute_independent_agreement (sample_annotation ''NOUN'') (sample_annotation ''NOUN'') = Inr m
     \<and> macroRawAgreement m \<le> 1"
  using sample_agreement agreement_metrics_bounded by blast

text \<open>
  Identical decisions pass the policy: when two annotations agree on every unit, the macro raw
  agreement is exactly 1 and every defined kappa is exactly 1 (the floating-point quotient does
  not fall short), so any policy whose thresholds are at most 1 and that falls back to raw
  agreement is met.
\<close>

theorem identical_decisions_pass_policy:
  assumes "compute_independent_agreement a b = Inr m" "exactAgreement m"
    and "minimumRawAgreement p \<le> 1" "minimumDefinedKappa p \<le> 1"
    and "undefinedKappaFallback p = JStr (u ''raw-agreement'')"
  shows "macroRawAgreement m = 1 \<and> macroDefinedKappa m \<in> {None, Some 1} \<and> agreement_policy_passed m p"
proof -
  obtain ds where m: "m = agreement_of ds" "length ds = 8"
    and built: "\<forall>d \<in> set ds. \<exists>nm (ps :: (ustr \<times> ustr) list). d = dimension_of nm ps"
    by (rule compute_independent_agreement_built[OF assms(1)])
  have z: "rawAgreement d = 1 \<and> (\<forall>k. cohenKappa d = Some k \<longrightarrow> k = 1)" if "d \<in> set ds" for d
    using bspec[OF built that] assms(2) that
    by (auto simp: m agreement_of_fields dimension_of_agree intro: dimension_of_kappa)
  then have raw: "macroRawAgreement m = 1"
    using m by (auto simp: agreement_of_fields intro!: average_ones)
  have "\<forall>k \<in> set (defined_kappas ds). k = 1" using z set_defined_kappas by blast
  moreover have "length (defined_kappas ds) \<le> 8"
    using length_map_filter[of cohenKappa ds] m by (simp add: defined_kappas_def)
  ultimately have "macroDefinedKappa m \<in> {None, Some 1}"
    by (auto simp: m agreement_of_fields intro!: average_ones)
  with raw assms(3-5) show ?thesis by (auto simp: agreement_policy_passed_def)
qed

theorem identical_decisions_pass_policy_witness:
  "\<exists>m. compute_independent_agreement (sample_annotation ''NOUN'') (sample_annotation ''NOUN'') = Inr m
     \<and> agreement_policy_passed m DEFAULT_METRIC_POLICY"
proof -
  have "minimumRawAgreement DEFAULT_METRIC_POLICY \<le> 1" "minimumDefinedKappa DEFAULT_METRIC_POLICY \<le> 1"
    by (simp_all add: DEFAULT_METRIC_POLICY_def fl_bounds)
  moreover have "undefinedKappaFallback DEFAULT_METRIC_POLICY = JStr (u ''raw-agreement'')"
    by (simp add: DEFAULT_METRIC_POLICY_def)
  ultimately show ?thesis using sample_agreement identical_decisions_pass_policy by blast
qed

text \<open>
  Novel decisions are counted exactly: on success all three documents decide the same units,
  once each, and the count is the number of units whose final value is neither A's nor B's.
\<close>

theorem novel_decisions_exact:
  assumes "count_novel_primary_decisions a b f = Inr n"
  shows "\<exists>ma mb mf. decision_map a = Inr ma \<and> decision_map b = Inr mb \<and> decision_map f = Inr mf
     \<and> distinct (omap_keys mf) \<and> dom (omap_get mf) = dom (omap_get ma) \<and> dom (omap_get mf) = dom (omap_get mb)
     \<and> n = length (filter (\<lambda>(k, v). omap_get ma k \<noteq> Some v \<and> omap_get mb k \<noteq> Some v) mf)"
proof -
  obtain ma mb mf where d: "decision_map a = Inr ma" "decision_map b = Inr mb" "decision_map f = Inr mf"
    and fold: "foldE (novel_step ma mb) 0 mf = Inr n"
    and len: "length mf = length ma" "length mf = length mb"
    using assms by (auto simp: count_novel_primary_decisions_def sbind_eq_Inr)
  note dist = d[THEN decision_map_distinct]
  from novel_fold[OF fold] subset_length_eq[OF dist(3) dist(1)] subset_length_eq[OF dist(3) dist(2)]
    d dist len show ?thesis by auto
qed

theorem novel_decisions_exact_witness:
  "count_novel_primary_decisions (sample_annotation ''NOUN'') (sample_annotation ''VERB'')
     (sample_annotation ''ADJ'') = Inr 1
   \<and> (\<exists>mf. decision_map (sample_annotation ''ADJ'') = Inr mf \<and> distinct (omap_keys mf))"
proof -
  have "count_novel_primary_decisions (sample_annotation ''NOUN'') (sample_annotation ''VERB'')
     (sample_annotation ''ADJ'') = Inr 1"
    by (simp add: count_novel_primary_decisions_def decision_map_def decide_sentence_def
        decide_token_def sample_annotation_def field_def set_unique_decision_value_def
        token_dimensions_def canonical_value_def json_text_def json_quote_def num_str_def int_str_def
        nat_str.simps Let_def u_def novel_step_def quote_unit_def high_surrogate_def low_surrogate_def)
  from this novel_decisions_exact[OF this] show ?thesis by blast
qed

end
