(* ===== verification/Patterns.thy ===== *)
theory Patterns
  imports JsValue
begin

text \<open>
  The regular expressions of the validators. A pattern is a term, \<open>RegExp.test\<close> is membership of
  some substring in its language (no pattern of the source captures or looks around, other than
  the word boundary \<open>\b\<close>, a condition on positions). The matcher takes derivatives; it is proved
  equal to the language. Code units stand for code points: no class of the source separates an
  astral character from its surrogates.
\<close>

section \<open>Regular expressions\<close>

datatype rx =
    RNone
  | REps
  | RCls "nat \<Rightarrow> bool"
  | RSeq rx rx
  | RAlt rx rx
  | RStar rx

primrec nullable :: "rx \<Rightarrow> bool" where
  "nullable RNone = False"
| "nullable REps = True"
| "nullable (RCls p) = False"
| "nullable (RSeq r t) = (nullable r \<and> nullable t)"
| "nullable (RAlt r t) = (nullable r \<or> nullable t)"
| "nullable (RStar r) = True"

primrec deriv :: "nat \<Rightarrow> rx \<Rightarrow> rx" where
  "deriv c RNone = RNone"
| "deriv c REps = RNone"
| "deriv c (RCls p) = (if p c then REps else RNone)"
| "deriv c (RSeq r t) = (if nullable r then RAlt (RSeq (deriv c r) t) (deriv c t)
                         else RSeq (deriv c r) t)"
| "deriv c (RAlt r t) = RAlt (deriv c r) (deriv c t)"
| "deriv c (RStar r) = RSeq (deriv c r) (RStar r)"

fun matches :: "rx \<Rightarrow> ustr \<Rightarrow> bool" where
  "matches r [] = nullable r"
| "matches r (c # s) = matches (deriv c r) s"

inductive in_lang :: "rx \<Rightarrow> ustr \<Rightarrow> bool" where
  eps: "in_lang REps []"
| cls: "p c \<Longrightarrow> in_lang (RCls p) [c]"
| seq: "in_lang r s \<Longrightarrow> in_lang t w \<Longrightarrow> in_lang (RSeq r t) (s @ w)"
| alt1: "in_lang r s \<Longrightarrow> in_lang (RAlt r t) s"
| alt2: "in_lang t s \<Longrightarrow> in_lang (RAlt r t) s"
| star_nil: "in_lang (RStar r) []"
| star_cons: "in_lang r s \<Longrightarrow> in_lang (RStar r) w \<Longrightarrow> in_lang (RStar r) (s @ w)"

inductive_cases in_lang_NoneE [elim!]: "in_lang RNone s"
inductive_cases in_lang_EpsE [elim!]: "in_lang REps s"
inductive_cases in_lang_ClsE [elim!]: "in_lang (RCls p) s"
inductive_cases in_lang_SeqE: "in_lang (RSeq r t) s"
inductive_cases in_lang_AltE [elim!]: "in_lang (RAlt r t) s"

lemma nullable_iff: "nullable r \<longleftrightarrow> in_lang r []"
proof (induction r)
  case (RSeq r t)
  then show ?case by (auto elim!: in_lang_SeqE intro: in_lang.seq[of _ "[]" _ "[]", simplified])
qed (auto intro: in_lang.intros)

lemma star_split:
  assumes "in_lang (RStar r) (c # s)"
  shows "\<exists>a b. s = a @ b \<and> in_lang r (c # a) \<and> in_lang (RStar r) b"
proof -
  have "\<lbrakk>in_lang q w; q = RStar r; w = c # s\<rbrakk> \<Longrightarrow>
      \<exists>a b. s = a @ b \<and> in_lang r (c # a) \<and> in_lang (RStar r) b" for q w
  proof (induction rule: in_lang.induct)
    case (star_cons r' x w)
    then show ?case by (cases x) auto
  qed auto
  with assms show ?thesis by blast
qed

lemma deriv_iff: "in_lang (deriv c r) s \<longleftrightarrow> in_lang r (c # s)"
proof (induction r arbitrary: s)
  case (RSeq r t)
  show ?case
  proof
    assume "in_lang (deriv c (RSeq r t)) s"
    then consider a b where "s = a @ b" "in_lang (deriv c r) a" "in_lang t b"
      | "nullable r" "in_lang (deriv c t) s"
      by (auto elim!: in_lang_SeqE split: if_splits)
    then show "in_lang (RSeq r t) (c # s)"
    proof cases
      case 1
      then show ?thesis using RSeq.IH(1) in_lang.seq[of r "c # a" t b] by simp
    next
      case 2
      then show ?thesis using RSeq.IH(2) in_lang.seq[of r "[]" t "c # s"] by (simp add: nullable_iff)
    qed
  next
    assume "in_lang (RSeq r t) (c # s)"
    then obtain a b where ab: "c # s = a @ b" "in_lang r a" "in_lang t b"
      by (auto elim!: in_lang_SeqE)
    show "in_lang (deriv c (RSeq r t)) s"
    proof (cases a)
      case Nil
      with ab RSeq.IH show ?thesis by (auto simp: nullable_iff intro: in_lang.alt2)
    next
      case (Cons d a')
      with ab RSeq.IH have "in_lang (RSeq (deriv c r) t) s" by (auto intro: in_lang.seq)
      then show ?thesis by (auto intro: in_lang.alt1)
    qed
  qed
next
  case (RStar r)
  show ?case
  proof
    assume "in_lang (deriv c (RStar r)) s"
    then obtain a b where "s = a @ b" "in_lang (deriv c r) a" "in_lang (RStar r) b"
      by (auto elim!: in_lang_SeqE)
    then show "in_lang (RStar r) (c # s)"
      using RStar.IH in_lang.star_cons[of r "c # a" b] by simp
  next
    assume "in_lang (RStar r) (c # s)"
    then show "in_lang (deriv c (RStar r)) s"
      using star_split RStar.IH by (fastforce intro: in_lang.seq)
  qed
qed (auto intro: in_lang.intros)

theorem matches_in_lang: "matches r s \<longleftrightarrow> in_lang r s"
  by (induction s arbitrary: r) (simp_all add: nullable_iff deriv_iff)

section \<open>Searching\<close>

text \<open>
  \<open>test\<close> of an unanchored pattern: some substring matches, where the start and end positions
  satisfy the pattern's boundary conditions.
\<close>

definition rx_search :: "(ustr \<Rightarrow> nat \<Rightarrow> bool) \<Rightarrow> (ustr \<Rightarrow> nat \<Rightarrow> bool) \<Rightarrow> rx \<Rightarrow> ustr \<Rightarrow> bool" where
  "rx_search before after r s =
    list_ex (\<lambda>i. before s i \<and> list_ex (\<lambda>n. after s (i + n) \<and> matches r (take n (drop i s)))
        [0..<length s - i + 1])
      [0..<length s + 1]"

definition anywhere :: "ustr \<Rightarrow> nat \<Rightarrow> bool" where
  "anywhere s i = True"

abbreviation rx_test :: "rx \<Rightarrow> ustr \<Rightarrow> bool" where
  "rx_test \<equiv> rx_search anywhere anywhere"

lemma rx_test_iff: "rx_test r s \<longleftrightarrow> (\<exists>a m b. s = a @ m @ b \<and> in_lang r m)"
proof
  assume "rx_test r s"
  then obtain i n where "in_lang r (take n (drop i s))"
    unfolding rx_search_def list_ex_iff matches_in_lang anywhere_def by blast
  then show "\<exists>a m b. s = a @ m @ b \<and> in_lang r m"
    by (metis append_take_drop_id)
next
  assume "\<exists>a m b. s = a @ m @ b \<and> in_lang r m"
  then obtain a m b where "s = a @ m @ b" "in_lang r m" by blast
  then have "in_lang r (take (length m) (drop (length a) s))" "length a + length m \<le> length s"
    by simp_all
  then show "rx_test r s"
    unfolding rx_search_def list_ex_iff matches_in_lang anywhere_def
    by (intro bexI[of _ "length a"] conjI TrueI bexI[of _ "length m"]) auto
qed

text \<open>A text that contains a match still contains it after more text is put around it.\<close>

lemma rx_test_superstring: "rx_test r m \<Longrightarrow> rx_test r (a @ m @ b)"
  unfolding rx_test_iff by (metis append.assoc)

section \<open>Character classes\<close>

definition rng :: "char \<Rightarrow> char \<Rightarrow> nat \<Rightarrow> bool" where
  "rng a b c \<longleftrightarrow> of_char a \<le> c \<and> c \<le> of_char b"

definition one_of :: "string \<Rightarrow> nat \<Rightarrow> bool" where
  "one_of cs c \<longleftrightarrow> c \<in> set (u cs)"

definition digit :: "nat \<Rightarrow> bool" where "digit = rng CHR ''0'' CHR ''9''"
definition alnum :: "nat \<Rightarrow> bool" where
  "alnum c \<longleftrightarrow> rng CHR ''A'' CHR ''Z'' c \<or> rng CHR ''a'' CHR ''z'' c \<or> digit c"
definition lower_hex :: "nat \<Rightarrow> bool" where
  "lower_hex c \<longleftrightarrow> digit c \<or> rng CHR ''a'' CHR ''f'' c"
definition any_hex :: "nat \<Rightarrow> bool" where
  "any_hex c \<longleftrightarrow> lower_hex c \<or> rng CHR ''A'' CHR ''F'' c"

text \<open>\<open>\s\<close>, also the characters \<open>trim\<close> removes.\<close>

definition js_space :: "nat \<Rightarrow> bool" where
  "js_space c \<longleftrightarrow> 9 \<le> c \<and> c \<le> 13 \<or> c = 32 \<or> c = 0xA0 \<or> c = 0x1680 \<or> 0x2000 \<le> c \<and> c \<le> 0x200A
     \<or> c = 0x2028 \<or> c = 0x2029 \<or> c = 0x202F \<or> c = 0x205F \<or> c = 0x3000 \<or> c = 0xFEFF"

definition js_trim :: "ustr \<Rightarrow> ustr" where
  "js_trim s = rev (dropWhile js_space (rev (dropWhile js_space s)))"

lemma js_trim_idem [simp]: "js_trim (js_trim s) = js_trim s"
proof -
  have hd: "dropWhile js_space s = [] \<or> \<not> js_space (hd (dropWhile js_space s))"
    using hd_dropWhile by blast
  have "dropWhile js_space (js_trim s) = js_trim s"
  proof (cases "js_trim s")
    case (Cons c r)
    then obtain pre where "dropWhile js_space s = (c # r) @ pre"
      unfolding js_trim_def
      by (metis rev_append rev_rev_ident rev_swap takeWhile_dropWhile_id)
    with hd have "\<not> js_space c" by auto
    with Cons show ?thesis by simp
  qed simp
  then show ?thesis by (simp add: js_trim_def)
qed

lemma js_trim_length: "length (js_trim s) \<le> length s"
  unfolding js_trim_def by (metis length_dropWhile_le length_rev order_trans)

text \<open>
  The \<open>i\<close> flag with \<open>u\<close>: a letter matches what folds to it, so \<open>s\<close> also matches U+017F and
  \<open>k\<close> U+212A; word characters grow by the same two.
\<close>

definition icase :: "char \<Rightarrow> nat \<Rightarrow> bool" where
  "icase a c \<longleftrightarrow> c = of_char a \<or> c + 32 = of_char a \<or> a = CHR ''s'' \<and> c = 0x17F \<or> a = CHR ''k'' \<and> c = 0x212A"

definition iletter :: "nat \<Rightarrow> bool" where
  "iletter c \<longleftrightarrow> rng CHR ''a'' CHR ''z'' c \<or> rng CHR ''A'' CHR ''Z'' c \<or> c = 0x17F \<or> c = 0x212A"

definition word_char :: "nat \<Rightarrow> bool" where
  "word_char c \<longleftrightarrow> alnum c \<or> c = of_char CHR ''_''"

definition iword_char :: "nat \<Rightarrow> bool" where
  "iword_char c \<longleftrightarrow> word_char c \<or> c = 0x17F \<or> c = 0x212A"

text \<open>\<open>\b\<close> at position \<open>i\<close>.\<close>

definition boundary :: "(nat \<Rightarrow> bool) \<Rightarrow> ustr \<Rightarrow> nat \<Rightarrow> bool" where
  "boundary w s i \<longleftrightarrow> (0 < i \<and> i \<le> length s \<and> w (s ! (i - 1))) \<noteq> (i < length s \<and> w (s ! i))"

section \<open>Combinators\<close>

fun rlit :: "string \<Rightarrow> rx" where
  "rlit [] = REps"
| "rlit (c # cs) = RSeq (RCls (\<lambda>d. d = of_char c)) (rlit cs)"

fun rilit :: "string \<Rightarrow> rx" where
  "rilit [] = REps"
| "rilit (c # cs) = RSeq (RCls (icase c)) (rilit cs)"

fun rtimes :: "nat \<Rightarrow> rx \<Rightarrow> rx" where
  "rtimes 0 r = REps"
| "rtimes (Suc n) r = RSeq r (rtimes n r)"

fun rupto :: "nat \<Rightarrow> rx \<Rightarrow> rx" where
  "rupto 0 r = REps"
| "rupto (Suc n) r = RAlt REps (RSeq r (rupto n r))"

definition rrange :: "nat \<Rightarrow> nat \<Rightarrow> rx \<Rightarrow> rx" where
  "rrange m n r = RSeq (rtimes m r) (rupto (n - m) r)"

definition ratleast :: "nat \<Rightarrow> rx \<Rightarrow> rx" where
  "ratleast n r = RSeq (rtimes n r) (RStar r)"

definition ropt :: "rx \<Rightarrow> rx" where
  "ropt r = RAlt REps r"

fun rseq :: "rx list \<Rightarrow> rx" where
  "rseq [] = REps"
| "rseq [r] = r"
| "rseq (r # rs) = RSeq r (rseq rs)"

fun ralt :: "rx list \<Rightarrow> rx" where
  "ralt [] = RNone"
| "ralt [r] = r"
| "ralt (r # rs) = RAlt r (ralt rs)"

section \<open>The patterns\<close>

text \<open>\<open>EMAIL_PATTERN\<close>, \<open>PHONE_PATTERN\<close>, \<open>RAW_HTML_PATTERN\<close>, \<open>MARKDOWN_IMAGE_PATTERN\<close>,
  \<open>UNSAFE_URL_PATTERN\<close> and \<open>CONTROL_PATTERN\<close> of \<open>public/protocol.js\<close>.\<close>

definition not_space_at :: "nat \<Rightarrow> bool" where
  "not_space_at c \<longleftrightarrow> \<not> js_space c \<and> c \<noteq> of_char CHR ''@''"

definition EMAIL_PATTERN :: rx where
  "EMAIL_PATTERN = rseq [ratleast 1 (RCls not_space_at), rlit ''@'', ratleast 1 (RCls not_space_at),
     rlit ''.'', ratleast 1 (RCls not_space_at)]"

definition PHONE_PATTERN :: rx where
  "PHONE_PATTERN = ratleast 7 (rseq [ropt (rlit ''+''), RCls digit,
     RStar (RCls (\<lambda>c. js_space c \<or> one_of ''().-'' c))])"

definition RAW_HTML_PATTERN :: rx where
  "RAW_HTML_PATTERN = rseq [rlit ''<'', ropt (rlit ''/''), RCls iletter,
     RStar (RCls (\<lambda>c. c \<noteq> of_char CHR ''>'')), rlit ''>'']"

definition MARKDOWN_IMAGE_PATTERN :: rx where
  "MARKDOWN_IMAGE_PATTERN = rseq [rlit ''!['', RStar (RCls (\<lambda>c. c \<noteq> of_char CHR '']'')), rlit '']'',
     RStar (RCls js_space), rlit ''('']"

definition UNSAFE_URL_PATTERN :: rx where
  "UNSAFE_URL_PATTERN = RSeq (RAlt (rilit ''javascript'') (rilit ''data'')) (rlit '':'')"

definition control_char :: "nat \<Rightarrow> bool" where
  "control_char c \<longleftrightarrow> c \<le> 8 \<or> c = 11 \<or> c = 12 \<or> 14 \<le> c \<and> c \<le> 31 \<or> c = 127"

definition CONTROL_PATTERN :: rx where
  "CONTROL_PATTERN = RCls control_char"

definition contains_unsafe_public_text :: "ustr \<Rightarrow> bool" where
  "contains_unsafe_public_text value \<longleftrightarrow>
     rx_test EMAIL_PATTERN value
   \<or> rx_test PHONE_PATTERN value
   \<or> rx_test RAW_HTML_PATTERN value
   \<or> rx_test MARKDOWN_IMAGE_PATTERN value
   \<or> rx_search (boundary iword_char) anywhere UNSAFE_URL_PATTERN value
   \<or> rx_test CONTROL_PATTERN value"

text \<open>\<open>identifier\<close>: \<open>/^[A-Za-z0-9][A-Za-z0-9._:-]{0,159}$/\<close> on a string.\<close>

definition id_char :: "nat \<Rightarrow> bool" where
  "id_char c \<longleftrightarrow> alnum c \<or> one_of ''._:-'' c"

definition IDENTIFIER_PATTERN :: "nat \<Rightarrow> nat \<Rightarrow> rx" where
  "IDENTIFIER_PATTERN m n = RSeq (RCls alnum) (rrange m n (RCls id_char))"

definition js_identifier :: "jsv \<Rightarrow> bool" where
  "js_identifier v = (case v of JStr s \<Rightarrow> matches (IDENTIFIER_PATTERN 0 159) s | _ \<Rightarrow> False)"

text \<open>UUIDs: \<open>version\<close> is the class of the version digit.\<close>

definition UUID_PATTERN :: "(nat \<Rightarrow> bool) \<Rightarrow> rx" where
  "UUID_PATTERN version = rseq [rtimes 8 (RCls any_hex), rlit ''-'', rtimes 4 (RCls any_hex), rlit ''-'',
     RCls version, rtimes 3 (RCls any_hex), rlit ''-'', RCls (one_of ''89abAB''), rtimes 3 (RCls any_hex),
     rlit ''-'', rtimes 12 (RCls any_hex)]"

section \<open>Lengths and alphabets\<close>

lemma in_lang_ratleast: "in_lang (ratleast n (RCls p)) s \<Longrightarrow> list_all p s \<and> n \<le> length s"
proof -
  have star: "in_lang q s \<Longrightarrow> q = RStar (RCls p) \<Longrightarrow> list_all p s" for q s
    by (induction rule: in_lang.induct) auto
  have times: "in_lang (rtimes n (RCls p)) s \<Longrightarrow> list_all p s \<and> n \<le> length s" for n s
    by (induction n arbitrary: s) (fastforce elim!: in_lang_SeqE)+
  show "in_lang (ratleast n (RCls p)) s \<Longrightarrow> list_all p s \<and> n \<le> length s"
    unfolding ratleast_def by (force elim!: in_lang_SeqE dest: star times)
qed

lemma in_lang_rtimes: "in_lang (rtimes n (RCls p)) s \<longleftrightarrow> list_all p s \<and> length s = n"
proof (induction n arbitrary: s)
  case 0
  then show ?case by (auto intro: in_lang.eps)
next
  case (Suc n)
  then show ?case
    by (cases s) (force elim!: in_lang_SeqE intro: in_lang.seq[of _ "[c]" for c, simplified] in_lang.cls)+
qed

lemma in_lang_rupto: "in_lang (rupto n (RCls p)) s \<longleftrightarrow> list_all p s \<and> length s \<le> n"
proof (induction n arbitrary: s)
  case 0
  then show ?case by (auto intro: in_lang.eps)
next
  case (Suc n)
  then show ?case
    by (cases s) (force elim!: in_lang_SeqE
        intro: in_lang.seq[of _ "[c]" for c, simplified] in_lang.cls in_lang.eps in_lang.alt1 in_lang.alt2)+
qed

lemma js_identifier_iff:
  "js_identifier v \<longleftrightarrow> (\<exists>c s. v = JStr (c # s) \<and> alnum c \<and> list_all id_char s \<and> length s \<le> 159)"
proof -
  have tail: "in_lang (rrange 0 159 (RCls id_char)) s \<longleftrightarrow> list_all id_char s \<and> length s \<le> 159" for s
    unfolding rrange_def by (auto elim!: in_lang_SeqE simp: in_lang_rupto
        intro: in_lang.seq[of _ "[]", simplified] in_lang.eps)
  have "in_lang (IDENTIFIER_PATTERN 0 159) w \<longleftrightarrow>
      (\<exists>c s. w = c # s \<and> alnum c \<and> list_all id_char s \<and> length s \<le> 159)" for w
    unfolding IDENTIFIER_PATTERN_def
    by (auto elim!: in_lang_SeqE simp: tail
        intro!: in_lang.seq[of _ "[c]" for c, simplified] in_lang.cls)
  then show ?thesis by (auto simp: js_identifier_def matches_in_lang split: jsv.splits)
qed

lemma js_identifier_code [code]:
  "js_identifier v = (case v of JStr (c # s) \<Rightarrow> alnum c \<and> list_all id_char s \<and> length s \<le> 159 | _ \<Rightarrow> False)"
  by (auto simp: js_identifier_iff split: jsv.splits list.splits)

section \<open>What the patterns find\<close>

lemma in_lang_star_cls: "in_lang (RStar (RCls p)) s \<longleftrightarrow> list_all p s"
proof
  have "in_lang q s \<Longrightarrow> q = RStar (RCls p) \<Longrightarrow> list_all p s" for q s
    by (induction rule: in_lang.induct) auto
  then show "in_lang (RStar (RCls p)) s \<Longrightarrow> list_all p s" by blast
  show "list_all p s \<Longrightarrow> in_lang (RStar (RCls p)) s"
  proof (induction s)
    case (Cons c s)
    then show ?case using in_lang.star_cons[OF in_lang.cls[of p c], of s] by simp
  qed (rule in_lang.star_nil)
qed

lemma in_lang_seqI: "in_lang r a \<Longrightarrow> in_lang t b \<Longrightarrow> s = a @ b \<Longrightarrow> in_lang (RSeq r t) s"
  by (simp add: in_lang.seq)

lemma in_lang_plus: "list_all p s \<Longrightarrow> s \<noteq> [] \<Longrightarrow> in_lang (ratleast 1 (RCls p)) s"
proof -
  assume s: "list_all p s" "s \<noteq> []"
  then obtain c w where w: "s = c # w" "p c" "list_all p w" by (cases s) auto
  from w have "in_lang (rtimes 1 (RCls p)) [c]" by (simp only: in_lang_rtimes) simp
  moreover have "in_lang (RStar (RCls p)) w" using w by (simp add: in_lang_star_cls)
  ultimately show ?thesis unfolding ratleast_def w(1) by (rule in_lang_seqI) simp
qed

lemma in_lang_rlit: "in_lang (rlit cs) (u cs)"
proof (induction cs)
  case (Cons c cs)
  then show ?case unfolding rlit.simps u_Cons
    by (intro in_lang_seqI[of _ "[of_char c]" _ "u cs"] in_lang.cls) auto
qed (auto intro: in_lang.eps)

lemma email_found:
  assumes "list_all not_space_at (x @ y @ z)" "x \<noteq> []" "y \<noteq> []" "z \<noteq> []"
  shows "rx_test EMAIL_PATTERN (a @ x @ u ''@'' @ y @ u ''.'' @ z @ b)"
proof -
  have parts: "in_lang (ratleast 1 (RCls not_space_at)) x" "in_lang (ratleast 1 (RCls not_space_at)) y"
    "in_lang (ratleast 1 (RCls not_space_at)) z" using assms by (simp_all only: list_all_append) (blast intro: in_lang_plus)+
  have "in_lang EMAIL_PATTERN (x @ u ''@'' @ y @ u ''.'' @ z)"
    unfolding EMAIL_PATTERN_def rseq.simps by (intro in_lang.seq parts in_lang_rlit)
  then show ?thesis unfolding rx_test_iff by (metis append.assoc)
qed

lemma tag_found:
  assumes "iletter c" "of_char CHR ''>'' \<notin> set m"
  shows "rx_test RAW_HTML_PATTERN (a @ u ''<'' @ [c] @ m @ u ''>'' @ b)"
proof -
  have "in_lang (ropt (rlit ''/'')) []" unfolding ropt_def by (intro in_lang.alt1 in_lang.eps)
  moreover have "list_all (\<lambda>d. d \<noteq> of_char CHR ''>'') m" using assms(2) by (auto simp: list_all_iff)
  ultimately have "in_lang RAW_HTML_PATTERN (u ''<'' @ [] @ [c] @ m @ u ''>'')"
    unfolding RAW_HTML_PATTERN_def rseq.simps
    by (intro in_lang.seq in_lang_rlit in_lang.cls assms(1)) (simp_all add: in_lang_star_cls)
  then show ?thesis unfolding rx_test_iff by (metis append.assoc append_Nil)
qed

lemma control_found: "list_ex control_char s \<Longrightarrow> rx_test CONTROL_PATTERN s"
proof -
  assume "list_ex control_char s"
  then obtain c where "c \<in> set s" "control_char c" by (auto simp: list_ex_iff)
  then obtain a b where "s = a @ [c] @ b" "in_lang CONTROL_PATTERN [c]"
    by (auto simp: CONTROL_PATTERN_def in_set_conv_decomp intro: in_lang.cls)
  then show ?thesis unfolding rx_test_iff by blast
qed

end
