(* ===== verification/Protocol.thy ===== *)
theory Protocol
  imports Consensus Patterns "HOL-Library.Multiset"
begin

text \<open>
  \<open>public/protocol.js\<close>: the packet and submission validators, the canonical digests that bind an
  annotation to its packet, an adjudication to its annotations and a ratification to its
  adjudication, the rules on resolution notes, and the filter on public text. Every document is a
  parsed JSON value of unknown shape. \<open>sha256\<close> is the runtime's digest (bytes to lowercase
  hexadecimal text), a parameter. Objects carry no \<open>toString\<close> of their own.
\<close>

section \<open>Errors\<close>

datatype protocol_error =
    PacketSchemaUnsupported
  | TaskIdentityIncomplete
  | MetricPolicyInvalid
  | ParserPredictionsExposed
  | DerivedFromExcludedCorpus
  | ForbiddenEvidence
  | PacketWithoutSentences
  | SentenceIncomplete
  | SentenceIdDuplicated ustr
  | TokenNumberingInvalid ustr
  | AnnotationNotBound
  | PacketChanged
  | AdjudicationNotBound
  | RolesNotIndependent
  | UnsafePublicText
  | AnnotationRootMismatch
  | PrimaryArtifactInvalid
  | RatificationNotBound
  | SentencesNotCovered
  | SentenceInvalid
  | SentenceTokensMissing ustr
  | TokenIdsMismatch ustr
  | AdjudicationSentenceMissing
  | SentenceNeedsResolution ustr
  | TokenNotBound ustr
  | TokenNeedsResolution ustr ustr

type_synonym 'a checked = "protocol_error thrown + 'a"

definition PACKET_SCHEMA :: jsv where "PACKET_SCHEMA = JStr (u ''adg-msa-adjudication-packet-v3'')"
definition ANNOTATION_SCHEMA :: jsv where "ANNOTATION_SCHEMA = JStr (u ''adg-msa-annotation-submission-v3'')"
definition ADJUDICATION_SCHEMA :: jsv where "ADJUDICATION_SCHEMA = JStr (u ''adg-msa-adjudication-decision-v3'')"
definition RATIFICATION_SCHEMA :: jsv where "RATIFICATION_SCHEMA = JStr (u ''adg-msa-ratification-decision-v1'')"

lemmas schema_defs = PACKET_SCHEMA_def ANNOTATION_SCHEMA_def ADJUDICATION_SCHEMA_def RATIFICATION_SCHEMA_def

section \<open>Loaded files\<close>

definition str_is :: "jsv \<Rightarrow> string \<Rightarrow> bool" where
  "str_is v s = strict_eq v (JStr (u s))"

lemma str_is_iff [simp]: "str_is v s \<longleftrightarrow> v = JStr (u s)"
  by (simp add: str_is_def)

definition unpack_portal_file :: "jsv \<Rightarrow> jsv" where
  "unpack_portal_file value =
    (let unwrapped = coalesce (dot value ''artifact'') value in
     if str_is (dot unwrapped ''schema'') ''adg-msa-portal-draft-v1'' then
       JObj [(u ''kind'', JStr (u ''draft'')), (u ''draft'', unwrapped),
         (u ''packet'', coalesce (dot unwrapped ''packet'') JNull),
         (u ''role'', coalesce (dot unwrapped ''role'') JNull)]
     else if str_is (dot unwrapped ''kind'') ''independent-annotation'' then
       JObj [(u ''kind'', JStr (u ''annotation-artifact'')), (u ''artifact'', unwrapped),
         (u ''packet'', coalesce (dot unwrapped ''packet'') JNull),
         (u ''annotation'', coalesce (dot unwrapped ''annotation'') JNull),
         (u ''role'', coalesce (dot (dot unwrapped ''annotation'') ''annotatorSlot'') JNull)]
     else if str_is (dot unwrapped ''kind'') ''adjudication-package'' then
       JObj [(u ''kind'', JStr (u ''adjudication-artifact'')), (u ''artifact'', unwrapped),
         (u ''packet'', coalesce (dot unwrapped ''packet'') JNull),
         (u ''role'', JStr (u ''ratification''))]
     else if str_is (dot unwrapped ''kind'') ''ratification-package''
          \<and> str_is (dot (dot unwrapped ''primaryArtifact'') ''kind'') ''adjudication-package'' then
       JObj [(u ''kind'', JStr (u ''ratification-artifact'')), (u ''artifact'', unwrapped),
         (u ''packet'', coalesce (dot (dot unwrapped ''primaryArtifact'') ''packet'') JNull),
         (u ''primaryArtifact'', dot unwrapped ''primaryArtifact''),
         (u ''ratification'', coalesce (dot unwrapped ''ratification'') JNull),
         (u ''role'', JStr (u ''ratification''))]
     else if strict_eq (dot unwrapped ''schema'') PACKET_SCHEMA then
       JObj [(u ''kind'', JStr (u ''packet'')), (u ''packet'', unwrapped), (u ''role'', JNull)]
     else if strict_eq (dot unwrapped ''schema'') ANNOTATION_SCHEMA then
       JObj [(u ''kind'', JStr (u ''annotation'')), (u ''annotation'', unwrapped),
         (u ''packet'', coalesce (dot value ''packet'') JNull),
         (u ''role'', coalesce (dot unwrapped ''annotatorSlot'') JNull)]
     else if strict_eq (dot (dot unwrapped ''packet'') ''schema'') PACKET_SCHEMA then
       JObj [(u ''kind'', JStr (u ''container'')), (u ''artifact'', unwrapped),
         (u ''packet'', dot unwrapped ''packet''),
         (u ''annotation'', coalesce (dot unwrapped ''annotation'') JNull),
         (u ''role'', coalesce (dot (dot unwrapped ''annotation'') ''annotatorSlot'') JNull)]
     else
       JObj [(u ''kind'', JStr (u ''unknown'')), (u ''value'', unwrapped), (u ''packet'', JNull),
         (u ''role'', JNull)])"

definition infer_loaded_packet_lane :: "jsv \<Rightarrow> bool \<Rightarrow> jsv" where
  "infer_loaded_packet_lane packet operationalTestRequested =
    (if operationalTestRequested \<or> strict_eq (dot packet ''pilotOnly'') (JBool True)
     then JStr (u ''operational-test'') else JNull)"

section \<open>Canonical digests\<close>

text \<open>\<open>CanonicalHashBuilder\<close>: every part is framed by its length in bytes.\<close>

definition part_text :: "jsv \<Rightarrow> ustr option" where
  "part_text v = (if nullish v then None else Some (to_str v))"

definition add_part :: "jsv \<Rightarrow> ustr" where
  "add_part v = (case part_text v of
      None \<Rightarrow> u ''-1:''
    | Some txt \<Rightarrow> nat_str (length (utf8_encode txt)) @ u '':'' @ txt)"

definition builder_digest :: "(nat list \<Rightarrow> ustr) \<Rightarrow> jsv list \<Rightarrow> ustr" where
  "builder_digest sha256 parts = sha256 (utf8_encode (concat (map add_part parts)))"

definition sha256_json :: "(nat list \<Rightarrow> ustr) \<Rightarrow> jsv \<Rightarrow> ustr" where
  "sha256_json sha256 v = sha256 (utf8_encode (case json_stringify v of None \<Rightarrow> [] | Some s \<Rightarrow> s))"

section \<open>Packets\<close>

definition FORBIDDEN_EVIDENCE_KEYS :: "ustr list" where
  "FORBIDDEN_EVIDENCE_KEYS = map u [''analysis'', ''candidateAware'', ''dependencyGraph'', ''evaluation'',
     ''morphology'', ''parse'', ''parserOutput'', ''parserPredictions'', ''predictions'', ''strictTag'']"

primrec contains_forbidden_evidence :: "jsv \<Rightarrow> bool" where
  "contains_forbidden_evidence JUndef = False"
| "contains_forbidden_evidence JNull = False"
| "contains_forbidden_evidence (JBool b) = False"
| "contains_forbidden_evidence (JNum n) = False"
| "contains_forbidden_evidence (JStr s) = False"
| "contains_forbidden_evidence (JArr vs) = list_ex id (map contains_forbidden_evidence vs)"
| "contains_forbidden_evidence (JObj kvs) =
     list_ex (\<lambda>(key, below). key \<in> set FORBIDDEN_EVIDENCE_KEYS \<or> below)
       (map (map_prod id contains_forbidden_evidence) kvs)"

text \<open>The number behind a value whose type the code has checked.\<close>

definition num_of :: "jsv \<Rightarrow> rat" where
  "num_of v = (case v of JNum n \<Rightarrow> n | _ \<Rightarrow> 0)"

definition task_identity_ok :: "jsv \<Rightarrow> bool" where
  "task_identity_ok packet \<longleftrightarrow>
     js_identifier (dot packet ''taskId'')
   \<and> js_is_integer (dot packet ''taskVersion'')
   \<and> \<not> num_of (dot packet ''taskVersion'') < 1
   \<and> js_identifier (dot packet ''packetId'')
   \<and> js_identifier (dot packet ''holdoutId'')
   \<and> js_identifier (dot packet ''protocolId'')
   \<and> js_identifier (dot packet ''guidelineVersion'')
   \<and> js_identifier (dot packet ''dataVersion'')
   \<and> js_identifier (dot packet ''protocolVersion'')"

definition metric_policy_ok :: "jsv \<Rightarrow> bool" where
  "metric_policy_ok policy \<longleftrightarrow>
     truthy policy
   \<and> str_is (dot policy ''schema'') ''adg-iaa-policy-v1''
   \<and> js_is_array (dot policy ''metrics'')
   \<and> js_is_number (dot policy ''minimumRawAgreement'')
   \<and> js_is_number (dot policy ''minimumDefinedKappa'')
   \<and> \<not> num_of (dot policy ''minimumRawAgreement'') < 0
   \<and> \<not> num_of (dot policy ''minimumRawAgreement'') > 1
   \<and> \<not> num_of (dot policy ''minimumDefinedKappa'') < -1
   \<and> \<not> num_of (dot policy ''minimumDefinedKappa'') > 1"

text \<open>The callback of \<open>tokens.forEach\<close>; the accumulator is the index.\<close>

definition check_packet_token :: "jsv \<Rightarrow> nat \<Rightarrow> jsv \<Rightarrow> nat checked" where
  "check_packet_token sentence index token =
    sbind (field token (u ''id'')) (\<lambda>tokenId.
      if \<not> strict_eq tokenId (JNum (of_nat (index + 1))) \<or> \<not> truthy (dot token ''form'')
      then Inl (Thrown (TokenNumberingInvalid (to_str (dot sentence ''sentenceId''))))
      else Inr (index + 1))"

definition js_set_has :: "jsv list \<Rightarrow> jsv \<Rightarrow> bool" where
  "js_set_has s v = list_ex (\<lambda>w. strict_eq w v) s"

definition check_packet_sentence :: "jsv list \<Rightarrow> jsv \<Rightarrow> jsv list checked" where
  "check_packet_sentence sentenceIds sentence =
    sbind (field sentence (u ''sentenceId'')) (\<lambda>sentenceId.
      if \<not> truthy sentenceId \<or> \<not> truthy (dot sentence ''text'')
         \<or> \<not> js_is_array (dot sentence ''tokens'') \<or> tokens_of sentence = []
      then Inl (Thrown SentenceIncomplete)
      else if js_set_has sentenceIds sentenceId
      then Inl (Thrown (SentenceIdDuplicated (to_str sentenceId)))
      else sbind (foldE (check_packet_token sentence) 0 (tokens_of sentence)) (\<lambda>_.
        Inr (sentenceIds @ [sentenceId])))"

definition validate_packet :: "jsv \<Rightarrow> unit checked" where
  "validate_packet packet =
    (if \<not> truthy packet \<or> \<not> strict_eq (dot packet ''schema'') PACKET_SCHEMA
     then Inl (Thrown PacketSchemaUnsupported)
     else if \<not> task_identity_ok packet then Inl (Thrown TaskIdentityIncomplete)
     else if \<not> metric_policy_ok (dot packet ''metricPolicy'') then Inl (Thrown MetricPolicyInvalid)
     else if \<not> truthy (dot packet ''parserPredictionsExcluded'') then Inl (Thrown ParserPredictionsExposed)
     else if truthy (dot packet ''derivedFromExcludedCorpus'') then Inl (Thrown DerivedFromExcludedCorpus)
     else if contains_forbidden_evidence packet then Inl (Thrown ForbiddenEvidence)
     else if \<not> js_is_array (dot packet ''sentences'') \<or> sentences_of packet = []
     then Inl (Thrown PacketWithoutSentences)
     else sbind (foldE check_packet_sentence [] (sentences_of packet)) (\<lambda>_. Inr ()))"

text \<open>What the loops of \<open>computePacketMerkleRoot\<close> feed to the builder, for a validated packet.\<close>

definition token_parts :: "jsv \<Rightarrow> jsv list" where
  "token_parts token = [dot token ''id'', dot token ''form'']"

definition sentence_parts :: "jsv \<Rightarrow> jsv list" where
  "sentence_parts sentence =
     [dot sentence ''sentenceId'', dot sentence ''text'', JNum (of_nat (length (tokens_of sentence)))]
     @ concat (map token_parts (tokens_of sentence))"

definition packet_parts :: "jsv \<Rightarrow> jsv list \<Rightarrow> jsv list" where
  "packet_parts packet instructions =
     [JStr (u ''adg-msa-adjudication-packet-root-v3''), PACKET_SCHEMA,
      dot packet ''taskId'', dot packet ''taskVersion'', dot packet ''packetId'',
      dot packet ''holdoutId'', dot packet ''protocolId'', dot packet ''guidelineVersion'',
      dot packet ''dataVersion'', dot packet ''protocolVersion'',
      JStr (canonical_json (dot packet ''metricPolicy'')),
      dot packet ''releaseCandidateId'', dot packet ''pilotOnly'', dot packet ''developerVisible'',
      dot packet ''parserPredictionsExcluded'', dot packet ''derivedFromExcludedCorpus'',
      dot packet ''holdoutManifestSha256'', JNum (of_nat (length (sentences_of packet)))]
     @ concat (map sentence_parts (sentences_of packet))
     @ [JNum (of_nat (length instructions))] @ instructions"

definition compute_packet_root :: "(nat list \<Rightarrow> ustr) \<Rightarrow> jsv \<Rightarrow> ustr checked" where
  "compute_packet_root sha256 packet =
    sbind (validate_packet packet) (\<lambda>_.
    case coalesce (dot packet ''instructions'') (JArr []) of
      JArr instructions \<Rightarrow> Inr (builder_digest sha256 (packet_parts packet instructions))
    | _ \<Rightarrow> Inl TypeError)"

section \<open>Annotation coverage\<close>

definition cover_step :: "(jsv \<times> jsv) list \<Rightarrow> jsv \<Rightarrow> (jsv \<times> jsv) list checked" where
  "cover_step bySentence sentence =
    (if \<not> truthy sentence \<or> js_map_get bySentence (dot sentence ''sentenceId'') \<noteq> None
     then Inl (Thrown SentenceInvalid)
     else Inr (bySentence @ [(dot sentence ''sentenceId'', sentence)]))"

definition cover_token_step :: "jsv \<Rightarrow> jsv list \<Rightarrow> jsv list \<Rightarrow> jsv \<Rightarrow> jsv list checked" where
  "cover_token_step source sourceTokenIds annotatedTokenIds token =
    (if \<not> js_is_integer (dot token ''tokenId'')
        \<or> js_set_has annotatedTokenIds (dot token ''tokenId'')
        \<or> \<not> js_set_has sourceTokenIds (dot token ''tokenId'')
     then Inl (Thrown (TokenIdsMismatch (to_str (dot source ''sentenceId''))))
     else Inr (annotatedTokenIds @ [dot token ''tokenId'']))"

text \<open>Token ids of a validated packet are distinct, so the size of their \<open>Set\<close> is their number.\<close>

definition cover_source :: "(jsv \<times> jsv) list \<Rightarrow> jsv \<Rightarrow> unit checked" where
  "cover_source bySentence source =
    (let missing = Inl (Thrown (SentenceTokensMissing (to_str (dot source ''sentenceId''))));
         sourceTokenIds = map (\<lambda>token. dot token ''id'') (tokens_of source) in
     case js_map_get bySentence (dot source ''sentenceId'') of
       None \<Rightarrow> missing
     | Some annotated \<Rightarrow>
         if \<not> js_is_array (dot annotated ''tokens'')
            \<or> length (tokens_of annotated) \<noteq> length (tokens_of source)
         then missing
         else sbind (foldE (cover_token_step source sourceTokenIds) [] (tokens_of annotated))
           (\<lambda>annotatedTokenIds.
             if length annotatedTokenIds \<noteq> length sourceTokenIds then missing else Inr ()))"

definition validate_annotation_coverage :: "jsv \<Rightarrow> jsv \<Rightarrow> unit checked" where
  "validate_annotation_coverage packet submission =
    (if \<not> js_is_array (dot submission ''sentences'')
        \<or> length (sentences_of submission) \<noteq> length (sentences_of packet)
     then Inl (Thrown SentencesNotCovered)
     else sbind (foldE cover_step [] (sentences_of submission)) (\<lambda>bySentence.
       foldE (\<lambda>_ source. cover_source bySentence source) () (sentences_of packet)))"

section \<open>Bindings\<close>

definition BINDING_FIELDS :: "string list" where
  "BINDING_FIELDS = [''packetId'', ''holdoutId'', ''protocolId'', ''taskId'', ''taskVersion'',
     ''guidelineVersion'', ''dataVersion'', ''protocolVersion'']"

text \<open>\<open>document.f === packet.f\<close> for every listed field.\<close>

definition same_fields :: "string list \<Rightarrow> jsv \<Rightarrow> jsv \<Rightarrow> bool" where
  "same_fields fs document packet = list_all (\<lambda>f. strict_eq (dot document f) (dot packet f)) fs"

definition validate_submission_binding :: "(nat list \<Rightarrow> ustr) \<Rightarrow> jsv \<Rightarrow> jsv \<Rightarrow> unit checked" where
  "validate_submission_binding sha256 packet submission =
    sbind (validate_packet packet) (\<lambda>_.
    if \<not> truthy submission \<or> \<not> strict_eq (dot submission ''schema'') ANNOTATION_SCHEMA
       \<or> \<not> same_fields BINDING_FIELDS submission packet
       \<or> \<not> (str_is (dot submission ''annotatorSlot'') ''A'' \<or> str_is (dot submission ''annotatorSlot'') ''B'')
    then Inl (Thrown AnnotationNotBound)
    else sbind (compute_packet_root sha256 packet) (\<lambda>expectedPacketRoot.
      if \<not> strict_eq (dot submission ''packetMerkleRoot'') (JStr expectedPacketRoot)
      then Inl (Thrown PacketChanged)
      else validate_annotation_coverage packet submission))"

text \<open>\<open>addAnnotations\<close>.\<close>

definition annotation_token_parts :: "string \<Rightarrow> jsv list \<Rightarrow> jsv \<Rightarrow> jsv list checked" where
  "annotation_token_parts noteName parts token =
    sbind (field token (u ''tokenId'')) (\<lambda>tokenId.
      Inr (parts @ [tokenId, dot token ''universalPartOfSpeech'', dot token ''headTokenId'',
        dot token ''dependencyRelation'', dot token ''irabHeadTokenId'', dot token ''irabCategory'',
        dot token ''irabNotApplicable'', dot token noteName]))"

definition annotation_sentence_parts :: "string \<Rightarrow> jsv list \<Rightarrow> jsv \<Rightarrow> jsv list checked" where
  "annotation_sentence_parts noteName parts sentence =
    sbind (field sentence (u ''sentenceId'')) (\<lambda>sentenceId.
    sbind (length_prop (dot sentence ''tokens'')) (\<lambda>n.
    sbind (iter (dot sentence ''tokens'')) (\<lambda>tokens.
      foldE (annotation_token_parts noteName)
        (parts @ [sentenceId, dot sentence ''structurallyAcceptable'', dot sentence ''completePredicate'',
           dot sentence noteName, n])
        tokens)))"

definition annotation_parts :: "jsv \<Rightarrow> string \<Rightarrow> jsv list checked" where
  "annotation_parts sentences noteName =
    sbind (length_prop sentences) (\<lambda>n.
    sbind (iter sentences) (\<lambda>ss. foldE (annotation_sentence_parts noteName) [n] ss))"

definition submission_parts :: "jsv \<Rightarrow> jsv list" where
  "submission_parts submission =
     [JStr (u ''adg-msa-annotation-submission-root-v3''), ANNOTATION_SCHEMA]
     @ map (dot submission) [''packetMerkleRoot'', ''taskId'', ''taskVersion'', ''packetId'', ''holdoutId'',
         ''protocolId'', ''guidelineVersion'', ''dataVersion'', ''protocolVersion'', ''annotatorSlot'',
         ''annotatorPseudonym'', ''isHuman'', ''isSynthetic'', ''independentFromImplementationTeam'',
         ''blindToParserInternals'', ''parserPredictionsViewed'']"

definition compute_annotation_root :: "(nat list \<Rightarrow> ustr) \<Rightarrow> jsv \<Rightarrow> jsv \<Rightarrow> ustr checked" where
  "compute_annotation_root sha256 packet submission =
    sbind (compute_packet_root sha256 packet) (\<lambda>packetRoot.
    sbind (field submission (u ''packetMerkleRoot'')) (\<lambda>claimed.
    if \<not> strict_eq claimed (JStr packetRoot) then Inl (Thrown AnnotationRootMismatch)
    else sbind (annotation_parts (dot submission ''sentences'') ''note'') (\<lambda>parts.
      Inr (builder_digest sha256 (submission_parts submission @ parts)))))"

section \<open>Resolutions\<close>

definition decision_needs_resolution :: "jsv \<Rightarrow> jsv \<Rightarrow> jsv \<Rightarrow> bool" where
  "decision_needs_resolution annotationA annotationB finalDecision \<longleftrightarrow>
     \<not> strict_eq annotationA annotationB
   \<or> strict_eq annotationA annotationB \<and> \<not> strict_eq finalDecision annotationA"

definition token_decision_key :: "jsv \<Rightarrow> ustr" where
  "token_decision_key token = json_text (JArr (map (dot token)
     [''universalPartOfSpeech'', ''headTokenId'', ''dependencyRelation'', ''irabHeadTokenId'',
      ''irabCategory'', ''irabNotApplicable'']))"

text \<open>\<open>!String(unit.resolutionNote || "").trim()\<close>.\<close>

definition resolution_blank :: "jsv \<Rightarrow> bool" where
  "resolution_blank finalUnit \<longleftrightarrow> js_trim (to_str (js_or (dot finalUnit ''resolutionNote'') (JStr []))) = []"

text \<open>The documents have passed the coverage check, so the maps below are over arrays of objects.\<close>

definition by_key :: "string \<Rightarrow> jsv list \<Rightarrow> (jsv \<times> jsv) list" where
  "by_key k units = map (\<lambda>v. (dot v k, v)) units"

definition resolve_token ::
  "jsv \<Rightarrow> (jsv \<times> jsv) list \<Rightarrow> (jsv \<times> jsv) list \<Rightarrow> jsv \<Rightarrow> unit checked" where
  "resolve_token finalSentence aTokens bTokens finalToken =
    sbind (field finalToken (u ''tokenId'')) (\<lambda>tokenId.
    case (js_map_get aTokens tokenId, js_map_get bTokens tokenId) of
      (Some tokenA, Some tokenB) \<Rightarrow>
        ensure (\<not> (decision_needs_resolution (JStr (token_decision_key tokenA))
              (JStr (token_decision_key tokenB)) (JStr (token_decision_key finalToken))
            \<and> resolution_blank finalToken))
          (Thrown (TokenNeedsResolution (to_str tokenId) (to_str (dot finalSentence ''sentenceId''))))
    | _ \<Rightarrow> Inl (Thrown (TokenNotBound (to_str tokenId))))"

definition resolve_sentence ::
  "(jsv \<times> jsv) list \<Rightarrow> (jsv \<times> jsv) list \<Rightarrow> jsv \<Rightarrow> unit checked" where
  "resolve_sentence aSentences bSentences finalSentence =
    sbind (field finalSentence (u ''sentenceId'')) (\<lambda>sentenceId.
    case (js_map_get aSentences sentenceId, js_map_get bSentences sentenceId) of
      (Some aSentence, Some bSentence) \<Rightarrow>
        if (decision_needs_resolution (dot aSentence ''structurallyAcceptable'')
              (dot bSentence ''structurallyAcceptable'') (dot finalSentence ''structurallyAcceptable'')
            \<or> decision_needs_resolution (dot aSentence ''completePredicate'')
              (dot bSentence ''completePredicate'') (dot finalSentence ''completePredicate''))
           \<and> resolution_blank finalSentence
        then Inl (Thrown (SentenceNeedsResolution (to_str sentenceId)))
        else sbind (iter (js_or (dot finalSentence ''tokens'') (JArr []))) (\<lambda>tokens.
          foldE (\<lambda>_ finalToken. resolve_token finalSentence (by_key ''tokenId'' (tokens_of aSentence))
              (by_key ''tokenId'' (tokens_of bSentence)) finalToken) () tokens)
    | _ \<Rightarrow> Inl (Thrown AdjudicationSentenceMissing))"

definition validate_adjudication_resolutions :: "jsv \<Rightarrow> jsv \<Rightarrow> jsv \<Rightarrow> unit checked" where
  "validate_adjudication_resolutions annotationA annotationB decision =
    sbind (iter (js_or (dot decision ''sentences'') (JArr []))) (\<lambda>sentences.
      foldE (\<lambda>_ finalSentence. resolve_sentence (by_key ''sentenceId'' (sentences_of annotationA))
          (by_key ''sentenceId'' (sentences_of annotationB)) finalSentence) () sentences)"

definition validate_adjudication_binding ::
  "(nat list \<Rightarrow> ustr) \<Rightarrow> jsv \<Rightarrow> jsv \<Rightarrow> jsv \<Rightarrow> jsv \<Rightarrow> unit checked" where
  "validate_adjudication_binding sha256 packet annotationA annotationB decision =
    sbind (validate_submission_binding sha256 packet annotationA) (\<lambda>_.
    sbind (validate_submission_binding sha256 packet annotationB) (\<lambda>_.
    if \<not> truthy decision \<or> \<not> strict_eq (dot decision ''schema'') ADJUDICATION_SCHEMA
       \<or> \<not> same_fields BINDING_FIELDS decision packet
       \<or> \<not> str_is (dot decision ''adjudicatorSlot'') ''J1''
    then Inl (Thrown AdjudicationNotBound)
    else sbind (compute_packet_root sha256 packet) (\<lambda>packetRoot.
    if \<not> strict_eq (dot decision ''packetMerkleRoot'') (JStr packetRoot)
    then Inl (Thrown AdjudicationNotBound)
    else sbind (compute_annotation_root sha256 packet annotationA) (\<lambda>rootA.
    if \<not> strict_eq (dot decision ''annotationAMerkleRoot'') (JStr rootA)
    then Inl (Thrown AdjudicationNotBound)
    else sbind (compute_annotation_root sha256 packet annotationB) (\<lambda>rootB.
    if \<not> strict_eq (dot decision ''annotationBMerkleRoot'') (JStr rootB)
    then Inl (Thrown AdjudicationNotBound)
    else if strict_eq (dot annotationA ''annotatorSlot'') (dot annotationB ''annotatorSlot'')
       \<or> \<not> strict_eq (dot decision ''annotationASlot'') (dot annotationA ''annotatorSlot'')
       \<or> \<not> strict_eq (dot decision ''annotationBSlot'') (dot annotationB ''annotatorSlot'')
    then Inl (Thrown RolesNotIndependent)
    else sbind (validate_annotation_coverage packet decision) (\<lambda>_.
      validate_adjudication_resolutions annotationA annotationB decision))))))"

definition adjudication_parts :: "jsv \<Rightarrow> jsv list" where
  "adjudication_parts decision =
     [JStr (u ''adg-msa-adjudication-decision-root-v3''), ADJUDICATION_SCHEMA]
     @ map (dot decision) [''packetMerkleRoot'', ''annotationAMerkleRoot'', ''annotationBMerkleRoot'',
         ''taskId'', ''taskVersion'', ''packetId'', ''holdoutId'', ''protocolId'', ''guidelineVersion'',
         ''dataVersion'', ''protocolVersion'', ''annotationASlot'', ''annotationBSlot'',
         ''adjudicatorSlot'', ''adjudicatorPseudonym'', ''adjudicatorIsHuman'', ''adjudicatorIsSynthetic'',
         ''independentFromImplementationTeam'', ''blindToParserInternals'', ''parserPredictionsViewed'']"

definition compute_adjudication_root ::
  "(nat list \<Rightarrow> ustr) \<Rightarrow> jsv \<Rightarrow> jsv \<Rightarrow> jsv \<Rightarrow> jsv \<Rightarrow> ustr checked" where
  "compute_adjudication_root sha256 packet annotationA annotationB decision =
    sbind (validate_adjudication_binding sha256 packet annotationA annotationB decision) (\<lambda>_.
    sbind (annotation_parts (dot decision ''sentences'') ''resolutionNote'') (\<lambda>parts.
      Inr (builder_digest sha256 (adjudication_parts decision @ parts))))"

section \<open>Ratification\<close>

definition js_string :: "jsv \<Rightarrow> ustr" where
  "js_string v = (case v of JStr s \<Rightarrow> s | _ \<Rightarrow> [])"

definition RATIFICATION_FIELDS :: "string list" where
  "RATIFICATION_FIELDS = [''taskId'', ''taskVersion'', ''packetId'', ''holdoutId'', ''protocolVersion'']"

definition validate_ratification_binding :: "(nat list \<Rightarrow> ustr) \<Rightarrow> jsv \<Rightarrow> jsv \<Rightarrow> unit checked" where
  "validate_ratification_binding sha256 primaryArtifact ratification =
    (if \<not> truthy primaryArtifact \<or> \<not> str_is (dot primaryArtifact ''kind'') ''adjudication-package''
     then Inl (Thrown PrimaryArtifactInvalid)
     else sbind (validate_adjudication_binding sha256 (dot primaryArtifact ''packet'')
        (dot primaryArtifact ''annotationA'') (dot primaryArtifact ''annotationB'')
        (dot primaryArtifact ''adjudication'')) (\<lambda>_.
     sbind (compute_adjudication_root sha256 (dot primaryArtifact ''packet'')
        (dot primaryArtifact ''annotationA'') (dot primaryArtifact ''annotationB'')
        (dot primaryArtifact ''adjudication'')) (\<lambda>primaryRoot.
     if \<not> truthy ratification \<or> \<not> strict_eq (dot ratification ''schema'') RATIFICATION_SCHEMA
        \<or> \<not> same_fields RATIFICATION_FIELDS ratification (dot primaryArtifact ''packet'')
     then Inl (Thrown RatificationNotBound)
     else sbind (compute_packet_root sha256 (dot primaryArtifact ''packet'')) (\<lambda>packetRoot.
     if \<not> strict_eq (dot ratification ''packetMerkleRoot'') (JStr packetRoot)
        \<or> \<not> strict_eq (dot ratification ''primaryAdjudicationMerkleRoot'') (JStr primaryRoot)
        \<or> \<not> str_is (dot ratification ''reviewerSlot'') ''J2''
        \<or> \<not> (str_is (dot ratification ''decision'') ''agree''
             \<or> str_is (dot ratification ''decision'') ''disagree''
             \<or> str_is (dot ratification ''decision'') ''recuse'')
        \<or> \<not> js_is_string (dot ratification ''rationale'')
        \<or> length (js_trim (js_string (dot ratification ''rationale''))) < 20
        \<or> length (js_string (dot ratification ''rationale'')) > 4000
     then Inl (Thrown RatificationNotBound)
     else Inr ()))))"

definition ratification_parts :: "jsv \<Rightarrow> jsv list" where
  "ratification_parts ratification =
     [JStr (u ''adg-msa-ratification-decision-root-v1''), RATIFICATION_SCHEMA]
     @ map (dot ratification) [''taskId'', ''taskVersion'', ''packetId'', ''holdoutId'',
         ''protocolVersion'', ''packetMerkleRoot'', ''primaryReceiptId'',
         ''primaryAdjudicationMerkleRoot'', ''reviewerSlot'', ''reviewerPseudonym'', ''reviewerIsHuman'',
         ''reviewerIsSynthetic'', ''independentFromImplementationTeam'', ''decision'']
     @ [JStr (js_trim (js_string (dot ratification ''rationale'')))]"

definition compute_ratification_root :: "(nat list \<Rightarrow> ustr) \<Rightarrow> jsv \<Rightarrow> jsv \<Rightarrow> ustr checked" where
  "compute_ratification_root sha256 primaryArtifact ratification =
    sbind (validate_ratification_binding sha256 primaryArtifact ratification) (\<lambda>_.
      Inr (builder_digest sha256 (ratification_parts ratification)))"

section \<open>Public text\<close>

definition PUBLIC_NOTE_KEYS :: "ustr list" where
  "PUBLIC_NOTE_KEYS = map u [''note'', ''resolutionNote'', ''rationale'']"

primrec collect_public_notes :: "jsv \<Rightarrow> ustr list" where
  "collect_public_notes JUndef = []"
| "collect_public_notes JNull = []"
| "collect_public_notes (JBool b) = []"
| "collect_public_notes (JNum n) = []"
| "collect_public_notes (JStr s) = []"
| "collect_public_notes (JArr vs) = concat (map collect_public_notes vs)"
| "collect_public_notes (JObj kvs) = concat (map
     (\<lambda>(key, child, below). if key \<in> set PUBLIC_NOTE_KEYS \<and> \<not> nullish child then [to_str child] else below)
     (map (map_prod id (\<lambda>child. (child, collect_public_notes child))) kvs))"

definition validate_public_artifact_text :: "jsv \<Rightarrow> unit checked" where
  "validate_public_artifact_text artifact =
    ensure (\<not> list_ex contains_unsafe_public_text (collect_public_notes artifact)) (Thrown UnsafePublicText)"

section \<open>Validated packets\<close>

text \<open>What \<open>validatePacket\<close> promises, in declarative form.\<close>

definition js_distinct :: "jsv list \<Rightarrow> bool" where
  "js_distinct = sorted_wrt (\<lambda>a b. \<not> strict_eq a b)"

definition token_ok :: "nat \<Rightarrow> jsv \<Rightarrow> bool" where
  "token_ok i token \<longleftrightarrow> dot token ''id'' = JNum (of_nat (i + 1)) \<and> truthy (dot token ''form'')"

definition sentence_ok :: "jsv \<Rightarrow> bool" where
  "sentence_ok sentence \<longleftrightarrow> truthy (dot sentence ''sentenceId'') \<and> truthy (dot sentence ''text'')
     \<and> js_is_array (dot sentence ''tokens'') \<and> tokens_of sentence \<noteq> []
     \<and> (\<forall>i < length (tokens_of sentence). token_ok i (tokens_of sentence ! i))"

definition packet_ok :: "jsv \<Rightarrow> bool" where
  "packet_ok packet \<longleftrightarrow> dot packet ''schema'' = PACKET_SCHEMA \<and> task_identity_ok packet
     \<and> metric_policy_ok (dot packet ''metricPolicy'') \<and> truthy (dot packet ''parserPredictionsExcluded'')
     \<and> \<not> truthy (dot packet ''derivedFromExcludedCorpus'') \<and> \<not> contains_forbidden_evidence packet
     \<and> js_is_array (dot packet ''sentences'') \<and> sentences_of packet \<noteq> []
     \<and> (\<forall>s \<in> set (sentences_of packet). sentence_ok s)
     \<and> js_distinct (map (\<lambda>s. dot s ''sentenceId'') (sentences_of packet))"

lemma own_not_undef: "own v k \<noteq> JUndef \<Longrightarrow> truthy v"
  by (cases v) (auto simp: own_def)

lemma truthy_own: "truthy (own v k) \<Longrightarrow> truthy v"
  by (rule own_not_undef[of v k]) auto

lemma js_set_has_iff: "js_set_has s v \<longleftrightarrow> (\<exists>w \<in> set s. strict_eq w v)"
  by (simp add: js_set_has_def list_ex_iff)

lemma field_eq_Inr [simp]: "field v k = Inr x \<longleftrightarrow> \<not> nullish v \<and> x = own v k"
  by (auto simp: field_def)

lemma check_packet_token_ok:
  "check_packet_token s i token = Inr j \<longleftrightarrow> token_ok i token \<and> j = i + 1"
proof -
  have "strict_eq v (JNum (1 + of_nat i)) \<longleftrightarrow> v = JNum (1 + of_nat i)" for v
    by (cases v) auto
  then show ?thesis
    by (auto simp: check_packet_token_def token_ok_def sbind_eq_Inr split: if_splits
        dest: truthy_own truthy_not_nullish)
qed

lemma check_packet_tokens_ok:
  "foldE (check_packet_token s) k ts = Inr j \<longleftrightarrow>
     j = k + length ts \<and> (\<forall>i < length ts. token_ok (k + i) (ts ! i))"
proof (induction ts arbitrary: k)
  case (Cons t ts)
  have all: "(\<forall>i < Suc n. P i) \<longleftrightarrow> P 0 \<and> (\<forall>i < n. P (Suc i))" for P n
    using less_Suc_eq_0_disj by auto
  show ?case
    by (auto simp: sbind_eq_Inr check_packet_token_ok Cons.IH all)
qed auto

interpretation packet_ids: unique_loop check_packet_sentence sentence_ok "\<lambda>s. dot s ''sentenceId''" strict_eq
proof
  fix acc s r
  show "check_packet_sentence acc s = Inr r \<longleftrightarrow> sentence_ok s
      \<and> (\<forall>z \<in> set acc. \<not> strict_eq z (dot s ''sentenceId'')) \<and> r = acc @ [dot s ''sentenceId'']"
    by (auto simp: check_packet_sentence_def sentence_ok_def sbind_eq_Inr js_set_has_iff
        check_packet_tokens_ok split: if_splits dest: truthy_own truthy_not_nullish)
qed

lemma validate_packet_ok: "validate_packet packet = Inr () \<longleftrightarrow> packet_ok packet"
proof -
  have "strict_eq v PACKET_SCHEMA \<longleftrightarrow> v = PACKET_SCHEMA" for v by (simp add: PACKET_SCHEMA_def)
  moreover have "dot packet ''schema'' = PACKET_SCHEMA \<Longrightarrow> truthy packet"
    by (rule own_not_undef[of packet "u ''schema''"]) (simp add: PACKET_SCHEMA_def)
  ultimately show ?thesis
    by (auto simp: validate_packet_def packet_ok_def sbind_eq_Inr packet_ids.loop_ok js_distinct_def)
qed

section \<open>Exact coverage\<close>

lemma strict_eq_refl_iff: "strict_eq a b \<longleftrightarrow> a = b \<and> strict_eq a a"
  by (cases a; cases b) auto

lemma strict_eq_self: "strict_eq a b \<Longrightarrow> strict_eq a a" "strict_eq a b \<Longrightarrow> strict_eq b b"
  by (cases a; cases b; auto)+

lemma js_distinct_iff: "(\<forall>x \<in> set xs. strict_eq x x) \<Longrightarrow> js_distinct xs \<longleftrightarrow> distinct xs"
  unfolding js_distinct_def by (induction xs) (auto dest: strict_eqD)

lemma js_map_get_iff:
  assumes "js_distinct (map fst m)"
  shows "js_map_get m k = Some v \<longleftrightarrow> (\<exists>k'. (k', v) \<in> set m \<and> strict_eq k' k)"
proof
  assume "js_map_get m k = Some v"
  then show "\<exists>k'. (k', v) \<in> set m \<and> strict_eq k' k"
    by (auto simp: js_map_get_def dest!: find_SomeD)
next
  assume "\<exists>k'. (k', v) \<in> set m \<and> strict_eq k' k"
  then obtain i where i: "i < length m" "snd (m ! i) = v" "strict_eq (fst (m ! i)) k"
    by (metis fst_conv in_set_conv_nth snd_conv)
  then have "m ! i \<in> set (rev m) \<and> (case m ! i of (k', v) \<Rightarrow> strict_eq k' k)"
    by (simp add: case_prod_beta)
  then have "List.find (\<lambda>(k', v). strict_eq k' k) (rev m) \<noteq> None"
    unfolding find_None_iff by (meson exI notI)
  then obtain e where e: "List.find (\<lambda>(k', v). strict_eq k' k) (rev m) = Some e" by blast
  from find_SomeD[OF e] obtain j where j: "j < length m" "m ! j = e" "strict_eq (fst (m ! j)) k"
    by (auto simp: in_set_conv_nth)
  have "strict_eq (fst (m ! i)) (fst (m ! j))" "strict_eq (fst (m ! j)) (fst (m ! i))"
    using i(3) j(3) strict_eqD strict_eq_refl_iff by metis+
  then have "\<not> i < j" "\<not> j < i"
    using assms i(1) j(1) by (auto simp: js_distinct_def sorted_wrt_iff_nth_less)
  with i(2) j(2) e show "js_map_get m k = Some v" by (simp add: js_map_get_def)
qed

interpretation annotated_sentences: unique_loop cover_step truthy "\<lambda>s. (dot s ''sentenceId'', s)"
  "\<lambda>x y. strict_eq (fst x) (fst y)"
proof
  fix acc :: "(jsv \<times> jsv) list" and s r
  have "js_map_get acc k = None \<longleftrightarrow> (\<forall>z \<in> set acc. \<not> strict_eq (fst z) k)" for k :: jsv
    by (auto simp: js_map_get_def find_None_iff)
  then show "cover_step acc s = Inr r \<longleftrightarrow> truthy s
      \<and> (\<forall>z \<in> set acc. \<not> strict_eq (fst z) (fst (dot s ''sentenceId'', s))) \<and> r = acc @ [(dot s ''sentenceId'', s)]"
    by (auto simp: cover_step_def)
qed

interpretation annotated_tokens: unique_loop "cover_token_step source ids"
  "\<lambda>t. js_is_integer (dot t ''tokenId'') \<and> js_set_has ids (dot t ''tokenId'')" "\<lambda>t. dot t ''tokenId''" strict_eq
  for source ids
  by unfold_locales (auto simp: cover_token_step_def js_set_has_iff)

text \<open>The units of a sentence with \<open>n\<close> tokens.\<close>

definition token_ids :: "nat \<Rightarrow> jsv list" where
  "token_ids n = map (\<lambda>i. JNum (of_nat (i + 1))) [0..<n]"

lemma token_ids_facts [simp]:
  "length (token_ids n) = n" "distinct (token_ids n)"
  "v \<in> set (token_ids n) \<Longrightarrow> strict_eq v v" "v \<in> set (token_ids n) \<Longrightarrow> js_is_integer v"
  by (auto simp: token_ids_def distinct_map inj_on_def simp flip: of_nat_Suc)

lemma packet_token_ids:
  "sentence_ok s \<Longrightarrow> map (\<lambda>t. dot t ''id'') (tokens_of s) = token_ids (length (tokens_of s))"
  by (rule nth_equalityI) (auto simp: token_ids_def sentence_ok_def token_ok_def)

definition covers_sentence :: "jsv \<Rightarrow> jsv \<Rightarrow> bool" where
  "covers_sentence source annotated \<longleftrightarrow> js_is_array (dot annotated ''tokens'')
     \<and> mset (map (\<lambda>t. dot t ''tokenId'') (tokens_of annotated)) = mset (token_ids (length (tokens_of source)))"

lemma distinct_permutation:
  assumes "distinct ys" "length xs = length ys"
  shows "distinct xs \<and> set xs \<subseteq> set ys \<longleftrightarrow> mset xs = mset ys"
    "set ys \<subseteq> set xs \<longleftrightarrow> mset xs = mset ys"
proof -
  have card: "card (set ys) = length ys" using assms(1) by (rule distinct_card)
  show "distinct xs \<and> set xs \<subseteq> set ys \<longleftrightarrow> mset xs = mset ys"
  proof
    assume x: "distinct xs \<and> set xs \<subseteq> set ys"
    then have "set xs = set ys"
      by (intro card_subset_eq) (auto simp: distinct_card card assms(2))
    with x assms(1) show "mset xs = mset ys" by (simp add: set_eq_iff_mset_eq_distinct)
  next
    assume "mset xs = mset ys"
    with assms(1) show "distinct xs \<and> set xs \<subseteq> set ys"
      using mset_eq_imp_distinct_iff mset_eq_setD by blast
  qed
  show "set ys \<subseteq> set xs \<longleftrightarrow> mset xs = mset ys"
  proof
    assume s: "set ys \<subseteq> set xs"
    then have "length ys \<le> card (set xs)" using card card_mono[OF _ s] by simp
    then have "card (set xs) = length xs" using assms(2) card_length[of xs] by simp
    then have x: "distinct xs" by (rule card_distinct)
    have "set ys = set xs"
      using s x by (intro card_subset_eq) (auto simp: distinct_card card assms(2))
    with x assms(1) show "mset xs = mset ys" by (simp add: set_eq_iff_mset_eq_distinct)
  next
    assume "mset xs = mset ys"
    then show "set ys \<subseteq> set xs" using mset_eq_setD by blast
  qed
qed

lemma cover_source_ok:
  assumes "sentence_ok x"
  shows "cover_source m x = Inr () \<longleftrightarrow>
    (\<exists>a. js_map_get m (dot x ''sentenceId'') = Some a \<and> covers_sentence x a)"
proof -
  let ?ids = "token_ids (length (tokens_of x))"
  have "(js_is_array (dot a ''tokens'') \<and> length (tokens_of a) = length (tokens_of x) \<and>
      (\<forall>t \<in> set (tokens_of a). js_is_integer (dot t ''tokenId'') \<and> js_set_has ?ids (dot t ''tokenId'')) \<and>
      sorted_wrt (\<lambda>a b. \<not> strict_eq a b) (map (\<lambda>t. dot t ''tokenId'') (tokens_of a))) \<longleftrightarrow> covers_sentence x a" for a
  proof -
    let ?t = "map (\<lambda>t. dot t ''tokenId'') (tokens_of a)"
    have has: "js_is_integer v \<and> js_set_has ?ids v \<longleftrightarrow> v \<in> set ?ids" for v
      using strict_eqD strict_eq_refl_iff token_ids_facts(3,4) by (metis js_set_has_iff)
    have "set ?t \<subseteq> set ?ids \<Longrightarrow> js_distinct ?t \<longleftrightarrow> distinct ?t"
      by (intro js_distinct_iff) auto
    moreover have "(\<forall>t \<in> set (tokens_of a). dot t ''tokenId'' \<in> set ?ids) \<longleftrightarrow> set ?t \<subseteq> set ?ids" by auto
    moreover have "mset ?t = mset ?ids \<Longrightarrow> length (tokens_of a) = length (tokens_of x)"
      using mset_eq_length by fastforce
    ultimately show ?thesis
      using distinct_permutation(1)[of ?ids ?t] unfolding has js_distinct_def[symmetric] covers_sentence_def
      by auto
  qed
  then show ?thesis
    unfolding cover_source_def Let_def packet_token_ids[OF assms]
    by (auto simp: sbind_eq_Inr annotated_tokens.loop_ok split: option.splits)
qed

text \<open>A submission covers a packet: the same sentences, each with the same units, each once.\<close>

definition covers :: "jsv \<Rightarrow> jsv \<Rightarrow> bool" where
  "covers packet submission \<longleftrightarrow> js_is_array (dot submission ''sentences'')
     \<and> mset (map (\<lambda>s. dot s ''sentenceId'') (sentences_of submission))
       = mset (map (\<lambda>s. dot s ''sentenceId'') (sentences_of packet))
     \<and> (\<forall>x \<in> set (sentences_of packet). strict_eq (dot x ''sentenceId'') (dot x ''sentenceId'')
         \<and> (\<forall>a \<in> set (sentences_of submission). dot a ''sentenceId'' = dot x ''sentenceId'' \<longrightarrow> covers_sentence x a))"

lemma validate_annotation_coverage_ok:
  assumes "packet_ok p"
  shows "validate_annotation_coverage p s = Inr () \<longleftrightarrow> covers p s"
proof -
  let ?id = "\<lambda>s. dot s ''sentenceId''"
  let ?S = "sentences_of s" and ?P = "sentences_of p"
  have P: "\<forall>x \<in> set ?P. sentence_ok x" "js_distinct (map ?id ?P)" using assms by (auto simp: packet_ok_def)
  have sep: "sorted_wrt (\<lambda>x y. \<not> strict_eq (fst x) (fst y)) (map (\<lambda>s. (?id s, s)) ?S) \<longleftrightarrow> js_distinct (map ?id ?S)"
    by (simp add: js_distinct_def sorted_wrt_map)
  have get: "js_map_get (map (\<lambda>s. (?id s, s)) ?S) k = Some a \<longleftrightarrow> a \<in> set ?S \<and> strict_eq (?id a) k"
    if "js_distinct (map ?id ?S)" for k a
    using that by (subst js_map_get_iff) (auto simp: comp_def)
  have step: "validate_annotation_coverage p s = Inr () \<longleftrightarrow> js_is_array (dot s ''sentences'') \<and> length ?S = length ?P
      \<and> (\<forall>a \<in> set ?S. truthy a) \<and> js_distinct (map ?id ?S)
      \<and> (\<forall>x \<in> set ?P. \<exists>a \<in> set ?S. strict_eq (?id a) (?id x) \<and> covers_sentence x a)"
  proof -
    have src: "cover_source m x = Inr () \<longleftrightarrow> (\<exists>a. js_map_get m (?id x) = Some a \<and> covers_sentence x a)"
      if "x \<in> set ?P" for m x using P(1) that cover_source_ok by blast
    have loop: "foldE cover_step [] ?S = Inr m \<longleftrightarrow>
        (\<forall>a \<in> set ?S. truthy a) \<and> js_distinct (map ?id ?S) \<and> m = map (\<lambda>s. (?id s, s)) ?S" for m
      unfolding annotated_sentences.loop_ok sep by blast
    have "(sbind (foldE cover_step [] ?S) (\<lambda>m. foldE (\<lambda>_. cover_source m) () ?P) = Inr ()) \<longleftrightarrow>
        (\<forall>a \<in> set ?S. truthy a) \<and> js_distinct (map ?id ?S)
      \<and> (\<forall>x \<in> set ?P. cover_source (map (\<lambda>s. (?id s, s)) ?S) x = Inr ())"
      unfolding sbind_eq_Inr loop foldE_unit by blast
    also have "\<dots> \<longleftrightarrow> (\<forall>a \<in> set ?S. truthy a) \<and> js_distinct (map ?id ?S)
      \<and> (\<forall>x \<in> set ?P. \<exists>a \<in> set ?S. strict_eq (?id a) (?id x) \<and> covers_sentence x a)"
      using src get by blast
    finally have loops: "(sbind (foldE cover_step [] ?S) (\<lambda>m. foldE (\<lambda>_. cover_source m) () ?P) = Inr ()) \<longleftrightarrow>
        (\<forall>a \<in> set ?S. truthy a) \<and> js_distinct (map ?id ?S)
      \<and> (\<forall>x \<in> set ?P. \<exists>a \<in> set ?S. strict_eq (?id a) (?id x) \<and> covers_sentence x a)" .
    show ?thesis
    proof (cases "js_is_array (dot s ''sentences'') \<and> length ?S = length ?P")
      case True
      then have "validate_annotation_coverage p s
          = sbind (foldE cover_step [] ?S) (\<lambda>m. foldE (\<lambda>_. cover_source m) () ?P)"
        by (simp add: validate_annotation_coverage_def)
      with loops True show ?thesis by simp
    qed (auto simp: validate_annotation_coverage_def)
  qed
  show ?thesis
  proof
    assume "validate_annotation_coverage p s = Inr ()"
    note v = this[unfolded step]
    then have prim: "\<forall>x \<in> set ?P. strict_eq (?id x) (?id x)" using strict_eq_self(2) by blast
    with P(2) have d: "distinct (map ?id ?P)" using js_distinct_iff[of "map ?id ?P"] by simp
    have "set (map ?id ?P) \<subseteq> set (map ?id ?S)"
    proof
      fix k assume "k \<in> set (map ?id ?P)"
      then obtain x where "x \<in> set ?P" "k = ?id x" by auto
      with v obtain a where "a \<in> set ?S" "strict_eq (?id a) k" by blast
      then have "a \<in> set ?S" "?id a = k" by (auto dest: strict_eqD)
      then show "k \<in> set (map ?id ?S)" by auto
    qed
    with d v have m: "mset (map ?id ?S) = mset (map ?id ?P)"
      using distinct_permutation(2)[of "map ?id ?P" "map ?id ?S"] by simp
    with d have dS: "distinct (map ?id ?S)" using mset_eq_imp_distinct_iff by blast
    have "covers_sentence x a" if "x \<in> set ?P" "a \<in> set ?S" "?id a = ?id x" for x a
    proof -
      from v have "\<forall>x \<in> set ?P. \<exists>a \<in> set ?S. strict_eq (?id a) (?id x) \<and> covers_sentence x a" by simp
      from bspec[OF this that(1)]
      obtain b where "b \<in> set ?S" "strict_eq (?id b) (?id x)" "covers_sentence x b" by (elim bexE conjE)
      moreover from strict_eqD[OF this(2)] that(3) have "?id a = ?id b" by simp
      ultimately have "b = a" using dS that(2) by (simp add: distinct_map inj_on_def)
      with \<open>covers_sentence x b\<close> show ?thesis by simp
    qed
    with v prim m show "covers p s" unfolding covers_def by blast
  next
    assume c: "covers p s"
    then have prim: "\<forall>x \<in> set ?P. strict_eq (?id x) (?id x)" and m: "mset (map ?id ?S) = mset (map ?id ?P)"
      unfolding covers_def by blast+
    from m have ids: "set (map ?id ?S) = set (map ?id ?P)" by (rule mset_eq_setD)
    have "distinct (map ?id ?P)" using P(2) prim js_distinct_iff[of "map ?id ?P"] by simp
    with m have "distinct (map ?id ?S)" using mset_eq_imp_distinct_iff by blast
    then have "js_distinct (map ?id ?S)"
      using js_distinct_iff[of "map ?id ?S"] prim unfolding ids by simp
    moreover have "truthy a" if "a \<in> set ?S" for a
    proof -
      from that have "?id a \<in> set (map ?id ?P)" unfolding ids[symmetric] by simp
      with P(1) have "truthy (?id a)" by (auto simp: sentence_ok_def)
      then show ?thesis by (rule truthy_own)
    qed
    moreover have "length ?S = length ?P" using mset_eq_length[OF m] by simp
    moreover have "\<forall>x \<in> set ?P. \<exists>a \<in> set ?S. strict_eq (?id a) (?id x) \<and> covers_sentence x a"
    proof
      fix x assume x: "x \<in> set ?P"
      then have "?id x \<in> set (map ?id ?S)" unfolding ids by simp
      then obtain a where "a \<in> set ?S" "?id a = ?id x" by auto
      moreover from this x c have "covers_sentence x a" unfolding covers_def by blast
      ultimately show "\<exists>a \<in> set ?S. strict_eq (?id a) (?id x) \<and> covers_sentence x a"
        using x prim by (intro bexI[of _ a]) simp_all
    qed
    ultimately show "validate_annotation_coverage p s = Inr ()" using step c unfolding covers_def by blast
  qed
qed

section \<open>Framing\<close>

text \<open>
  An interface for encoders whose output can be read back part by part: a frame is never empty
  and two frames at the head of one stream carry the same content.
\<close>

locale framing =
  fixes frame :: "'a \<Rightarrow> 'b list" and content :: "'a \<Rightarrow> 'c" and sound :: "'a \<Rightarrow> bool"
  assumes frame_nonempty: "frame x \<noteq> []"
    and frame_cancel: "\<lbrakk>sound x; sound y; frame x @ s = frame y @ t\<rbrakk> \<Longrightarrow> content x = content y \<and> s = t"
begin

lemma stream_unique:
  "\<lbrakk>\<forall>x \<in> set xs. sound x; \<forall>y \<in> set ys. sound y; concat (map frame xs) = concat (map frame ys)\<rbrakk>
   \<Longrightarrow> map content xs = map content ys"
proof (induction xs arbitrary: ys)
  case Nil
  then show ?case using frame_nonempty by (cases ys) auto
next
  case (Cons x xs)
  then obtain y ys' where ys: "ys = y # ys'" using frame_nonempty by (cases ys) auto
  with Cons.prems frame_cancel[of x y "concat (map frame xs)" "concat (map frame ys')"]
  have "content x = content y" "concat (map frame xs) = concat (map frame ys')" by simp_all
  with Cons.IH[of ys'] Cons.prems ys show ?case by simp
qed

end

text \<open>The bytes a part contributes to the digest's input.\<close>

definition part_sound :: "jsv \<Rightarrow> bool" where
  "part_sound v \<longleftrightarrow> (case part_text v of None \<Rightarrow> True | Some txt \<Rightarrow> well_formed txt)"

definition part_bytes :: "jsv \<Rightarrow> nat list" where
  "part_bytes v = (case part_text v of
      None \<Rightarrow> u ''-1:''
    | Some txt \<Rightarrow> nat_str (length (utf8_encode txt)) @ of_char CHR '':'' # utf8_encode txt)"

lemma nat_str_ascii: "\<forall>c \<in> set (nat_str n). c < 128"
  using nat_str_digits by fastforce

lemma colon_split:
  assumes "nat_str m @ of_char CHR '':'' # s = nat_str n @ of_char CHR '':'' # t"
  shows "m = n \<and> s = t"
proof -
  have split: "takeWhile (\<lambda>c. c \<noteq> of_char CHR '':'') (nat_str k @ of_char CHR '':'' # w) = nat_str k" for k w
    by (subst takeWhile_append2) (fastforce dest: nat_str_digits)+
  from split[of m s] split[of n t] assms have "nat_str m = nat_str n" by metis
  with assms show ?thesis by simp
qed

interpretation parts: framing part_bytes part_text part_sound
proof
  show "part_bytes x \<noteq> []" for x by (auto simp: part_bytes_def split: option.splits)
  fix x y s t
  assume sound: "part_sound x" "part_sound y" and eq: "part_bytes x @ s = part_bytes y @ t"
  have neg: "u ''-1:'' @ a \<noteq> nat_str n @ b" for a b n
    using nat_str_digits[of "of_char CHR ''-''" n] by (cases "nat_str n") (auto simp: u_def)
  show "part_text x = part_text y \<and> s = t"
  proof (cases "part_text x"; cases "part_text y")
    fix a b assume t: "part_text x = Some a" "part_text y = Some b"
    with eq have "nat_str (length (utf8_encode a)) @ of_char CHR '':'' # (utf8_encode a @ s)
        = nat_str (length (utf8_encode b)) @ of_char CHR '':'' # (utf8_encode b @ t)"
      by (simp add: part_bytes_def)
    from colon_split[OF this] have "utf8_encode a = utf8_encode b" "s = t" by auto
    with t sound show ?thesis by (auto simp: part_sound_def intro: utf8_encode_inject)
  qed (use eq neg neg[symmetric] in \<open>auto simp: part_bytes_def\<close>)
qed

lemma utf8_add_part: "part_sound v \<Longrightarrow> utf8_encode (add_part v @ s) = part_bytes v @ utf8_encode s"
proof -
  assume v: "part_sound v"
  have ascii: "utf8_encode (a @ w) = a @ utf8_encode w" if "\<forall>c \<in> set a. c < 128" for a w
    using that utf8_encode_append[OF well_formed_ascii[OF that]] utf8_encode_ascii[OF that] by simp
  have neg: "\<forall>c \<in> set (u ''-1:''). c < 128" and colon: "\<forall>c \<in> set (u '':''). c < 128"
    by (simp_all add: u_def)
  show ?thesis
  proof (cases "part_text v")
    case None
    then show ?thesis using ascii[OF neg] by (simp add: add_part_def part_bytes_def)
  next
    case (Some x)
    with v have "well_formed x" by (simp add: part_sound_def)
    then have "utf8_encode (x @ s) = utf8_encode x @ utf8_encode s" by (rule utf8_encode_append)
    with Some show ?thesis
      using ascii[OF nat_str_ascii, of "length (utf8_encode x)" "u '':'' @ x @ s"] ascii[OF colon, of "x @ s"]
      by (simp add: add_part_def part_bytes_def u_def)
  qed
qed

lemma utf8_parts: "\<forall>v \<in> set parts. part_sound v \<Longrightarrow>
    utf8_encode (concat (map add_part parts)) = concat (map part_bytes parts)"
  by (induction parts) (simp_all add: utf8_add_part)

text \<open>Equal digests of two part lists mean equal parts, if the digest tells their inputs apart.\<close>

definition digest_input :: "jsv list \<Rightarrow> nat list" where
  "digest_input parts = utf8_encode (concat (map add_part parts))"

lemma builder_digest_inject:
  assumes "\<forall>v \<in> set ps. part_sound v" "\<forall>v \<in> set qs. part_sound v"
    "builder_digest sha256 ps = builder_digest sha256 qs" "inj_on sha256 {digest_input ps, digest_input qs}"
  shows "map part_text ps = map part_text qs"
proof -
  have "digest_input ps = digest_input qs"
    using assms(3) unfolding builder_digest_def digest_input_def[symmetric] by (rule inj_onD[OF assms(4)]) simp_all
  then have "concat (map part_bytes ps) = concat (map part_bytes qs)"
    unfolding digest_input_def using utf8_parts[OF assms(1)] utf8_parts[OF assms(2)] by simp
  with assms(1,2) show ?thesis by (rule parts.stream_unique)
qed

section \<open>What a packet root binds\<close>

text \<open>The language's limit on arrays.\<close>

primrec js_sized :: "jsv \<Rightarrow> bool" where
  "js_sized JUndef = True"
| "js_sized JNull = True"
| "js_sized (JBool b) = True"
| "js_sized (JNum n) = True"
| "js_sized (JStr s) = True"
| "js_sized (JArr vs) = (length vs < 2 ^ 32 \<and> list_all id (map js_sized vs))"
| "js_sized (JObj kvs) = list_all snd (map (map_prod id js_sized) kvs)"

lemma js_sized_own: "js_sized v \<Longrightarrow> js_sized (own v k)"
  by (cases v) (auto simp: own_def list_all_iff split: option.splits dest!: map_of_SomeD)

lemma js_sized_elems: "js_sized v \<Longrightarrow> length (elems v) < 2 ^ 32 \<and> (\<forall>x \<in> set (elems v). js_sized x)"
  by (cases v) (auto simp: list_all_iff)

lemma js_sized_units:
  "js_sized v \<Longrightarrow> length (sentences_of v) < 2 ^ 32 \<and> (\<forall>s \<in> set (sentences_of v). length (tokens_of s) < 2 ^ 32)"
  unfolding sentences_of_def tokens_of_def using js_sized_elems js_sized_own by blast

definition packet_instructions :: "jsv \<Rightarrow> jsv list" where
  "packet_instructions packet = elems (coalesce (dot packet ''instructions'') (JArr []))"

lemma compute_packet_root_ok:
  "compute_packet_root sha256 packet = Inr r \<longleftrightarrow> packet_ok packet
     \<and> js_is_array (coalesce (dot packet ''instructions'') (JArr []))
     \<and> r = builder_digest sha256 (packet_parts packet (packet_instructions packet))"
  by (cases "coalesce (dot packet ''instructions'') (JArr [])")
    (auto simp: compute_packet_root_def sbind_eq_Inr validate_packet_ok packet_instructions_def)

text \<open>The content of a packet as the digest sees it: \<open>String\<close> of every bound value.\<close>

definition token_view :: "jsv \<Rightarrow> ustr option list" where
  "token_view token = map part_text (token_parts token)"

definition sentence_view :: "jsv \<Rightarrow> ustr option \<times> ustr option \<times> ustr option list list" where
  "sentence_view s = (part_text (dot s ''sentenceId''), part_text (dot s ''text''), map token_view (tokens_of s))"

definition PACKET_HEADER :: "string list" where
  "PACKET_HEADER = [''taskId'', ''taskVersion'', ''packetId'', ''holdoutId'', ''protocolId'',
     ''guidelineVersion'', ''dataVersion'', ''protocolVersion'', ''releaseCandidateId'', ''pilotOnly'',
     ''developerVisible'', ''parserPredictionsExcluded'', ''derivedFromExcludedCorpus'',
     ''holdoutManifestSha256'']"

lemma part_text_nat:
  assumes "m < 2 ^ 32" "n < 2 ^ 32" "part_text (JNum (of_nat m)) = part_text (JNum (of_nat n))"
  shows "m = n"
proof -
  have "num_str (of_nat k) = int_str (int k)" if "k < 2 ^ 32" for k
    using num_str_of_int[of "int k"] that by simp
  with assms show ?thesis by (simp add: part_text_def)
qed

lemma token_stream:
  assumes "length A = length B"
    "map part_text (concat (map token_parts A)) @ r = map part_text (concat (map token_parts B)) @ t"
  shows "map token_view A = map token_view B \<and> r = t"
  using assms by (induction rule: list_induct2) (simp_all add: token_parts_def token_view_def)

lemma sentence_stream:
  assumes "length S = length T" "\<forall>s \<in> set S \<union> set T. length (tokens_of s) < 2 ^ 32"
    "map part_text (concat (map sentence_parts S)) @ r = map part_text (concat (map sentence_parts T)) @ t"
  shows "map sentence_view S = map sentence_view T \<and> r = t"
  using assms
proof (induction rule: list_induct2)
  case (Cons x S y T)
  let ?rest = "\<lambda>Z w. map part_text (concat (map sentence_parts Z)) @ w"
  from Cons.prems(2) have
    "part_text (dot x ''sentenceId'') = part_text (dot y ''sentenceId'')"
    "part_text (dot x ''text'') = part_text (dot y ''text'')"
    "part_text (JNum (of_nat (length (tokens_of x)))) = part_text (JNum (of_nat (length (tokens_of y))))"
    "map part_text (concat (map token_parts (tokens_of x))) @ ?rest S r
       = map part_text (concat (map token_parts (tokens_of y))) @ ?rest T t"
    by (simp_all add: sentence_parts_def[of x] sentence_parts_def[of y])
  moreover from this(3) Cons.prems(1) have n: "length (tokens_of x) = length (tokens_of y)"
    by (intro part_text_nat) simp_all
  ultimately show ?case
    using token_stream[OF n, of "?rest S r" "?rest T t"] Cons by (simp add: sentence_view_def)
qed simp

text \<open>
  C4. Two validated packets with one root have the same content: the same identity, versions and
  metric policy, and the same sentences with the same texts and tokens in the same order, each
  value as its \<open>String\<close>. The digest is asked only to tell apart the two inputs it is given; the
  strings are well-formed UTF-16 and the arrays within the language's limit.
\<close>

theorem packet_root_binds_content:
  assumes "compute_packet_root sha256 p = Inr r" "compute_packet_root sha256 q = Inr r"
    "js_sized p" "js_sized q"
    "\<forall>v \<in> set (packet_parts p (packet_instructions p)). part_sound v"
    "\<forall>v \<in> set (packet_parts q (packet_instructions q)). part_sound v"
    "inj_on sha256 {digest_input (packet_parts p (packet_instructions p)),
                    digest_input (packet_parts q (packet_instructions q))}"
  shows "(\<forall>f \<in> set PACKET_HEADER. part_text (dot p f) = part_text (dot q f))
    \<and> canonical_json (dot p ''metricPolicy'') = canonical_json (dot q ''metricPolicy'')
    \<and> map sentence_view (sentences_of p) = map sentence_view (sentences_of q)"
proof -
  have "map part_text (packet_parts p (packet_instructions p)) = map part_text (packet_parts q (packet_instructions q))"
    using assms(1,2) by (intro builder_digest_inject[OF assms(5,6) _ assms(7)]) (simp add: compute_packet_root_ok)
  note eqs = this[unfolded packet_parts_def, simplified]
  have n: "length (sentences_of p) = length (sentences_of q)"
    using eqs js_sized_units assms(3,4) part_text_nat by blast
  have "\<forall>s \<in> set (sentences_of p) \<union> set (sentences_of q). length (tokens_of s) < 2 ^ 32"
    using js_sized_units assms(3,4) by blast
  with n have "map sentence_view (sentences_of p) = map sentence_view (sentences_of q)"
    using sentence_stream eqs by (metis (no_types, lifting) append.assoc map_append)
  with eqs show ?thesis by (simp add: PACKET_HEADER_def part_text_def)
qed

section \<open>A sample\<close>

text \<open>A packet of one sentence with two tokens, and the same packet with an unbound remark.\<close>

definition str :: "string \<Rightarrow> jsv" where "str s = JStr (u s)"

definition sample_fields :: "(ustr \<times> jsv) list" where
  "sample_fields =
    [(u ''taskId'', str ''t1''), (u ''taskVersion'', JNum 1), (u ''packetId'', str ''p1''),
     (u ''holdoutId'', str ''h1''), (u ''protocolId'', str ''pr1''), (u ''guidelineVersion'', str ''g1''),
     (u ''dataVersion'', str ''d1''), (u ''protocolVersion'', str ''v1'')]"

definition sample_sentence :: jsv where
  "sample_sentence = JObj [(u ''sentenceId'', str ''s1''), (u ''text'', str ''ab''),
     (u ''tokens'', JArr [JObj [(u ''id'', JNum 1), (u ''form'', str ''a'')],
                          JObj [(u ''id'', JNum 2), (u ''form'', str ''b'')]])]"

definition sample_policy :: jsv where
  "sample_policy = JObj [(u ''schema'', str ''adg-iaa-policy-v1''), (u ''metrics'', JArr []),
     (u ''minimumRawAgreement'', JNum 1), (u ''minimumDefinedKappa'', JNum 0)]"

definition sample_packet :: "(ustr \<times> jsv) list \<Rightarrow> jsv" where
  "sample_packet extra = JObj ([(u ''schema'', PACKET_SCHEMA)] @ sample_fields @
     [(u ''metricPolicy'', sample_policy), (u ''parserPredictionsExcluded'', JBool True),
      (u ''sentences'', JArr [sample_sentence])] @ extra)"

definition sample_remark :: "(ustr \<times> jsv) list" where
  "sample_remark = [(u ''remark'', JNull)]"

lemmas sample_defs = sample_packet_def sample_fields_def sample_sentence_def sample_policy_def
  sample_remark_def str_def

lemma sample_packets_valid:
  "validate_packet (sample_packet []) = Inr ()" "validate_packet (sample_packet sample_remark) = Inr ()"
  by code_simp+

lemma sample_parts_sound:
  "\<forall>v \<in> set (packet_parts (sample_packet []) (packet_instructions (sample_packet []))). part_sound v"
  "\<forall>v \<in> set (packet_parts (sample_packet sample_remark) (packet_instructions (sample_packet sample_remark))). part_sound v"
  by code_simp+

text \<open>With a digest that keeps its input, the two samples get different roots only if a bound
  value differs; the remark is not bound, so the theorem applies to them.\<close>

theorem packet_root_binds_content_witness:
  "\<exists>r. compute_packet_root id (sample_packet []) = Inr r
     \<and> compute_packet_root id (sample_packet sample_remark) = Inr r
     \<and> map sentence_view (sentences_of (sample_packet [])) = map sentence_view (sentences_of (sample_packet sample_remark))"
proof -
  let ?p = "sample_packet []" and ?q = "sample_packet sample_remark"
  have arr: "js_is_array (coalesce (dot ?p ''instructions'') (JArr []))"
    "js_is_array (coalesce (dot ?q ''instructions'') (JArr []))" by code_simp+
  have same: "packet_parts ?q (packet_instructions ?q) = packet_parts ?p (packet_instructions ?p)" by code_simp
  have roots: "compute_packet_root id ?p = Inr (builder_digest id (packet_parts ?p (packet_instructions ?p)))"
    "compute_packet_root id ?q = Inr (builder_digest id (packet_parts ?p (packet_instructions ?p)))"
    using sample_packets_valid arr same by (simp_all add: compute_packet_root_ok validate_packet_ok)
  have "js_sized ?p" "js_sized ?q" by code_simp+
  from packet_root_binds_content[OF roots this sample_parts_sound inj_on_id] roots
  show ?thesis by blast
qed

section \<open>Evidence and notes at any depth\<close>

text \<open>\<open>occurs v w\<close>: \<open>v\<close> is \<open>w\<close> or a value inside it.\<close>

inductive occurs :: "jsv \<Rightarrow> jsv \<Rightarrow> bool" where
  here: "occurs v v"
| element: "x \<in> set vs \<Longrightarrow> occurs v x \<Longrightarrow> occurs v (JArr vs)"
| property: "(k, x) \<in> set kvs \<Longrightarrow> occurs v x \<Longrightarrow> occurs v (JObj kvs)"

inductive_cases occurs_ArrE: "occurs v (JArr vs)"
inductive_cases occurs_ObjE: "occurs v (JObj kvs)"

lemma contains_forbidden_object:
  "contains_forbidden_evidence (JObj kvs) \<longleftrightarrow>
     (\<exists>k x. (k, x) \<in> set kvs \<and> (k \<in> set FORBIDDEN_EVIDENCE_KEYS \<or> contains_forbidden_evidence x))"
  by (force simp: list_ex_iff)

lemma occurs_forbidden: "occurs v w \<Longrightarrow> contains_forbidden_evidence v \<Longrightarrow> contains_forbidden_evidence w"
proof (induction rule: occurs.induct)
  case (property k x kvs v)
  then show ?case unfolding contains_forbidden_object by blast
qed (auto simp: list_ex_iff)

lemma contains_forbidden_evidence_iff:
  "contains_forbidden_evidence w \<longleftrightarrow>
     (\<exists>kvs k x. occurs (JObj kvs) w \<and> (k, x) \<in> set kvs \<and> k \<in> set FORBIDDEN_EVIDENCE_KEYS)" (is "_ \<longleftrightarrow> ?R w")
proof
  show "contains_forbidden_evidence w \<Longrightarrow> ?R w"
  proof (induction w)
    case (JArr vs)
    then obtain x where x: "x \<in> set vs" "?R x" by (auto simp: list_ex_iff)
    then show ?case using occurs.element by blast
  next
    case (JObj kvs)
    then obtain k x where kx: "(k, x) \<in> set kvs" "k \<in> set FORBIDDEN_EVIDENCE_KEYS \<or> contains_forbidden_evidence x"
      unfolding contains_forbidden_object by blast
    then show ?case
    proof (cases "k \<in> set FORBIDDEN_EVIDENCE_KEYS")
      case False
      with kx have "contains_forbidden_evidence x" by simp
      with JObj.IH[OF kx(1), of x] have "?R x" by simp
      then show ?thesis using occurs.property[OF kx(1)] by blast
    qed (use occurs.here in blast)
  qed simp_all
  show "?R w \<Longrightarrow> contains_forbidden_evidence w"
    using occurs_forbidden contains_forbidden_object by blast
qed

text \<open>\<open>note_in s v\<close>: \<open>s\<close> is the text of a note of \<open>v\<close>, at any depth outside other notes.\<close>

inductive note_in :: "ustr \<Rightarrow> jsv \<Rightarrow> bool" where
  own_note: "(k, c) \<in> set kvs \<Longrightarrow> k \<in> set PUBLIC_NOTE_KEYS \<Longrightarrow> \<not> nullish c \<Longrightarrow> note_in (to_str c) (JObj kvs)"
| deeper: "(k, c) \<in> set kvs \<Longrightarrow> k \<notin> set PUBLIC_NOTE_KEYS \<Longrightarrow> note_in s c \<Longrightarrow> note_in s (JObj kvs)"
| item: "x \<in> set vs \<Longrightarrow> note_in s x \<Longrightarrow> note_in s (JArr vs)"

inductive_cases note_in_ObjE: "note_in s (JObj kvs)"
inductive_cases note_in_ArrE: "note_in s (JArr vs)"
inductive_simps note_in_leaf [simp]: "note_in s JUndef" "note_in s JNull" "note_in s (JBool b)"
  "note_in s (JNum n)" "note_in s (JStr w)"

lemma collect_public_notes_object:
  "s \<in> set (collect_public_notes (JObj kvs)) \<longleftrightarrow>
     (\<exists>k c. (k, c) \<in> set kvs \<and>
        (if k \<in> set PUBLIC_NOTE_KEYS \<and> \<not> nullish c then s = to_str c else s \<in> set (collect_public_notes c)))"
  by (simp add: case_prod_beta Bex_def split_paired_Ex; blast)

lemma collect_public_notes_iff: "s \<in> set (collect_public_notes v) \<longleftrightarrow> note_in s v"
proof (induction v)
  case (JArr vs)
  then show ?case by (auto elim!: note_in_ArrE intro: note_in.item)
next
  case (JObj kvs)
  have IH: "s \<in> set (collect_public_notes c) \<longleftrightarrow> note_in s c" if "(k, c) \<in> set kvs" for k c
    using JObj[OF that] by simp
  have none: "\<not> note_in s c" if "nullish c" for c
    using that by (auto simp: nullish_def)
  show ?case
  proof
    assume "s \<in> set (collect_public_notes (JObj kvs))"
    then obtain k c where kc: "(k, c) \<in> set kvs"
      "if k \<in> set PUBLIC_NOTE_KEYS \<and> \<not> nullish c then s = to_str c else s \<in> set (collect_public_notes c)"
      unfolding collect_public_notes_object by blast
    show "note_in s (JObj kvs)"
    proof (cases "k \<in> set PUBLIC_NOTE_KEYS \<and> \<not> nullish c")
      case True
      with kc show ?thesis using note_in.own_note[OF kc(1)] by simp
    next
      case False
      with kc IH[OF kc(1)] none have "note_in s c" "k \<notin> set PUBLIC_NOTE_KEYS" by auto
      then show ?thesis using note_in.deeper[OF kc(1)] by blast
    qed
  next
    assume "note_in s (JObj kvs)"
    then show "s \<in> set (collect_public_notes (JObj kvs))"
      unfolding collect_public_notes_object by (cases rule: note_in_ObjE) (use IH in \<open>auto\<close>)
  qed
qed simp_all

section \<open>Bound submissions\<close>

lemma strict_eq_JStr_iff [simp]: "strict_eq v (JStr s) \<longleftrightarrow> v = JStr s" by simp

lemma same_fieldsD: "same_fields fs d p \<Longrightarrow> f \<in> set fs \<Longrightarrow> dot d f = dot p f"
  by (auto simp: same_fields_def list_all_iff dest: strict_eqD)

lemma validate_submission_binding_ok:
  "validate_submission_binding sha256 p s = Inr () \<longleftrightarrow> packet_ok p \<and> dot s ''schema'' = ANNOTATION_SCHEMA
     \<and> same_fields BINDING_FIELDS s p
     \<and> (dot s ''annotatorSlot'' = JStr (u ''A'') \<or> dot s ''annotatorSlot'' = JStr (u ''B''))
     \<and> (\<exists>root. compute_packet_root sha256 p = Inr root \<and> dot s ''packetMerkleRoot'' = JStr root)
     \<and> covers p s"
proof -
  have "strict_eq v ANNOTATION_SCHEMA \<longleftrightarrow> v = ANNOTATION_SCHEMA" for v by (simp add: ANNOTATION_SCHEMA_def)
  moreover have "dot s ''schema'' = ANNOTATION_SCHEMA \<Longrightarrow> truthy s"
    by (rule own_not_undef[of s "u ''schema''"]) (simp add: ANNOTATION_SCHEMA_def)
  ultimately show ?thesis
    by (auto simp: validate_submission_binding_def sbind_eq_Inr validate_packet_ok
        validate_annotation_coverage_ok split: if_splits)
qed

text \<open>What \<open>validateAdjudicationBinding\<close> establishes.\<close>

lemma validate_adjudication_bindingD:
  assumes "validate_adjudication_binding sha256 p A B d = Inr ()"
  obtains root rootA rootB where
    "validate_submission_binding sha256 p A = Inr ()" "validate_submission_binding sha256 p B = Inr ()"
    "dot d ''schema'' = ADJUDICATION_SCHEMA" "same_fields BINDING_FIELDS d p"
    "dot d ''adjudicatorSlot'' = JStr (u ''J1'')"
    "compute_packet_root sha256 p = Inr root" "dot d ''packetMerkleRoot'' = JStr root"
    "compute_annotation_root sha256 p A = Inr rootA" "dot d ''annotationAMerkleRoot'' = JStr rootA"
    "compute_annotation_root sha256 p B = Inr rootB" "dot d ''annotationBMerkleRoot'' = JStr rootB"
    "\<not> strict_eq (dot A ''annotatorSlot'') (dot B ''annotatorSlot'')"
    "dot d ''annotationASlot'' = dot A ''annotatorSlot''" "dot d ''annotationBSlot'' = dot B ''annotatorSlot''"
    "validate_annotation_coverage p d = Inr ()" "validate_adjudication_resolutions A B d = Inr ()"
  using assms unfolding validate_adjudication_binding_def sbind_eq_Inr
  by (elim exE conjE) (auto simp: sbind_eq_Inr ADJUDICATION_SCHEMA_def dest!: strict_eqD split: if_splits)

lemma by_key_getD:
  assumes "js_map_get (by_key k us) v = Some x"
  shows "x \<in> set us" "strict_eq (dot x k) v"
  using assms by (auto simp: js_map_get_def by_key_def dest!: find_SomeD)

text \<open>A unit whose final value is not the common value of both annotations carries a reason.\<close>

definition justified :: "bool \<Rightarrow> jsv \<Rightarrow> bool" where
  "justified unanimous finalUnit \<longleftrightarrow> unanimous \<or> \<not> resolution_blank finalUnit"

definition token_justified :: "jsv list \<Rightarrow> jsv list \<Rightarrow> jsv \<Rightarrow> bool" where
  "token_justified aTokens bTokens t \<longleftrightarrow> (\<exists>a b. a \<in> set aTokens \<and> b \<in> set bTokens
     \<and> dot a ''tokenId'' = dot t ''tokenId'' \<and> dot b ''tokenId'' = dot t ''tokenId''
     \<and> justified (token_decision_key a = token_decision_key b \<and> token_decision_key t = token_decision_key a) t)"

definition unanimous :: "string \<Rightarrow> jsv \<Rightarrow> jsv \<Rightarrow> jsv \<Rightarrow> bool" where
  "unanimous f a b final \<longleftrightarrow> strict_eq (dot a f) (dot b f) \<and> strict_eq (dot final f) (dot a f)"

lemma resolve_tokenD:
  assumes "resolve_token fs (by_key ''tokenId'' as) (by_key ''tokenId'' bs) t = Inr ()"
  shows "token_justified as bs t"
proof -
  from assms obtain a b where ab:
    "js_map_get (by_key ''tokenId'' as) (dot t ''tokenId'') = Some a"
    "js_map_get (by_key ''tokenId'' bs) (dot t ''tokenId'') = Some b"
    by (auto simp: resolve_token_def sbind_eq_Inr split: option.splits)
  with assms have
    "justified (token_decision_key a = token_decision_key b \<and> token_decision_key t = token_decision_key a) t"
    by (auto simp: resolve_token_def sbind_eq_Inr justified_def decision_needs_resolution_def)
  with by_key_getD[OF ab(1)] by_key_getD[OF ab(2)] show ?thesis
    unfolding token_justified_def by (blast dest: strict_eqD)
qed

definition sentence_justified :: "jsv list \<Rightarrow> jsv list \<Rightarrow> jsv \<Rightarrow> bool" where
  "sentence_justified aSentences bSentences f \<longleftrightarrow> (\<exists>a b. a \<in> set aSentences \<and> b \<in> set bSentences
     \<and> dot a ''sentenceId'' = dot f ''sentenceId'' \<and> dot b ''sentenceId'' = dot f ''sentenceId''
     \<and> justified (unanimous ''structurallyAcceptable'' a b f \<and> unanimous ''completePredicate'' a b f) f
     \<and> list_all (token_justified (tokens_of a) (tokens_of b)) (tokens_of f))"

lemma iter_or_array: "js_is_array v \<Longrightarrow> iter (js_or v (JArr [])) = Inr (elems v)"
  by (cases v) (auto simp: js_or_def)

lemma resolve_sentenceD:
  assumes "resolve_sentence (by_key ''sentenceId'' as) (by_key ''sentenceId'' bs) f = Inr ()"
    "js_is_array (dot f ''tokens'')"
  shows "sentence_justified as bs f"
proof -
  from assms(1) obtain a b where ab:
    "js_map_get (by_key ''sentenceId'' as) (dot f ''sentenceId'') = Some a"
    "js_map_get (by_key ''sentenceId'' bs) (dot f ''sentenceId'') = Some b"
    by (auto simp: resolve_sentence_def sbind_eq_Inr split: option.splits)
  with assms have "justified (unanimous ''structurallyAcceptable'' a b f \<and> unanimous ''completePredicate'' a b f) f"
    "foldE (\<lambda>_ t. resolve_token f (by_key ''tokenId'' (tokens_of a)) (by_key ''tokenId'' (tokens_of b)) t) ()
       (tokens_of f) = Inr ()"
    by (auto simp: resolve_sentence_def sbind_eq_Inr iter_or_array tokens_of_def justified_def
        unanimous_def decision_needs_resolution_def split: if_splits)
  moreover from this(2) have "list_all (token_justified (tokens_of a) (tokens_of b)) (tokens_of f)"
    unfolding foldE_unit list_all_iff using resolve_tokenD by blast
  moreover have "dot a ''sentenceId'' = dot f ''sentenceId''" "dot b ''sentenceId'' = dot f ''sentenceId''"
    "a \<in> set as" "b \<in> set bs"
    using by_key_getD[OF ab(1)] by_key_getD[OF ab(2)] by (auto dest: strict_eqD)
  ultimately show ?thesis unfolding sentence_justified_def by blast
qed

lemma covers_tokens: "covers p d \<Longrightarrow> f \<in> set (sentences_of d) \<Longrightarrow> js_is_array (dot f ''tokens'')"
proof -
  assume c: "covers p d" and f: "f \<in> set (sentences_of d)"
  then have "dot f ''sentenceId'' \<in> set (map (\<lambda>s. dot s ''sentenceId'') (sentences_of p))"
    unfolding covers_def by (metis (no_types, lifting) image_eqI list.set_map mset_eq_setD)
  then obtain x where "x \<in> set (sentences_of p)" "dot f ''sentenceId'' = dot x ''sentenceId''" by auto
  with c f have "covers_sentence x f" unfolding covers_def by simp
  then show ?thesis by (simp add: covers_sentence_def)
qed

lemma resolutions_justified:
  assumes "validate_adjudication_resolutions A B d = Inr ()" "covers p d"
  shows "list_all (sentence_justified (sentences_of A) (sentences_of B)) (sentences_of d)"
proof -
  from assms(2) have arr: "js_is_array (dot d ''sentences'')" by (simp add: covers_def)
  from assms(1) have "\<forall>f \<in> set (sentences_of d). resolve_sentence (by_key ''sentenceId'' (sentences_of A))
      (by_key ''sentenceId'' (sentences_of B)) f = Inr ()"
    by (simp add: validate_adjudication_resolutions_def iter_or_array[OF arr] foldE_unit sentences_of_def)
  with resolve_sentenceD covers_tokens[OF assms(2)] show ?thesis unfolding list_all_iff by blast
qed

lemma validate_ratification_bindingD:
  assumes "validate_ratification_binding sha256 art rat = Inr ()"
  obtains root adj where
    "dot art ''kind'' = JStr (u ''adjudication-package'')"
    "validate_adjudication_binding sha256 (dot art ''packet'') (dot art ''annotationA'') (dot art ''annotationB'')
       (dot art ''adjudication'') = Inr ()"
    "compute_adjudication_root sha256 (dot art ''packet'') (dot art ''annotationA'') (dot art ''annotationB'')
       (dot art ''adjudication'') = Inr adj"
    "compute_packet_root sha256 (dot art ''packet'') = Inr root"
    "same_fields RATIFICATION_FIELDS rat (dot art ''packet'')"
    "dot rat ''packetMerkleRoot'' = JStr root" "dot rat ''primaryAdjudicationMerkleRoot'' = JStr adj"
    "dot rat ''reviewerSlot'' = JStr (u ''J2'')"
    "\<exists>w. dot rat ''rationale'' = JStr w \<and> 20 \<le> length (js_trim w) \<and> length w \<le> 4000"
proof -
  have js: "js_is_string v \<Longrightarrow> v = JStr (js_string v)" for v
    by (cases v) (simp_all add: js_string_def)
  from assms show ?thesis
    unfolding validate_ratification_binding_def
    by (auto simp: sbind_eq_Inr not_less split: if_splits dest!: js intro!: that)
qed

lemma slots_differ:
  assumes "dot A ''annotatorSlot'' = JStr (u ''A'') \<or> dot A ''annotatorSlot'' = JStr (u ''B'')"
    "dot B ''annotatorSlot'' = JStr (u ''A'') \<or> dot B ''annotatorSlot'' = JStr (u ''B'')"
    "\<not> strict_eq (dot A ''annotatorSlot'') (dot B ''annotatorSlot'')"
  shows "{dot A ''annotatorSlot'', dot B ''annotatorSlot''} = {JStr (u ''A''), JStr (u ''B'')}"
  using assms by auto

section \<open>Properties of the protocol\<close>

text \<open>A sample adjudication: two annotations of the sample packet that differ on one token, and a
  decision with a reason; the digest is a constant, so every root is the same text.\<close>

definition flat_digest :: "nat list \<Rightarrow> ustr" where "flat_digest bytes = u ''00''"

definition sample_unit :: "nat \<Rightarrow> string \<Rightarrow> string \<Rightarrow> jsv" where
  "sample_unit i pos reason = JObj [(u ''tokenId'', JNum (of_nat i)), (u ''universalPartOfSpeech'', str pos),
     (u ''resolutionNote'', str reason)]"

definition sample_units :: "string \<Rightarrow> string \<Rightarrow> jsv" where
  "sample_units pos reason = JArr [JObj [(u ''sentenceId'', str ''s1''), (u ''structurallyAcceptable'', JBool True),
     (u ''completePredicate'', JBool True),
     (u ''tokens'', JArr [sample_unit 2 ''NOUN'' '''', sample_unit 1 pos reason])]]"

definition sample_submission :: "string \<Rightarrow> string \<Rightarrow> jsv" where
  "sample_submission slot pos = JObj ([(u ''schema'', ANNOTATION_SCHEMA)] @ sample_fields @
     [(u ''packetMerkleRoot'', str ''00''), (u ''annotatorSlot'', str slot), (u ''sentences'', sample_units pos '''')])"

definition sample_decision :: "string \<Rightarrow> jsv" where
  "sample_decision reason = JObj ([(u ''schema'', ADJUDICATION_SCHEMA)] @ sample_fields @
     [(u ''packetMerkleRoot'', str ''00''), (u ''adjudicatorSlot'', str ''J1''),
      (u ''annotationAMerkleRoot'', str ''00''), (u ''annotationBMerkleRoot'', str ''00''),
      (u ''annotationASlot'', str ''A''), (u ''annotationBSlot'', str ''B''),
      (u ''sentences'', sample_units ''VERB'' reason)])"

definition sample_artifact :: "string \<Rightarrow> jsv" where
  "sample_artifact reason = JObj [(u ''kind'', str ''adjudication-package''), (u ''packet'', sample_packet []),
     (u ''annotationA'', sample_submission ''A'' ''VERB''), (u ''annotationB'', sample_submission ''B'' ''ADJ''),
     (u ''adjudication'', sample_decision reason)]"

definition sample_ratification :: jsv where
  "sample_ratification = JObj ([(u ''schema'', RATIFICATION_SCHEMA)] @ sample_fields @
     [(u ''packetMerkleRoot'', str ''00''), (u ''primaryAdjudicationMerkleRoot'', str ''00''),
      (u ''reviewerSlot'', str ''J2''), (u ''decision'', str ''agree''),
      (u ''rationale'', str ''the decision is sound'')])"

lemma flat_root: "builder_digest flat_digest parts = u ''00''"
  by (simp add: builder_digest_def flat_digest_def)

lemma sample_packet_root: "compute_packet_root flat_digest (sample_packet []) = Inr (u ''00'')"
proof -
  have "js_is_array (coalesce (dot (sample_packet []) ''instructions'') (JArr []))" by code_simp
  with sample_packets_valid(1) show ?thesis
    unfolding compute_packet_root_ok flat_root validate_packet_ok by simp
qed

lemma sample_annotation_parts: "\<exists>parts. annotation_parts (sample_units pos reason) noteName = Inr parts"
  by (simp add: sample_units_def sample_unit_def annotation_parts_def annotation_sentence_parts_def
      annotation_token_parts_def sbind_eq_Inr field_def)

lemma sample_submission_fields:
  "validate_annotation_coverage (sample_packet []) (sample_submission ''A'' ''VERB'') = Inr ()"
  "validate_annotation_coverage (sample_packet []) (sample_submission ''B'' ''ADJ'') = Inr ()"
  "validate_annotation_coverage (sample_packet []) (sample_decision ''checked'') = Inr ()"
  "same_fields BINDING_FIELDS (sample_submission ''A'' ''VERB'') (sample_packet [])"
  "same_fields BINDING_FIELDS (sample_submission ''B'' ''ADJ'') (sample_packet [])"
  "same_fields BINDING_FIELDS (sample_decision ''checked'') (sample_packet [])"
  "same_fields RATIFICATION_FIELDS sample_ratification (sample_packet [])"
  by code_simp+

lemma sample_resolutions: "validate_adjudication_resolutions (sample_submission ''A'' ''VERB'')
    (sample_submission ''B'' ''ADJ'') (sample_decision ''checked'') = Inr ()"
  by code_simp

lemma sample_documents:
  "truthy (sample_submission slot pos)" "dot (sample_submission slot pos) ''schema'' = ANNOTATION_SCHEMA"
  "dot (sample_submission slot pos) ''annotatorSlot'' = str slot"
  "dot (sample_submission slot pos) ''packetMerkleRoot'' = str ''00''"
  "dot (sample_submission slot pos) ''sentences'' = sample_units pos []"
  "truthy (sample_decision n)" "dot (sample_decision n) ''schema'' = ADJUDICATION_SCHEMA"
  "dot (sample_decision n) ''adjudicatorSlot'' = str ''J1''"
  "dot (sample_decision n) ''packetMerkleRoot'' = str ''00''"
  "dot (sample_decision n) ''annotationAMerkleRoot'' = str ''00''"
  "dot (sample_decision n) ''annotationBMerkleRoot'' = str ''00''"
  "dot (sample_decision n) ''annotationASlot'' = str ''A''"
  "dot (sample_decision n) ''annotationBSlot'' = str ''B''"
  "dot (sample_decision n) ''sentences'' = sample_units ''VERB'' n"
  "truthy sample_ratification" "dot sample_ratification ''schema'' = RATIFICATION_SCHEMA"
  "dot sample_ratification ''packetMerkleRoot'' = str ''00''"
  "dot sample_ratification ''primaryAdjudicationMerkleRoot'' = str ''00''"
  "dot sample_ratification ''reviewerSlot'' = str ''J2''" "dot sample_ratification ''decision'' = str ''agree''"
  "dot sample_ratification ''rationale'' = str ''the decision is sound''"
  "truthy (sample_artifact n)" "dot (sample_artifact n) ''kind'' = str ''adjudication-package''"
  by (simp_all add: sample_submission_def sample_decision_def sample_ratification_def sample_artifact_def
      sample_fields_def str_def)

lemma sample_artifact_parts:
  "dot (sample_artifact n) ''packet'' = sample_packet []"
  "dot (sample_artifact n) ''annotationA'' = sample_submission ''A'' ''VERB''"
  "dot (sample_artifact n) ''annotationB'' = sample_submission ''B'' ''ADJ''"
  "dot (sample_artifact n) ''adjudication'' = sample_decision n"
  by (simp_all add: sample_artifact_def)

lemma sample_submission_root:
  "compute_annotation_root flat_digest (sample_packet []) (sample_submission slot pos) = Inr (u ''00'')"
  using sample_annotation_parts[of pos "[]" "''note''"] truthy_not_nullish[OF sample_documents(1), of slot pos]
  by (auto simp: compute_annotation_root_def sample_packet_root sample_documents flat_root field_def str_def)

lemma sample_adjudication_ok:
  "validate_adjudication_binding flat_digest (sample_packet []) (sample_submission ''A'' ''VERB'')
     (sample_submission ''B'' ''ADJ'') (sample_decision ''checked'') = Inr ()"
  by (simp add: validate_adjudication_binding_def validate_submission_binding_def sample_packets_valid
      sample_packet_root sample_documents sample_submission_fields sample_submission_root sample_resolutions
      str_def schema_defs)

lemma sample_ratification_root:
  "compute_ratification_root flat_digest (sample_artifact ''checked'') sample_ratification = Inr (u ''00'')"
proof -
  have long: "20 \<le> length (js_trim (u ''the decision is sound''))" by code_simp
  obtain parts where "annotation_parts (sample_units ''VERB'' ''checked'') ''resolutionNote'' = Inr parts"
    using sample_annotation_parts by blast
  then have "compute_adjudication_root flat_digest (sample_packet []) (sample_submission ''A'' ''VERB'')
     (sample_submission ''B'' ''ADJ'') (sample_decision ''checked'') = Inr (u ''00'')"
    by (simp add: compute_adjudication_root_def sample_adjudication_ok sample_documents flat_root)
  with long show ?thesis
    by (simp add: compute_ratification_root_def validate_ratification_binding_def sample_artifact_parts
        sample_documents sample_adjudication_ok sample_packet_root sample_submission_fields flat_root str_def
        schema_defs js_string_def)
qed

lemma sample_covers: "covers (sample_packet []) (sample_submission ''A'' ''VERB'')"
  using sample_adjudication_ok
  by (rule validate_adjudication_bindingD) (simp add: validate_submission_binding_ok)

text \<open>
  C25. Packet validation is exact: a packet passes when, and only when, it has the schema, the
  identity and versions, a metric policy with thresholds in range, declares parser predictions
  excluded and no excluded corpus, carries no analysis or prediction key in any object at any
  depth, and has sentences with distinct ids whose tokens are numbered 1, 2, ... with forms.
\<close>

theorem packet_validation_exact:
  "validate_packet p = Inr () \<longleftrightarrow>
     dot p ''schema'' = PACKET_SCHEMA \<and> task_identity_ok p \<and> metric_policy_ok (dot p ''metricPolicy'')
   \<and> truthy (dot p ''parserPredictionsExcluded'') \<and> \<not> truthy (dot p ''derivedFromExcludedCorpus'')
   \<and> \<not> (\<exists>kvs k x. occurs (JObj kvs) p \<and> (k, x) \<in> set kvs \<and> k \<in> set FORBIDDEN_EVIDENCE_KEYS)
   \<and> js_is_array (dot p ''sentences'') \<and> sentences_of p \<noteq> []
   \<and> list_all sentence_ok (sentences_of p)
   \<and> js_distinct (map (\<lambda>s. dot s ''sentenceId'') (sentences_of p))"
  unfolding validate_packet_ok packet_ok_def contains_forbidden_evidence_iff[symmetric] list_all_iff by blast

text \<open>
  The coverage check of an annotation against a validated packet is exact: it passes when,
  and only when, the annotation lists every sentence id of the packet once and, for each, every
  token id \<open>1..n\<close> once, in any order.
\<close>

theorem annotation_coverage_exact:
  assumes "validate_packet p = Inr ()"
  shows "validate_annotation_coverage p s = Inr () \<longleftrightarrow> covers p s"
  using assms validate_annotation_coverage_ok by (simp add: validate_packet_ok)

theorem annotation_coverage_exact_witness:
  "validate_annotation_coverage (sample_packet []) (sample_submission ''A'' ''VERB'') = Inr ()"
  using annotation_coverage_exact[OF sample_packets_valid(1)] sample_covers by simp

text \<open>
  C5. No silent override: in an adjudication that passes, every final sentence and token has its
  counterpart in both annotations, and wherever the final value is not the value both annotators
  gave, the unit carries a reason that is not blank.
\<close>

theorem no_silent_override:
  assumes "validate_adjudication_binding sha256 p A B d = Inr ()"
  shows "list_all (sentence_justified (sentences_of A) (sentences_of B)) (sentences_of d)"
  using assms
  by (rule validate_adjudication_bindingD)
    (simp add: resolutions_justified validate_annotation_coverage_ok validate_submission_binding_ok)

theorem no_silent_override_witness:
  "sentences_of (sample_decision ''checked'') \<noteq> [] \<and>
   list_all (sentence_justified (sentences_of (sample_submission ''A'' ''VERB''))
     (sentences_of (sample_submission ''B'' ''ADJ''))) (sentences_of (sample_decision ''checked''))"
  using no_silent_override[OF sample_adjudication_ok]
  by (simp add: sample_decision_def sample_units_def sentences_of_def ADJUDICATION_SCHEMA_def sample_fields_def)

text \<open>
  C19. Chain of custody: a ratification has a root only if its two annotations come from the two
  different slots A and B, the decision from J1 and the ratification from J2, all of them carry
  the root of the one packet, the decision carries the roots of both annotations and the
  ratification the root of the decision, all three cover the packet, and the rationale has at
  least 20 characters once trimmed and at most 4000.
\<close>

theorem ratification_chain_of_custody:
  assumes "compute_ratification_root sha256 art rat = Inr r"
  shows "\<exists>root rootA rootB adj rationale.
     compute_packet_root sha256 (dot art ''packet'') = Inr root
   \<and> compute_annotation_root sha256 (dot art ''packet'') (dot art ''annotationA'') = Inr rootA
   \<and> compute_annotation_root sha256 (dot art ''packet'') (dot art ''annotationB'') = Inr rootB
   \<and> compute_adjudication_root sha256 (dot art ''packet'') (dot art ''annotationA'')
       (dot art ''annotationB'') (dot art ''adjudication'') = Inr adj
   \<and> {dot (dot art ''annotationA'') ''annotatorSlot'', dot (dot art ''annotationB'') ''annotatorSlot''}
       = {JStr (u ''A''), JStr (u ''B'')}
   \<and> dot (dot art ''adjudication'') ''adjudicatorSlot'' = JStr (u ''J1'')
   \<and> dot rat ''reviewerSlot'' = JStr (u ''J2'')
   \<and> list_all (\<lambda>doc. dot doc ''packetMerkleRoot'' = JStr root)
       [dot art ''annotationA'', dot art ''annotationB'', dot art ''adjudication'', rat]
   \<and> dot (dot art ''adjudication'') ''annotationAMerkleRoot'' = JStr rootA
   \<and> dot (dot art ''adjudication'') ''annotationBMerkleRoot'' = JStr rootB
   \<and> dot rat ''primaryAdjudicationMerkleRoot'' = JStr adj
   \<and> list_all (covers (dot art ''packet''))
       [dot art ''annotationA'', dot art ''annotationB'', dot art ''adjudication'']
   \<and> dot rat ''rationale'' = JStr rationale \<and> 20 \<le> length (js_trim rationale) \<and> length rationale \<le> 4000"
proof -
  have "validate_ratification_binding sha256 art rat = Inr ()"
    using assms by (simp add: compute_ratification_root_def sbind_eq_Inr)
  then show ?thesis
  proof (rule validate_ratification_bindingD)
    fix root adj
    assume a: "validate_adjudication_binding sha256 (dot art ''packet'') (dot art ''annotationA'')
        (dot art ''annotationB'') (dot art ''adjudication'') = Inr ()"
      and root: "compute_packet_root sha256 (dot art ''packet'') = Inr root"
      and rat: "dot rat ''packetMerkleRoot'' = JStr root" "dot rat ''reviewerSlot'' = JStr (u ''J2'')"
        "dot rat ''primaryAdjudicationMerkleRoot'' = JStr adj"
        "\<exists>w. dot rat ''rationale'' = JStr w \<and> 20 \<le> length (js_trim w) \<and> length w \<le> 4000"
      and adj: "compute_adjudication_root sha256 (dot art ''packet'') (dot art ''annotationA'')
        (dot art ''annotationB'') (dot art ''adjudication'') = Inr adj"
    from a show ?thesis
      by (rule validate_adjudication_bindingD)
        (use rat adj root slots_differ in \<open>auto simp: validate_submission_binding_ok validate_annotation_coverage_ok\<close>)
  qed
qed

theorem ratification_chain_of_custody_witness:
  "\<exists>root. compute_packet_root flat_digest (dot (sample_artifact ''checked'') ''packet'') = Inr root
     \<and> dot sample_ratification ''packetMerkleRoot'' = JStr root"
  using ratification_chain_of_custody[OF sample_ratification_root] by auto



end
