(* ===== verification/Store.thy ===== *)
theory Store
  imports Protocol
begin

text \<open>
  The relational store of the consensus code: one list of rows per table (in insertion order),
  the columns the code reads or writes, and the constraints of \<open>migrations/0004_consensus_state.sql\<close>
  that an insert of the code can violate: keys, uniqueness, the rows a round or an event refers to,
  and the \<open>CHECK\<close>s on values a caller chooses. The \<open>CHECK\<close>s that the code satisfies by construction
  are left out: the enumerated columns are datatypes, and a stored digest is the output of SHA-256 in
  hexadecimal, which has the 64 characters the tables ask of \<open>event_hash\<close> and the other digests. A statement takes the database to the number of rows it changed and
  the new database, or to an error; \<open>batch\<close> is a transaction. The runtime's other inputs are an
  environment: the digest, the MAC, the clock (the n-th \<open>Date.now()\<close>), the n-th
  \<open>crypto.randomUUID()\<close>, and which of the two backends runs, since the two differ when an
  \<open>INSERT OR IGNORE\<close> violates a \<open>CHECK\<close>: SQLite skips the row, and the PostgreSQL translation
  \<open>ON CONFLICT DO NOTHING\<close> raises.
\<close>

section \<open>Rows\<close>

datatype repository_status = NotSent | RepoPending | RepoAccepted | RepoRejected

record task_row =
  tvId :: ustr
  tvTaskId :: ustr
  tvTaskVersion :: int
  tvPacketId :: ustr
  tvHoldoutId :: ustr
  tvPacketRoot :: ustr
  tvGuidelineVersion :: ustr
  tvDataVersion :: ustr
  tvProtocolVersion :: ustr
  tvMetricPolicy :: jsv
  tvState :: task_state
  tvStateVersion :: nat
  tvCurrentRound :: nat
  tvLastEventId :: "ustr option"
  tvActiveFinal :: "ustr option"
  tvAppealDeadlineAt :: "int option"
  tvRepositoryStatus :: repository_status
  tvGithubIssue :: "int option"
  tvCreatedAt :: int
  tvUpdatedAt :: int
  tvApprovedAt :: "int option"
  tvPublishedAt :: "int option"
  tvRevokedAt :: "int option"

datatype round_status = RoundOpen | RoundClosed | RoundSuperseded | RoundFailed

record round_row =
  rdId :: ustr
  rdTask :: ustr
  rdNumber :: nat
  rdStatus :: round_status
  rdReissueReason :: "ustr option"
  rdOpenedAt :: int
  rdDeadlineAt :: int
  rdClosedAt :: "int option"
  rdPrior :: "ustr option"

record event_row =
  evId :: ustr
  evTask :: ustr
  evRound :: "ustr option"
  evType :: ustr
  evFrom :: task_state
  evTo :: task_state
  evActorUser :: "ustr option"
  evActorSubject :: "ustr option"
  evReason :: ustr
  evEvidence :: jsv
  evPriorStateHash :: "ustr option"
  evHash :: ustr
  evKey :: ustr
  evCreatedAt :: int

datatype crole = RoleA | RoleB | RoleJ1 | RoleJ2

record submission_row =
  sbReceipt :: ustr
  sbUser :: ustr
  sbPacket :: ustr
  sbRole :: crole
  sbTask :: ustr
  sbRound :: ustr
  sbRoundNumber :: nat
  sbHoldout :: ustr
  sbPseudonym :: ustr
  sbArtifactType :: ustr
  sbArtifactSha :: ustr
  sbSubmittedAt :: int
  sbArtifact :: jsv
  sbActive :: bool
  sbImported :: bool

datatype participation_status = PaAssigned | PaSubmitted | PaRecused | PaReplaced

record participation_row =
  paId :: ustr
  paTask :: ustr
  paRound :: ustr
  paHoldout :: ustr
  paUser :: ustr
  paRole :: crole
  paStatus :: participation_status
  paReceipt :: "ustr option"

datatype final_status = FinalProposed | FinalActive | FinalSuperseded | FinalRevoked

record final_row =
  fiPrimary :: ustr
  fiTask :: ustr
  fiRound :: ustr
  fiSecondary :: "ustr option"
  fiRoot :: ustr
  fiStatus :: final_status
  fiProposedAt :: int
  fiApprovedAt :: "int option"
  fiPublishedAt :: "int option"
  fiRevokedAt :: "int option"
  fiRevocationReason :: "ustr option"

datatype appeal_status = AppealPending | AppealAccepted | AppealRejected | AppealWithdrawn

record appeal_row =
  apId :: ustr
  apTask :: ustr
  apRound :: ustr
  apAppellant :: ustr
  apFinal :: ustr
  apEvidence :: ustr
  apStatus :: appeal_status
  apReviewerSubject :: "ustr option"
  apReviewReason :: "ustr option"
  apCreatedAt :: int
  apReviewedAt :: "int option"

record metrics_row =
  meTask :: ustr
  meRound :: ustr
  meA :: ustr
  meB :: ustr
  meMetrics :: agreement
  mePolicyPassed :: bool
  meComputedAt :: int

datatype evidence_kind = SubmissionEvidence | CommentEvidence | TaskStateEvidence
datatype outbox_status = Held | Pending | Sending | Sent | OutboxFailed | Cancelled

record outbox_row =
  obId :: ustr
  obKind :: evidence_kind
  obTask :: ustr
  obRelated :: ustr
  obPayload :: jsv
  obDedupe :: ustr
  obStatus :: outbox_status
  obAttempts :: nat
  obNextAttemptAt :: int
  obLastError :: "ustr option"
  obCreatedAt :: int
  obSentAt :: "int option"

record notification_row =
  noId :: ustr
  noRecipient :: ustr
  noEventType :: ustr
  noTask :: ustr
  noContext :: jsv
  noDedupe :: ustr

record receipt_row =
  rcId :: ustr
  rcTask :: ustr
  rcRound :: ustr
  rcRoot :: ustr
  rcNonce :: ustr
  rcPrNumber :: int
  rcMergeSha :: ustr
  rcImporterSha :: ustr

record user_row =
  usId :: ustr
  usNotifications :: bool

record recusal_row =
  reId :: ustr
  reTask :: ustr
  reRound :: ustr
  reUser :: ustr
  reReason :: ustr

datatype assignment_status = AsInvited | AsClaimed | AsSubmitted | AsCancelled

record assignment_row =
  asId :: ustr
  asTask :: ustr
  asRound :: ustr
  asHoldout :: ustr
  asRole :: crole
  asEmailHash :: ustr
  asUser :: "ustr option"
  asStatus :: assignment_status
  asReceipt :: "ustr option"
  asClaimedAt :: "int option"
  asSubmittedAt :: "int option"

datatype lane = StandardLane | OperationalLane

record catalog_row =
  ctTask :: ustr
  ctLane :: lane
  ctActive :: bool

record view_row =
  vwUser :: ustr
  vwTask :: ustr

record comment_row =
  cmId :: ustr
  cmPacket :: ustr
  cmTask :: "ustr option"
  cmRound :: "ustr option"
  cmAuthor :: ustr
  cmPseudonym :: ustr
  cmSource :: ustr
  cmTarget :: "ustr option"
  cmParent :: "ustr option"
  cmCategory :: ustr
  cmBody :: ustr
  cmSentence :: "ustr option"
  cmToken :: "int option"
  cmMentions :: "ustr list"
  cmReferences :: "ustr list"
  cmImported :: bool
  cmCreatedAt :: int

text \<open>The receipts the repository sends for evidence and for task states.\<close>

record evidence_receipt_row =
  erId :: ustr
  erKind :: evidence_kind
  erRelated :: ustr

record state_receipt_row =
  srId :: ustr
  srTask :: ustr
  srEvent :: ustr
  srBinding :: "jsv list"

record notice_row =
  ntId :: ustr
  ntRecipient :: ustr
  ntEventType :: ustr
  ntPacket :: ustr
  ntComment :: "ustr option"
  ntSource :: ustr
  ntContext :: jsv
  ntDedupe :: ustr

record cdb =
  taskVersions :: "task_row list"
  rounds :: "round_row list"
  events :: "event_row list"
  submissions :: "submission_row list"
  participations :: "participation_row list"
  finals :: "final_row list"
  appeals :: "appeal_row list"
  metrics :: "metrics_row list"
  outbox :: "outbox_row list"
  notifications :: "notification_row list"
  receipts :: "receipt_row list"
  recusals :: "recusal_row list"
  users :: "user_row list"
  assignments :: "assignment_row list"
  catalog :: "catalog_row list"
  views :: "view_row list"
  notices :: "notice_row list"
  comments :: "comment_row list"
  evidenceReceipts :: "evidence_receipt_row list"
  stateReceipts :: "state_receipt_row list"
  ticks :: nat
  uuids :: nat

definition empty_db :: cdb where
  "empty_db = \<lparr>taskVersions = [], rounds = [], events = [], submissions = [], participations = [],
     finals = [], appeals = [], metrics = [], outbox = [], notifications = [], receipts = [],
     recusals = [], users = [], assignments = [], catalog = [], views = [], notices = [],
     comments = [], evidenceReceipts = [], stateReceipts = [], ticks = 0, uuids = 0\<rparr>"

datatype backend = D1 | Postgres

record env =
  envSha256 :: "nat list \<Rightarrow> ustr"
  envHmac :: "ustr \<Rightarrow> ustr"
  envClock :: "nat \<Rightarrow> int"
  envUuid :: "nat \<Rightarrow> ustr"
  envBackend :: backend

section \<open>Errors and calls\<close>

datatype conflict =
    TaskIdentityBound | PacketIdentityBound | StateChangedConcurrently
  | OnlyEscalatedOrRevoked | CurrentRoundMissing | FreshRoundFailed | QuorumNotReleased

text \<open>The answers a request gets instead of a result, one per \<open>throw new PublicError\<close> of the
  modelled handlers, each with its HTTP status.\<close>

datatype problem =
    SubmissionsPaused | EmailUnverified | ErasurePending | BodyTooLarge | BodyInvalid
  | EnvelopeInvalid | PseudonymMismatch | AttestationIncomplete | ChallengeTokenInvalid
  | ArtifactRefused | WrongLane | OperationalModeInvalid | StructureInvalid | OperationalPacket | ResultsAlreadySeen
  | ChallengeFailed | ArtifactChanged | AlreadyParticipated | IndependentFirst | Registration conflict
  | TaskWithdrawn | ClaimFirst | RoundNotOpen | RoleNotAvailable crole task_state | RoleTaken
  | IndependentMissing | RootsNotBound | PrimaryNotBound | WriteConflict | WriteIncomplete
  | AppealUnknown | NotProvisional | AppealChanged | DecisionInvalid | ReasonInvalid
  | TaskUnknown | Refused conflict
  | NotAppealable | AppealWindowClosed | NotAParticipant | AppealDuplicated | AppealLost
  | FieldInvalid
  | ReceiptChannelOff | ReceiptSize | ReceiptNotJson | ReceiptKind | ReceiptMalformed | ReceiptTiming
  | ReceiptSignature | ReceiptUnbound | ReceiptConflict

datatype store_error =
    ConsensusConflict conflict
  | ConsensusError consensus_error
  | ProtocolError protocol_error
  | PublicError nat problem
  | SqlConstraint

type_synonym 'a db = "(cdb, store_error thrown, 'a) st"

type_synonym stmt = "cdb \<Rightarrow> store_error thrown + nat \<times> cdb"

abbreviation public_error :: "nat \<Rightarrow> problem \<Rightarrow> store_error thrown" where
  "public_error status p \<equiv> Thrown (PublicError status p)"

abbreviation conflict_error :: "conflict \<Rightarrow> store_error thrown" where
  "conflict_error c \<equiv> Thrown (ConsensusConflict c)"

text \<open>\<open>db.batch\<close>: the statements in order, all or none.\<close>

fun run_batch :: "stmt list \<Rightarrow> cdb \<Rightarrow> store_error thrown + nat list \<times> cdb" where
  "run_batch [] db = Inr ([], db)"
| "run_batch (s # ss) db = sbind (s db) (\<lambda>(n, db'). sbind (run_batch ss db') (\<lambda>(ns, db''). Inr (n # ns, db'')))"

definition db_batch :: "stmt list \<Rightarrow> nat list db" where
  "db_batch ss db = (case run_batch ss db of Inl e \<Rightarrow> (Inl e, db) | Inr (ns, db') \<Rightarrow> (Inr ns, db'))"

definition db_run :: "stmt \<Rightarrow> nat db" where
  "db_run s db = (case s db of Inl e \<Rightarrow> (Inl e, db) | Inr (n, db') \<Rightarrow> (Inr n, db'))"

definition date_now :: "env \<Rightarrow> int db" where
  "date_now env db = (Inr (envClock env (ticks db)), db\<lparr>ticks := ticks db + 1\<rparr>)"

definition random_uuid :: "env \<Rightarrow> ustr db" where
  "random_uuid env db = (Inr (envUuid env (uuids db)), db\<lparr>uuids := uuids db + 1\<rparr>)"

text \<open>A nullable text as a JSON value.\<close>

definition jopt :: "ustr option \<Rightarrow> jsv" where
  "jopt x = (case x of None \<Rightarrow> JNull | Some s \<Rightarrow> JStr s)"

abbreviation jint :: "int \<Rightarrow> jsv" where
  "jint i \<equiv> JNum (of_int i)"

section \<open>Inserts\<close>

definition task_conflict :: "task_row \<Rightarrow> task_row \<Rightarrow> bool" where
  "task_conflict r r' \<longleftrightarrow> tvId r' = tvId r
     \<or> tvTaskId r' = tvTaskId r \<and> tvTaskVersion r' = tvTaskVersion r
     \<or> tvPacketId r' = tvPacketId r"

definition task_check :: "task_row \<Rightarrow> bool" where
  "task_check r \<longleftrightarrow> tvTaskVersion r \<ge> 1 \<and> length (tvPacketRoot r) = 64 \<and> tvCurrentRound r \<ge> 1"

text \<open>
  The packet index of the migration makes \<open>UNIQUE (packet_id, packet_merkle_root)\<close> redundant, so
  \<open>task_conflict\<close> names the three constraints that can fire.
\<close>

definition insert_task_or_ignore :: "env \<Rightarrow> task_row \<Rightarrow> stmt" where
  "insert_task_or_ignore env r db =
    (if \<not> task_check r then (if envBackend env = D1 then Inr (0, db) else Inl (Thrown SqlConstraint))
     else if \<exists>r' \<in> set (taskVersions db). task_conflict r r' then Inr (0, db)
     else Inr (1, db\<lparr>taskVersions := taskVersions db @ [r]\<rparr>))"

definition round_conflict :: "round_row \<Rightarrow> round_row \<Rightarrow> bool" where
  "round_conflict r r' \<longleftrightarrow> rdId r' = rdId r \<or> rdTask r' = rdTask r \<and> rdNumber r' = rdNumber r"

definition known_task :: "cdb \<Rightarrow> ustr \<Rightarrow> bool" where
  "known_task db taskId \<longleftrightarrow> (\<exists>t \<in> set (taskVersions db). tvId t = taskId)"

text \<open>
  The \<open>CHECK\<close> on \<open>reissue_reason\<close> of \<open>consensus_rounds\<close>: \<open>NULL\<close>, or one of seven reasons. The only
  \<open>OR IGNORE\<close> insert of a round is the registration's, which stores \<open>NULL\<close>, so the backends agree on it.
\<close>

definition REISSUE_REASON_CHECK :: "ustr list" where
  "REISSUE_REASON_CHECK = map u [''missing-quorum-deadline'', ''accepted-recusal'', ''j2-disagreement'',
     ''accepted-appeal'', ''material-evidence-defect'', ''low-independent-agreement'', ''novel-primary-decision'']"

definition reissue_reason_check :: "ustr option \<Rightarrow> bool" where
  "reissue_reason_check reason \<longleftrightarrow> (case reason of None \<Rightarrow> True | Some r \<Rightarrow> r \<in> set REISSUE_REASON_CHECK)"

definition insert_round :: "bool \<Rightarrow> round_row \<Rightarrow> stmt" where
  "insert_round orIgnore r db =
    (if \<not> reissue_reason_check (rdReissueReason r) then Inl (Thrown SqlConstraint)
     else if \<exists>r' \<in> set (rounds db). round_conflict r r'
     then (if orIgnore then Inr (0, db) else Inl (Thrown SqlConstraint))
     else if \<not> known_task db (rdTask r) then Inl (Thrown SqlConstraint)
     else Inr (1, db\<lparr>rounds := rounds db @ [r]\<rparr>))"

definition event_conflict :: "event_row \<Rightarrow> event_row \<Rightarrow> bool" where
  "event_conflict r r' \<longleftrightarrow> evId r' = evId r \<or> evKey r' = evKey r"

definition insert_event :: "bool \<Rightarrow> event_row \<Rightarrow> stmt" where
  "insert_event orIgnore r db =
    (if \<exists>r' \<in> set (events db). event_conflict r r'
     then (if orIgnore then Inr (0, db) else Inl (Thrown SqlConstraint))
     else if \<not> known_task db (evTask r) then Inl (Thrown SqlConstraint)
     else Inr (1, db\<lparr>events := events db @ [r]\<rparr>))"

definition insert_outbox :: "bool \<Rightarrow> outbox_row \<Rightarrow> stmt" where
  "insert_outbox orIgnore r db =
    (if \<exists>r' \<in> set (outbox db). obId r' = obId r \<or> obDedupe r' = obDedupe r
     then (if orIgnore then Inr (0, db) else Inl (Thrown SqlConstraint))
     else Inr (1, db\<lparr>outbox := outbox db @ [r]\<rparr>))"

lemma insert_outbox_cases:
  "insert_outbox b r db = Inr (n, db') \<Longrightarrow> db' = db \<or> db' = db\<lparr>outbox := outbox db @ [r]\<rparr>"
  by (auto simp: insert_outbox_def split: if_splits)

definition insert_metrics_or_ignore :: "metrics_row \<Rightarrow> stmt" where
  "insert_metrics_or_ignore r db =
    (if \<exists>m \<in> set (metrics db). meTask m = meTask r \<and> meRound m = meRound r then Inr (0, db)
     else Inr (1, db\<lparr>metrics := metrics db @ [r]\<rparr>))"

text \<open>
  The \<open>CHECK\<close> on \<open>event_type\<close> of \<open>governance_notification_outbox\<close> (no later migration changes it).
\<close>

definition GOVERNANCE_EVENT_TYPES :: "ustr list" where
  "GOVERNANCE_EVENT_TYPES = map u [''task-reissued'', ''result-approved'', ''result-published'',
     ''result-revoked'', ''appeal-opened'', ''appeal-decided'']"

definition insert_notification_or_ignore :: "env \<Rightarrow> notification_row \<Rightarrow> stmt" where
  "insert_notification_or_ignore env r db =
    (if noEventType r \<notin> set GOVERNANCE_EVENT_TYPES
     then (if envBackend env = D1 then Inr (0, db) else Inl (Thrown SqlConstraint))
     else if \<exists>n \<in> set (notifications db). noId n = noId r \<or> noDedupe n = noDedupe r then Inr (0, db)
     else Inr (1, db\<lparr>notifications := notifications db @ [r]\<rparr>))"

definition insert_notice_or_ignore :: "notice_row \<Rightarrow> stmt" where
  "insert_notice_or_ignore r db =
    (if \<exists>n \<in> set (notices db). ntId n = ntId r \<or> ntDedupe n = ntDedupe r then Inr (0, db)
     else Inr (1, db\<lparr>notices := notices db @ [r]\<rparr>))"

text \<open>Unique indexes of \<open>submissions\<close>, \<open>task_participations\<close>, \<open>final_results\<close>, \<open>recusals\<close>.\<close>

definition submission_conflict :: "submission_row \<Rightarrow> submission_row \<Rightarrow> bool" where
  "submission_conflict r r' \<longleftrightarrow> sbReceipt r' = sbReceipt r
     \<or> sbUser r' = sbUser r \<and> sbPacket r' = sbPacket r
     \<or> sbTask r' = sbTask r \<and> sbRoundNumber r' = sbRoundNumber r \<and> sbRole r' = sbRole r"

definition insert_submission :: "submission_row \<Rightarrow> stmt" where
  "insert_submission r db =
    (if \<exists>s \<in> set (submissions db). submission_conflict r s then Inl (Thrown SqlConstraint)
     else Inr (1, db\<lparr>submissions := submissions db @ [r]\<rparr>))"

definition participation_conflict :: "participation_row \<Rightarrow> participation_row \<Rightarrow> bool" where
  "participation_conflict r r' \<longleftrightarrow> paId r' = paId r
     \<or> paTask r' = paTask r \<and> paUser r' = paUser r
     \<or> paHoldout r' = paHoldout r \<and> paUser r' = paUser r
     \<or> paRound r' = paRound r \<and> paRole r' = paRole r"

definition insert_participation :: "participation_row \<Rightarrow> stmt" where
  "insert_participation r db =
    (if \<exists>s \<in> set (participations db). participation_conflict r s then Inl (Thrown SqlConstraint)
     else Inr (1, db\<lparr>participations := participations db @ [r]\<rparr>))"

definition one_active :: "final_row list \<Rightarrow> bool" where
  "one_active fs \<longleftrightarrow> distinct (map fiTask (filter (\<lambda>f. fiStatus f = FinalActive) fs))"

definition insert_final :: "final_row \<Rightarrow> stmt" where
  "insert_final r db =
    (if (\<exists>f \<in> set (finals db). fiPrimary f = fiPrimary r) \<or> length (fiRoot r) \<noteq> 64
        \<or> \<not> one_active (finals db @ [r]) then Inl (Thrown SqlConstraint)
     else Inr (1, db\<lparr>finals := finals db @ [r]\<rparr>))"

definition update_finals :: "(final_row \<Rightarrow> bool) \<Rightarrow> (final_row \<Rightarrow> final_row) \<Rightarrow> stmt" where
  "update_finals p f db =
    (let fs = update_rows p f (finals db) in
     if one_active fs then Inr (count_rows p (finals db), db\<lparr>finals := fs\<rparr>)
     else Inl (Thrown SqlConstraint))"

definition insert_recusal :: "recusal_row \<Rightarrow> stmt" where
  "insert_recusal r db =
    (if \<exists>x \<in> set (recusals db). reId x = reId r \<or> reRound x = reRound r \<and> reUser x = reUser r
     then Inl (Thrown SqlConstraint)
     else Inr (1, db\<lparr>recusals := recusals db @ [r]\<rparr>))"

text \<open>The unique index of \<open>task_assignments\<close> on family and person, among the rows that are not cancelled.\<close>

definition assignments_unique :: "assignment_row list \<Rightarrow> bool" where
  "assignments_unique rows \<longleftrightarrow> distinct (map (\<lambda>a. (asHoldout a, asUser a))
     (filter (\<lambda>a. asUser a \<noteq> None \<and> asStatus a \<noteq> AsCancelled) rows))"

definition update_assignments :: "(assignment_row \<Rightarrow> bool) \<Rightarrow> (assignment_row \<Rightarrow> assignment_row) \<Rightarrow> stmt" where
  "update_assignments p f db =
    (let rows = update_rows p f (assignments db) in
     if assignments_unique rows then Inr (count_rows p (assignments db), db\<lparr>assignments := rows\<rparr>)
     else Inl (Thrown SqlConstraint))"

definition insert_receipt_or_ignore :: "receipt_row \<Rightarrow> stmt" where
  "insert_receipt_or_ignore r db =
    (if \<exists>x \<in> set (receipts db). rcId x = rcId r \<or> rcNonce x = rcNonce r
          \<or> rcTask x = rcTask r \<and> rcRoot x = rcRoot r then Inr (0, db)
     else Inr (1, db\<lparr>receipts := receipts db @ [r]\<rparr>))"

definition insert_evidence_receipt_or_ignore :: "evidence_receipt_row \<Rightarrow> stmt" where
  "insert_evidence_receipt_or_ignore r db =
    (if \<exists>x \<in> set (evidenceReceipts db). erId x = erId r \<or> erKind x = erKind r \<and> erRelated x = erRelated r then Inr (0, db)
     else Inr (1, db\<lparr>evidenceReceipts := evidenceReceipts db @ [r]\<rparr>))"

definition insert_state_receipt :: "state_receipt_row \<Rightarrow> stmt" where
  "insert_state_receipt r db =
    (if (\<exists>x \<in> set (stateReceipts db). srId x = srId r \<or> srTask x = srTask r \<and> srEvent x = srEvent r)
        \<or> length (srId r) \<noteq> 36 then Inl (Thrown SqlConstraint)
     else Inr (1, db\<lparr>stateReceipts := stateReceipts db @ [r]\<rparr>))"

section \<open>Laws of transactions\<close>

lemma run_batch_append:
  "run_batch (ss @ ts) db = sbind (run_batch ss db) (\<lambda>(ns, db').
     sbind (run_batch ts db') (\<lambda>(ms, db''). Inr (ns @ ms, db'')))"
  by (induction ss arbitrary: db) (auto simp: sbind_def split: sum.splits)

lemma run_batch_length: "run_batch ss db = Inr (ns, db') \<Longrightarrow> length ns = length ss"
  by (induction ss arbitrary: db ns) (auto simp: sbind_eq_Inr)

lemma db_batch_error: "fst (db_batch ss db) = Inl e \<Longrightarrow> snd (db_batch ss db) = db"
  by (auto simp: db_batch_def split: sum.splits prod.splits)

text \<open>A relation respected by every statement of a batch is respected by the batch.\<close>

definition stmt_pres :: "(cdb \<Rightarrow> cdb \<Rightarrow> bool) \<Rightarrow> stmt \<Rightarrow> bool" where
  "stmt_pres R s \<longleftrightarrow> (\<forall>db n db'. s db = Inr (n, db') \<longrightarrow> R db db')"

lemma stmt_presI: "(\<And>db n db'. s db = Inr (n, db') \<Longrightarrow> R db db') \<Longrightarrow> stmt_pres R s"
  by (auto simp: stmt_pres_def)

lemma run_batch_pres:
  assumes "reflp R" "transp R" "\<forall>s \<in> set ss. stmt_pres R s" "run_batch ss db = Inr (ns, db')"
  shows "R db db'"
  using assms(3,4)
proof (induction ss arbitrary: db ns)
  case Nil
  with assms(1) show ?case by (simp add: reflpD)
next
  case (Cons s ss)
  then obtain n db1 ms where "s db = Inr (n, db1)" "run_batch ss db1 = Inr (ms, db')"
    by (auto simp: sbind_eq_Inr)
  with Cons show ?case
    by (metis assms(2) list.set_intros stmt_pres_def transpD)
qed

lemma db_batch_pres:
  assumes "reflp R" "transp R" "\<forall>s \<in> set ss. stmt_pres R s"
  shows "st_pres R (db_batch ss)"
  using run_batch_pres[OF assms] assms(1)
  by (intro st_presI) (auto simp: db_batch_def reflpD split: sum.splits prod.splits)

lemma db_run_pres: "reflp R \<Longrightarrow> stmt_pres R s \<Longrightarrow> st_pres R (db_run s)"
  by (intro st_presI) (auto simp: db_run_def stmt_pres_def reflpD split: sum.splits prod.splits)

end
