(* ===== verification/ConsensusStore.thy ===== *)
theory ConsensusStore
  imports Store
begin

text \<open>
  \<open>src/consensus-store.js\<close>: registering a task version, reading it, moving it through the state
  machine with an optimistic version check and an idempotency key, and reissuing a task in a fresh
  round. Each awaited database call is one atomic step of the \<open>db\<close> monad; another request may run
  between two of them, which the theory \<open>ConsensusSafety\<close> takes up.
\<close>

section \<open>Reads\<close>

definition get_consensus_task :: "ustr \<Rightarrow> task_row option db" where
  "get_consensus_task taskVersionId = st_get (\<lambda>db. List.find (\<lambda>t. tvId t = taskVersionId) (taskVersions db))"

definition get_current_consensus_round :: "task_row \<Rightarrow> round_row option db" where
  "get_current_consensus_round task = st_get (\<lambda>db.
     List.find (\<lambda>r. rdTask r = tvId task \<and> rdNumber r = tvCurrentRound task) (rounds db))"

definition event_key_exists :: "ustr \<Rightarrow> cdb \<Rightarrow> bool" where
  "event_key_exists key db \<longleftrightarrow> (\<exists>e \<in> set (events db). evKey e = key)"

section \<open>Registration\<close>

definition consensus_task_matches :: "task_row option \<Rightarrow> task_identity \<Rightarrow> jsv \<Rightarrow> bool" where
  "consensus_task_matches task identity metricPolicy =
    (case task of None \<Rightarrow> False
     | Some t \<Rightarrow> tvTaskId t = tiTaskId identity
         \<and> tvTaskVersion t = tiTaskVersion identity
         \<and> tvPacketId t = tiPacketId identity
         \<and> tvHoldoutId t = tiHoldoutId identity
         \<and> tvPacketRoot t = tiPacketMerkleRoot identity
         \<and> tvGuidelineVersion t = tiGuidelineVersion identity
         \<and> tvDataVersion t = tiDataVersion identity
         \<and> tvProtocolVersion t = tiProtocolVersion identity
         \<and> json_stringify (tvMetricPolicy t) = json_stringify metricPolicy)"

definition identity_json :: "task_identity \<Rightarrow> jsv" where
  "identity_json i = JObj
    [(u ''id'', JStr (tiId i)), (u ''taskId'', JStr (tiTaskId i)),
     (u ''taskVersion'', jint (tiTaskVersion i)), (u ''packetId'', JStr (tiPacketId i)),
     (u ''holdoutId'', JStr (tiHoldoutId i)), (u ''packetMerkleRoot'', JStr (tiPacketMerkleRoot i)),
     (u ''guidelineVersion'', JStr (tiGuidelineVersion i)), (u ''dataVersion'', JStr (tiDataVersion i)),
     (u ''protocolVersion'', JStr (tiProtocolVersion i))]"

definition registration_task_row :: "task_identity \<Rightarrow> jsv \<Rightarrow> ustr \<Rightarrow> int \<Rightarrow> task_row" where
  "registration_task_row identity metricPolicy initialEventId now =
    \<lparr>tvId = tiId identity, tvTaskId = tiTaskId identity, tvTaskVersion = tiTaskVersion identity,
     tvPacketId = tiPacketId identity, tvHoldoutId = tiHoldoutId identity,
     tvPacketRoot = tiPacketMerkleRoot identity, tvGuidelineVersion = tiGuidelineVersion identity,
     tvDataVersion = tiDataVersion identity, tvProtocolVersion = tiProtocolVersion identity,
     tvMetricPolicy = metricPolicy, tvState = Open, tvStateVersion = 0, tvCurrentRound = 1,
     tvLastEventId = Some initialEventId, tvActiveFinal = None, tvAppealDeadlineAt = None,
     tvRepositoryStatus = NotSent, tvGithubIssue = None, tvCreatedAt = now, tvUpdatedAt = now,
     tvApprovedAt = None, tvPublishedAt = None, tvRevokedAt = None\<rparr>"

definition open_round :: "ustr \<Rightarrow> ustr \<Rightarrow> nat \<Rightarrow> ustr option \<Rightarrow> int \<Rightarrow> ustr option \<Rightarrow> round_row" where
  "open_round roundId taskVersionId number reason now prior =
    \<lparr>rdId = roundId, rdTask = taskVersionId, rdNumber = number, rdStatus = RoundOpen,
     rdReissueReason = reason, rdOpenedAt = now, rdDeadlineAt = now + ROUND_DEADLINE_MS,
     rdClosedAt = None, rdPrior = prior\<rparr>"

definition initial_event_id :: "task_identity \<Rightarrow> ustr" where
  "initial_event_id identity = u ''task-open:'' @ tiId identity"

definition registration_event :: "env \<Rightarrow> task_identity \<Rightarrow> jsv \<Rightarrow> ustr \<Rightarrow> int \<Rightarrow> event_row" where
  "registration_event env identity metricPolicy roundId now =
    (let eventId = initial_event_id identity;
         evidence = JObj [(u ''taskVersionId'', JStr (tiId identity)),
                          (u ''taskBinding'', identity_json identity),
                          (u ''metricPolicy'', metricPolicy)];
         eventHash = consensus_event_hash (envSha256 env) (JObj
           [(u ''id'', JStr eventId), (u ''taskVersionId'', JStr (tiId identity)),
            (u ''roundId'', JStr roundId), (u ''eventType'', JStr (u ''task-opened'')),
            (u ''fromState'', JStr (u ''draft'')), (u ''toState'', JStr (u ''open'')),
            (u ''reasonCode'', JStr (u ''task-version-registered'')), (u ''evidence'', evidence),
            (u ''createdAt'', jint now)]) in
     \<lparr>evId = eventId, evTask = tiId identity, evRound = Some roundId, evType = u ''task-opened'',
      evFrom = Draft, evTo = Open, evActorUser = None, evActorSubject = None,
      evReason = u ''task-version-registered'', evEvidence = evidence, evPriorStateHash = None,
      evHash = eventHash, evKey = eventId, evCreatedAt = now\<rparr>)"

definition registration_statements :: "env \<Rightarrow> task_identity \<Rightarrow> jsv \<Rightarrow> int \<Rightarrow> stmt list" where
  "registration_statements env identity metricPolicy now =
    (let roundId = consensus_round_id (tiId identity) 1 in
     [insert_task_or_ignore env
        (registration_task_row identity metricPolicy (initial_event_id identity) now),
      insert_round True (open_round roundId (tiId identity) 1 None now None),
      insert_event True (registration_event env identity metricPolicy roundId now)])"

definition prepare_consensus_task_registration ::
  "env \<Rightarrow> packet_binding \<Rightarrow> ustr \<Rightarrow> int \<Rightarrow> (task_identity \<times> stmt list) db" where
  "prepare_consensus_task_registration env packet packetRoot now =
    (let identity = task_version_identity packet packetRoot in
     st_bind (get_consensus_task (tiId identity)) (\<lambda>idBinding.
     st_bind (st_ensure (idBinding = None
          \<or> consensus_task_matches idBinding identity (pkMetricPolicy packet))
        (conflict_error TaskIdentityBound)) (\<lambda>_.
     st_bind (st_get (\<lambda>db. List.find (\<lambda>t. tvPacketId t = tiPacketId identity) (taskVersions db)))
       (\<lambda>packetBinding.
     st_bind (st_ensure (case packetBinding of None \<Rightarrow> True
          | Some t \<Rightarrow> tvId t = tiId identity \<and> tvPacketRoot t = tiPacketMerkleRoot identity)
        (conflict_error PacketIdentityBound)) (\<lambda>_.
     st_return (identity, registration_statements env identity (pkMetricPolicy packet) now))))))"

definition assert_consensus_task_registration :: "packet_binding \<Rightarrow> ustr \<Rightarrow> task_row db" where
  "assert_consensus_task_registration packet packetRoot =
    (let identity = task_version_identity packet packetRoot in
     st_bind (get_consensus_task (tiId identity)) (\<lambda>task.
     st_bind (st_ensure (consensus_task_matches task identity (pkMetricPolicy packet))
        (conflict_error TaskIdentityBound)) (\<lambda>_.
     (case task of Some t \<Rightarrow> st_return t | None \<Rightarrow> st_throw (conflict_error TaskIdentityBound)))))"

definition ensure_consensus_task :: "env \<Rightarrow> packet_binding \<Rightarrow> ustr \<Rightarrow> int \<Rightarrow> task_row db" where
  "ensure_consensus_task env packet packetRoot now =
    st_bind (prepare_consensus_task_registration env packet packetRoot now) (\<lambda>(identity, statements).
    st_bind (db_batch statements) (\<lambda>_.
    assert_consensus_task_registration packet packetRoot))"

section \<open>Transitions\<close>

record transition =
  trTo :: task_state
  trRoundId :: "ustr option"
  trEventType :: ustr
  trReasonCode :: ustr
  trEvidence :: jsv
  trActorUser :: "ustr option"
  trActorSubject :: "ustr option"
  trAppealDeadlineAt :: "int option"
  trActiveFinal :: "ustr option"
  trClearActiveFinal :: bool
  trRequirePublicationReady :: bool
  trPublicationGuardAt :: "int option"
  trIdempotencyKey :: ustr

text \<open>A transition without the optional fields.\<close>

definition plain_transition ::
  "task_state \<Rightarrow> ustr option \<Rightarrow> ustr \<Rightarrow> ustr \<Rightarrow> jsv \<Rightarrow> ustr \<Rightarrow> transition" where
  "plain_transition to roundId eventType reason evidence key =
    \<lparr>trTo = to, trRoundId = roundId, trEventType = eventType, trReasonCode = reason,
     trEvidence = evidence, trActorUser = None, trActorSubject = None, trAppealDeadlineAt = None,
     trActiveFinal = None, trClearActiveFinal = False, trRequirePublicationReady = False,
     trPublicationGuardAt = None, trIdempotencyKey = key\<rparr>"

definition coalesce_opt :: "'a option \<Rightarrow> 'a option \<Rightarrow> 'a option" where
  "coalesce_opt a b = (case a of None \<Rightarrow> b | Some x \<Rightarrow> Some x)"

definition publication_ready :: "cdb \<Rightarrow> int \<Rightarrow> task_row \<Rightarrow> bool" where
  "publication_ready db guardAt t \<longleftrightarrow>
     (case tvAppealDeadlineAt t of None \<Rightarrow> False | Some d \<Rightarrow> d \<le> guardAt)
     \<and> \<not> (\<exists>a \<in> set (appeals db). apTask a = tvId t \<and> apStatus a = AppealPending)"

text \<open>The \<open>WHERE\<close> of the update, over the snapshot \<open>task\<close> the caller read before.\<close>

definition transition_applies :: "cdb \<Rightarrow> task_row \<Rightarrow> transition \<Rightarrow> int \<Rightarrow> task_row \<Rightarrow> bool" where
  "transition_applies db task tr now t \<longleftrightarrow>
     tvId t = tvId task \<and> tvState t = tvState task \<and> tvStateVersion t = tvStateVersion task
     \<and> (\<not> trRequirePublicationReady tr
        \<or> publication_ready db (case trPublicationGuardAt tr of None \<Rightarrow> now | Some g \<Rightarrow> g) t)"

definition transition_row :: "transition \<Rightarrow> ustr \<Rightarrow> int \<Rightarrow> task_row \<Rightarrow> task_row" where
  "transition_row tr eventId now t = t\<lparr>
     tvState := trTo tr,
     tvStateVersion := tvStateVersion t + 1,
     tvLastEventId := Some eventId,
     tvUpdatedAt := now,
     tvAppealDeadlineAt := coalesce_opt (trAppealDeadlineAt tr) (tvAppealDeadlineAt t),
     tvActiveFinal := (if trClearActiveFinal tr then None
                       else coalesce_opt (trActiveFinal tr) (tvActiveFinal t)),
     tvApprovedAt := (if trTo tr = Approved then Some now else tvApprovedAt t),
     tvPublishedAt := (if trTo tr = Published then Some now else tvPublishedAt t),
     tvRevokedAt := (if trTo tr = Revoked then Some now else tvRevokedAt t)\<rparr>"

definition update_task_stmt :: "task_row \<Rightarrow> transition \<Rightarrow> ustr \<Rightarrow> int \<Rightarrow> stmt" where
  "update_task_stmt task tr eventId now db =
    Inr (count_rows (transition_applies db task tr now) (taskVersions db),
         db\<lparr>taskVersions := update_rows (transition_applies db task tr now)
              (transition_row tr eventId now) (taskVersions db)\<rparr>)"

definition prior_state_hash :: "env \<Rightarrow> task_row \<Rightarrow> ustr" where
  "prior_state_hash env task = consensus_event_hash (envSha256 env) (JObj
     [(u ''taskVersionId'', JStr (tvId task)), (u ''state'', JStr (state_name (tvState task))),
      (u ''stateVersion'', jint (int (tvStateVersion task))),
      (u ''currentRound'', jint (int (tvCurrentRound task))),
      (u ''lastEventId'', jopt (tvLastEventId task))])"

definition transition_event :: "env \<Rightarrow> task_row \<Rightarrow> transition \<Rightarrow> ustr \<Rightarrow> int \<Rightarrow> event_row" where
  "transition_event env task tr eventId now =
    (let priorStateHash = prior_state_hash env task;
         eventHash = consensus_event_hash (envSha256 env) (JObj
           [(u ''id'', JStr eventId), (u ''taskVersionId'', JStr (tvId task)),
            (u ''roundId'', jopt (trRoundId tr)), (u ''eventType'', JStr (trEventType tr)),
            (u ''fromState'', JStr (state_name (tvState task))),
            (u ''toState'', JStr (state_name (trTo tr))),
            (u ''actorUserId'', jopt (trActorUser tr)),
            (u ''actorSubjectHash'', jopt (trActorSubject tr)),
            (u ''reasonCode'', JStr (trReasonCode tr)), (u ''evidence'', trEvidence tr),
            (u ''priorStateHash'', JStr priorStateHash), (u ''createdAt'', jint now)]) in
     \<lparr>evId = eventId, evTask = tvId task, evRound = trRoundId tr, evType = trEventType tr,
      evFrom = tvState task, evTo = trTo tr, evActorUser = trActorUser tr,
      evActorSubject = trActorSubject tr, evReason = trReasonCode tr, evEvidence = trEvidence tr,
      evPriorStateHash = Some priorStateHash, evHash = eventHash, evKey = trIdempotencyKey tr,
      evCreatedAt = now\<rparr>)"

text \<open>\<open>INSERT \<dots> SELECT \<dots> WHERE EXISTS\<close>: the event is written only if the update went through.\<close>

definition insert_event_if_moved :: "event_row \<Rightarrow> task_row \<Rightarrow> transition \<Rightarrow> stmt" where
  "insert_event_if_moved e task tr db =
    (if \<exists>t \<in> set (taskVersions db). tvId t = tvId task \<and> tvLastEventId t = Some (evId e)
          \<and> tvState t = trTo tr \<and> tvStateVersion t = tvStateVersion task + 1
     then insert_event False e db else Inr (0, db))"

definition transition_statements :: "env \<Rightarrow> task_row \<Rightarrow> transition \<Rightarrow> ustr \<Rightarrow> int \<Rightarrow> stmt list" where
  "transition_statements env task tr eventId now =
    [update_task_stmt task tr eventId now,
     insert_event_if_moved (transition_event env task tr eventId now) task tr]"

definition transition_consensus_task :: "env \<Rightarrow> task_row \<Rightarrow> transition \<Rightarrow> task_row option db" where
  "transition_consensus_task env task tr =
    st_bind (st_lift (case assert_consensus_transition (tvState task) (trTo tr) of
        Inr _ \<Rightarrow> Inr ()
      | Inl TypeError \<Rightarrow> Inl TypeError
      | Inl (Thrown e) \<Rightarrow> Inl (Thrown (ConsensusError e)))) (\<lambda>_.
    st_bind (st_get (event_key_exists (trIdempotencyKey tr))) (\<lambda>existing.
    if existing then get_consensus_task (tvId task)
    else
      st_bind (date_now env) (\<lambda>now.
      st_bind (random_uuid env) (\<lambda>eventId.
      st_bind (db_batch (transition_statements env task tr eventId now)) (\<lambda>results.
      st_bind (if results \<noteq> [1, 1]
          then st_bind (st_get (event_key_exists (trIdempotencyKey tr))) (\<lambda>idempotent.
                 st_ensure idempotent (conflict_error StateChangedConcurrently))
          else st_return ()) (\<lambda>_.
      get_consensus_task (tvId task)))))))"

section \<open>Reissuing\<close>

record actor =
  acUserId :: "ustr option"
  acSubjectHash :: "ustr option"

definition no_actor :: actor where
  "no_actor = \<lparr>acUserId = None, acSubjectHash = None\<rparr>"

definition supersede_round :: "ustr \<Rightarrow> int \<Rightarrow> ustr \<Rightarrow> stmt" where
  "supersede_round reason now roundId db =
    (let p = (\<lambda>r. rdId r = roundId \<and> rdStatus r = RoundOpen) in
     if count_rows p (rounds db) > 0 \<and> \<not> reissue_reason_check (Some reason) then Inl (Thrown SqlConstraint)
     else Inr (count_rows p (rounds db), db\<lparr>rounds := update_rows p
       (\<lambda>r. r\<lparr>rdStatus := RoundSuperseded, rdReissueReason := Some reason, rdClosedAt := Some now\<rparr>)
       (rounds db)\<rparr>))"

definition advance_round :: "ustr \<Rightarrow> nat \<Rightarrow> nat \<Rightarrow> int \<Rightarrow> stmt" where
  "advance_round taskVersionId current next now db =
    (let p = (\<lambda>t. tvId t = taskVersionId \<and> tvState t = Reissued \<and> tvCurrentRound t = current) in
     Inr (count_rows p (taskVersions db), db\<lparr>taskVersions := update_rows p
       (\<lambda>t. t\<lparr>tvCurrentRound := next, tvUpdatedAt := now\<rparr>) (taskVersions db)\<rparr>))"

definition cancel_held_evidence :: "ustr \<Rightarrow> ustr \<Rightarrow> stmt" where
  "cancel_held_evidence taskVersionId roundId db =
    (let p = (\<lambda>ob. obTask ob = taskVersionId \<and> obKind ob = SubmissionEvidence \<and> obStatus ob = Held
           \<and> (\<exists>s \<in> set (submissions db). sbReceipt s = obRelated ob
                \<and> sbTask s = taskVersionId \<and> sbRound s = roundId)) in
     Inr (count_rows p (outbox db), db\<lparr>outbox := update_rows p
       (\<lambda>ob. ob\<lparr>obStatus := Cancelled,
          obLastError := Some (u ''Independent quorum closed before release.'')\<rparr>) (outbox db)\<rparr>))"

definition reissue_statements :: "task_row \<Rightarrow> round_row \<Rightarrow> ustr \<Rightarrow> int \<Rightarrow> stmt list" where
  "reissue_statements reissued currentRound reason now =
    (let next = tvCurrentRound reissued + 1 in
     [supersede_round reason now (rdId currentRound),
      insert_round False (open_round (consensus_round_id (tvId reissued) next) (tvId reissued) next
        (Some reason) now (Some (rdId currentRound))),
      advance_round (tvId reissued) (tvCurrentRound reissued) next now,
      cancel_held_evidence (tvId reissued) (rdId currentRound)])"

definition reissue_transition :: "task_row \<Rightarrow> round_row \<Rightarrow> ustr \<Rightarrow> actor \<Rightarrow> transition" where
  "reissue_transition task currentRound reason actor =
    (plain_transition Reissued (Some (rdId currentRound)) (u ''task-reissued'') reason
       (JObj [(u ''priorRoundId'', JStr (rdId currentRound))])
       (u ''reissue:'' @ tvId task @ u '':'' @ rdId currentRound @ u '':'' @ reason))
     \<lparr>trActorUser := acUserId actor, trActorSubject := acSubjectHash actor\<rparr>"

definition round_open_transition :: "round_row \<Rightarrow> ustr \<Rightarrow> nat \<Rightarrow> actor \<Rightarrow> transition" where
  "round_open_transition priorRound nextRoundId next actor =
    (plain_transition IndependentReview (Some nextRoundId) (u ''independent-review-opened'')
       (u ''fresh-round-created'')
       (JObj [(u ''priorRoundId'', JStr (rdId priorRound)), (u ''roundNumber'', jint (int next))])
       (u ''round-open:'' @ nextRoundId))
     \<lparr>trActorUser := acUserId actor, trActorSubject := acSubjectHash actor\<rparr>"

definition create_reissued_round :: "env \<Rightarrow> task_row \<Rightarrow> ustr \<Rightarrow> actor \<Rightarrow> task_row option db" where
  "create_reissued_round env task reason actor =
    st_bind (st_ensure (tvState task = Escalated \<or> tvState task = Revoked)
       (conflict_error OnlyEscalatedOrRevoked)) (\<lambda>_.
    st_bind (get_current_consensus_round task) (\<lambda>current.
    (case current of None \<Rightarrow> st_throw (conflict_error CurrentRoundMissing)
     | Some currentRound \<Rightarrow>
       st_bind (transition_consensus_task env task
           (reissue_transition task currentRound reason actor)) (\<lambda>moved.
       (case moved of None \<Rightarrow> st_throw TypeError
        | Some reissued \<Rightarrow>
          st_bind (date_now env) (\<lambda>now.
          st_bind (db_batch (reissue_statements reissued currentRound reason now)) (\<lambda>update.
          st_bind (st_ensure (update ! 1 = 1 \<and> update ! 2 = 1) (conflict_error FreshRoundFailed)) (\<lambda>_.
          st_bind (get_consensus_task (tvId reissued)) (\<lambda>refreshed.
          (case refreshed of None \<Rightarrow> st_throw TypeError
           | Some fresh \<Rightarrow>
             (let next = tvCurrentRound reissued + 1 in
              transition_consensus_task env fresh
                (round_open_transition currentRound (consensus_round_id (tvId reissued) next)
                   next actor))))))))))))"

end
