(* ===== verification/Dates.thy ===== *)
theory Dates
  imports JsValue
begin

text \<open>
  \<open>new Date(ms).toISOString()\<close> for years 0 to 9999 (the proleptic Gregorian calendar of the
  language): the civil date of a day number counted from 1970-01-01, and the text with
  milliseconds.
\<close>

definition civil_from_days :: "int \<Rightarrow> int \<times> int \<times> int" where
  "civil_from_days days =
    (let z = days + 719468; era = z div 146097; doe = z mod 146097;
         yoe = (doe - doe div 1460 + doe div 36524 - doe div 146096) div 365;
         doy = doe - (365 * yoe + yoe div 4 - yoe div 100);
         mp = (5 * doy + 2) div 153;
         d = doy - (153 * mp + 2) div 5 + 1;
         m = (if mp < 10 then mp + 3 else mp - 9)
     in (yoe + era * 400 + (if m \<le> 2 then 1 else 0), m, d))"

text \<open>Decimal digits, padded with zeros to a width.\<close>

definition padded :: "nat \<Rightarrow> int \<Rightarrow> ustr" where
  "padded w i = (let ds = nat_str (nat i) in replicate (w - length ds) 48 @ ds)"

definition iso_string :: "int \<Rightarrow> ustr" where
  "iso_string ms =
    (case civil_from_days (ms div 86400000) of (y, m, d) \<Rightarrow>
      let t = ms mod 86400000 in
      padded 4 y @ u ''-'' @ padded 2 m @ u ''-'' @ padded 2 d @ u ''T''
      @ padded 2 (t div 3600000) @ u '':'' @ padded 2 (t div 60000 mod 60) @ u '':''
      @ padded 2 (t div 1000 mod 60) @ u ''.'' @ padded 3 (t mod 1000) @ u ''Z'')"

lemma iso_string_epoch: "iso_string 0 = u ''1970-01-01T00:00:00.000Z''"
  by code_simp

lemma iso_string_leap_day: "iso_string 1709210096789 = u ''2024-02-29T12:34:56.789Z''"
  by code_simp

end
