(* ===== verification/Governance.thy ===== *)
theory Governance
  imports ConsensusStore Dates
begin

text \<open>
  The consensus part of \<open>src/index.js\<close>: reconciling a task with its submissions, releasing held
  evidence as a quorum, recording task-state evidence, publication, expiry of rounds, appeals and
  reissues. Every awaited statement or batch is one step of the \<open>db\<close> monad. Stored JSON text is
  the document it parses to; secrets are available; the payload of an evidence row is the signed
  envelope.
\<close>

section \<open>Vocabulary\<close>

text \<open>Reading a property of the row a query found: a \<open>TypeError\<close> when it found none.\<close>

definition deref :: "'a option \<Rightarrow> 'a db" where
  "deref x = (case x of None \<Rightarrow> st_throw TypeError | Some v \<Rightarrow> st_return v)"

definition lift_consensus :: "consensus_error thrown + 'a \<Rightarrow> 'a db" where
  "lift_consensus r = (case r of Inr x \<Rightarrow> st_return x | Inl TypeError \<Rightarrow> st_throw TypeError
     | Inl (Thrown e) \<Rightarrow> st_throw (Thrown (ConsensusError e)))"

definition lift_protocol :: "'a checked \<Rightarrow> 'a db" where
  "lift_protocol r = (case r of Inr x \<Rightarrow> st_return x | Inl TypeError \<Rightarrow> st_throw TypeError
     | Inl (Thrown e) \<Rightarrow> st_throw (Thrown (ProtocolError e)))"

text \<open>\<open>catch (error) { if (!(error instanceof ConsensusConflict)) throw error; h() }\<close>\<close>

definition on_conflict :: "'a db \<Rightarrow> 'a db \<Rightarrow> 'a db" where
  "on_conflict m h = st_catch m (\<lambda>e. case e of Thrown (ConsensusConflict c) \<Rightarrow> h | _ \<Rightarrow> st_throw e)"

fun role_name :: "crole \<Rightarrow> ustr" where
  "role_name RoleA = u ''A''" | "role_name RoleB = u ''B''" | "role_name RoleJ1 = u ''J1''" | "role_name RoleJ2 = u ''J2''"

text \<open>\<open>SELECT \<dots> FROM submissions WHERE task, round, role and active\<close>; a round holds one per role.\<close>

definition round_submission :: "ustr \<Rightarrow> ustr \<Rightarrow> crole \<Rightarrow> cdb \<Rightarrow> submission_row option" where
  "round_submission taskId roundId r db =
     List.find (\<lambda>s. sbTask s = taskId \<and> sbRound s = roundId \<and> sbRole s = r \<and> sbActive s) (submissions db)"

section \<open>Notifications\<close>

text \<open>\<open>SELECT DISTINCT\<close> over the participations, joined with the users.\<close>

definition governance_recipients :: "ustr \<Rightarrow> cdb \<Rightarrow> user_row list" where
  "governance_recipients taskVersionId db =
     List.map_filter (\<lambda>userId. List.find (\<lambda>x. usId x = userId) (users db))
       (oset_of (map paUser (filter (\<lambda>p. paTask p = taskVersionId) (participations db))))"

definition notification_writes ::
  "env \<Rightarrow> nat \<Rightarrow> ustr \<Rightarrow> ustr \<Rightarrow> jsv \<Rightarrow> ustr \<Rightarrow> user_row list \<Rightarrow> stmt list" where
  "notification_writes env firstUuid taskVersionId eventType context dedupeKey recipients =
     map (\<lambda>(i, x). insert_notification_or_ignore env
            \<lparr>noId = envUuid env (firstUuid + i), noRecipient = usId x, noEventType = eventType,
             noTask = taskVersionId, noContext = context,
             noDedupe = dedupeKey @ u '':'' @ usId x\<rparr>)
       (enumerate 0 (filter usNotifications recipients))"

definition queue_governance_notifications :: "env \<Rightarrow> ustr \<Rightarrow> string \<Rightarrow> jsv \<Rightarrow> ustr \<Rightarrow> unit db" where
  "queue_governance_notifications env taskVersionId eventType context dedupeKey =
    st_bind (st_get (governance_recipients taskVersionId)) (\<lambda>recipients.
    st_bind (date_now env) (\<lambda>_.
    st_bind (st_get uuids) (\<lambda>first.
    st_bind (st_modify (\<lambda>db. db\<lparr>uuids := first + length (filter usNotifications recipients)\<rparr>)) (\<lambda>_.
    st_bind (db_batch (notification_writes env first taskVersionId (u eventType) context dedupeKey recipients))
      (\<lambda>_. st_return ())))))"

section \<open>Task-state evidence\<close>

fun repository_status_name :: "repository_status \<Rightarrow> ustr" where
  "repository_status_name NotSent = u ''not-sent''"
| "repository_status_name RepoPending = u ''pending''"
| "repository_status_name RepoAccepted = u ''accepted''"
| "repository_status_name RepoRejected = u ''rejected''"

definition CLAIM_BOUNDARIES :: jsv where
  "CLAIM_BOUNDARIES = JArr
     [JStr (u ''This is a signed workflow-state event, not linguistic gold by itself.''),
      JStr (u ''Participant identity and contact data are excluded.''),
      JStr (u ''Published status requires a separately authenticated repository receipt.'')]"

definition state_envelope :: "task_row \<Rightarrow> event_row \<Rightarrow> (ustr \<times> jsv) list" where
  "state_envelope task event =
    [(u ''schema'', JStr (u ''adg-msa-task-state-v1'')), (u ''nonce'', JStr (evId event)),
     (u ''eventId'', JStr (evId event)), (u ''taskVersionId'', JStr (tvId task)),
     (u ''taskId'', JStr (tvTaskId task)), (u ''taskVersion'', jint (tvTaskVersion task)),
     (u ''packetId'', JStr (tvPacketId task)), (u ''holdoutId'', JStr (tvHoldoutId task)),
     (u ''packetMerkleRoot'', JStr (tvPacketRoot task)),
     (u ''guidelineVersion'', JStr (tvGuidelineVersion task)),
     (u ''dataVersion'', JStr (tvDataVersion task)), (u ''protocolVersion'', JStr (tvProtocolVersion task)),
     (u ''state'', JStr (state_name (evTo event))), (u ''stateVersion'', jint (int (tvStateVersion task))),
     (u ''round'', jint (int (tvCurrentRound task))), (u ''roundId'', jopt (evRound event)),
     (u ''eventType'', JStr (evType event)), (u ''fromState'', JStr (state_name (evFrom event))),
     (u ''toState'', JStr (state_name (evTo event))), (u ''reasonCode'', JStr (evReason event)),
     (u ''evidence'', evEvidence event), (u ''priorStateHash'', jopt (evPriorStateHash event)),
     (u ''eventHash'', JStr (evHash event)), (u ''activeFinalReceiptId'', jopt (tvActiveFinal task)),
     (u ''repositoryStatus'', JStr (repository_status_name (tvRepositoryStatus task))),
     (u ''createdAtUtc'', JStr (iso_string (evCreatedAt event))),
     (u ''transitionedAtUtc'', JStr (iso_string (evCreatedAt event))),
     (u ''claimBoundaries'', CLAIM_BOUNDARIES)]"

definition signed_envelope :: "env \<Rightarrow> (ustr \<times> jsv) list \<Rightarrow> jsv" where
  "signed_envelope env kvs =
     JObj (kvs @ [(u ''hmacSha256'', JStr (envHmac env (json_text (JObj kvs))))])"

definition state_evidence_key :: "ustr \<Rightarrow> ustr" where
  "state_evidence_key eventId = u ''task-state:'' @ eventId"

definition state_evidence_row :: "env \<Rightarrow> task_row \<Rightarrow> event_row \<Rightarrow> ustr \<Rightarrow> int \<Rightarrow> int \<Rightarrow> outbox_row" where
  "state_evidence_row env task event rowId nextAttemptAt createdAt =
    \<lparr>obId = rowId, obKind = TaskStateEvidence, obTask = tvId task, obRelated = evId event,
     obPayload = signed_envelope env (state_envelope task event),
     obDedupe = state_evidence_key (evId event), obStatus = Pending, obAttempts = 0,
     obNextAttemptAt = nextAttemptAt, obLastError = None, obCreatedAt = createdAt, obSentAt = None\<rparr>"

definition ensure_task_state_evidence :: "env \<Rightarrow> task_row option \<Rightarrow> unit db" where
  "ensure_task_state_evidence env task =
    (case task of None \<Rightarrow> st_return () | Some t \<Rightarrow>
    (case tvLastEventId t of None \<Rightarrow> st_return () | Some lastId \<Rightarrow>
     st_bind (st_get (\<lambda>db. \<exists>x \<in> set (outbox db). obDedupe x = state_evidence_key lastId)) (\<lambda>present.
     if present then st_return () else
     st_bind (st_get (\<lambda>db. List.find (\<lambda>e. evId e = lastId) (events db))) (\<lambda>found.
     (case found of None \<Rightarrow> st_return () | Some event \<Rightarrow>
       st_bind (random_uuid env) (\<lambda>rowId.
       st_bind (date_now env) (\<lambda>nextAttemptAt.
       st_bind (date_now env) (\<lambda>createdAt.
       st_bind (db_run (insert_outbox True (state_evidence_row env t event rowId nextAttemptAt createdAt)))
         (\<lambda>_. st_return ()))))))))) "

section \<open>Release of independent evidence\<close>

definition is_quorum_evidence :: "ustr \<Rightarrow> ustr list \<Rightarrow> outbox_row \<Rightarrow> bool" where
  "is_quorum_evidence taskVersionId receiptIds ob \<longleftrightarrow>
     obKind ob = SubmissionEvidence \<and> obTask ob = taskVersionId \<and> obRelated ob \<in> set receiptIds"

definition release_statement :: "ustr \<Rightarrow> ustr \<Rightarrow> ustr list \<Rightarrow> int \<Rightarrow> stmt" where
  "release_statement taskVersionId roundId receiptIds now db =
    (let p = (\<lambda>ob. is_quorum_evidence taskVersionId receiptIds ob \<and> obStatus ob = Held
           \<and> (\<exists>s \<in> set (submissions db). sbReceipt s = obRelated ob \<and> sbTask s = taskVersionId
                \<and> sbRound s = roundId \<and> sbRole s \<in> {RoleA, RoleB} \<and> sbActive s)) in
     Inr (count_rows p (outbox db), db\<lparr>outbox := update_rows p
       (\<lambda>ob. ob\<lparr>obStatus := Pending, obNextAttemptAt := now\<rparr>) (outbox db)\<rparr>))"

definition released_count :: "ustr \<Rightarrow> ustr list \<Rightarrow> cdb \<Rightarrow> nat" where
  "released_count taskVersionId receiptIds db =
     count_rows (\<lambda>ob. is_quorum_evidence taskVersionId receiptIds ob \<and> obStatus ob \<in> {Pending, Sending, Sent})
       (outbox db)"

definition release_independent_evidence :: "env \<Rightarrow> ustr \<Rightarrow> ustr \<Rightarrow> ustr list \<Rightarrow> unit db" where
  "release_independent_evidence env taskVersionId roundId receiptIds =
    st_bind (date_now env) (\<lambda>now.
    st_bind (db_run (release_statement taskVersionId roundId receiptIds now)) (\<lambda>_.
    st_bind (st_get (released_count taskVersionId receiptIds)) (\<lambda>released.
    st_ensure (released = 2) (conflict_error QuorumNotReleased))))"

section \<open>Reconciliation\<close>

definition jrat :: "rat option \<Rightarrow> jsv" where
  "jrat x = (case x of None \<Rightarrow> JNull | Some r \<Rightarrow> JNum r)"

text \<open>The object \<open>computeIndependentAgreement\<close> returns.\<close>

definition dimension_json :: "dimension \<Rightarrow> jsv" where
  "dimension_json d = JObj [(u ''name'', JStr (dimName d)), (u ''unitCount'', jint (int (unitCount d))),
     (u ''disagreementCount'', jint (int (disagreementCount d))), (u ''rawAgreement'', JNum (rawAgreement d)),
     (u ''cohenKappa'', jrat (cohenKappa d))]"

definition agreement_json :: "agreement \<Rightarrow> jsv" where
  "agreement_json m = JObj [(u ''schema'', JStr (u ''adg-independent-agreement-v1'')),
     (u ''unitCount'', jint (int (agUnitCount m))), (u ''exactAgreement'', JBool (exactAgreement m)),
     (u ''macroRawAgreement'', JNum (macroRawAgreement m)), (u ''macroDefinedKappa'', jrat (macroDefinedKappa m)),
     (u ''dimensions'', JArr (map dimension_json (dimensions m)))]"

text \<open>A stored policy has passed \<open>validatePacket\<close>, so its thresholds are numbers.\<close>

definition stored_policy_passed :: "agreement \<Rightarrow> jsv \<Rightarrow> bool" where
  "stored_policy_passed m policy =
     (case metric_policy_of policy of None \<Rightarrow> False | Some p \<Rightarrow> agreement_policy_passed m p)"

definition reissue_context :: "task_row \<Rightarrow> ustr \<Rightarrow> jsv" where
  "reissue_context task reason = JObj [(u ''taskVersionId'', JStr (tvId task)),
     (u ''packetId'', JStr (tvPacketId task)), (u ''reason'', JStr reason)]"

definition last_event_text :: "task_row \<Rightarrow> ustr" where
  "last_event_text task = to_str (jopt (tvLastEventId task))"

definition quorum_transition ::
  "round_row \<Rightarrow> ustr \<Rightarrow> ustr \<Rightarrow> agreement \<Rightarrow> jsv \<Rightarrow> bool \<Rightarrow> transition" where
  "quorum_transition rnd receiptA receiptB m policy passed =
     plain_transition Discussion (Some (rdId rnd))
       (if passed then u ''independent-quorum-reached'' else u ''independent-disagreement-routed'')
       (if passed then u ''independent-quorum-complete'' else u ''j1-adjudication-required'')
       (JObj [(u ''annotationAReceiptId'', JStr receiptA), (u ''annotationBReceiptId'', JStr receiptB),
              (u ''metrics'', agreement_json m), (u ''policy'', policy)])
       (u ''independent-quorum:'' @ rdId rnd @ u '':'' @ receiptA @ u '':'' @ receiptB)"

definition reconcile_independent :: "env \<Rightarrow> task_row \<Rightarrow> round_row \<Rightarrow> unit db" where
  "reconcile_independent env task rnd =
    st_bind (st_get (round_submission (tvId task) (rdId rnd) RoleA)) (\<lambda>rowA.
    st_bind (st_get (round_submission (tvId task) (rdId rnd) RoleB)) (\<lambda>rowB.
    (case (rowA, rowB) of
      (Some a, Some b) \<Rightarrow>
        st_bind (release_independent_evidence env (tvId task) (rdId rnd) [sbReceipt a, sbReceipt b]) (\<lambda>_.
        st_bind (lift_consensus (compute_independent_agreement (dot (sbArtifact a) ''annotation'')
            (dot (sbArtifact b) ''annotation''))) (\<lambda>m.
        (let policy = tvMetricPolicy task; passed = stored_policy_passed m policy in
         st_bind (date_now env) (\<lambda>now.
         st_bind (db_run (insert_metrics_or_ignore \<lparr>meTask = tvId task, meRound = rdId rnd,
             meA = sbReceipt a, meB = sbReceipt b, meMetrics = m, mePolicyPassed = passed,
             meComputedAt = now\<rparr>)) (\<lambda>_.
         st_bind (transition_consensus_task env task
             (quorum_transition rnd (sbReceipt a) (sbReceipt b) m policy passed)) (\<lambda>moved.
         st_bind (ensure_task_state_evidence env moved) (\<lambda>_.
         if passed then st_return () else
         st_bind (deref moved) (\<lambda>t.
           queue_governance_notifications env (tvId t) ''j1-adjudication-required''
             (JObj [(u ''taskVersionId'', JStr (tvId t)), (u ''packetId'', JStr (tvPacketId t)),
                    (u ''reason'', JStr (u ''low-independent-agreement'')), (u ''roundId'', JStr (rdId rnd))])
             (u ''j1-adjudication-required:'' @ last_event_text t)))))))))
    | _ \<Rightarrow> st_return ())))"

text \<open>The tail shared by every automatic reissue: fresh round, its evidence, the notification.\<close>

definition reissue_and_notify :: "env \<Rightarrow> task_row option \<Rightarrow> string \<Rightarrow> unit db" where
  "reissue_and_notify env moved reason =
    st_bind (deref moved) (\<lambda>t.
    st_bind (create_reissued_round env t (u reason) no_actor) (\<lambda>fresh.
    st_bind (ensure_task_state_evidence env fresh) (\<lambda>_.
    st_bind (deref fresh) (\<lambda>f.
      queue_governance_notifications env (tvId f) ''task-reissued'' (reissue_context f (u reason))
        (u ''task-reissued:'' @ last_event_text f)))))"

definition proposal_transition :: "round_row \<Rightarrow> ustr \<Rightarrow> ustr \<Rightarrow> nat \<Rightarrow> transition" where
  "proposal_transition rnd receipt finalRoot novelCount =
     plain_transition (if novelCount > 0 then Escalated else FinalReview) (Some (rdId rnd))
       (if novelCount > 0 then u ''novel-primary-decision'' else u ''primary-adjudication-proposed'')
       (if novelCount > 0 then u ''novel-primary-decision'' else u ''j1-final-root-proposed'')
       (JObj [(u ''primaryReceiptId'', JStr receipt), (u ''finalMerkleRoot'', JStr finalRoot),
              (u ''novelDecisionCount'', jint (int novelCount))])
       (u ''j1-proposal:'' @ receipt)"

definition reconcile_discussion :: "env \<Rightarrow> task_row \<Rightarrow> round_row \<Rightarrow> unit db" where
  "reconcile_discussion env task rnd =
    st_bind (st_get (round_submission (tvId task) (rdId rnd) RoleJ1)) (\<lambda>primary.
    (case primary of None \<Rightarrow> st_return () | Some p \<Rightarrow>
      (let artifact = sbArtifact p in
       st_bind (lift_consensus (count_novel_primary_decisions (dot artifact ''annotationA'')
           (dot artifact ''annotationB'') (dot artifact ''adjudication''))) (\<lambda>novelCount.
       st_bind (lift_protocol (compute_adjudication_root (envSha256 env) (dot artifact ''packet'')
           (dot artifact ''annotationA'') (dot artifact ''annotationB'') (dot artifact ''adjudication'')))
         (\<lambda>finalRoot.
       st_bind (transition_consensus_task env task
           (proposal_transition rnd (sbReceipt p) finalRoot novelCount)) (\<lambda>moved.
       st_bind (ensure_task_state_evidence env moved) (\<lambda>_.
       if novelCount > 0 then reissue_and_notify env moved ''novel-primary-decision''
       else st_return ())))))))"

definition ratification_reason :: "jsv \<Rightarrow> string" where
  "ratification_reason ratification =
     (if str_is (dot ratification ''decision'') ''recuse'' then ''accepted-recusal'' else ''j2-disagreement'')"

definition ratified_transition :: "round_row \<Rightarrow> ustr \<Rightarrow> jsv \<Rightarrow> bool \<Rightarrow> int option \<Rightarrow> transition" where
  "ratified_transition rnd receipt ratification agrees deadline =
     (plain_transition (if agrees then Approved else Escalated) (Some (rdId rnd))
       (if agrees then u ''secondary-ratification-approved'' else u ''secondary-ratification-escalated'')
       (if agrees then u ''j2-exact-root-cosign'' else u (ratification_reason ratification))
       (JObj [(u ''secondaryReceiptId'', JStr receipt),
              (u ''primaryReceiptId'', dot ratification ''primaryReceiptId''),
              (u ''finalMerkleRoot'', dot ratification ''primaryAdjudicationMerkleRoot''),
              (u ''decision'', dot ratification ''decision'')])
       (u ''j2-ratification:'' @ receipt))
     \<lparr>trActiveFinal := (if agrees then Some (to_str (dot ratification ''primaryReceiptId'')) else None),
      trAppealDeadlineAt := deadline\<rparr>"

definition close_round :: "ustr \<Rightarrow> int \<Rightarrow> stmt" where
  "close_round roundId now db =
    (let p = (\<lambda>r. rdId r = roundId \<and> rdStatus r = RoundOpen) in
     Inr (count_rows p (rounds db), db\<lparr>rounds := update_rows p
       (\<lambda>r. r\<lparr>rdStatus := RoundClosed, rdClosedAt := Some now\<rparr>) (rounds db)\<rparr>))"

definition reconcile_final_review :: "env \<Rightarrow> task_row \<Rightarrow> round_row \<Rightarrow> unit db" where
  "reconcile_final_review env task rnd =
    st_bind (st_get (round_submission (tvId task) (rdId rnd) RoleJ2)) (\<lambda>secondary.
    (case secondary of None \<Rightarrow> st_return () | Some s \<Rightarrow>
      (let ratification = dot (sbArtifact s) ''ratification'';
           agrees = str_is (dot ratification ''decision'') ''agree'' in
       if agrees then
         st_bind (date_now env) (\<lambda>now.
         st_bind (transition_consensus_task env task
             (ratified_transition rnd (sbReceipt s) ratification True (Some (now + APPEAL_WINDOW_MS)))) (\<lambda>moved.
         st_bind (date_now env) (\<lambda>closedAt.
         st_bind (db_run (close_round (rdId rnd) closedAt)) (\<lambda>_.
         st_bind (ensure_task_state_evidence env moved) (\<lambda>_.
         st_bind (deref moved) (\<lambda>t.
           queue_governance_notifications env (tvId t) ''result-approved''
             (JObj [(u ''taskVersionId'', JStr (tvId t)), (u ''packetId'', JStr (tvPacketId t)),
                    (u ''appealDeadlineAtUtc'', JStr (iso_string (case tvAppealDeadlineAt t of None \<Rightarrow> 0 | Some d \<Rightarrow> d)))])
             (u ''result-approved:'' @ sbReceipt s)))))))
       else
         st_bind (transition_consensus_task env task
             (ratified_transition rnd (sbReceipt s) ratification False None)) (\<lambda>moved.
         st_bind (ensure_task_state_evidence env moved) (\<lambda>_.
         reissue_and_notify env moved (ratification_reason ratification))))))"

definition reconcile_step :: "env \<Rightarrow> task_row \<Rightarrow> round_row \<Rightarrow> unit db" where
  "reconcile_step env task rnd =
    (case tvState task of
       IndependentReview \<Rightarrow> reconcile_independent env task rnd
     | Discussion \<Rightarrow> reconcile_discussion env task rnd
     | FinalReview \<Rightarrow> reconcile_final_review env task rnd
     | _ \<Rightarrow> st_return ())"

definition reconcile_consensus_task :: "env \<Rightarrow> ustr \<Rightarrow> task_row option db" where
  "reconcile_consensus_task env taskVersionId =
    st_bind (get_consensus_task taskVersionId) (\<lambda>found.
    (case found of None \<Rightarrow> st_return None | Some task \<Rightarrow>
      st_bind (get_current_consensus_round task) (\<lambda>current.
      (case current of None \<Rightarrow> st_return (Some task) | Some rnd \<Rightarrow>
        st_bind (on_conflict (reconcile_step env task rnd) (st_return ())) (\<lambda>_.
        get_consensus_task taskVersionId)))))"

section \<open>Publication\<close>

definition publish_transition :: "ustr \<Rightarrow> final_row \<Rightarrow> receipt_row \<Rightarrow> int \<Rightarrow> transition" where
  "publish_transition taskVersionId f receipt guardAt =
     (plain_transition Published (Some (fiRound f)) (u ''repository-publication-confirmed'')
       (u ''signed-repository-receipt'')
       (JObj [(u ''repositoryReceiptId'', JStr (rcId receipt)), (u ''finalReceiptId'', JStr (fiPrimary f)),
              (u ''finalMerkleRoot'', JStr (fiRoot f)), (u ''pullRequestNumber'', jint (rcPrNumber receipt)),
              (u ''mergeCommitSha'', JStr (rcMergeSha receipt)),
              (u ''importerCommitSha'', JStr (rcImporterSha receipt))])
       (u ''publish:'' @ taskVersionId @ u '':'' @ rcId receipt))
     \<lparr>trActiveFinal := Some (fiPrimary f), trRequirePublicationReady := True,
      trPublicationGuardAt := Some guardAt\<rparr>"

definition mark_published :: "ustr \<Rightarrow> int \<Rightarrow> stmt" where
  "mark_published primary now =
     update_finals (\<lambda>f. fiPrimary f = primary \<and> fiStatus f = FinalActive) (\<lambda>f. f\<lparr>fiPublishedAt := Some now\<rparr>)"

text \<open>The early returns of \<open>attemptPublishTask\<close> before its queries; \<open>0\<close> is a falsy deadline.\<close>

definition publishable :: "task_row \<Rightarrow> int \<Rightarrow> bool" where
  "publishable task now \<longleftrightarrow> tvState task = Approved \<and> tvRepositoryStatus task = RepoAccepted
     \<and> (case tvAppealDeadlineAt task of None \<Rightarrow> False | Some d \<Rightarrow> d \<noteq> 0 \<and> \<not> d > now)"

definition pending_appeal :: "ustr \<Rightarrow> cdb \<Rightarrow> bool" where
  "pending_appeal taskVersionId db \<longleftrightarrow>
     (\<exists>a \<in> set (appeals db). apTask a = taskVersionId \<and> apStatus a = AppealPending)"

definition active_final :: "task_row \<Rightarrow> cdb \<Rightarrow> final_row option" where
  "active_final task db = List.find (\<lambda>f. fiTask f = tvId task \<and> fiStatus f = FinalActive
     \<and> tvActiveFinal task = Some (fiPrimary f)) (finals db)"

definition final_receipt :: "ustr \<Rightarrow> final_row \<Rightarrow> cdb \<Rightarrow> receipt_row option" where
  "final_receipt taskVersionId f db = List.find (\<lambda>r. rcTask r = taskVersionId \<and> rcRound r = fiRound f
     \<and> rcRoot r = fiRoot f) (receipts db)"

definition publish_now :: "env \<Rightarrow> task_row \<Rightarrow> final_row \<Rightarrow> receipt_row \<Rightarrow> task_row option db" where
  "publish_now env task f receipt =
    st_bind (date_now env) (\<lambda>guardAt.
    st_bind (on_conflict
        (st_bind (transition_consensus_task env task (publish_transition (tvId task) f receipt guardAt))
           (\<lambda>moved. st_return (Some moved)))
        (st_return None)) (\<lambda>outcome.
    (case outcome of None \<Rightarrow> get_consensus_task (tvId task) | Some moved \<Rightarrow>
      st_bind (date_now env) (\<lambda>now.
      st_bind (db_run (mark_published (fiPrimary f) now)) (\<lambda>_.
      st_bind (ensure_task_state_evidence env moved) (\<lambda>_.
      st_bind (deref moved) (\<lambda>t.
      st_bind (queue_governance_notifications env (tvId t) ''result-published''
          (JObj [(u ''taskVersionId'', JStr (tvId t)), (u ''packetId'', JStr (tvPacketId t)),
                 (u ''repositoryReceiptId'', JStr (rcId receipt))])
          (u ''result-published:'' @ rcId receipt)) (\<lambda>_.
      st_return moved))))))))"

definition attempt_publish_task :: "env \<Rightarrow> ustr \<Rightarrow> task_row option db" where
  "attempt_publish_task env taskVersionId =
    st_bind (get_consensus_task taskVersionId) (\<lambda>found.
    (case found of None \<Rightarrow> st_return None | Some task \<Rightarrow>
      st_bind (date_now env) (\<lambda>now.
      if \<not> publishable task now then st_return found else
      st_bind (st_get (pending_appeal taskVersionId)) (\<lambda>appealed.
      if appealed then st_return found else
      st_bind (st_get (active_final task)) (\<lambda>final.
      (case final of None \<Rightarrow> st_return found | Some f \<Rightarrow>
        st_bind (st_get (final_receipt taskVersionId f)) (\<lambda>receipt.
        (case receipt of None \<Rightarrow> st_return found | Some r \<Rightarrow> publish_now env task f r))))))))"

section \<open>Scheduled processing\<close>

text \<open>A loop whose body logs what it throws and goes on.\<close>

fun for_each_logged :: "('a \<Rightarrow> unit db) \<Rightarrow> 'a list \<Rightarrow> unit db" where
  "for_each_logged body [] = st_return ()"
| "for_each_logged body (x # xs) =
     st_bind (st_catch (body x) (\<lambda>_. st_return ())) (\<lambda>_. for_each_logged body xs)"

text \<open>\<open>ORDER BY k LIMIT n\<close>: a stable sort, the rows of a table being in insertion order.\<close>

definition order_limit :: "('r \<Rightarrow> int) \<Rightarrow> nat \<Rightarrow> 'r list \<Rightarrow> 'r list" where
  "order_limit k n rows = take n (sort_key k rows)"

definition active_tasks :: "cdb \<Rightarrow> ustr list" where
  "active_tasks db = map tvId (order_limit tvUpdatedAt 25
     (filter (\<lambda>t. tvState t \<in> {IndependentReview, Discussion, FinalReview}) (taskVersions db)))"

definition last_event_of :: "cdb \<Rightarrow> task_row \<Rightarrow> event_row option" where
  "last_event_of db t = (case tvLastEventId t of None \<Rightarrow> None
     | Some i \<Rightarrow> List.find (\<lambda>e. evId e = i) (events db))"

definition tasks_missing_evidence :: "cdb \<Rightarrow> ustr list" where
  "tasks_missing_evidence db = map (tvId \<circ> fst) (order_limit (evCreatedAt \<circ> snd) 25
     (filter (\<lambda>(t, e). \<not> (\<exists>x \<in> set (outbox db). obDedupe x = state_evidence_key (evId e)))
       (List.map_filter (\<lambda>t. map_option (Pair t) (last_event_of db t)) (taskVersions db))))"

definition expired_rounds :: "int \<Rightarrow> cdb \<Rightarrow> ustr list" where
  "expired_rounds now db = take 10 (map tvId (filter (\<lambda>t. tvState t = IndependentReview
     \<and> (\<exists>r \<in> set (rounds db). rdTask r = tvId t \<and> rdNumber r = tvCurrentRound t
          \<and> rdStatus r = RoundOpen \<and> rdDeadlineAt r \<le> now)) (taskVersions db)))"

definition expiry_transition :: "round_row \<Rightarrow> transition" where
  "expiry_transition rnd =
     plain_transition Escalated (Some (rdId rnd)) (u ''independent-quorum-expired'')
       (u ''missing-quorum-deadline'')
       (JObj [(u ''deadlineAtUtc'', JStr (iso_string (rdDeadlineAt rnd)))])
       (u ''deadline-expired:'' @ rdId rnd)"

definition expire_task :: "env \<Rightarrow> ustr \<Rightarrow> unit db" where
  "expire_task env taskVersionId =
    st_bind (get_consensus_task taskVersionId) (\<lambda>found.
    st_bind (deref found) (\<lambda>task.
    st_bind (get_current_consensus_round task) (\<lambda>current.
    st_bind (deref current) (\<lambda>rnd.
    st_bind (transition_consensus_task env task (expiry_transition rnd)) (\<lambda>moved.
    st_bind (ensure_task_state_evidence env moved) (\<lambda>_.
    reissue_and_notify env moved ''missing-quorum-deadline''))))))"

definition process_expired_consensus_rounds :: "env \<Rightarrow> unit db" where
  "process_expired_consensus_rounds env =
    st_bind (st_get active_tasks) (\<lambda>active.
    st_bind (for_each_logged (\<lambda>i. st_bind (reconcile_consensus_task env i) (\<lambda>_. st_return ())) active) (\<lambda>_.
    st_bind (st_get tasks_missing_evidence) (\<lambda>missing.
    st_bind (for_each_logged (\<lambda>i. st_bind (get_consensus_task i) (ensure_task_state_evidence env)) missing) (\<lambda>_.
    st_bind (date_now env) (\<lambda>now.
    st_bind (st_get (expired_rounds now)) (\<lambda>expired.
    for_each_logged (expire_task env) expired))))))"

definition publishable_tasks :: "int \<Rightarrow> cdb \<Rightarrow> ustr list" where
  "publishable_tasks now db = map tvId (order_limit (\<lambda>t. the (tvAppealDeadlineAt t)) 25
     (filter (\<lambda>t. tvState t = Approved \<and> tvRepositoryStatus t = RepoAccepted
        \<and> (case tvAppealDeadlineAt t of None \<Rightarrow> False | Some d \<Rightarrow> d \<le> now)) (taskVersions db)))"

definition process_publishable_tasks :: "env \<Rightarrow> unit db" where
  "process_publishable_tasks env =
    st_bind (date_now env) (\<lambda>now.
    st_bind (st_get (publishable_tasks now)) (\<lambda>ready.
    for_each_logged (\<lambda>i. st_bind (attempt_publish_task env i) (\<lambda>_. st_return ())) ready))"

section \<open>Administration\<close>

definition REISSUE_REASONS :: "string list" where
  "REISSUE_REASONS = [''missing-quorum-deadline'', ''accepted-recusal'', ''j2-disagreement'',
     ''accepted-appeal'', ''material-evidence-defect'', ''low-independent-agreement'',
     ''novel-primary-decision'']"

definition admin_actor :: "ustr \<Rightarrow> actor" where
  "admin_actor subjectHash = \<lparr>acUserId = None, acSubjectHash = Some subjectHash\<rparr>"

text \<open>
  The request of an authenticated administrator, its task identifier already normalised. The
  audit line that follows is not part of the consensus tables.
\<close>

definition reissue_consensus_task :: "env \<Rightarrow> ustr \<Rightarrow> ustr \<Rightarrow> jsv \<Rightarrow> task_row db" where
  "reissue_consensus_task env subjectHash taskVersionId reason =
    st_bind (st_ensure (list_ex (str_is reason) REISSUE_REASONS) (public_error 400 DecisionInvalid)) (\<lambda>_.
    st_bind (get_consensus_task taskVersionId) (\<lambda>found.
    st_bind (case found of None \<Rightarrow> st_throw (public_error 404 TaskUnknown) | Some t \<Rightarrow> st_return t) (\<lambda>task.
    st_bind (st_catch (create_reissued_round env task (js_string reason) (admin_actor subjectHash))
        (\<lambda>e. case e of Thrown (ConsensusConflict c) \<Rightarrow> st_throw (public_error 409 (Refused c))
           | _ \<Rightarrow> st_throw e)) (\<lambda>updated.
    st_bind (ensure_task_state_evidence env updated) (\<lambda>_.
    st_bind (deref updated) (\<lambda>t.
    st_bind (queue_governance_notifications env (tvId t) ''task-reissued'' (reissue_context t (js_string reason))
        (u ''task-reissued:'' @ last_event_text t)) (\<lambda>_.
    st_return t)))))))"

definition decide_appeal :: "ustr \<Rightarrow> appeal_status \<Rightarrow> ustr \<Rightarrow> ustr \<Rightarrow> int \<Rightarrow> stmt" where
  "decide_appeal appealId decision subjectHash reason now db =
    (let p = (\<lambda>a. apId a = appealId \<and> apStatus a = AppealPending) in
     Inr (count_rows p (appeals db), db\<lparr>appeals := update_rows p
       (\<lambda>a. a\<lparr>apStatus := decision, apReviewerSubject := Some subjectHash, apReviewReason := Some reason,
          apReviewedAt := Some now\<rparr>) (appeals db)\<rparr>))"

definition revoke_final :: "ustr \<Rightarrow> ustr \<Rightarrow> int \<Rightarrow> stmt" where
  "revoke_final primary reason now =
     update_finals (\<lambda>f. fiPrimary f = primary \<and> fiStatus f = FinalActive)
       (\<lambda>f. f\<lparr>fiStatus := FinalRevoked, fiRevokedAt := Some now, fiRevocationReason := Some reason\<rparr>)"

definition appeal_transition :: "appeal_row \<Rightarrow> ustr \<Rightarrow> transition" where
  "appeal_transition appeal subjectHash =
     (plain_transition Escalated (Some (apRound appeal)) (u ''approved-result-appealed'') (u ''accepted-appeal'')
       (JObj [(u ''appealId'', JStr (apId appeal)), (u ''finalReceiptId'', JStr (apFinal appeal))])
       (u ''appeal-escalation:'' @ apId appeal))
     \<lparr>trActorSubject := Some subjectHash, trClearActiveFinal := True\<rparr>"

definition uphold_appeal :: "env \<Rightarrow> ustr \<Rightarrow> ustr \<Rightarrow> appeal_row \<Rightarrow> task_row \<Rightarrow> task_row db" where
  "uphold_appeal env subjectHash reason appeal task =
    st_bind (date_now env) (\<lambda>revokedAt.
    st_bind (db_run (revoke_final (apFinal appeal) reason revokedAt)) (\<lambda>_.
    st_bind (transition_consensus_task env task (appeal_transition appeal subjectHash)) (\<lambda>moved.
    st_bind (ensure_task_state_evidence env moved) (\<lambda>_.
    st_bind (deref moved) (\<lambda>escalated.
    st_bind (create_reissued_round env escalated (u ''accepted-appeal'') (admin_actor subjectHash)) (\<lambda>fresh.
    st_bind (ensure_task_state_evidence env fresh) (\<lambda>_.
    st_bind (deref fresh) (\<lambda>t.
    st_bind (queue_governance_notifications env (tvId t) ''result-revoked''
        (reissue_context t (u ''accepted-appeal'')) (u ''result-revoked:'' @ apId appeal)) (\<lambda>_.
    st_bind (queue_governance_notifications env (tvId t) ''task-reissued''
        (reissue_context t (u ''accepted-appeal'')) (u ''task-reissued:'' @ apId appeal)) (\<lambda>_.
    st_return t))))))))))"

definition review_consensus_appeal :: "env \<Rightarrow> ustr \<Rightarrow> ustr \<Rightarrow> jsv \<Rightarrow> ustr \<Rightarrow> task_row db" where
  "review_consensus_appeal env subjectHash appealId decision reason =
    st_bind (st_ensure (str_is decision ''accepted'' \<or> str_is decision ''rejected'')
        (public_error 400 DecisionInvalid)) (\<lambda>_.
    st_bind (st_get (\<lambda>db. List.find (\<lambda>a. apId a = appealId) (appeals db))) (\<lambda>found.
    st_bind (case found of None \<Rightarrow> st_throw (public_error 409 AppealUnknown)
        | Some a \<Rightarrow> if apStatus a = AppealPending then st_return a else st_throw (public_error 409 AppealUnknown))
      (\<lambda>appeal.
    st_bind (get_consensus_task (apTask appeal)) (\<lambda>current.
    st_bind (case current of None \<Rightarrow> st_throw (public_error 409 NotProvisional)
        | Some t \<Rightarrow> if tvState t = Approved then st_return t else st_throw (public_error 409 NotProvisional))
      (\<lambda>task.
    st_bind (date_now env) (\<lambda>now.
    st_bind (db_run (decide_appeal appealId
        (if str_is decision ''accepted'' then AppealAccepted else AppealRejected) subjectHash reason now)) (\<lambda>changed.
    st_bind (st_ensure (changed = 1) (public_error 409 AppealChanged)) (\<lambda>_.
    st_bind (if str_is decision ''accepted'' then uphold_appeal env subjectHash reason appeal task
        else st_return task) (\<lambda>t.
    st_bind (queue_governance_notifications env (tvId t) ''appeal-decided''
        (reissue_context t (js_string decision)) (u ''appeal-decided:'' @ appealId)) (\<lambda>_.
    st_return t))))))))))"

section \<open>Appeals\<close>

definition appeal_candidate :: "ustr \<Rightarrow> cdb \<Rightarrow> (final_row \<times> task_row) option" where
  "appeal_candidate finalReceiptId db =
    (case List.find (\<lambda>f. fiPrimary f = finalReceiptId) (finals db) of None \<Rightarrow> None
     | Some f \<Rightarrow> map_option (Pair f) (List.find (\<lambda>t. tvId t = fiTask f) (taskVersions db)))"

definition participated :: "ustr \<Rightarrow> ustr \<Rightarrow> cdb \<Rightarrow> bool" where
  "participated taskVersionId userId db \<longleftrightarrow>
     (\<exists>p \<in> set (participations db). paTask p = taskVersionId \<and> paUser p = userId \<and> paStatus p = PaSubmitted)"

text \<open>\<open>INSERT INTO appeals \<dots> SELECT \<dots> WHERE \<dots>\<close> under \<open>UNIQUE (task, appellant, final)\<close>.\<close>

definition insert_appeal :: "ustr \<Rightarrow> ustr \<Rightarrow> ustr \<Rightarrow> ustr \<Rightarrow> int \<Rightarrow> stmt" where
  "insert_appeal appealId userId finalReceiptId evidence createdAt db =
    (case appeal_candidate finalReceiptId db of None \<Rightarrow> Inr (0, db)
     | Some (f, t) \<Rightarrow>
       if fiStatus f = FinalActive \<and> tvState t = Approved
          \<and> (case tvAppealDeadlineAt t of None \<Rightarrow> False | Some d \<Rightarrow> d \<ge> createdAt)
          \<and> participated (fiTask f) userId db
       then (if \<exists>a \<in> set (appeals db). apId a = appealId
                \<or> apTask a = fiTask f \<and> apAppellant a = userId \<and> apFinal a = fiPrimary f
             then Inl (Thrown SqlConstraint)
             else Inr (1, db\<lparr>appeals := appeals db @ [\<lparr>apId = appealId, apTask = fiTask f, apRound = fiRound f,
                    apAppellant = userId, apFinal = fiPrimary f, apEvidence = evidence, apStatus = AppealPending,
                    apReviewerSubject = None, apReviewReason = None, apCreatedAt = createdAt,
                    apReviewedAt = None\<rparr>]\<rparr>))
       else Inr (0, db))"

record account =
  acId :: ustr
  acEmailHash :: "ustr option"
  acErasurePending :: bool

definition create_consensus_appeal :: "env \<Rightarrow> account \<Rightarrow> ustr \<Rightarrow> ustr \<Rightarrow> ustr db" where
  "create_consensus_appeal env account finalReceiptId evidence =
    st_bind (st_ensure (acEmailHash account \<noteq> None) (public_error 403 EmailUnverified)) (\<lambda>_.
    st_bind (st_get (appeal_candidate finalReceiptId)) (\<lambda>found.
    st_bind (case found of None \<Rightarrow> st_throw (public_error 409 NotAppealable)
        | Some (f, t) \<Rightarrow> if fiStatus f = FinalActive \<and> tvState t = Approved then st_return (f, t)
            else st_throw (public_error 409 NotAppealable)) (\<lambda>(f, t).
    st_bind (date_now env) (\<lambda>now.
    st_bind (st_ensure (case tvAppealDeadlineAt t of None \<Rightarrow> False | Some d \<Rightarrow> d \<noteq> 0 \<and> \<not> d < now)
        (public_error 409 AppealWindowClosed)) (\<lambda>_.
    st_bind (st_get (participated (fiTask f) (acId account))) (\<lambda>eligible.
    st_bind (st_ensure eligible (public_error 403 NotAParticipant)) (\<lambda>_.
    st_bind (random_uuid env) (\<lambda>appealId.
    st_bind (date_now env) (\<lambda>createdAt.
    st_bind (st_catch (db_run (insert_appeal appealId (acId account) finalReceiptId evidence createdAt))
        (\<lambda>_. st_throw (public_error 409 AppealDuplicated))) (\<lambda>inserted.
    st_bind (st_ensure (inserted = 1) (public_error 409 AppealLost)) (\<lambda>_.
    st_bind (queue_governance_notifications env (fiTask f) ''appeal-opened''
        (JObj [(u ''taskVersionId'', JStr (fiTask f)), (u ''packetId'', JStr (tvPacketId t)),
               (u ''appealId'', JStr appealId)])
        (u ''appeal-opened:'' @ appealId)) (\<lambda>_.
    st_return appealId))))))))))))"

end
