(* ===== verification/JsText.thy ===== *)
theory JsText
  imports JsValue Patterns Utf8
begin

text \<open>
  The string functions of the language the input validators use, beyond those of \<open>JsValue\<close> and
  \<open>Patterns\<close>: \<open>String(v)\<close> with the error it can raise, \<open>Number(v)\<close>, and the replacements the
  source writes as global regular expressions over single character classes.
\<close>

section \<open>Conversion to a string\<close>

text \<open>
  \<open>String(v)\<close> calls \<open>toString\<close>, which a parsed object can shadow with a value that is not callable;
  the inherited \<open>valueOf\<close> then answers an object, and the conversion throws a \<open>TypeError\<close>.
\<close>

primrec stringable :: "jsv \<Rightarrow> bool" where
  "stringable JUndef = True"
| "stringable JNull = True"
| "stringable (JBool b) = True"
| "stringable (JNum n) = True"
| "stringable (JStr s) = True"
| "stringable (JArr vs) = list_all id (map stringable vs)"
| "stringable (JObj kvs) = list_all (\<lambda>(k, ok). k \<noteq> u ''toString'') (map (map_prod id stringable) kvs)"

definition to_string :: "jsv \<Rightarrow> 'e thrown + ustr" where
  "to_string v = (if stringable v then Inr (to_str v) else Inl TypeError)"

lemma to_string_JStr [simp]: "to_string (JStr s) = Inr s"
  by (simp add: to_string_def)

section \<open>Conversion to a number\<close>

text \<open>
  \<open>Number(v)\<close>, with \<open>None\<close> for \<open>NaN\<close> and the infinities, which no check of the source tells apart.
  A string is a numeric literal between white space: hexadecimal, octal or binary digits after
  \<open>0x\<close>, \<open>0o\<close>, \<open>0b\<close>, or a decimal with an optional sign, fraction and exponent.
\<close>

definition radix_digit :: "nat \<Rightarrow> nat \<Rightarrow> nat option" where
  "radix_digit radix c =
    (let d = (if digit c then c - 48
              else if rng CHR ''a'' CHR ''z'' c then c - 87
              else if rng CHR ''A'' CHR ''Z'' c then c - 55 else radix) in
     if d < radix then Some d else None)"

fun radix_value :: "nat \<Rightarrow> nat \<Rightarrow> ustr \<Rightarrow> nat option" where
  "radix_value radix acc [] = Some acc"
| "radix_value radix acc (c # s) = (case radix_digit radix c of None \<Rightarrow> None
     | Some d \<Rightarrow> radix_value radix (radix * acc + d) s)"

definition unsigned_radix :: "ustr \<Rightarrow> nat option" where
  "unsigned_radix s = (case s of
     z # x # rest \<Rightarrow>
       (if z = 48 \<and> rest \<noteq> [] then
          (if one_of ''xX'' x then radix_value 16 0 rest
           else if one_of ''oO'' x then radix_value 8 0 rest
           else if one_of ''bB'' x then radix_value 2 0 rest else None)
        else None)
   | _ \<Rightarrow> None)"

definition split_at :: "(nat \<Rightarrow> bool) \<Rightarrow> ustr \<Rightarrow> ustr \<times> ustr option" where
  "split_at p s = (takeWhile (\<lambda>c. \<not> p c) s,
     case dropWhile (\<lambda>c. \<not> p c) s of [] \<Rightarrow> None | c # rest \<Rightarrow> Some rest)"

definition split_sign :: "ustr \<Rightarrow> bool \<times> ustr" where
  "split_sign s = (case s of c # rest \<Rightarrow> if c = 45 then (True, rest) else if c = 43 then (False, rest) else (False, s)
     | [] \<Rightarrow> (False, []))"

definition decimal_literal :: "ustr \<Rightarrow> rat option" where
  "decimal_literal s =
    (let (neg, body) = split_sign s;
         (mant, ex) = split_at (one_of ''eE'') body;
         (whole, frac) = split_at (\<lambda>c. c = 46) mant;
         fr = (case frac of None \<Rightarrow> [] | Some f \<Rightarrow> f);
         (eneg, edigits) = (case ex of None \<Rightarrow> (False, [48]) | Some e \<Rightarrow> split_sign e) in
     if list_all digit (whole @ fr) \<and> whole @ fr \<noteq> [] \<and> list_all digit edigits \<and> edigits \<noteq> [] then
       (let e = int (digits_val edigits) * (if eneg then -1 else 1) - int (length fr);
            m = of_nat (digits_val (whole @ fr)) :: rat;
            x = (if e \<ge> 0 then m * 10 ^ nat e else m / 10 ^ nat (- e)) in
        Some (if neg then - x else x))
     else None)"

text \<open>The largest double; a literal that rounds beyond it is an infinity.\<close>

definition max_double :: rat where
  "max_double = (2 ^ 53 - 1) * 2 ^ 971"

definition finite_double :: "rat \<Rightarrow> rat option" where
  "finite_double x = (let y = fl x in if \<bar>y\<bar> \<le> max_double then Some y else None)"

definition string_number :: "ustr \<Rightarrow> rat option" where
  "string_number s0 =
    (let s = js_trim s0 in
     if s = [] then Some 0
     else case unsigned_radix s of
       Some n \<Rightarrow> finite_double (of_nat n)
     | None \<Rightarrow> Option.bind (decimal_literal s) finite_double)"

definition to_number :: "jsv \<Rightarrow> 'e thrown + rat option" where
  "to_number v = (case v of JUndef \<Rightarrow> Inr None | JNull \<Rightarrow> Inr (Some 0)
     | JBool b \<Rightarrow> Inr (Some (if b then 1 else 0)) | JNum n \<Rightarrow> Inr (Some n)
     | _ \<Rightarrow> sbind (to_string v) (\<lambda>s. Inr (string_number s)))"

text \<open>\<open>Number.isInteger(x) && lo <= x && x <= hi\<close>, after \<open>x = Number(v)\<close>.\<close>

definition integer_between :: "int \<Rightarrow> int \<Rightarrow> rat option \<Rightarrow> bool" where
  "integer_between lo hi x = (case x of None \<Rightarrow> False
     | Some n \<Rightarrow> n = of_int \<lfloor>n\<rfloor> \<and> of_int lo \<le> n \<and> n \<le> of_int hi)"

section \<open>Replacements\<close>

text \<open>\<open>s.replace(/[p]+/g, " ")\<close>: every maximal run of \<open>p\<close> becomes one space.\<close>

lemma dropWhile_shrinks [termination_simp]: "length (dropWhile p s) < Suc (length s)"
  by (simp add: less_Suc_eq_le length_dropWhile_le)

fun collapse :: "(nat \<Rightarrow> bool) \<Rightarrow> ustr \<Rightarrow> ustr" where
  "collapse p [] = []"
| "collapse p (c # s) = (if p c then 32 # collapse p (dropWhile p s) else c # collapse p s)"

text \<open>\<open>s.replace(/\r\n?/g, "\n")\<close>\<close>

fun unify_newlines :: "ustr \<Rightarrow> ustr" where
  "unify_newlines [] = []"
| "unify_newlines [c] = [if c = 13 then 10 else c]"
| "unify_newlines (c # d # s) =
     (if c = 13 then 10 # (if d = 10 then unify_newlines s else unify_newlines (d # s))
      else c # unify_newlines (d # s))"

text \<open>\<open>s.replaceAll(c, t)\<close> for single characters, one pass with all of a table.\<close>

definition subst_chars :: "(nat \<Rightarrow> ustr) \<Rightarrow> ustr \<Rightarrow> ustr" where
  "subst_chars f s = concat (map f s)"

definition replace_char :: "nat \<Rightarrow> string \<Rightarrow> ustr \<Rightarrow> ustr" where
  "replace_char c t = subst_chars (\<lambda>x. if x = c then u t else [x])"

section \<open>Laws\<close>

lemma dropWhile_same_length: "length s \<le> length (dropWhile p s) \<Longrightarrow> dropWhile p s = s"
proof -
  assume le: "length s \<le> length (dropWhile p s)"
  have "length s = length (takeWhile p s) + length (dropWhile p s)"
    by (metis length_append takeWhile_dropWhile_id)
  with le have "takeWhile p s = []" by simp
  then show ?thesis by (metis append_Nil takeWhile_dropWhile_id)
qed

lemma trim_fixed_iff: "js_trim s = s \<longleftrightarrow> s = [] \<or> \<not> js_space (hd s) \<and> \<not> js_space (last s)"
proof
  assume eq: "js_trim s = s"
  then have "length s \<le> length (dropWhile js_space s)"
    by (metis js_trim_def length_dropWhile_le length_rev)
  then have d: "dropWhile js_space s = s" by (rule dropWhile_same_length)
  with eq have "dropWhile js_space (rev s) = rev s" by (simp add: js_trim_def rev_swap)
  with d show "s = [] \<or> \<not> js_space (hd s) \<and> \<not> js_space (last s)"
    by (auto simp: dropWhile_eq_self_iff hd_rev)
next
  assume "s = [] \<or> \<not> js_space (hd s) \<and> \<not> js_space (last s)"
  then have d: "dropWhile js_space s = s" "dropWhile js_space (rev s) = rev s"
    by (auto simp: dropWhile_eq_self_iff hd_rev)
  show "js_trim s = s" by (simp add: js_trim_def d)
qed

lemma collapse_fixed: "list_all (\<lambda>c. \<not> p c) s \<Longrightarrow> collapse p s = s"
  by (induction s) auto

lemma unify_newlines_no_return: "13 \<notin> set (unify_newlines s)"
  by (induction s rule: unify_newlines.induct) auto

lemma unify_newlines_id: "13 \<notin> set s \<Longrightarrow> unify_newlines s = s"
  by (induction s rule: unify_newlines.induct) auto

section \<open>Texts a pattern cannot match\<close>

text \<open>\<open>needs p r\<close>: every match of \<open>r\<close> has a character in \<open>p\<close>.\<close>

fun needs :: "(nat \<Rightarrow> bool) \<Rightarrow> rx \<Rightarrow> bool" where
  "needs p RNone \<longleftrightarrow> True"
| "needs p REps \<longleftrightarrow> False"
| "needs p (RCls q) \<longleftrightarrow> (\<forall>c. q c \<longrightarrow> p c)"
| "needs p (RSeq r t) \<longleftrightarrow> needs p r \<or> needs p t"
| "needs p (RAlt r t) \<longleftrightarrow> needs p r \<and> needs p t"
| "needs p (RStar r) \<longleftrightarrow> False"

lemma needs_match: "in_lang r s \<Longrightarrow> needs p r \<Longrightarrow> list_ex p s"
  by (induction rule: in_lang.induct) auto

lemma search_needs: "rx_search before after r s \<Longrightarrow> needs p r \<Longrightarrow> list_ex p s"
  unfolding rx_search_def list_ex_iff matches_in_lang
  by (fastforce dest: needs_match in_set_takeD in_set_dropD simp: list_ex_iff)

definition plain_char :: "nat \<Rightarrow> bool" where
  "plain_char c \<longleftrightarrow> c = 32 \<or> rng CHR ''a'' CHR ''z'' c \<or> rng CHR ''A'' CHR ''Z'' c"

lemma plain_text_safe: "list_all plain_char s \<Longrightarrow> \<not> contains_unsafe_public_text s"
proof -
  have n: "needs (\<lambda>c. \<not> plain_char c) EMAIL_PATTERN" "needs (\<lambda>c. \<not> plain_char c) PHONE_PATTERN"
    "needs (\<lambda>c. \<not> plain_char c) RAW_HTML_PATTERN" "needs (\<lambda>c. \<not> plain_char c) MARKDOWN_IMAGE_PATTERN"
    "needs (\<lambda>c. \<not> plain_char c) UNSAFE_URL_PATTERN" "needs (\<lambda>c. \<not> plain_char c) CONTROL_PATTERN"
    by (auto simp: EMAIL_PATTERN_def PHONE_PATTERN_def RAW_HTML_PATTERN_def MARKDOWN_IMAGE_PATTERN_def
        UNSAFE_URL_PATTERN_def CONTROL_PATTERN_def ratleast_def numeral_eq_Suc plain_char_def rng_def digit_def
        control_char_def)
  assume "list_all plain_char s"
  then have "\<not> list_ex (\<lambda>c. \<not> plain_char c) s" by (auto simp: list_all_iff list_ex_iff)
  with n show ?thesis unfolding contains_unsafe_public_text_def by (auto dest: search_needs)
qed

end
