(* ===== verification/Verification.thy ===== *)
theory Verification
  imports JsText "HOL-Library.Word"
begin

text \<open>
  \<open>src/email-verification.js\<close>: normalising an address and a code, and drawing a code without bias.
  Unicode tables are parameters (\<open>normalize("NFKC")\<close> and \<open>toLowerCase\<close>); the random source is the
  sequence of 32-bit words it delivers.
\<close>

datatype verification_error = AddressInvalid | CodeInvalid

definition EMAIL_CODE_TTL_MS :: int where "EMAIL_CODE_TTL_MS = 5 * 60 * 1000"
definition EMAIL_TOKEN_TTL_MS :: int where "EMAIL_TOKEN_TTL_MS = 30 * 60 * 1000"
definition EMAIL_RESEND_COOLDOWN_MS :: int where "EMAIL_RESEND_COOLDOWN_MS = 60 * 1000"
definition EMAIL_MAX_ATTEMPTS :: nat where "EMAIL_MAX_ATTEMPTS = 5"
definition EMAIL_MAX_SENDS_PER_ADDRESS_HOUR :: nat where "EMAIL_MAX_SENDS_PER_ADDRESS_HOUR = 5"
definition EMAIL_MAX_SENDS_PER_REQUESTER_HOUR :: nat where "EMAIL_MAX_SENDS_PER_REQUESTER_HOUR = 20"

record unicode =
  unNfkc :: "ustr \<Rightarrow> ustr"
  unLower :: "ustr \<Rightarrow> ustr"

text \<open>\<open>String(value || "")\<close>\<close>

definition text_or_empty :: "jsv \<Rightarrow> 'e thrown + ustr" where
  "text_or_empty v = to_string (js_or v (JStr []))"

definition normalize_verification_email :: "unicode \<Rightarrow> jsv \<Rightarrow> verification_error thrown + ustr" where
  "normalize_verification_email un value =
    sbind (text_or_empty value) (\<lambda>s.
    let email = unLower un (js_trim (unNfkc un s)) in
    if length email < 5 \<or> length email > 160 \<or> \<not> matches EMAIL_PATTERN (code_points email)
    then Inl (Thrown AddressInvalid) else Inr email)"

definition CODE_PATTERN :: rx where
  "CODE_PATTERN = rtimes 6 (RCls digit)"

definition normalize_verification_code :: "jsv \<Rightarrow> verification_error thrown + ustr" where
  "normalize_verification_code value =
    sbind (text_or_empty value) (\<lambda>s.
    let code = js_trim s in
    if \<not> matches CODE_PATTERN code then Inl (Thrown CodeInvalid) else Inr code)"

section \<open>Drawing a code\<close>

definition LARGEST_UNBIASED :: nat where "LARGEST_UNBIASED = 4294000000"

definition code_text :: "nat \<Rightarrow> ustr" where
  "code_text n = (let s = nat_str n in replicate (6 - length s) 48 @ s)"

text \<open>
  The \<open>do \<dots> while\<close> loop over the words of the random source: \<open>None\<close> when none of the first
  \<open>length words\<close> words is below the bound.
\<close>

fun generate_verification_code :: "32 word list \<Rightarrow> ustr option" where
  "generate_verification_code [] = None"
| "generate_verification_code (w # ws) =
     (if unat w \<ge> LARGEST_UNBIASED then generate_verification_code ws
      else Some (code_text (unat w mod 1000000)))"

section \<open>Codes\<close>

lemma code_pattern_iff: "matches CODE_PATTERN s \<longleftrightarrow> length s = 6 \<and> list_all digit s"
  unfolding CODE_PATTERN_def matches_in_lang in_lang_rtimes by blast

lemma digit_iff: "digit c \<longleftrightarrow> 48 \<le> c \<and> c \<le> 57"
  by (simp add: digit_def rng_def)

lemma digits_val_acc: "foldl (\<lambda>a d. 10 * a + (d - 48)) a ds = a * 10 ^ length ds + digits_val ds" for ds :: ustr
proof (induction ds arbitrary: a)
  case (Cons d ds)
  show ?case
    using Cons[of "10 * a + (d - 48)"] Cons[of "d - 48"] by (simp add: digits_val_def algebra_simps)
qed (simp add: digits_val_def)

lemma digits_val_Cons: "digits_val (d # ds) = (d - 48) * 10 ^ length ds + digits_val ds"
  using digits_val_acc[of "d - 48" ds] by (simp add: digits_val_def)

lemma digits_val_bound: "list_all digit s \<Longrightarrow> digits_val s < 10 ^ length s"
proof (induction s)
  case (Cons d s)
  then have "(d - 48) * 10 ^ length s \<le> 9 * 10 ^ length s" "digits_val s < 10 ^ length s"
    by (auto simp: digit_iff)
  then have "(d - 48) * 10 ^ length s + digits_val s < 9 * 10 ^ length s + 10 ^ length s" by linarith
  then show ?case by (simp add: digits_val_Cons)
qed (simp add: digits_val_def)

lemma digits_val_inject:
  "\<lbrakk>length s = length t; list_all digit s; list_all digit t; digits_val s = digits_val t\<rbrakk> \<Longrightarrow> s = t"
proof (induction s arbitrary: t)
  case (Cons c s)
  then obtain d r where t: "t = d # r" by (cases t) auto
  let ?p = "10 ^ length s :: nat"
  have lt: "digits_val s < ?p" "digits_val r < ?p" using Cons.prems t digits_val_bound[of s] digits_val_bound[of r] by auto
  have eq: "(c - 48) * ?p + digits_val s = (d - 48) * ?p + digits_val r"
    using Cons.prems t by (simp add: digits_val_Cons)
  have "((c - 48) * ?p + digits_val s) div ?p = c - 48" "((d - 48) * ?p + digits_val r) div ?p = d - 48"
    using lt by simp_all
  then have "c - 48 = d - 48" using eq by simp
  moreover have "digits_val s = digits_val r" using eq calculation by simp
  ultimately show ?case using Cons t by (auto simp: digit_iff)
qed simp

lemma digits_val_code_text: "digits_val (code_text n) = n"
proof -
  have "digits_val (replicate k 48 @ s) = digits_val s" for k s by (induction k) (simp_all add: digits_val_Cons)
  then show ?thesis by (simp add: code_text_def Let_def)
qed

lemma nat_str_length: "n < 10 ^ k \<Longrightarrow> 0 < k \<Longrightarrow> length (nat_str n) \<le> k"
proof (induction k arbitrary: n)
  case (Suc k)
  show ?case
  proof (cases "n < 10")
    case False
    then have "n div 10 < 10 ^ k" "0 < k" using Suc.prems by (cases k; simp)+
    with Suc.IH have "length (nat_str (n div 10)) \<le> k" by blast
    then show ?thesis using False by (subst nat_str.simps) simp
  qed (subst nat_str.simps, simp)
qed simp

lemma code_text_digits: "n < 1000000 \<Longrightarrow> length (code_text n) = 6 \<and> list_all digit (code_text n)"
  using nat_str_length[of n 6] nat_str_digits[of _ n] by (auto simp: code_text_def Let_def list_all_iff digit_iff)

lemma code_text_digits_val:
  assumes "length s = 6" "list_all digit s"
  shows "code_text (digits_val s) = s"
proof -
  have "digits_val s < 1000000" using digits_val_bound[OF assms(2)] assms(1) by simp
  from code_text_digits[OF this] assms show ?thesis
    by (intro digits_val_inject) (simp_all add: digits_val_code_text)
qed

lemma digits_not_space: "list_all digit s \<Longrightarrow> js_trim s = s"
proof (cases "s = []")
  case False
  assume "list_all digit s"
  then have "digit (hd s)" "digit (last s)" using False by (auto simp: list_all_iff)
  then show ?thesis by (auto simp: trim_fixed_iff digit_iff js_space_def)
qed (simp add: js_trim_def)

lemma unat_code_word: "j < 4294 \<Longrightarrow> k < 1000000 \<Longrightarrow> unat (word_of_nat (j * 1000000 + k) :: 32 word) = j * 1000000 + k"
  by (subst unat_of_nat) simp

lemma code_words:
  assumes "k < 1000000"
  shows "{w :: 32 word. unat w < LARGEST_UNBIASED \<and> unat w mod 1000000 = k}
    = (\<lambda>j. word_of_nat (j * 1000000 + k)) ` {..<4294}"
proof -
  have small: "unat (word_of_nat (j * 1000000 + k) :: 32 word) = j * 1000000 + k" if "j < 4294" for j
    using that assms by (rule unat_code_word)
  show ?thesis
  proof (intro set_eqI iffI)
    fix w :: "32 word"
    assume "w \<in> {w. unat w < LARGEST_UNBIASED \<and> unat w mod 1000000 = k}"
    then have w: "unat w < 4294000000" "unat w mod 1000000 = k" by (simp_all add: LARGEST_UNBIASED_def)
    have "unat w div 1000000 < 4294" using w(1) by simp
    moreover have "w = word_of_nat (unat w div 1000000 * 1000000 + k)"
    proof -
      have "unat w div 1000000 * 1000000 + k = unat w" using w(2) by (metis div_mult_mod_eq)
      then show ?thesis by (simp only: of_nat_unat ucast_id)
    qed
    ultimately show "w \<in> (\<lambda>j. word_of_nat (j * 1000000 + k)) ` {..<4294}" by blast
  next
    fix w :: "32 word"
    assume "w \<in> (\<lambda>j. word_of_nat (j * 1000000 + k)) ` {..<4294}"
    then obtain j where "j < 4294" "w = word_of_nat (j * 1000000 + k)" by auto
    with small assms show "w \<in> {w. unat w < LARGEST_UNBIASED \<and> unat w mod 1000000 = k}"
      by (simp add: LARGEST_UNBIASED_def)
  qed
qed

lemma card_code_words:
  assumes "k < 1000000"
  shows "card {w :: 32 word. unat w < LARGEST_UNBIASED \<and> unat w mod 1000000 = k} = 4294"
proof -
  have "inj_on (\<lambda>j. word_of_nat (j * 1000000 + k) :: 32 word) {..<4294}"
  proof (rule inj_onI)
    fix i j :: nat
    assume ij: "i \<in> {..<4294}" "j \<in> {..<4294}" and eq: "(word_of_nat (i * 1000000 + k) :: 32 word) = word_of_nat (j * 1000000 + k)"
    have "i * 1000000 + k = j * 1000000 + k"
      using ij unat_code_word[of i k] unat_code_word[of j k] assms arg_cong[OF eq, of unat] by simp
    then show "i = j" by simp
  qed
  then show ?thesis unfolding code_words[OF assms] by (simp add: card_image)
qed

lemma generated_code:
  "generate_verification_code ws = Some c \<Longrightarrow> \<exists>n < 1000000. c = code_text n"
proof (induction ws rule: generate_verification_code.induct)
  case (2 w ws)
  have "unat w mod 1000000 < 1000000" by simp
  with 2 show ?case by (auto split: if_splits simp del: mod_less_divisor)
qed simp

lemma generate_one:
  assumes "length c = 6" "list_all digit c"
  shows "{w. generate_verification_code [w] = Some c}
    = {w :: 32 word. unat w < LARGEST_UNBIASED \<and> unat w mod 1000000 = digits_val c}"
  using code_text_digits_val[OF assms] digits_val_code_text by (auto split: if_splits)

text \<open>
  C30. Verification codes are drawn without bias and survive entry: every code the loop answers is
  six digits that normalise to themselves, and each of the million codes is answered for exactly
  4294 of the values of an accepted 32-bit word; a word at or above the bound is skipped.
\<close>

theorem codes_unbiased:
  "(\<forall>c. generate_verification_code ws = Some c \<longrightarrow> normalize_verification_code (JStr c) = Inr c)
   \<and> (\<forall>c. matches CODE_PATTERN c \<longrightarrow> card {w. generate_verification_code [w] = Some c} = 4294)
   \<and> (generate_verification_code ws = None \<longleftrightarrow> list_all (\<lambda>w. unat w \<ge> LARGEST_UNBIASED) ws)"
proof (intro conjI allI impI)
  fix c
  assume "generate_verification_code ws = Some c"
  then obtain n where "n < 1000000" "c = code_text n" using generated_code by blast
  with code_text_digits have c: "length c = 6" "list_all digit c" by blast+
  then have "c \<noteq> []" "matches CODE_PATTERN c" by (auto simp: code_pattern_iff)
  then show "normalize_verification_code (JStr c) = Inr c"
    using digits_not_space[OF c(2)] by (simp add: normalize_verification_code_def text_or_empty_def js_or_def Let_def)
next
  fix c
  assume "matches CODE_PATTERN c"
  then have c: "length c = 6" "list_all digit c" by (simp_all add: code_pattern_iff)
  have "digits_val c < 1000000" using digits_val_bound[OF c(2)] c(1) by simp
  then show "card {w. generate_verification_code [w] = Some c} = 4294"
    unfolding generate_one[OF c] by (rule card_code_words)
next
  show "generate_verification_code ws = None \<longleftrightarrow> list_all (\<lambda>w. unat w \<ge> LARGEST_UNBIASED) ws"
    by (induction ws) auto
qed

theorem codes_unbiased_witness:
  "matches CODE_PATTERN (u ''000042'') \<and> card {w. generate_verification_code [w] = Some (u ''000042'')} = 4294
   \<and> generate_verification_code [4294967295, 7000042] = Some (u ''000042'')"
proof -
  have m: "matches CODE_PATTERN (u ''000042'')" by (subst code_pattern_iff) (simp add: u_def digit_iff)
  have "generate_verification_code [4294967295, 7000042] = Some (u ''000042'')"
  proof -
    have "replicate 4 (48 :: nat) = [48, 48, 48, 48]" by code_simp
    then show ?thesis by (simp add: LARGEST_UNBIASED_def code_text_def nat_str.simps u_def)
  qed
  with m codes_unbiased show ?thesis by blast
qed

end
