(* ===== verification/Intake.thy ===== *)
theory Intake
  imports Store JsText Verification
begin

text \<open>
  The input validators of \<open>src/index.js\<close>: account profiles and consents, draft keys and progress, and
  the envelope of a submission. Each answers the normalised value, a \<open>PublicError\<close> with its HTTP
  status, or the \<open>TypeError\<close> of a property read on a missing object.
\<close>

type_synonym 'a answer = "store_error thrown + 'a"

abbreviation refuse :: "nat \<Rightarrow> problem \<Rightarrow> 'a answer" where
  "refuse status p \<equiv> Inl (public_error status p)"

section \<open>Fields\<close>

definition normalized_text :: "jsv \<Rightarrow> nat \<Rightarrow> nat \<Rightarrow> ustr answer" where
  "normalized_text value minimum maximum =
    (case value of JStr s \<Rightarrow>
       (let normalized = js_trim s in
        if length normalized < minimum \<or> length normalized > maximum then refuse 400 FieldInvalid
        else Inr normalized)
     | _ \<Rightarrow> refuse 400 FieldInvalid)"

definition is_uuid :: "jsv \<Rightarrow> bool" where
  "is_uuid value = (case value of JStr s \<Rightarrow> matches (UUID_PATTERN (\<lambda>c. c = 52)) s | _ \<Rightarrow> False)"

definition required_id :: "jsv \<Rightarrow> ustr answer" where
  "required_id value = (if is_uuid value then Inr (js_string value) else refuse 400 FieldInvalid)"

primrec contains_key :: "ustr list \<Rightarrow> jsv \<Rightarrow> bool" where
  "contains_key ks JUndef = False"
| "contains_key ks JNull = False"
| "contains_key ks (JBool b) = False"
| "contains_key ks (JNum n) = False"
| "contains_key ks (JStr s) = False"
| "contains_key ks (JArr vs) = list_ex id (map (contains_key ks) vs)"
| "contains_key ks (JObj kvs) =
     list_ex (\<lambda>(key, below). key \<in> set ks \<or> below) (map (map_prod id (contains_key ks)) kvs)"

text \<open>The errors of \<open>email-verification.js\<close>, any of them, become a refusal.\<close>

definition as_refusal :: "'e + 'a \<Rightarrow> 'a answer" where
  "as_refusal r = (case r of Inl e \<Rightarrow> refuse 400 FieldInvalid | Inr x \<Rightarrow> Inr x)"

definition verified_email :: "unicode \<Rightarrow> jsv \<Rightarrow> ustr answer" where
  "verified_email un value = as_refusal (normalize_verification_email un value)"

definition verified_email_code :: "jsv \<Rightarrow> ustr answer" where
  "verified_email_code value = as_refusal (normalize_verification_code value)"

text \<open>\<open>v == null || String(v).trim() === ""\<close>\<close>

definition blank :: "jsv \<Rightarrow> bool answer" where
  "blank v = (if nullish v then Inr True else sbind (to_string v) (\<lambda>s. Inr (js_trim s = [])))"

definition optional_text :: "jsv \<Rightarrow> nat \<Rightarrow> nat \<Rightarrow> ustr option answer" where
  "optional_text v minimum maximum = sbind (blank v) (\<lambda>b.
     if b then Inr None else sbind (normalized_text v minimum maximum) (\<lambda>s. Inr (Some s)))"

section \<open>Social accounts\<close>

definition SOCIAL_ACCOUNT_KEYS :: "string list" where
  "SOCIAL_ACCOUNT_KEYS = [''whatsapp'', ''x'', ''tiktok'', ''instagram'', ''threads'', ''telegram'',
     ''snapchat'', ''facebook'', ''linkedin'', ''youtube'', ''bluesky'', ''otherPlatform'', ''otherUsername'']"

definition HANDLE_PATTERN :: rx where
  "HANDLE_PATTERN = rrange 1 80 (RCls (\<lambda>c. \<not> js_space c \<and> \<not> one_of ''/@?#'' c))"

definition WHATSAPP_PATTERN :: rx where
  "WHATSAPP_PATTERN = RSeq (RCls (rng CHR ''a'' CHR ''z''))
     (rrange 2 34 (RCls (\<lambda>c. rng CHR ''a'' CHR ''z'' c \<or> digit c \<or> one_of ''._'' c)))"

definition handle_of :: "jsv \<Rightarrow> ustr option answer" where
  "handle_of raw = sbind (blank raw) (\<lambda>b. if b then Inr None else
     sbind (to_string raw) (\<lambda>s.
     let handle = dropWhile (\<lambda>c. c = of_char CHR ''@'') (js_trim s) in
     if matches HANDLE_PATTERN (code_points handle) then Inr (Some handle)
     else refuse 400 FieldInvalid))"

definition social_handle :: "jsv \<Rightarrow> (ustr \<times> ustr) list \<Rightarrow> string \<Rightarrow> (ustr \<times> ustr) list answer" where
  "social_handle value acc key =
    (if key = ''otherPlatform'' then Inr acc
     else sbind (handle_of (dot value key)) (\<lambda>h.
       Inr (case h of None \<Rightarrow> acc | Some handle \<Rightarrow> acc @ [(u key, handle)])))"

definition own_keys :: "jsv \<Rightarrow> ustr list" where
  "own_keys v = (case v of JObj kvs \<Rightarrow> map fst kvs | _ \<Rightarrow> [])"

definition validate_social_accounts :: "jsv \<Rightarrow> (ustr \<times> ustr) list answer" where
  "validate_social_accounts value =
    (if nullish value then Inr []
     else if \<not> js_is_plain_object value then refuse 400 FieldInvalid
     else if \<not> list_all (\<lambda>k. k \<in> set (map u SOCIAL_ACCOUNT_KEYS)) (own_keys value) then refuse 400 FieldInvalid
     else sbind (foldE (social_handle value) [] SOCIAL_ACCOUNT_KEYS) (\<lambda>normalized.
       if (case map_of normalized (u ''whatsapp'') of None \<Rightarrow> False | Some w \<Rightarrow> \<not> matches WHATSAPP_PATTERN w)
       then refuse 400 FieldInvalid
       else sbind (optional_text (dot value ''otherPlatform'') 2 40) (\<lambda>otherPlatform.
         if (otherPlatform \<noteq> None) \<noteq> (map_of normalized (u ''otherUsername'') \<noteq> None)
         then refuse 400 FieldInvalid
         else Inr (case otherPlatform of None \<Rightarrow> normalized
           | Some p \<Rightarrow> normalized @ [(u ''otherPlatform'', p)]))))"

section \<open>Profile and consent\<close>

record profile =
  pfFullName :: ustr
  pfEmail :: ustr
  pfExperienceYears :: int
  pfSpecialization :: ustr
  pfAffiliation :: "ustr option"
  pfSocialAccounts :: "(ustr \<times> ustr) list"

definition SPECIALIZATIONS :: "string list" where
  "SPECIALIZATIONS = [''grammar'', ''morphology'', ''arabic-education'', ''quranic-arabic'', ''linguistics'', ''other'']"

definition validate_account_profile :: "unicode \<Rightarrow> jsv \<Rightarrow> profile answer" where
  "validate_account_profile un v =
    (if \<not> js_is_plain_object v then refuse 400 FieldInvalid
     else sbind (normalized_text (dot v ''fullName'') 2 120) (\<lambda>fullName.
     sbind (verified_email un (dot v ''email'')) (\<lambda>email.
     sbind (to_number (dot v ''experienceYears'')) (\<lambda>years.
     sbind (normalized_text (dot v ''specialization'') 2 40) (\<lambda>specialization.
     if \<not> integer_between 0 80 years then refuse 400 FieldInvalid
     else if specialization \<notin> set (map u SPECIALIZATIONS) then refuse 400 FieldInvalid
     else sbind (optional_text (dot v ''affiliation'') 1 160) (\<lambda>affiliation.
       sbind (validate_social_accounts (dot v ''socialAccounts'')) (\<lambda>socialAccounts.
       Inr \<lparr>pfFullName = fullName, pfEmail = email, pfExperienceYears = \<lfloor>the years\<rfloor>,
            pfSpecialization = specialization, pfAffiliation = affiliation,
            pfSocialAccounts = socialAccounts\<rparr>)))))))"

record consent =
  cnIdentityStorage :: bool
  cnFutureContact :: bool
  cnDiscussionNotifications :: bool

definition js_true :: "jsv \<Rightarrow> bool" where
  "js_true v \<longleftrightarrow> v = JBool True"

definition js_false :: "jsv \<Rightarrow> bool" where
  "js_false v \<longleftrightarrow> v = JBool False"

definition validate_account_consent :: "jsv \<Rightarrow> consent answer" where
  "validate_account_consent v =
    (if \<not> js_true (dot v ''identityStorage'') then refuse 400 FieldInvalid
     else Inr \<lparr>cnIdentityStorage = True, cnFutureContact = js_true (dot v ''futureContact''),
       cnDiscussionNotifications = js_true (dot v ''discussionNotifications'')\<rparr>)"

section \<open>Drafts\<close>

definition validate_draft_key :: "jsv \<Rightarrow> jsv \<Rightarrow> (ustr \<times> ustr) answer" where
  "validate_draft_key packetId role =
    sbind (normalized_text packetId 1 160) (\<lambda>normalizedPacketId.
    if list_ex (str_is role) [''A'', ''B'', ''adjudication'', ''ratification'']
    then Inr (normalizedPacketId, js_string role) else refuse 400 FieldInvalid)"

definition has_draft_value :: "jsv \<Rightarrow> bool answer" where
  "has_draft_value value = sbind (blank value) (\<lambda>b. Inr (\<not> b))"

record progress =
  prCompleted :: nat
  prTotal :: nat
  prPercentage :: int

text \<open>\<open>Math.round\<close> rounds halves up.\<close>

definition js_round :: "rat \<Rightarrow> int" where
  "js_round x = \<lfloor>x + 1 / 2\<rfloor>"

definition progress_of :: "nat \<Rightarrow> nat \<Rightarrow> progress" where
  "progress_of completed n = \<lparr>prCompleted = completed, prTotal = n,
     prPercentage = (if n = 0 then 0
       else js_round (fmul (fdiv (of_nat completed) (of_nat n)) 100))\<rparr>"

definition count_value :: "nat \<times> nat \<Rightarrow> jsv \<Rightarrow> (nat \<times> nat) answer" where
  "count_value acc value = sbind (has_draft_value value) (\<lambda>b.
     Inr (if b then fst acc + 1 else fst acc, snd acc + 1))"

definition token_values :: "jsv \<Rightarrow> jsv list" where
  "token_values token =
     [dot token ''upos'', dot token ''head'', dot token ''relation'', dot token ''irabCategory'']
     @ (if str_is (dot token ''irabCategory'') ''_'' then [] else [dot token ''irabHead''])"

definition count_token :: "nat \<times> nat \<Rightarrow> jsv \<Rightarrow> (nat \<times> nat) answer" where
  "count_token acc token =
    (if nullish token then Inl TypeError else foldE count_value acc (token_values token))"

definition count_sentence :: "nat \<times> nat \<Rightarrow> jsv \<Rightarrow> (nat \<times> nat) answer" where
  "count_sentence acc sentence =
    (if nullish sentence then Inl TypeError
     else sbind (foldE count_value acc [dot sentence ''structural'', dot sentence ''predicate'']) (\<lambda>acc.
       sbind (iter (js_or (dot sentence ''tokens'') (JArr []))) (foldE count_token acc)))"

text \<open>\<open>fields.find(field => field.kind === "ratification") || {}\<close>\<close>

fun find_ratification :: "jsv list \<Rightarrow> jsv answer" where
  "find_ratification [] = Inr (JObj [])"
| "find_ratification (x # xs) =
     (if nullish x then Inl TypeError
      else if str_is (dot x ''kind'') ''ratification'' then Inr x else find_ratification xs)"

definition ratification_progress :: "jsv \<Rightarrow> progress answer" where
  "ratification_progress value =
    sbind (text_or_empty (dot value ''rationale'')) (\<lambda>rationale.
    Inr (progress_of
      ((if is_uuid (dot value ''primaryReceiptId'') then 1 else 0)
       + (if list_ex (str_is (dot value ''decision'')) [''agree'', ''disagree'', ''recuse''] then 1 else 0)
       + (if length (js_trim rationale) \<ge> 20 then 1 else 0)) 3))"

definition calculate_draft_progress :: "jsv \<Rightarrow> progress answer" where
  "calculate_draft_progress draft =
    (if nullish draft then Inl TypeError
     else if str_is (dot draft ''role'') ''ratification'' then
       (case js_or (dot draft ''fields'') (JArr []) of
          JArr xs \<Rightarrow> sbind (find_ratification xs) ratification_progress
        | _ \<Rightarrow> Inl TypeError)
     else sbind (iter (js_or (dot draft ''fields'') (JArr []))) (\<lambda>sentences.
       sbind (foldE count_sentence (0, 0) sentences) (\<lambda>(completed, n).
       Inr (progress_of completed n))))"

section \<open>The envelope of a submission\<close>

definition PII_KEYS :: "ustr list" where
  "PII_KEYS = map u [''fullName'', ''email'', ''phone'', ''affiliation'', ''socialAccounts'', ''whatsapp'',
     ''x'', ''tiktok'', ''instagram'', ''threads'', ''telegram'', ''snapchat'', ''facebook'', ''linkedin'',
     ''youtube'', ''bluesky'', ''otherPlatform'', ''otherUsername'']"

definition FORBIDDEN_ANALYSIS_KEYS :: "ustr list" where
  "FORBIDDEN_ANALYSIS_KEYS = map u [''analysis'', ''candidateAware'', ''dependencyGraph'', ''evaluation'',
     ''morphology'', ''parse'', ''parserOutput'', ''parserPredictions'', ''predictions'', ''strictTag'']"

definition SHA256_PATTERN :: rx where
  "SHA256_PATTERN = rtimes 64 (RCls lower_hex)"

text \<open>\<open>pattern.test(v || "")\<close>\<close>

definition test_or_empty :: "rx \<Rightarrow> jsv \<Rightarrow> bool answer" where
  "test_or_empty r v = sbind (text_or_empty v) (\<lambda>s. Inr (matches r s))"

text \<open>\<open>artifact.k.f\<close>\<close>

definition inner :: "jsv \<Rightarrow> string \<Rightarrow> string \<Rightarrow> jsv answer" where
  "inner artifact k f = sbind (field artifact (u k)) (\<lambda>v. field v (u f))"

definition pseudonym_matches :: "ustr \<Rightarrow> jsv \<Rightarrow> bool answer" where
  "pseudonym_matches prefix artifact =
    (let human = u ''human-'' @ prefix @ u ''-'' in
     if str_is (dot artifact ''kind'') ''independent-annotation'' then
       sbind (inner artifact ''annotation'' ''annotatorSlot'') (\<lambda>slot.
       sbind (to_string slot) (\<lambda>s.
       Inr (dot (dot artifact ''annotation'') ''annotatorPseudonym'' = JStr (human @ s))))
     else if str_is (dot artifact ''kind'') ''adjudication-package'' then
       sbind (inner artifact ''adjudication'' ''adjudicatorPseudonym'') (\<lambda>p. Inr (p = JStr (human @ u ''J1'')))
     else
       sbind (inner artifact ''ratification'' ''reviewerPseudonym'') (\<lambda>p. Inr (p = JStr (human @ u ''J2''))))"

definition attestation_ok :: "bool \<Rightarrow> jsv \<Rightarrow> bool" where
  "attestation_ok operationalTest a \<longleftrightarrow>
     (if operationalTest then js_false (dot a ''independent'') \<and> js_false (dot a ''blind'')
      else js_true (dot a ''independent'') \<and> js_true (dot a ''blind'')) \<and> js_true (dot a ''authentic'')"

definition artifact_admissible :: "jsv \<Rightarrow> bool" where
  "artifact_admissible artifact \<longleftrightarrow> truthy artifact
   \<and> str_is (dot artifact ''schema'') ''adg-msa-portal-artifact-v1''
   \<and> list_ex (str_is (dot artifact ''kind''))
       [''independent-annotation'', ''adjudication-package'', ''ratification-package'']
   \<and> \<not> contains_key PII_KEYS artifact \<and> \<not> contains_key FORBIDDEN_ANALYSIS_KEYS artifact"

definition operational_mode_ok :: "jsv \<Rightarrow> bool" where
  "operational_mode_ok v \<longleftrightarrow>
    (let artifact = dot v ''artifact''; packet = dot artifact ''packet''; annotation = dot artifact ''annotation'' in
     str_is (dot v ''submissionMode'') ''operational-test''
     \<and> str_is (dot artifact ''kind'') ''independent-annotation''
     \<and> js_true (dot packet ''pilotOnly'') \<and> js_true (dot packet ''developerVisible'')
     \<and> js_true (dot annotation ''isHuman'') \<and> js_false (dot annotation ''isSynthetic'')
     \<and> js_false (dot annotation ''independentFromImplementationTeam'')
     \<and> js_false (dot annotation ''blindToParserInternals''))"

definition envelope_ok :: "jsv \<Rightarrow> bool answer" where
  "envelope_ok v =
    (if \<not> truthy v \<or> \<not> str_is (dot v ''schema'') ''adg-msa-portal-submission-v1''
        \<or> \<not> is_uuid (dot v ''participantId'')
        \<or> \<not> strict_eq (dot v ''artifactType'') (dot (dot v ''artifact'') ''kind'') then Inr False
     else sbind (test_or_empty SHA256_PATTERN (dot v ''artifactSha256'')) (\<lambda>b.
       Inr (b \<and> js_is_string (dot v ''clientVersion''))))"

definition validate_submission :: "unicode \<Rightarrow> bool \<Rightarrow> jsv \<Rightarrow> unit answer" where
  "validate_submission un operationalTest v =
    sbind (envelope_ok v) (\<lambda>ok.
    if \<not> ok then refuse 400 EnvelopeInvalid
    else let artifact = dot v ''artifact''; prefix = take 12 (js_string (dot v ''participantId'')) in
    if nullish artifact then Inl TypeError
    else sbind (pseudonym_matches prefix artifact) (\<lambda>same.
    if \<not> same then refuse 400 PseudonymMismatch
    else sbind (validate_account_profile un (dot v ''profile'')) (\<lambda>_.
    if \<not> js_true (dot (dot v ''consent'') ''identityStorage'')
       \<or> \<not> attestation_ok operationalTest (dot v ''attestation'') then refuse 400 AttestationIncomplete
    else if \<not> js_is_string (dot v ''turnstileToken'') \<or> js_string (dot v ''turnstileToken'') = []
       \<or> length (js_string (dot v ''turnstileToken'')) > 4096 then refuse 400 ChallengeTokenInvalid
    else if \<not> artifact_admissible artifact then refuse 400 ArtifactRefused
    else if operationalTest \<and> \<not> operational_mode_ok v then refuse 400 OperationalModeInvalid
    else if \<not> operationalTest \<and> str_is (dot v ''submissionMode'') ''operational-test'' then refuse 400 WrongLane
    else Inr ())))"

section \<open>The artifact of a submission\<close>

text \<open>Whatever the protocol validators throw becomes one refusal with its message.\<close>

definition validate_artifact_for_server :: "(nat list \<Rightarrow> ustr) \<Rightarrow> jsv \<Rightarrow> unit answer" where
  "validate_artifact_for_server sha256 artifact =
    (case sbind (validate_public_artifact_text artifact) (\<lambda>_.
        if nullish artifact then Inl TypeError
        else if str_is (dot artifact ''kind'') ''independent-annotation'' then
          validate_submission_binding sha256 (dot artifact ''packet'') (dot artifact ''annotation'')
        else if str_is (dot artifact ''kind'') ''adjudication-package'' then
          validate_adjudication_binding sha256 (dot artifact ''packet'') (dot artifact ''annotationA'')
            (dot artifact ''annotationB'') (dot artifact ''adjudication'')
        else validate_ratification_binding sha256 (dot artifact ''primaryArtifact'') (dot artifact ''ratification'')) of
       Inr _ \<Rightarrow> Inr () | Inl e \<Rightarrow> refuse 400 StructureInvalid)"

text \<open>The fields of a packet that passed \<open>validatePacket\<close>, at their types.\<close>

definition packet_of_json :: "jsv \<Rightarrow> packet_binding" where
  "packet_of_json p =
    \<lparr>pkTaskId = js_string (dot p ''taskId''), pkTaskVersion = \<lfloor>num_of (dot p ''taskVersion'')\<rfloor>,
     pkPacketId = js_string (dot p ''packetId''), pkHoldoutId = js_string (dot p ''holdoutId''),
     pkGuidelineVersion = js_string (dot p ''guidelineVersion''), pkDataVersion = js_string (dot p ''dataVersion''),
     pkProtocolVersion = js_string (dot p ''protocolVersion''), pkMetricPolicy = dot p ''metricPolicy''\<rparr>"

record task_request =
  rqPacketId :: ustr
  rqRoleText :: ustr
  rqPacket :: packet_binding
  rqPacketRoot :: ustr
  rqIdentity :: task_identity
  rqRole :: crole

definition artifact_role :: "jsv \<Rightarrow> jsv" where
  "artifact_role artifact =
    (if str_is (dot artifact ''kind'') ''independent-annotation'' then dot (dot artifact ''annotation'') ''annotatorSlot''
     else if str_is (dot artifact ''kind'') ''adjudication-package'' then JStr (u ''adjudication'')
     else if str_is (dot artifact ''kind'') ''ratification-package'' then JStr (u ''ratification'')
     else JNull)"

definition consensus_role :: "ustr \<Rightarrow> crole" where
  "consensus_role role = (if role = u ''adjudication'' then RoleJ1 else if role = u ''ratification'' then RoleJ2
     else if role = u ''A'' then RoleA else RoleB)"

definition submission_task :: "(nat list \<Rightarrow> ustr) \<Rightarrow> jsv \<Rightarrow> task_request answer" where
  "submission_task sha256 artifact =
    (let packet = (if str_is (dot artifact ''kind'') ''ratification-package''
         then dot (dot artifact ''primaryArtifact'') ''packet'' else dot artifact ''packet'') in
     case compute_packet_root sha256 packet of
       Inl TypeError \<Rightarrow> Inl TypeError
     | Inl (Thrown e) \<Rightarrow> Inl (Thrown (ProtocolError e))
     | Inr packetRoot \<Rightarrow>
       sbind (validate_draft_key (dot packet ''packetId'') (artifact_role artifact)) (\<lambda>(packetId, role).
       Inr \<lparr>rqPacketId = packetId, rqRoleText = role, rqPacket = packet_of_json packet,
            rqPacketRoot = packetRoot, rqIdentity = task_version_identity (packet_of_json packet) packetRoot,
            rqRole = consensus_role role\<rparr>))"

section \<open>Normalised profiles\<close>

lemma matches_rrange:
  assumes "m \<le> n"
  shows "matches (rrange m n (RCls p)) s \<longleftrightarrow> m \<le> length s \<and> length s \<le> n \<and> list_all p s"
proof -
  have "in_lang (RSeq (rtimes m (RCls p)) (rupto (n - m) (RCls p))) s
      \<longleftrightarrow> m \<le> length s \<and> length s \<le> n \<and> list_all p s" (is "?l \<longleftrightarrow> ?r")
  proof
    assume ?l
    then show ?r using assms by (auto elim!: in_lang_SeqE simp: in_lang_rtimes in_lang_rupto)
  next
    assume r: ?r
    have "in_lang (RSeq (rtimes m (RCls p)) (rupto (n - m) (RCls p))) (take m s @ drop m s)"
      using r by (intro in_lang.seq) (auto simp: in_lang_rtimes in_lang_rupto list_all_iff dest: in_set_takeD in_set_dropD)
    then show ?l by simp
  qed
  then show ?thesis by (simp add: matches_in_lang rrange_def)
qed

lemma normalized_text_Inr:
  "normalized_text v m n = Inr s \<longleftrightarrow> (\<exists>raw. v = JStr raw \<and> s = js_trim raw) \<and> m \<le> length s \<and> length s \<le> n"
  by (auto simp: normalized_text_def Let_def split: jsv.splits if_splits)

definition trimmed :: "nat \<Rightarrow> nat \<Rightarrow> ustr \<Rightarrow> bool" where
  "trimmed m n s \<longleftrightarrow> js_trim s = s \<and> m \<le> length s \<and> length s \<le> n"

lemma normalized_text_trimmed: "normalized_text v m n = Inr s \<Longrightarrow> trimmed m n s"
  by (auto simp: normalized_text_Inr trimmed_def)

lemma optional_text_trimmed: "optional_text v m n = Inr r \<Longrightarrow> r = None \<or> (\<exists>s. r = Some s \<and> trimmed m n s)"
  by (auto simp: optional_text_def sbind_eq_Inr dest: normalized_text_trimmed split: if_splits)

definition handle_ok :: "ustr \<Rightarrow> bool" where
  "handle_ok h \<longleftrightarrow> matches HANDLE_PATTERN (code_points h)"

definition accounts_ok :: "(ustr \<times> ustr) list \<Rightarrow> bool" where
  "accounts_ok xs \<longleftrightarrow> distinct (map fst xs) \<and> set (map fst xs) \<subseteq> set (map u SOCIAL_ACCOUNT_KEYS)
     \<and> (\<forall>(k, h) \<in> set xs. if k = u ''otherPlatform'' then trimmed 2 40 h else handle_ok h)
     \<and> (u ''otherPlatform'' \<in> set (map fst xs) \<longleftrightarrow> u ''otherUsername'' \<in> set (map fst xs))"

lemma fst_entries:
  "map fst (List.map_filter (\<lambda>k. map_option (Pair (u k)) (g k)) ks) = map u (filter (\<lambda>k. g k \<noteq> None) ks)"
  by (induction ks) (auto simp: map_filter_def)

lemma entries_cong:
  "(\<And>k. k \<in> set ks \<Longrightarrow> g k = g' k) \<Longrightarrow>
    List.map_filter (\<lambda>k. map_option (Pair (u k)) (g k)) ks = List.map_filter (\<lambda>k. map_option (Pair (u k)) (g' k)) ks"
  by (induction ks) (auto simp: map_filter_def)

lemma fold_handles:
  assumes "foldE (social_handle v) acc ks = Inr r"
  shows "\<exists>g. r = acc @ List.map_filter (\<lambda>k. map_option (Pair (u k)) (g k)) (filter (\<lambda>k. k \<noteq> ''otherPlatform'') ks)
    \<and> (\<forall>k \<in> set ks. k \<noteq> ''otherPlatform'' \<longrightarrow> handle_of (dot v k) = Inr (g k))"
  using assms
proof (induction ks arbitrary: acc)
  case (Cons k ks)
  then obtain b where b: "social_handle v acc k = Inr b" "foldE (social_handle v) b ks = Inr r"
    by (auto simp: sbind_eq_Inr)
  show ?case
  proof (cases "k = ''otherPlatform''")
    case True
    with b(1) have "b = acc" by (simp add: social_handle_def)
    with Cons.IH[OF b(2)] True show ?thesis by simp
  next
    case False
    with b(1) obtain h where h: "handle_of (dot v k) = Inr h" "b = acc @ List.map_filter (map_option (Pair (u k))) [h]"
      by (auto simp: social_handle_def sbind_eq_Inr map_filter_def split: option.splits)
    from Cons.IH[OF b(2)] obtain g where g:
      "r = b @ List.map_filter (\<lambda>k. map_option (Pair (u k)) (g k)) (filter (\<lambda>k. k \<noteq> ''otherPlatform'') ks)"
      "\<forall>k \<in> set ks. k \<noteq> ''otherPlatform'' \<longrightarrow> handle_of (dot v k) = Inr (g k)" by blast
    have gk: "k \<in> set ks \<Longrightarrow> g k = h" using g(2) h(1) False by auto
    let ?g = "g(k := h)"
    have same: "\<forall>x \<in> set ks. ?g x = g x" using gk by auto
    then have "List.map_filter (\<lambda>x. map_option (Pair (u x)) (?g x)) (filter (\<lambda>k. k \<noteq> ''otherPlatform'') ks)
        = List.map_filter (\<lambda>x. map_option (Pair (u x)) (g x)) (filter (\<lambda>k. k \<noteq> ''otherPlatform'') ks)"
      by (intro entries_cong) simp
    then have "r = acc @ List.map_filter (\<lambda>x. map_option (Pair (u x)) (?g x)) (filter (\<lambda>k. k \<noteq> ''otherPlatform'') (k # ks))"
      using g(1) h(2) False by (cases h) (simp_all add: map_filter_def)
    moreover have "\<forall>x \<in> set (k # ks). x \<noteq> ''otherPlatform'' \<longrightarrow> handle_of (dot v x) = Inr (?g x)"
      using g(2) h(1) same by simp
    ultimately show ?thesis by blast
  qed
qed (auto simp: map_filter_def)

abbreviation handle_entries :: "(string \<Rightarrow> ustr option) \<Rightarrow> (ustr \<times> ustr) list" where
  "handle_entries g \<equiv> List.map_filter (\<lambda>k. map_option (Pair (u k)) (g k))
     (filter (\<lambda>k. k \<noteq> ''otherPlatform'') SOCIAL_ACCOUNT_KEYS)"

lemma fold_handles_run:
  "\<forall>k \<in> set ks. k \<noteq> ''otherPlatform'' \<longrightarrow> handle_of (dot v k) = Inr (g k) \<Longrightarrow>
    foldE (social_handle v) acc ks
      = Inr (acc @ List.map_filter (\<lambda>k. map_option (Pair (u k)) (g k)) (filter (\<lambda>k. k \<noteq> ''otherPlatform'') ks))"
  by (induction ks arbitrary: acc) (auto simp: social_handle_def map_filter_def split: option.splits)

lemma map_of_entries:
  "distinct ks \<Longrightarrow> map_of (List.map_filter (\<lambda>k. map_option (Pair (u k)) (g k)) ks) (u k)
     = (if k \<in> set ks then g k else None)"
proof (induction ks)
  case (Cons a ks)
  then show ?case by (cases "g a") (auto simp: map_filter_def)
qed (simp add: map_filter_def)

lemma unit_in_code_points:
  "c \<in> set s \<Longrightarrow> \<not> high_surrogate c \<Longrightarrow> \<not> low_surrogate c \<Longrightarrow> c \<in> set (code_points s)"
  by (induction s rule: code_points.induct) auto

lemma handle_units:
  assumes "handle_ok h"
  shows "h \<noteq> []" "c \<in> set h \<Longrightarrow> \<not> js_space c \<and> c \<noteq> 64"
proof -
  have ok: "1 \<le> length (code_points h)" "list_all (\<lambda>c. \<not> js_space c \<and> \<not> one_of ''/@?#'' c) (code_points h)"
    using assms by (simp_all add: handle_ok_def HANDLE_PATTERN_def matches_rrange)
  then show "h \<noteq> []" by auto
  assume c: "c \<in> set h"
  show "\<not> js_space c \<and> c \<noteq> 64"
  proof (rule ccontr)
    assume bad: "\<not> ?thesis"
    then have "\<not> high_surrogate c" "\<not> low_surrogate c"
      by (auto simp: js_space_def high_surrogate_def low_surrogate_def)
    with c have "c \<in> set (code_points h)" by (rule unit_in_code_points)
    with ok(2) bad show False by (auto simp: list_all_iff one_of_def u_def)
  qed
qed

lemma handle_trimmed: "handle_ok h \<Longrightarrow> js_trim h = h"
  using handle_units[of h] by (auto simp: trim_fixed_iff)

lemma handle_of_ok: "handle_ok h \<Longrightarrow> handle_of (JStr h) = Inr (Some h)"
proof -
  assume h: "handle_ok h"
  then have "dropWhile (\<lambda>c. c = of_char CHR ''@'') h = h"
    using handle_units[OF h] by (cases h) (auto simp: dropWhile_eq_self_iff)
  with h show ?thesis
    using handle_units(1)[OF h] by (simp add: handle_of_def blank_def handle_trimmed handle_ok_def Let_def)
qed

lemma handle_of_Some: "handle_of raw = Inr (Some h) \<Longrightarrow> handle_ok h"
  by (auto simp: handle_of_def handle_ok_def sbind_eq_Inr Let_def split: if_splits)

lemma social_keys [simp]: "distinct SOCIAL_ACCOUNT_KEYS" "''otherPlatform'' \<in> set SOCIAL_ACCOUNT_KEYS"
    "''otherUsername'' \<in> set SOCIAL_ACCOUNT_KEYS" "''whatsapp'' \<in> set SOCIAL_ACCOUNT_KEYS"
  by (simp_all add: SOCIAL_ACCOUNT_KEYS_def)

text \<open>A validated list of accounts is the handles in the order of the keys, then the other platform.\<close>

lemma social_accounts_form:
  assumes "validate_social_accounts v = Inr r"
  shows "\<exists>g p. r = handle_entries g @ (case p of None \<Rightarrow> [] | Some s \<Rightarrow> [(u ''otherPlatform'', s)])
     \<and> (\<forall>k h. g k = Some h \<longrightarrow> handle_ok h \<and> k \<in> set SOCIAL_ACCOUNT_KEYS)
     \<and> (case g ''whatsapp'' of None \<Rightarrow> True | Some w \<Rightarrow> matches WHATSAPP_PATTERN w)
     \<and> (case p of None \<Rightarrow> True | Some s \<Rightarrow> trimmed 2 40 s) \<and> (p \<noteq> None \<longleftrightarrow> g ''otherUsername'' \<noteq> None)"
proof (cases "nullish v")
  case True
  then show ?thesis
    using assms by (intro exI[of _ "\<lambda>_. None"] exI[of _ None]) (simp add: validate_social_accounts_def map_filter_def)
next
  case False
  have "\<exists>hs p. foldE (social_handle v) [] SOCIAL_ACCOUNT_KEYS = Inr hs
     \<and> (case map_of hs (u ''whatsapp'') of None \<Rightarrow> True | Some w \<Rightarrow> matches WHATSAPP_PATTERN w)
     \<and> optional_text (dot v ''otherPlatform'') 2 40 = Inr p
     \<and> (p \<noteq> None \<longleftrightarrow> map_of hs (u ''otherUsername'') \<noteq> None)
     \<and> r = (case p of None \<Rightarrow> hs | Some p \<Rightarrow> hs @ [(u ''otherPlatform'', p)])"
    using assms False by (auto simp: validate_social_accounts_def sbind_eq_Inr split: if_splits option.splits)
  then obtain hs p where hs: "foldE (social_handle v) [] SOCIAL_ACCOUNT_KEYS = Inr hs"
    and w: "case map_of hs (u ''whatsapp'') of None \<Rightarrow> True | Some w \<Rightarrow> matches WHATSAPP_PATTERN w"
    and p: "optional_text (dot v ''otherPlatform'') 2 40 = Inr p" "p \<noteq> None \<longleftrightarrow> map_of hs (u ''otherUsername'') \<noteq> None"
    and r: "r = (case p of None \<Rightarrow> hs | Some p \<Rightarrow> hs @ [(u ''otherPlatform'', p)])"
    by blast
  from fold_handles[OF hs] obtain g0 where g0: "hs = handle_entries g0"
    "\<forall>k \<in> set SOCIAL_ACCOUNT_KEYS. k \<noteq> ''otherPlatform'' \<longrightarrow> handle_of (dot v k) = Inr (g0 k)" by auto
  define g where "g k = (if k \<in> set SOCIAL_ACCOUNT_KEYS \<and> k \<noteq> ''otherPlatform'' then g0 k else None)" for k
  have "hs = handle_entries g" unfolding g0(1) by (rule entries_cong) (simp add: g_def)
  moreover have "\<forall>k h. g k = Some h \<longrightarrow> handle_ok h \<and> k \<in> set SOCIAL_ACCOUNT_KEYS"
    using g0(2) by (auto simp: g_def intro!: handle_of_Some split: if_splits)
  moreover have "map_of hs (u k) = g k" if "k \<in> set SOCIAL_ACCOUNT_KEYS" "k \<noteq> ''otherPlatform''" for k
    unfolding g0(1) using that by (subst map_of_entries) (simp_all add: g_def)
  moreover have "case p of None \<Rightarrow> True | Some s \<Rightarrow> trimmed 2 40 s"
    using optional_text_trimmed[OF p(1)] by auto
  ultimately show ?thesis using w p(2) r
    by (intro exI[of _ g] exI[of _ p]) (simp split: option.splits)
qed

lemma handle_ok_run:
  assumes g: "\<forall>k h. g k = Some h \<longrightarrow> handle_ok h \<and> k \<in> set SOCIAL_ACCOUNT_KEYS"
    and r: "r = handle_entries g @ (case p of None \<Rightarrow> [] | Some s \<Rightarrow> [(u ''otherPlatform'', s)])"
  shows "foldE (social_handle (JObj (map (map_prod id JStr) r))) [] SOCIAL_ACCOUNT_KEYS = Inr (handle_entries g)"
    "dot (JObj (map (map_prod id JStr) r)) ''otherPlatform'' = (case p of None \<Rightarrow> JUndef | Some s \<Rightarrow> JStr s)"
    "k \<in> set SOCIAL_ACCOUNT_KEYS \<Longrightarrow> k \<noteq> ''otherPlatform'' \<Longrightarrow> map_of (handle_entries g) (u k) = g k"
    "\<forall>x \<in> set r. fst x \<in> u ` set SOCIAL_ACCOUNT_KEYS"
proof -
  have keys: "map_of (handle_entries g) (u k) = (if k = ''otherPlatform'' then None else g k)" if "k \<in> set SOCIAL_ACCOUNT_KEYS" for k
    using that by (subst map_of_entries) simp_all
  then show "k \<in> set SOCIAL_ACCOUNT_KEYS \<Longrightarrow> k \<noteq> ''otherPlatform'' \<Longrightarrow> map_of (handle_entries g) (u k) = g k" by simp
  have mp: "map_of (map (map_prod id JStr) xs) k = map_option JStr (map_of xs k)" for xs :: "(ustr \<times> ustr) list" and k
    by (induction xs) auto
  have "map_of r (u ''otherPlatform'') = p"
    using keys[of "''otherPlatform''"] by (simp add: r map_add_def split: option.splits)
  then show "dot (JObj (map (map_prod id JStr) r)) ''otherPlatform'' = (case p of None \<Rightarrow> JUndef | Some s \<Rightarrow> JStr s)"
    by (simp add: mp split: option.splits)
  have "handle_of (dot (JObj (map (map_prod id JStr) r)) k) = Inr (g k)"
    if k: "k \<in> set SOCIAL_ACCOUNT_KEYS" "k \<noteq> ''otherPlatform''" for k
  proof -
    have "map_of r (u k) = g k" using keys[OF k(1)] k(2) by (simp add: r map_add_def split: option.splits)
    then show ?thesis
      using g by (cases "g k") (simp_all add: mp handle_of_ok, simp add: handle_of_def blank_def)
  qed
  then show "foldE (social_handle (JObj (map (map_prod id JStr) r))) [] SOCIAL_ACCOUNT_KEYS = Inr (handle_entries g)"
    by (subst fold_handles_run[of _ _ g]) simp_all
  show "\<forall>x \<in> set r. fst x \<in> u ` set SOCIAL_ACCOUNT_KEYS"
    by (auto simp: r map_filter_def split: option.splits if_splits)
qed

text \<open>
  C31. Social accounts have a normal form. A validated list names each known platform at most
  once, every handle is one to eighty characters without white space, slash, at-sign, question
  mark or hash, and another platform is named exactly when a user name on it is. Validating the
  stored form again gives it back unchanged.
\<close>

theorem social_accounts_normal_form:
  assumes "validate_social_accounts v = Inr r"
  shows "accounts_ok r \<and> validate_social_accounts (JObj (map (map_prod id JStr) r)) = Inr r"
proof -
  obtain g p where r: "r = handle_entries g @ (case p of None \<Rightarrow> [] | Some s \<Rightarrow> [(u ''otherPlatform'', s)])"
    and g: "\<forall>k h. g k = Some h \<longrightarrow> handle_ok h \<and> k \<in> set SOCIAL_ACCOUNT_KEYS"
    and w: "case g ''whatsapp'' of None \<Rightarrow> True | Some w \<Rightarrow> matches WHATSAPP_PATTERN w"
    and p: "case p of None \<Rightarrow> True | Some s \<Rightarrow> trimmed 2 40 s" "p \<noteq> None \<longleftrightarrow> g ''otherUsername'' \<noteq> None"
    using social_accounts_form[OF assms] by blast
  note run = handle_ok_run[OF g r]
  have names: "map fst (handle_entries g) = map u (filter (\<lambda>k. k \<noteq> ''otherPlatform'' \<and> g k \<noteq> None) SOCIAL_ACCOUNT_KEYS)"
    unfolding fst_entries filter_filter by (simp add: conj_commute)
  have "distinct (map fst r)"
    by (auto simp: r names distinct_map inj_on_def split: option.splits)
  moreover have "\<forall>(k, h) \<in> set r. if k = u ''otherPlatform'' then trimmed 2 40 h else handle_ok h"
    using g p(1) by (auto simp: r map_filter_def split: option.splits if_splits)
  moreover have "u ''otherPlatform'' \<in> set (map fst r) \<longleftrightarrow> p \<noteq> None"
    using names by (auto simp: r split: option.splits)
  moreover have "u ''otherUsername'' \<in> set (map fst r) \<longleftrightarrow> g ''otherUsername'' \<noteq> None"
    using names by (auto simp: r split: option.splits)
  moreover have "set (map fst r) \<subseteq> set (map u SOCIAL_ACCOUNT_KEYS)" using run(4) by auto
  ultimately have ok: "accounts_ok r" using p(2) by (simp add: accounts_ok_def)
  have opt: "optional_text (case p of None \<Rightarrow> JUndef | Some s \<Rightarrow> JStr s) 2 40 = Inr p"
    using p(1) by (auto simp: optional_text_def blank_def normalized_text_def trimmed_def split: option.splits)
  have "list_all (\<lambda>k. k \<in> set (map u SOCIAL_ACCOUNT_KEYS)) (own_keys (JObj (map (map_prod id JStr) r)))"
    using run(4) by (auto simp: own_keys_def list_all_iff)
  then have "validate_social_accounts (JObj (map (map_prod id JStr) r)) = Inr r"
    unfolding validate_social_accounts_def run(1,2)
    using w p(2) opt run(3)[of "''whatsapp''"] run(3)[of "''otherUsername''"]
    by (simp add: r split: option.splits)
  with ok show ?thesis by blast
qed

theorem social_accounts_normal_form_witness:
  "accounts_ok [(u ''telegram'', u ''adg'')]
   \<and> validate_social_accounts (JObj [(u ''telegram'', JStr (u '' @adg ''))]) = Inr [(u ''telegram'', u ''adg'')]"
proof -
  have v: "validate_social_accounts (JObj [(u ''telegram'', JStr (u '' @adg ''))]) = Inr [(u ''telegram'', u ''adg'')]"
    by code_simp
  from social_accounts_normal_form[OF v] v show ?thesis by blast
qed

section \<open>Progress of a draft\<close>

lemma progress_percentage:
  assumes "c \<le> n"
  shows "0 \<le> prPercentage (progress_of c n) \<and> prPercentage (progress_of c n) \<le> 100
    \<and> (0 < n \<longrightarrow> c = n \<longrightarrow> prPercentage (progress_of c n) = 100) \<and> (c = 0 \<longrightarrow> prPercentage (progress_of c n) = 0)"
proof (cases "n = 0")
  case False
  let ?q = "fdiv (of_nat c) (of_nat n)"
  have q: "0 \<le> ?q" "?q \<le> 1"
    using fl_mono[of 0 "of_nat c / of_nat n"] fl_mono[of "of_nat c / of_nat n" 1] assms False
    by (simp_all add: fdiv_def)
  have h: "fl 100 = 100" using fl_of_int[of 100] by simp
  have x: "0 \<le> fmul ?q 100" "fmul ?q 100 \<le> 100"
    using fl_mono[of 0 "?q * 100"] fl_mono[of "?q * 100" 100] q h by (simp_all add: fmul_def)
  then have "0 \<le> js_round (fmul ?q 100)" "js_round (fmul ?q 100) \<le> 100"
    unfolding js_round_def by (linarith+)
  moreover have "js_round (fmul ?q 100) = 100" if "c = n"
  proof -
    have "fmul ?q 100 = 100" using that False h by (simp add: fdiv_def fmul_def)
    then show ?thesis by (simp add: js_round_def floor_eq_iff)
  qed
  moreover have "js_round (fmul ?q 100) = 0" if "c = 0"
    using that by (simp add: fdiv_def fmul_def js_round_def floor_eq_iff)
  ultimately show ?thesis using False by (simp add: progress_of_def)
qed (use assms in \<open>simp add: progress_of_def\<close>)

abbreviation counted :: "nat \<times> nat \<Rightarrow> bool" where
  "counted acc \<equiv> fst acc \<le> snd acc"

lemma count_value_ok: "counted acc \<Longrightarrow> count_value acc v = Inr r \<Longrightarrow> counted r"
  by (auto simp: count_value_def sbind_eq_Inr split: if_splits)

lemma count_token_ok: "counted acc \<Longrightarrow> count_token acc v = Inr r \<Longrightarrow> counted r"
  unfolding count_token_def using foldE_invariant[where P = counted, of count_value acc "token_values v" r] count_value_ok
  by (simp split: if_splits)

lemma count_sentence_ok: "counted acc \<Longrightarrow> count_sentence acc v = Inr r \<Longrightarrow> counted r"
proof -
  assume acc: "counted acc" and run: "count_sentence acc v = Inr r"
  from run obtain b ts where b: "foldE count_value acc [dot v ''structural'', dot v ''predicate''] = Inr b"
    and ts: "foldE count_token b ts = Inr r"
    unfolding count_sentence_def sbind_eq_Inr by (auto simp: sbind_eq_Inr split: if_splits)
  have "counted b" by (rule foldE_invariant[where P = counted, OF count_value_ok b acc])
  show "counted r" by (rule foldE_invariant[where P = counted, OF _ ts \<open>counted b\<close>]) (rule count_token_ok)
qed

text \<open>
  Draft progress stays in its bounds: a computed progress never counts more completed values
  than values, its percentage lies between 0 and 100 in double arithmetic, a complete non-empty
  draft reads 100, and one without any value reads 0.
\<close>

theorem draft_progress_bounded:
  assumes "calculate_draft_progress draft = Inr p"
  shows "prCompleted p \<le> prTotal p \<and> 0 \<le> prPercentage p \<and> prPercentage p \<le> 100
    \<and> (0 < prTotal p \<longrightarrow> prCompleted p = prTotal p \<longrightarrow> prPercentage p = 100)
    \<and> (prCompleted p = 0 \<longrightarrow> prPercentage p = 0)"
proof -
  have "\<exists>c n. c \<le> n \<and> p = progress_of c n"
  proof (cases "str_is (dot draft ''role'') ''ratification''")
    case True
    with assms obtain v where "ratification_progress v = Inr p"
      by (auto simp: calculate_draft_progress_def sbind_eq_Inr split: if_splits jsv.splits)
    then obtain s where p: "p = progress_of
      ((if is_uuid (dot v ''primaryReceiptId'') then 1 else 0)
       + (if list_ex (str_is (dot v ''decision'')) [''agree'', ''disagree'', ''recuse''] then 1 else 0)
       + (if length (js_trim s) \<ge> 20 then 1 else 0)) 3"
      unfolding ratification_progress_def sbind_eq_Inr by blast
    show ?thesis by (rule exI, rule exI, rule conjI[rotated], rule p) simp
  next
    case False
    with assms obtain xs c n where f: "foldE count_sentence (0, 0) xs = Inr (c, n)" and p: "p = progress_of c n"
      by (auto simp: calculate_draft_progress_def sbind_eq_Inr split: if_splits)
    have z: "counted (0, 0)" by simp
    have "counted (c, n)" by (rule foldE_invariant[where P = counted, OF _ f z]) (rule count_sentence_ok)
    then show ?thesis using p by auto
  qed
  then obtain c n where cn: "c \<le> n" "p = progress_of c n" by blast
  have "prCompleted p = c" "prTotal p = n" by (simp_all add: cn(2) progress_of_def)
  with progress_percentage[OF cn(1)] cn show ?thesis by simp
qed

theorem draft_progress_bounded_witness:
  "calculate_draft_progress (JObj [(u ''role'', JStr (u ''A'')), (u ''fields'', JArr
      [JObj [(u ''structural'', JStr (u ''yes'')), (u ''predicate'', JStr (u '' ''))]])]) = Inr (progress_of 1 2)
   \<and> prPercentage (progress_of 1 2) \<le> 100"
proof -
  have c: "calculate_draft_progress (JObj [(u ''role'', JStr (u ''A'')), (u ''fields'', JArr
      [JObj [(u ''structural'', JStr (u ''yes'')), (u ''predicate'', JStr (u '' ''))]])]) = Inr (progress_of 1 2)"
    by (simp add: calculate_draft_progress_def count_sentence_def count_value_def has_draft_value_def blank_def
        iter_def js_or_def str_is_def js_trim_def js_space_def u_def numeral_2_eq_2)
  from draft_progress_bounded[OF c] c show ?thesis by blast
qed

section \<open>Admitted submissions\<close>

text \<open>The keys of all objects inside a document.\<close>

primrec all_keys :: "jsv \<Rightarrow> ustr list" where
  "all_keys JUndef = []"
| "all_keys JNull = []"
| "all_keys (JBool b) = []"
| "all_keys (JNum n) = []"
| "all_keys (JStr s) = []"
| "all_keys (JArr vs) = concat (map all_keys vs)"
| "all_keys (JObj kvs) = concat (map (\<lambda>(k, below). k # below) (map (map_prod id all_keys) kvs))"

lemma contains_key_iff: "contains_key ks v \<longleftrightarrow> (\<exists>k \<in> set (all_keys v). k \<in> set ks)"
proof (induction v)
  case (JArr vs)
  then show ?case by (auto simp: list_ex_iff)
next
  case (JObj kvs)
  have "contains_key ks (JObj kvs) \<longleftrightarrow> (\<exists>(k, x) \<in> set kvs. k \<in> set ks \<or> contains_key ks x)"
    by (simp add: list_ex_iff case_prod_beta)
  also have "\<dots> \<longleftrightarrow> (\<exists>(k, x) \<in> set kvs. k \<in> set ks \<or> (\<exists>k \<in> set (all_keys x). k \<in> set ks))"
    using JObj by (fastforce simp: snds.simps)
  also have "\<dots> \<longleftrightarrow> (\<exists>k \<in> set (all_keys (JObj kvs)). k \<in> set ks)"
    by (simp add: case_prod_beta bex_Un Bex_def) blast
  finally show ?case .
qed simp_all

text \<open>The pseudonym the participant of a submission must use in an artifact.\<close>

definition own_pseudonym :: "jsv \<Rightarrow> ustr \<Rightarrow> jsv" where
  "own_pseudonym v suffix = JStr (u ''human-'' @ take 12 (js_string (dot v ''participantId'')) @ u ''-'' @ suffix)"

text \<open>
  C21. What an admitted submission is: its artifact has the type the envelope names and holds at no
  depth a key of personal data or of a forbidden analysis; its author signs with the pseudonym of
  the envelope's participant and the slot or role of the artifact; identity storage is consented
  to, a standard submission is attested independent, blind and authentic, and the profile passes
  its own validation.
\<close>

theorem admitted_submission:
  assumes "validate_submission un operationalTest v = Inr ()"
  shows "dot v ''artifactType'' = dot (dot v ''artifact'') ''kind''
    \<and> (\<forall>k \<in> set (all_keys (dot v ''artifact'')). k \<notin> set PII_KEYS \<and> k \<notin> set FORBIDDEN_ANALYSIS_KEYS)
    \<and> (case dot (dot v ''artifact'') ''kind'' of JStr kind \<Rightarrow>
         if kind = u ''independent-annotation'' then
           \<exists>slot. to_string (dot (dot (dot v ''artifact'') ''annotation'') ''annotatorSlot'') = (Inr slot :: ustr answer)
             \<and> dot (dot (dot v ''artifact'') ''annotation'') ''annotatorPseudonym'' = own_pseudonym v slot
         else if kind = u ''adjudication-package'' then
           dot (dot (dot v ''artifact'') ''adjudication'') ''adjudicatorPseudonym'' = own_pseudonym v (u ''J1'')
         else kind = u ''ratification-package''
           \<and> dot (dot (dot v ''artifact'') ''ratification'') ''reviewerPseudonym'' = own_pseudonym v (u ''J2'')
       | _ \<Rightarrow> False)
    \<and> dot (dot v ''consent'') ''identityStorage'' = JBool True
    \<and> (\<not> operationalTest \<longrightarrow> dot (dot v ''attestation'') ''independent'' = JBool True
         \<and> dot (dot v ''attestation'') ''blind'' = JBool True \<and> dot (dot v ''attestation'') ''authentic'' = JBool True)
    \<and> (\<exists>p. validate_account_profile un (dot v ''profile'') = Inr p)"
proof -
  let ?a = "dot v ''artifact''"
  let ?prefix = "take 12 (js_string (dot v ''participantId''))"
  from assms have env: "envelope_ok v = Inr True" and ps: "pseudonym_matches ?prefix ?a = Inr True"
    and prof: "\<exists>p. validate_account_profile un (dot v ''profile'') = Inr p"
    and cons: "js_true (dot (dot v ''consent'') ''identityStorage'')"
    and att: "attestation_ok operationalTest (dot v ''attestation'')" and adm: "artifact_admissible ?a"
    unfolding validate_submission_def by (auto simp: sbind_eq_Inr Let_def split: if_splits)
  from env have type: "dot v ''artifactType'' = dot ?a ''kind''"
    by (auto simp: envelope_ok_def sbind_eq_Inr dest: strict_eqD split: if_splits)
  from adm have keys: "\<forall>k \<in> set (all_keys ?a). k \<notin> set PII_KEYS \<and> k \<notin> set FORBIDDEN_ANALYSIS_KEYS"
    by (auto simp: artifact_admissible_def contains_key_iff)
  from adm obtain kind where kind: "dot ?a ''kind'' = JStr kind"
    "kind = u ''independent-annotation'' \<or> kind = u ''adjudication-package'' \<or> kind = u ''ratification-package''"
    by (auto simp: artifact_admissible_def str_is_def)
  have "case dot ?a ''kind'' of JStr kind \<Rightarrow>
         if kind = u ''independent-annotation'' then
           \<exists>slot. to_string (dot (dot ?a ''annotation'') ''annotatorSlot'') = (Inr slot :: ustr answer)
             \<and> dot (dot ?a ''annotation'') ''annotatorPseudonym'' = own_pseudonym v slot
         else if kind = u ''adjudication-package'' then
           dot (dot ?a ''adjudication'') ''adjudicatorPseudonym'' = own_pseudonym v (u ''J1'')
         else kind = u ''ratification-package''
           \<and> dot (dot ?a ''ratification'') ''reviewerPseudonym'' = own_pseudonym v (u ''J2'')
       | _ \<Rightarrow> False"
    using ps kind(2) unfolding kind(1) pseudonym_matches_def
    by (auto simp: Let_def str_is_def kind(1) inner_def field_def own_pseudonym_def sbind_eq_Inr split: if_splits)
  with type keys cons att prof show ?thesis
    by (auto simp: js_true_def attestation_ok_def)
qed

definition sample_uuid :: ustr where
  "sample_uuid = u ''01234567-89ab-4def-8123-456789abcdef''"

definition sample_profile :: jsv where
  "sample_profile = JObj [(u ''fullName'', JStr (u ''Sibawayh'')), (u ''email'', JStr (u ''s@basra.example'')),
     (u ''experienceYears'', JNum 30), (u ''specialization'', JStr (u ''grammar''))]"

definition sample_envelope :: "(ustr \<times> jsv) list \<Rightarrow> jsv" where
  "sample_envelope kvs = JObj ([(u ''schema'', JStr (u ''adg-msa-portal-submission-v1'')),
     (u ''participantId'', JStr sample_uuid), (u ''artifactSha256'', JStr (replicate 64 48)),
     (u ''clientVersion'', JStr (u ''1.0.0''))] @ kvs)"

definition sample_claims :: "(ustr \<times> jsv) list" where
  "sample_claims = [(u ''artifactType'', JStr (u ''adjudication-package'')),
     (u ''artifact'', JObj [(u ''schema'', JStr (u ''adg-msa-portal-artifact-v1'')),
        (u ''kind'', JStr (u ''adjudication-package'')),
        (u ''adjudication'', JObj [(u ''adjudicatorPseudonym'', JStr (u ''human-01234567-89a-J1''))])]),
     (u ''profile'', sample_profile), (u ''consent'', JObj [(u ''identityStorage'', JBool True)]),
     (u ''attestation'', JObj [(u ''independent'', JBool True), (u ''blind'', JBool True), (u ''authentic'', JBool True)]),
     (u ''turnstileToken'', JStr (u ''token''))]"

theorem admitted_submission_witness:
  "validate_submission \<lparr>unNfkc = id, unLower = id\<rparr> False (sample_envelope sample_claims) = Inr ()
   \<and> dot (dot (sample_envelope sample_claims) ''consent'') ''identityStorage'' = JBool True"
proof -
  have v: "validate_submission \<lparr>unNfkc = id, unLower = id\<rparr> False (sample_envelope sample_claims) = Inr ()"
    by code_simp
  from admitted_submission[OF v] v show ?thesis by blast
qed

text \<open>
  A submission without an artifact is not refused but fails. When the envelope is otherwise
  complete and leaves out both the artifact and its type, the two undefined values agree, the check
  for a missing artifact at the end is never reached, and reading the artifact's kind throws a
  \<open>TypeError\<close>, which the server answers as an internal error instead of a bad request.
\<close>

theorem missing_artifact_is_type_error:
  assumes "str_is (dot v ''schema'') ''adg-msa-portal-submission-v1''" "is_uuid (dot v ''participantId'')"
    "(test_or_empty SHA256_PATTERN (dot v ''artifactSha256'') :: bool answer) = Inr True" "js_is_string (dot v ''clientVersion'')"
    "dot v ''artifactType'' = JUndef" "nullish (dot v ''artifact'')"
  shows "validate_submission un operationalTest v = Inl TypeError"
proof -
  have "truthy v" using assms(1) by (cases v) (auto simp: str_is_def own_def)
  moreover have "dot (dot v ''artifact'') ''kind'' = JUndef" using assms(6) by (auto simp: nullish_def)
  ultimately have "envelope_ok v = Inr True" using assms by (simp add: envelope_ok_def)
  then show ?thesis using assms(6) by (simp add: validate_submission_def Let_def)
qed

theorem missing_artifact_is_type_error_witness:
  "\<forall>un. validate_submission un False (sample_envelope []) = Inl TypeError"
proof (rule allI, rule missing_artifact_is_type_error)
  show "(test_or_empty SHA256_PATTERN (dot (sample_envelope []) ''artifactSha256'') :: bool answer) = Inr True" by code_simp
  show "is_uuid (dot (sample_envelope []) ''participantId'')" by code_simp
qed (simp_all add: sample_envelope_def str_is_def u_def)

end
