(* ===== verification/Discussion.thy ===== *)
theory Discussion
  imports Protocol JsText Verification
begin

text \<open>
  \<open>src/discussion.js\<close>: validation of a comment on a published result, the number of decisions in
  which an annotation differs from the final one, and the notification mails. Each \<open>throw\<close> is a
  constructor of \<open>discussion_error\<close>. The link of a mail is built by the platform's \<open>URL\<close> and is an
  argument; the Arabic sentences are lists of code units.
\<close>

section \<open>Comments\<close>

datatype discussion_error =
    CommentNotAnObject | CategoryUnknown | BodyLengthInvalid | BodyUnsafe
  | TargetIdInvalid | ParentIdInvalid | SentenceIdInvalid | TokenNumberInvalid
  | ReceiptListInvalid | ReceiptListEntryInvalid

type_synonym 'a parsed = "discussion_error thrown + 'a"

definition DISCUSSION_CATEGORIES :: "string list" where
  "DISCUSSION_CATEGORIES = [''agreement'', ''disagreement'', ''question'', ''clarification'', ''evidence'',
     ''final-result'', ''consensus-proposal'', ''escalation'', ''appeal'', ''recusal'']"

abbreviation is_uuid_text :: "ustr \<Rightarrow> bool" where
  "is_uuid_text s \<equiv> matches (UUID_PATTERN (\<lambda>c. c = 52)) s"

record discussion_input =
  diCategory :: ustr
  diBody :: ustr
  diTarget :: "ustr option"
  diParent :: "ustr option"
  diSentence :: "ustr option"
  diToken :: "int option"
  diMentioned :: "ustr list"
  diReferenced :: "ustr list"

definition nullable_uuid :: "discussion_error \<Rightarrow> jsv \<Rightarrow> ustr option parsed" where
  "nullable_uuid err value =
    (if nullish value \<or> value = JStr [] then Inr None
     else sbind (to_string value) (\<lambda>s. let normalized = js_trim s in
       if is_uuid_text normalized then Inr (Some normalized) else Inl (Thrown err)))"

definition nullable_text :: "discussion_error \<Rightarrow> nat \<Rightarrow> jsv \<Rightarrow> ustr option parsed" where
  "nullable_text err maximum value =
    (if nullish value then Inr None
     else sbind (to_string value) (\<lambda>s. let normalized = js_trim s in
       if normalized = [] then Inr None
       else if length normalized > maximum \<or> rx_test CONTROL_PATTERN normalized then Inl (Thrown err)
       else Inr (Some normalized)))"

definition add_uuid :: "ustr list \<Rightarrow> jsv \<Rightarrow> ustr list parsed" where
  "add_uuid result item =
    sbind (text_or_empty item) (\<lambda>s. let normalized = js_trim s in
    if \<not> is_uuid_text normalized then Inl (Thrown ReceiptListEntryInvalid)
    else Inr (oset_add result normalized))"

definition unique_uuid_list :: "jsv \<Rightarrow> ustr list parsed" where
  "unique_uuid_list value =
    (if nullish value then Inr []
     else case value of
       JArr items \<Rightarrow> if length items > 20 then Inl (Thrown ReceiptListInvalid) else foldE add_uuid [] items
     | _ \<Rightarrow> Inl (Thrown ReceiptListInvalid))"

definition token_number :: "jsv \<Rightarrow> int option parsed" where
  "token_number value =
    (if nullish value \<or> value = JStr [] then Inr None
     else sbind (to_number value) (\<lambda>n.
       if integer_between 1 100000 n then Inr (Some \<lfloor>the n\<rfloor>) else Inl (Thrown TokenNumberInvalid)))"

text \<open>The six patterns are those of \<open>public/protocol.js\<close>.\<close>

definition unsafe_body :: "ustr \<Rightarrow> bool" where
  "unsafe_body body = contains_unsafe_public_text body"

definition validate_discussion_input :: "jsv \<Rightarrow> discussion_input parsed" where
  "validate_discussion_input value =
    (if \<not> js_is_plain_object value then Inl (Thrown CommentNotAnObject)
     else sbind (text_or_empty (dot value ''category'')) (\<lambda>c. let category = js_trim c in
     if category \<notin> set (map u DISCUSSION_CATEGORIES) then Inl (Thrown CategoryUnknown)
     else sbind (text_or_empty (dot value ''body'')) (\<lambda>b. let body = js_trim b in
     if length body < 20 \<or> length body > 4000 then Inl (Thrown BodyLengthInvalid)
     else if unsafe_body body then Inl (Thrown BodyUnsafe)
     else sbind (nullable_uuid TargetIdInvalid (dot value ''targetReceiptId'')) (\<lambda>target.
       sbind (nullable_uuid ParentIdInvalid (dot value ''parentCommentId'')) (\<lambda>parent.
       sbind (nullable_text SentenceIdInvalid 120 (dot value ''sentenceId'')) (\<lambda>sentence.
       sbind (token_number (dot value ''tokenId'')) (\<lambda>token.
       sbind (unique_uuid_list (dot value ''mentionedReceiptIds'')) (\<lambda>mentioned.
       sbind (unique_uuid_list (dot value ''referencedReceiptIds'')) (\<lambda>referenced.
       Inr \<lparr>diCategory = category, diBody = body, diTarget = target, diParent = parent,
            diSentence = sentence, diToken = token, diMentioned = mentioned,
            diReferenced = referenced\<rparr>)))))))))"

section \<open>Differences between decisions\<close>

text \<open>\<open>(v || []).map(x => [x.k, x])\<close>, the entries of a \<open>Map\<close>.\<close>

definition keyed_entries :: "string \<Rightarrow> jsv \<Rightarrow> (jsv \<times> jsv) list parsed" where
  "keyed_entries k v = (case js_or v (JArr []) of
     JArr xs \<Rightarrow> mapE (\<lambda>x. sbind (field x (u k)) (\<lambda>key. Inr (key, x))) xs | _ \<Rightarrow> Inl TypeError)"

text \<open>\<open>finalSentence.tokens?.length || 0\<close>, for the arrays an accepted decision holds.\<close>

definition token_count :: "jsv \<Rightarrow> nat" where
  "token_count sentence = length (elems (dot sentence ''tokens''))"

text \<open>\<open>const x = m.get(k); if (!x) \<dots>\<close>\<close>

definition found_truthy :: "(jsv \<times> jsv) list \<Rightarrow> jsv \<Rightarrow> jsv option" where
  "found_truthy m k = Option.bind (js_map_get m k) (\<lambda>x. if truthy x then Some x else None)"

definition differing :: "bool \<Rightarrow> nat" where
  "differing b = (if b then 1 else 0)"

definition token_difference :: "(jsv \<times> jsv) list \<Rightarrow> nat \<Rightarrow> jsv \<Rightarrow> nat parsed" where
  "token_difference sourceTokens n finalToken =
    sbind (field finalToken (u ''tokenId'')) (\<lambda>tokenId.
    Inr (n + differing (case found_truthy sourceTokens tokenId of None \<Rightarrow> True
      | Some sourceToken \<Rightarrow> token_decision_key sourceToken \<noteq> token_decision_key finalToken)))"

definition sentence_difference :: "(jsv \<times> jsv) list \<Rightarrow> nat \<Rightarrow> jsv \<Rightarrow> nat parsed" where
  "sentence_difference sourceSentences n finalSentence =
    sbind (field finalSentence (u ''sentenceId'')) (\<lambda>sentenceId.
    case found_truthy sourceSentences sentenceId of
      None \<Rightarrow> Inr (n + 1 + token_count finalSentence)
    | Some source \<Rightarrow>
      (let n' = n + differing (\<not> strict_eq (dot source ''structurallyAcceptable'') (dot finalSentence ''structurallyAcceptable''))
             + differing (\<not> strict_eq (dot source ''completePredicate'') (dot finalSentence ''completePredicate'')) in
       sbind (keyed_entries ''tokenId'' (dot source ''tokens'')) (\<lambda>sourceTokens.
       sbind (iter (js_or (dot finalSentence ''tokens'') (JArr []))) (\<lambda>tokens.
       foldE (token_difference sourceTokens) n' tokens))))"

definition count_decision_differences :: "jsv \<Rightarrow> jsv \<Rightarrow> nat parsed" where
  "count_decision_differences annotation finalDecision =
    sbind (keyed_entries ''sentenceId'' (dot annotation ''sentences'')) (\<lambda>sourceSentences.
    sbind (iter (js_or (dot finalDecision ''sentences'') (JArr []))) (\<lambda>sentences.
    foldE (sentence_difference sourceSentences) 0 sentences))"

section \<open>Notification mails\<close>

definition safe_inline :: "jsv \<Rightarrow> nat \<Rightarrow> ustr parsed" where
  "safe_inline value maximum = sbind (text_or_empty value) (\<lambda>s.
     Inr (take maximum (js_trim (collapse js_space s))))"

definition safe_excerpt :: "jsv \<Rightarrow> ustr parsed" where
  "safe_excerpt value = (if nullish value then Inr []
     else sbind (to_string value) (\<lambda>s. Inr (take 500 (js_trim (collapse js_space s)))))"

definition escape_html :: "ustr \<Rightarrow> ustr" where
  "escape_html s = replace_char 39 ''&#39;'' (replace_char 34 ''&quot;''
     (replace_char 62 ''&gt;'' (replace_char 60 ''&lt;'' (replace_char 38 ''&amp;'' s))))"

definition TXT_ANONYMOUS :: ustr where
  "TXT_ANONYMOUS = [1605, 1587, 1575, 1607, 1605, 32, 1605, 1580, 1607, 1617, 1604]"

definition TXT_MENTION_SUBJECT :: ustr where
  "TXT_MENTION_SUBJECT = [1584, 1615, 1603, 1585, 1578, 32, 1601, 1610, 32, 1606, 1602, 1575, 1588, 32, 1578, 1581, 1603, 1610, 1605]
     @ u '' ADG-Lang''"

definition TXT_MENTION_A :: ustr where
  "TXT_MENTION_A = [1571, 1588, 1575, 1585, 32, 1573, 1604, 1610, 1603, 32]"

definition TXT_MENTION_B :: ustr where
  "TXT_MENTION_B = [32, 1601, 1610, 32, 1606, 1602, 1575, 1588, 32, 1575, 1604, 1605, 1607, 1605, 1577, 32]"

definition TXT_FINAL_SUBJECT :: ustr where
  "TXT_FINAL_SUBJECT = [1589, 1583, 1585, 1578, 32, 1606, 1578, 1610, 1580, 1577, 32, 1581, 1575, 1587, 1605, 1577, 32, 1604, 1605,
     1607, 1605, 1577, 32, 1588, 1575, 1585, 1603, 1578, 32, 1601, 1610, 1607, 1575]"

definition TXT_FINAL_A :: ustr where
  "TXT_FINAL_A = [1589, 1583, 1585, 1578, 32, 1606, 1578, 1610, 1580, 1577, 32, 1606, 1607, 1575, 1574, 1610, 1577, 32, 1604,
     1604, 1605, 1607, 1605, 1577, 32]"

definition TXT_FINAL_B :: ustr where
  "TXT_FINAL_B = [32, 1578, 1582, 1578, 1604, 1601, 32, 1593, 1606, 32]"

definition TXT_FINAL_C :: ustr where
  "TXT_FINAL_C = [32, 1605, 1606, 32, 1602, 1585, 1575, 1585, 1575, 1578, 32, 1605, 1587, 1575, 1607, 1605, 1578, 1603, 46,
     32, 1607, 1584, 1575, 32, 1573, 1588, 1593, 1575, 1585, 32, 1576, 1575, 1604, 1605, 1602, 1575, 1585, 1606,
     1577, 32, 1575, 1604, 1593, 1604, 1605, 1610, 1577, 1548, 32, 1608, 1604, 1610, 1587, 32, 1578, 1602, 1610,
     1610, 1605, 1611, 1575, 32, 1604, 1588, 1582, 1589, 32, 1575, 1604, 1605, 1581, 1603, 1617, 1605, 46]"

definition TXT_COMMENT_SUBJECT :: ustr where
  "TXT_COMMENT_SUBJECT = [1578, 1593, 1604, 1610, 1602, 32, 1580, 1583, 1610, 1583, 32, 1593, 1604, 1609, 32, 1606, 1578, 1610, 1580,
     1578, 1603, 32, 1601, 1610] @ u '' ADG-Lang''"

definition TXT_COMMENT_A :: ustr where
  "TXT_COMMENT_A = [1571, 1590, 1575, 1601, 32]"

definition TXT_COMMENT_B :: ustr where
  "TXT_COMMENT_B = [32, 1578, 1593, 1604, 1610, 1602, 1611, 1575, 32, 1593, 1604, 1605, 1610, 1611, 1575, 32, 1593, 1604, 1609,
     32, 1606, 1578, 1610, 1580, 1577, 32, 1605, 1585, 1578, 1576, 1591, 1577, 32, 1576, 1575, 1604, 1605, 1607,
     1605, 1577, 32]"

definition TXT_EXCERPT :: ustr where
  "TXT_EXCERPT = [10, 1605, 1602, 1578, 1591, 1601, 32, 1575, 1604, 1578, 1593, 1604, 1610, 1602, 58, 10]"

definition TXT_OPEN :: ustr where
  "TXT_OPEN = [10, 1575, 1601, 1578, 1581, 32, 1605, 1587, 1575, 1581, 1577, 32, 1575, 1604, 1606, 1602, 1575, 1588, 58,
     32]"

definition TXT_PRIVACY_LINE :: ustr where
  "TXT_PRIVACY_LINE = [10, 1604, 1606, 32, 1578, 1592, 1607, 1585, 32, 1607, 1608, 1610, 1578, 1603, 32, 1571, 1608, 32, 1576,
     1585, 1610, 1583, 1603, 32, 1604, 1604, 1605, 1581, 1603, 1617, 1605, 1610, 1606, 32, 1575, 1604, 1570,
     1582, 1585, 1610, 1606, 32, 1571, 1608, 32, 1601, 1610] @ u '' GitHub.''"

definition TXT_OPEN_LINK :: ustr where
  "TXT_OPEN_LINK = [1601, 1578, 1581, 32, 1605, 1587, 1575, 1581, 1577, 32, 1575, 1604, 1606, 1602, 1575, 1588]"

definition TXT_PRIVACY :: ustr where
  "TXT_PRIVACY = [1604, 1606, 32, 1578, 1592, 1607, 1585, 32, 1607, 1608, 1610, 1578, 1603, 32, 1571, 1608, 32, 1576, 1585,
     1610, 1583, 1603, 32, 1604, 1604, 1605, 1581, 1603, 1617, 1605, 1610, 1606, 32, 1575, 1604, 1570, 1582,
     1585, 1610, 1606, 32, 1571, 1608, 32, 1601, 1610] @ u '' GitHub.''"

definition TXT_HTML_HEAD :: ustr where
  "TXT_HTML_HEAD = u ''<!doctype html><html lang='' @ [34, 97, 114, 34] @ u '' dir='' @ [34] @ u ''rtl'' @ [34] @ u
     ''><body><h1>''"

record mail_content =
  mcSubject :: ustr
  mcPlainText :: ustr
  mcHtml :: ustr

definition mail_lead :: "jsv \<Rightarrow> ustr \<Rightarrow> ustr \<Rightarrow> jsv \<Rightarrow> (ustr \<times> ustr) parsed" where
  "mail_lead eventType packetId actor differenceCount =
    (if str_is eventType ''mention'' then
       Inr (TXT_MENTION_SUBJECT, TXT_MENTION_A @ actor @ TXT_MENTION_B @ packetId @ u ''.'')
     else if str_is eventType ''final-result-difference'' then
       sbind (to_number (js_or differenceCount (JNum 0))) (\<lambda>n.
       Inr (TXT_FINAL_SUBJECT, TXT_FINAL_A @ packetId @ TXT_FINAL_B
         @ (case n of None \<Rightarrow> u ''NaN'' | Some x \<Rightarrow> num_str x) @ TXT_FINAL_C))
     else Inr (TXT_COMMENT_SUBJECT, TXT_COMMENT_A @ actor @ TXT_COMMENT_B @ packetId @ u ''.''))"

definition mail_html :: "ustr \<Rightarrow> ustr \<Rightarrow> ustr \<Rightarrow> ustr \<Rightarrow> ustr" where
  "mail_html subject lead excerpt link =
    TXT_HTML_HEAD @ escape_html subject @ u ''</h1>'' @ u ''<p>'' @ escape_html lead @ u ''</p>''
    @ (if excerpt \<noteq> [] then u ''<blockquote>'' @ escape_html excerpt @ u ''</blockquote>'' else [])
    @ u ''<p><a href='' @ [34] @ escape_html link @ [34] @ u ''>'' @ TXT_OPEN_LINK @ u ''</a></p>''
    @ u ''<p>'' @ TXT_PRIVACY @ u ''</p>'' @ u ''</body></html>''"

definition mail_of :: "ustr \<Rightarrow> ustr \<Rightarrow> ustr \<Rightarrow> ustr \<Rightarrow> mail_content" where
  "mail_of subject lead excerpt link =
    \<lparr>mcSubject = subject,
     mcPlainText = lead @ (if excerpt \<noteq> [] then TXT_EXCERPT @ excerpt else [])
       @ TXT_OPEN @ link @ TXT_PRIVACY_LINE,
     mcHtml = mail_html subject lead excerpt link\<rparr>"

text \<open>\<open>link\<close> is the portal's address with the receipt in its query and the fragment \<open>discussion\<close>.\<close>

definition notification_email_content :: "(ustr \<Rightarrow> ustr) \<Rightarrow> jsv \<Rightarrow> jsv \<Rightarrow> mail_content parsed" where
  "notification_email_content link eventType context =
    (if nullish context then Inl TypeError
     else sbind (safe_inline (dot context ''packetId'') 160) (\<lambda>packetId.
     sbind (safe_inline (js_or (dot context ''actorPseudonym'') (JStr TXT_ANONYMOUS)) 80) (\<lambda>actor.
     sbind (safe_inline (js_or (dot context ''sourceReceiptId'') (JStr [])) 64) (\<lambda>receiptId.
     sbind (mail_lead eventType packetId actor (dot context ''differenceCount'')) (\<lambda>(subject, lead).
     sbind (safe_excerpt (dot context ''excerpt'')) (\<lambda>excerpt.
     Inr (mail_of subject lead excerpt (link receiptId))))))))"

section \<open>Accepted comments\<close>

lemma nullable_uuid_ok: "nullable_uuid e v = Inr r \<Longrightarrow> r = None \<or> (\<exists>s. r = Some s \<and> is_uuid_text s)"
  by (auto simp: nullable_uuid_def sbind_eq_Inr Let_def split: if_splits)

lemma add_uuid_ok:
  assumes "foldE add_uuid acc vs = Inr r" "distinct acc" "list_all is_uuid_text acc"
  shows "distinct r \<and> list_all is_uuid_text r \<and> length r \<le> length acc + length vs"
  using assms
proof (induction vs arbitrary: acc)
  case (Cons v vs)
  from Cons.prems(1) obtain b where b: "add_uuid acc v = Inr b" "foldE add_uuid b vs = Inr r" by (auto simp: sbind_eq_Inr)
  from b(1) obtain x where x: "is_uuid_text x" "b = oset_add acc x"
    by (auto simp: add_uuid_def sbind_eq_Inr Let_def split: if_splits)
  have "distinct b" "list_all is_uuid_text b" using x Cons.prems by (auto simp: list_all_iff)
  with Cons.IH[OF b(2)] have "distinct r \<and> list_all is_uuid_text r \<and> length r \<le> length b + length vs" by blast
  moreover have "length b \<le> length acc + 1" by (simp add: x oset_add_def)
  ultimately show ?case by simp
qed simp

lemma unique_uuid_list_ok:
  "unique_uuid_list v = Inr r \<Longrightarrow> distinct r \<and> list_all is_uuid_text r \<and> length r \<le> 20"
  using add_uuid_ok[of "[]"] by (fastforce simp: unique_uuid_list_def split: jsv.splits if_splits)

text \<open>
  An accepted comment is safe to publish: its body is trimmed, between 20 and 4000 code units
  and matches none of the six patterns of contact data, markup, unsafe links and control
  characters; its category is known; every receipt it names is a version-4 UUID, the mentioned and
  the referenced ones at most twenty without repetition; and a token number is between 1 and 100000.
\<close>

theorem discussion_input_safe:
  assumes "validate_discussion_input v = Inr d"
  shows "js_trim (diBody d) = diBody d \<and> 20 \<le> length (diBody d) \<and> length (diBody d) \<le> 4000
    \<and> \<not> contains_unsafe_public_text (diBody d) \<and> diCategory d \<in> set (map u DISCUSSION_CATEGORIES)
    \<and> (\<forall>i \<in> set_option (diTarget d) \<union> set_option (diParent d) \<union> set (diMentioned d) \<union> set (diReferenced d). is_uuid_text i)
    \<and> distinct (diMentioned d) \<and> length (diMentioned d) \<le> 20
    \<and> distinct (diReferenced d) \<and> length (diReferenced d) \<le> 20
    \<and> (\<forall>t \<in> set_option (diToken d). 1 \<le> t \<and> t \<le> 100000)"
proof -
  from assms obtain cat body target parent sentence token mentioned referenced where
    p: "nullable_uuid TargetIdInvalid (dot v ''targetReceiptId'') = Inr target"
      "nullable_uuid ParentIdInvalid (dot v ''parentCommentId'') = Inr parent"
      "token_number (dot v ''tokenId'') = Inr token"
      "unique_uuid_list (dot v ''mentionedReceiptIds'') = Inr mentioned"
      "unique_uuid_list (dot v ''referencedReceiptIds'') = Inr referenced"
    and b: "\<not> length body < 20" "\<not> length body > 4000" "\<not> unsafe_body body" "js_trim body = body"
      "cat \<in> set (map u DISCUSSION_CATEGORIES)"
    and d: "d = \<lparr>diCategory = cat, diBody = body, diTarget = target, diParent = parent,
            diSentence = sentence, diToken = token, diMentioned = mentioned, diReferenced = referenced\<rparr>"
    unfolding validate_discussion_input_def Let_def by (auto simp: sbind_eq_Inr split: if_splits)
  have "\<forall>t \<in> set_option token. 1 \<le> t \<and> t \<le> 100000"
    using p(3) by (auto simp: token_number_def sbind_eq_Inr integer_between_def le_floor_iff floor_le_iff split: if_splits option.splits)
  moreover have "\<forall>i \<in> set_option target \<union> set_option parent. is_uuid_text i"
    using nullable_uuid_ok[OF p(1)] nullable_uuid_ok[OF p(2)] by auto
  ultimately show ?thesis
    using b unique_uuid_list_ok[OF p(4)] unique_uuid_list_ok[OF p(5)] unfolding d unsafe_body_def by (auto simp: list_all_iff)
qed

section \<open>Escaping\<close>

definition entity :: "nat \<Rightarrow> ustr" where
  "entity c = (if c = 38 then u ''&amp;'' else if c = 60 then u ''&lt;'' else if c = 62 then u ''&gt;''
     else if c = 34 then u ''&quot;'' else if c = 39 then u ''&#39;'' else [c])"

lemma subst_subst: "subst_chars g (subst_chars f s) = subst_chars (\<lambda>c. subst_chars g (f c)) s"
  by (induction s) (auto simp: subst_chars_def)

text \<open>The five replacements in a row are one pass over the characters.\<close>

lemma escape_html_entity: "escape_html s = subst_chars entity s"
proof -
  have "(\<lambda>c. replace_char 39 ''&#39;'' (replace_char 34 ''&quot;''
     (replace_char 62 ''&gt;'' (replace_char 60 ''&lt;'' (if c = 38 then u ''&amp;'' else [c]))))) = entity"
    by (rule ext) (simp add: entity_def replace_char_def subst_chars_def u_def)
  then show ?thesis
    unfolding escape_html_def replace_char_def[of 38]
    by (simp add: replace_char_def subst_subst)
qed

text \<open>The characters of tags and attribute quotes.\<close>

definition markup :: "nat \<Rightarrow> bool" where
  "markup c \<longleftrightarrow> c = 60 \<or> c = 62 \<or> c = 34 \<or> c = 39"

lemma filter_escaped [simp]: "filter markup (escape_html s) = []"
  unfolding escape_html_entity by (induction s) (auto simp: subst_chars_def entity_def u_def markup_def)

text \<open>What a browser reads back from escaped text.\<close>

fun html_decode :: "ustr \<Rightarrow> ustr" where
  "html_decode [] = []"
| "html_decode (c # s) =
    (if c = 38 \<and> take 4 s = u ''amp;'' then 38 # html_decode (drop 4 s)
     else if c = 38 \<and> take 3 s = u ''lt;'' then 60 # html_decode (drop 3 s)
     else if c = 38 \<and> take 3 s = u ''gt;'' then 62 # html_decode (drop 3 s)
     else if c = 38 \<and> take 5 s = u ''quot;'' then 34 # html_decode (drop 5 s)
     else if c = 38 \<and> take 4 s = u ''#39;'' then 39 # html_decode (drop 4 s)
     else c # html_decode s)"

lemma html_decode_escape: "html_decode (escape_html s) = s"
proof -
  have "html_decode (entity c @ t) = c # html_decode t" for c t
    by (simp add: entity_def u_def numeral_eq_Suc)
  then show ?thesis unfolding escape_html_entity by (induction s) (simp_all add: subst_chars_def)
qed

text \<open>
  C29. A notification mail carries no markup of a participant: whatever the context holds, the
  tags and quotes of its HTML are those of the template, with or without the quotation of an
  excerpt; and escaping loses nothing, since a browser reads back the escaped text.
\<close>

theorem mail_markup_is_template:
  assumes "notification_email_content link eventType context = Inr m"
  shows "filter markup (mcHtml m) \<in> (\<lambda>excerpt. filter markup (mail_html [] [] excerpt [])) ` {[], [120]}
    \<and> (\<forall>s. html_decode (escape_html s) = s \<and> filter markup (escape_html s) = [])"
proof -
  from assms obtain subject lead excerpt l where "m = mail_of subject lead excerpt l"
    unfolding notification_email_content_def by (auto simp: sbind_eq_Inr split: if_splits)
  then have "mcHtml m = mail_html subject lead excerpt l" by (simp add: mail_of_def)
  then have "filter markup (mcHtml m) = filter markup (mail_html [] [] (if excerpt = [] then [] else [120]) [])"
    by (simp add: mail_html_def)
  then show ?thesis by (auto simp: html_decode_escape)
qed

definition sample_context :: jsv where
  "sample_context = JObj [(u ''packetId'', JStr (u ''p<1>'')), (u ''actorPseudonym'', JStr (u ''a&b'')),
     (u ''sourceReceiptId'', JStr []), (u ''excerpt'', JStr (u ''<script>''))]"

theorem mail_markup_is_template_witness:
  "\<exists>m. notification_email_content id (JStr (u ''mention'')) sample_context = Inr m
     \<and> filter markup (mcHtml m) \<in> (\<lambda>excerpt. filter markup (mail_html [] [] excerpt [])) ` {[], [120]}"
proof -
  have "\<not> isl (notification_email_content id (JStr (u ''mention'')) sample_context)" by code_simp
  then have "\<exists>m. notification_email_content id (JStr (u ''mention'')) sample_context = Inr m"
    by (cases "notification_email_content id (JStr (u ''mention'')) sample_context") auto
  then obtain m where m: "notification_email_content id (JStr (u ''mention'')) sample_context = Inr m" by blast
  with mail_markup_is_template[OF m] show ?thesis by blast
qed

theorem discussion_input_safe_witness:
  "\<exists>d. validate_discussion_input (JObj [(u ''category'', JStr (u '' question '')),
       (u ''body'', JStr (u ''Is the head of token four right''))]) = Inr d
     \<and> \<not> contains_unsafe_public_text (diBody d)"
proof -
  let ?body = "u ''Is the head of token four right''"
  let ?v = "JObj [(u ''category'', JStr (u '' question '')), (u ''body'', JStr ?body)]"
  let ?d = "\<lparr>diCategory = u ''question'', diBody = ?body, diTarget = None,
     diParent = None, diSentence = None, diToken = None, diMentioned = [], diReferenced = []\<rparr>"
  have "list_all plain_char ?body" by code_simp
  then have safe: "\<not> unsafe_body ?body" unfolding unsafe_body_def by (rule plain_text_safe)
  have fields: "js_is_plain_object ?v" "dot ?v ''category'' = JStr (u '' question '')" "dot ?v ''body'' = JStr ?body"
    "dot ?v ''targetReceiptId'' = JUndef" "dot ?v ''parentCommentId'' = JUndef" "dot ?v ''sentenceId'' = JUndef"
    "dot ?v ''tokenId'' = JUndef" "dot ?v ''mentionedReceiptIds'' = JUndef" "dot ?v ''referencedReceiptIds'' = JUndef"
    by code_simp+
  have parts: "text_or_empty (JStr (u '' question '')) = (Inr (u '' question '') :: ustr parsed)"
    "js_trim (u '' question '') = u ''question''" "u ''question'' \<in> set (map u DISCUSSION_CATEGORIES)"
    "text_or_empty (JStr ?body) = (Inr ?body :: ustr parsed)" "js_trim ?body = ?body"
    by code_simp+
  have bounds: "\<not> length ?body < 20" "\<not> length ?body > 4000" by (simp_all add: u_def)
  have v: "validate_discussion_input ?v = Inr ?d"
    using safe unfolding validate_discussion_input_def fields Let_def
    by (simp only: parts bounds fields sbind_simps if_True if_False simp_thms nullable_uuid_def nullable_text_def token_number_def
        unique_uuid_list_def nullish_simps)
  from discussion_input_safe[OF v] v show ?thesis by auto
qed

section \<open>Counting differences\<close>

text \<open>The elements a \<open>for \<dots> of (v || [])\<close> loop visits.\<close>

definition visited :: "jsv \<Rightarrow> jsv list" where
  "visited v = (case (iter (js_or v (JArr [])) :: jsv list parsed) of Inr xs \<Rightarrow> xs | Inl e \<Rightarrow> [])"

definition token_agrees :: "jsv \<Rightarrow> jsv \<Rightarrow> bool" where
  "token_agrees source t \<longleftrightarrow> (case (keyed_entries ''tokenId'' (dot source ''tokens'')) of
     Inr m \<Rightarrow> (\<exists>x. found_truthy m (dot t ''tokenId'') = Some x \<and> token_decision_key x = token_decision_key t)
   | Inl e \<Rightarrow> False)"

definition sentence_agrees :: "(jsv \<times> jsv) list \<Rightarrow> jsv \<Rightarrow> bool" where
  "sentence_agrees m s \<longleftrightarrow> (case found_truthy m (dot s ''sentenceId'') of None \<Rightarrow> False
     | Some source \<Rightarrow> strict_eq (dot source ''structurallyAcceptable'') (dot s ''structurallyAcceptable'')
         \<and> strict_eq (dot source ''completePredicate'') (dot s ''completePredicate'')
         \<and> (\<forall>t \<in> set (visited (dot s ''tokens'')). token_agrees source t))"

lemma token_fold:
  assumes "foldE (token_difference m) n ts = Inr r"
  shows "n \<le> r \<and> r \<le> n + length ts
    \<and> (r = n \<longleftrightarrow> (\<forall>t \<in> set ts. \<exists>x. found_truthy m (dot t ''tokenId'') = Some x \<and> token_decision_key x = token_decision_key t))"
  using assms
proof (induction ts arbitrary: n)
  case (Cons t ts)
  then obtain b where b: "token_difference m n t = Inr b" "foldE (token_difference m) b ts = Inr r" by (auto simp: sbind_eq_Inr)
  then have "b = n + differing (case found_truthy m (dot t ''tokenId'') of None \<Rightarrow> True
      | Some x \<Rightarrow> token_decision_key x \<noteq> token_decision_key t)"
    by (auto simp: token_difference_def field_def sbind_eq_Inr split: if_splits)
  with Cons.IH[OF b(2)] show ?case by (auto simp: differing_def split: option.splits if_splits)
qed simp

lemma elems_visited: "length (elems v) \<le> length (visited v)"
  by (cases v) (simp_all add: visited_def iter_def js_or_def)

lemma sentence_step:
  assumes "sentence_difference m n s = Inr r"
  shows "n \<le> r \<and> r \<le> n + 2 + length (visited (dot s ''tokens'')) \<and> (r = n \<longleftrightarrow> sentence_agrees m s)"
proof (cases "found_truthy m (dot s ''sentenceId'')")
  case None
  with assms have "r = n + 1 + token_count s"
    by (auto simp: sentence_difference_def field_def sbind_eq_Inr split: if_splits)
  then show ?thesis
    using None elems_visited[of "dot s ''tokens''"] by (simp add: sentence_agrees_def token_count_def)
next
  case (Some source)
  let ?n = "n + differing (\<not> strict_eq (dot source ''structurallyAcceptable'') (dot s ''structurallyAcceptable''))
             + differing (\<not> strict_eq (dot source ''completePredicate'') (dot s ''completePredicate''))"
  from assms Some obtain ks ts where ks: "keyed_entries ''tokenId'' (dot source ''tokens'') = Inr ks"
    and ts: "iter (js_or (dot s ''tokens'') (JArr [])) = (Inr ts :: jsv list parsed)"
    and f: "foldE (token_difference ks) ?n ts = Inr r"
    by (auto simp: sentence_difference_def field_def sbind_eq_Inr Let_def split: if_splits)
  have v: "visited (dot s ''tokens'') = ts" by (simp add: visited_def ts)
  from token_fold[OF f] Some ks show ?thesis
    by (auto simp: sentence_agrees_def v token_agrees_def differing_def split: if_splits)
qed

lemma sentence_fold:
  "foldE (sentence_difference m) n ss = Inr r \<Longrightarrow> n \<le> r
    \<and> r \<le> n + (\<Sum>s \<leftarrow> ss. 2 + length (visited (dot s ''tokens''))) \<and> (r = n \<longleftrightarrow> (\<forall>s \<in> set ss. sentence_agrees m s))"
proof (induction ss arbitrary: n)
  case (Cons s ss)
  then obtain b where b: "sentence_difference m n s = Inr b" "foldE (sentence_difference m) b ss = Inr r"
    by (auto simp: sbind_eq_Inr)
  from sentence_step[OF b(1)] Cons.IH[OF b(2)] show ?case by auto
qed simp

text \<open>
  The difference count is zero exactly when the annotation made every decision of the final
  result: each final sentence is in the annotation with the same two judgements and the same
  decision for each of its tokens. It never exceeds the number of decisions, two per sentence and
  one per token.
\<close>

theorem differences_counted:
  assumes "count_decision_differences annotation finalDecision = Inr n"
    "keyed_entries ''sentenceId'' (dot annotation ''sentences'') = Inr m"
  shows "(n = 0 \<longleftrightarrow> (\<forall>s \<in> set (visited (dot finalDecision ''sentences'')). sentence_agrees m s))
    \<and> n \<le> (\<Sum>s \<leftarrow> visited (dot finalDecision ''sentences''). 2 + length (visited (dot s ''tokens'')))"
proof -
  from assms obtain ss where ss: "iter (js_or (dot finalDecision ''sentences'') (JArr [])) = (Inr ss :: jsv list parsed)"
    and f: "foldE (sentence_difference m) 0 ss = Inr n"
    by (auto simp: count_decision_differences_def sbind_eq_Inr)
  have "visited (dot finalDecision ''sentences'') = ss" by (simp add: visited_def ss)
  with sentence_fold[OF f] show ?thesis by simp
qed

definition sample_final :: "bool \<Rightarrow> jsv" where
  "sample_final b = JObj [(u ''sentences'', JArr [JObj [(u ''sentenceId'', JStr (u ''s1'')),
     (u ''structurallyAcceptable'', JBool b), (u ''tokens'', JArr [JObj [(u ''tokenId'', JNum 1)]])]])]"

theorem differences_counted_witness:
  "count_decision_differences (sample_final True) (sample_final False) = Inr 1
   \<and> \<not> (\<forall>s \<in> set (visited (dot (sample_final False) ''sentences'')).
        sentence_agrees [(JStr (u ''s1''), hd (elems (dot (sample_final True) ''sentences'')))] s)"
proof -
  have c: "count_decision_differences (sample_final True) (sample_final False) = Inr 1" by code_simp
  have k: "keyed_entries ''sentenceId'' (dot (sample_final True) ''sentences'')
      = Inr [(JStr (u ''s1''), hd (elems (dot (sample_final True) ''sentences'')))]" by code_simp
  from differences_counted[OF c k] c show ?thesis by simp
qed

end
