(* ===== verification/Json.thy ===== *)
theory Json
  imports JsText
begin

text \<open>
  \<open>JSON.parse\<close> on code units: the grammar of ECMA-404, the last of equal keys wins at the place of
  the first, and array-index keys come first in ascending order, as the own keys of an object do.
  The first argument is fuel: a level of nesting takes two units of it and has an opening and a
  closing character, and an element or member takes one and ends with a separator, so that one more
  than the length of the text is enough. A number literal beyond the doubles, which
  JavaScript reads as an infinity, has no value here and is refused.
\<close>

definition json_space :: "nat \<Rightarrow> bool" where
  "json_space c \<longleftrightarrow> c = 32 \<or> c = 9 \<or> c = 10 \<or> c = 13"

definition skip_space :: "ustr \<Rightarrow> ustr" where
  "skip_space s = dropWhile json_space s"

definition hex_unit :: "ustr \<Rightarrow> nat option" where
  "hex_unit s = (if length s = 4 then radix_value 16 0 s else None)"

definition json_escape :: "nat \<Rightarrow> nat option" where
  "json_escape c = map_of [(34, 34), (92, 92), (47, 47), (98, 8), (102, 12), (110, 10), (114, 13), (116, 9)] c"

text \<open>The rest of a string literal after its opening quote, with the text that follows it.\<close>

fun string_rest :: "ustr \<Rightarrow> (ustr \<times> ustr) option" where
  "string_rest [] = None"
| "string_rest (c # s) =
    (if c = 34 then Some ([], s)
     else if c < 32 then None
     else if c \<noteq> 92 then map_option (apfst (Cons c)) (string_rest s)
     else case s of [] \<Rightarrow> None
       | e # t \<Rightarrow>
           if e = 117 then (case hex_unit (take 4 t) of None \<Rightarrow> None
             | Some v \<Rightarrow> map_option (apfst (Cons v)) (string_rest (drop 4 t)))
           else (case json_escape e of None \<Rightarrow> None
             | Some v \<Rightarrow> map_option (apfst (Cons v)) (string_rest t)))"

definition JSON_NUMBER :: rx where
  "JSON_NUMBER = rseq [ropt (rlit ''-''), RAlt (rlit ''0'') (RSeq (RCls (rng CHR ''1'' CHR ''9'')) (RStar (RCls digit))),
     ropt (RSeq (rlit ''.'') (ratleast 1 (RCls digit))),
     ropt (rseq [RCls (one_of ''eE''), ropt (RCls (one_of ''+-'')), ratleast 1 (RCls digit)])]"

definition number_char :: "nat \<Rightarrow> bool" where
  "number_char c \<longleftrightarrow> digit c \<or> one_of ''+-.eE'' c"

definition json_number :: "ustr \<Rightarrow> (jsv \<times> ustr) option" where
  "json_number s =
    (let t = takeWhile number_char s in
     if matches JSON_NUMBER t
     then map_option (\<lambda>x. (JNum x, dropWhile number_char s)) (Option.bind (decimal_literal t) finite_double)
     else None)"

definition json_literal :: "string \<Rightarrow> jsv \<Rightarrow> ustr \<Rightarrow> (jsv \<times> ustr) option" where
  "json_literal name v s = (if take (length name) s = u name then Some (v, drop (length name) s) else None)"

definition array_index :: "ustr \<Rightarrow> nat option" where
  "array_index k = (if k = [] \<or> list_ex (\<lambda>c. \<not> digit c) k \<or> length k > 10 then None
     else if nat_str (digits_val k) = k \<and> int (digits_val k) < 4294967295 then Some (digits_val k) else None)"

definition object_of :: "(ustr \<times> jsv) list \<Rightarrow> jsv" where
  "object_of kvs = (let m = foldl (\<lambda>m (k, v). omap_set k v m) [] kvs in
     JObj (sort_key (\<lambda>(k, v). the (array_index k)) (filter (\<lambda>(k, v). array_index k \<noteq> None) m)
           @ filter (\<lambda>(k, v). array_index k = None) m))"

fun json_value :: "nat \<Rightarrow> ustr \<Rightarrow> (jsv \<times> ustr) option"
and json_elements :: "nat \<Rightarrow> ustr \<Rightarrow> (jsv list \<times> ustr) option"
and json_members :: "nat \<Rightarrow> ustr \<Rightarrow> ((ustr \<times> jsv) list \<times> ustr) option" where
  "json_value 0 s = None"
| "json_value (Suc n) s =
    (case skip_space s of [] \<Rightarrow> None
     | c # t \<Rightarrow>
         if c = 123 then (case skip_space t of [] \<Rightarrow> None
           | d # r \<Rightarrow> if d = 125 then Some (JObj [], r)
               else map_option (apfst object_of) (json_members n (d # r)))
         else if c = 91 then (case skip_space t of [] \<Rightarrow> None
           | d # r \<Rightarrow> if d = 93 then Some (JArr [], r)
               else map_option (apfst JArr) (json_elements n (d # r)))
         else if c = 34 then map_option (apfst JStr) (string_rest t)
         else if c = 116 then json_literal ''true'' (JBool True) (c # t)
         else if c = 102 then json_literal ''false'' (JBool False) (c # t)
         else if c = 110 then json_literal ''null'' JNull (c # t)
         else json_number (c # t))"
| "json_elements 0 s = None"
| "json_elements (Suc n) s =
    (case json_value n s of None \<Rightarrow> None
     | Some (v, t) \<Rightarrow> (case skip_space t of [] \<Rightarrow> None
         | c # r \<Rightarrow> if c = 93 then Some ([v], r)
             else if c = 44 then map_option (apfst (Cons v)) (json_elements n r)
             else None))"
| "json_members 0 s = None"
| "json_members (Suc n) s =
    (case skip_space s of [] \<Rightarrow> None
     | c # t \<Rightarrow>
         if c \<noteq> 34 then None
         else (case string_rest t of None \<Rightarrow> None
           | Some (k, r) \<Rightarrow> (case skip_space r of [] \<Rightarrow> None
               | d # q \<Rightarrow>
                   if d \<noteq> 58 then None
                   else (case json_value n q of None \<Rightarrow> None
                     | Some (v, p) \<Rightarrow> (case skip_space p of [] \<Rightarrow> None
                         | e # m \<Rightarrow> if e = 125 then Some ([(k, v)], m)
                             else if e = 44 then map_option (apfst (Cons (k, v))) (json_members n m)
                             else None)))))"

definition json_parse :: "ustr \<Rightarrow> jsv option" where
  "json_parse s = (case json_value (length s + 1) s of None \<Rightarrow> None
     | Some (v, rest) \<Rightarrow> if skip_space rest = [] then Some v else None)"

section \<open>Examples\<close>

lemma json_parse_array: "json_parse (u ''[true,null]'') = Some (JArr [JBool True, JNull])"
  by code_simp

text \<open>\<open>{"a":"x\u0041"}\<close>\<close>

lemma json_parse_object:
  "json_parse [123, 34, 97, 34, 58, 34, 120, 92, 117, 48, 48, 52, 49, 34, 125] = Some (JObj [(u ''a'', JStr (u ''xA''))])"
  by code_simp

lemma object_of_repeated:
  "object_of [(u ''b'', JNull), (u ''1'', JNull), (u ''b'', JBool True)] = JObj [(u ''1'', JNull), (u ''b'', JBool True)]"
  by code_simp

lemma json_parse_refused: "json_parse (u ''[null,]'') = None" "json_parse [] = None"
  by code_simp+

end
