(* ===== verification/Submission.thy ===== *)
theory Submission
  imports Governance Intake Discussion Json
begin

text \<open>
  \<open>receiveSubmission\<close> of \<open>src/index.js\<close> with what it calls: the repository assignment, the
  eligibility of the role, the transaction that records a contribution, and the notices about a
  final result. The session is an account, the challenge service an argument; identity data is
  encrypted into a payload the tables of the model do not have.
\<close>

section \<open>The request\<close>

record submission_config =
  scEnabled :: bool
  scMaxBytes :: nat
  scUnicode :: unicode
  scChallenge :: "ustr \<Rightarrow> bool"

record submission_http =
  shContentLength :: "ustr option"
  shText :: ustr

definition too_long :: "nat \<Rightarrow> ustr option \<Rightarrow> bool" where
  "too_long maxBytes header = (case string_number (case header of None \<Rightarrow> [] | Some s \<Rightarrow> s) of
     None \<Rightarrow> False | Some n \<Rightarrow> n > of_nat maxBytes)"

definition admit_submission :: "env \<Rightarrow> submission_config \<Rightarrow> account \<Rightarrow> submission_http \<Rightarrow> (jsv \<times> task_request) answer" where
  "admit_submission env cfg account http =
    (if \<not> scEnabled cfg then refuse 503 SubmissionsPaused
     else if acEmailHash account = None \<or> acEmailHash account = Some [] then refuse 403 EmailUnverified
     else if acErasurePending account then refuse 409 ErasurePending
     else if too_long (scMaxBytes cfg) (shContentLength http) then refuse 413 BodyTooLarge
     else if length (utf8_encode (shText http)) > scMaxBytes cfg then refuse 413 BodyTooLarge
     else (case json_parse (shText http) of None \<Rightarrow> refuse 400 BodyInvalid
     | Some submission \<Rightarrow>
        sbind (validate_submission (scUnicode cfg) False submission) (\<lambda>_.
        sbind (validate_artifact_for_server (envSha256 env) (dot submission ''artifact'')) (\<lambda>_.
        sbind (submission_task (envSha256 env) (dot submission ''artifact'')) (\<lambda>task.
        Inr (submission, task))))))"

definition artifact_sha256 :: "env \<Rightarrow> jsv \<Rightarrow> ustr" where
  "artifact_sha256 env artifact = sha256_json (envSha256 env) artifact"

definition independent_role :: "crole \<Rightarrow> bool" where
  "independent_role r \<longleftrightarrow> r = RoleA \<or> r = RoleB"

text \<open>\<open>WHERE user_id = ? AND (task_version_id = ? OR holdout_id = ?)\<close>\<close>

definition took_part :: "ustr \<Rightarrow> ustr \<Rightarrow> ustr \<Rightarrow> cdb \<Rightarrow> bool" where
  "took_part userId taskVersionId holdoutId db \<longleftrightarrow>
     (\<exists>p \<in> set (participations db). paUser p = userId \<and> (paTask p = taskVersionId \<or> paHoldout p = holdoutId))"

definition check_access :: "env \<Rightarrow> submission_config \<Rightarrow> account \<Rightarrow> jsv \<Rightarrow> task_request \<Rightarrow> unit db" where
  "check_access env cfg account submission task =
    (let taskId = tiId (rqIdentity task) in
     st_bind (st_get (\<lambda>db. List.find (\<lambda>c. ctTask c = taskId) (catalog db))) (\<lambda>entry.
     st_bind (st_ensure (case entry of None \<Rightarrow> True | Some c \<Rightarrow> ctLane c \<noteq> OperationalLane)
        (public_error 409 OperationalPacket)) (\<lambda>_.
     st_bind (st_get (\<lambda>db. \<exists>v \<in> set (views db). vwUser v = acId account \<and> vwTask v = taskId)) (\<lambda>seen.
     st_bind (st_ensure (\<not> (seen \<and> independent_role (rqRole task))) (public_error 409 ResultsAlreadySeen)) (\<lambda>_.
     st_bind (st_ensure (scChallenge cfg (js_string (dot submission ''turnstileToken'')))
        (public_error 403 ChallengeFailed)) (\<lambda>_.
     st_bind (st_ensure (JStr (artifact_sha256 env (dot submission ''artifact'')) = dot submission ''artifactSha256'')
        (public_error 400 ArtifactChanged)) (\<lambda>_.
     st_bind (st_get (took_part (acId account) taskId (tiHoldoutId (rqIdentity task)))) (\<lambda>prior.
     st_ensure (\<not> prior) (public_error 409 AlreadyParticipated)))))))))"

definition locate_task :: "env \<Rightarrow> task_request \<Rightarrow> task_row db" where
  "locate_task env task =
    st_catch (st_bind (get_consensus_task (tiId (rqIdentity task))) (\<lambda>existing.
        st_bind (st_ensure (existing \<noteq> None \<or> independent_role (rqRole task)) (public_error 409 IndependentFirst)) (\<lambda>_.
        st_bind (date_now env) (\<lambda>now.
        ensure_consensus_task env (rqPacket task) (rqPacketRoot task) now))))
      (\<lambda>e. case e of Thrown (ConsensusConflict c) \<Rightarrow> st_throw (public_error 409 (Registration c)) | _ \<Rightarrow> st_throw e)"

section \<open>Assignment and eligibility\<close>

definition open_assignment :: "account \<Rightarrow> ustr \<Rightarrow> ustr \<Rightarrow> crole \<Rightarrow> assignment_row \<Rightarrow> bool" where
  "open_assignment account taskId roundId r a \<longleftrightarrow> asTask a = taskId \<and> asRound a = roundId \<and> asRole a = r
     \<and> (asStatus a = AsInvited \<or> asStatus a = AsClaimed)
     \<and> (asUser a = Some (acId account) \<or> asUser a = None \<and> Some (asEmailHash a) = acEmailHash account)"

definition required_repository_task_assignment ::
  "account \<Rightarrow> task_request \<Rightarrow> task_row \<Rightarrow> round_row option \<Rightarrow> assignment_row option db" where
  "required_repository_task_assignment account task row rnd =
    st_bind (st_get (\<lambda>db. List.find (\<lambda>c. ctTask c = tvId row \<and> ctLane c = StandardLane) (catalog db))) (\<lambda>entry.
    (case entry of None \<Rightarrow> st_return None
     | Some c \<Rightarrow> if \<not> ctActive c then st_throw (public_error 409 TaskWithdrawn) else
        st_bind (deref rnd) (\<lambda>r.
        st_bind (st_get (\<lambda>db. List.find (open_assignment account (tvId row) (rdId r) (rqRole task)) (assignments db)))
          (\<lambda>found. case found of None \<Rightarrow> st_throw (public_error 403 ClaimFirst) | Some a \<Rightarrow> st_return (Some a)))))"

definition allowed_states :: "crole \<Rightarrow> task_state set" where
  "allowed_states r = (case r of RoleJ1 \<Rightarrow> {Discussion} | RoleJ2 \<Rightarrow> {FinalReview} | _ \<Rightarrow> {Open, IndependentReview})"

text \<open>\<open>ORDER BY consensus_role\<close>: A before B.\<close>

definition independent_rows :: "ustr \<Rightarrow> ustr \<Rightarrow> cdb \<Rightarrow> submission_row list" where
  "independent_rows taskId roundId db =
    (let rows = (\<lambda>r. filter (\<lambda>s. sbTask s = taskId \<and> sbRound s = roundId \<and> sbRole s = r \<and> sbActive s) (submissions db))
     in rows RoleA @ rows RoleB)"

definition stored_root :: "env \<Rightarrow> jsv \<Rightarrow> ustr checked" where
  "stored_root env artifact = compute_annotation_root (envSha256 env) (dot artifact ''packet'') (dot artifact ''annotation'')"

definition bound_to_independent :: "env \<Rightarrow> jsv \<Rightarrow> submission_row list \<Rightarrow> unit db" where
  "bound_to_independent env artifact rows =
    st_bind (st_ensure (length rows = 2) (public_error 409 IndependentMissing)) (\<lambda>_.
    st_bind (lift_protocol (mapE (\<lambda>s. stored_root env (sbArtifact s)) rows)) (\<lambda>roots.
    st_ensure (card (set roots) = 2
        \<and> list_all (\<lambda>k. dot (dot artifact ''adjudication'') k \<in> JStr ` set roots)
            [''annotationAMerkleRoot'', ''annotationBMerkleRoot''])
      (public_error 409 RootsNotBound)))"

definition proposed_final :: "ustr \<Rightarrow> ustr \<Rightarrow> jsv \<Rightarrow> cdb \<Rightarrow> (final_row \<times> submission_row) option" where
  "proposed_final taskId roundId receipt db =
    (case List.find (\<lambda>f. JStr (fiPrimary f) = receipt \<and> fiTask f = taskId \<and> fiRound f = roundId
        \<and> fiStatus f = FinalProposed) (finals db) of None \<Rightarrow> None
     | Some f \<Rightarrow> map_option (Pair f) (List.find (\<lambda>s. sbReceipt s = fiPrimary f) (submissions db)))"

definition ratified_final :: "task_row \<Rightarrow> round_row \<Rightarrow> jsv \<Rightarrow> (final_row \<times> submission_row) db" where
  "ratified_final row rnd artifact =
    st_bind (st_get (proposed_final (tvId row) (rdId rnd) (dot (dot artifact ''ratification'') ''primaryReceiptId'')))
      (\<lambda>found. case found of None \<Rightarrow> st_throw (public_error 409 PrimaryNotBound)
        | Some (f, s) \<Rightarrow>
            if JStr (fiRoot f) = dot (dot artifact ''ratification'') ''primaryAdjudicationMerkleRoot''
            then st_return (f, s) else st_throw (public_error 409 PrimaryNotBound))"

definition validate_consensus_eligibility ::
  "env \<Rightarrow> account \<Rightarrow> task_request \<Rightarrow> task_row \<Rightarrow> round_row option \<Rightarrow> jsv
    \<Rightarrow> (round_row \<times> (final_row \<times> submission_row) option) db" where
  "validate_consensus_eligibility env account task row found artifact =
    (case found of None \<Rightarrow> st_throw (public_error 409 RoundNotOpen)
     | Some rnd \<Rightarrow>
    st_bind (st_ensure (rdStatus rnd = RoundOpen) (public_error 409 RoundNotOpen)) (\<lambda>_.
    st_bind (st_ensure (tvState row \<in> allowed_states (rqRole task))
        (public_error 409 (RoleNotAvailable (rqRole task) (tvState row)))) (\<lambda>_.
    st_bind (st_get (took_part (acId account) (tvId row) (tiHoldoutId (rqIdentity task)))) (\<lambda>existing.
    st_bind (st_ensure (\<not> existing) (public_error 409 AlreadyParticipated)) (\<lambda>_.
    st_bind (st_get (\<lambda>db. \<exists>p \<in> set (participations db). paRound p = rdId rnd \<and> paRole p = rqRole task)) (\<lambda>occupied.
    st_bind (st_ensure (\<not> occupied) (public_error 409 RoleTaken)) (\<lambda>_.
    if independent_role (rqRole task) then st_return (rnd, None)
    else if rqRole task = RoleJ1 then
      st_bind (st_get (independent_rows (tvId row) (rdId rnd))) (\<lambda>rows.
      st_bind (bound_to_independent env artifact rows) (\<lambda>_. st_return (rnd, None)))
    else st_bind (ratified_final row rnd artifact) (\<lambda>primary. st_return (rnd, Some primary)))))))))"

section \<open>The transaction\<close>

record contribution =
  coAccount :: account
  coSubmission :: jsv
  coTask :: task_request
  coRow :: task_row
  coRound :: round_row
  coPrimary :: "(final_row \<times> submission_row) option"
  coAssignment :: "assignment_row option"

definition artifact_of :: "contribution \<Rightarrow> jsv" where
  "artifact_of c = dot (coSubmission c) ''artifact''"

definition decides :: "contribution \<Rightarrow> string \<Rightarrow> bool" where
  "decides c decision \<longleftrightarrow> rqRole (coTask c) = RoleJ2
     \<and> str_is (dot (dot (artifact_of c) ''ratification'') ''decision'') decision"

definition participant_pseudonym :: "ustr \<Rightarrow> ustr" where
  "participant_pseudonym receiptId = u ''adg-'' @ take 12 receiptId"

definition submission_row_of :: "env \<Rightarrow> contribution \<Rightarrow> ustr \<Rightarrow> int \<Rightarrow> submission_row" where
  "submission_row_of env c receiptId receivedAt =
    \<lparr>sbReceipt = receiptId, sbUser = acId (coAccount c), sbPacket = rqPacketId (coTask c), sbRole = rqRole (coTask c),
     sbTask = tvId (coRow c), sbRound = rdId (coRound c), sbRoundNumber = rdNumber (coRound c),
     sbHoldout = tiHoldoutId (rqIdentity (coTask c)), sbPseudonym = participant_pseudonym receiptId,
     sbArtifactType = js_string (dot (coSubmission c) ''artifactType''), sbArtifactSha = artifact_sha256 env (artifact_of c),
     sbSubmittedAt = receivedAt, sbArtifact = artifact_of c, sbActive = True, sbImported = False\<rparr>"

definition participation_row_of :: "contribution \<Rightarrow> ustr \<Rightarrow> ustr \<Rightarrow> participation_row" where
  "participation_row_of c rowId receiptId =
    \<lparr>paId = rowId, paTask = tvId (coRow c), paRound = rdId (coRound c), paHoldout = tiHoldoutId (rqIdentity (coTask c)),
     paUser = acId (coAccount c), paRole = rqRole (coTask c),
     paStatus = (if decides c ''recuse'' then PaRecused else PaSubmitted), paReceipt = Some receiptId\<rparr>"

definition SUBMISSION_BOUNDARIES :: jsv where
  "SUBMISSION_BOUNDARIES = JArr
     [JStr (u ''Participant identity is stored separately and is not present here.''),
      JStr (u ''This submission is untrusted until repository validation passes.''),
      JStr (u ''Pilot submissions cannot become final MSA readiness evidence.'')]"

definition public_envelope :: "env \<Rightarrow> contribution \<Rightarrow> ustr \<Rightarrow> int \<Rightarrow> (ustr \<times> jsv) list" where
  "public_envelope env c receiptId receivedAt =
    [(u ''schema'', JStr (u ''adg-msa-github-inbox-v1'')), (u ''receiptId'', JStr receiptId),
     (u ''participantPseudonym'', JStr (participant_pseudonym receiptId)),
     (u ''receivedAtUtc'', JStr (iso_string receivedAt)), (u ''artifactType'', dot (coSubmission c) ''artifactType''),
     (u ''artifactSha256'', JStr (artifact_sha256 env (artifact_of c))),
     (u ''attestation'', dot (coSubmission c) ''attestation''), (u ''artifact'', artifact_of c),
     (u ''claimBoundaries'', SUBMISSION_BOUNDARIES)]"

definition submission_key :: "ustr \<Rightarrow> ustr" where
  "submission_key receiptId = u ''submission:'' @ receiptId"

definition delivery_row :: "env \<Rightarrow> contribution \<Rightarrow> ustr \<Rightarrow> ustr \<Rightarrow> int \<Rightarrow> outbox_row" where
  "delivery_row env c rowId receiptId receivedAt =
    \<lparr>obId = rowId, obKind = SubmissionEvidence, obTask = tvId (coRow c), obRelated = receiptId,
     obPayload = signed_envelope env (public_envelope env c receiptId receivedAt), obDedupe = submission_key receiptId,
     obStatus = (if independent_role (rqRole (coTask c)) then Held else Pending), obAttempts = 0,
     obNextAttemptAt = receivedAt, obLastError = None, obCreatedAt = receivedAt, obSentAt = None\<rparr>"

definition proposed_row :: "contribution \<Rightarrow> ustr \<Rightarrow> ustr \<Rightarrow> int \<Rightarrow> final_row" where
  "proposed_row c receiptId finalRoot receivedAt =
    \<lparr>fiPrimary = receiptId, fiTask = tvId (coRow c), fiRound = rdId (coRound c), fiSecondary = None, fiRoot = finalRoot,
     fiStatus = FinalProposed, fiProposedAt = receivedAt, fiApprovedAt = None, fiPublishedAt = None,
     fiRevokedAt = None, fiRevocationReason = None\<rparr>"

definition approve_final :: "contribution \<Rightarrow> final_row \<Rightarrow> ustr \<Rightarrow> int \<Rightarrow> stmt" where
  "approve_final c primary receiptId receivedAt =
     update_finals (\<lambda>f. fiPrimary f = fiPrimary primary \<and> fiTask f = tvId (coRow c) \<and> fiRound f = rdId (coRound c)
         \<and> JStr (fiRoot f) = dot (dot (artifact_of c) ''ratification'') ''primaryAdjudicationMerkleRoot''
         \<and> fiStatus f = FinalProposed \<and> fiSecondary f = None)
       (\<lambda>f. f\<lparr>fiSecondary := Some receiptId, fiStatus := FinalActive, fiApprovedAt := Some receivedAt\<rparr>)"

definition recusal_row_of :: "contribution \<Rightarrow> ustr \<Rightarrow> recusal_row" where
  "recusal_row_of c rowId =
    \<lparr>reId = rowId, reTask = tvId (coRow c), reRound = rdId (coRound c), reUser = acId (coAccount c),
     reReason = js_string (dot (dot (artifact_of c) ''ratification'') ''rationale'')\<rparr>"

definition submit_assignment :: "contribution \<Rightarrow> assignment_row \<Rightarrow> ustr \<Rightarrow> int \<Rightarrow> stmt" where
  "submit_assignment c a receiptId receivedAt =
     update_assignments (\<lambda>x. asId x = asId a \<and> asRole x = rqRole (coTask c) \<and> (asStatus x = AsInvited \<or> asStatus x = AsClaimed)
         \<and> (asUser x = None \<or> asUser x = Some (acId (coAccount c))))
       (\<lambda>x. x\<lparr>asUser := Some (acId (coAccount c)), asStatus := AsSubmitted, asReceipt := Some receiptId,
          asClaimedAt := (case asClaimedAt x of None \<Rightarrow> Some receivedAt | Some t \<Rightarrow> Some t),
          asSubmittedAt := Some receivedAt\<rparr>)"

text \<open>\<open>writes\<close>: \<open>finalRoot\<close> is the Merkle root of a J1 decision, \<open>recusalId\<close> the identifier of a recusal.\<close>

definition submission_writes ::
  "env \<Rightarrow> contribution \<Rightarrow> ustr \<Rightarrow> int \<Rightarrow> ustr \<Rightarrow> ustr \<Rightarrow> ustr \<Rightarrow> ustr \<Rightarrow> stmt list" where
  "submission_writes env c receiptId receivedAt deliveryId participationId finalRoot recusalId =
    [insert_submission (submission_row_of env c receiptId receivedAt),
     insert_participation (participation_row_of c participationId receiptId),
     insert_outbox False (delivery_row env c deliveryId receiptId receivedAt)]
    @ (if rqRole (coTask c) = RoleJ1 then [insert_final (proposed_row c receiptId finalRoot receivedAt)] else [])
    @ (case coPrimary c of Some (f, s) \<Rightarrow> if decides c ''agree'' then [approve_final c f receiptId receivedAt] else []
       | None \<Rightarrow> [])
    @ (if decides c ''recuse'' then [insert_recusal (recusal_row_of c recusalId)] else [])
    @ (case coAssignment c of Some a \<Rightarrow> [submit_assignment c a receiptId receivedAt] | None \<Rightarrow> [])"

text \<open>The adjudication root of a J1 contribution is computed only for that role.\<close>

definition primary_root :: "env \<Rightarrow> contribution \<Rightarrow> ustr checked" where
  "primary_root env c =
    (if rqRole (coTask c) = RoleJ1
     then compute_adjudication_root (envSha256 env) (dot (artifact_of c) ''packet'') (dot (artifact_of c) ''annotationA'')
       (dot (artifact_of c) ''annotationB'') (dot (artifact_of c) ''adjudication'')
     else Inr [])"

definition record_contribution :: "env \<Rightarrow> contribution \<Rightarrow> ustr db" where
  "record_contribution env c =
    st_bind (random_uuid env) (\<lambda>receiptId.
    st_bind (date_now env) (\<lambda>receivedAt.
    st_bind (random_uuid env) (\<lambda>deliveryId.
    st_bind (random_uuid env) (\<lambda>participationId.
    st_bind (lift_protocol (primary_root env c)) (\<lambda>finalRoot.
    st_bind (if decides c ''recuse'' then random_uuid env else st_return []) (\<lambda>recusalId.
    st_bind (st_catch (db_batch (submission_writes env c receiptId receivedAt deliveryId participationId finalRoot recusalId))
        (\<lambda>_. st_throw (public_error 409 WriteConflict))) (\<lambda>changes.
    st_bind (st_ensure (list_all (\<lambda>n. n = 1) changes) (public_error 409 WriteIncomplete)) (\<lambda>_.
    st_return receiptId))))))))"

section \<open>After the transaction\<close>

definition open_transition :: "contribution \<Rightarrow> transition" where
  "open_transition c =
     (plain_transition IndependentReview (Some (rdId (coRound c))) (u ''independent-review-opened'')
       (u ''first-independent-submission'') (JObj [(u ''roundNumber'', jint (int (rdNumber (coRound c))))])
       (u ''independent-open:'' @ tvId (coRow c) @ u '':'' @ rdId (coRound c)))
     \<lparr>trActorUser := Some (acId (coAccount c))\<rparr>"

definition open_review :: "env \<Rightarrow> contribution \<Rightarrow> task_row option db" where
  "open_review env c =
    (if independent_role (rqRole (coTask c)) \<and> tvState (coRow c) = Open
     then on_conflict
       (st_bind (transition_consensus_task env (coRow c) (open_transition c)) (\<lambda>moved.
        st_bind (ensure_task_state_evidence env moved) (\<lambda>_. st_return moved)))
       (get_consensus_task (tvId (coRow c)))
     else st_return (Some (coRow c)))"

definition enqueue_notification :: "env \<Rightarrow> (ustr \<Rightarrow> notice_row) \<Rightarrow> unit db" where
  "enqueue_notification env row =
    st_bind (date_now env) (\<lambda>_.
    st_bind (random_uuid env) (\<lambda>rowId.
    st_bind (db_run (insert_notice_or_ignore (row rowId))) (\<lambda>_. st_return ())))"

definition lift_discussion :: "'a parsed \<Rightarrow> 'a db" where
  "lift_discussion r = (case r of Inr x \<Rightarrow> st_return x | Inl _ \<Rightarrow> st_throw TypeError)"

definition final_notice :: "jsv \<Rightarrow> ustr \<Rightarrow> ustr \<Rightarrow> submission_row \<Rightarrow> nat \<Rightarrow> ustr \<Rightarrow> notice_row" where
  "final_notice packetId finalReceiptId finalPseudonym s differences rowId =
    \<lparr>ntId = rowId, ntRecipient = sbUser s, ntEventType = u ''final-result-difference'', ntPacket = js_string packetId,
     ntComment = None, ntSource = sbReceipt s,
     ntContext = JObj [(u ''packetId'', packetId), (u ''sourceReceiptId'', JStr (sbReceipt s)),
        (u ''finalReceiptId'', JStr finalReceiptId), (u ''actorPseudonym'', JStr finalPseudonym),
        (u ''differenceCount'', jint (int differences))],
     ntDedupe = u ''final-result-difference:'' @ finalReceiptId @ u '':'' @ sbUser s\<rparr>"

definition notify_difference :: "env \<Rightarrow> ustr \<Rightarrow> ustr \<Rightarrow> jsv \<Rightarrow> submission_row \<Rightarrow> unit db" where
  "notify_difference env finalReceiptId finalPseudonym finalArtifact s =
    st_bind (lift_protocol (stored_root env (sbArtifact s))) (\<lambda>finalRoot.
    if \<not> list_ex (\<lambda>k. dot (dot finalArtifact ''adjudication'') k = JStr finalRoot)
         [''annotationAMerkleRoot'', ''annotationBMerkleRoot''] then st_return ()
    else st_bind (lift_discussion (count_decision_differences (dot (sbArtifact s) ''annotation'')
        (dot finalArtifact ''adjudication''))) (\<lambda>differences.
    if differences = 0 then st_return ()
    else enqueue_notification env
      (final_notice (dot (dot finalArtifact ''packet'') ''packetId'') finalReceiptId finalPseudonym s differences)))"

definition compared_annotations :: "ustr \<Rightarrow> jsv \<Rightarrow> cdb \<Rightarrow> submission_row list" where
  "compared_annotations adjudicatorUserId finalArtifact db =
     filter (\<lambda>s. JStr (sbPacket s) = dot (dot finalArtifact ''packet'') ''packetId''
        \<and> sbArtifactType s = u ''independent-annotation'' \<and> sbUser s \<noteq> adjudicatorUserId
        \<and> (\<exists>x \<in> set (users db). usId x = sbUser s \<and> usNotifications x)) (submissions db)"

fun for_each :: "('a \<Rightarrow> unit db) \<Rightarrow> 'a list \<Rightarrow> unit db" where
  "for_each body [] = st_return ()"
| "for_each body (x # xs) = st_bind (body x) (\<lambda>_. for_each body xs)"

definition queue_final_result_notifications :: "env \<Rightarrow> ustr \<Rightarrow> ustr \<Rightarrow> ustr \<Rightarrow> jsv \<Rightarrow> unit db" where
  "queue_final_result_notifications env adjudicatorUserId finalReceiptId finalPseudonym finalArtifact =
    st_bind (st_get (compared_annotations adjudicatorUserId finalArtifact)) (\<lambda>rows.
    for_each (notify_difference env finalReceiptId finalPseudonym finalArtifact) rows)"

record submission_answer =
  saReceipt :: ustr
  saHeld :: bool
  saPrevious :: nat
  saTask :: ustr
  saRound :: nat
  saRole :: crole
  saState :: task_state

definition other_results :: "ustr \<Rightarrow> ustr \<Rightarrow> ustr \<Rightarrow> cdb \<Rightarrow> nat" where
  "other_results taskId roundId receiptId db =
     count_rows (\<lambda>s. sbTask s = taskId \<and> sbRound s = roundId \<and> sbReceipt s \<noteq> receiptId) (submissions db)"

definition delivery_held :: "ustr \<Rightarrow> cdb \<Rightarrow> bool" where
  "delivery_held receiptId db = (case List.find (\<lambda>x. obDedupe x = submission_key receiptId) (outbox db) of
     None \<Rightarrow> False | Some x \<Rightarrow> obStatus x = Held)"

definition finish_contribution :: "env \<Rightarrow> contribution \<Rightarrow> ustr \<Rightarrow> submission_answer db" where
  "finish_contribution env c receiptId =
    st_bind (st_bind (open_review env c) deref) (\<lambda>row.
    st_bind (reconcile_consensus_task env (tvId row)) (\<lambda>_.
    st_bind (get_consensus_task (tvId row)) (\<lambda>refreshed.
    st_bind (case coPrimary c of None \<Rightarrow> st_return ()
       | Some (f, s) \<Rightarrow> if map_option tvState refreshed = Some Approved \<and> decides c ''agree''
           then queue_final_result_notifications env (acId (coAccount c)) (fiPrimary f) (sbPseudonym s) (sbArtifact s)
           else st_return ()) (\<lambda>_.
    st_bind (st_get (other_results (tvId row) (rdId (coRound c)) receiptId)) (\<lambda>previous.
    st_bind (st_get (delivery_held receiptId)) (\<lambda>held.
    st_return \<lparr>saReceipt = receiptId, saHeld = held, saPrevious = previous, saTask = tvId row,
      saRound = rdNumber (coRound c), saRole = rqRole (coTask c),
      saState = (case refreshed of Some t \<Rightarrow> tvState t | None \<Rightarrow> tvState row)\<rparr>))))))"

definition prepare_contribution :: "env \<Rightarrow> submission_config \<Rightarrow> account \<Rightarrow> submission_http \<Rightarrow> contribution db" where
  "prepare_contribution env cfg account http =
    st_bind (st_lift (admit_submission env cfg account http)) (\<lambda>(submission, task).
    st_bind (check_access env cfg account submission task) (\<lambda>_.
    st_bind (locate_task env task) (\<lambda>row.
    st_bind (get_current_consensus_round row) (\<lambda>found.
    st_bind (required_repository_task_assignment account task row found) (\<lambda>assignment.
    st_bind (validate_consensus_eligibility env account task row found (dot submission ''artifact'')) (\<lambda>(rnd, primary).
    st_return \<lparr>coAccount = account, coSubmission = submission, coTask = task, coRow = row, coRound = rnd,
      coPrimary = primary, coAssignment = assignment\<rparr>))))))"

definition receive_submission :: "env \<Rightarrow> submission_config \<Rightarrow> account \<Rightarrow> submission_http \<Rightarrow> submission_answer db" where
  "receive_submission env cfg account http =
    st_bind (prepare_contribution env cfg account http) (\<lambda>c.
    st_bind (record_contribution env c) (finish_contribution env c))"

end
