(* ===== verification/Effects.thy ===== *)
theory Effects
  imports Governance
begin

text \<open>
  What a handler does to the database, for any preorder on databases: \<open>effect\<close> is the interface of
  the \<open>db\<close> monad, \<open>transition_effect\<close> adds transitions and reissues, and \<open>governance_effect\<close> the
  other atomic writes of the consensus code. A relation
  that holds across each of those writes holds across every governance handler, whatever it
  answers; the handlers are proved once here, and each invariant is an interpretation.
\<close>

named_theorems effect_intros \<open>computations that respect the relation of an effect\<close>

locale effect =
  fixes R :: "cdb \<Rightarrow> cdb \<Rightarrow> bool"
  assumes same: "R db db"
    and seq: "R a b \<Longrightarrow> R b c \<Longrightarrow> R a c"
    and counters: "R db (db\<lparr>ticks := m\<rparr>)" "R db (db\<lparr>uuids := n\<rparr>)"
begin

abbreviation keeps :: "'a db \<Rightarrow> bool" where
  "keeps m \<equiv> st_pres R m"

lemma pure [effect_intros]:
  "keeps (st_return x)" "keeps (st_throw e)" "keeps (st_get f)" "keeps (st_ensure b e)" "keeps (st_lift r)"
  by (rule st_pres_pure, rule same)+

lemma bind [effect_intros]:
  "keeps m \<Longrightarrow> (\<And>x. keeps (f x)) \<Longrightarrow> keeps (st_bind m f)"
  by (rule st_pres_bind) (rule seq)

lemma caught: "keeps m \<Longrightarrow> (\<And>e. keeps (h e)) \<Longrightarrow> keeps (st_catch m h)"
  by (rule st_pres_catch) (rule seq)

lemma branch [effect_intros]: "keeps a \<Longrightarrow> keeps b \<Longrightarrow> keeps (if c then a else b)"
  by simp

lemma option [effect_intros]: "keeps a \<Longrightarrow> (\<And>x. keeps (b x)) \<Longrightarrow> keeps (case v of None \<Rightarrow> a | Some x \<Rightarrow> b x)"
  by (cases v) auto

lemma pair [effect_intros]: "(\<And>x y. keeps (b x y)) \<Longrightarrow> keeps (case v of (x, y) \<Rightarrow> b x y)"
  by (cases v) auto

lemma clock [effect_intros]: "keeps (date_now e)" "keeps (random_uuid e)" "keeps (st_modify (\<lambda>db. db\<lparr>uuids := n\<rparr>))"
  by (rule st_presI, simp add: date_now_def random_uuid_def st_simps counters)+

lemma conflict [effect_intros]: "keeps m \<Longrightarrow> keeps h \<Longrightarrow> keeps (on_conflict m h)"
  unfolding on_conflict_def
  by (rule caught) (auto split: thrown.splits store_error.splits intro: pure)

lemma dereferenced [effect_intros]: "keeps (deref x)"
  by (cases x) (simp_all add: deref_def pure)

lemma lifted [effect_intros]: "keeps (lift_consensus r)" "keeps (lift_protocol r')"
  unfolding lift_consensus_def lift_protocol_def
  by (auto split: sum.splits thrown.splits intro: pure)

lemma reads [effect_intros]: "keeps (get_consensus_task i)" "keeps (get_current_consensus_round t)"
  unfolding get_consensus_task_def get_current_consensus_round_def by (intro effect_intros)+

lemma one: "stmt_pres R s \<Longrightarrow> keeps (db_run s)"
  by (rule db_run_pres) (auto simp: reflp_def same)

lemma batch: "\<forall>s \<in> set ss. stmt_pres R s \<Longrightarrow> keeps (db_batch ss)"
  by (rule db_batch_pres) (auto simp: reflp_def transp_def same intro: seq)

lemma logged_loop [effect_intros]: "(\<And>x. keeps (body x)) \<Longrightarrow> keeps (for_each_logged body xs)"
  by (induction xs) (auto intro!: effect_intros caught)

end

section \<open>The atomic writes of governance\<close>

locale transition_effect = effect R for R +
  fixes env :: env and allowed :: "transition \<Rightarrow> bool"
  assumes transition: "allowed tr \<Longrightarrow> st_pres R (transition_consensus_task env task tr)"
    and allowed:
      "allowed (reissue_transition task rnd reason act)" "allowed (round_open_transition rnd r n act)"
      "allowed (quorum_transition rnd ra rb m policy passed)" "allowed (proposal_transition rnd receipt fr novel)"
      "allowed (ratified_transition rnd receipt rat agrees deadline)" "allowed (expiry_transition rnd)"
      "allowed (appeal_transition appeal subject)"
    and new_round: "st_pres R (db_batch (reissue_statements reissued rnd reason now))"
    and delivery: "stmt_pres R (insert_outbox b ob)" "stmt_pres R (insert_notification_or_ignore env no)"
begin

lemma notifications [effect_intros]: "keeps (queue_governance_notifications env t e c k)"
  unfolding queue_governance_notifications_def
  by (intro effect_intros batch) (auto simp: notification_writes_def delivery)

lemma state_evidence [effect_intros]: "keeps (ensure_task_state_evidence env task)"
  unfolding ensure_task_state_evidence_def by (intro effect_intros one delivery)

lemma reissued [effect_intros]: "keeps (create_reissued_round env task reason act)"
  unfolding create_reissued_round_def Let_def
  by (intro effect_intros transition allowed new_round)

lemma reissued_and_notified [effect_intros]: "keeps (reissue_and_notify env moved reason)"
  unfolding reissue_and_notify_def by (intro effect_intros)

lemma upheld:
  "(\<And>now. stmt_pres R (revoke_final (apFinal ap) reason now)) \<Longrightarrow> keeps (uphold_appeal env subject reason ap task)"
  unfolding uphold_appeal_def by (intro effect_intros one transition allowed)

end

locale governance_effect = transition_effect +
  assumes publish: "st_pres R (publish_now env task f receiptRow)"
    and registration: "st_pres R (db_batch (registration_statements env i p now))"
    and aside: "stmt_pres R (insert_metrics_or_ignore me)" "stmt_pres R (release_statement t ro ids now)"
      "stmt_pres R (close_round ro now)" "stmt_pres R (revoke_final primary reason now)"
    and decision: "status \<noteq> AppealPending \<Longrightarrow> stmt_pres R (decide_appeal ai status subject reason now)"
    and appeal: "stmt_pres R (insert_appeal ai user primary evidence now)"
begin

lemma released [effect_intros]: "keeps (release_independent_evidence env t r ids)"
  unfolding release_independent_evidence_def by (intro effect_intros one aside)

lemma reconciled_step [effect_intros]: "keeps (reconcile_step env task rnd)"
proof -
  have "keeps (reconcile_independent env task rnd)"
    unfolding reconcile_independent_def Let_def by (intro effect_intros one aside transition allowed)
  moreover have "keeps (reconcile_discussion env task rnd)"
    unfolding reconcile_discussion_def Let_def by (intro effect_intros transition allowed)
  moreover have "keeps (reconcile_final_review env task rnd)"
    unfolding reconcile_final_review_def Let_def by (intro effect_intros one aside transition allowed)
  ultimately show ?thesis
    unfolding reconcile_step_def by (cases "tvState task") (simp_all add: pure)
qed

lemma reconciled [effect_intros]: "keeps (reconcile_consensus_task env i)"
  unfolding reconcile_consensus_task_def by (intro effect_intros)

lemma attempted [effect_intros]: "keeps (attempt_publish_task env i)"
  unfolding attempt_publish_task_def by (intro effect_intros publish)

lemma expired [effect_intros]: "keeps (expire_task env i)"
  unfolding expire_task_def by (intro effect_intros transition allowed)

lemma scheduled: "keeps (process_expired_consensus_rounds env)" "keeps (process_publishable_tasks env)"
  unfolding process_expired_consensus_rounds_def process_publishable_tasks_def by (intro effect_intros)+

lemma admin_reissue: "keeps (reissue_consensus_task env subject i reason)"
  unfolding reissue_consensus_task_def
  by (intro effect_intros caught) (auto split: thrown.splits store_error.splits intro!: pure)

lemma review: "keeps (review_consensus_appeal env subject i verdict reason)"
  unfolding review_consensus_appeal_def by (intro effect_intros one decision upheld aside) auto

lemma created_appeal: "keeps (create_consensus_appeal env account f evidence)"
  unfolding create_consensus_appeal_def by (intro effect_intros caught one appeal)

lemma registered [effect_intros]: "keeps (ensure_consensus_task env packet packetRoot now)"
proof (rule st_presI)
  fix s
  let ?prep = "prepare_consensus_task_registration env packet packetRoot now"
  have prep: "snd (?prep s) = s"
    by (auto simp: prepare_consensus_task_registration_def get_consensus_task_def st_bind_run st_simps Let_def
        split: sum.splits)
  show "R s (snd (ensure_consensus_task env packet packetRoot now s))"
  proof (cases "fst (?prep s)")
    case (Inl e)
    then show ?thesis using prep by (simp add: ensure_consensus_task_def st_bind_run same)
  next
    case (Inr x)
    then obtain i p where x: "x = (i, registration_statements env i p now)"
      by (auto simp: prepare_consensus_task_registration_def get_consensus_task_def st_bind_run st_simps Let_def
          split: sum.splits if_splits)
    have "keeps (assert_consensus_task_registration packet packetRoot)"
      unfolding assert_consensus_task_registration_def Let_def by (intro effect_intros)
    then have "keeps (st_bind (db_batch (registration_statements env i p now))
        (\<lambda>_. assert_consensus_task_registration packet packetRoot))" by (intro effect_intros registration)
    then show ?thesis
      using Inr x prep by (simp add: ensure_consensus_task_def st_bind_run[of ?prep] st_presD)
  qed
qed

lemmas handlers = reconciled attempted scheduled admin_reissue review created_appeal registered

end

end
