(* ===== verification/ConsensusSafety.thy ===== *)
theory ConsensusSafety
  imports Effects
begin

text \<open>
  The consensus tables under concurrency. \<open>call\<close> is the step relation of everything the code does
  to them: one registration, transition or reissue batch, an appeal, or a call that does not touch
  tasks, rounds, events and appeals. The snapshot a transition starts from is arbitrary, so a run
  covers every interleaving of handlers with stale reads. The invariants hold in every database
  reachable from the empty one, and every handler is a sequence of such calls.
\<close>

section \<open>Steps\<close>

definition task_open_id :: "ustr \<Rightarrow> ustr" where
  "task_open_id i = u ''task-open:'' @ i"

definition fresh_id :: "ustr \<Rightarrow> bool" where
  "fresh_id x \<longleftrightarrow> take 10 x \<noteq> u ''task-open:''"

lemma fresh_id_iff: "fresh_id x \<Longrightarrow> x \<noteq> task_open_id i"
  by (auto simp: fresh_id_def task_open_id_def)

text \<open>What the handlers guarantee of a transition they issue, beyond the state machine.\<close>

definition guarded :: "transition \<Rightarrow> int \<Rightarrow> bool" where
  "guarded tr now \<longleftrightarrow> fresh_id (trIdempotencyKey tr)
     \<and> (trTo tr = Published \<longrightarrow> trRequirePublicationReady tr \<and> trAppealDeadlineAt tr = None
          \<and> (case trPublicationGuardAt tr of None \<Rightarrow> True | Some g \<Rightarrow> g \<le> now))"

text \<open>The columns of a task row that only a transition writes.\<close>

definition spine :: "task_row \<Rightarrow> ustr \<times> task_state \<times> nat \<times> ustr option" where
  "spine t = (tvId t, tvState t, tvStateVersion t, tvLastEventId t)"

definition dates :: "task_row \<Rightarrow> int option \<times> int option" where
  "dates t = (tvAppealDeadlineAt t, tvPublishedAt t)"

text \<open>The columns nothing writes after registration.\<close>

definition bound :: "task_row \<Rightarrow> (ustr list \<times> int) \<times> jsv \<times> int" where
  "bound t = (([tvTaskId t, tvPacketId t, tvHoldoutId t, tvPacketRoot t, tvGuidelineVersion t, tvDataVersion t,
     tvProtocolVersion t], tvTaskVersion t), tvMetricPolicy t, tvCreatedAt t)"

definition same_tasks :: "cdb \<Rightarrow> cdb \<Rightarrow> bool" where
  "same_tasks db db' \<longleftrightarrow> map spine (taskVersions db') = map spine (taskVersions db)
     \<and> map dates (taskVersions db') = map dates (taskVersions db)
     \<and> map bound (taskVersions db') = map bound (taskVersions db)"

inductive call :: "env \<Rightarrow> cdb \<Rightarrow> cdb \<Rightarrow> bool" for env where
  register: "run_batch (registration_statements env identity policy now) db = Inr (ns, db')
     \<Longrightarrow> call env db db'"
| move: "assert_consensus_transition (tvState task) (trTo tr) = Inr () \<Longrightarrow> guarded tr now \<Longrightarrow> fresh_id eventId
     \<Longrightarrow> run_batch (transition_statements env task tr eventId now) db = Inr (ns, db') \<Longrightarrow> call env db db'"
| reissue: "run_batch (reissue_statements reissued currentRound reason now) db = Inr (ns, db')
     \<Longrightarrow> call env db db'"
| appeal: "insert_appeal appealId userId finalReceiptId evidence createdAt db = Inr (n, db') \<Longrightarrow> call env db db'"
| decide: "status \<noteq> AppealPending \<Longrightarrow> decide_appeal appealId status subjectHash reason now db = Inr (n, db')
     \<Longrightarrow> call env db db'"
| other: "same_tasks db db' \<Longrightarrow> events db' = events db \<Longrightarrow> appeals db' = appeals db \<Longrightarrow> call env db db'"

inductive_cases callE: "call env db db'"

abbreviation calls :: "env \<Rightarrow> cdb \<Rightarrow> cdb \<Rightarrow> bool" where
  "calls env \<equiv> (call env)\<^sup>*\<^sup>*"

definition reachable :: "env \<Rightarrow> cdb \<Rightarrow> bool" where
  "reachable env db \<longleftrightarrow> calls env empty_db db"

section \<open>The event log\<close>

definition task_log :: "cdb \<Rightarrow> ustr \<Rightarrow> event_row list" where
  "task_log db i = filter (\<lambda>e. evTask e = i) (events db)"

text \<open>The log of a task: it starts by opening, every event is allowed and starts where the one
  before ended, and the row shows the last one.\<close>

definition log_ok :: "event_row list \<Rightarrow> ustr \<times> task_state \<times> nat \<times> ustr option \<Rightarrow> bool" where
  "log_ok es s = (case s of (i, state, version, lastId) \<Rightarrow>
     es \<noteq> [] \<and> evId (hd es) = task_open_id i \<and> evFrom (hd es) = Draft \<and> evTo (hd es) = Open
   \<and> list_all (\<lambda>e. evTo e \<in> set (allowed_transitions (evFrom e))) es
   \<and> successively (\<lambda>a b. evTo a = evFrom b) es
   \<and> evTo (last es) = state \<and> lastId = Some (evId (last es)) \<and> length es = version + 1)"

definition log_inv :: "cdb \<Rightarrow> bool" where
  "log_inv db \<longleftrightarrow> distinct (map tvId (taskVersions db)) \<and> distinct (map evId (events db))
     \<and> distinct (map evKey (events db))
     \<and> (\<forall>s \<in> set (map spine (taskVersions db)). log_ok (task_log db (fst s)) s)
     \<and> (\<forall>e \<in> set (events db). known_task db (evTask e)
          \<and> (\<forall>i. evId e = task_open_id i \<or> evKey e = task_open_id i \<longrightarrow> i = evTask e))"

text \<open>A published task has no pending appeal and was published after its appeal window.\<close>

definition pub_inv :: "cdb \<Rightarrow> bool" where
  "pub_inv db \<longleftrightarrow> (\<forall>t \<in> set (taskVersions db). tvState t = Published \<longrightarrow> \<not> pending_appeal (tvId t) db
     \<and> (\<exists>d p. dates t = (Some d, Some p) \<and> d \<le> p))"

lemma ids_of_spine: "map tvId ts = map fst (map spine ts)"
  by (simp add: spine_def comp_def)

lemma known_task_ids: "known_task db i \<longleftrightarrow> i \<in> set (map tvId (taskVersions db))"
  by (auto simp: known_task_def)

lemma log_inv_cong:
  assumes "map spine (taskVersions db') = map spine (taskVersions db)" "events db' = events db"
  shows "log_inv db' = log_inv db"
proof -
  have "map tvId (taskVersions db') = map tvId (taskVersions db)" using assms(1) by (simp only: ids_of_spine)
  moreover from this have "known_task db' = known_task db" by (simp add: known_task_ids fun_eq_iff del: set_map)
  ultimately show ?thesis using assms by (simp add: log_inv_def task_log_def del: set_map)
qed

lemma pub_inv_cong:
  assumes "same_tasks db db'" "\<And>i. pending_appeal i db' \<Longrightarrow> pending_appeal i db" "pub_inv db"
  shows "pub_inv db'"
proof -
  have len: "length (taskVersions db') = length (taskVersions db)"
    using assms(1) unfolding same_tasks_def by (metis length_map)
  show ?thesis unfolding pub_inv_def all_set_conv_all_nth
  proof (intro allI impI)
    fix k assume k: "k < length (taskVersions db')" "tvState (taskVersions db' ! k) = Published"
    have "spine (taskVersions db' ! k) = spine (taskVersions db ! k)"
      "dates (taskVersions db' ! k) = dates (taskVersions db ! k)"
      using assms(1) k(1) len unfolding same_tasks_def by (metis nth_map)+
    then show "\<not> pending_appeal (tvId (taskVersions db' ! k)) db'
        \<and> (\<exists>d p. dates (taskVersions db' ! k) = (Some d, Some p) \<and> d \<le> p)"
      using k assms(2,3) len unfolding pub_inv_def spine_def by (metis nth_mem prod.inject)
  qed
qed

lemma task_of_id:
  assumes "distinct (map tvId ts)" "t \<in> set ts" "t' \<in> set ts" "tvId t = tvId t'"
  shows "t = t'"
  using assms by (auto simp: distinct_map inj_on_def)

section \<open>Registration\<close>

lemma insert_round_frame:
  "insert_round b r db = Inr (n, db') \<Longrightarrow> taskVersions db' = taskVersions db \<and> events db' = events db
     \<and> appeals db' = appeals db \<and> (known_task db (rdTask r) \<or> (\<exists>r' \<in> set (rounds db). round_conflict r r'))"
  by (auto simp: insert_round_def split: if_splits)

lemma insert_task_cases:
  "insert_task_or_ignore env r db = Inr (n, db') \<Longrightarrow> db' = db \<or>
     (\<forall>t \<in> set (taskVersions db). tvId t \<noteq> tvId r) \<and> db' = db\<lparr>taskVersions := taskVersions db @ [r]\<rparr>"
  by (auto simp: insert_task_or_ignore_def task_conflict_def split: if_splits)

lemma insert_event_cases:
  "insert_event b r db = Inr (n, db') \<Longrightarrow> (db' = db \<and> (\<exists>e \<in> set (events db). event_conflict r e)) \<or>
     (\<forall>e \<in> set (events db). evId e \<noteq> evId r \<and> evKey e \<noteq> evKey r) \<and> known_task db (evTask r)
     \<and> db' = db\<lparr>events := events db @ [r]\<rparr>"
  by (auto simp: insert_event_def event_conflict_def split: if_splits)

lemma run_batch3:
  "run_batch [a, b, c] db = Inr (ns, db') \<Longrightarrow> \<exists>n1 d1 n2 d2 n3. a db = Inr (n1, d1) \<and> b d1 = Inr (n2, d2)
     \<and> c d2 = Inr (n3, db')"
  by (auto simp: sbind_eq_Inr)

lemma log_inv_openD: "log_inv db \<Longrightarrow> e \<in> set (events db) \<Longrightarrow> evId e = task_open_id i \<or> evKey e = task_open_id i \<Longrightarrow>
    evTask e = i"
  by (auto simp: log_inv_def)

lemma log_inv_knownD: "log_inv db \<Longrightarrow> e \<in> set (events db) \<Longrightarrow> evTask e \<in> set (map tvId (taskVersions db))"
  unfolding log_inv_def known_task_ids by blast

lemma log_inv_open_event:
  assumes "log_inv db" "i \<in> set (map tvId (taskVersions db))"
  shows "\<exists>e \<in> set (events db). evId e = task_open_id i"
proof -
  from assms(2) obtain t where t: "t \<in> set (taskVersions db)" "i = tvId t" by auto
  with assms(1) have "log_ok (task_log db i) (spine t)" by (auto simp: log_inv_def spine_def)
  then have "task_log db i \<noteq> []" "evId (hd (task_log db i)) = task_open_id i"
    using t(2) by (simp_all add: log_ok_def spine_def)
  then show ?thesis using hd_in_set[of "task_log db i"] by (auto simp: task_log_def)
qed

lemma registration_cases:
  assumes inv: "log_inv db"
    and run: "run_batch (registration_statements env identity policy now) db = Inr (ns, db')"
  defines "r \<equiv> registration_task_row identity policy (initial_event_id identity) now"
    and "e \<equiv> registration_event env identity policy (consensus_round_id (tiId identity) 1) now"
  shows "appeals db' = appeals db \<and>
    (taskVersions db' = taskVersions db \<and> events db' = events db \<or>
     tiId identity \<notin> set (map tvId (taskVersions db)) \<and> taskVersions db' = taskVersions db @ [r]
       \<and> events db' = events db @ [e]
       \<and> (\<forall>x \<in> set (events db). evId x \<noteq> evId e \<and> evKey x \<noteq> evKey e))"
proof -
  have e: "evId e = task_open_id (tiId identity)" "evKey e = task_open_id (tiId identity)" "evTask e = tiId identity"
    by (simp_all add: e_def registration_event_def initial_event_id_def task_open_id_def Let_def)
  have r: "tvId r = tiId identity" by (simp add: r_def registration_task_row_def)
  from run obtain n1 d1 n2 d2 n3 where s:
    "insert_task_or_ignore env r db = Inr (n1, d1)"
    "insert_round True (open_round (consensus_round_id (tiId identity) 1) (tiId identity) 1 None now None) d1 = Inr (n2, d2)"
    "insert_event True e d2 = Inr (n3, db')"
    unfolding registration_statements_def Let_def r_def e_def by (blast dest: run_batch3)
  note d2 = insert_round_frame[OF s(2)]
  show ?thesis
  proof (cases "tiId identity \<in> set (map tvId (taskVersions db))")
    case True
    then have "d1 = db" using insert_task_cases[OF s(1)] r by auto
    moreover obtain x where x: "x \<in> set (events db)" "evId x = evId e"
      using log_inv_open_event[OF inv True] e by auto
    ultimately have "db' = d2" using insert_event_cases[OF s(3)] d2 by auto
    with \<open>d1 = db\<close> d2 show ?thesis by auto
  next
    case False
    then have none: "evTask x \<noteq> tiId identity" if "x \<in> set (events db)" for x
      using log_inv_knownD[OF inv that] by auto
    have nc: "evId x \<noteq> evId e \<and> evKey x \<noteq> evKey e" if "x \<in> set (events db)" for x
      using none[OF that] log_inv_openD[OF inv that] e by metis
    from insert_task_cases[OF s(1)] show ?thesis
    proof
      assume "d1 = db"
      then have "\<not> known_task d2 (evTask e)" using False e(3) d2 by (simp add: known_task_ids del: set_map)
      moreover have "\<not> event_conflict e x" if "x \<in> set (events d2)" for x
        using nc that d2 \<open>d1 = db\<close> by (auto simp: event_conflict_def)
      ultimately show ?thesis using insert_event_cases[OF s(3)] by auto
    next
      assume d1: "(\<forall>t \<in> set (taskVersions db). tvId t \<noteq> tvId r) \<and> d1 = db\<lparr>taskVersions := taskVersions db @ [r]\<rparr>"
      then have ev: "events d2 = events db" "taskVersions d2 = taskVersions db @ [r]" "appeals d2 = appeals db"
        using d2 by auto
      have "\<not> event_conflict e x" if "x \<in> set (events d2)" for x
        using nc that ev by (auto simp: event_conflict_def)
      with insert_event_cases[OF s(3)] ev have "events db' = events db @ [e]" "taskVersions db' = taskVersions db @ [r]"
        "appeals db' = appeals db" by auto
      with False nc show ?thesis by blast
    qed
  qed
qed

lemma log_ok_single:
  "evId e = task_open_id i \<Longrightarrow> evFrom e = Draft \<Longrightarrow> evTo e = Open \<Longrightarrow>
     log_ok [e] (i, Open, 0, Some (task_open_id i))"
  by (simp add: log_ok_def)

lemma log_inv_register:
  assumes inv: "log_inv db"
    and run: "run_batch (registration_statements env identity policy now) db = Inr (ns, db')"
  shows "log_inv db'"
proof -
  let ?r = "registration_task_row identity policy (initial_event_id identity) now"
  let ?e = "registration_event env identity policy (consensus_round_id (tiId identity) 1) now"
  have e: "evId ?e = task_open_id (tiId identity)" "evKey ?e = task_open_id (tiId identity)"
    "evTask ?e = tiId identity" "evFrom ?e = Draft" "evTo ?e = Open"
    by (simp_all add: registration_event_def initial_event_id_def task_open_id_def Let_def)
  have r: "spine ?r = (tiId identity, Open, 0, Some (task_open_id (tiId identity)))" "tvId ?r = tiId identity"
    by (simp_all add: registration_task_row_def spine_def initial_event_id_def task_open_id_def)
  from registration_cases[OF inv run]
  consider "taskVersions db' = taskVersions db" "events db' = events db"
    | "tiId identity \<notin> set (map tvId (taskVersions db))" "taskVersions db' = taskVersions db @ [?r]"
      "events db' = events db @ [?e]" "\<forall>x \<in> set (events db). evId x \<noteq> evId ?e \<and> evKey x \<noteq> evKey ?e"
    by blast
  then show ?thesis
  proof cases
    case 1
    then show ?thesis using log_inv_cong[of db' db] inv by simp
  next
    case 2
    have none: "evTask x \<noteq> tiId identity" if "x \<in> set (events db)" for x
      using log_inv_knownD[OF inv that] 2(1) by auto
    have log_old: "task_log db' i = task_log db i" if "i \<noteq> tiId identity" for i
      using 2(3) e(3) that by (simp add: task_log_def)
    have log_new: "task_log db' (tiId identity) = [?e]"
      using 2(3) e(3) none by (auto simp: task_log_def filter_empty_conv)
    have known: "known_task db' i \<longleftrightarrow> known_task db i \<or> i = tiId identity" for i
      using 2(2) r(2) by (auto simp: known_task_def)
    have logs: "log_ok (task_log db' (fst s)) s" if "s \<in> set (map spine (taskVersions db'))" for s
    proof (cases "s = spine ?r")
      case True
      then show ?thesis using log_new r(1) e log_ok_single by simp
    next
      case False
      with that have s: "s \<in> set (map spine (taskVersions db))" using 2(2) by auto
      then have "fst s \<in> set (map tvId (taskVersions db))" by (auto simp: spine_def)
      with 2(1) have "fst s \<noteq> tiId identity" by auto
      with log_old s inv show ?thesis by (auto simp: log_inv_def)
    qed
    have "distinct (map tvId (taskVersions db'))" "distinct (map evId (events db'))" "distinct (map evKey (events db'))"
      using inv 2 r(2) by (auto simp: log_inv_def)
    moreover have "known_task db' (evTask x) \<and> (\<forall>i. evId x = task_open_id i \<or> evKey x = task_open_id i \<longrightarrow> i = evTask x)"
      if "x \<in> set (events db')" for x
      using that 2(3) inv known e by (auto simp: log_inv_def task_open_id_def)
    ultimately show ?thesis using logs unfolding log_inv_def by blast
  qed
qed

section \<open>Transitions\<close>

lemma run_batch2:
  "run_batch [a, b] db = Inr (ns, db') \<Longrightarrow> \<exists>n1 d1 n2. a db = Inr (n1, d1) \<and> b d1 = Inr (n2, db') \<and> ns = [n1, n2]"
  by (auto simp: sbind_eq_Inr)

lemma count_rows_unique:
  assumes "distinct (map k rows)" "r \<in> set rows" "p r" "\<And>x. p x \<Longrightarrow> k x = k r"
  shows "count_rows p rows = 1" "update_rows p f rows = update_rows (\<lambda>x. k x = k r) f rows"
proof -
  have p: "p x \<longleftrightarrow> k x = k r" if "x \<in> set rows" for x
  proof
    assume "k x = k r"
    then have "x = r" using assms(1,2) that unfolding distinct_map inj_on_def by blast
    then show "p x" using assms(3) by simp
  qed (rule assms(4))
  have one: "filter (\<lambda>x. k x = k r) rows = [r]" using assms(1,2)
  proof (induction rows)
    case (Cons y ys)
    show ?case
    proof (cases "k y = k r")
      case True
      with Cons.prems(1) have none: "k x \<noteq> k r" if "x \<in> set ys" for x
        using imageI[OF that, of k] by auto
      then have empty: "filter (\<lambda>x. k x = k r) ys = []" and "r \<notin> set ys" unfolding filter_empty_conv by blast+
      with Cons.prems(2) have "r = y" by simp
      with empty show ?thesis by simp
    next
      case False
      with Cons show ?thesis by auto
    qed
  qed simp
  from p have "filter p rows = filter (\<lambda>x. k x = k r) rows" by (intro filter_cong) simp_all
  with one show "count_rows p rows = 1" by (simp add: count_rows_def)
  show "update_rows p f rows = update_rows (\<lambda>x. k x = k r) f rows"
    using p by (auto simp: update_rows_def)
qed

lemma transition_event_simps [simp]:
  "evId (transition_event env task tr eventId now) = eventId"
  "evKey (transition_event env task tr eventId now) = trIdempotencyKey tr"
  "evTask (transition_event env task tr eventId now) = tvId task"
  "evFrom (transition_event env task tr eventId now) = tvState task"
  "evTo (transition_event env task tr eventId now) = trTo tr"
  by (simp_all add: transition_event_def Let_def)

lemma transition_row_simps [simp]:
  "tvId (transition_row tr eventId now t) = tvId t"
  "spine (transition_row tr eventId now t) = (tvId t, trTo tr, tvStateVersion t + 1, Some eventId)"
  by (simp_all add: transition_row_def spine_def)

lemma log_inv_last_event:
  assumes "log_inv db" "t \<in> set (taskVersions db)" "tvLastEventId t = Some i"
  shows "\<exists>e \<in> set (events db). evId e = i"
proof -
  from assms have "log_ok (task_log db (tvId t)) (spine t)" by (force simp: log_inv_def spine_def)
  with assms(3) have "task_log db (tvId t) \<noteq> []" "evId (last (task_log db (tvId t))) = i"
    by (simp_all add: log_ok_def spine_def)
  then show ?thesis using last_in_set[of "task_log db (tvId t)"] by (auto simp: task_log_def)
qed

lemma transition_cases:
  assumes inv: "log_inv db"
    and run: "run_batch (transition_statements env task tr eventId now) db = Inr (ns, db')"
  shows "ns = [0, 0] \<and> taskVersions db' = taskVersions db \<and> events db' = events db \<and> appeals db' = appeals db
       \<and> (\<forall>t \<in> set (taskVersions db). \<not> transition_applies db task tr now t) \<or>
    ns = [1, 1] \<and> appeals db' = appeals db \<and> (\<exists>t \<in> set (taskVersions db). transition_applies db task tr now t
       \<and> taskVersions db' = update_rows (\<lambda>x. tvId x = tvId t) (transition_row tr eventId now) (taskVersions db)
       \<and> events db' = events db @ [transition_event env task tr eventId now]
       \<and> (\<forall>e \<in> set (events db). evId e \<noteq> eventId \<and> evKey e \<noteq> trIdempotencyKey tr))"
proof -
  let ?p = "transition_applies db task tr now"
  let ?ev = "transition_event env task tr eventId now"
  from run obtain n1 d1 n2 where
    s: "update_task_stmt task tr eventId now db = Inr (n1, d1)" "insert_event_if_moved ?ev task tr d1 = Inr (n2, db')"
    and ns: "ns = [n1, n2]"
    unfolding transition_statements_def by (blast dest: run_batch2)
  from s(1) have d1: "n1 = count_rows ?p (taskVersions db)"
    "d1 = db\<lparr>taskVersions := update_rows ?p (transition_row tr eventId now) (taskVersions db)\<rparr>"
    by (simp_all add: update_task_stmt_def)
  show ?thesis
  proof (cases "\<exists>t \<in> set (taskVersions db). ?p t")
    case False
    then have n1: "n1 = 0" and "d1 = db" using d1 by (simp_all add: count_rows_0 update_rows_none)
    have no_insert: "n2 = 0 \<and> db' = db"
    proof (cases "\<exists>t \<in> set (taskVersions db). tvId t = tvId task \<and> tvLastEventId t = Some (evId ?ev)
          \<and> tvState t = trTo tr \<and> tvStateVersion t = tvStateVersion task + 1")
      case True
      then obtain e where "e \<in> set (events db)" "evId e = eventId" using log_inv_last_event[OF inv] by auto
      then have "insert_event_if_moved ?ev task tr d1 = Inl (Thrown SqlConstraint)"
        using True \<open>d1 = db\<close> by (auto simp: insert_event_if_moved_def insert_event_def event_conflict_def)
      with s(2) show ?thesis by simp
    next
      case False
      then have "insert_event_if_moved ?ev task tr d1 = Inr (0, db)"
        using \<open>d1 = db\<close> unfolding insert_event_if_moved_def by (simp only: if_False)
      with s(2) show ?thesis by simp
    qed
    with False n1 ns show ?thesis by auto
  next
    case True
    then obtain t where t: "t \<in> set (taskVersions db)" "?p t" by blast
    have ids: "distinct (map tvId (taskVersions db))" using inv by (simp add: log_inv_def)
    have same: "?p x \<Longrightarrow> tvId x = tvId t" for x using t(2) by (simp add: transition_applies_def)
    note u = count_rows_unique[where p = ?p, OF ids t same]
    have tid: "tvId t = tvId task" "tvStateVersion t = tvStateVersion task"
      using t(2) by (simp_all add: transition_applies_def)
    have "transition_row tr eventId now t \<in> set (taskVersions d1)"
      using t d1 by (auto simp: set_update_rows)
    then have "\<exists>x \<in> set (taskVersions d1). tvId x = tvId task \<and> tvLastEventId x = Some (evId ?ev)
        \<and> tvState x = trTo tr \<and> tvStateVersion x = tvStateVersion task + 1"
      using tid by (intro bexI[of _ "transition_row tr eventId now t"]) (auto simp: transition_row_def)
    then have "insert_event False ?ev d1 = Inr (n2, db')"
      using s(2) unfolding insert_event_if_moved_def by (simp only: if_True)
    then have "n2 = 1" "db' = d1\<lparr>events := events d1 @ [?ev]\<rparr>" "\<forall>e \<in> set (events d1). evId e \<noteq> eventId \<and> evKey e \<noteq> trIdempotencyKey tr"
      by (auto simp: insert_event_def event_conflict_def split: if_splits)
    with d1 u ns t show ?thesis by auto
  qed
qed

lemma log_ok_snoc:
  assumes "log_ok es (i, s, v, l)" "evFrom e = s" "evTo e \<in> set (allowed_transitions s)"
  shows "log_ok (es @ [e]) (i, evTo e, v + 1, Some (evId e))"
  using assms by (auto simp: log_ok_def successively_append_iff)

lemma log_inv_move:
  assumes inv: "log_inv db"
    and legal: "assert_consensus_transition (tvState task) (trTo tr) = Inr ()"
    and fresh: "fresh_id eventId" "fresh_id (trIdempotencyKey tr)"
    and run: "run_batch (transition_statements env task tr eventId now) db = Inr (ns, db')"
  shows "log_inv db'"
  using transition_cases[OF inv run]
proof
  assume "ns = [0, 0] \<and> taskVersions db' = taskVersions db \<and> events db' = events db \<and> appeals db' = appeals db
       \<and> (\<forall>t \<in> set (taskVersions db). \<not> transition_applies db task tr now t)"
  then show ?thesis using log_inv_cong[of db' db] inv by simp
next
  assume "ns = [1, 1] \<and> appeals db' = appeals db \<and> (\<exists>t \<in> set (taskVersions db). transition_applies db task tr now t
       \<and> taskVersions db' = update_rows (\<lambda>x. tvId x = tvId t) (transition_row tr eventId now) (taskVersions db)
       \<and> events db' = events db @ [transition_event env task tr eventId now]
       \<and> (\<forall>e \<in> set (events db). evId e \<noteq> eventId \<and> evKey e \<noteq> trIdempotencyKey tr))"
  then obtain t where t: "t \<in> set (taskVersions db)" "transition_applies db task tr now t"
    and db': "taskVersions db' = update_rows (\<lambda>x. tvId x = tvId t) (transition_row tr eventId now) (taskVersions db)"
      "events db' = events db @ [transition_event env task tr eventId now]"
    and new: "\<forall>e \<in> set (events db). evId e \<noteq> eventId \<and> evKey e \<noteq> trIdempotencyKey tr"
    by blast
  have tid: "tvId task = tvId t" "tvState task = tvState t" using t(2) by (simp_all add: transition_applies_def)
  have ids: "map tvId (taskVersions db') = map tvId (taskVersions db)"
    unfolding db' by (rule map_update_rows) simp
  have known: "known_task db' i \<longleftrightarrow> known_task db i" for i by (simp add: known_task_ids ids del: set_map)
  have tids: "distinct (map tvId (taskVersions db))" using inv by (simp add: log_inv_def)
  have logs: "log_ok (task_log db' (fst s)) s" if "s \<in> set (map spine (taskVersions db'))" for s
  proof -
    from that obtain x where x: "x \<in> set (taskVersions db)"
      "s = spine (if tvId x = tvId t then transition_row tr eventId now x else x)"
      unfolding db' set_map set_update_rows by blast
    from inv x(1) have ok: "log_ok (task_log db (tvId x)) (spine x)" by (force simp: log_inv_def spine_def)
    show ?thesis
    proof (cases "tvId x = tvId t")
      case True
      then have "x = t" using task_of_id[OF tids x(1) t(1)] by blast
      then have "log_ok (task_log db (tvId t) @ [transition_event env task tr eventId now])
          (tvId t, trTo tr, tvStateVersion t + 1, Some eventId)"
        using log_ok_snoc[of _ _ _ _ _ "transition_event env task tr eventId now"] ok legal tid
        by (simp add: spine_def assert_consensus_transition_def)
      then show ?thesis using x(2) \<open>x = t\<close> db'(2) tid by (simp add: task_log_def)
    next
      case False
      then show ?thesis using x(2) ok db'(2) tid by (auto simp: task_log_def spine_def)
    qed
  qed
  have "distinct (map evId (events db'))" "distinct (map evKey (events db'))"
    using inv db'(2) new by (auto simp: log_inv_def)
  moreover have "known_task db' (evTask x) \<and> (\<forall>i. evId x = task_open_id i \<or> evKey x = task_open_id i \<longrightarrow> i = evTask x)"
    if "x \<in> set (events db')" for x
  proof (cases "x \<in> set (events db)")
    case True
    then show ?thesis using inv known by (auto simp: log_inv_def)
  next
    case False
    with that db'(2) have "x = transition_event env task tr eventId now" by auto
    then show ?thesis using t(1) tid known fresh fresh_id_iff by (auto simp: known_task_def)
  qed
  ultimately show ?thesis using logs ids inv unfolding log_inv_def by simp
qed

section \<open>Reissues, appeals and the rest\<close>

lemma same_tasksI:
  assumes "taskVersions db' = update_rows p f (taskVersions db)"
    "\<And>t. spine (f t) = spine t" "\<And>t. dates (f t) = dates t" "\<And>t. bound (f t) = bound t"
  shows "same_tasks db db'"
  unfolding same_tasks_def assms(1) using assms(2-4) by (simp add: map_update_rows)

lemma same_tasks_refl: "taskVersions db' = taskVersions db \<Longrightarrow> same_tasks db db'"
  by (simp add: same_tasks_def)

lemma run_batch4:
  "run_batch [a, b, c, d] db = Inr (ns, db') \<Longrightarrow> \<exists>n1 d1 n2 d2 n3 d3 n4. a db = Inr (n1, d1) \<and> b d1 = Inr (n2, d2)
     \<and> c d2 = Inr (n3, d3) \<and> d d3 = Inr (n4, db') \<and> ns = [n1, n2, n3, n4]"
  by (auto simp: sbind_eq_Inr)

lemma reissue_frame:
  assumes "run_batch (reissue_statements reissued cur reason now) db = Inr (ns, db')"
  shows "same_tasks db db' \<and> events db' = events db \<and> appeals db' = appeals db"
proof -
  from assms obtain n1 d1 n2 d2 n3 d3 n4 where s:
    "supersede_round reason now (rdId cur) db = Inr (n1, d1)"
    "insert_round False (open_round (consensus_round_id (tvId reissued) (tvCurrentRound reissued + 1)) (tvId reissued)
       (tvCurrentRound reissued + 1) (Some reason) now (Some (rdId cur))) d1 = Inr (n2, d2)"
    "advance_round (tvId reissued) (tvCurrentRound reissued) (tvCurrentRound reissued + 1) now d2 = Inr (n3, d3)"
    "cancel_held_evidence (tvId reissued) (rdId cur) d3 = Inr (n4, db')"
    unfolding reissue_statements_def Let_def by (blast dest: run_batch4)
  have d1: "taskVersions d1 = taskVersions db \<and> events d1 = events db \<and> appeals d1 = appeals db"
    using s(1) by (auto simp: supersede_round_def Let_def split: if_splits)
  note d2 = insert_round_frame[OF s(2)]
  have d4: "taskVersions db' = taskVersions d3 \<and> events db' = events d3 \<and> appeals db' = appeals d3"
    using s(4) by (auto simp: cancel_held_evidence_def Let_def)
  let ?p = "\<lambda>t. tvId t = tvId reissued \<and> tvState t = Reissued \<and> tvCurrentRound t = tvCurrentRound reissued"
  let ?f = "\<lambda>t::task_row. t\<lparr>tvCurrentRound := tvCurrentRound reissued + 1, tvUpdatedAt := now\<rparr>"
  have d3: "taskVersions d3 = update_rows ?p ?f (taskVersions d2)" "events d3 = events d2" "appeals d3 = appeals d2"
    using s(3) by (auto simp: advance_round_def Let_def)
  have "same_tasks d2 d3" by (rule same_tasksI[OF d3(1)]) (simp_all add: spine_def dates_def bound_def)
  with d1 d2 d3 d4 show ?thesis by (simp add: same_tasks_def)
qed

lemma insert_appeal_frame:
  "insert_appeal i who f ev created db = Inr (n, db') \<Longrightarrow> taskVersions db' = taskVersions db \<and> events db' = events db
     \<and> (appeals db' = appeals db \<or> (\<exists>fin t a. appeal_candidate f db = Some (fin, t) \<and> tvState t = Approved
          \<and> apTask a = fiTask fin \<and> appeals db' = appeals db @ [a]))"
  by (auto simp: insert_appeal_def split: option.splits prod.splits if_splits)

lemma decide_appeal_frame:
  assumes "decide_appeal i status subj reason now db = Inr (n, db')" "status \<noteq> AppealPending"
  shows "taskVersions db' = taskVersions db \<and> events db' = events db \<and> (pending_appeal k db' \<longrightarrow> pending_appeal k db)"
proof -
  have eq: "appeals db' = update_rows (\<lambda>a. apId a = i \<and> apStatus a = AppealPending)
      (\<lambda>a. a\<lparr>apStatus := status, apReviewerSubject := Some subj, apReviewReason := Some reason,
         apReviewedAt := Some now\<rparr>) (appeals db)"
    and tasks: "taskVersions db' = taskVersions db" "events db' = events db"
    using assms(1) by (auto simp: decide_appeal_def Let_def)
  have "pending_appeal k db' \<longrightarrow> pending_appeal k db"
    unfolding pending_appeal_def eq set_update_rows using assms(2) by (auto split: if_splits)
  with tasks show ?thesis by simp
qed

lemma appeal_candidate_task:
  "appeal_candidate f db = Some (fin, t) \<Longrightarrow> t \<in> set (taskVersions db) \<and> tvId t = fiTask fin"
  by (auto simp: appeal_candidate_def split: option.splits dest!: find_SomeD)

section \<open>Publication\<close>

lemma transition_row_dates:
  "dates (transition_row tr eventId now t) =
     (coalesce_opt (trAppealDeadlineAt tr) (tvAppealDeadlineAt t),
      if trTo tr = Published then Some now else tvPublishedAt t)"
  by (simp add: transition_row_def dates_def)

lemma pub_inv_move:
  assumes inv: "log_inv db" and pub: "pub_inv db" and g: "guarded tr now"
    and run: "run_batch (transition_statements env task tr eventId now) db = Inr (ns, db')"
  shows "pub_inv db'"
  using transition_cases[OF inv run]
proof
  assume "ns = [0, 0] \<and> taskVersions db' = taskVersions db \<and> events db' = events db \<and> appeals db' = appeals db
       \<and> (\<forall>t \<in> set (taskVersions db). \<not> transition_applies db task tr now t)"
  then show ?thesis using pub by (simp add: pub_inv_def pending_appeal_def)
next
  assume "ns = [1, 1] \<and> appeals db' = appeals db \<and> (\<exists>t \<in> set (taskVersions db). transition_applies db task tr now t
       \<and> taskVersions db' = update_rows (\<lambda>x. tvId x = tvId t) (transition_row tr eventId now) (taskVersions db)
       \<and> events db' = events db @ [transition_event env task tr eventId now]
       \<and> (\<forall>e \<in> set (events db). evId e \<noteq> eventId \<and> evKey e \<noteq> trIdempotencyKey tr))"
  then obtain t where t: "t \<in> set (taskVersions db)" "transition_applies db task tr now t"
    and db': "taskVersions db' = update_rows (\<lambda>x. tvId x = tvId t) (transition_row tr eventId now) (taskVersions db)"
      "appeals db' = appeals db"
    by blast
  have tids: "distinct (map tvId (taskVersions db))" using inv by (simp add: log_inv_def)
  have pend: "pending_appeal i db' = pending_appeal i db" for i by (simp add: pending_appeal_def db'(2))
  show ?thesis unfolding pub_inv_def
  proof (intro ballI impI)
    fix y assume "y \<in> set (taskVersions db')" and p: "tvState y = Published"
    then obtain x where x: "x \<in> set (taskVersions db)"
      "y = (if tvId x = tvId t then transition_row tr eventId now x else x)"
      unfolding db'(1) set_update_rows by blast
    show "\<not> pending_appeal (tvId y) db' \<and> (\<exists>d q. dates y = (Some d, Some q) \<and> d \<le> q)"
    proof (cases "tvId x = tvId t")
      case False
      with x p pub show ?thesis by (simp add: pend pub_inv_def)
    next
      case True
      then have "x = t" using task_of_id[OF tids x(1) t(1)] by blast
      with x(2) have y: "y = transition_row tr eventId now t" by simp
      with p have to: "trTo tr = Published" by (simp add: transition_row_def)
      with g have gd: "trRequirePublicationReady tr" "trAppealDeadlineAt tr = None"
        "case trPublicationGuardAt tr of None \<Rightarrow> True | Some g \<Rightarrow> g \<le> now"
        by (simp_all add: guarded_def)
      with t(2) have ready: "publication_ready db (case trPublicationGuardAt tr of None \<Rightarrow> now | Some g \<Rightarrow> g) t"
        by (simp add: transition_applies_def)
      then obtain d where d: "tvAppealDeadlineAt t = Some d"
        "d \<le> (case trPublicationGuardAt tr of None \<Rightarrow> now | Some g \<Rightarrow> g)"
        by (auto simp: publication_ready_def split: option.splits)
      then have "d \<le> now" using gd(3) by (auto split: option.splits)
      moreover have "\<not> pending_appeal (tvId t) db" using ready by (simp add: publication_ready_def pending_appeal_def)
      ultimately show ?thesis using y to gd(2) d(1)
        by (simp add: pend transition_row_dates coalesce_opt_def)
    qed
  qed
qed

section \<open>Invariants\<close>

lemma call_inv:
  assumes "call env db db'" "log_inv db" "pub_inv db"
  shows "log_inv db' \<and> pub_inv db'"
  using assms(1)
proof cases
  case (register identity policy now ns)
  have "pub_inv db'"
  proof -
    from registration_cases[OF assms(2) register]
    consider "appeals db' = appeals db" "taskVersions db' = taskVersions db"
      | "appeals db' = appeals db"
        "taskVersions db' = taskVersions db @ [registration_task_row identity policy (initial_event_id identity) now]"
      by blast
    then show ?thesis
      using assms(3) by cases (auto simp: pub_inv_def pending_appeal_def registration_task_row_def)
  qed
  with log_inv_register[OF assms(2) register] show ?thesis by blast
next
  case (move task tr now eventId ns)
  then have "fresh_id (trIdempotencyKey tr)" by (simp add: guarded_def)
  with log_inv_move[OF assms(2)] pub_inv_move[OF assms(2,3)] move show ?thesis by blast
next
  case (reissue reissued currentRound reason now ns)
  note f = reissue_frame[OF reissue]
  then have "log_inv db'" using log_inv_cong[of db' db] assms(2) by (simp add: same_tasks_def)
  moreover have "pub_inv db'" using f assms(3) by (intro pub_inv_cong[of db db']) (auto simp: pending_appeal_def)
  ultimately show ?thesis by blast
next
  case (appeal appealId userId finalReceiptId evidence createdAt n)
  note f = insert_appeal_frame[OF appeal]
  then have "log_inv db'" using log_inv_cong[of db' db] assms(2) by simp
  moreover have "pub_inv db'" unfolding pub_inv_def
  proof (intro ballI impI)
    fix t assume t: "t \<in> set (taskVersions db')" "tvState t = Published"
    with f assms(3) have old: "\<not> pending_appeal (tvId t) db" "\<exists>d p. dates t = (Some d, Some p) \<and> d \<le> p"
      by (simp_all add: pub_inv_def)
    have "\<not> pending_appeal (tvId t) db'"
    proof
      assume "pending_appeal (tvId t) db'"
      with old(1) have "appeals db' \<noteq> appeals db" by (auto simp: pending_appeal_def)
      with f obtain fin t' a where c: "appeal_candidate finalReceiptId db = Some (fin, t')"
        "tvState t' = Approved" "apTask a = fiTask fin" and ap: "appeals db' = appeals db @ [a]" by blast
      from \<open>pending_appeal (tvId t) db'\<close> old(1) have "apTask a = tvId t"
        by (auto simp: pending_appeal_def ap)
      note new = c this
      from appeal_candidate_task[OF new(1)] new(3,4) have "t' \<in> set (taskVersions db)" "tvId t' = tvId t" by simp_all
      then have "t' = t" using task_of_id[of "taskVersions db" t' t] assms(2) t(1) f by (simp add: log_inv_def)
      with new(2) t(2) show False by simp
    qed
    with old show "\<not> pending_appeal (tvId t) db' \<and> (\<exists>d p. dates t = (Some d, Some p) \<and> d \<le> p)" by blast
  qed
  ultimately show ?thesis by blast
next
  case (decide status appealId subjectHash reason now n)
  note f = decide_appeal_frame[OF decide(2) decide(1)]
  then have "log_inv db'" using log_inv_cong[of db' db] assms(2) by simp
  moreover have "pub_inv db'" using f assms(3) by (intro pub_inv_cong[of db db']) (auto simp: same_tasks_def)
  ultimately show ?thesis by blast
next
  case other
  then have "log_inv db'" using log_inv_cong[of db' db] assms(2) by (simp add: same_tasks_def)
  moreover have "pub_inv db'" using other assms(3) by (intro pub_inv_cong[of db db']) (auto simp: pending_appeal_def)
  ultimately show ?thesis by blast
qed

lemma reachable_inv: "reachable env db \<Longrightarrow> log_inv db \<and> pub_inv db"
  unfolding reachable_def
proof (induction rule: rtranclp_induct)
  case base
  show ?case by (simp add: log_inv_def pub_inv_def empty_db_def)
next
  case (step db db')
  then show ?case using call_inv by blast
qed

section \<open>What only grows\<close>

text \<open>Events are never changed or removed; a task keeps its bound columns and its version grows.\<close>

definition grows :: "cdb \<Rightarrow> cdb \<Rightarrow> bool" where
  "grows db db' \<longleftrightarrow> (\<exists>es. events db' = events db @ es) \<and>
     (\<forall>t \<in> set (taskVersions db). \<exists>t' \<in> set (taskVersions db'). tvId t' = tvId t \<and> bound t' = bound t
        \<and> tvStateVersion t \<le> tvStateVersion t')"

lemma grows_refl: "grows db db"
  by (auto simp: grows_def)

lemma grows_trans:
  assumes ab: "grows a b" and bc: "grows b c"
  shows "grows a c"
proof -
  from ab bc obtain es es' where "events b = events a @ es" "events c = events b @ es'" by (auto simp: grows_def)
  then have ev: "\<exists>es. events c = events a @ es" by simp
  have "\<exists>t' \<in> set (taskVersions c). tvId t' = tvId t \<and> bound t' = bound t \<and> tvStateVersion t \<le> tvStateVersion t'"
    if "t \<in> set (taskVersions a)" for t
  proof -
    from that ab obtain t1 where t1: "t1 \<in> set (taskVersions b)" "tvId t1 = tvId t" "bound t1 = bound t"
      "tvStateVersion t \<le> tvStateVersion t1" unfolding grows_def by blast
    from t1(1) bc obtain t2 where "t2 \<in> set (taskVersions c)" "tvId t2 = tvId t1" "bound t2 = bound t1"
      "tvStateVersion t1 \<le> tvStateVersion t2" unfolding grows_def by blast
    with t1 show ?thesis by (intro bexI[of _ t2]) simp_all
  qed
  with ev show ?thesis by (simp add: grows_def)
qed

lemma grows_same_tasks:
  assumes "same_tasks db db'" "events db' = events db"
  shows "grows db db'"
  unfolding grows_def
proof (intro conjI ballI)
  show "\<exists>es. events db' = events db @ es" using assms(2) by simp
  fix t assume "t \<in> set (taskVersions db)"
  then obtain k where k: "k < length (taskVersions db)" "t = taskVersions db ! k" by (metis in_set_conv_nth)
  then have "k < length (taskVersions db')" using assms(1) unfolding same_tasks_def by (metis length_map)
  moreover have "spine (taskVersions db' ! k) = spine t" "bound (taskVersions db' ! k) = bound t"
    using assms(1) k calculation unfolding same_tasks_def by (metis nth_map)+
  ultimately show "\<exists>t' \<in> set (taskVersions db'). tvId t' = tvId t \<and> bound t' = bound t
      \<and> tvStateVersion t \<le> tvStateVersion t'"
    by (intro bexI[of _ "taskVersions db' ! k"]) (simp_all add: spine_def)
qed

lemma transition_row_bound [simp]: "bound (transition_row tr eventId now t) = bound t"
  by (simp add: transition_row_def bound_def)

lemma call_grows:
  assumes "call env db db'" "log_inv db"
  shows "grows db db'"
  using assms(1)
proof cases
  case (register identity policy now ns)
  from registration_cases[OF assms(2) register] show ?thesis by (auto simp: grows_def)
next
  case (move task tr now eventId ns)
  from transition_cases[OF assms(2) move(4)] show ?thesis
  proof
    assume "ns = [1, 1] \<and> appeals db' = appeals db \<and> (\<exists>t \<in> set (taskVersions db). transition_applies db task tr now t
       \<and> taskVersions db' = update_rows (\<lambda>x. tvId x = tvId t) (transition_row tr eventId now) (taskVersions db)
       \<and> events db' = events db @ [transition_event env task tr eventId now]
       \<and> (\<forall>e \<in> set (events db). evId e \<noteq> eventId \<and> evKey e \<noteq> trIdempotencyKey tr))"
    then obtain i where i: "taskVersions db' = update_rows (\<lambda>x. tvId x = i) (transition_row tr eventId now) (taskVersions db)"
      "events db' = events db @ [transition_event env task tr eventId now]" by blast
    have "\<exists>t' \<in> set (taskVersions db'). tvId t' = tvId t \<and> bound t' = bound t \<and> tvStateVersion t \<le> tvStateVersion t'"
      if "t \<in> set (taskVersions db)" for t
    proof -
      have "(if tvId t = i then transition_row tr eventId now t else t) \<in> set (taskVersions db')"
        using that unfolding i(1) set_update_rows by blast
      then show ?thesis
        by (rule rev_bexI) (simp add: transition_row_def bound_def)
    qed
    with i(2) show ?thesis unfolding grows_def by blast
  qed (simp add: grows_def, force)
next
  case (reissue reissued currentRound reason now ns)
  then show ?thesis using reissue_frame grows_same_tasks by blast
next
  case (appeal appealId userId finalReceiptId evidence createdAt n)
  then show ?thesis using insert_appeal_frame grows_same_tasks same_tasks_refl by blast
next
  case (decide status appealId subjectHash reason now n)
  then show ?thesis using decide_appeal_frame grows_same_tasks same_tasks_refl by metis
next
  case other
  then show ?thesis using grows_same_tasks by blast
qed

section \<open>Paths through the state machine\<close>

lemma log_ok_step:
  assumes "log_ok es (i, s, v, l)" "s \<noteq> Open"
  shows "\<exists>es' e. es = es' @ [e] \<and> evTo e = s \<and> s \<in> set (allowed_transitions (evFrom e))
    \<and> log_ok es' (i, evFrom e, v - 1, Some (evId (last es')))"
proof -
  from assms(1) obtain es' e where es: "es = es' @ [e]"
    by (cases es rule: rev_cases) (auto simp: log_ok_def)
  have ne: "es' \<noteq> []"
  proof
    assume "es' = []"
    with assms es show False by (auto simp: log_ok_def)
  qed
  with assms(1) es show ?thesis
    by (intro exI[of _ es'] exI[of _ e]) (auto simp: log_ok_def successively_append_iff)
qed

lemma only_source:
  "Published \<in> set (allowed_transitions s) \<longleftrightarrow> s = Approved"
  "Approved \<in> set (allowed_transitions s) \<longleftrightarrow> s = FinalReview"
  "FinalReview \<in> set (allowed_transitions s) \<longleftrightarrow> s = Discussion"
  "Discussion \<in> set (allowed_transitions s) \<longleftrightarrow> s = IndependentReview"
  by (cases s; simp)+

lemma published_path:
  assumes "log_ok es (i, Published, v, l)"
  shows "\<exists>pre. map evTo es = pre @ [IndependentReview, Discussion, FinalReview, Approved, Published]"
proof -
  from log_ok_step[OF assms] obtain e4 r4 where s4: "es = r4 @ [e4]" "evTo e4 = Published"
    "log_ok r4 (i, Approved, v - 1, Some (evId (last r4)))" by (auto simp: only_source)
  from log_ok_step[OF s4(3)] obtain e3 r3 where s3: "r4 = r3 @ [e3]" "evTo e3 = Approved"
    "log_ok r3 (i, FinalReview, v - 1 - 1, Some (evId (last r3)))" by (auto simp: only_source)
  from log_ok_step[OF s3(3)] obtain e2 r2 where s2: "r3 = r2 @ [e2]" "evTo e2 = FinalReview"
    "log_ok r2 (i, Discussion, v - 1 - 1 - 1, Some (evId (last r2)))" by (auto simp: only_source)
  from log_ok_step[OF s2(3)] obtain e1 r1 where s1: "r2 = r1 @ [e1]" "evTo e1 = Discussion"
    "log_ok r1 (i, IndependentReview, v - 1 - 1 - 1 - 1, Some (evId (last r1)))" by (auto simp: only_source)
  from log_ok_step[OF s1(3)] obtain e0 r0 where s0: "r1 = r0 @ [e0]" "evTo e0 = IndependentReview" by auto
  show ?thesis by (rule exI[of _ "map evTo r0"]) (simp add: s0 s1(1,2) s2(1,2) s3(1,2) s4(1,2))
qed

section \<open>Handlers are sequences of calls\<close>

text \<open>What the runtime guarantees: UUIDs are not opening identifiers, the clock does not run back.\<close>

definition sound_env :: "env \<Rightarrow> bool" where
  "sound_env env \<longleftrightarrow> (\<forall>n. fresh_id (envUuid env n)) \<and> (\<forall>m n. m \<le> n \<longrightarrow> envClock env m \<le> envClock env n)"

lemma call_frame:
  "taskVersions db' = taskVersions db \<Longrightarrow> events db' = events db \<Longrightarrow> appeals db' = appeals db \<Longrightarrow> calls env db db'"
  by (auto intro: r_into_rtranclp call.other same_tasks_refl)

interpretation runs: effect "calls env" for env
proof
  show "calls env db (db\<lparr>ticks := m\<rparr>)" "calls env db (db\<lparr>uuids := n\<rparr>)" for db :: cdb and m n
    by (rule call_frame; simp)+
qed auto

text \<open>Statements that leave tasks, events and appeals alone.\<close>

lemma aside_calls:
  "(\<And>db n db'. s db = Inr (n, db') \<Longrightarrow> taskVersions db' = taskVersions db \<and> events db' = events db
     \<and> appeals db' = appeals db) \<Longrightarrow> stmt_pres (calls env) s"
  by (auto simp: stmt_pres_def intro: call_frame)

lemma aside_statements:
  "stmt_pres (calls env) (insert_outbox b ob)" "stmt_pres (calls env) (insert_metrics_or_ignore me)"
  "stmt_pres (calls env) (insert_notification_or_ignore env' no)" "stmt_pres (calls env) (release_statement t r ids now)"
  "stmt_pres (calls env) (close_round i now)" "stmt_pres (calls env) (update_finals p f)"
  "stmt_pres (calls env) (insert_notice_or_ignore nt)" "stmt_pres (calls env) (insert_submission sb)"
  "stmt_pres (calls env) (insert_participation pa)" "stmt_pres (calls env) (insert_final fi)"
  "stmt_pres (calls env) (insert_recusal re)" "stmt_pres (calls env) (insert_receipt_or_ignore rc)"
  by (rule aside_calls, auto simp: insert_outbox_def insert_metrics_or_ignore_def insert_notification_or_ignore_def
      release_statement_def close_round_def update_finals_def insert_notice_or_ignore_def insert_submission_def
      insert_participation_def insert_final_def insert_recusal_def insert_receipt_or_ignore_def Let_def
      split: if_splits)+

text \<open>One transition, from a database whose clock is past the guard.\<close>

lemma run_bind:
  "calls env s (snd (m s)) \<Longrightarrow> (\<And>x. st_pres (calls env) (f x)) \<Longrightarrow> calls env s (snd (st_bind m f s))"
  unfolding st_bind_run st_pres_def by (auto split: sum.splits intro: rtranclp_trans)

lemma run_bind_known:
  "m s = (Inr x, s') \<Longrightarrow> calls env s s' \<Longrightarrow> calls env s' (snd (f x s')) \<Longrightarrow> calls env s (snd (st_bind m f s))"
  unfolding st_bind_run by (auto intro: rtranclp_trans)

lemma transition_calls:
  assumes env: "sound_env env" and key: "fresh_id (trIdempotencyKey tr)"
    and pub: "trTo tr = Published \<Longrightarrow> trRequirePublicationReady tr \<and> trAppealDeadlineAt tr = None
      \<and> (case trPublicationGuardAt tr of None \<Rightarrow> True | Some g \<Rightarrow> g \<le> envClock env (ticks s))"
  shows "calls env s (snd (transition_consensus_task env task tr s))"
proof -
  let ?batch = "\<lambda>now eventId. db_batch (transition_statements env task tr eventId now)"
  have batch: "calls env db (snd (?batch now eventId db))"
    if "assert_consensus_transition (tvState task) (trTo tr) = Inr ()" "guarded tr now" "fresh_id eventId" for db now eventId
    using that call.move[of task tr now eventId env db]
    by (auto simp: db_batch_def split: sum.splits prod.splits intro: r_into_rtranclp)
  show ?thesis
  proof (cases "assert_consensus_transition (tvState task) (trTo tr)")
    case (Inl err)
    then have "snd (transition_consensus_task env task tr s) = s"
      by (cases err) (simp_all add: transition_consensus_task_def st_bind_run st_simps)
    then show ?thesis by simp
  next
    case (Inr ok)
    let ?now = "envClock env (ticks s)" and ?id = "envUuid env (uuids s)"
    let ?s1 = "s\<lparr>ticks := ticks s + 1\<rparr>" and ?s2 = "s\<lparr>ticks := ticks s + 1, uuids := uuids s + 1\<rparr>"
    have g: "guarded tr ?now" using pub key by (auto simp: guarded_def)
    have f: "fresh_id ?id" using env by (simp add: sound_env_def)
    have ok: "assert_consensus_transition (tvState task) (trTo tr) = Inr ()" using Inr by simp
    show ?thesis
      unfolding transition_consensus_task_def
      apply (rule run_bind_known[of _ _ "()" s])
        apply (simp add: st_simps ok)
       apply simp
      apply (rule run_bind_known[of _ _ "event_key_exists (trIdempotencyKey tr) s" s])
        apply (simp add: st_simps)
       apply simp
      apply (cases "event_key_exists (trIdempotencyKey tr) s")
       apply (simp only: if_True)
       apply (rule st_presD[OF runs.reads(1)])
      apply (simp only: if_False)
      apply (rule run_bind_known[of _ _ ?now ?s1])
        apply (simp add: date_now_def)
       apply (rule call_frame; simp)
      apply (rule run_bind_known[of _ _ ?id ?s2])
        apply (simp add: random_uuid_def)
       apply (rule call_frame; simp)
      apply (rule run_bind)
       apply (rule batch[OF ok g f])
      apply (intro effect_intros)
      done
  qed
qed

lemma fresh_literal: "length p \<ge> 10 \<Longrightarrow> fresh_id (u p @ x) \<longleftrightarrow> take 10 p \<noteq> ''task-open:''"
  by (simp add: fresh_id_def u_def take_map flip: u_inject)

lemma fresh_head: "c \<noteq> CHR ''t'' \<Longrightarrow> fresh_id (u (c # p) @ x)"
proof -
  assume "c \<noteq> CHR ''t''"
  moreover have "of_char CHR ''t'' = (116 :: nat)" by simp
  ultimately have "of_char c \<noteq> (116 :: nat)" using of_char_eq_iff by metis
  then show ?thesis by (simp add: fresh_id_def u_def)
qed

lemma plain_simps [simp]:
  "trTo (plain_transition to r e reason ev key) = to"
  "trIdempotencyKey (plain_transition to r e reason ev key) = key"
  by (simp_all add: plain_transition_def)

lemma transition_facts [simp]:
  "trTo (reissue_transition task cur reason actor) = Reissued"
  "trTo (round_open_transition cur i n actor) = IndependentReview"
  "trTo (quorum_transition rnd a b m p passed) = Discussion"
  "trTo (proposal_transition rnd receipt rt k) = (if k > 0 then Escalated else FinalReview)"
  "trTo (ratified_transition rnd receipt rat agrees d) = (if agrees then Approved else Escalated)"
  "trTo (expiry_transition rnd) = Escalated"
  "trTo (appeal_transition ap subj) = Escalated"
  "trTo (publish_transition i f rc g) = Published"
  by (simp_all add: reissue_transition_def round_open_transition_def quorum_transition_def
      proposal_transition_def ratified_transition_def expiry_transition_def appeal_transition_def publish_transition_def)

lemma transition_keys [simp]:
  "fresh_id (trIdempotencyKey (reissue_transition task cur reason actor))"
  "fresh_id (trIdempotencyKey (round_open_transition cur i n actor))"
  "fresh_id (trIdempotencyKey (quorum_transition rnd a b m p passed))"
  "fresh_id (trIdempotencyKey (proposal_transition rnd receipt rt k))"
  "fresh_id (trIdempotencyKey (ratified_transition rnd receipt rat agrees d))"
  "fresh_id (trIdempotencyKey (expiry_transition rnd))"
  "fresh_id (trIdempotencyKey (appeal_transition ap subj))"
  "fresh_id (trIdempotencyKey (publish_transition i f rc g))"
  by (simp_all add: reissue_transition_def round_open_transition_def quorum_transition_def
      proposal_transition_def ratified_transition_def expiry_transition_def appeal_transition_def
      publish_transition_def fresh_head)

lemma evidence_calls: "st_pres (calls env) (ensure_task_state_evidence env task)"
  unfolding ensure_task_state_evidence_def by (intro effect_intros runs.one aside_statements)

lemma notification_calls: "st_pres (calls env) (queue_governance_notifications env t e c k)"
  unfolding queue_governance_notifications_def
  by (intro effect_intros runs.batch) (auto simp: notification_writes_def aside_statements)

lemma publish_calls:
  assumes "sound_env env"
  shows "st_pres (calls env) (publish_now env task f receipt)"
proof (rule st_presI)
  fix s :: cdb
  let ?g = "envClock env (ticks s)" and ?s1 = "s\<lparr>ticks := ticks s + 1\<rparr>"
  let ?tr = "publish_transition (tvId task) f receipt ?g"
  have g: "?g \<le> envClock env (ticks ?s1)" using assms by (simp add: sound_env_def)
  have "calls env ?s1 (snd (transition_consensus_task env task ?tr ?s1))"
    using g by (intro transition_calls[OF assms]) (simp_all add: publish_transition_def plain_transition_def fresh_head)
  then have "calls env ?s1 (snd (st_bind (transition_consensus_task env task ?tr) (\<lambda>moved. st_return (Some moved)) ?s1))"
    by (rule run_bind) (rule runs.pure)
  then have "calls env ?s1 (snd (on_conflict (st_bind (transition_consensus_task env task ?tr)
      (\<lambda>moved. st_return (Some moved))) (st_return None) ?s1))"
    unfolding on_conflict_def st_catch_run
    by (auto simp: st_simps split: sum.splits thrown.splits store_error.splits)
  then show "calls env s (snd (publish_now env task f receipt s))"
    unfolding publish_now_def
    apply (intro run_bind_known[of "date_now env" s ?g ?s1])
      apply (simp add: date_now_def)
     apply (rule call_frame; simp)
    apply (erule run_bind)
    apply (unfold mark_published_def)
    apply (intro effect_intros runs.one aside_statements evidence_calls notification_calls)
    done
qed

lemma st_pres_if_sound: "(sound_env env \<Longrightarrow> st_pres (calls env) m) \<Longrightarrow> st_pres (\<lambda>db db'. sound_env env \<longrightarrow> calls env db db') m"
  by (simp add: st_pres_def)

lemma stmt_pres_if_sound: "stmt_pres (calls env) s \<Longrightarrow> stmt_pres (\<lambda>db db'. sound_env env \<longrightarrow> calls env db db') s"
  by (simp add: stmt_pres_def)

definition plain_call :: "transition \<Rightarrow> bool" where
  "plain_call tr \<longleftrightarrow> fresh_id (trIdempotencyKey tr) \<and> trTo tr \<noteq> Published"

lemma transition_plain_call: "plain_call tr \<Longrightarrow> sound_env env \<Longrightarrow> st_pres (calls env) (transition_consensus_task env task tr)"
  using transition_calls by (intro st_presI) (auto simp: plain_call_def)

lemma one_call: "(\<And>db n db'. s db = Inr (n, db') \<Longrightarrow> call env db db') \<Longrightarrow> stmt_pres (calls env) s"
  by (auto simp: stmt_pres_def)

lemma batch_call: "(\<And>db ns db'. run_batch ss db = Inr (ns, db') \<Longrightarrow> call env db db') \<Longrightarrow> st_pres (calls env) (db_batch ss)"
  by (intro st_presI) (auto simp: db_batch_def split: sum.splits prod.splits intro: r_into_rtranclp)

interpretation sound_runs: governance_effect "\<lambda>db db'. sound_env env \<longrightarrow> calls env db db'" env plain_call for env
proof (unfold_locales, goal_cases)
  case (2 a b c)
  then show ?case by auto
qed (auto simp: plain_call_def revoke_final_def intro!: st_pres_if_sound stmt_pres_if_sound call_frame transition_plain_call
    publish_calls batch_call one_call aside_statements intro: call.intros)

lemma sound_keeps: "st_pres (\<lambda>db db'. sound_env env \<longrightarrow> calls env db db') m \<Longrightarrow> sound_env env \<Longrightarrow> calls env db (snd (m db))"
  by (simp add: st_pres_def)

section \<open>A transition that goes through\<close>

lemma move_run:
  assumes "distinct (map tvId (taskVersions db))" "t \<in> set (taskVersions db)"
    "transition_applies db task tr now t"
    "\<forall>e \<in> set (events db). evId e \<noteq> eventId \<and> evKey e \<noteq> trIdempotencyKey tr"
  shows "run_batch (transition_statements env task tr eventId now) db = Inr ([1, 1],
    db\<lparr>taskVersions := update_rows (\<lambda>x. tvId x = tvId task) (transition_row tr eventId now) (taskVersions db),
       events := events db @ [transition_event env task tr eventId now]\<rparr>)"
proof -
  let ?p = "transition_applies db task tr now"
  let ?ev = "transition_event env task tr eventId now"
  have tid: "tvId t = tvId task" "tvStateVersion t = tvStateVersion task"
    using assms(3) by (simp_all add: transition_applies_def)
  have same: "?p x \<Longrightarrow> tvId x = tvId t" for x using tid by (simp add: transition_applies_def)
  note u = count_rows_unique[where p = ?p, OF assms(1,2,3) same]
  let ?d1 = "db\<lparr>taskVersions := update_rows (\<lambda>x. tvId x = tvId task) (transition_row tr eventId now) (taskVersions db)\<rparr>"
  have "update_task_stmt task tr eventId now db = Inr (1, ?d1)"
    using u tid by (simp add: update_task_stmt_def)
  moreover have "insert_event_if_moved ?ev task tr ?d1 = Inr (1, ?d1\<lparr>events := events ?d1 @ [?ev]\<rparr>)"
  proof -
    have row: "transition_row tr eventId now t \<in> set (taskVersions ?d1)"
      using assms(2) tid by (auto simp: set_update_rows)
    then have "\<exists>x \<in> set (taskVersions ?d1). tvId x = tvId task \<and> tvLastEventId x = Some (evId ?ev)
        \<and> tvState x = trTo tr \<and> tvStateVersion x = tvStateVersion task + 1"
      using tid by (intro bexI[of _ "transition_row tr eventId now t"]) (simp_all add: transition_row_def)
    then have "insert_event_if_moved ?ev task tr ?d1 = insert_event False ?ev ?d1"
      unfolding insert_event_if_moved_def by (simp only: if_True)
    moreover have "known_task ?d1 (evTask ?ev)" using row tid unfolding known_task_def
      by (intro bexI[of _ "transition_row tr eventId now t"]) simp_all
    moreover have "\<not> (\<exists>e \<in> set (events ?d1). event_conflict ?ev e)"
      using assms(4) by (auto simp: event_conflict_def)
    ultimately show ?thesis by (simp add: insert_event_def)
  qed
  ultimately show ?thesis by (simp add: transition_statements_def)
qed

section \<open>A sample run\<close>

definition sample_env :: env where
  "sample_env = \<lparr>envSha256 = (\<lambda>_. u ''00''), envHmac = (\<lambda>_. u ''mac''), envClock = int, envUuid = nat_str,
     envBackend = D1\<rparr>"

lemma fresh_digits: "fresh_id (nat_str n)"
proof -
  obtain c w where c: "nat_str n = c # w" using nat_str_nonempty by (cases "nat_str n") blast+
  have "c \<noteq> 116" using nat_str_digits[of c n] c by auto
  with c show ?thesis by (simp add: fresh_id_def u_def)
qed

lemma sample_env_sound: "sound_env sample_env"
  by (simp add: sound_env_def sample_env_def fresh_digits)

definition sample_identity :: task_identity where
  "sample_identity = \<lparr>tiId = u ''t:v1'', tiTaskId = u ''t'', tiTaskVersion = 1, tiPacketId = u ''p'',
     tiHoldoutId = u ''h'', tiPacketMerkleRoot = replicate 64 48, tiGuidelineVersion = u ''g'',
     tiDataVersion = u ''d'', tiProtocolVersion = u ''v''\<rparr>"

text \<open>\<open>sample_at db s n\<close>: a reachable database with the sample task in state \<open>s\<close> and its first round,
  whose used event identifiers and keys are the opening one and numbers below \<open>n\<close>.\<close>

definition sample_at :: "cdb \<Rightarrow> task_state \<Rightarrow> nat \<Rightarrow> bool" where
  "sample_at db s n \<longleftrightarrow> reachable sample_env db \<and> appeals db = [] \<and>
     (\<exists>t. taskVersions db = [t] \<and> tvState t = s \<and> (s \<noteq> Open \<longrightarrow> tvAppealDeadlineAt t = Some 0)
        \<and> tvId t = tiId sample_identity \<and> tvCurrentRound t = 1)
     \<and> (\<exists>r. rounds db = [r] \<and> rdTask r = tiId sample_identity \<and> rdNumber r = 1
        \<and> rdId r = consensus_round_id (tiId sample_identity) 1)
     \<and> (\<forall>e \<in> set (events db). hd (evKey e) \<noteq> hd (u ''r'') \<and> (\<forall>m \<ge> n. evId e \<noteq> nat_str m \<and> evKey e \<noteq> nat_str m))"

lemma sample_open: "\<exists>db. sample_at db Open 0"
proof -
  let ?r = "registration_task_row sample_identity JNull (initial_event_id sample_identity) 0"
  let ?o = "open_round (consensus_round_id (tiId sample_identity) 1) (tiId sample_identity) 1 None 0 None"
  let ?e = "registration_event sample_env sample_identity JNull (consensus_round_id (tiId sample_identity) 1) 0"
  let ?db = "empty_db\<lparr>taskVersions := [?r], rounds := [?o], events := [?e]\<rparr>"
  have e: "evId ?e = task_open_id (tiId sample_identity)" "evKey ?e = task_open_id (tiId sample_identity)"
    "evTask ?e = tiId sample_identity"
    by (simp_all add: registration_event_def initial_event_id_def task_open_id_def Let_def)
  have ids: "tvId ?r = tiId sample_identity" "rdTask ?o = tiId sample_identity"
    by (simp_all add: registration_task_row_def open_round_def)
  have "task_check ?r" by (simp add: task_check_def registration_task_row_def sample_identity_def)
  then have "run_batch (registration_statements sample_env sample_identity JNull 0) empty_db = Inr ([1, 1, 1], ?db)"
    using e(3) ids by (simp add: registration_statements_def Let_def insert_task_or_ignore_def insert_round_def
        reissue_reason_check_def open_round_def insert_event_def known_task_def empty_db_def)
  then have "reachable sample_env ?db" unfolding reachable_def by (blast intro: call.register)
  moreover have "task_open_id i \<noteq> nat_str m" for i m using fresh_id_iff[OF fresh_digits] by metis
  ultimately show ?thesis
    by (intro exI[of _ ?db])
      (simp add: sample_at_def e[simplified] registration_task_row_def open_round_def empty_db_def, simp add: task_open_id_def u_def)
qed

definition sample_transition :: "task_state \<Rightarrow> nat \<Rightarrow> transition" where
  "sample_transition to n = (plain_transition to None [] [] JNull (nat_str n))
     \<lparr>trAppealDeadlineAt := (if to = Published then None else Some 0),
      trRequirePublicationReady := to = Published\<rparr>"

lemma sample_step:
  assumes "sample_at db s n" "to \<in> set (allowed_transitions s)" "to \<noteq> Open" "to = Published \<Longrightarrow> s \<noteq> Open"
  shows "\<exists>db'. sample_at db' to (n + 1)"
proof -
  from assms(1) obtain t where t: "taskVersions db = [t]" "tvState t = s" "s \<noteq> Open \<longrightarrow> tvAppealDeadlineAt t = Some 0"
      "tvId t = tiId sample_identity" "tvCurrentRound t = 1"
    and db: "reachable sample_env db" "appeals db = []"
      "\<exists>r. rounds db = [r] \<and> rdTask r = tiId sample_identity \<and> rdNumber r = 1
        \<and> rdId r = consensus_round_id (tiId sample_identity) 1"
      "\<forall>e \<in> set (events db). hd (evKey e) \<noteq> hd (u ''r'') \<and> (\<forall>m \<ge> n. evId e \<noteq> nat_str m \<and> evKey e \<noteq> nat_str m)"
    by (auto simp: sample_at_def)
  let ?tr = "sample_transition to n"
  have tr: "trTo ?tr = to" "trIdempotencyKey ?tr = nat_str n" "trRequirePublicationReady ?tr = (to = Published)"
    "trAppealDeadlineAt ?tr = (if to = Published then None else Some 0)" "trPublicationGuardAt ?tr = None"
    by (simp_all add: sample_transition_def plain_transition_def)
  have ap: "transition_applies db t ?tr 0 t"
    using t assms(4) db(2) by (auto simp: transition_applies_def tr publication_ready_def)
  have ids: "\<forall>e \<in> set (events db). evId e \<noteq> nat_str n \<and> evKey e \<noteq> trIdempotencyKey ?tr"
    using db(4) by (simp add: tr)
  have d1: "distinct (map tvId (taskVersions db))" "t \<in> set (taskVersions db)" using t(1) by simp_all
  note run = move_run[OF d1 ap ids, of sample_env]
  have step: "call sample_env db (db\<lparr>taskVersions := update_rows (\<lambda>x. tvId x = tvId t)
      (transition_row ?tr (nat_str n) 0) (taskVersions db),
      events := events db @ [transition_event sample_env t ?tr (nat_str n) 0]\<rparr>)" (is "call _ _ ?db")
    by (rule call.move[OF _ _ fresh_digits run])
      (auto simp: t(2) assms(2) assert_consensus_transition_def guarded_def fresh_digits sample_transition_def
        plain_transition_def)
  then have "reachable sample_env ?db" using db(1) unfolding reachable_def by (rule rtranclp.rtrancl_into_rtrancl[rotated])
  moreover have "tvAppealDeadlineAt (transition_row ?tr (nat_str n) 0 t) = Some 0"
    using t(3) assms(4) by (auto simp: transition_row_def coalesce_opt_def tr)
  moreover have "hd (nat_str n) \<noteq> hd (u ''r'')"
    using nat_str_digits[of "hd (nat_str n)" n] nat_str_nonempty[of n] by (auto simp: u_def)
  ultimately have "sample_at ?db to (n + 1)"
    using db t by (auto simp: sample_at_def update_rows_def tr transition_row_def)
  then show ?thesis by blast
qed

lemma sample_published: "\<exists>db n. sample_at db Published n"
proof -
  from sample_open obtain d0 where "sample_at d0 Open 0" by blast
  from sample_step[OF this, of IndependentReview] obtain d1 n1 where "sample_at d1 IndependentReview n1" by auto
  from sample_step[OF this, of Discussion] obtain d2 n2 where "sample_at d2 Discussion n2" by auto
  from sample_step[OF this, of FinalReview] obtain d3 n3 where "sample_at d3 FinalReview n3" by auto
  from sample_step[OF this, of Approved] obtain d4 n4 where "sample_at d4 Approved n4" by auto
  from sample_step[OF this, of Published] show ?thesis by auto
qed

section \<open>Properties\<close>

text \<open>
  C1. The event log of a task is its history: in every database the code can reach, under any
  interleaving of handlers with stale snapshots, the events of a task start with its opening, each
  is an allowed transition that starts in the state the one before ended in, the row shows the
  state and identifier of the last one, and the state version counts them.
\<close>

theorem event_log_is_history:
  assumes "reachable env db" "t \<in> set (taskVersions db)"
  shows "task_log db (tvId t) \<noteq> []
    \<and> evId (hd (task_log db (tvId t))) = task_open_id (tvId t)
    \<and> evFrom (hd (task_log db (tvId t))) = Draft \<and> evTo (hd (task_log db (tvId t))) = Open
    \<and> list_all (\<lambda>e. assert_consensus_transition (evFrom e) (evTo e) = Inr ()) (task_log db (tvId t))
    \<and> successively (\<lambda>a b. evTo a = evFrom b) (task_log db (tvId t))
    \<and> tvState t = evTo (last (task_log db (tvId t)))
    \<and> tvLastEventId t = Some (evId (last (task_log db (tvId t))))
    \<and> tvStateVersion t + 1 = length (task_log db (tvId t))"
proof -
  have "log_ok (task_log db (tvId t)) (spine t)"
    using reachable_inv[OF assms(1)] assms(2) by (force simp: log_inv_def spine_def)
  then show ?thesis by (simp add: log_ok_def spine_def assert_consensus_transition_def)
qed

theorem event_log_is_history_witness:
  "\<exists>db t. reachable sample_env db \<and> taskVersions db = [t] \<and> tvStateVersion t + 1 = length (task_log db (tvId t))"
proof -
  obtain db n where "sample_at db Published n" using sample_published by blast
  then obtain t where t: "reachable sample_env db" "taskVersions db = [t]" by (auto simp: sample_at_def)
  then have "t \<in> set (taskVersions db)" by simp
  from event_log_is_history[OF t(1) this] t show ?thesis by blast
qed

text \<open>
  C2. Publication is safe: a published task has gone through independent review, discussion,
  final review and approval, in this order and as its last events; it has no pending appeal; and
  it was not published before its appeal deadline.
\<close>

theorem published_after_review_and_window:
  assumes "reachable env db" "t \<in> set (taskVersions db)" "tvState t = Published"
  shows "(\<exists>pre. map evTo (task_log db (tvId t)) = pre @ [IndependentReview, Discussion, FinalReview, Approved, Published])
    \<and> \<not> pending_appeal (tvId t) db
    \<and> (\<exists>deadline published. tvAppealDeadlineAt t = Some deadline \<and> tvPublishedAt t = Some published
         \<and> deadline \<le> published)"
proof -
  note inv = reachable_inv[OF assms(1)]
  then have "log_ok (task_log db (tvId t)) (tvId t, Published, tvStateVersion t, tvLastEventId t)"
    using assms(2,3) by (force simp: log_inv_def spine_def)
  from published_path[OF this] inv assms(2,3) show ?thesis by (simp add: pub_inv_def dates_def)
qed

theorem published_after_review_and_window_witness:
  "\<exists>db t pre. reachable sample_env db \<and> t \<in> set (taskVersions db) \<and> tvState t = Published
     \<and> map evTo (task_log db (tvId t)) = pre @ [IndependentReview, Discussion, FinalReview, Approved, Published]"
proof -
  obtain db n where "sample_at db Published n" using sample_published by blast
  then obtain t where t: "reachable sample_env db" "taskVersions db = [t]" "tvState t = Published"
    by (auto simp: sample_at_def)
  then have "t \<in> set (taskVersions db)" by simp
  with published_after_review_and_window[OF t(1) this t(3)] t show ?thesis by blast
qed

text \<open>
  History is append-only: whatever runs after a reachable database, its events remain, in
  place, at the head of the log, and every task keeps its identity, packet root, versions and
  metric policy while its state version does not go back.
\<close>

theorem history_append_only:
  assumes "reachable env db" "calls env db db'"
  shows "(\<exists>es. events db' = events db @ es) \<and>
    (\<forall>t \<in> set (taskVersions db). \<exists>t' \<in> set (taskVersions db'). tvId t' = tvId t \<and> bound t' = bound t
       \<and> tvStateVersion t \<le> tvStateVersion t')"
proof -
  from assms(2) have "grows db db' \<and> log_inv db' \<and> pub_inv db'"
  proof (induction rule: rtranclp_induct)
    case base
    then show ?case using grows_refl reachable_inv[OF assms(1)] by blast
  next
    case (step y z)
    then show ?case using call_inv call_grows grows_trans by blast
  qed
  then show ?thesis by (simp add: grows_def)
qed

theorem history_append_only_witness:
  "\<exists>db db' es. reachable sample_env db \<and> calls sample_env db db' \<and> db' \<noteq> db \<and> events db' = events db @ es"
proof -
  obtain db n where "sample_at db Published n" using sample_published by blast
  then have r: "reachable sample_env db" by (simp add: sample_at_def)
  have c: "calls sample_env db (db\<lparr>ticks := ticks db + 1\<rparr>)" by (rule call_frame) simp_all
  have "db\<lparr>ticks := ticks db + 1\<rparr> \<noteq> db" by (rule notI) (drule arg_cong[of _ _ ticks], simp)
  with history_append_only[OF r c] r c show ?thesis by blast
qed

text \<open>
  C22. The handlers stay inside the step relation: from any database at all, registration,
  reconciliation, publication, both scheduled jobs, an administrator's reissue, an appeal and its
  review only perform calls of it, whatever they answer. So the invariants above hold after, and
  between, all of them.
\<close>

theorem handlers_are_calls:
  assumes "sound_env env"
  shows "calls env db (snd (ensure_consensus_task env packet packetRoot now db))
    \<and> calls env db (snd (reconcile_consensus_task env i db))
    \<and> calls env db (snd (attempt_publish_task env i db))
    \<and> calls env db (snd (process_expired_consensus_rounds env db))
    \<and> calls env db (snd (process_publishable_tasks env db))
    \<and> calls env db (snd (reissue_consensus_task env subject i reason db))
    \<and> calls env db (snd (create_consensus_appeal env account i evidence db))
    \<and> calls env db (snd (review_consensus_appeal env subject i decision why db))"
  by (intro conjI sound_keeps sound_runs.handlers assms)

theorem handlers_are_calls_witness:
  "calls sample_env empty_db (snd (process_expired_consensus_rounds sample_env empty_db))"
  using handlers_are_calls[OF sample_env_sound] by simp

end
