(* ===== verification/ConsensusBehaviour.thy ===== *)
theory ConsensusBehaviour
  imports ConsensusSafety
begin

text \<open>
  What single operations of the consensus store and its handlers do, branch by branch: a
  transition under contention, a reissue, the release of a quorum; and three places where the code
  does not do what it means to: a replayed reissue, an appeal against a superseded result, and the
  notification of a routed disagreement.
\<close>

section \<open>Transitions under contention\<close>

text \<open>The database after the clock and one UUID have been read.\<close>

definition ticked :: "cdb \<Rightarrow> cdb" where
  "ticked db = db\<lparr>ticks := ticks db + 1, uuids := uuids db + 1\<rparr>"

lemma ticked_simps [simp]:
  "taskVersions (ticked db) = taskVersions db" "events (ticked db) = events db" "rounds (ticked db) = rounds db"
  "appeals (ticked db) = appeals db" "finals (ticked db) = finals db"
  "ticks (ticked db) = ticks db + 1" "uuids (ticked db) = uuids db + 1"
  by (simp_all add: ticked_def)

lemma ticked_applies [simp]: "transition_applies (ticked db) = transition_applies db"
  by (simp add: transition_applies_def publication_ready_def fun_eq_iff)

abbreviation legal :: "task_row \<Rightarrow> transition \<Rightarrow> bool" where
  "legal task tr \<equiv> assert_consensus_transition (tvState task) (trTo tr) = Inr ()"

lemma transition_replay:
  assumes "legal task tr" "event_key_exists (trIdempotencyKey tr) db"
  shows "transition_consensus_task env task tr db = (Inr (List.find (\<lambda>t. tvId t = tvId task) (taskVersions db)), db)"
  using assms by (simp add: transition_consensus_task_def st_bind_run st_simps get_consensus_task_def)

lemma transition_unfold:
  assumes "legal task tr" "\<not> event_key_exists (trIdempotencyKey tr) db"
    "db_batch (transition_statements env task tr (envUuid env (uuids db)) (envClock env (ticks db))) (ticked db)
       = (Inr results, db')"
  shows "transition_consensus_task env task tr db =
    (if results = [1, 1] \<or> event_key_exists (trIdempotencyKey tr) db'
     then (Inr (List.find (\<lambda>t. tvId t = tvId task) (taskVersions db')), db')
     else (Inl (conflict_error StateChangedConcurrently), db'))"
  using assms
  by (simp add: transition_consensus_task_def st_bind_run st_simps get_consensus_task_def date_now_def
      random_uuid_def ticked_def)

lemma transition_lost:
  assumes inv: "log_inv db" and "legal task tr" and key: "\<not> event_key_exists (trIdempotencyKey tr) db"
    and id: "\<forall>e \<in> set (events db). evId e \<noteq> envUuid env (uuids db)"
    and none: "\<forall>t \<in> set (taskVersions db). \<not> transition_applies db task tr (envClock env (ticks db)) t"
  shows "transition_consensus_task env task tr db = (Inl (conflict_error StateChangedConcurrently), ticked db)"
proof -
  let ?id = "envUuid env (uuids db)" and ?now = "envClock env (ticks db)"
  let ?ev = "transition_event env task tr ?id ?now"
  have "update_task_stmt task tr ?id ?now (ticked db) = Inr (0, ticked db)"
    using none by (simp add: update_task_stmt_def update_rows_none count_rows_0)
  moreover have "insert_event_if_moved ?ev task tr (ticked db) = Inr (0, ticked db)"
  proof -
    have "\<not> (\<exists>t \<in> set (taskVersions (ticked db)). tvId t = tvId task \<and> tvLastEventId t = Some (evId ?ev)
        \<and> tvState t = trTo tr \<and> tvStateVersion t = tvStateVersion task + 1)"
      using log_inv_last_event[OF inv] id by auto
    then show ?thesis unfolding insert_event_if_moved_def by (simp only: if_False)
  qed
  ultimately have "db_batch (transition_statements env task tr ?id ?now) (ticked db) = (Inr [0, 0], ticked db)"
    by (simp add: db_batch_def transition_statements_def)
  from transition_unfold[OF assms(2) key this] key show ?thesis by (simp add: event_key_exists_def)
qed

text \<open>The database after a transition of the row \<open>t\<close> went through.\<close>

definition moved_db :: "env \<Rightarrow> task_row \<Rightarrow> transition \<Rightarrow> cdb \<Rightarrow> cdb" where
  "moved_db env task tr db =
    (let eventId = envUuid env (uuids db); now = envClock env (ticks db) in
     (ticked db)\<lparr>taskVersions := update_rows (\<lambda>x. tvId x = tvId task) (transition_row tr eventId now) (taskVersions db),
       events := events db @ [transition_event env task tr eventId now]\<rparr>)"

definition moved_row :: "env \<Rightarrow> transition \<Rightarrow> cdb \<Rightarrow> task_row \<Rightarrow> task_row" where
  "moved_row env tr db t = transition_row tr (envUuid env (uuids db)) (envClock env (ticks db)) t"

lemma find_updated:
  assumes "distinct (map k rows)" "r \<in> set rows" "k r = i" "\<And>x. k (f x) = k x"
  shows "List.find (\<lambda>x. k x = i) (update_rows (\<lambda>x. k x = i) f rows) = Some (f r)"
proof -
  have "List.find (\<lambda>x. k x = i) rows = Some r" using find_key_unique[OF assms(1,2)] assms(3) by simp
  then show ?thesis using assms(3) by (subst find_update_rows) (simp_all add: assms(4))
qed

lemma transition_won:
  assumes inv: "log_inv db" and legal: "legal task tr" and key: "\<not> event_key_exists (trIdempotencyKey tr) db"
    and id: "\<forall>e \<in> set (events db). evId e \<noteq> envUuid env (uuids db)"
    and t: "t \<in> set (taskVersions db)" "transition_applies db task tr (envClock env (ticks db)) t"
  shows "transition_consensus_task env task tr db = (Inr (Some (moved_row env tr db t)), moved_db env task tr db)"
proof -
  have ids: "distinct (map tvId (taskVersions (ticked db)))" using inv by (simp add: log_inv_def)
  have new: "\<forall>e \<in> set (events (ticked db)). evId e \<noteq> envUuid env (uuids db) \<and> evKey e \<noteq> trIdempotencyKey tr"
    using id key by (simp add: event_key_exists_def)
  have "run_batch (transition_statements env task tr (envUuid env (uuids db)) (envClock env (ticks db))) (ticked db)
      = Inr ([1, 1], moved_db env task tr db)"
    using move_run[OF ids, of t task tr "envClock env (ticks db)" "envUuid env (uuids db)" env] t new
    by (simp add: moved_db_def Let_def)
  then have batch: "db_batch (transition_statements env task tr (envUuid env (uuids db)) (envClock env (ticks db))) (ticked db)
      = (Inr [1, 1], moved_db env task tr db)" by (simp add: db_batch_def)
  have tid: "tvId t = tvId task" using t(2) by (simp add: transition_applies_def)
  have "List.find (\<lambda>x. tvId x = tvId task) (taskVersions (moved_db env task tr db)) = Some (moved_row env tr db t)"
    using find_updated[of tvId "taskVersions db" t "tvId task"] ids t(1) tid
    by (simp add: moved_db_def moved_row_def Let_def)
  with transition_unfold[OF legal key batch] show ?thesis by simp
qed

text \<open>
  C17. A transition has exactly three outcomes. With a used idempotency key it answers the task as
  it is and changes nothing. Otherwise, if no row is in the state and version of the caller's
  snapshot (or publication is not ready), it fails with the concurrency conflict and no table
  changes. Otherwise that row, and no other, takes the new state, the next version and the new
  event as its last; exactly that event is appended; and the answer is the new row.
\<close>

theorem transition_outcomes:
  assumes "reachable env db" "legal task tr"
    "\<forall>e \<in> set (events db). evId e \<noteq> envUuid env (uuids db)"
  shows "transition_consensus_task env task tr db =
    (if event_key_exists (trIdempotencyKey tr) db
     then (Inr (List.find (\<lambda>t. tvId t = tvId task) (taskVersions db)), db)
     else case List.find (transition_applies db task tr (envClock env (ticks db))) (taskVersions db) of
       None \<Rightarrow> (Inl (conflict_error StateChangedConcurrently), ticked db)
     | Some t \<Rightarrow> (Inr (Some (moved_row env tr db t)), moved_db env task tr db))"
proof -
  have inv: "log_inv db" using reachable_inv[OF assms(1)] by blast
  show ?thesis
  proof (cases "event_key_exists (trIdempotencyKey tr) db")
    case True
    then show ?thesis using transition_replay[OF assms(2)] by simp
  next
    case False
    show ?thesis
    proof (cases "List.find (transition_applies db task tr (envClock env (ticks db))) (taskVersions db)")
      case None
      then have "\<forall>t \<in> set (taskVersions db). \<not> transition_applies db task tr (envClock env (ticks db)) t"
        unfolding find_None_iff by blast
      with None transition_lost[OF inv assms(2) False assms(3)] False show ?thesis by simp
    next
      case (Some t)
      from find_SomeD[OF Some] transition_won[OF inv assms(2) False assms(3)] Some False show ?thesis by simp
    qed
  qed
qed

theorem transition_outcomes_witness:
  "fst (transition_consensus_task sample_env (registration_task_row sample_identity JNull [] 0)
     (plain_transition IndependentReview None [] [] JNull []) empty_db) = Inl (conflict_error StateChangedConcurrently)"
proof -
  let ?task = "registration_task_row sample_identity JNull [] 0"
  let ?tr = "plain_transition IndependentReview None [] [] JNull []"
  have "reachable sample_env empty_db" by (simp add: reachable_def)
  moreover have "legal ?task ?tr" by (simp add: assert_consensus_transition_def registration_task_row_def)
  moreover have "\<forall>e \<in> set (events empty_db). evId e \<noteq> envUuid sample_env (uuids empty_db)"
    by (simp add: empty_db_def)
  ultimately show ?thesis
    using transition_outcomes[of sample_env empty_db ?task ?tr] by (simp add: empty_db_def event_key_exists_def)
qed

section \<open>Release of a quorum\<close>



section \<open>Reissues\<close>

lemma moved_db_simps [simp]:
  "rounds (moved_db env task tr db) = rounds db" "ticks (moved_db env task tr db) = ticks db + 1"
  "uuids (moved_db env task tr db) = uuids db + 1" "finals (moved_db env task tr db) = finals db"
  "appeals (moved_db env task tr db) = appeals db"
  "events (moved_db env task tr db) =
     events db @ [transition_event env task tr (envUuid env (uuids db)) (envClock env (ticks db))]"
  "taskVersions (moved_db env task tr db) = update_rows (\<lambda>x. tvId x = tvId task)
     (transition_row tr (envUuid env (uuids db)) (envClock env (ticks db))) (taskVersions db)"
  by (simp_all add: moved_db_def Let_def)

lemma moved_row_simps [simp]:
  "tvId (moved_row env tr db t) = tvId t" "tvState (moved_row env tr db t) = trTo tr"
  "tvStateVersion (moved_row env tr db t) = tvStateVersion t + 1"
  "tvCurrentRound (moved_row env tr db t) = tvCurrentRound t"
  by (simp_all add: moved_row_def transition_row_def)

lemma unguarded_applies:
  "\<not> trRequirePublicationReady tr \<Longrightarrow> transition_applies db t tr now t"
  by (simp add: transition_applies_def)

lemma not_required [simp]:
  "\<not> trRequirePublicationReady (reissue_transition task cur reason actor)"
  "\<not> trRequirePublicationReady (round_open_transition cur i n actor)"
  by (simp_all add: reissue_transition_def round_open_transition_def plain_transition_def)

definition next_round_free :: "cdb \<Rightarrow> ustr \<Rightarrow> nat \<Rightarrow> bool" where
  "next_round_free db i n \<longleftrightarrow> \<not> (\<exists>r \<in> set (rounds db). rdId r = consensus_round_id i n \<or> rdTask r = i \<and> rdNumber r = n)"

definition superseded :: "ustr \<Rightarrow> int \<Rightarrow> ustr \<Rightarrow> round_row list \<Rightarrow> round_row list" where
  "superseded reason now roundId = update_rows (\<lambda>r. rdId r = roundId \<and> rdStatus r = RoundOpen)
     (\<lambda>r. r\<lparr>rdStatus := RoundSuperseded, rdReissueReason := Some reason, rdClosedAt := Some now\<rparr>)"

lemma supersede_round_listed:
  assumes "reissue_reason_check (Some reason)"
  obtains n where "supersede_round reason now i db = Inr (n, db\<lparr>rounds := superseded reason now i (rounds db)\<rparr>)"
  using assms by (simp add: supersede_round_def Let_def superseded_def)

text \<open>The reasons the administrator's route and the automatic reissues give are listed in the table.\<close>

lemma handler_reasons_listed:
  "r \<in> set REISSUE_REASONS \<Longrightarrow> reissue_reason_check (Some (u r))"
  "reissue_reason_check (Some (u (ratification_reason ratification)))"
  by (auto simp: reissue_reason_check_def REISSUE_REASON_CHECK_def REISSUE_REASONS_def ratification_reason_def)

lemma superseded_ids: "map (\<lambda>r. (rdId r, rdTask r, rdNumber r)) (superseded reason now i rs) = map (\<lambda>r. (rdId r, rdTask r, rdNumber r)) rs"
  unfolding superseded_def by (rule map_update_rows) simp

lemma next_round_free_triples:
  "next_round_free db i n \<longleftrightarrow> (\<forall>x \<in> set (map (\<lambda>r. (rdId r, rdTask r, rdNumber r)) (rounds db)).
     fst x \<noteq> consensus_round_id i n \<and> snd x \<noteq> (i, n))"
  by (auto simp: next_round_free_def)

lemma next_round_free_superseded:
  "rounds db' = superseded reason now j (rounds db) \<Longrightarrow> next_round_free db' i n = next_round_free db i n"
  by (simp only: next_round_free_triples superseded_ids)

text \<open>The batch that opens the next round, for a task row that is in state \<open>Reissued\<close>.\<close>

lemma reissue_batch:
  assumes "next_round_free db (tvId t) (tvCurrentRound t + 1)" "t \<in> set (taskVersions db)" "tvState t = Reissued"
    "distinct (map tvId (taskVersions db))" and listed: "reissue_reason_check (Some reason)"
  shows "\<exists>n1 n4 ob. db_batch (reissue_statements t cur reason now) db = (Inr [n1, 1, 1, n4],
     db\<lparr>rounds := superseded reason now (rdId cur) (rounds db)
            @ [open_round (consensus_round_id (tvId t) (tvCurrentRound t + 1)) (tvId t) (tvCurrentRound t + 1)
                 (Some reason) now (Some (rdId cur))],
        taskVersions := update_rows (\<lambda>x. tvId x = tvId t)
            (\<lambda>x. x\<lparr>tvCurrentRound := tvCurrentRound t + 1, tvUpdatedAt := now\<rparr>) (taskVersions db),
        outbox := ob\<rparr>)"
proof -
  let ?n = "tvCurrentRound t + 1"
  let ?r = "open_round (consensus_round_id (tvId t) ?n) (tvId t) ?n (Some reason) now (Some (rdId cur))"
  let ?d1 = "db\<lparr>rounds := superseded reason now (rdId cur) (rounds db)\<rparr>"
  let ?d2 = "?d1\<lparr>rounds := rounds ?d1 @ [?r]\<rparr>"
  let ?p = "\<lambda>x. tvId x = tvId t \<and> tvState x = Reissued \<and> tvCurrentRound x = tvCurrentRound t"
  let ?f = "\<lambda>x::task_row. x\<lparr>tvCurrentRound := ?n, tvUpdatedAt := now\<rparr>"
  let ?d3 = "?d2\<lparr>taskVersions := update_rows (\<lambda>x. tvId x = tvId t) ?f (taskVersions db)\<rparr>"
  obtain n1 where s1: "supersede_round reason now (rdId cur) db = Inr (n1, ?d1)"
    using supersede_round_listed[OF listed] by blast
  have "next_round_free ?d1 (tvId t) ?n" using assms(1) by (subst next_round_free_superseded) simp_all
  then have "\<not> (\<exists>r' \<in> set (rounds ?d1). round_conflict ?r r')"
    by (auto simp: next_round_free_def round_conflict_def open_round_def)
  moreover have "known_task ?d1 (rdTask ?r)" using assms(2) by (auto simp: known_task_def open_round_def)
  moreover have "reissue_reason_check (rdReissueReason ?r)" using listed by (simp add: open_round_def)
  ultimately have s2: "insert_round False ?r ?d1 = Inr (1, ?d2)" by (simp add: insert_round_def)
  have "count_rows ?p (taskVersions db) = 1"
    "update_rows ?p ?f (taskVersions db) = update_rows (\<lambda>x. tvId x = tvId t) ?f (taskVersions db)"
    by (rule count_rows_unique[OF assms(4,2)]; simp add: assms(3))+
  then have s3: "advance_round (tvId t) (tvCurrentRound t) ?n now ?d2 = Inr (1, ?d3)"
    by (simp add: advance_round_def Let_def)
  obtain n4 ob where s4: "cancel_held_evidence (tvId t) (rdId cur) ?d3 = Inr (n4, ?d3\<lparr>outbox := ob\<rparr>)"
    by (simp add: cancel_held_evidence_def Let_def)
  have "db_batch (reissue_statements t cur reason now) db = (Inr [n1, 1, 1, n4], ?d3\<lparr>outbox := ob\<rparr>)"
    using s1 s2 s3 s4 by (simp add: db_batch_def reissue_statements_def Let_def)
  then show ?thesis by (intro exI[of _ n1] exI[of _ n4] exI[of _ ob]) simp
qed

text \<open>What a reissue needs to go through: the reason is one the table admits, nobody has reissued this round for this reason before, the
  next round does not exist, and the two identifiers it draws are new.\<close>

definition reissue_ready :: "env \<Rightarrow> task_row \<Rightarrow> round_row \<Rightarrow> ustr \<Rightarrow> actor \<Rightarrow> cdb \<Rightarrow> bool" where
  "reissue_ready env task cur reason actor db \<longleftrightarrow>
     reissue_reason_check (Some reason)
   \<and> task \<in> set (taskVersions db) \<and> tvState task \<in> {Escalated, Revoked}
   \<and> List.find (\<lambda>r. rdTask r = tvId task \<and> rdNumber r = tvCurrentRound task) (rounds db) = Some cur
   \<and> next_round_free db (tvId task) (tvCurrentRound task + 1)
   \<and> \<not> event_key_exists (trIdempotencyKey (reissue_transition task cur reason actor)) db
   \<and> \<not> event_key_exists (u ''round-open:'' @ consensus_round_id (tvId task) (tvCurrentRound task + 1)) db
   \<and> (\<forall>e \<in> set (events db). evId e \<noteq> envUuid env (uuids db) \<and> evId e \<noteq> envUuid env (uuids db + 1))
   \<and> envUuid env (uuids db) \<noteq> envUuid env (uuids db + 1)"

definition reissued_to :: "task_row \<Rightarrow> round_row \<Rightarrow> ustr \<Rightarrow> cdb \<Rightarrow> store_error thrown + task_row option \<Rightarrow> cdb \<Rightarrow> bool" where
  "reissued_to task cur reason db result db' \<longleftrightarrow> (\<exists>t' now e1 e2.
     result = Inr (Some t') \<and> t' \<in> set (taskVersions db') \<and> tvId t' = tvId task
   \<and> tvState t' = IndependentReview \<and> tvCurrentRound t' = tvCurrentRound task + 1
   \<and> tvStateVersion t' = tvStateVersion task + 2
   \<and> rounds db' = superseded reason now (rdId cur) (rounds db)
       @ [open_round (consensus_round_id (tvId task) (tvCurrentRound task + 1)) (tvId task)
            (tvCurrentRound task + 1) (Some reason) now (Some (rdId cur))]
   \<and> events db' = events db @ [e1, e2] \<and> evFrom e1 = tvState task \<and> evTo e1 = Reissued
   \<and> evKey e1 = u ''reissue:'' @ tvId task @ u '':'' @ rdId cur @ u '':'' @ reason \<and> evTo e2 = IndependentReview)"

lemma reissue_keys:
  "trIdempotencyKey (reissue_transition task cur reason actor) \<noteq> u ''round-open:'' @ x"
  "trIdempotencyKey (round_open_transition cur i n actor) = u ''round-open:'' @ i"
  "trIdempotencyKey (reissue_transition task cur reason actor) = u ''reissue:'' @ tvId task @ u '':'' @ rdId cur @ u '':'' @ reason"
  by (simp_all add: reissue_transition_def round_open_transition_def u_def)

lemma reissue_run:
  assumes "tvState task = Escalated \<or> tvState task = Revoked"
    "List.find (\<lambda>r. rdTask r = tvId task \<and> rdNumber r = tvCurrentRound task) (rounds db) = Some cur"
    "transition_consensus_task env task (reissue_transition task cur reason actor) db = (Inr (Some t1), d1)"
    "db_batch (reissue_statements t1 cur reason (envClock env (ticks d1))) (d1\<lparr>ticks := ticks d1 + 1\<rparr>) = (Inr [n1, 1, 1, n4], d3)"
    "List.find (\<lambda>x. tvId x = tvId t1) (taskVersions d3) = Some t2"
  shows "create_reissued_round env task reason actor db =
    transition_consensus_task env t2 (round_open_transition cur
      (consensus_round_id (tvId t1) (tvCurrentRound t1 + 1)) (tvCurrentRound t1 + 1) actor) d3"
  using assms
  by (simp add: create_reissued_round_def st_bind_run st_simps get_consensus_task_def
      get_current_consensus_round_def date_now_def Let_def)

lemma reissue_effect:
  assumes reach: "reachable env db" and sound: "sound_env env" and ready: "reissue_ready env task cur reason actor db"
  shows "reissued_to task cur reason db (fst (create_reissued_round env task reason actor db))
    (snd (create_reissued_round env task reason actor db))"
proof -
  let ?tr = "reissue_transition task cur reason actor" and ?n = "tvCurrentRound task + 1"
  note r = ready[unfolded reissue_ready_def]
  have inv: "log_inv db" using reachable_inv[OF reach] by blast
  have ids: "distinct (map tvId (taskVersions db))" using inv by (simp add: log_inv_def)
  have t: "task \<in> set (taskVersions db)" and state: "tvState task = Escalated \<or> tvState task = Revoked" using r by auto
  have legal: "legal task ?tr" using state by (auto simp: assert_consensus_transition_def)
  define t1 where "t1 = moved_row env ?tr db task"
  define d1 where "d1 = moved_db env task ?tr db"
  define d2 where "d2 = d1\<lparr>ticks := ticks d1 + 1\<rparr>"
  let ?now = "envClock env (ticks d1)"
  have win: "transition_consensus_task env task ?tr db = (Inr (Some t1), d1)"
    unfolding t1_def d1_def using r by (intro transition_won[OF inv legal _ _ t unguarded_applies]) auto
  have c1: "calls env db d1"
    proof -
    have "st_pres (calls env) (transition_consensus_task env task ?tr)"
      by (rule transition_plain_call[OF _ sound]) (simp add: plain_call_def)
    from st_presD[OF this, of db] win show ?thesis by simp
  qed
  have ids2: "distinct (map tvId (taskVersions d2))"
    by (simp add: d2_def d1_def map_update_rows ids)
  have t1: "t1 \<in> set (taskVersions d2)" "tvState t1 = Reissued" "tvId t1 = tvId task"
      "tvCurrentRound t1 = tvCurrentRound task" "tvStateVersion t1 = tvStateVersion task + 1"
    using t by (auto simp: d2_def d1_def t1_def set_update_rows moved_row_def transition_row_def)
  have free: "next_round_free d2 (tvId t1) (tvCurrentRound t1 + 1)"
    using r by (simp add: next_round_free_def d2_def d1_def t1)
  obtain n1 n4 d3 ob where batch: "db_batch (reissue_statements t1 cur reason ?now) d2 = (Inr [n1, 1, 1, n4], d3)"
    and d3: "d3 = d2\<lparr>rounds := superseded reason ?now (rdId cur) (rounds d2)
            @ [open_round (consensus_round_id (tvId t1) (tvCurrentRound t1 + 1)) (tvId t1) (tvCurrentRound t1 + 1)
                 (Some reason) ?now (Some (rdId cur))],
        taskVersions := update_rows (\<lambda>x. tvId x = tvId t1)
            (\<lambda>x. x\<lparr>tvCurrentRound := tvCurrentRound t1 + 1, tvUpdatedAt := ?now\<rparr>) (taskVersions d2),
        outbox := ob\<rparr>"
    using reissue_batch[OF free t1(1,2) ids2, of reason cur ?now] r by blast
  define t2 where "t2 = t1\<lparr>tvCurrentRound := ?n, tvUpdatedAt := ?now\<rparr>"
  let ?rid = "consensus_round_id (tvId task) ?n"
  let ?open = "round_open_transition cur ?rid ?n actor"
  have find: "List.find (\<lambda>x. tvId x = tvId t1) (taskVersions d3) = Some t2"
    using find_updated[OF ids2 t1(1) refl, of "\<lambda>x. x\<lparr>tvCurrentRound := ?n, tvUpdatedAt := ?now\<rparr>"]
    by (simp add: d3 t2_def t1)
  have t2: "t2 \<in> set (taskVersions d3)" "tvState t2 = Reissued" "tvId t2 = tvId task" "tvCurrentRound t2 = ?n"
      "tvStateVersion t2 = tvStateVersion task + 1"
    using find_SomeD[OF find] by (simp_all add: t2_def t1)
  have "calls env d1 d2" by (rule call_frame) (simp_all add: d2_def)
  moreover have "calls env d2 d3"
    using batch call.reissue[of t1 cur reason ?now d2 _ d3 env]
    by (auto simp: db_batch_def split: sum.splits prod.splits intro: r_into_rtranclp)
  ultimately have "reachable env d3" using reach c1 unfolding reachable_def by (meson rtranclp_trans)
  then have inv3: "log_inv d3" using reachable_inv by blast
  have ev3: "events d3 = events db @ [transition_event env task ?tr (envUuid env (uuids db)) (envClock env (ticks db))]"
    "uuids d3 = uuids db + 1" by (simp_all add: d3 d2_def d1_def)
  have key3: "\<not> event_key_exists (trIdempotencyKey ?open) d3"
    using r reissue_keys(1)[of task cur reason actor] by (simp add: event_key_exists_def ev3 reissue_keys(2))
  have id3: "\<forall>e \<in> set (events d3). evId e \<noteq> envUuid env (uuids d3)"
    using r by (simp add: ev3)
  have legal3: "legal t2 ?open" by (simp add: t2 assert_consensus_transition_def)
  note win3 = transition_won[OF inv3 legal3 key3 id3 t2(1) unguarded_applies[OF not_required(2)]]
  have run: "create_reissued_round env task reason actor db = (Inr (Some (moved_row env ?open d3 t2)), moved_db env t2 ?open d3)"
    using reissue_run[OF state _ win batch[unfolded d2_def] find] r win3 by (simp add: t1)
  have "moved_row env ?open d3 t2 \<in> set (taskVersions (moved_db env t2 ?open d3))"
    using t2(1) by (auto simp: set_update_rows moved_row_def)
  then show ?thesis
    unfolding reissued_to_def run
    by (intro exI[of _ "moved_row env ?open d3 t2"] exI[of _ ?now]) (simp add: t2 ev3 d3 d2_def d1_def t1 reissue_keys(3))
qed

text \<open>
  C24. A reissue opens exactly one fresh round. Only an escalated or revoked task can be reissued;
  any other answers a conflict and nothing changes. From a reachable database in which the round
  was not reissued before, and with a reason the table admits, the task ends in independent review in the round numbered one more,
  two state versions later; its old round is superseded with the reason and the time, no other
  existing round changes, the new round points to the old one; and the log grows by the reissue
  and the opening of the round.
\<close>

theorem reissue_opens_fresh_round:
  assumes "reachable env db" "sound_env env"
  shows "(tvState task \<noteq> Escalated \<and> tvState task \<noteq> Revoked \<longrightarrow>
       create_reissued_round env task reason actor db = (Inl (conflict_error OnlyEscalatedOrRevoked), db))
   \<and> (reissue_ready env task cur reason actor db \<longrightarrow>
       reissued_to task cur reason db (fst (create_reissued_round env task reason actor db))
         (snd (create_reissued_round env task reason actor db)))"
  using reissue_effect[OF assms] by (auto simp: create_reissued_round_def st_bind_run st_simps)

lemma sample_escalated:
  assumes "reissue_reason_check (Some reason)"
  shows "\<exists>db t r. reachable sample_env db \<and> taskVersions db = [t] \<and> reissue_ready sample_env t r reason actor db
     \<and> rounds db = [r] \<and> tvCurrentRound t = 1 \<and> rdId r = consensus_round_id (tvId t) 1"
proof -
  from sample_open obtain d0 where "sample_at d0 Open 0" by blast
  from sample_step[OF this, of IndependentReview] obtain d1 n1 where "sample_at d1 IndependentReview n1" by auto
  from sample_step[OF this, of Escalated] obtain d2 n2 where d2: "sample_at d2 Escalated n2" by auto
  then obtain t r where t: "taskVersions d2 = [t]" "tvState t = Escalated" "tvId t = tiId sample_identity" "tvCurrentRound t = 1"
    and r: "rounds d2 = [r]" "rdTask r = tiId sample_identity" "rdNumber r = 1" "rdId r = consensus_round_id (tiId sample_identity) 1"
    and e: "\<forall>e \<in> set (events d2). hd (evKey e) \<noteq> hd (u ''r'') \<and> (\<forall>m \<ge> n2. evId e \<noteq> nat_str m \<and> evKey e \<noteq> nat_str m)"
    and reach: "reachable sample_env d2" by (auto simp: sample_at_def)
  let ?db = "d2\<lparr>uuids := n2\<rparr>"
  have "reachable sample_env ?db"
    using reach call_frame[of ?db d2 sample_env] unfolding reachable_def by (auto intro: rtranclp_trans)
  moreover have "hd (trIdempotencyKey (reissue_transition t r reason actor)) = hd (u ''r'')"
    "hd (u ''round-open:'' @ x) = hd (u ''r'')" for x
    by (simp_all add: reissue_transition_def plain_transition_def u_def)
  then have "reissue_ready sample_env t r reason actor ?db"
    using assms t r e by (auto simp: reissue_ready_def next_round_free_def event_key_exists_def sample_env_def)
  moreover have "taskVersions ?db = [t]" using t by simp
  moreover have "rounds ?db = [r]" using r by simp
  ultimately show ?thesis using t(3,4) r(4) by metis
qed

theorem reissue_opens_fresh_round_witness:
  "\<exists>db t r. reachable sample_env db \<and> taskVersions db = [t]
     \<and> reissued_to t r (u ''accepted-appeal'') db (fst (create_reissued_round sample_env t (u ''accepted-appeal'') no_actor db))
         (snd (create_reissued_round sample_env t (u ''accepted-appeal'') no_actor db))"
proof -
  obtain db t r where "reachable sample_env db" "taskVersions db = [t]" "reissue_ready sample_env t r (u ''accepted-appeal'') no_actor db"
    using sample_escalated[OF handler_reasons_listed(1), of "''accepted-appeal''" no_actor]
    by (simp add: REISSUE_REASONS_def del: One_nat_def) blast
  with reissue_opens_fresh_round[OF _ sample_env_sound] show ?thesis by blast
qed

section \<open>A replayed reissue\<close>

lemma reissue_batch_stuck:
  assumes "\<exists>r \<in> set (rounds db). rdTask r = tvId t \<and> rdNumber r = tvCurrentRound t + 1"
  shows "db_batch (reissue_statements t cur reason now) db = (Inl (Thrown SqlConstraint), db)"
proof -
  let ?s = "superseded reason now (rdId cur) (rounds db)"
  have "\<exists>x \<in> set (map (\<lambda>r. (rdId r, rdTask r, rdNumber r)) (rounds db)). snd x = (tvId t, tvCurrentRound t + 1)"
    using assms by auto
  then have "\<exists>x \<in> set (map (\<lambda>r. (rdId r, rdTask r, rdNumber r)) ?s). snd x = (tvId t, tvCurrentRound t + 1)"
    by (simp only: superseded_ids)
  then have "\<exists>r \<in> set ?s. rdTask r = tvId t \<and> rdNumber r = tvCurrentRound t + 1" by auto
  then show ?thesis
    by (auto simp: db_batch_def reissue_statements_def Let_def supersede_round_def superseded_def insert_round_def
        round_conflict_def open_round_def split: if_splits)
qed

text \<open>
  C38. A replayed reissue leaves an orphan. When two reissues of the same round for the same reason
  (one the table admits) overlap, the second one, holding the stale escalated snapshot, finds the idempotency key used and
  goes on with the task as the first one left it. It then answers that the fresh round could not be
  opened, but by then its batch is committed: an open round with the number after the current one
  exists, while the task and its log are as before. From there no reissue of the task in its
  current round can succeed again: its batch violates the uniqueness of the round number.
\<close>

theorem replayed_reissue_orphans_round:
  assumes "reachable env db" and listed: "reissue_reason_check (Some reason)" and
    "tvState stale = Escalated \<or> tvState stale = Revoked"
    "List.find (\<lambda>r. rdTask r = tvId stale \<and> rdNumber r = tvCurrentRound stale) (rounds db) = Some cur"
    "event_key_exists (trIdempotencyKey (reissue_transition stale cur reason actor)) db"
    "List.find (\<lambda>t. tvId t = tvId stale) (taskVersions db) = Some t" "tvState t \<noteq> Reissued"
    "next_round_free db (tvId t) (tvCurrentRound t + 1)"
  shows "\<exists>db'. create_reissued_round env stale reason actor db = (Inl (conflict_error FreshRoundFailed), db')
    \<and> taskVersions db' = taskVersions db \<and> events db' = events db
    \<and> (\<exists>orphan \<in> set (rounds db'). rdTask orphan = tvId t \<and> rdNumber orphan = tvCurrentRound t + 1
         \<and> rdStatus orphan = RoundOpen)
    \<and> (\<forall>cur' reason' now'. db_batch (reissue_statements t cur' reason' now') db' = (Inl (Thrown SqlConstraint), db'))"
proof -
  let ?now = "envClock env (ticks db)" and ?n = "tvCurrentRound t + 1"
  let ?r = "open_round (consensus_round_id (tvId t) ?n) (tvId t) ?n (Some reason) ?now (Some (rdId cur))"
  let ?d1 = "db\<lparr>ticks := ticks db + 1\<rparr>"
  let ?d2 = "?d1\<lparr>rounds := superseded reason ?now (rdId cur) (rounds db)\<rparr>"
  let ?d3 = "?d2\<lparr>rounds := rounds ?d2 @ [?r]\<rparr>"
  have t: "t \<in> set (taskVersions db)" "tvId t = tvId stale" using find_SomeD[OF assms(6)] by auto
  have ids: "distinct (map tvId (taskVersions db))" using reachable_inv[OF assms(1)] by (simp add: log_inv_def)
  have "legal stale (reissue_transition stale cur reason actor)" using assms(3) by (auto simp: assert_consensus_transition_def)
  note moved = transition_replay[OF this assms(5), of env]
  obtain n1 where s1: "supersede_round reason ?now (rdId cur) ?d1 = Inr (n1, ?d2)"
    using supersede_round_listed[OF listed, of ?now "rdId cur" ?d1] by force
  have "next_round_free ?d2 (tvId t) ?n" using assms(8) next_round_free_superseded[of ?d2 reason ?now "rdId cur" db] by simp
  then have "\<not> (\<exists>r' \<in> set (rounds ?d2). round_conflict ?r r')"
    by (auto simp: next_round_free_def round_conflict_def open_round_def)
  moreover have "known_task ?d2 (rdTask ?r)" using t by (auto simp: known_task_def open_round_def)
  moreover have "reissue_reason_check (rdReissueReason ?r)" using listed by (simp add: open_round_def)
  ultimately have s2: "insert_round False ?r ?d2 = Inr (1, ?d3)" by (simp add: insert_round_def)
  have "count_rows (\<lambda>x. tvId x = tvId t \<and> tvState x = Reissued \<and> tvCurrentRound x = tvCurrentRound t) (taskVersions db) = 0"
  proof -
    have "x = t" if "x \<in> set (taskVersions db)" "tvId x = tvId t" for x
      using ids t(1) that unfolding distinct_map inj_on_def by blast
    with assms(7) show ?thesis unfolding count_rows_0 by blast
  qed
  then have s3: "advance_round (tvId t) (tvCurrentRound t) ?n ?now ?d3 = Inr (0, ?d3)"
    by (simp add: advance_round_def Let_def update_rows_none)
  obtain n4 ob where s4: "cancel_held_evidence (tvId t) (rdId cur) ?d3 = Inr (n4, ?d3\<lparr>outbox := ob\<rparr>)"
    by (simp add: cancel_held_evidence_def Let_def)
  let ?db = "?d3\<lparr>outbox := ob\<rparr>"
  have batch: "db_batch (reissue_statements t cur reason ?now) ?d1 = (Inr [n1, 1, 0, n4], ?db)"
    using s1 s2 s3 s4 by (simp add: db_batch_def reissue_statements_def Let_def)
  have run: "create_reissued_round env stale reason actor db = (Inl (conflict_error FreshRoundFailed), ?db)"
    using assms(3,4) moved[unfolded assms(6)] batch
    by (simp add: create_reissued_round_def st_bind_run st_simps get_current_consensus_round_def date_now_def)
  have orphan: "\<exists>r \<in> set (rounds ?db). rdTask r = tvId t \<and> rdNumber r = ?n \<and> rdStatus r = RoundOpen"
    by (simp add: open_round_def)
  then have "db_batch (reissue_statements t c w k) ?db = (Inl (Thrown SqlConstraint), ?db)" for c w k
    by (intro reissue_batch_stuck) blast
  then show ?thesis using run orphan by (intro exI[of _ ?db]) simp
qed

lemma sample_reissued:
  "\<exists>db stale cur t. reachable sample_env db \<and> (tvState stale = Escalated \<or> tvState stale = Revoked)
     \<and> List.find (\<lambda>r. rdTask r = tvId stale \<and> rdNumber r = tvCurrentRound stale) (rounds db) = Some cur
     \<and> event_key_exists (trIdempotencyKey (reissue_transition stale cur (u ''j2-disagreement'') no_actor)) db
     \<and> List.find (\<lambda>t. tvId t = tvId stale) (taskVersions db) = Some t \<and> tvState t = IndependentReview
     \<and> next_round_free db (tvId t) (tvCurrentRound t + 1)"
proof -
  obtain db0 t0 r where db0: "reachable sample_env db0" "rounds db0 = [r]" "tvCurrentRound t0 = 1"
      "rdId r = consensus_round_id (tvId t0) 1"
    and ready: "reissue_ready sample_env t0 r (u ''j2-disagreement'') no_actor db0" using sample_escalated[OF handler_reasons_listed(1), of "''j2-disagreement''" no_actor]
    by (simp add: REISSUE_REASONS_def del: One_nat_def) blast
  let ?db = "snd (create_reissued_round sample_env t0 (u ''j2-disagreement'') no_actor db0)"
  from reissue_effect[OF db0(1) sample_env_sound ready] obtain t' now e1 e2 where
    t': "t' \<in> set (taskVersions ?db)" "tvId t' = tvId t0" "tvState t' = IndependentReview" "tvCurrentRound t' = 1 + 1"
    and rounds: "rounds ?db = superseded (u ''j2-disagreement'') now (rdId r) [r]
        @ [open_round (consensus_round_id (tvId t0) (1 + 1)) (tvId t0) (1 + 1) (Some (u ''j2-disagreement'')) now (Some (rdId r))]"
    and ev: "events ?db = events db0 @ [e1, e2]" "evKey e1 = u ''reissue:'' @ tvId t0 @ u '':'' @ rdId r @ u '':'' @ (u ''j2-disagreement'')"
    unfolding reissued_to_def db0(2,3) by (elim exE conjE) (rule that)
  have reach: "reachable sample_env ?db"
    using db0(1) sound_keeps[OF sound_runs.reissued sample_env_sound, of db0 t0 "(u ''j2-disagreement'')" no_actor]
    unfolding reachable_def by (rule rtranclp_trans)
  have r: "rdTask r = tvId t0" "rdNumber r = 1" "tvState t0 = Escalated \<or> tvState t0 = Revoked"
    using ready db0 by (auto simp: reissue_ready_def split: if_splits)
  have "\<exists>cur. List.find (\<lambda>x. rdTask x = tvId t0 \<and> rdNumber x = tvCurrentRound t0) (rounds ?db) = Some cur \<and> rdId cur = rdId r"
    using r(1,2) db0(3) by (cases "rdStatus r = RoundOpen") (simp_all add: rounds superseded_def update_rows_def)
  then obtain cur where cur: "List.find (\<lambda>x. rdTask x = tvId t0 \<and> rdNumber x = tvCurrentRound t0) (rounds ?db) = Some cur"
    "rdId cur = rdId r" by blast
  have key: "event_key_exists (trIdempotencyKey (reissue_transition t0 cur (u ''j2-disagreement'') no_actor)) ?db"
    by (simp add: event_key_exists_def ev reissue_keys(3) cur(2))
  have ids: "distinct (map tvId (taskVersions ?db))" using reachable_inv[OF reach] by (simp add: log_inv_def)
  have find: "List.find (\<lambda>x. tvId x = tvId t0) (taskVersions ?db) = Some t'"
    using find_key_unique[OF ids t'(1)] t'(2) by simp
  have "next_round_free ?db (tvId t') (tvCurrentRound t' + 1)"
    using r db0(4) by (auto simp: next_round_free_def rounds t' superseded_def update_rows_def open_round_def)
  with reach r(3) cur(1) key find t'(3) show ?thesis by blast
qed

theorem replayed_reissue_orphans_round_witness:
  "\<exists>db stale db'. reachable sample_env db
     \<and> create_reissued_round sample_env stale (u ''j2-disagreement'') no_actor db = (Inl (conflict_error FreshRoundFailed), db')
     \<and> taskVersions db' = taskVersions db \<and> rounds db' \<noteq> rounds db"
proof -
  obtain db stale cur t where s: "reachable sample_env db" "tvState stale = Escalated \<or> tvState stale = Revoked"
     "List.find (\<lambda>r. rdTask r = tvId stale \<and> rdNumber r = tvCurrentRound stale) (rounds db) = Some cur"
     "event_key_exists (trIdempotencyKey (reissue_transition stale cur (u ''j2-disagreement'') no_actor)) db"
     "List.find (\<lambda>t. tvId t = tvId stale) (taskVersions db) = Some t" "tvState t = IndependentReview"
     and free: "next_round_free db (tvId t) (tvCurrentRound t + 1)"
    using sample_reissued by blast
  have listed: "reissue_reason_check (Some (u ''j2-disagreement''))"
    by (rule handler_reasons_listed(1)) (simp add: REISSUE_REASONS_def)
  have "tvState t \<noteq> Reissued" using s(6) by simp
  from replayed_reissue_orphans_round[OF s(1) listed s(2-5) this free] obtain db' orphan where
    "create_reissued_round sample_env stale (u ''j2-disagreement'') no_actor db = (Inl (conflict_error FreshRoundFailed), db')"
    "taskVersions db' = taskVersions db" "orphan \<in> set (rounds db')" "rdTask orphan = tvId t"
    "rdNumber orphan = tvCurrentRound t + 1" by blast
  moreover from this(3-5) free have "rounds db' \<noteq> rounds db" by (auto simp: next_round_free_def)
  ultimately show ?thesis using s(1) by blast
qed

section \<open>Notices that are never sent\<close>

lemma unlisted_notification:
  assumes "noEventType r \<notin> set GOVERNANCE_EVENT_TYPES"
  shows "insert_notification_or_ignore env r db =
    (if envBackend env = D1 then Inr (0, db) else Inl (Thrown SqlConstraint))"
  using assms by (simp add: insert_notification_or_ignore_def)

lemma unlisted_batch_dropped:
  "\<forall>s \<in> set ss. \<forall>db. s db = Inr (0, db) \<Longrightarrow> run_batch ss db = Inr (replicate (length ss) 0, db)"
  by (induction ss) (simp_all add: sbind_def)

lemma unlisted_batch_refused:
  "\<forall>s \<in> set ss. \<forall>db. s db = Inl e \<Longrightarrow> ss \<noteq> [] \<Longrightarrow> run_batch ss db = Inl e"
  by (cases ss) (simp_all add: sbind_def)

text \<open>
  The notice that a third adjudicator is needed never exists: its event type is not one the
  table admits. On D1 it is dropped without a sign; on PostgreSQL the request that queues it fails
  as soon as one person is to be told, after its transition is committed.
\<close>

theorem adjudication_notice_lost:
  assumes "x \<in> set (governance_recipients i db)" "usNotifications x"
  shows "\<exists>db'. queue_governance_notifications env i ''j1-adjudication-required'' context key db
      = (if envBackend env = D1 then Inr () else Inl (Thrown SqlConstraint), db')
    \<and> notifications db' = notifications db \<and> taskVersions db' = taskVersions db \<and> events db' = events db"
proof -
  let ?db1 = "db\<lparr>ticks := ticks db + 1, uuids := uuids db + length (filter usNotifications (governance_recipients i db))\<rparr>"
  let ?ss = "notification_writes env (uuids db) i (u ''j1-adjudication-required'') context key (governance_recipients i db)"
  have ss: "\<forall>s \<in> set ?ss. \<forall>db. s db = (if envBackend env = D1 then Inr (0, db) else Inl (Thrown SqlConstraint))"
    by (auto simp: notification_writes_def unlisted_notification GOVERNANCE_EVENT_TYPES_def)
  have "filter usNotifications (governance_recipients i db) \<noteq> []" using assms by (auto simp: filter_empty_conv)
  then have ne: "?ss \<noteq> []" by (simp add: notification_writes_def enumerate_eq_zip)
  have run: "run_batch ?ss ?db1 = (if envBackend env = D1 then Inr (replicate (length ?ss) 0, ?db1) else Inl (Thrown SqlConstraint))"
  proof (cases "envBackend env = D1")
    case True
    then have "\<forall>s \<in> set ?ss. \<forall>db. s db = Inr (0, db)" using ss by simp
    from unlisted_batch_dropped[OF this] True show ?thesis by simp
  next
    case False
    then have "\<forall>s \<in> set ?ss. \<forall>db. s db = Inl (Thrown SqlConstraint)" using ss by simp
    from unlisted_batch_refused[OF this ne] False show ?thesis by simp
  qed
  then show ?thesis
    by (simp add: queue_governance_notifications_def st_bind_run st_simps date_now_def db_batch_def)
qed

theorem adjudication_notice_lost_witness:
  "\<exists>db'. queue_governance_notifications (sample_env\<lparr>envBackend := Postgres\<rparr>) (u ''t:v1'') ''j1-adjudication-required'' JNull []
     (empty_db\<lparr>users := [\<lparr>usId = u ''ann'', usNotifications = True\<rparr>],
       participations := [\<lparr>paId = u ''1'', paTask = u ''t:v1'', paRound = u ''r1'', paHoldout = u ''h'', paUser = u ''ann'',
         paRole = RoleA, paStatus = PaSubmitted, paReceipt = None\<rparr>]\<rparr>) = (Inl (Thrown SqlConstraint), db')"
  using adjudication_notice_lost[of "\<lparr>usId = u ''ann'', usNotifications = True\<rparr>" "u ''t:v1''"
      "empty_db\<lparr>users := [\<lparr>usId = u ''ann'', usNotifications = True\<rparr>],
       participations := [\<lparr>paId = u ''1'', paTask = u ''t:v1'', paRound = u ''r1'', paHoldout = u ''h'', paUser = u ''ann'',
         paRole = RoleA, paStatus = PaSubmitted, paReceipt = None\<rparr>]\<rparr>" "sample_env\<lparr>envBackend := Postgres\<rparr>" JNull "[]"]
  by (auto simp: governance_recipients_def oset_of_def List.map_filter_def)

end
