(* ===== verification/SubmissionSafety.thy ===== *)
theory SubmissionSafety
  imports Submission ConsensusBehaviour
begin

text \<open>
  What submissions do to the tables: one person has one part in a task and in a holdout family, the
  transaction that records a contribution, and the requests as a whole as calls of the step relation
  of the consensus tables.
\<close>

section \<open>Submissions as effects\<close>

locale submission_effect = governance_effect +
  assumes recorded: "st_pres R (record_contribution env c)"
    and opened: "allowed (open_transition c)"
    and notice: "stmt_pres R (insert_notice_or_ignore n)"
begin

lemma compared: "keeps (queue_final_result_notifications env user primary pseudonym artifact)"
proof -
  have "keeps (notify_difference env primary pseudonym artifact s)" for s
    unfolding notify_difference_def enqueue_notification_def lift_discussion_def
    by (intro effect_intros one notice) (auto split: sum.splits intro: pure)
  then have "keeps (for_each (notify_difference env primary pseudonym artifact) rows)" for rows
    by (induction rows) (auto intro!: effect_intros)
  then show ?thesis unfolding queue_final_result_notifications_def by (intro effect_intros)
qed

lemma finished: "keeps (finish_contribution env c receiptId)"
proof -
  have "keeps (open_review env c)"
    unfolding open_review_def by (intro effect_intros transition opened)
  then show ?thesis unfolding finish_contribution_def by (intro effect_intros compared)
qed

lemma prepared: "keeps (prepare_contribution env cfg account http)"
proof -
  have "keeps (check_access env cfg account submission task)" for submission task
    unfolding check_access_def Let_def by (intro effect_intros)
  moreover have "keeps (locate_task env task)" for task
    unfolding locate_task_def
    by (intro effect_intros caught) (auto split: thrown.splits store_error.splits intro: pure)
  moreover have "keeps (required_repository_task_assignment account task row found)" for task row found
    unfolding required_repository_task_assignment_def by (intro effect_intros)
  moreover have "keeps (validate_consensus_eligibility env account task row found artifact)" for task row found artifact
    unfolding validate_consensus_eligibility_def bound_to_independent_def ratified_final_def
    by (intro effect_intros)
  ultimately show ?thesis unfolding prepare_contribution_def by (intro effect_intros)
qed

lemma received: "keeps (receive_submission env cfg account http)"
  unfolding receive_submission_def by (intro effect_intros prepared recorded finished)

end

section \<open>Submissions are calls\<close>

lemma submission_writes_aside:
  assumes "s \<in> set (submission_writes env c receiptId at' deliveryId participationId fr recusalId)"
  shows "stmt_pres (calls env') s"
proof -
  have "stmt_pres (calls env') (submit_assignment c a receiptId at')" for a
    by (rule aside_calls) (auto simp: submit_assignment_def update_assignments_def Let_def split: if_splits)
  then show ?thesis
    using assms
    by (auto simp: submission_writes_def approve_final_def aside_statements split: option.splits if_splits)
qed

lemma record_calls: "st_pres (calls env') (record_contribution env c)"
  unfolding record_contribution_def
  by (intro effect_intros runs.caught runs.batch ballI submission_writes_aside)

lemma open_transition_plain: "plain_call (open_transition c)"
  by (simp add: plain_call_def open_transition_def fresh_head)

interpretation submission_calls:
  submission_effect "\<lambda>db db'. sound_env env \<longrightarrow> calls env db db'" env plain_call for env
  by unfold_locales (auto intro: st_pres_if_sound record_calls open_transition_plain stmt_pres_if_sound aside_statements)

section \<open>Who took part\<close>

text \<open>Writes that leave people, contributions and the authors of final results alone.\<close>

definition same_people :: "cdb \<Rightarrow> cdb \<Rightarrow> bool" where
  "same_people db db' \<longleftrightarrow> participations db' = participations db \<and> submissions db' = submissions db
     \<and> map (\<lambda>f. (fiPrimary f, fiTask f, fiSecondary f)) (finals db')
       = map (\<lambda>f. (fiPrimary f, fiTask f, fiSecondary f)) (finals db)"

interpretation people: effect same_people
  by unfold_locales (auto simp: same_people_def)

lemma same_peopleI:
  "participations db' = participations db \<Longrightarrow> submissions db' = submissions db \<Longrightarrow> finals db' = finals db \<Longrightarrow> same_people db db'"
  by (simp add: same_people_def)

lemma people_aside:
  "(\<And>db n db'. s db = Inr (n, db') \<Longrightarrow> participations db' = participations db \<and> submissions db' = submissions db
     \<and> finals db' = finals db) \<Longrightarrow> stmt_pres same_people s"
  by (auto simp: stmt_pres_def intro: same_peopleI)

lemma people_update_finals:
  assumes "\<And>f. p f \<Longrightarrow> (fiPrimary (g f), fiTask (g f), fiSecondary (g f)) = (fiPrimary f, fiTask f, fiSecondary f)"
  shows "stmt_pres same_people (update_finals p g)"
  using assms by (auto simp: stmt_pres_def update_finals_def same_people_def update_rows_def Let_def split: if_splits)

lemma people_statements:
  "stmt_pres same_people (insert_outbox b ob)" "stmt_pres same_people (insert_metrics_or_ignore me)"
  "stmt_pres same_people (insert_notification_or_ignore env no)" "stmt_pres same_people (release_statement t r ids now)"
  "stmt_pres same_people (close_round i now)" "stmt_pres same_people (insert_notice_or_ignore nt)"
  "stmt_pres same_people (insert_appeal ai user primary evidence now)"
  "stmt_pres same_people (decide_appeal ai status subject reason now)"
  "stmt_pres same_people (insert_task_or_ignore env tr)" "stmt_pres same_people (insert_round b rr)"
  "stmt_pres same_people (insert_event b er)"
  by (rule people_aside, auto simp: insert_outbox_def insert_metrics_or_ignore_def insert_notification_or_ignore_def
      release_statement_def close_round_def insert_notice_or_ignore_def insert_appeal_def decide_appeal_def
      insert_task_or_ignore_def insert_round_def insert_event_def Let_def
      split: if_splits option.splits prod.splits)+

lemma people_transition: "st_pres same_people (transition_consensus_task env task tr)"
proof -
  have "stmt_pres same_people (update_task_stmt task tr eventId now)" for eventId now
    by (rule people_aside) (auto simp: update_task_stmt_def)
  moreover have "stmt_pres same_people (insert_event_if_moved e task tr)" for e
    by (rule people_aside) (auto simp: insert_event_if_moved_def insert_event_def split: if_splits)
  ultimately show ?thesis
    unfolding transition_consensus_task_def
    by (intro effect_intros people.batch) (auto simp: transition_statements_def)
qed

lemma people_reissue_batch: "st_pres same_people (db_batch (reissue_statements reissued rnd reason now))"
proof -
  have "stmt_pres same_people (supersede_round reason now i)" "stmt_pres same_people (advance_round i m n now)"
    "stmt_pres same_people (cancel_held_evidence i j)" for i j m n
    by (rule people_aside, auto simp: supersede_round_def advance_round_def cancel_held_evidence_def Let_def split: if_splits)+
  then show ?thesis
    by (intro people.batch) (auto simp: reissue_statements_def Let_def people_statements)
qed

lemma people_final_writes:
  "stmt_pres same_people (revoke_final primary reason now)" "stmt_pres same_people (mark_published primary now)"
  unfolding revoke_final_def mark_published_def by (rule people_update_finals, simp)+

lemma people_publish: "st_pres same_people (publish_now env task f r)"
proof -
  have "st_pres same_people (ensure_task_state_evidence env t)" for t
    unfolding ensure_task_state_evidence_def by (intro effect_intros people.one people_statements)
  moreover have "st_pres same_people (queue_governance_notifications env t e c k)" for t e c k
    unfolding queue_governance_notifications_def
    by (intro effect_intros people.batch) (auto simp: notification_writes_def people_statements)
  ultimately show ?thesis
    unfolding publish_now_def by (intro effect_intros people_transition people.one people_final_writes)
qed

lemma people_registration: "st_pres same_people (db_batch (registration_statements env i p now))"
  by (rule people.batch) (auto simp: registration_statements_def Let_def people_statements)

lemmas people_writes = people_transition people_reissue_batch people_publish people_registration
  people_statements people_final_writes

interpretation governed_people: governance_effect same_people env "\<lambda>_. True" for env
  by unfold_locales (simp_all add: people_writes)

text \<open>
  The databases the program can staff: from the empty one, by recording any contribution, prepared
  against any earlier state, and by writes that leave people alone. So every interleaving of
  requests is covered.
\<close>

inductive staffed :: "env \<Rightarrow> cdb \<Rightarrow> bool" for env where
  start: "staffed env empty_db"
| recorded: "staffed env db \<Longrightarrow> staffed env (snd (record_contribution env c db))"
| governed: "staffed env db \<Longrightarrow> same_people db db' \<Longrightarrow> staffed env db'"

lemma staffed_if_people: "st_pres same_people m \<Longrightarrow> st_pres (\<lambda>db db'. staffed env db \<longrightarrow> staffed env db') m"
  unfolding st_pres_def using staffed.governed by blast

lemma staffed_if_people_stmt: "stmt_pres same_people s \<Longrightarrow> stmt_pres (\<lambda>db db'. staffed env db \<longrightarrow> staffed env db') s"
  unfolding stmt_pres_def using staffed.governed by blast

lemma staffed_records: "st_pres (\<lambda>db db'. staffed env db \<longrightarrow> staffed env db') (record_contribution env c)"
  by (auto simp: st_pres_def intro: staffed.recorded)

lemma staffed_counters:
  "staffed env db \<longrightarrow> staffed env (db\<lparr>ticks := m\<rparr>)" "staffed env db \<longrightarrow> staffed env (db\<lparr>uuids := n\<rparr>)"
  using people.counters staffed.governed by blast+

interpretation staff: submission_effect "\<lambda>db db'. staffed env db \<longrightarrow> staffed env db'" env "\<lambda>_. True" for env
  by unfold_locales
    (simp_all add: staffed_counters staffed_records people_writes staffed_if_people staffed_if_people_stmt)

section \<open>Separation of duties\<close>

definition authored :: "cdb \<Rightarrow> ustr \<Rightarrow> ustr \<Rightarrow> crole \<Rightarrow> bool" where
  "authored db receipt task r \<longleftrightarrow> (\<exists>s \<in> set (submissions db). sbReceipt s = receipt \<and> sbTask s = task \<and> sbRole s = r)"

definition vouched :: "cdb \<Rightarrow> submission_row \<Rightarrow> bool" where
  "vouched db s \<longleftrightarrow> (\<exists>p \<in> set (participations db). paReceipt p = Some (sbReceipt s) \<and> paUser p = sbUser s
     \<and> paTask p = sbTask s \<and> paRound p = sbRound s \<and> paHoldout p = sbHoldout s \<and> paRole p = sbRole s)"

definition separated :: "cdb \<Rightarrow> bool" where
  "separated db \<longleftrightarrow>
     (\<forall>p \<in> set (participations db). \<forall>q \<in> set (participations db).
        paUser p = paUser q \<and> (paTask p = paTask q \<or> paHoldout p = paHoldout q) \<longrightarrow> p = q)
   \<and> (\<forall>s \<in> set (submissions db). vouched db s) \<and> inj_on sbReceipt (set (submissions db))
   \<and> (\<forall>f \<in> set (finals db). authored db (fiPrimary f) (fiTask f) RoleJ1
        \<and> (\<forall>r. fiSecondary f = Some r \<longrightarrow> authored db r (fiTask f) RoleJ2))"

lemma separated_people:
  assumes "separated db" "same_people db db'"
  shows "separated db'"
proof -
  have people: "participations db' = participations db" "submissions db' = submissions db"
    and m: "map (\<lambda>f. (fiPrimary f, fiTask f, fiSecondary f)) (finals db') = map (\<lambda>f. (fiPrimary f, fiTask f, fiSecondary f)) (finals db)"
    using assms(2) by (simp_all add: same_people_def)
  have "\<exists>g \<in> set (finals db). (fiPrimary g, fiTask g, fiSecondary g) = (fiPrimary f, fiTask f, fiSecondary f)"
    if "f \<in> set (finals db')" for f
    using arg_cong[OF m, of set] that by (metis (no_types, lifting) image_eqI imageE list.set_map)
  then have f: "\<exists>g \<in> set (finals db). fiPrimary g = fiPrimary f \<and> fiTask g = fiTask f \<and> fiSecondary g = fiSecondary f"
    if "f \<in> set (finals db')" for f using that by auto
  have a: "authored db' = authored db" and v: "vouched db' = vouched db"
    by (simp_all add: fun_eq_iff authored_def vouched_def people)
  have "authored db (fiPrimary f) (fiTask f) RoleJ1 \<and> (\<forall>r. fiSecondary f = Some r \<longrightarrow> authored db r (fiTask f) RoleJ2)"
    if "f \<in> set (finals db')" for f
    using f[OF that] assms(1) unfolding separated_def by metis
  then show ?thesis using assms(1) by (simp add: separated_def a v people)
qed

text \<open>The rest of the transaction, once the contribution and the participation are in.\<close>

definition entered :: "contribution \<Rightarrow> ustr \<Rightarrow> cdb \<Rightarrow> bool" where
  "entered c receiptId db \<longleftrightarrow> separated db \<and> authored db receiptId (tvId (coRow c)) (rqRole (coTask c))"

lemma entered_frame:
  "entered c r db \<Longrightarrow> participations db' = participations db \<Longrightarrow> submissions db' = submissions db \<Longrightarrow>
   (\<And>f. f \<in> set (finals db') \<Longrightarrow> f \<in> set (finals db) \<or> authored db (fiPrimary f) (fiTask f) RoleJ1
      \<and> (\<forall>x. fiSecondary f = Some x \<longrightarrow> authored db x (fiTask f) RoleJ2)) \<Longrightarrow> entered c r db'"
  unfolding entered_def separated_def authored_def vouched_def by (clarsimp; blast)

lemma final_writes_enter:
  "rqRole (coTask c) = RoleJ1 \<Longrightarrow>
     stmt_pres (\<lambda>db db'. entered c r db \<longrightarrow> entered c r db') (insert_final (proposed_row c r fr now))"
  "decides c ''agree'' \<Longrightarrow> stmt_pres (\<lambda>db db'. entered c r db \<longrightarrow> entered c r db') (approve_final c f r now)"
  "stmt_pres (\<lambda>db db'. entered c r db \<longrightarrow> entered c r db') (insert_recusal re)"
  "stmt_pres (\<lambda>db db'. entered c r db \<longrightarrow> entered c r db') (submit_assignment c a r now)"
proof -
  show "stmt_pres (\<lambda>db db'. entered c r db \<longrightarrow> entered c r db') (insert_final (proposed_row c r fr now))"
    if "rqRole (coTask c) = RoleJ1"
  proof (intro stmt_presI impI)
    fix db n db' assume w: "insert_final (proposed_row c r fr now) db = Inr (n, db')" and e: "entered c r db"
    from e that have "authored db r (tvId (coRow c)) RoleJ1" by (simp add: entered_def)
    with w show "entered c r db'"
      by (intro entered_frame[OF e]) (auto simp: insert_final_def proposed_row_def split: if_splits)
  qed
  show "stmt_pres (\<lambda>db db'. entered c r db \<longrightarrow> entered c r db') (approve_final c f r now)" if "decides c ''agree''"
  proof (intro stmt_presI impI)
    fix db n db' assume w: "approve_final c f r now db = Inr (n, db')" and e: "entered c r db"
    have j2: "rqRole (coTask c) = RoleJ2" using that by (simp add: decides_def)
    from e have old: "authored db (fiPrimary g) (fiTask g) RoleJ1
        \<and> (\<forall>x. fiSecondary g = Some x \<longrightarrow> authored db x (fiTask g) RoleJ2)" if "g \<in> set (finals db)" for g
      using that by (simp add: entered_def separated_def)
    from e j2 have new: "authored db r (tvId (coRow c)) RoleJ2" by (simp add: entered_def)
    show "entered c r db'"
      using e
    proof (rule entered_frame)
      fix g assume "g \<in> set (finals db')"
      with w obtain h where h: "h \<in> set (finals db)" "g = h \<or> fiPrimary g = fiPrimary h \<and> fiTask g = fiTask h
          \<and> fiTask h = tvId (coRow c) \<and> fiSecondary g = Some r"
        by (auto simp: approve_final_def update_finals_def Let_def update_rows_def split: if_splits)
      with old[OF h(1)] new show "g \<in> set (finals db) \<or> authored db (fiPrimary g) (fiTask g) RoleJ1
          \<and> (\<forall>x. fiSecondary g = Some x \<longrightarrow> authored db x (fiTask g) RoleJ2)" by auto
    qed (use w in \<open>auto simp: approve_final_def update_finals_def Let_def split: if_splits\<close>)
  qed
  show "stmt_pres (\<lambda>db db'. entered c r db \<longrightarrow> entered c r db') (insert_recusal re)"
    by (intro stmt_presI impI, elim entered_frame) (auto simp: insert_recusal_def split: if_splits)
  show "stmt_pres (\<lambda>db db'. entered c r db \<longrightarrow> entered c r db') (submit_assignment c a r now)"
    by (intro stmt_presI impI, elim entered_frame) (auto simp: submit_assignment_def update_assignments_def Let_def split: if_splits)
qed

lemma first_writes_enter:
  assumes "run_batch [insert_submission (submission_row_of env c r now), insert_participation (participation_row_of c p r),
      insert_outbox False ob] db = Inr (ns, db')" "separated db"
  shows "entered c r db'"
proof -
  let ?s = "submission_row_of env c r now" and ?p = "participation_row_of c p r"
  have new: "\<forall>s \<in> set (submissions db). \<not> submission_conflict ?s s" "\<forall>q \<in> set (participations db). \<not> participation_conflict ?p q"
    and db': "submissions db' = submissions db @ [?s]" "participations db' = participations db @ [?p]" "finals db' = finals db"
    using assms(1) by (auto simp: sbind_eq_Inr insert_submission_def insert_participation_def insert_outbox_def split: if_splits)
  have a: "authored db' x t ro" if "authored db x t ro" for x t ro
    using that by (auto simp: authored_def db')
  have v: "vouched db' s" if "vouched db s" for s using that by (auto simp: vouched_def db')
  have "vouched db' ?s" by (simp add: vouched_def db' submission_row_of_def participation_row_of_def)
  moreover have "inj_on sbReceipt (set (submissions db'))"
    using assms(2) new(1) by (auto simp: separated_def db' submission_conflict_def inj_on_def)
  moreover have "paUser q \<noteq> paUser ?p \<or> paTask q \<noteq> paTask ?p \<and> paHoldout q \<noteq> paHoldout ?p" if "q \<in> set (participations db)" for q
    using new(2) that by (auto simp: participation_conflict_def)
  moreover have "authored db' r (tvId (coRow c)) (rqRole (coTask c))"
    by (simp add: authored_def db' submission_row_of_def)
  ultimately show ?thesis
    using assms(2) a v unfolding entered_def separated_def db' by auto blast+
qed

lemma writes_separated:
  assumes "run_batch (submission_writes env c r now d p fr rc) db = Inr (ns, db')" "separated db"
  shows "separated db'"
proof -
  let ?first = "[insert_submission (submission_row_of env c r now), insert_participation (participation_row_of c p r),
      insert_outbox False (delivery_row env c d r now)]"
  let ?E = "\<lambda>db db'. entered c r db \<longrightarrow> entered c r db'"
  let ?rest = "(if rqRole (coTask c) = RoleJ1 then [insert_final (proposed_row c r fr now)] else [])
    @ (case coPrimary c of Some (f, s) \<Rightarrow> if decides c ''agree'' then [approve_final c f r now] else [] | None \<Rightarrow> [])
    @ (if decides c ''recuse'' then [insert_recusal (recusal_row_of c rc)] else [])
    @ (case coAssignment c of Some a \<Rightarrow> [submit_assignment c a r now] | None \<Rightarrow> [])"
  have w: "submission_writes env c r now d p fr rc = ?first @ ?rest" by (simp add: submission_writes_def)
  have rest: "\<forall>s \<in> set ?rest. stmt_pres ?E s"
    by (auto simp: final_writes_enter split: option.splits if_splits)
  from assms(1) obtain ms db1 ms' where 1: "run_batch ?first db = Inr (ms, db1)" and 2: "run_batch ?rest db1 = Inr (ms', db')"
    unfolding w run_batch_append by (auto simp: sbind_eq_Inr)
  have "?E db1 db'" by (rule run_batch_pres[OF _ _ rest 2]) (auto simp: reflp_def transp_def)
  with first_writes_enter[OF 1 assms(2)] show ?thesis by (simp add: entered_def)
qed

interpretation separation: effect "\<lambda>db db'. separated db \<longrightarrow> separated db'"
  by unfold_locales (auto intro: separated_people simp: same_people_def)

lemma record_separated: "st_pres (\<lambda>db db'. separated db \<longrightarrow> separated db') (record_contribution env c)"
proof -
  have "st_pres (\<lambda>db db'. separated db \<longrightarrow> separated db') (db_batch (submission_writes env c r now d p fr rc))" for r now d p fr rc
    by (intro st_presI) (auto simp: db_batch_def dest: writes_separated split: sum.splits)
  then show ?thesis
    unfolding record_contribution_def by (intro effect_intros separation.caught)
qed

lemma staffed_separated: "staffed env db \<Longrightarrow> separated db"
proof (induction rule: staffed.induct)
  case start
  show ?case by (simp add: separated_def empty_db_def)
next
  case (recorded db c)
  with record_separated show ?case by (simp add: st_pres_def)
next
  case (governed db db')
  then show ?case by (rule_tac separated_people)
qed

section \<open>The transaction that records\<close>

text \<open>The database once the identifiers and the time of a contribution are drawn.\<close>

definition drawn :: "contribution \<Rightarrow> cdb \<Rightarrow> cdb" where
  "drawn c db = db\<lparr>ticks := ticks db + 1, uuids := uuids db + (if decides c ''recuse'' then 4 else 3)\<rparr>"

definition drawn_writes :: "env \<Rightarrow> contribution \<Rightarrow> ustr \<Rightarrow> cdb \<Rightarrow> stmt list" where
  "drawn_writes env c fr db = submission_writes env c (envUuid env (uuids db)) (envClock env (ticks db))
     (envUuid env (uuids db + 1)) (envUuid env (uuids db + 2)) fr
     (if decides c ''recuse'' then envUuid env (uuids db + 3) else [])"

lemma record_run:
  assumes "primary_root env c = Inr fr"
  shows "record_contribution env c db = (case run_batch (drawn_writes env c fr db) (drawn c db) of
      Inl e \<Rightarrow> (Inl (public_error 409 WriteConflict), drawn c db)
    | Inr (ns, db') \<Rightarrow> (if list_all (\<lambda>n. n = 1) ns then Inr (envUuid env (uuids db))
        else Inl (public_error 409 WriteIncomplete), db'))"
proof -
  have n: "uuids db + 1 + 1 + 1 + 1 = uuids db + 4" "uuids db + 1 + 1 + 1 = uuids db + 3" "uuids db + 1 + 1 = uuids db + 2" by simp_all
  show ?thesis
    by (cases "decides c ''recuse''")
      (simp_all add: record_contribution_def st_bind_run st_simps random_uuid_def date_now_def lift_protocol_def assms
        drawn_def drawn_writes_def db_batch_def st_catch_run n numeral_eq_Suc split: sum.splits prod.splits)
qed

lemma record_no_root:
  assumes "primary_root env c = Inl e"
  shows "\<exists>e'. record_contribution env c db = (Inl e', db\<lparr>ticks := ticks db + 1, uuids := uuids db + 3\<rparr>)
    \<and> e' \<noteq> public_error 409 WriteIncomplete"
  using assms by (cases e) (simp_all add: record_contribution_def st_bind_run st_simps random_uuid_def date_now_def
      lift_protocol_def numeral_eq_Suc)

text \<open>What a recorded contribution adds: its row, its author's part, its delivery.\<close>

definition recorded_in :: "env \<Rightarrow> contribution \<Rightarrow> cdb \<Rightarrow> cdb \<Rightarrow> bool" where
  "recorded_in env c db db' \<longleftrightarrow>
     submissions db' = submissions db @ [submission_row_of env c (envUuid env (uuids db)) (envClock env (ticks db))]
   \<and> participations db' = participations db @ [participation_row_of c (envUuid env (uuids db + 2)) (envUuid env (uuids db))]
   \<and> outbox db' = outbox db @ [delivery_row env c (envUuid env (uuids db + 1)) (envUuid env (uuids db)) (envClock env (ticks db))]"

definition contents :: "cdb \<Rightarrow> cdb \<Rightarrow> bool" where
  "contents db db' \<longleftrightarrow> submissions db' = submissions db \<and> participations db' = participations db \<and> outbox db' = outbox db
     \<and> finals db' = finals db \<and> recusals db' = recusals db \<and> assignments db' = assignments db"

lemma rest_of_writes:
  assumes "s \<in> set (drop 3 (submission_writes env c r now d p fr rc))" "s db = Inr (n, db')"
  shows "submissions db' = submissions db \<and> participations db' = participations db \<and> outbox db' = outbox db"
  using assms by (auto simp: submission_writes_def insert_final_def approve_final_def update_finals_def insert_recusal_def
      submit_assignment_def update_assignments_def Let_def split: if_splits option.splits)

lemma run_batch_append_Inr:
  assumes "run_batch (ss @ ts) db = Inr (ns, db')"
  shows "\<exists>ks db1 ms. run_batch ss db = Inr (ks, db1) \<and> run_batch ts db1 = Inr (ms, db')"
  using assms unfolding run_batch_append by (cases "run_batch ss db") (auto simp: sbind_eq_Inr)

lemma writes_record:
  assumes "run_batch (drawn_writes env c fr db) (drawn c db) = Inr (ns, db')"
  shows "recorded_in env c db db'"
proof -
  let ?w = "drawn_writes env c fr db"
  let ?first = "[insert_submission (submission_row_of env c (envUuid env (uuids db)) (envClock env (ticks db))),
    insert_participation (participation_row_of c (envUuid env (uuids db + 2)) (envUuid env (uuids db))),
    insert_outbox False (delivery_row env c (envUuid env (uuids db + 1)) (envUuid env (uuids db)) (envClock env (ticks db)))]"
  have w: "?w = ?first @ drop 3 ?w" by (simp add: drawn_writes_def submission_writes_def numeral_eq_Suc)
  let ?S = "\<lambda>db db'. submissions db' = submissions db \<and> participations db' = participations db \<and> outbox db' = outbox db"
  have "run_batch (?first @ drop 3 ?w) (drawn c db) = Inr (ns, db')" using assms by (simp only: w[symmetric])
  then obtain ms db1 ms' where 1: "run_batch ?first (drawn c db) = Inr (ms, db1)"
    and 2: "run_batch (drop 3 ?w) db1 = Inr (ms', db')"
    using run_batch_append_Inr by blast
  have "?S db1 db'"
    by (rule run_batch_pres[OF _ _ _ 2])
      (auto simp: reflp_def transp_def stmt_pres_def drawn_writes_def dest: rest_of_writes)
  moreover have "recorded_in env c db db1"
    using 1 by (auto simp: sbind_eq_Inr insert_submission_def insert_participation_def insert_outbox_def recorded_in_def
        drawn_def split: if_splits)
  ultimately show ?thesis by (simp add: recorded_in_def)
qed


section \<open>People are kept apart\<close>

text \<open>An annotator's contribution goes through when the rows it conflicts with are not there.\<close>

definition free_for :: "env \<Rightarrow> contribution \<Rightarrow> cdb \<Rightarrow> bool" where
  "free_for env c db \<longleftrightarrow>
     (\<forall>s \<in> set (submissions db). \<not> submission_conflict (submission_row_of env c (envUuid env (uuids db)) (envClock env (ticks db))) s)
   \<and> (\<forall>p \<in> set (participations db). \<not> participation_conflict (participation_row_of c (envUuid env (uuids db + 2)) (envUuid env (uuids db))) p)
   \<and> (\<forall>x \<in> set (outbox db). obId x \<noteq> envUuid env (uuids db + 1) \<and> obDedupe x \<noteq> submission_key (envUuid env (uuids db)))"

lemma record_annotation:
  assumes "independent_role (rqRole (coTask c))" "coPrimary c = None" "coAssignment c = None" "free_for env c db"
  shows "\<exists>db'. record_contribution env c db = (Inr (envUuid env (uuids db)), db') \<and> recorded_in env c db db'
    \<and> uuids db' = uuids db + 3 \<and> finals db' = finals db"
proof -
  have d: "\<not> decides c ''agree''" "\<not> decides c ''recuse''" "rqRole (coTask c) \<noteq> RoleJ1"
    using assms(1) by (auto simp: decides_def independent_role_def)
  have root: "primary_root env c = Inr []" using d(3) by (simp add: primary_root_def)
  let ?db' = "(drawn c db)\<lparr>
      submissions := submissions db @ [submission_row_of env c (envUuid env (uuids db)) (envClock env (ticks db))],
      participations := participations db @ [participation_row_of c (envUuid env (uuids db + 2)) (envUuid env (uuids db))],
      outbox := outbox db @ [delivery_row env c (envUuid env (uuids db + 1)) (envUuid env (uuids db)) (envClock env (ticks db))]\<rparr>"
  have "run_batch (drawn_writes env c [] db) (drawn c db) = Inr ([1, 1, 1], ?db')"
    using assms(2-4) d
    by (simp add: free_for_def drawn_writes_def submission_writes_def insert_submission_def insert_participation_def insert_outbox_def
        drawn_def delivery_row_def)
  then show ?thesis
    unfolding record_run[OF root] using d by (simp add: recorded_in_def drawn_def)
qed

definition sample_part :: "string \<Rightarrow> crole \<Rightarrow> contribution" where
  "sample_part user r = \<lparr>coAccount = \<lparr>acId = u user, acEmailHash = Some (u ''hash''), acErasurePending = False\<rparr>,
     coSubmission = JObj [], coTask = \<lparr>rqPacketId = u ''p'', rqRoleText = role_name r,
       rqPacket = packet_of_json (JObj []), rqPacketRoot = [], rqIdentity = sample_identity, rqRole = r\<rparr>,
     coRow = registration_task_row sample_identity JNull (u ''e'') 0,
     coRound = open_round (u ''r1'') (u ''t:v1'') 1 None 0 None, coPrimary = None, coAssignment = None\<rparr>"

lemma sample_part_simps [simp]:
  "acId (coAccount (sample_part user r)) = u user" "rqRole (coTask (sample_part user r)) = r"
  "tvId (coRow (sample_part user r)) = u ''t:v1''" "rdId (coRound (sample_part user r)) = u ''r1''"
  "rdNumber (coRound (sample_part user r)) = 1" "tiHoldoutId (rqIdentity (coTask (sample_part user r))) = u ''h''"
  "rqPacketId (coTask (sample_part user r)) = u ''p''" "coPrimary (sample_part user r) = None"
  "coAssignment (sample_part user r) = None"
  by (simp_all add: sample_part_def registration_task_row_def sample_identity_def open_round_def)

lemma sample_staffed:
  "\<exists>db s t. staffed sample_env db \<and> submissions db = [s, t] \<and> sbUser s = u ''ann'' \<and> sbUser t = u ''bob''
     \<and> sbTask s = u ''t:v1'' \<and> sbTask t = u ''t:v1'' \<and> sbRole s = RoleA \<and> sbRole t = RoleB"
proof -
  let ?a = "sample_part ''ann'' RoleA" and ?b = "sample_part ''bob'' RoleB"
  have "\<exists>db'. record_contribution sample_env ?a empty_db = (Inr (envUuid sample_env (uuids empty_db)), db')
      \<and> recorded_in sample_env ?a empty_db db' \<and> uuids db' = uuids empty_db + 3 \<and> finals db' = finals empty_db"
    by (rule record_annotation) (simp_all add: independent_role_def empty_db_def free_for_def)
  then obtain db1 where 1: "record_contribution sample_env ?a empty_db = (Inr (envUuid sample_env 0), db1)"
    "recorded_in sample_env ?a empty_db db1" "uuids db1 = 3"
    by (auto simp: empty_db_def)
  have n: "nat_str m = nat_str k \<longleftrightarrow> m = k" for m k using nat_str_inject by blast
  have "\<exists>db'. record_contribution sample_env ?b db1 = (Inr (envUuid sample_env (uuids db1)), db')
      \<and> recorded_in sample_env ?b db1 db' \<and> uuids db' = uuids db1 + 3 \<and> finals db' = finals db1"
    using 1(2,3)
    by (intro record_annotation)
      (simp_all add: free_for_def independent_role_def recorded_in_def empty_db_def submission_conflict_def participation_conflict_def
        submission_row_of_def participation_row_of_def delivery_row_def submission_key_def sample_env_def n u_def)
  then obtain db2 where 2: "record_contribution sample_env ?b db1 = (Inr (envUuid sample_env (uuids db1)), db2)"
    "recorded_in sample_env ?b db1 db2" by blast
  have "staffed sample_env db2"
    using staffed.recorded[OF staffed.recorded[OF staffed.start], of sample_env ?b ?a] 1(1) 2(1) by simp
  then show ?thesis
    using 1(2) 2(2) by (intro exI[of _ db2]) (simp add: recorded_in_def empty_db_def submission_row_of_def)
qed

lemma vouched_twice:
  assumes "separated db" "s \<in> set (submissions db)" "t \<in> set (submissions db)" "sbUser s = sbUser t"
    "sbTask s = sbTask t \<or> sbHoldout s = sbHoldout t"
  shows "s = t"
proof -
  from assms obtain p q where
    p: "p \<in> set (participations db)" "paReceipt p = Some (sbReceipt s)" "paUser p = sbUser s" "paTask p = sbTask s" "paHoldout p = sbHoldout s"
    and q: "q \<in> set (participations db)" "paReceipt q = Some (sbReceipt t)" "paUser q = sbUser t" "paTask q = sbTask t" "paHoldout q = sbHoldout t"
    unfolding separated_def vouched_def by blast
  with assms have "p = q" unfolding separated_def by metis
  with p q have "sbReceipt s = sbReceipt t" by simp
  with assms(1-3) show ?thesis by (simp add: separated_def inj_on_def)
qed

text \<open>
  C3. Separation of duties, under every interleaving of requests with stale reads: nobody
  contributes twice to a task or to a holdout family, in any round; and the author of a final result
  and the reviewer who confirmed it are two persons, neither of whom annotated the task.
\<close>

theorem people_kept_apart:
  assumes "staffed env db"
  shows "(\<forall>s \<in> set (submissions db). \<forall>t \<in> set (submissions db).
        sbUser s = sbUser t \<and> (sbTask s = sbTask t \<or> sbHoldout s = sbHoldout t) \<longrightarrow> s = t)
    \<and> (\<forall>f \<in> set (finals db). \<exists>s \<in> set (submissions db). sbReceipt s = fiPrimary f \<and> sbTask s = fiTask f \<and> sbRole s = RoleJ1
        \<and> (\<forall>r. fiSecondary f = Some r \<longrightarrow> (\<exists>t \<in> set (submissions db). sbReceipt t = r \<and> sbTask t = fiTask f
             \<and> sbRole t = RoleJ2 \<and> sbUser s \<noteq> sbUser t
             \<and> (\<forall>a \<in> set (submissions db). sbTask a = fiTask f \<and> independent_role (sbRole a)
                  \<longrightarrow> sbUser a \<noteq> sbUser s \<and> sbUser a \<noteq> sbUser t))))"
proof -
  have sep: "separated db" using staffed_separated[OF assms] .
  have once: "s = t" if "s \<in> set (submissions db)" "t \<in> set (submissions db)" "sbUser s = sbUser t"
    "sbTask s = sbTask t \<or> sbHoldout s = sbHoldout t" for s t
    using vouched_twice[OF sep] that by blast
  have apart: "sbUser s \<noteq> sbUser t" if "s \<in> set (submissions db)" "t \<in> set (submissions db)" "sbTask s = sbTask t"
    "sbRole s \<noteq> sbRole t" for s t using once[OF that(1,2)] that(3,4) by auto
  have final: "authored db (fiPrimary f) (fiTask f) RoleJ1 \<and> (\<forall>r. fiSecondary f = Some r \<longrightarrow> authored db r (fiTask f) RoleJ2)"
    if "f \<in> set (finals db)" for f using sep that by (simp add: separated_def)
  show ?thesis
  proof (intro conjI ballI)
    fix f assume f: "f \<in> set (finals db)"
    from final[OF f] obtain s where s: "s \<in> set (submissions db)" "sbReceipt s = fiPrimary f" "sbTask s = fiTask f" "sbRole s = RoleJ1"
      unfolding authored_def by blast
    have "\<exists>t \<in> set (submissions db). sbReceipt t = r \<and> sbTask t = fiTask f \<and> sbRole t = RoleJ2 \<and> sbUser s \<noteq> sbUser t
        \<and> (\<forall>a \<in> set (submissions db). sbTask a = fiTask f \<and> independent_role (sbRole a) \<longrightarrow> sbUser a \<noteq> sbUser s \<and> sbUser a \<noteq> sbUser t)"
      if "fiSecondary f = Some r" for r
    proof -
      from final[OF f] that obtain t where t: "t \<in> set (submissions db)" "sbReceipt t = r" "sbTask t = fiTask f" "sbRole t = RoleJ2"
        unfolding authored_def by blast
      have "sbUser a \<noteq> sbUser s \<and> sbUser a \<noteq> sbUser t"
        if "a \<in> set (submissions db)" "sbTask a = fiTask f" "independent_role (sbRole a)" for a
        using apart[OF that(1) s(1)] apart[OF that(1) t(1)] that s t by (auto simp: independent_role_def)
      with t s apart[OF s(1) t(1)] show ?thesis by (intro bexI[OF _ t(1)]) auto
    qed
    with s show "\<exists>s \<in> set (submissions db). sbReceipt s = fiPrimary f \<and> sbTask s = fiTask f \<and> sbRole s = RoleJ1
        \<and> (\<forall>r. fiSecondary f = Some r \<longrightarrow> (\<exists>t \<in> set (submissions db). sbReceipt t = r \<and> sbTask t = fiTask f
             \<and> sbRole t = RoleJ2 \<and> sbUser s \<noteq> sbUser t
             \<and> (\<forall>a \<in> set (submissions db). sbTask a = fiTask f \<and> independent_role (sbRole a)
                  \<longrightarrow> sbUser a \<noteq> sbUser s \<and> sbUser a \<noteq> sbUser t)))" by blast
  qed (use once in blast)
qed

theorem people_kept_apart_witness:
  "\<exists>db s t. staffed sample_env db \<and> submissions db = [s, t] \<and> sbTask s = sbTask t \<and> sbUser s \<noteq> sbUser t"
proof -
  from sample_staffed obtain db s t where 1: "staffed sample_env db" "submissions db = [s, t]" "sbTask s = u ''t:v1''"
    "sbTask t = u ''t:v1''" "sbRole s = RoleA" "sbRole t = RoleB" by blast
  with people_kept_apart[OF 1(1)] show ?thesis by fastforce
qed

text \<open>
  Requests stay inside both models of concurrency: whatever it answers, \<open>receiveSubmission\<close> is
  a sequence of calls of the step relation of the consensus tables, so its history invariants hold
  with submissions too; and it, like every governance handler, keeps a staffed database staffed.
\<close>

theorem requests_keep_invariants:
  assumes "sound_env env"
  shows "calls env db (snd (receive_submission env cfg account http db))
    \<and> (staffed env db \<longrightarrow> staffed env (snd (receive_submission env cfg account http db))
        \<and> staffed env (snd (reconcile_consensus_task env i db)) \<and> staffed env (snd (attempt_publish_task env i db))
        \<and> staffed env (snd (process_expired_consensus_rounds env db)) \<and> staffed env (snd (process_publishable_tasks env db))
        \<and> staffed env (snd (reissue_consensus_task env subject i reason db))
        \<and> staffed env (snd (create_consensus_appeal env account i evidence db))
        \<and> staffed env (snd (review_consensus_appeal env subject i decision why db)))"
  using sound_keeps[OF submission_calls.received assms] staff.received staff.handlers
  by (simp add: st_pres_def)

theorem requests_keep_invariants_witness:
  "calls sample_env empty_db (snd (receive_submission sample_env
     \<lparr>scEnabled = True, scMaxBytes = 900000, scUnicode = \<lparr>unNfkc = id, unLower = id\<rparr>, scChallenge = (\<lambda>_. True)\<rparr>
     \<lparr>acId = u ''ann'', acEmailHash = None, acErasurePending = False\<rparr> \<lparr>shContentLength = None, shText = []\<rparr> empty_db))"
  using requests_keep_invariants[OF sample_env_sound] by blast

section \<open>An incomplete record\<close>

text \<open>
  C39. A contribution that was told it was not recorded has been: when its assignment was taken from
  it after it was read, the transaction commits with one statement that changed nothing; the
  answer is the refusal, the contribution is in the tables, and its author can never send it again.
\<close>

theorem refused_contribution_is_recorded:
  assumes "independent_role (rqRole (coTask c))" "coPrimary c = None" "coAssignment c = Some a" "free_for env c db"
    "\<forall>x \<in> set (assignments db). asId x = asId a \<longrightarrow> asStatus x = AsSubmitted \<or> asStatus x = AsCancelled"
    "assignments_unique (assignments db)"
  shows "\<exists>db'. record_contribution env c db = (Inl (public_error 409 WriteIncomplete), db') \<and> recorded_in env c db db'
    \<and> (\<forall>cfg submission. fst (check_access env cfg (coAccount c) submission (coTask c) db') \<noteq> Inr ())"
proof -
  have d: "\<not> decides c ''agree''" "\<not> decides c ''recuse''" "rqRole (coTask c) \<noteq> RoleJ1"
    using assms(1) by (auto simp: decides_def independent_role_def)
  have root: "primary_root env c = Inr []" using d(3) by (simp add: primary_root_def)
  have none: "submit_assignment c a r now db1 = Inr (0, db1)" if "assignments db1 = assignments db" for r now db1
  proof -
    have "\<forall>x \<in> set (assignments db1). \<not> (asId x = asId a \<and> asRole x = rqRole (coTask c)
        \<and> (asStatus x = AsInvited \<or> asStatus x = AsClaimed) \<and> (asUser x = None \<or> asUser x = Some (acId (coAccount c))))"
      using assms(5) that by auto
    then show ?thesis unfolding submit_assignment_def update_assignments_def Let_def
      using assms(6) that by (simp add: count_rows_0 update_rows_none)
  qed
  have "\<exists>db'. run_batch (drawn_writes env c [] db) (drawn c db) = Inr ([1, 1, 1, 0], db')"
    using assms(2-4) d
    by (simp add: free_for_def drawn_writes_def submission_writes_def insert_submission_def insert_participation_def
        insert_outbox_def drawn_def delivery_row_def none)
  then obtain db' where b: "run_batch (drawn_writes env c [] db) (drawn c db) = Inr ([1, 1, 1, 0], db')" by blast
  have r: "recorded_in env c db db'" by (rule writes_record[OF b])
  then have "took_part (acId (coAccount c)) x (tiHoldoutId (rqIdentity (coTask c))) db'" for x
    by (auto simp: recorded_in_def took_part_def participation_row_of_def)
  then have "fst (check_access env cfg (coAccount c) submission (coTask c) db') \<noteq> Inr ()" for cfg submission
    by (simp add: check_access_def Let_def st_bind_run st_simps)
  with b r show ?thesis by (simp add: record_run[OF root])
qed

definition taken_assignment :: assignment_row where
  "taken_assignment = \<lparr>asId = u ''a1'', asTask = u ''t:v1'', asRound = u ''r1'', asHoldout = u ''h'', asRole = RoleA, asEmailHash = u ''hash'',
     asUser = None, asStatus = AsInvited, asReceipt = None, asClaimedAt = None, asSubmittedAt = None\<rparr>"

theorem refused_contribution_is_recorded_witness:
  "\<exists>db'. record_contribution sample_env ((sample_part ''ann'' RoleA)\<lparr>coAssignment := Some taken_assignment\<rparr>)
       (empty_db\<lparr>assignments := [taken_assignment\<lparr>asStatus := AsCancelled\<rparr>]\<rparr>) = (Inl (public_error 409 WriteIncomplete), db')
     \<and> length (submissions db') = 1"
proof -
  have "\<exists>db'. record_contribution sample_env ((sample_part ''ann'' RoleA)\<lparr>coAssignment := Some taken_assignment\<rparr>)
       (empty_db\<lparr>assignments := [taken_assignment\<lparr>asStatus := AsCancelled\<rparr>]\<rparr>) = (Inl (public_error 409 WriteIncomplete), db')
     \<and> recorded_in sample_env ((sample_part ''ann'' RoleA)\<lparr>coAssignment := Some taken_assignment\<rparr>)
       (empty_db\<lparr>assignments := [taken_assignment\<lparr>asStatus := AsCancelled\<rparr>]\<rparr>) db'
     \<and> (\<forall>cfg submission. fst (check_access sample_env cfg (coAccount ((sample_part ''ann'' RoleA)\<lparr>coAssignment := Some taken_assignment\<rparr>))
          submission (coTask ((sample_part ''ann'' RoleA)\<lparr>coAssignment := Some taken_assignment\<rparr>)) db') \<noteq> Inr ())"
    by (rule refused_contribution_is_recorded)
      (simp_all add: sample_part_def independent_role_def free_for_def empty_db_def taken_assignment_def
        assignments_unique_def)
  then show ?thesis by (auto simp: recorded_in_def empty_db_def)
qed

section \<open>Eligibility\<close>

text \<open>
  C20. Who is let into a role: the round is open, the task is in a state the role belongs to, the
  person has had no part in the task or its family, the role is free in the round; a J1 decision
  names the roots of the round's two stored annotations, which differ, and a J2 review names the
  receipt and the root of a result that is proposed in this round. The check changes nothing.
\<close>

theorem eligible_for_role:
  assumes "validate_consensus_eligibility env account task row found artifact db = (Inr (rnd, primary), db')"
  shows "db' = db \<and> found = Some rnd \<and> rdStatus rnd = RoundOpen \<and> tvState row \<in> allowed_states (rqRole task)
    \<and> \<not> took_part (acId account) (tvId row) (tiHoldoutId (rqIdentity task)) db
    \<and> (\<forall>p \<in> set (participations db). \<not> (paRound p = rdId rnd \<and> paRole p = rqRole task))
    \<and> (rqRole task = RoleJ1 \<longrightarrow> (\<exists>a b ra rb. independent_rows (tvId row) (rdId rnd) db = [a, b]
         \<and> stored_root env (sbArtifact a) = Inr ra \<and> stored_root env (sbArtifact b) = Inr rb \<and> ra \<noteq> rb
         \<and> dot (dot artifact ''adjudication'') ''annotationAMerkleRoot'' \<in> {JStr ra, JStr rb}
         \<and> dot (dot artifact ''adjudication'') ''annotationBMerkleRoot'' \<in> {JStr ra, JStr rb}))
    \<and> (rqRole task = RoleJ2 \<longrightarrow> (\<exists>f s. primary = Some (f, s) \<and> f \<in> set (finals db) \<and> s \<in> set (submissions db)
         \<and> sbReceipt s = fiPrimary f \<and> fiTask f = tvId row \<and> fiRound f = rdId rnd \<and> fiStatus f = FinalProposed
         \<and> dot (dot artifact ''ratification'') ''primaryReceiptId'' = JStr (fiPrimary f)
         \<and> dot (dot artifact ''ratification'') ''primaryAdjudicationMerkleRoot'' = JStr (fiRoot f)))"
proof -
  obtain r where r: "found = Some r" using assms by (cases found) (auto simp: validate_consensus_eligibility_def st_simps)
  have open': "rdStatus r = RoundOpen \<and> tvState row \<in> allowed_states (rqRole task)
    \<and> \<not> took_part (acId account) (tvId row) (tiHoldoutId (rqIdentity task)) db
    \<and> (\<forall>p \<in> set (participations db). \<not> (paRound p = rdId r \<and> paRole p = rqRole task))"
    using assms by (auto simp: validate_consensus_eligibility_def r st_bind_run st_simps split: if_splits sum.splits)
  have b: "(if independent_role (rqRole task) then st_return (r, None)
      else if rqRole task = RoleJ1 then st_bind (st_get (independent_rows (tvId row) (rdId r))) (\<lambda>rows.
        st_bind (bound_to_independent env artifact rows) (\<lambda>_. st_return (r, None)))
      else st_bind (ratified_final row r artifact) (\<lambda>primary. st_return (r, Some primary))) db = (Inr (rnd, primary), db')"
    using assms open' by (simp add: validate_consensus_eligibility_def r st_bind_run st_simps)
  have J1: "rnd = r \<and> db' = db \<and> (\<exists>a b ra rb. independent_rows (tvId row) (rdId r) db = [a, b]
         \<and> stored_root env (sbArtifact a) = Inr ra \<and> stored_root env (sbArtifact b) = Inr rb \<and> ra \<noteq> rb
         \<and> dot (dot artifact ''adjudication'') ''annotationAMerkleRoot'' \<in> {JStr ra, JStr rb}
         \<and> dot (dot artifact ''adjudication'') ''annotationBMerkleRoot'' \<in> {JStr ra, JStr rb})" if "rqRole task = RoleJ1"
  proof -
    let ?rows = "independent_rows (tvId row) (rdId r) db"
    from b that have c: "st_bind (bound_to_independent env artifact ?rows) (\<lambda>_. st_return (r, None)) db = (Inr (rnd, primary), db')"
      by (simp add: independent_role_def st_bind_run st_simps)
    then have l: "length ?rows = 2" by (auto simp: bound_to_independent_def st_bind_run st_simps split: if_splits)
    then obtain a b' where ab: "?rows = [a, b']" by (auto simp: numeral_eq_Suc length_Suc_conv)
    from c obtain roots where roots: "mapE (\<lambda>s. stored_root env (sbArtifact s)) [a, b'] = Inr roots"
      by (auto simp: ab bound_to_independent_def lift_protocol_def st_bind_run st_simps split: sum.splits thrown.splits)
    then obtain ra rb where rr: "stored_root env (sbArtifact a) = Inr ra" "stored_root env (sbArtifact b') = Inr rb" "roots = [ra, rb]"
      by (auto simp: sbind_eq_Inr)
    show ?thesis
      using c rr ab roots
      by (auto simp: bound_to_independent_def lift_protocol_def st_bind_run st_simps split: if_splits)
  qed
  have J2: "rnd = r \<and> db' = db \<and> (\<exists>f s. primary = Some (f, s) \<and> f \<in> set (finals db) \<and> s \<in> set (submissions db)
         \<and> sbReceipt s = fiPrimary f \<and> fiTask f = tvId row \<and> fiRound f = rdId r \<and> fiStatus f = FinalProposed
         \<and> dot (dot artifact ''ratification'') ''primaryReceiptId'' = JStr (fiPrimary f)
         \<and> dot (dot artifact ''ratification'') ''primaryAdjudicationMerkleRoot'' = JStr (fiRoot f))" if "rqRole task = RoleJ2"
    using b that
    by (auto simp: independent_role_def ratified_final_def proposed_final_def st_bind_run st_simps
        split: option.splits if_splits sum.splits dest!: find_SomeD)
  have AB: "rnd = r \<and> db' = db" if "independent_role (rqRole task)"
    using b that by (simp add: st_simps)
  show ?thesis
    using open' r J1 J2 AB by (cases "rqRole task") (auto simp: independent_role_def)
qed

definition sample_final_row :: final_row where
  "sample_final_row = \<lparr>fiPrimary = u ''0'', fiTask = u ''t:v1'', fiRound = u ''r1'', fiSecondary = None, fiRoot = u ''f1'',
     fiStatus = FinalProposed, fiProposedAt = 0, fiApprovedAt = None, fiPublishedAt = None, fiRevokedAt = None,
     fiRevocationReason = None\<rparr>"

theorem eligible_for_role_witness:
  "\<exists>rnd primary db'. validate_consensus_eligibility sample_env (coAccount (sample_part ''bob'' RoleJ2)) (coTask (sample_part ''bob'' RoleJ2))
       ((coRow (sample_part ''bob'' RoleJ2))\<lparr>tvState := FinalReview\<rparr>) (Some (coRound (sample_part ''bob'' RoleJ2)))
       (JObj [(u ''ratification'', JObj [(u ''primaryReceiptId'', JStr (u ''0'')), (u ''primaryAdjudicationMerkleRoot'', JStr (u ''f1''))])])
       (empty_db\<lparr>finals := [sample_final_row],
          submissions := [submission_row_of sample_env (sample_part ''ann'' RoleJ1) (u ''0'') 0]\<rparr>) = (Inr (rnd, primary), db')
     \<and> db' = empty_db\<lparr>finals := [sample_final_row],
          submissions := [submission_row_of sample_env (sample_part ''ann'' RoleJ1) (u ''0'') 0]\<rparr> \<and> rdStatus rnd = RoundOpen"
proof -
  let ?db = "empty_db\<lparr>finals := [sample_final_row],
          submissions := [submission_row_of sample_env (sample_part ''ann'' RoleJ1) (u ''0'') 0]\<rparr>"
  let ?run = "validate_consensus_eligibility sample_env (coAccount (sample_part ''bob'' RoleJ2)) (coTask (sample_part ''bob'' RoleJ2))
       ((coRow (sample_part ''bob'' RoleJ2))\<lparr>tvState := FinalReview\<rparr>) (Some (coRound (sample_part ''bob'' RoleJ2)))
       (JObj [(u ''ratification'', JObj [(u ''primaryReceiptId'', JStr (u ''0'')), (u ''primaryAdjudicationMerkleRoot'', JStr (u ''f1''))])]) ?db"
  have "\<exists>rnd primary db'. ?run = (Inr (rnd, primary), db')"
    by (simp add: validate_consensus_eligibility_def st_bind_run st_simps sample_part_def open_round_def registration_task_row_def
        sample_identity_def empty_db_def took_part_def allowed_states_def independent_role_def ratified_final_def
        proposed_final_def sample_final_row_def submission_row_of_def)
  then obtain rnd primary db' where run: "?run = (Inr (rnd, primary), db')" by blast
  from eligible_for_role[OF run] run show ?thesis by blast
qed

section \<open>An appeal against a result that is no longer current\<close>

interpretation finals_kept: effect "\<lambda>db db'. finals db' = finals db"
  by unfold_locales auto

lemma finals_statements:
  "stmt_pres (\<lambda>db db'. finals db' = finals db) (update_task_stmt task tr i now)"
  "stmt_pres (\<lambda>db db'. finals db' = finals db) (insert_event_if_moved e task tr)"
  "stmt_pres (\<lambda>db db'. finals db' = finals db) (supersede_round reason now i)"
  "stmt_pres (\<lambda>db db'. finals db' = finals db) (advance_round i m n now)"
  "stmt_pres (\<lambda>db db'. finals db' = finals db) (cancel_held_evidence i j)"
  "stmt_pres (\<lambda>db db'. finals db' = finals db) (insert_round b rr)"
  "stmt_pres (\<lambda>db db'. finals db' = finals db) (insert_outbox b ob)"
  "stmt_pres (\<lambda>db db'. finals db' = finals db) (insert_notification_or_ignore env no)"
  by (rule stmt_presI, auto simp: update_task_stmt_def insert_event_if_moved_def insert_event_def supersede_round_def
      advance_round_def cancel_held_evidence_def insert_round_def insert_outbox_def insert_notification_or_ignore_def Let_def
      split: if_splits)+

lemma finals_transition: "st_pres (\<lambda>db db'. finals db' = finals db) (transition_consensus_task env task tr)"
  unfolding transition_consensus_task_def
  by (intro effect_intros finals_kept.batch) (auto simp: transition_statements_def finals_statements)

lemma finals_new_round: "st_pres (\<lambda>db db'. finals db' = finals db) (db_batch (reissue_statements reissued rnd reason now))"
  by (intro finals_kept.batch) (auto simp: reissue_statements_def Let_def finals_statements)

lemma finals_pinned:
  "st_pres (\<lambda>db db'. finals db' = finals db) m \<Longrightarrow> st_pres (\<lambda>db db'. finals db = fs \<longrightarrow> finals db' = fs) m"
  "stmt_pres (\<lambda>db db'. finals db' = finals db) s \<Longrightarrow> stmt_pres (\<lambda>db db'. finals db = fs \<longrightarrow> finals db' = fs) s"
  by (auto simp: st_pres_def stmt_pres_def)

interpretation finals_pinned: transition_effect "\<lambda>db db'. finals db = fs \<longrightarrow> finals db' = fs" env "\<lambda>_. True" for fs env
  by unfold_locales (simp_all add: finals_pinned finals_transition finals_new_round finals_statements)

text \<open>Nothing is revoked when the appealed result is not the active one.\<close>

lemma revoke_nothing:
  assumes "\<forall>f \<in> set (finals db). fiPrimary f = primary \<longrightarrow> fiStatus f \<noteq> FinalActive"
  shows "revoke_final primary reason now db = (if one_active (finals db) then Inr (0, db) else Inl (Thrown SqlConstraint))"
proof -
  have p: "\<forall>f \<in> set (finals db). \<not> (fiPrimary f = primary \<and> fiStatus f = FinalActive)" using assms by blast
  then show ?thesis unfolding revoke_final_def update_finals_def Let_def by (simp add: count_rows_0 update_rows_none)
qed

lemma two_active:
  assumes "f \<in> set fs" "g \<in> set fs" "fiStatus f = FinalActive" "fiTask g = fiTask f" "p g" "fiPrimary g \<noteq> fiPrimary f"
    "\<And>x. fiStatus (act x) = FinalActive \<and> fiTask (act x) = fiTask x \<and> fiPrimary (act x) = fiPrimary x"
  shows "\<not> one_active (update_rows p act fs)"
proof
  assume "one_active (update_rows p act fs)"
  then have d: "inj_on fiTask (set (filter (\<lambda>f. fiStatus f = FinalActive) (update_rows p act fs)))"
    by (simp add: one_active_def distinct_map)
  let ?f = "if p f then act f else f"
  have "?f \<in> set (update_rows p act fs)" "act g \<in> set (update_rows p act fs)"
    using assms(1,2,5) by (auto simp: update_rows_def image_iff)
  moreover have "fiStatus ?f = FinalActive" "fiTask ?f = fiTask f" "fiPrimary ?f = fiPrimary f" using assms(3,7) by simp_all
  moreover have "fiStatus (act g) = FinalActive" "fiTask (act g) = fiTask f" "fiPrimary (act g) \<noteq> fiPrimary f"
    using assms(4,6,7) by simp_all
  ultimately show False using inj_onD[OF d, of ?f "act g"] by auto
qed



end
