(* ===== verification/Receipts.thy ===== *)
theory Receipts
  imports Governance Intake Json
begin

text \<open>
  \<open>receiveRepositoryReceipt\<close> of \<open>src/index.js\<close>: the signed receipts by which the repository reports
  that it merged a final result, a piece of evidence or a task state. The keyed digest and
  \<open>Date.parse\<close> are arguments; a configured channel has its secret.
\<close>

section \<open>Envelopes\<close>

record receipt_config =
  rxConfigured :: bool
  rxMac :: "ustr \<Rightarrow> ustr"
  rxRepository :: ustr
  rxDate :: "jsv \<Rightarrow> int option"

definition SHA1_PATTERN :: rx where
  "SHA1_PATTERN = rtimes 40 (RCls lower_hex)"

definition RECEIPT_NAME_PATTERN :: rx where
  "RECEIPT_NAME_PATTERN = IDENTIFIER_PATTERN 0 199"

definition STATE_PATTERN :: rx where
  "STATE_PATTERN = RSeq (RCls (rng CHR ''a'' CHR ''z'')) (rrange 1 31 (RCls (\<lambda>c. rng CHR ''a'' CHR ''z'' c \<or> one_of ''-'' c)))"

text \<open>A chain of \<open>||\<close>: the conditions that must hold, in order.\<close>

fun all_checks :: "bool answer list \<Rightarrow> bool answer" where
  "all_checks [] = Inr True"
| "all_checks (c # cs) = sbind c (\<lambda>b. if b then all_checks cs else Inr False)"

definition matches_text :: "rx \<Rightarrow> jsv \<Rightarrow> bool" where
  "matches_text r v = (case v of JStr s \<Rightarrow> matches r s | _ \<Rightarrow> False)"

definition positive_integer :: "jsv \<Rightarrow> bool" where
  "positive_integer v \<longleftrightarrow> js_is_safe_integer v \<and> (case v of JNum n \<Rightarrow> 1 \<le> n | _ \<Rightarrow> False)"

definition optional_positive :: "jsv \<Rightarrow> bool" where
  "optional_positive v \<longleftrightarrow> v = JNull \<or> v = JUndef \<or> positive_integer v"

text \<open>\<open>const { hmacSha256: signature, ...envelope } = signed || {}\<close>\<close>

definition envelope_of :: "jsv \<Rightarrow> jsv" where
  "envelope_of parcel = (case parcel of JObj kvs \<Rightarrow> JObj (filter (\<lambda>kv. fst kv \<noteq> u ''hmacSha256'') kvs) | _ \<Rightarrow> JObj [])"

definition signature_of :: "jsv \<Rightarrow> jsv" where
  "signature_of parcel = (case parcel of JObj kvs \<Rightarrow> dot parcel ''hmacSha256'' | _ \<Rightarrow> JUndef)"

definition DAY_MS :: int where "DAY_MS = 24 * 60 * 60 * 1000"

definition within_day :: "int \<Rightarrow> int option \<Rightarrow> bool" where
  "within_day now t = (case t of None \<Rightarrow> False | Some t \<Rightarrow> \<bar>now - t\<bar> \<le> DAY_MS)"

definition repository_fields :: "receipt_config \<Rightarrow> jsv \<Rightarrow> jsv \<Rightarrow> bool answer list" where
  "repository_fields cfg envelope signature =
    [test_or_empty SHA1_PATTERN (dot envelope ''prMergeSha''), test_or_empty SHA1_PATTERN (dot envelope ''importerCommitSha''),
     test_or_empty SHA256_PATTERN signature]"

definition repository_receipt_ok :: "receipt_config \<Rightarrow> jsv \<Rightarrow> jsv \<Rightarrow> bool answer" where
  "repository_receipt_ok cfg e signature = all_checks
    [Inr (is_uuid (dot e ''receiptId'')), Inr (matches_text RECEIPT_NAME_PATTERN (dot e ''taskVersionId'')),
     Inr (matches_text RECEIPT_NAME_PATTERN (dot e ''roundId'')), Inr (matches_text RECEIPT_NAME_PATTERN (dot e ''nonce'')),
     test_or_empty SHA256_PATTERN (dot e ''finalMerkleRoot''), test_or_empty SHA1_PATTERN (dot e ''prMergeSha''),
     test_or_empty SHA1_PATTERN (dot e ''importerCommitSha''), Inr (positive_integer (dot e ''prNumber'')),
     Inr (optional_positive (dot e ''issueNumber'')), Inr (strict_eq (dot e ''repository'') (JStr (rxRepository cfg))),
     test_or_empty SHA256_PATTERN signature]"

definition repository_times_ok :: "receipt_config \<Rightarrow> int \<Rightarrow> jsv \<Rightarrow> bool" where
  "repository_times_ok cfg now e =
    (case (rxDate cfg (dot e ''receivedAtUtc''), rxDate cfg (dot e ''acceptedAtUtc'')) of
       (Some received, Some accepted) \<Rightarrow> \<bar>now - received\<bar> \<le> DAY_MS \<and> received \<le> accepted \<and> accepted \<le> now + 5 * 60 * 1000
     | _ \<Rightarrow> False)"

definition validate_repository_receipt :: "env \<Rightarrow> receipt_config \<Rightarrow> jsv \<Rightarrow> jsv \<Rightarrow> unit db" where
  "validate_repository_receipt env cfg e signature =
    st_bind (st_lift (repository_receipt_ok cfg e signature)) (\<lambda>ok.
    st_bind (st_ensure ok (public_error 400 ReceiptMalformed)) (\<lambda>_.
    st_bind (date_now env) (\<lambda>now.
    st_ensure (repository_times_ok cfg now e) (public_error 400 ReceiptTiming))))"

definition evidence_receipt_ok :: "receipt_config \<Rightarrow> int \<Rightarrow> jsv \<Rightarrow> jsv \<Rightarrow> bool answer" where
  "evidence_receipt_ok cfg now e signature = all_checks
    ([Inr (is_uuid (dot e ''receiptId'')), Inr (str_is (dot e ''evidenceKind'') ''submission'' \<or> str_is (dot e ''evidenceKind'') ''comment''),
      Inr (is_uuid (dot e ''relatedId'')), Inr (strict_eq (dot e ''repository'') (JStr (rxRepository cfg))),
      Inr (positive_integer (dot e ''prNumber''))]
     @ repository_fields cfg e signature @ [Inr (within_day now (rxDate cfg (dot e ''acceptedAtUtc'')))])"

definition validate_evidence_receipt :: "env \<Rightarrow> receipt_config \<Rightarrow> jsv \<Rightarrow> jsv \<Rightarrow> unit db" where
  "validate_evidence_receipt env cfg e signature =
    st_bind (date_now env) (\<lambda>now.
    st_bind (st_lift (evidence_receipt_ok cfg now e signature)) (\<lambda>ok.
    st_ensure ok (public_error 400 ReceiptMalformed)))"

definition state_receipt_ok :: "receipt_config \<Rightarrow> int \<Rightarrow> jsv \<Rightarrow> jsv \<Rightarrow> bool answer" where
  "state_receipt_ok cfg now e signature = all_checks
    ([Inr (is_uuid (dot e ''receiptId'')), Inr (matches_text RECEIPT_NAME_PATTERN (dot e ''taskVersionId'')),
      Inr (matches_text RECEIPT_NAME_PATTERN (dot e ''eventId'')), Inr (matches_text STATE_PATTERN (dot e ''toState'')),
      Inr (\<not> str_is (dot e ''toState'') ''approved''),
      Inr (js_is_safe_integer (dot e ''stateVersion'') \<and> (case dot e ''stateVersion'' of JNum n \<Rightarrow> 0 \<le> n | _ \<Rightarrow> False)),
      Inr (strict_eq (dot e ''repository'') (JStr (rxRepository cfg))), Inr (positive_integer (dot e ''prNumber'')),
      Inr (optional_positive (dot e ''issueNumber''))]
     @ repository_fields cfg e signature @ [Inr (within_day now (rxDate cfg (dot e ''acceptedAtUtc'')))])"

definition validate_state_receipt :: "env \<Rightarrow> receipt_config \<Rightarrow> jsv \<Rightarrow> jsv \<Rightarrow> unit db" where
  "validate_state_receipt env cfg e signature =
    st_bind (date_now env) (\<lambda>now.
    st_bind (st_lift (state_receipt_ok cfg now e signature)) (\<lambda>ok.
    st_ensure ok (public_error 400 ReceiptMalformed)))"

definition receipt_signed :: "receipt_config \<Rightarrow> jsv \<Rightarrow> jsv \<Rightarrow> bool" where
  "receipt_signed cfg e signature \<longleftrightarrow> matches_text SHA256_PATTERN signature \<and> JStr (rxMac cfg (json_text e)) = signature"

section \<open>A merged result\<close>

definition approval_event :: "jsv \<Rightarrow> cdb \<Rightarrow> event_row option" where
  "approval_event e db = List.find (\<lambda>x. JStr (evId x) = dot e ''nonce'' \<and> JStr (evTask x) = dot e ''taskVersionId''
     \<and> jopt (evRound x) = dot e ''roundId'' \<and> evTo x = Approved) (events db)"

definition merged_final :: "jsv \<Rightarrow> cdb \<Rightarrow> final_row option" where
  "merged_final e db = (case approval_event e db of None \<Rightarrow> None
     | Some _ \<Rightarrow> List.find (\<lambda>f. JStr (fiTask f) = dot e ''taskVersionId'' \<and> JStr (fiRound f) = dot e ''roundId''
         \<and> JStr (fiRoot f) = dot e ''finalMerkleRoot'' \<and> fiStatus f = FinalActive) (finals db))"

definition the_integer :: "jsv \<Rightarrow> int" where
  "the_integer v = (case v of JNum n \<Rightarrow> \<lfloor>n\<rfloor> | _ \<Rightarrow> 0)"

definition issue_number :: "jsv \<Rightarrow> int option" where
  "issue_number e = (if nullish (dot e ''issueNumber'') then None else Some (the_integer (dot e ''issueNumber'')))"

definition merge_receipt_row :: "jsv \<Rightarrow> receipt_row" where
  "merge_receipt_row e = \<lparr>rcId = js_string (dot e ''receiptId''), rcTask = js_string (dot e ''taskVersionId''),
     rcRound = js_string (dot e ''roundId''), rcRoot = js_string (dot e ''finalMerkleRoot''),
     rcNonce = js_string (dot e ''nonce''), rcPrNumber = the_integer (dot e ''prNumber''),
     rcMergeSha = js_string (dot e ''prMergeSha''), rcImporterSha = js_string (dot e ''importerCommitSha'')\<rparr>"

definition mark_accepted :: "jsv \<Rightarrow> ustr \<Rightarrow> int \<Rightarrow> stmt" where
  "mark_accepted e primary now db =
    (let p = (\<lambda>t. JStr (tvId t) = dot e ''taskVersionId'' \<and> tvState t = Approved \<and> tvActiveFinal t = Some primary) in
     Inr (count_rows p (taskVersions db), db\<lparr>taskVersions := update_rows p
       (\<lambda>t. t\<lparr>tvRepositoryStatus := RepoAccepted,
          tvGithubIssue := (case issue_number e of Some n \<Rightarrow> Some n | None \<Rightarrow> tvGithubIssue t), tvUpdatedAt := now\<rparr>)
       (taskVersions db)\<rparr>))"

definition mark_sent :: "(outbox_row \<Rightarrow> bool) \<Rightarrow> int \<Rightarrow> stmt" where
  "mark_sent p acceptedAt db = Inr (count_rows p (outbox db), db\<lparr>outbox := update_rows p
     (\<lambda>x. x\<lparr>obStatus := Sent, obSentAt := (case obSentAt x of Some t \<Rightarrow> Some t | None \<Rightarrow> Some acceptedAt),
        obLastError := None\<rparr>) (outbox db)\<rparr>)"

record receipt_answer =
  raReceipt :: ustr
  raState :: "task_state option"

definition stored_merge_receipt :: "jsv \<Rightarrow> cdb \<Rightarrow> receipt_row option" where
  "stored_merge_receipt e db = List.find (\<lambda>r. JStr (rcTask r) = dot e ''taskVersionId''
     \<and> JStr (rcRoot r) = dot e ''finalMerkleRoot'' \<and> JStr (rcNonce r) = dot e ''nonce'') (receipts db)"

definition accept_repository_receipt :: "env \<Rightarrow> receipt_config \<Rightarrow> jsv \<Rightarrow> receipt_answer db" where
  "accept_repository_receipt env cfg e =
    st_bind (st_get (merged_final e)) (\<lambda>found.
    (case found of None \<Rightarrow> st_throw (public_error 409 ReceiptUnbound) | Some f \<Rightarrow>
     let acceptedAt = (case rxDate cfg (dot e ''acceptedAtUtc'') of None \<Rightarrow> 0 | Some t \<Rightarrow> t) in
     st_bind (date_now env) (\<lambda>now.
     st_bind (db_batch [insert_receipt_or_ignore (merge_receipt_row e), mark_accepted e (fiPrimary f) now,
        mark_sent (\<lambda>x. obKind x = TaskStateEvidence \<and> JStr (obRelated x) = dot e ''nonce'') acceptedAt]) (\<lambda>_.
     st_bind (st_get (stored_merge_receipt e)) (\<lambda>stored.
     (case stored of None \<Rightarrow> st_throw (public_error 409 ReceiptConflict) | Some r \<Rightarrow>
       st_bind (attempt_publish_task env (js_string (dot e ''taskVersionId''))) (\<lambda>task.
       st_return \<lparr>raReceipt = rcId r, raState = Some (case task of Some t \<Rightarrow> tvState t | None \<Rightarrow> Approved)\<rparr>)))))))"

section \<open>Merged evidence\<close>

definition evidence_kind_of :: "jsv \<Rightarrow> evidence_kind" where
  "evidence_kind_of e = (if str_is (dot e ''evidenceKind'') ''submission'' then SubmissionEvidence else CommentEvidence)"

definition evidence_exists :: "jsv \<Rightarrow> cdb \<Rightarrow> bool" where
  "evidence_exists e db \<longleftrightarrow>
    (if evidence_kind_of e = SubmissionEvidence then \<exists>s \<in> set (submissions db). JStr (sbReceipt s) = dot e ''relatedId''
     else \<exists>c \<in> set (comments db). JStr (cmId c) = dot e ''relatedId'')"

definition mark_imported :: "jsv \<Rightarrow> stmt" where
  "mark_imported e db =
    (if evidence_kind_of e = SubmissionEvidence
     then (let p = (\<lambda>s. JStr (sbReceipt s) = dot e ''relatedId'') in
       Inr (count_rows p (submissions db), db\<lparr>submissions := update_rows p (\<lambda>s. s\<lparr>sbImported := True\<rparr>) (submissions db)\<rparr>))
     else (let p = (\<lambda>c. JStr (cmId c) = dot e ''relatedId'') in
       Inr (count_rows p (comments db), db\<lparr>comments := update_rows p (\<lambda>c. c\<lparr>cmImported := True\<rparr>) (comments db)\<rparr>)))"

definition accept_evidence_receipt :: "receipt_config \<Rightarrow> jsv \<Rightarrow> receipt_answer db" where
  "accept_evidence_receipt cfg e =
    st_bind (st_get (evidence_exists e)) (\<lambda>exists.
    st_bind (st_ensure exists (public_error 409 ReceiptUnbound)) (\<lambda>_.
    let acceptedAt = (case rxDate cfg (dot e ''acceptedAtUtc'') of None \<Rightarrow> 0 | Some t \<Rightarrow> t) in
    st_bind (db_batch [insert_evidence_receipt_or_ignore \<lparr>erId = js_string (dot e ''receiptId''), erKind = evidence_kind_of e,
          erRelated = js_string (dot e ''relatedId'')\<rparr>,
        mark_imported e,
        mark_sent (\<lambda>x. obKind x = evidence_kind_of e \<and> JStr (obRelated x) = dot e ''relatedId'') acceptedAt]) (\<lambda>_.
    st_return \<lparr>raReceipt = js_string (dot e ''receiptId''), raState = None\<rparr>)))"

section \<open>A merged task state\<close>

definition state_binding :: "jsv \<Rightarrow> cdb \<Rightarrow> (outbox_row \<times> event_row) option" where
  "state_binding e db =
    (case List.find (\<lambda>x. obKind x = TaskStateEvidence \<and> JStr (obTask x) = dot e ''taskVersionId''
        \<and> JStr (obRelated x) = dot e ''eventId''
        \<and> (\<exists>v \<in> set (events db). evId v = obRelated x \<and> evTask v = obTask x)) (outbox db) of
      None \<Rightarrow> None
    | Some x \<Rightarrow> map_option (Pair x) (List.find (\<lambda>v. evId v = obRelated x \<and> evTask v = obTask x) (events db)))"

definition state_matches :: "jsv \<Rightarrow> jsv \<Rightarrow> event_row \<Rightarrow> bool answer" where
  "state_matches e s v = all_checks
    [Inr (str_is (dot s ''schema'') ''adg-msa-task-state-v1''), Inr (strict_eq (dot s ''eventId'') (dot e ''eventId'')),
     Inr (strict_eq (dot s ''nonce'') (dot e ''eventId'')), Inr (strict_eq (dot s ''taskVersionId'') (dot e ''taskVersionId'')),
     Inr (strict_eq (dot s ''toState'') (dot e ''toState'')),
     sbind (to_number (dot s ''stateVersion'')) (\<lambda>n. Inr (map_option JNum n = Some (dot e ''stateVersion''))),
     Inr (JStr (state_name (evTo v)) = dot e ''toState'')]"

definition receipt_binding :: "jsv \<Rightarrow> jsv list" where
  "receipt_binding e = map (dot e) [''toState'', ''stateVersion'', ''repository'', ''prNumber'', ''prMergeSha'', ''importerCommitSha'']
     @ [coalesce (dot e ''issueNumber'') JNull]"

definition note_issue :: "jsv \<Rightarrow> int \<Rightarrow> stmt" where
  "note_issue e now db =
    (let p = (\<lambda>t. JStr (tvId t) = dot e ''taskVersionId'') in
     Inr (count_rows p (taskVersions db), db\<lparr>taskVersions := update_rows p
       (\<lambda>t. t\<lparr>tvGithubIssue := (case issue_number e of Some n \<Rightarrow> Some n | None \<Rightarrow> tvGithubIssue t), tvUpdatedAt := now\<rparr>)
       (taskVersions db)\<rparr>))"

definition accept_state_receipt :: "env \<Rightarrow> receipt_config \<Rightarrow> jsv \<Rightarrow> receipt_answer db" where
  "accept_state_receipt env cfg e =
    st_bind (st_get (state_binding e)) (\<lambda>found.
    (case found of None \<Rightarrow> st_throw (public_error 409 ReceiptUnbound) | Some (x, v) \<Rightarrow>
     st_bind (st_lift (state_matches e (obPayload x) v)) (\<lambda>ok.
     st_bind (st_ensure ok (public_error 409 ReceiptUnbound)) (\<lambda>_.
     st_bind (st_get (\<lambda>db. List.find (\<lambda>r. JStr (srTask r) = dot e ''taskVersionId'' \<and> JStr (srEvent r) = dot e ''eventId'')
        (stateReceipts db))) (\<lambda>existing.
     st_bind (st_ensure (case existing of None \<Rightarrow> True | Some r \<Rightarrow> srBinding r = receipt_binding e)
        (public_error 409 ReceiptConflict)) (\<lambda>_.
     st_bind (case existing of Some r \<Rightarrow> st_return 0
       | None \<Rightarrow> db_run (insert_state_receipt \<lparr>srId = js_string (dot e ''receiptId''), srTask = js_string (dot e ''taskVersionId''),
           srEvent = js_string (dot e ''eventId''), srBinding = receipt_binding e\<rparr>)) (\<lambda>_.
     st_bind (date_now env) (\<lambda>now.
     let acceptedAt = (case rxDate cfg (dot e ''acceptedAtUtc'') of None \<Rightarrow> 0 | Some t \<Rightarrow> t) in
     st_bind (db_batch [mark_sent (\<lambda>y. obKind y = TaskStateEvidence \<and> JStr (obTask y) = dot e ''taskVersionId''
            \<and> JStr (obRelated y) = dot e ''eventId'') acceptedAt,
          note_issue e now]) (\<lambda>_.
     st_return \<lparr>raReceipt = (case existing of Some r \<Rightarrow> srId r | None \<Rightarrow> js_string (dot e ''receiptId'')), raState = None\<rparr>)))))))))"

section \<open>The handler\<close>

definition receive_signed_receipt :: "env \<Rightarrow> receipt_config \<Rightarrow> jsv \<Rightarrow> receipt_answer db" where
  "receive_signed_receipt env cfg parcel =
    (let e = envelope_of parcel; signature = signature_of parcel; schema = dot e ''schema'' in
     st_bind (if str_is schema ''adg-msa-repository-receipt-v1'' then validate_repository_receipt env cfg e signature
        else if str_is schema ''adg-msa-evidence-receipt-v1'' then validate_evidence_receipt env cfg e signature
        else if str_is schema ''adg-msa-task-state-receipt-v1'' then validate_state_receipt env cfg e signature
        else st_throw (public_error 400 ReceiptKind)) (\<lambda>_.
     st_bind (st_ensure (receipt_signed cfg e signature) (public_error 401 ReceiptSignature)) (\<lambda>_.
     if str_is schema ''adg-msa-evidence-receipt-v1'' then accept_evidence_receipt cfg e
     else if str_is schema ''adg-msa-task-state-receipt-v1'' then accept_state_receipt env cfg e
     else accept_repository_receipt env cfg e)))"

definition receive_repository_receipt :: "env \<Rightarrow> receipt_config \<Rightarrow> ustr \<Rightarrow> receipt_answer db" where
  "receive_repository_receipt env cfg body =
    (if \<not> rxConfigured cfg then st_throw (public_error 503 ReceiptChannelOff)
     else if body = [] \<or> length body > 32768 then st_throw (public_error 413 ReceiptSize)
     else (case json_parse body of None \<Rightarrow> st_throw (public_error 400 ReceiptNotJson)
       | Some parcel \<Rightarrow> receive_signed_receipt env cfg parcel))"

end
