(* ===== verification/ReceiptSafety.thy ===== *)
theory ReceiptSafety
  imports Receipts ConsensusSafety
begin

text \<open>
  What a repository receipt can do: it is a sequence of calls of the step relation of the consensus
  tables, and it is the only way in which a task version becomes accepted by the repository.
\<close>

section \<open>Receipts are calls\<close>

lemma receipt_statements:
  "stmt_pres (calls env) (mark_sent p t)" "stmt_pres (calls env) (insert_evidence_receipt_or_ignore er)"
  "stmt_pres (calls env) (insert_state_receipt sr)" "stmt_pres (calls env) (mark_imported e)"
  by (rule aside_calls, auto simp: mark_sent_def insert_evidence_receipt_or_ignore_def insert_state_receipt_def
      mark_imported_def Let_def split: if_splits)+

lemma task_note_calls:
  assumes "\<And>db n db'. s db = Inr (n, db') \<Longrightarrow> same_tasks db db' \<and> events db' = events db \<and> appeals db' = appeals db"
  shows "stmt_pres (calls env) s"
  using assms by (intro stmt_presI r_into_rtranclp call.other) blast+

lemma task_notes: "stmt_pres (calls env) (mark_accepted e primary now)" "stmt_pres (calls env) (note_issue e now)"
  by (rule task_note_calls, auto simp: mark_accepted_def note_issue_def Let_def spine_def dates_def bound_def
      intro!: same_tasksI)+

locale receipt_effect = governance_effect +
  assumes receipts: "stmt_pres R (insert_receipt_or_ignore rc)" "stmt_pres R (insert_evidence_receipt_or_ignore er)"
      "stmt_pres R (insert_state_receipt sr)"
    and marks: "stmt_pres R (mark_sent p t)" "stmt_pres R (mark_imported e)" "stmt_pres R (note_issue e now)"
begin

lemma validated: "keeps (validate_repository_receipt env cfg e signature)" "keeps (validate_evidence_receipt env cfg e signature)"
  "keeps (validate_state_receipt env cfg e signature)"
  unfolding validate_repository_receipt_def validate_evidence_receipt_def validate_state_receipt_def by (intro effect_intros)+

lemma evidence_accepted: "keeps (accept_evidence_receipt cfg e)"
  unfolding accept_evidence_receipt_def Let_def by (intro effect_intros batch) (simp add: receipts marks)

lemma state_accepted: "keeps (accept_state_receipt env cfg e)"
  unfolding accept_state_receipt_def Let_def by (intro effect_intros batch one receipts) (simp add: marks)

lemma result_accepted:
  assumes "\<And>primary now. stmt_pres R (mark_accepted e primary now)"
  shows "keeps (accept_repository_receipt env cfg e)"
  unfolding accept_repository_receipt_def Let_def
  by (intro effect_intros batch) (simp add: receipts marks assms)

lemma receipt_received:
  assumes "\<And>e primary now. stmt_pres R (mark_accepted e primary now)"
  shows "keeps (receive_repository_receipt env cfg body)"
  unfolding receive_repository_receipt_def receive_signed_receipt_def Let_def
  by (intro effect_intros validated evidence_accepted state_accepted result_accepted assms)

end

interpretation receipt_calls: receipt_effect "\<lambda>db db'. sound_env env \<longrightarrow> calls env db db'" env plain_call for env
  by unfold_locales (auto intro: stmt_pres_if_sound aside_statements receipt_statements task_notes)

text \<open>
  Receipts stay inside the step relation of the consensus tables, so the history of a task is
  its path through the state machine also when the repository's receipts arrive between requests.
\<close>

theorem receipts_are_calls:
  assumes "sound_env env"
  shows "calls env db (snd (receive_repository_receipt env cfg body db))"
  by (rule sound_keeps[OF receipt_calls.receipt_received assms]) (rule stmt_pres_if_sound, rule task_notes)

definition sample_receipts :: receipt_config where
  "sample_receipts = \<lparr>rxConfigured = True, rxMac = (\<lambda>_. replicate 64 97), rxRepository = u ''o/r'', rxDate = (\<lambda>_. Some 0)\<rparr>"

theorem receipts_are_calls_witness:
  "calls sample_env empty_db (snd (receive_repository_receipt sample_env sample_receipts (u ''null'') empty_db))"
  by (rule receipts_are_calls[OF sample_env_sound])

section \<open>Acceptance by the repository\<close>

definition accepted :: "cdb \<Rightarrow> ustr set" where
  "accepted db = {tvId t | t. t \<in> set (taskVersions db) \<and> tvRepositoryStatus t = RepoAccepted}"

lemma accepted_cong: "taskVersions db' = taskVersions db \<Longrightarrow> accepted db' = accepted db"
  by (simp add: accepted_def)

lemma accepted_update:
  assumes "taskVersions db' = update_rows p f (taskVersions db)"
    "\<And>t. tvId (f t) = tvId t" "\<And>t. tvRepositoryStatus (f t) = tvRepositoryStatus t"
  shows "accepted db' = accepted db"
proof -
  have "accepted x = fst ` {y \<in> set (map (\<lambda>t. (tvId t, tvRepositoryStatus t)) (taskVersions x)). snd y = RepoAccepted}" for x
    by (force simp: accepted_def)
  moreover have "map (\<lambda>t. (tvId t, tvRepositoryStatus t)) (taskVersions db') = map (\<lambda>t. (tvId t, tvRepositoryStatus t)) (taskVersions db)"
    unfolding assms(1) using assms(2,3) by (simp add: map_update_rows)
  ultimately show ?thesis by (simp only:)
qed

lemma accepted_rows:
  "(\<And>t. tvId (f t) = tvId t) \<Longrightarrow> (\<And>t. tvRepositoryStatus (f t) = tvRepositoryStatus t)
    \<Longrightarrow> accepted (db\<lparr>taskVersions := update_rows p f (taskVersions db)\<rparr>) = accepted db"
  by (rule accepted_update[where p = p and f = f]) simp_all

lemma accepted_aside:
  "(\<And>db n db'. s db = Inr (n, db') \<Longrightarrow> taskVersions db' = taskVersions db) \<Longrightarrow> stmt_pres (\<lambda>db db'. accepted db' \<subseteq> accepted db) s"
  using accepted_cong by (intro stmt_presI) (metis subset_refl)

interpretation acceptance: effect "\<lambda>db db'. accepted db' \<subseteq> accepted db"
  by unfold_locales (auto simp: accepted_def)

lemma acceptance_asides:
  "stmt_pres (\<lambda>db db'. accepted db' \<subseteq> accepted db) (insert_outbox b ob)"
  "stmt_pres (\<lambda>db db'. accepted db' \<subseteq> accepted db) (insert_notification_or_ignore env no)"
  "stmt_pres (\<lambda>db db'. accepted db' \<subseteq> accepted db) (insert_metrics_or_ignore me)"
  "stmt_pres (\<lambda>db db'. accepted db' \<subseteq> accepted db) (release_statement t ro ids now)"
  "stmt_pres (\<lambda>db db'. accepted db' \<subseteq> accepted db) (close_round ro now)"
  "stmt_pres (\<lambda>db db'. accepted db' \<subseteq> accepted db) (update_finals fp ff)"
  "stmt_pres (\<lambda>db db'. accepted db' \<subseteq> accepted db) (decide_appeal ai status subject reason now)"
  "stmt_pres (\<lambda>db db'. accepted db' \<subseteq> accepted db) (insert_appeal ai user primary evidence now)"
  "stmt_pres (\<lambda>db db'. accepted db' \<subseteq> accepted db) (insert_round b rr)"
  "stmt_pres (\<lambda>db db'. accepted db' \<subseteq> accepted db) (insert_event b er)"
  "stmt_pres (\<lambda>db db'. accepted db' \<subseteq> accepted db) (insert_event_if_moved er task tr)"
  "stmt_pres (\<lambda>db db'. accepted db' \<subseteq> accepted db) (supersede_round reason now i)"
  "stmt_pres (\<lambda>db db'. accepted db' \<subseteq> accepted db) (cancel_held_evidence i j)"
  "stmt_pres (\<lambda>db db'. accepted db' \<subseteq> accepted db) (insert_receipt_or_ignore rc)"
  "stmt_pres (\<lambda>db db'. accepted db' \<subseteq> accepted db) (insert_evidence_receipt_or_ignore ec)"
  "stmt_pres (\<lambda>db db'. accepted db' \<subseteq> accepted db) (insert_state_receipt sr)"
  "stmt_pres (\<lambda>db db'. accepted db' \<subseteq> accepted db) (mark_sent p ti)"
  "stmt_pres (\<lambda>db db'. accepted db' \<subseteq> accepted db) (mark_imported e)"
  by (rule accepted_aside, auto simp: insert_outbox_def insert_metrics_or_ignore_def insert_notification_or_ignore_def
      release_statement_def close_round_def update_finals_def decide_appeal_def insert_appeal_def insert_round_def
      insert_event_def insert_event_if_moved_def supersede_round_def cancel_held_evidence_def insert_receipt_or_ignore_def
      insert_evidence_receipt_or_ignore_def insert_state_receipt_def mark_sent_def mark_imported_def Let_def
      split: if_splits option.splits prod.splits)+

lemma acceptance_task_writes:
  "stmt_pres (\<lambda>db db'. accepted db' \<subseteq> accepted db) (update_task_stmt task tr i now)"
  "stmt_pres (\<lambda>db db'. accepted db' \<subseteq> accepted db) (advance_round x m n now)"
  "stmt_pres (\<lambda>db db'. accepted db' \<subseteq> accepted db) (note_issue e now)"
  by (rule stmt_presI, auto simp: update_task_stmt_def advance_round_def note_issue_def Let_def transition_row_def accepted_rows)+

lemma acceptance_new_task:
  "stmt_pres (\<lambda>db db'. accepted db' \<subseteq> accepted db) (insert_task_or_ignore env (registration_task_row i p e now))"
  by (auto simp: stmt_pres_def insert_task_or_ignore_def accepted_def registration_task_row_def split: if_splits)

lemma acceptance_transition: "st_pres (\<lambda>db db'. accepted db' \<subseteq> accepted db) (transition_consensus_task env task tr)"
  unfolding transition_consensus_task_def
  by (intro effect_intros acceptance.batch) (auto simp: transition_statements_def acceptance_asides acceptance_task_writes)

lemma acceptance_batches:
  "st_pres (\<lambda>db db'. accepted db' \<subseteq> accepted db) (db_batch (reissue_statements reissued rnd reason now))"
  "st_pres (\<lambda>db db'. accepted db' \<subseteq> accepted db) (db_batch (registration_statements env i p now))"
  by (intro acceptance.batch, auto simp: reissue_statements_def registration_statements_def Let_def acceptance_asides
      acceptance_task_writes acceptance_new_task)+

interpretation acceptance_transitions: transition_effect "\<lambda>db db'. accepted db' \<subseteq> accepted db" env "\<lambda>_. True" for env
  by unfold_locales (simp_all add: acceptance_transition acceptance_batches acceptance_asides)

lemma acceptance_publish: "st_pres (\<lambda>db db'. accepted db' \<subseteq> accepted db) (publish_now env task f r)"
  unfolding publish_now_def mark_published_def
  by (intro effect_intros acceptance_transition acceptance.one acceptance_asides acceptance_transitions.notifications
      acceptance_transitions.state_evidence)

interpretation acceptance_governed: receipt_effect "\<lambda>db db'. accepted db' \<subseteq> accepted db" env "\<lambda>_. True" for env
  by unfold_locales (simp_all add: acceptance_publish acceptance_batches acceptance_asides acceptance_task_writes revoke_final_def)

text \<open>Which tasks the batch of a repository receipt accepts.\<close>

lemma mark_accepted_new:
  assumes "mark_accepted e primary now db = Inr (n, db')" "x \<in> accepted db'" "x \<notin> accepted db"
  shows "dot e ''taskVersionId'' = JStr x
    \<and> (\<exists>t \<in> set (taskVersions db). tvId t = x \<and> tvState t = Approved \<and> tvActiveFinal t = Some primary)"
  using assms by (auto simp: mark_accepted_def Let_def accepted_def update_rows_def split: if_splits) blast+

lemma receipt_batch_new:
  assumes "x \<in> accepted (snd (db_batch [insert_receipt_or_ignore r, mark_accepted e primary now, mark_sent p at'] db))"
    "x \<notin> accepted db"
  shows "dot e ''taskVersionId'' = JStr x
    \<and> (\<exists>t \<in> set (taskVersions db). tvId t = x \<and> tvState t = Approved \<and> tvActiveFinal t = Some primary)"
proof (cases "run_batch [insert_receipt_or_ignore r, mark_accepted e primary now, mark_sent p at'] db")
  case (Inl err)
  with assms show ?thesis by (simp add: db_batch_def)
next
  case (Inr q)
  obtain ns db' where q: "q = (ns, db')" by (cases q)
  with Inr obtain n1 d1 n2 d2 n3 where b: "insert_receipt_or_ignore r db = Inr (n1, d1)"
    "mark_accepted e primary now d1 = Inr (n2, d2)" "mark_sent p at' d2 = Inr (n3, db')"
    by (auto simp: sbind_eq_Inr)
  have 1: "taskVersions d1 = taskVersions db" using b(1) by (auto simp: insert_receipt_or_ignore_def split: if_splits)
  have 3: "taskVersions db' = taskVersions d2" using b(3) by (auto simp: mark_sent_def)
  have "x \<in> accepted d2" using assms(1) Inr q accepted_cong[OF 3] by (simp add: db_batch_def)
  moreover have "x \<notin> accepted d1" using assms(2) accepted_cong[OF 1] by simp
  ultimately show ?thesis using mark_accepted_new[OF b(2)] 1 by simp
qed

lemma result_accepted_new:
  assumes "x \<in> accepted (snd (accept_repository_receipt env cfg e db))" "x \<notin> accepted db"
  shows "dot e ''taskVersionId'' = JStr x \<and> (\<exists>f. merged_final e db = Some f
    \<and> (\<exists>t \<in> set (taskVersions db). tvId t = x \<and> tvState t = Approved \<and> tvActiveFinal t = Some (fiPrimary f)))"
proof (cases "merged_final e db")
  case None
  with assms show ?thesis by (simp add: accept_repository_receipt_def st_bind_run st_simps)
next
  case (Some f)
  let ?at = "case rxDate cfg (dot e ''acceptedAtUtc'') of None \<Rightarrow> 0 | Some t \<Rightarrow> t"
  let ?now = "envClock env (ticks db)" and ?db1 = "db\<lparr>ticks := ticks db + 1\<rparr>"
  let ?batch = "db_batch [insert_receipt_or_ignore (merge_receipt_row e), mark_accepted e (fiPrimary f) ?now,
        mark_sent (\<lambda>x. obKind x = TaskStateEvidence \<and> JStr (obRelated x) = dot e ''nonce'') ?at]"
  let ?rest = "st_bind (st_get (stored_merge_receipt e)) (\<lambda>stored.
     (case stored of None \<Rightarrow> st_throw (public_error 409 ReceiptConflict) | Some r \<Rightarrow>
       st_bind (attempt_publish_task env (js_string (dot e ''taskVersionId''))) (\<lambda>task.
       st_return \<lparr>raReceipt = rcId r, raState = Some (case task of Some t \<Rightarrow> tvState t | None \<Rightarrow> Approved)\<rparr>)))"
  have "st_pres (\<lambda>db db'. accepted db' \<subseteq> accepted db) ?rest"
    by (intro effect_intros)
  then have rest: "accepted (snd (?rest d)) \<subseteq> accepted d" for d by (simp add: st_pres_def)
  have run: "snd (accept_repository_receipt env cfg e db) = snd (st_bind ?batch (\<lambda>_. ?rest) ?db1)"
    by (simp add: accept_repository_receipt_def Let_def Some st_bind_run[of "st_get _"] st_bind_run[of "date_now _"] st_simps date_now_def)
  have "accepted (snd (st_bind ?batch (\<lambda>_. ?rest) ?db1)) \<subseteq> accepted (snd (?batch ?db1))"
    unfolding st_bind_run[of ?batch] using rest by (auto split: sum.splits)
  then have "x \<in> accepted (snd (?batch ?db1))" using assms(1) run by auto
  moreover have "x \<notin> accepted ?db1" using assms(2) by (simp add: accepted_def)
  ultimately show ?thesis using receipt_batch_new[of x "merge_receipt_row e" e "fiPrimary f" ?now _ ?at ?db1] Some by simp
qed

lemma all_checks_True: "all_checks cs = Inr True \<longleftrightarrow> (\<forall>c \<in> set cs. c = Inr True)"
  by (induction cs) (auto simp: sbind_eq_Inr split: if_splits)

lemma st_throw_bind: "st_bind (st_throw e) f = st_throw e"
  by (simp add: fun_eq_iff st_bind_run st_simps)

lemma merged_final_found:
  assumes "merged_final e db = Some f"
  shows "\<exists>v \<in> set (events db). JStr (evId v) = dot e ''nonce'' \<and> JStr (evTask v) = dot e ''taskVersionId'' \<and> evTo v = Approved
     \<and> f \<in> set (finals db) \<and> JStr (fiTask f) = dot e ''taskVersionId'' \<and> JStr (fiRoot f) = dot e ''finalMerkleRoot''
     \<and> fiStatus f = FinalActive"
  using assms by (auto simp: merged_final_def approval_event_def split: option.splits dest!: find_SomeD)

text \<open>
  C6. Only the repository accepts: no governance handler ever adds a task version to the accepted
  ones, and a receipt adds one only if its signature verifies over the envelope, its times are
  sound, it names an approval event of that task, and the root of the result that is active, in the
  table and on the row of the approved task.
\<close>

theorem accepted_only_by_receipt:
  "accepted (snd (reconcile_consensus_task env i db)) \<subseteq> accepted db
    \<and> accepted (snd (attempt_publish_task env i db)) \<subseteq> accepted db
    \<and> accepted (snd (process_expired_consensus_rounds env db)) \<subseteq> accepted db
    \<and> accepted (snd (process_publishable_tasks env db)) \<subseteq> accepted db
    \<and> accepted (snd (reissue_consensus_task env subject i reason db)) \<subseteq> accepted db
    \<and> accepted (snd (review_consensus_appeal env subject i decision why db)) \<subseteq> accepted db
    \<and> (\<forall>x \<in> accepted (snd (receive_signed_receipt env cfg parcel db)) - accepted db.
        let e = envelope_of parcel in
        receipt_signed cfg e (signature_of parcel) \<and> repository_times_ok cfg (envClock env (ticks db)) e
      \<and> dot e ''repository'' = JStr (rxRepository cfg) \<and> dot e ''taskVersionId'' = JStr x
      \<and> (\<exists>v \<in> set (events db). JStr (evId v) = dot e ''nonce'' \<and> evTask v = x \<and> evTo v = Approved)
      \<and> (\<exists>f \<in> set (finals db). fiTask f = x \<and> JStr (fiRoot f) = dot e ''finalMerkleRoot'' \<and> fiStatus f = FinalActive
           \<and> (\<exists>t \<in> set (taskVersions db). tvId t = x \<and> tvState t = Approved \<and> tvActiveFinal t = Some (fiPrimary f))))"
proof -
  let ?e = "envelope_of parcel" and ?s = "signature_of parcel"
  have "receipt_signed cfg ?e ?s \<and> repository_times_ok cfg (envClock env (ticks db)) ?e
      \<and> dot ?e ''repository'' = JStr (rxRepository cfg) \<and> dot ?e ''taskVersionId'' = JStr x
      \<and> (\<exists>v \<in> set (events db). JStr (evId v) = dot ?e ''nonce'' \<and> evTask v = x \<and> evTo v = Approved)
      \<and> (\<exists>f \<in> set (finals db). fiTask f = x \<and> JStr (fiRoot f) = dot ?e ''finalMerkleRoot'' \<and> fiStatus f = FinalActive
           \<and> (\<exists>t \<in> set (taskVersions db). tvId t = x \<and> tvState t = Approved \<and> tvActiveFinal t = Some (fiPrimary f)))"
    if x: "x \<in> accepted (snd (receive_signed_receipt env cfg parcel db))" "x \<notin> accepted db" for x
  proof -
    have schema: "str_is (dot ?e ''schema'') ''adg-msa-repository-receipt-v1''"
    proof (rule ccontr)
      assume n: "\<not> str_is (dot ?e ''schema'') ''adg-msa-repository-receipt-v1''"
      have "st_pres (\<lambda>db db'. accepted db' \<subseteq> accepted db) (receive_signed_receipt env cfg parcel)"
        using n unfolding receive_signed_receipt_def Let_def
        by (cases "str_is (dot ?e ''schema'') ''adg-msa-evidence-receipt-v1''";
            cases "str_is (dot ?e ''schema'') ''adg-msa-task-state-receipt-v1''")
          (auto intro!: effect_intros acceptance_governed.validated acceptance_governed.evidence_accepted
            acceptance_governed.state_accepted simp: st_throw_bind)
      with x show False by (auto simp: st_pres_def)
    qed
    have run: "snd (receive_signed_receipt env cfg parcel db)
        = snd (st_bind (validate_repository_receipt env cfg ?e ?s) (\<lambda>_. st_bind (st_ensure (receipt_signed cfg ?e ?s)
            (public_error 401 ReceiptSignature)) (\<lambda>_. accept_repository_receipt env cfg ?e)) db)"
      using schema by (auto simp: receive_signed_receipt_def Let_def str_is_iff)
    let ?db1 = "db\<lparr>ticks := ticks db + 1\<rparr>"
    have a: "accepted ?db1 = accepted db" by (rule accepted_cong) simp
    have ok: "repository_receipt_ok cfg ?e ?s = Inr True" "repository_times_ok cfg (envClock env (ticks db)) ?e"
      "receipt_signed cfg ?e ?s" "x \<in> accepted (snd (accept_repository_receipt env cfg ?e ?db1))"
      using x a unfolding run
      by (auto simp: validate_repository_receipt_def st_bind_run st_simps date_now_def split: sum.splits if_splits)
    from result_accepted_new[OF ok(4)] x(2) a obtain f t where f: "dot ?e ''taskVersionId'' = JStr x" "merged_final ?e ?db1 = Some f"
      "t \<in> set (taskVersions db)" "tvId t = x" "tvState t = Approved" "tvActiveFinal t = Some (fiPrimary f)" by auto
    have "dot ?e ''repository'' = JStr (rxRepository cfg)"
      using ok(1) by (simp add: repository_receipt_ok_def all_checks_True del: all_checks.simps)
    with ok f merged_final_found[OF f(2)] show ?thesis by auto
  qed
  then show ?thesis
    using acceptance_governed.handlers by (auto simp: st_pres_def Let_def)
qed

definition sample_parcel :: jsv where
  "sample_parcel = JObj [(u ''hmacSha256'', JStr (replicate 64 97)), (u ''schema'', JStr (u ''adg-msa-repository-receipt-v1'')),
     (u ''receiptId'', JStr (u ''123e4567-e89b-42d3-a456-426614174000'')), (u ''taskVersionId'', JStr (u ''t:v1'')),
     (u ''roundId'', JStr (u ''r1'')), (u ''nonce'', JStr (u ''e1'')), (u ''finalMerkleRoot'', JStr (replicate 64 97)),
     (u ''prMergeSha'', JStr (replicate 40 97)), (u ''importerCommitSha'', JStr (replicate 40 97)), (u ''prNumber'', JNum 1),
     (u ''repository'', JStr (u ''o/r''))]"

definition sample_approval :: event_row where
  "sample_approval = \<lparr>evId = u ''e1'', evTask = u ''t:v1'', evRound = Some (u ''r1''), evType = [], evFrom = FinalReview,
     evTo = Approved, evActorUser = None, evActorSubject = None, evReason = [], evEvidence = JNull, evPriorStateHash = None,
     evHash = [], evKey = u ''k'', evCreatedAt = 0\<rparr>"

definition sample_confirmed :: final_row where
  "sample_confirmed = \<lparr>fiPrimary = u ''0'', fiTask = u ''t:v1'', fiRound = u ''r1'', fiSecondary = Some (u ''1''),
     fiRoot = replicate 64 97, fiStatus = FinalActive, fiProposedAt = 0, fiApprovedAt = Some 0, fiPublishedAt = None,
     fiRevokedAt = None, fiRevocationReason = None\<rparr>"

definition sample_approved_db :: cdb where
  "sample_approved_db = empty_db\<lparr>events := [sample_approval], finals := [sample_confirmed],
     taskVersions := [(registration_task_row sample_identity JNull (u ''e1'') 0)\<lparr>tvState := Approved, tvActiveFinal := Some (u ''0'')\<rparr>]\<rparr>"

lemma sample_receipt_ok: "repository_receipt_ok sample_receipts (envelope_of sample_parcel) (signature_of sample_parcel) = Inr True"
  by code_simp

lemma sample_receipt_accepts:
  "u ''t:v1'' \<in> accepted (snd (receive_signed_receipt sample_env sample_receipts sample_parcel sample_approved_db))"
proof -
  have s: "receipt_signed sample_receipts (envelope_of sample_parcel) (signature_of sample_parcel)"
  proof -
    have "matches SHA256_PATTERN (replicate 64 97)" by code_simp
    then show ?thesis
      by (simp add: receipt_signed_def matches_text_def signature_of_def sample_parcel_def sample_receipts_def)
  qed
  let ?e = "envelope_of sample_parcel" and ?db = "sample_approved_db\<lparr>ticks := Suc (ticks sample_approved_db)\<rparr>"
  have d: "dot ?e ''schema'' = JStr (u ''adg-msa-repository-receipt-v1'')" "dot ?e ''taskVersionId'' = JStr (u ''t:v1'')"
    "dot ?e ''roundId'' = JStr (u ''r1'')" "dot ?e ''nonce'' = JStr (u ''e1'')" "dot ?e ''finalMerkleRoot'' = JStr (replicate 64 97)"
    by (simp_all add: envelope_of_def sample_parcel_def)
  have times: "repository_times_ok sample_receipts n ?e \<longleftrightarrow> \<bar>n\<bar> \<le> DAY_MS \<and> 0 \<le> n + 300000" for n
    by (simp add: repository_times_ok_def sample_receipts_def)
  have m: "merged_final ?e ?db = Some sample_confirmed"
    by (simp add: merged_final_def approval_event_def d sample_approved_db_def sample_approval_def sample_confirmed_def jopt_def)
  have "u ''t:v1'' \<in> accepted (snd (accept_repository_receipt sample_env sample_receipts ?e ?db))"
    by (simp add: accept_repository_receipt_def st_bind_run st_simps m Let_def date_now_def db_batch_def sbind_def
        insert_receipt_or_ignore_def mark_accepted_def mark_sent_def)
      (simp add: sample_approved_db_def empty_db_def d update_rows_def sample_confirmed_def registration_task_row_def
        sample_identity_def stored_merge_receipt_def merge_receipt_row_def js_string_def attempt_publish_task_def
        get_consensus_task_def st_bind_run st_simps date_now_def publishable_def accepted_def)
  then show ?thesis
    using d times by (simp add: receive_signed_receipt_def st_bind_run st_simps validate_repository_receipt_def sample_receipt_ok s
        date_now_def Let_def sample_env_def sample_approved_db_def empty_db_def DAY_MS_def)
qed

theorem accepted_only_by_receipt_witness:
  "u ''t:v1'' \<in> accepted (snd (receive_signed_receipt sample_env sample_receipts sample_parcel sample_approved_db))
   \<and> receipt_signed sample_receipts (envelope_of sample_parcel) (signature_of sample_parcel)"
proof -
  have new: "u ''t:v1'' \<notin> accepted sample_approved_db"
    by (simp add: accepted_def sample_approved_db_def registration_task_row_def)
  have "\<forall>x \<in> accepted (snd (receive_signed_receipt sample_env sample_receipts sample_parcel sample_approved_db))
      - accepted sample_approved_db. receipt_signed sample_receipts (envelope_of sample_parcel) (signature_of sample_parcel)"
    using accepted_only_by_receipt[where env = sample_env and db = sample_approved_db and parcel = sample_parcel
        and cfg = sample_receipts] by (auto simp: Let_def)
  with sample_receipt_accepts new show ?thesis by blast
qed

end
