(* ===== verification/IssueReporting.thy ===== *)
theory IssueReporting
  imports Protocol JsText Verification
begin

text \<open>
  \<open>src/issue-reporting.js\<close>: validation of an anonymous fault report, the payload published for it,
  its title, its marker and its Markdown text. The Arabic texts are lists of code units, and whether
  \<open>Date.parse\<close> reads a time stamp is an argument.
\<close>

section \<open>Vocabulary\<close>

datatype issue_error =
    ReportIncomplete | CategoryInvalid | SummaryInvalid | DetailsInvalid | StepsInvalid
  | LinkOrCredential | ReportUnsafe | ContextInvalid | ContextTaskInvalid
  | PayloadUnbuildable | PayloadInvalid | ReportIdInvalid

type_synonym 'a report = "issue_error thrown + 'a"

definition REPORT_SCHEMA :: jsv where
  "REPORT_SCHEMA = JStr (u ''adg-portal-issue-report-v1'')"

definition PORTAL_ISSUE_CATEGORIES :: "(ustr \<times> ustr) list" where
  "PORTAL_ISSUE_CATEGORIES =
    [(u ''access'', [1575, 1604, 1583, 1582, 1608, 1604, 32, 1571, 1608, 32, 1605, 1601, 1578, 1575,
       1581, 32, 1575, 1604, 1605, 1585, 1608, 1585]),
     (u ''task-inbox'', [1602, 1575, 1574, 1605, 1577, 32, 1575, 1604, 1605, 1607, 1575, 1605, 32, 1571,
       1608, 32, 1601, 1578, 1581, 32, 1575, 1604, 1605, 1607, 1605, 1577]),
     (u ''autosave'', [1575, 1604, 1581, 1601, 1592, 32, 1575, 1604, 1578, 1604, 1602, 1575, 1574, 1610,
       32, 1571, 1608, 32, 1575, 1587, 1578, 1593, 1575, 1583, 1577, 32, 1575, 1604, 1605, 1587, 1608,
       1583, 1577]),
     (u ''adjudication'', [1608, 1575, 1580, 1607, 1577, 32, 1575, 1604, 1578, 1581, 1604, 1610, 1604,
       32, 1571, 1608, 32, 1575, 1604, 1581, 1602, 1608, 1604, 32, 1575, 1604, 1604, 1594, 1608, 1610,
       1577]),
     (u ''submission'', [1605, 1585, 1575, 1580, 1593, 1577, 32, 1575, 1604, 1606, 1578, 1610, 1580,
       1577, 32, 1571, 1608, 32, 1575, 1604, 1573, 1585, 1587, 1575, 1604]),
     (u ''display'', [1575, 1604, 1593, 1585, 1590, 32, 1571, 1608, 32, 1575, 1604, 1578, 1608, 1575,
       1601, 1602, 32, 1605, 1593, 32, 1575, 1604, 1580, 1607, 1575, 1586]),
     (u ''other'', [1582, 1604, 1604, 32, 1570, 1582, 1585])]"

definition REPORT_INPUT_KEYS :: "string list" where
  "REPORT_INPUT_KEYS = [''schema'', ''reportId'', ''category'', ''summary'', ''details'', ''reproductionSteps'',
     ''privacyConfirmed'', ''context'']"

definition REPORT_CONTEXT_KEYS :: "string list" where
  "REPORT_CONTEXT_KEYS = [''portalVersion'', ''step'', ''taskVersionId'', ''taskLane'', ''operationalMode'']"

definition REPORT_PUBLIC_PAYLOAD_KEYS :: "string list" where
  "REPORT_PUBLIC_PAYLOAD_KEYS = [''schema'', ''reportId'', ''category'', ''categoryLabelAr'', ''summary'', ''details'',
     ''reproductionSteps'', ''context'', ''createdAtUtc'']"

definition CREDENTIAL_PATTERN :: rx where
  "CREDENTIAL_PATTERN = ralt
     [rseq [rlit ''gh'', RCls (one_of ''pousr''), rlit ''_'', ratleast 20 (RCls (\<lambda>c. alnum c \<or> c = of_char CHR ''_''))],
      rseq [rlit ''sk-'', ratleast 20 (RCls (\<lambda>c. alnum c \<or> one_of ''_-'' c))],
      rseq [rlit ''Bearer'', ratleast 1 (RCls js_space), ratleast 12 (RCls (\<lambda>c. alnum c \<or> one_of ''._~+/-'' c))]]"

definition URL_PATTERN :: rx where
  "URL_PATTERN = RAlt (rseq [rilit ''http'', ropt (rilit ''s''), rlit ''://'']) (rseq [rilit ''www'', rlit ''.''])"

definition REPORT_ID_PATTERN :: rx where
  "REPORT_ID_PATTERN = UUID_PATTERN (rng CHR ''1'' CHR ''5'')"

definition TASK_ID_PATTERN :: rx where
  "TASK_ID_PATTERN = IDENTIFIER_PATTERN 2 200"

definition VERSION_PATTERN :: rx where
  "VERSION_PATTERN = rseq [rrange 1 3 (RCls digit), rlit ''.'', rrange 1 3 (RCls digit), rlit ''.'', rrange 1 3 (RCls digit)]"

definition is_report_id :: "jsv \<Rightarrow> bool" where
  "is_report_id v = (case v of JStr s \<Rightarrow> matches REPORT_ID_PATTERN s | _ \<Rightarrow> False)"

definition has_unknown_keys :: "jsv \<Rightarrow> string list \<Rightarrow> bool" where
  "has_unknown_keys v allowed = (case v of JObj kvs \<Rightarrow> list_ex (\<lambda>kv. fst kv \<notin> set (map u allowed)) kvs | _ \<Rightarrow> False)"

section \<open>Fields\<close>

definition fits :: "nat \<Rightarrow> nat \<Rightarrow> ustr \<Rightarrow> bool" where
  "fits minimum maximum s \<longleftrightarrow> minimum \<le> length s \<and> length s \<le> maximum"

definition blank_char :: "nat \<Rightarrow> bool" where
  "blank_char c \<longleftrightarrow> c = 32 \<or> c = 9"

definition single_line :: "issue_error \<Rightarrow> nat \<Rightarrow> nat \<Rightarrow> jsv \<Rightarrow> ustr report" where
  "single_line err minimum maximum value =
    sbind (text_or_empty value) (\<lambda>s. let normalized = collapse blank_char (js_trim s) in
    if fits minimum maximum normalized \<and> 13 \<notin> set normalized \<and> 10 \<notin> set normalized
    then Inr normalized else Inl (Thrown err))"

definition multiline :: "issue_error \<Rightarrow> nat \<Rightarrow> nat \<Rightarrow> jsv \<Rightarrow> ustr report" where
  "multiline err minimum maximum value =
    sbind (text_or_empty value) (\<lambda>s. let normalized = js_trim (unify_newlines s) in
    if fits minimum maximum normalized then Inr normalized else Inl (Thrown err))"

definition optional_multiline :: "issue_error \<Rightarrow> nat \<Rightarrow> jsv \<Rightarrow> ustr option report" where
  "optional_multiline err maximum value =
    (if nullish value then Inr None
     else sbind (to_string value) (\<lambda>s. if js_trim s = [] then Inr None
       else sbind (multiline err 1 maximum value) (\<lambda>r. Inr (Some r))))"

definition jopt_text :: "ustr option \<Rightarrow> jsv" where
  "jopt_text x = (case x of None \<Rightarrow> JNull | Some s \<Rightarrow> JStr s)"

text \<open>\<open>values.filter(Boolean).join("\n")\<close>\<close>

definition report_text :: "ustr list \<Rightarrow> ustr" where
  "report_text values = join_with [10] (filter (\<lambda>s. s \<noteq> []) values)"

definition link_or_credential :: "ustr \<Rightarrow> bool" where
  "link_or_credential s \<longleftrightarrow> rx_test URL_PATTERN s
     \<or> rx_search (boundary word_char) (boundary word_char) CREDENTIAL_PATTERN s"

definition validate_report_text :: "ustr \<Rightarrow> ustr \<Rightarrow> ustr option \<Rightarrow> unit report" where
  "validate_report_text summary details steps =
    (if link_or_credential (report_text ([summary, details] @ (case steps of None \<Rightarrow> [] | Some s \<Rightarrow> [s])))
     then Inl (Thrown LinkOrCredential)
     else case validate_public_artifact_text (JObj [(u ''note'', JStr summary), (u ''rationale'', JStr details),
         (u ''resolutionNote'', jopt_text steps)]) of
       Inr _ \<Rightarrow> Inr () | Inl e \<Rightarrow> Inl (Thrown ReportUnsafe))"

section \<open>Reports\<close>

definition context_ok :: "jsv \<Rightarrow> bool report" where
  "context_ok v =
    (if \<not> js_is_plain_object v \<or> has_unknown_keys v REPORT_CONTEXT_KEYS then Inr False
     else sbind (text_or_empty (dot v ''portalVersion'')) (\<lambda>version.
       Inr (matches VERSION_PATTERN version \<and> js_is_safe_integer (dot v ''step'')
         \<and> (case dot v ''step'' of JNum n \<Rightarrow> 1 \<le> n \<and> n \<le> 5 | _ \<Rightarrow> False)
         \<and> coalesce (dot v ''taskLane'') JNull \<in> {JNull, JStr (u ''standard''), JStr (u ''operational-test'')}
         \<and> (dot v ''operationalMode'' = JBool True \<or> dot v ''operationalMode'' = JBool False))))"

definition validate_portal_issue_context :: "jsv \<Rightarrow> jsv report" where
  "validate_portal_issue_context v =
    sbind (context_ok v) (\<lambda>ok. if \<not> ok then Inl (Thrown ContextInvalid)
    else let taskVersionId = coalesce (dot v ''taskVersionId'') JNull in
      sbind (if taskVersionId = JNull then Inr True
         else sbind (to_string taskVersionId) (\<lambda>s. Inr (matches TASK_ID_PATTERN s))) (\<lambda>named.
      if \<not> named then Inl (Thrown ContextTaskInvalid)
      else Inr (JObj [(u ''portalVersion'', dot v ''portalVersion''), (u ''step'', dot v ''step''),
        (u ''taskVersionId'', taskVersionId), (u ''taskLane'', coalesce (dot v ''taskLane'') JNull),
        (u ''operationalMode'', dot v ''operationalMode'')])))"

text \<open>\<open>PORTAL_ISSUE_CATEGORIES[category]\<close>, an own property or nothing.\<close>

definition category_label :: "jsv \<Rightarrow> ustr option report" where
  "category_label category = sbind (to_string category) (\<lambda>k. Inr (map_of PORTAL_ISSUE_CATEGORIES k))"

definition validate_portal_issue_report_input :: "jsv \<Rightarrow> jsv report" where
  "validate_portal_issue_report_input v =
    (if \<not> js_is_plain_object v \<or> \<not> strict_eq (dot v ''schema'') REPORT_SCHEMA
        \<or> \<not> is_report_id (dot v ''reportId'') \<or> dot v ''privacyConfirmed'' \<noteq> JBool True
        \<or> has_unknown_keys v REPORT_INPUT_KEYS then Inl (Thrown ReportIncomplete)
     else sbind (category_label (dot v ''category'')) (\<lambda>label.
     if label = None then Inl (Thrown CategoryInvalid)
     else sbind (single_line SummaryInvalid 10 160 (dot v ''summary'')) (\<lambda>summary.
     sbind (multiline DetailsInvalid 20 4000 (dot v ''details'')) (\<lambda>details.
     sbind (optional_multiline StepsInvalid 2000 (dot v ''reproductionSteps'')) (\<lambda>steps.
     sbind (validate_report_text summary details steps) (\<lambda>_.
     sbind (validate_portal_issue_context (dot v ''context'')) (\<lambda>context.
     Inr (JObj [(u ''reportId'', dot v ''reportId''), (u ''category'', dot v ''category''),
       (u ''summary'', JStr summary), (u ''details'', JStr details),
       (u ''reproductionSteps'', jopt_text steps), (u ''context'', context)]))))))))"

section \<open>The published payload\<close>

definition build_portal_issue_public_payload :: "(jsv \<Rightarrow> bool) \<Rightarrow> jsv \<Rightarrow> jsv \<Rightarrow> jsv report" where
  "build_portal_issue_public_payload date_ok input createdAtUtc =
    (if \<not> truthy input \<or> \<not> date_ok createdAtUtc then Inl (Thrown PayloadUnbuildable)
     else sbind (category_label (dot input ''category'')) (\<lambda>label.
     Inr (JObj [(u ''schema'', REPORT_SCHEMA), (u ''reportId'', dot input ''reportId''),
       (u ''category'', dot input ''category''),
       (u ''categoryLabelAr'', case label of None \<Rightarrow> JUndef | Some s \<Rightarrow> JStr s),
       (u ''summary'', dot input ''summary''), (u ''details'', dot input ''details''),
       (u ''reproductionSteps'', dot input ''reproductionSteps''), (u ''context'', dot input ''context''),
       (u ''createdAtUtc'', createdAtUtc)])))"

definition payload_ok :: "(jsv \<Rightarrow> bool) \<Rightarrow> jsv \<Rightarrow> bool report" where
  "payload_ok date_ok v =
    (if \<not> js_is_plain_object v \<or> \<not> strict_eq (dot v ''schema'') REPORT_SCHEMA \<or> \<not> is_report_id (dot v ''reportId'')
        \<or> has_unknown_keys v REPORT_PUBLIC_PAYLOAD_KEYS then Inr False
     else sbind (category_label (dot v ''category'')) (\<lambda>label.
       Inr (case label of None \<Rightarrow> False
         | Some s \<Rightarrow> dot v ''categoryLabelAr'' = JStr s \<and> date_ok (dot v ''createdAtUtc''))))"

definition payload_input :: "jsv \<Rightarrow> jsv" where
  "payload_input v = JObj [(u ''schema'', REPORT_SCHEMA), (u ''reportId'', dot v ''reportId''),
     (u ''category'', dot v ''category''), (u ''summary'', dot v ''summary''), (u ''details'', dot v ''details''),
     (u ''reproductionSteps'', dot v ''reproductionSteps''), (u ''privacyConfirmed'', JBool True),
     (u ''context'', dot v ''context'')]"

definition validate_portal_issue_public_payload :: "(jsv \<Rightarrow> bool) \<Rightarrow> jsv \<Rightarrow> jsv report" where
  "validate_portal_issue_public_payload date_ok v =
    sbind (payload_ok date_ok v) (\<lambda>ok. if \<not> ok then Inl (Thrown PayloadInvalid)
    else sbind (validate_portal_issue_report_input (payload_input v)) (\<lambda>input.
      build_portal_issue_public_payload date_ok input (dot v ''createdAtUtc'')))"

definition portal_issue_report_marker :: "jsv \<Rightarrow> ustr report" where
  "portal_issue_report_marker reportId =
    (if \<not> is_report_id reportId then Inl (Thrown ReportIdInvalid)
     else Inr (u ''adg-portal-report-id:'' @ js_string reportId))"

section \<open>Title and text\<close>

definition escape_markdown :: "ustr \<Rightarrow> ustr" where
  "escape_markdown s = subst_chars (\<lambda>c. if c = 96 \<or> one_of ''*_[]<>#@|'' c then [92, c] else [c])
     (subst_chars (\<lambda>c. if c = 92 then [92, 92] else [c]) s)"

definition escape_inline_code :: "ustr \<Rightarrow> ustr" where
  "escape_inline_code s = filter (\<lambda>c. c \<noteq> 96) s"

definition TXT_TITLE :: ustr where
  "TXT_TITLE = [91, 1576, 1608, 1575, 1576, 1577, 32, 1575, 1604, 1578, 1581, 1603, 1610, 1605, 93, 32]"

definition TXT_HEADING :: ustr where
  "TXT_HEADING = u ''## '' @ [1576, 1604, 1575, 1594, 32, 1605, 1606, 32, 1605, 1606, 1589, 1617, 1577, 32, 1578, 1581, 1603,
     1610, 1605, 32, 1575, 1604, 1604, 1594, 1577, 32, 1575, 1604, 1593, 1585, 1576, 1610, 1577]"

definition TXT_NOTICE :: ustr where
  "TXT_NOTICE = [62, 32, 1571, 1615, 1585, 1587, 1604, 32, 1607, 1584, 1575, 32, 1575, 1604, 1576, 1604, 1575, 1594, 32,
     1570, 1604, 1610, 1611, 1575, 32, 1605, 1606, 32, 1575, 1604, 1602, 1606, 1575, 1577, 32, 1575, 1604, 1605,
     1580, 1607, 1617, 1604, 1577, 32, 1601, 1610, 32, 1575, 1604, 1605, 1606, 1589, 1617, 1577, 46, 32, 1604,
     1575, 32, 1610, 1578, 1590, 1605, 1606, 32, 1575, 1587, 1605, 32, 1575, 1604, 1605, 1581, 1603, 1617, 1605,
     32, 1571, 1608, 32, 1576, 1585, 1610, 1583, 1607, 32, 1571, 1608, 32, 1581, 1587, 1575, 1576, 1575, 1578,
     1607, 32, 1571, 1608, 32, 1605, 1587, 1608, 1583, 1578, 1607, 32, 1571, 1608, 32, 1602, 1585, 1575, 1585,
     1575, 1578, 1607, 32, 1575, 1604, 1604, 1594, 1608, 1610, 1577, 46]"

definition TXT_CATEGORY :: ustr where
  "TXT_CATEGORY = [42, 42, 1575, 1604, 1578, 1589, 1606, 1610, 1601] @ u '':** ''"

definition TXT_SUMMARY :: ustr where
  "TXT_SUMMARY = u ''### '' @ [1575, 1604, 1605, 1604, 1582, 1589]"

definition TXT_DETAILS :: ustr where
  "TXT_DETAILS = u ''### '' @ [1608, 1589, 1601, 32, 1575, 1604, 1582, 1604, 1604]"

definition TXT_STEPS :: ustr where
  "TXT_STEPS = u ''### '' @ [1582, 1591, 1608, 1575, 1578, 32, 1573, 1593, 1575, 1583, 1577, 32, 1575, 1604, 1582, 1604,
     1604]"

definition TXT_CONTEXT :: ustr where
  "TXT_CONTEXT = u ''### '' @ [1587, 1610, 1575, 1602, 32, 1578, 1602, 1606, 1610, 32, 1570, 1605, 1606]"

definition TXT_VERSION :: ustr where
  "TXT_VERSION = [45, 32, 1573, 1589, 1583, 1575, 1585, 32, 1575, 1604, 1605, 1606, 1589, 1617, 1577, 58, 32, 96]"

definition TXT_STEP :: ustr where
  "TXT_STEP = [45, 32, 1575, 1604, 1582, 1591, 1608, 1577, 58, 32, 96]"

definition TXT_LANE :: ustr where
  "TXT_LANE = [45, 32, 1605, 1587, 1575, 1585, 32, 1575, 1604, 1605, 1607, 1605, 1577, 58, 32, 96]"

definition TXT_NO_LANE :: ustr where
  "TXT_NO_LANE = [1594, 1610, 1585, 32, 1605, 1581, 1583, 1583]"

definition TXT_MODE :: ustr where
  "TXT_MODE = [45, 32, 1608, 1590, 1593, 32, 1575, 1604, 1575, 1582, 1578, 1576, 1575, 1585, 32, 1575, 1604, 1578, 1588,
     1594, 1610, 1604, 1610, 58, 32, 96]"

definition TXT_YES :: ustr where
  "TXT_YES = [1606, 1593, 1605]"

definition TXT_NO :: ustr where
  "TXT_NO = [1604, 1575]"

definition TXT_TASK :: ustr where
  "TXT_TASK = [45, 32, 1605, 1593, 1585, 1617, 1601, 32, 1573, 1589, 1583, 1575, 1585, 32, 1575, 1604, 1605, 1607, 1605,
     1577, 32, 1575, 1604, 1593, 1575, 1605, 58, 32, 96]"

definition TXT_ID :: ustr where
  "TXT_ID = [1605, 1593, 1585, 1617, 1601, 32, 1575, 1604, 1576, 1604, 1575, 1594, 58, 32, 96]"

definition TXT_TIME :: ustr where
  "TXT_TIME = [1608, 1602, 1578, 32, 1575, 1604, 1575, 1587, 1578, 1604, 1575, 1605, 58, 32, 96]"

definition portal_issue_title :: "(jsv \<Rightarrow> bool) \<Rightarrow> jsv \<Rightarrow> ustr report" where
  "portal_issue_title date_ok payload =
    sbind (validate_portal_issue_public_payload date_ok payload) (\<lambda>v.
    Inr (take 220 (subst_chars (\<lambda>c. if c = 64 then [0xFF20] else [c]) (TXT_TITLE @ js_string (dot v ''summary'')))))"

text \<open>A line of the form \<open>- label: `code`\<close>, whose label ends with the opening backtick.\<close>

definition code_line :: "ustr \<Rightarrow> jsv \<Rightarrow> ustr report" where
  "code_line label v = sbind (to_string v) (\<lambda>s. Inr (label @ escape_inline_code s @ [96]))"

definition context_lines :: "jsv \<Rightarrow> ustr list report" where
  "context_lines context =
    sbind (code_line TXT_VERSION (dot context ''portalVersion'')) (\<lambda>version.
    sbind (to_string (dot context ''step'')) (\<lambda>step.
    sbind (code_line TXT_LANE (js_or (dot context ''taskLane'') (JStr TXT_NO_LANE))) (\<lambda>lane.
    sbind (if truthy (dot context ''taskVersionId'')
       then sbind (code_line TXT_TASK (dot context ''taskVersionId'')) (\<lambda>l. Inr [l]) else Inr []) (\<lambda>task.
    Inr ([[], TXT_CONTEXT, [], version, TXT_STEP @ step @ [96], lane,
       TXT_MODE @ (if truthy (dot context ''operationalMode'') then TXT_YES else TXT_NO) @ [96]] @ task)))))"

definition render_portal_issue_markdown :: "(jsv \<Rightarrow> bool) \<Rightarrow> jsv \<Rightarrow> ustr report" where
  "render_portal_issue_markdown date_ok payload =
    sbind (validate_portal_issue_public_payload date_ok payload) (\<lambda>v.
    sbind (portal_issue_report_marker (dot v ''reportId'')) (\<lambda>marker.
    sbind (context_lines (dot v ''context'')) (\<lambda>context.
    sbind (to_string (dot v ''createdAtUtc'')) (\<lambda>created.
    Inr (join_with [10]
      ([u ''<!-- '' @ marker @ u '' -->'', [], TXT_HEADING, [], TXT_NOTICE, [],
        TXT_CATEGORY @ escape_markdown (js_string (dot v ''categoryLabelAr'')), [], TXT_SUMMARY, [],
        escape_markdown (js_string (dot v ''summary'')), [], TXT_DETAILS, [],
        escape_markdown (js_string (dot v ''details''))]
       @ (if truthy (dot v ''reproductionSteps'')
          then [[], TXT_STEPS, [], escape_markdown (js_string (dot v ''reproductionSteps''))] else [])
       @ context
       @ [[], u ''---'', TXT_ID @ js_string (dot v ''reportId'') @ [96], TXT_TIME @ created @ [96]]) @ [10])))))"

section \<open>Normal forms\<close>

lemma hd_collapse: "s \<noteq> [] \<Longrightarrow> \<not> p (hd s) \<Longrightarrow> collapse p s \<noteq> [] \<and> hd (collapse p s) = hd s"
  by (cases s) auto

lemma dropWhile_collapse:
  "dropWhile p (collapse p (dropWhile p s)) = collapse p (dropWhile p s)"
proof (cases "dropWhile p s = []")
  case False
  then have "\<not> p (hd (dropWhile p s))" by (rule hd_dropWhile)
  with False hd_collapse[of "dropWhile p s" p] show ?thesis by (auto simp: dropWhile_eq_self_iff)
next
  case True
  then show ?thesis by (simp only: True collapse.simps dropWhile.simps)
qed

lemma collapse_idem: "p 32 \<Longrightarrow> collapse p (collapse p s) = collapse p s"
  by (induction p s rule: collapse.induct) (auto simp: dropWhile_collapse)

lemma last_dropWhile_not: "s \<noteq> [] \<Longrightarrow> \<not> p (last s) \<Longrightarrow> dropWhile p s \<noteq> [] \<and> last (dropWhile p s) = last s"
  by (induction s) auto

lemma last_collapse: "s \<noteq> [] \<Longrightarrow> \<not> p (last s) \<Longrightarrow> collapse p s \<noteq> [] \<and> last (collapse p s) = last s"
proof (induction p s rule: collapse.induct)
  case (2 p c s)
  show ?case
  proof (cases "p c")
    case True
    then have s: "s \<noteq> []" "\<not> p (last s)" using 2(3,4) by (auto split: if_splits)
    with last_dropWhile_not[of s p] have "dropWhile p s \<noteq> []" "last (dropWhile p s) = last s" by auto
    with 2(1)[OF True] s True show ?thesis by auto
  next
    case False
    with 2 show ?thesis by (cases "s = []") auto
  qed
qed simp

lemma trim_collapse_trim:
  assumes "\<And>c. p c \<Longrightarrow> js_space c" "p 32"
  shows "js_trim (collapse p (js_trim s)) = collapse p (js_trim s)"
proof (cases "js_trim s = []")
  case False
  have n: "\<not> js_space (hd (js_trim s))" "\<not> js_space (last (js_trim s))"
    using trim_fixed_iff[of "js_trim s"] False by auto
  then have "\<not> p (hd (js_trim s))" "\<not> p (last (js_trim s))" using assms(1) by blast+
  with hd_collapse[OF False] last_collapse[OF False] n show ?thesis by (simp add: trim_fixed_iff)
next
  case True
  show ?thesis unfolding True by (simp add: js_trim_def)
qed

lemma text_or_empty_JStr [simp]: "text_or_empty (JStr s) = Inr s"
  by (cases s) (simp_all add: text_or_empty_def js_or_def)

lemma single_line_again:
  assumes "single_line e m n v = Inr r"
  shows "single_line e m n (JStr r) = Inr r"
proof -
  from assms obtain s where r: "r = collapse blank_char (js_trim s)" "fits m n r" "13 \<notin> set r" "10 \<notin> set r"
    by (auto simp: single_line_def sbind_eq_Inr Let_def split: if_splits)
  have sp: "blank_char c \<Longrightarrow> js_space c" for c by (auto simp: blank_char_def js_space_def)
  have b: "blank_char 32" by (simp add: blank_char_def)
  have "js_trim r = r" unfolding r(1) by (rule trim_collapse_trim[where p = blank_char, OF sp b])
  moreover have "collapse blank_char r = r" unfolding r(1) by (rule collapse_idem) (rule b)
  ultimately show ?thesis using r(2-4) by (simp add: single_line_def Let_def)
qed

lemma set_js_trim: "set (js_trim s) \<subseteq> set s"
  unfolding js_trim_def by (auto dest!: set_dropWhileD)

lemma multiline_again:
  assumes "multiline e m n v = Inr r"
  shows "multiline e m n (JStr r) = Inr r \<and> js_trim r = r"
proof -
  from assms obtain s where r: "r = js_trim (unify_newlines s)" "fits m n r"
    by (auto simp: multiline_def sbind_eq_Inr Let_def split: if_splits)
  have "13 \<notin> set r" using set_js_trim[of "unify_newlines s"] unify_newlines_no_return[of s] r(1) by auto
  then have "unify_newlines r = r" by (rule unify_newlines_id)
  with r show ?thesis by (simp add: multiline_def Let_def)
qed

lemma optional_multiline_again:
  assumes "optional_multiline e n v = Inr r"
  shows "optional_multiline e n (jopt_text r) = Inr r"
proof (cases r)
  case (Some s)
  with assms have m: "multiline e 1 n v = Inr s"
    by (auto simp: optional_multiline_def sbind_eq_Inr split: if_splits)
  then have "s \<noteq> []" by (auto simp: multiline_def sbind_eq_Inr Let_def fits_def split: if_splits)
  with multiline_again[OF m] Some show ?thesis by (simp add: optional_multiline_def jopt_text_def)
qed (simp add: optional_multiline_def jopt_text_def)

lemma coalesce_again [simp]: "coalesce (coalesce v JNull) JNull = coalesce v JNull"
  by (simp add: coalesce_def)

lemma context_again:
  assumes "validate_portal_issue_context v = Inr c"
  shows "validate_portal_issue_context c = Inr c"
proof -
  from assms have ok: "context_ok v = Inr True"
    and c: "c = JObj [(u ''portalVersion'', dot v ''portalVersion''), (u ''step'', dot v ''step''),
        (u ''taskVersionId'', coalesce (dot v ''taskVersionId'') JNull), (u ''taskLane'', coalesce (dot v ''taskLane'') JNull),
        (u ''operationalMode'', dot v ''operationalMode'')]"
    and named: "(if coalesce (dot v ''taskVersionId'') JNull = JNull then Inr True
         else sbind (to_string (coalesce (dot v ''taskVersionId'') JNull)) (\<lambda>s. Inr (matches TASK_ID_PATTERN s))) = (Inr True :: bool report)"
    by (auto simp: validate_portal_issue_context_def sbind_eq_Inr Let_def split: if_splits)
  have d: "dot c ''portalVersion'' = dot v ''portalVersion''" "dot c ''step'' = dot v ''step''"
    "dot c ''taskVersionId'' = coalesce (dot v ''taskVersionId'') JNull" "dot c ''taskLane'' = coalesce (dot v ''taskLane'') JNull"
    "dot c ''operationalMode'' = dot v ''operationalMode''" by (simp_all add: c)
  have "\<not> has_unknown_keys c REPORT_CONTEXT_KEYS" by (simp add: c has_unknown_keys_def REPORT_CONTEXT_KEYS_def)
  with ok have "context_ok c = Inr True"
    unfolding context_ok_def d by (auto simp: c sbind_eq_Inr split: if_splits)
  then show ?thesis
    using named unfolding validate_portal_issue_context_def d by (simp add: c Let_def)
qed

lemma input_form:
  assumes "validate_portal_issue_report_input v = Inr i"
  shows "\<exists>label summary details steps ctx.
     js_is_plain_object v \<and> is_report_id (dot v ''reportId'')
   \<and> category_label (dot v ''category'') = Inr (Some label)
   \<and> single_line SummaryInvalid 10 160 (dot v ''summary'') = Inr summary
   \<and> multiline DetailsInvalid 20 4000 (dot v ''details'') = Inr details
   \<and> optional_multiline StepsInvalid 2000 (dot v ''reproductionSteps'') = Inr steps
   \<and> validate_report_text summary details steps = Inr ()
   \<and> validate_portal_issue_context (dot v ''context'') = Inr ctx
   \<and> i = JObj [(u ''reportId'', dot v ''reportId''), (u ''category'', dot v ''category''),
       (u ''summary'', JStr summary), (u ''details'', JStr details),
       (u ''reproductionSteps'', jopt_text steps), (u ''context'', ctx)]"
  using assms unfolding validate_portal_issue_report_input_def
  by (fastforce simp: sbind_eq_Inr split: if_splits)

lemma input_again:
  assumes "validate_portal_issue_report_input v = Inr i"
    "\<forall>k \<in> {''reportId'', ''category'', ''summary'', ''details'', ''reproductionSteps'', ''context''}. dot p k = dot i k"
  shows "validate_portal_issue_report_input (payload_input p) = Inr i"
proof -
  from input_form[OF assms(1)] obtain label summary details steps ctx where f:
     "is_report_id (dot v ''reportId'')" "category_label (dot v ''category'') = Inr (Some label)"
     "single_line SummaryInvalid 10 160 (dot v ''summary'') = Inr summary"
     "multiline DetailsInvalid 20 4000 (dot v ''details'') = Inr details"
     "optional_multiline StepsInvalid 2000 (dot v ''reproductionSteps'') = Inr steps"
     "validate_report_text summary details steps = Inr ()"
     "validate_portal_issue_context (dot v ''context'') = Inr ctx"
     and i: "i = JObj [(u ''reportId'', dot v ''reportId''), (u ''category'', dot v ''category''),
       (u ''summary'', JStr summary), (u ''details'', JStr details),
       (u ''reproductionSteps'', jopt_text steps), (u ''context'', ctx)]" by blast
  have p: "dot p ''reportId'' = dot v ''reportId''" "dot p ''category'' = dot v ''category''" "dot p ''summary'' = JStr summary"
    "dot p ''details'' = JStr details" "dot p ''reproductionSteps'' = jopt_text steps" "dot p ''context'' = ctx"
    using assms(2) by (simp_all add: i)
  have d: "dot (payload_input p) ''schema'' = REPORT_SCHEMA" "dot (payload_input p) ''reportId'' = dot v ''reportId''"
    "dot (payload_input p) ''category'' = dot v ''category''" "dot (payload_input p) ''summary'' = JStr summary"
    "dot (payload_input p) ''details'' = JStr details" "dot (payload_input p) ''reproductionSteps'' = jopt_text steps"
    "dot (payload_input p) ''privacyConfirmed'' = JBool True" "dot (payload_input p) ''context'' = ctx"
    by (simp_all add: payload_input_def p)
  have "js_is_plain_object (payload_input p)" "\<not> has_unknown_keys (payload_input p) REPORT_INPUT_KEYS"
    by (simp_all add: payload_input_def has_unknown_keys_def REPORT_INPUT_KEYS_def)
  then show ?thesis
    unfolding validate_portal_issue_report_input_def d i
    using f(1,2,6) single_line_again[OF f(3)] multiline_again[OF f(4)] optional_multiline_again[OF f(5)] context_again[OF f(7)]
    by (simp add: REPORT_SCHEMA_def)
qed

section \<open>An accepted report\<close>

definition quiet_char :: "nat \<Rightarrow> bool" where
  "quiet_char c \<longleftrightarrow> (plain_char c \<or> c = 10) \<and> c \<noteq> 66"

lemma quiet_text_no_link: "list_all quiet_char s \<Longrightarrow> \<not> link_or_credential s"
proof -
  have n: "needs (\<lambda>c. \<not> quiet_char c) URL_PATTERN" "needs (\<lambda>c. \<not> quiet_char c) CREDENTIAL_PATTERN"
    by (auto simp: URL_PATTERN_def CREDENTIAL_PATTERN_def ratleast_def numeral_eq_Suc quiet_char_def plain_char_def rng_def)
  assume "list_all quiet_char s"
  then have "\<not> list_ex (\<lambda>c. \<not> quiet_char c) s" by (auto simp: list_all_iff list_ex_iff)
  with n show ?thesis unfolding link_or_credential_def by (auto dest: search_needs)
qed

definition sample_summary :: ustr where
  "sample_summary = u ''entry fails after login''"

definition sample_details :: ustr where
  "sample_details = u ''the key is taken but the page stays empty''"

definition sample_context :: jsv where
  "sample_context = JObj [(u ''portalVersion'', JStr (u ''1.2.3'')), (u ''step'', JNum 2), (u ''operationalMode'', JBool False)]"

definition sample_report :: jsv where
  "sample_report = JObj [(u ''schema'', REPORT_SCHEMA),
     (u ''reportId'', JStr (u ''123e4567-e89b-42d3-a456-426614174000'')), (u ''category'', JStr (u ''access'')),
     (u ''summary'', JStr sample_summary), (u ''details'', JStr sample_details),
     (u ''privacyConfirmed'', JBool True), (u ''context'', sample_context)]"

lemma sample_text_accepted: "validate_report_text sample_summary sample_details None = Inr ()"
proof -
  have q: "list_all quiet_char (report_text [sample_summary, sample_details])" "list_all plain_char sample_summary"
    "list_all plain_char sample_details" by code_simp+
  have "\<not> link_or_credential (report_text [sample_summary, sample_details])" by (rule quiet_text_no_link[OF q(1)])
  moreover have "\<not> contains_unsafe_public_text sample_summary" "\<not> contains_unsafe_public_text sample_details"
    using q(2,3)[THEN plain_text_safe] .
  ultimately show ?thesis
    by (simp add: validate_report_text_def validate_public_artifact_text_def PUBLIC_NOTE_KEYS_def jopt_text_def)
qed

lemma sample_context_accepted: "\<exists>c. validate_portal_issue_context sample_context = Inr c"
proof -
  have "matches VERSION_PATTERN (u ''1.2.3'')" by code_simp
  moreover have "js_is_safe_integer (JNum 2)" by code_simp
  ultimately have "context_ok sample_context = Inr True"
    by (simp add: context_ok_def sample_context_def has_unknown_keys_def REPORT_CONTEXT_KEYS_def coalesce_def)
  then show ?thesis by (simp add: validate_portal_issue_context_def sample_context_def Let_def coalesce_def)
qed

lemma sample_accepted: "\<exists>i. validate_portal_issue_report_input sample_report = Inr i"
proof -
  have "is_report_id (JStr (u ''123e4567-e89b-42d3-a456-426614174000''))" by code_simp
  moreover have "category_label (JStr (u ''access'')) = (Inr (Some (snd (hd PORTAL_ISSUE_CATEGORIES))) :: ustr option report)"
    by code_simp
  moreover have "single_line SummaryInvalid 10 160 (JStr sample_summary) = Inr sample_summary" by code_simp
  moreover have "multiline DetailsInvalid 20 4000 (JStr sample_details) = Inr sample_details"
    by (simp add: multiline_def sample_details_def u_def js_trim_def js_space_def fits_def)
  moreover obtain c where "validate_portal_issue_context sample_context = Inr c" using sample_context_accepted by blast
  ultimately have "validate_portal_issue_report_input sample_report = Inr (JObj
      [(u ''reportId'', JStr (u ''123e4567-e89b-42d3-a456-426614174000'')), (u ''category'', JStr (u ''access'')),
       (u ''summary'', JStr sample_summary), (u ''details'', JStr sample_details),
       (u ''reproductionSteps'', JNull), (u ''context'', c)])"
    using sample_text_accepted
    by (simp add: validate_portal_issue_report_input_def sample_report_def REPORT_SCHEMA_def has_unknown_keys_def
        REPORT_INPUT_KEYS_def optional_multiline_def jopt_text_def)
  then show ?thesis by blast
qed

text \<open>
  C27. A report survives its own publication: the payload built from an accepted report passes the
  payload's validation, which gives it back unchanged. So what a later reader of the outbox
  validates, and renders, is what the participant confirmed.
\<close>

theorem report_payload_roundtrip:
  assumes "validate_portal_issue_report_input v = Inr i" "date_ok created"
  shows "\<exists>p. build_portal_issue_public_payload date_ok i created = Inr p
    \<and> validate_portal_issue_public_payload date_ok p = Inr p"
proof -
  from input_form[OF assms(1)] obtain label summary details steps ctx where f:
     "is_report_id (dot v ''reportId'')" "category_label (dot v ''category'') = Inr (Some label)"
     and i: "i = JObj [(u ''reportId'', dot v ''reportId''), (u ''category'', dot v ''category''),
       (u ''summary'', JStr summary), (u ''details'', JStr details),
       (u ''reproductionSteps'', jopt_text steps), (u ''context'', ctx)]" by blast
  let ?p = "JObj [(u ''schema'', REPORT_SCHEMA), (u ''reportId'', dot i ''reportId''),
       (u ''category'', dot i ''category''), (u ''categoryLabelAr'', JStr label),
       (u ''summary'', dot i ''summary''), (u ''details'', dot i ''details''),
       (u ''reproductionSteps'', dot i ''reproductionSteps''), (u ''context'', dot i ''context''),
       (u ''createdAtUtc'', created)]"
  have cat: "category_label (dot i ''category'') = Inr (Some label)" using f(2) by (simp add: i)
  have b: "build_portal_issue_public_payload date_ok i created = Inr ?p"
    using assms(2) cat by (simp add: build_portal_issue_public_payload_def) (simp add: i)
  have "\<not> has_unknown_keys ?p REPORT_PUBLIC_PAYLOAD_KEYS"
    by (simp add: has_unknown_keys_def REPORT_PUBLIC_PAYLOAD_KEYS_def)
  moreover have "dot ?p ''schema'' = REPORT_SCHEMA" "dot ?p ''reportId'' = dot i ''reportId''" "dot ?p ''category'' = dot i ''category''"
    "dot ?p ''categoryLabelAr'' = JStr label" and date: "dot ?p ''createdAtUtc'' = created" by simp_all
  moreover have "is_report_id (dot i ''reportId'')" using f(1) by (simp add: i)
  ultimately have ok: "payload_ok date_ok ?p = Inr True"
    unfolding payload_ok_def using cat assms(2) by (simp add: REPORT_SCHEMA_def)
  have "validate_portal_issue_report_input (payload_input ?p) = Inr i"
    by (rule input_again[OF assms(1)]) simp
  with ok b have "validate_portal_issue_public_payload date_ok ?p = Inr ?p"
    unfolding validate_portal_issue_public_payload_def date by simp
  with b show ?thesis by blast
qed

theorem report_payload_roundtrip_witness:
  "\<exists>i p. validate_portal_issue_report_input sample_report = Inr i
    \<and> build_portal_issue_public_payload (\<lambda>d. d = JStr (u ''2026-01-02T03:04:05.000Z'')) i (JStr (u ''2026-01-02T03:04:05.000Z'')) = Inr p
    \<and> validate_portal_issue_public_payload (\<lambda>d. d = JStr (u ''2026-01-02T03:04:05.000Z'')) p = Inr p"
proof -
  obtain i where i: "validate_portal_issue_report_input sample_report = Inr i" using sample_accepted by blast
  from report_payload_roundtrip[OF this, of "\<lambda>d. d = JStr (u ''2026-01-02T03:04:05.000Z'')" "JStr (u ''2026-01-02T03:04:05.000Z'')"]
  show ?thesis using i by blast
qed

section \<open>What the public reads\<close>

lemma boundary_inside:
  assumes "a = [] \<or> \<not> w (last a)" "b = [] \<or> \<not> w (hd b)" "i \<le> length m"
  shows "boundary w (a @ m @ b) (length a + i) = boundary w m i"
proof -
  have left: "0 < length a + i \<and> length a + i \<le> length (a @ m @ b) \<and> w ((a @ m @ b) ! (length a + i - 1))
      \<longleftrightarrow> 0 < i \<and> i \<le> length m \<and> w (m ! (i - 1))"
  proof (cases i)
    case 0
    then show ?thesis using assms(1) by (cases "a = []") (simp_all add: nth_append last_conv_nth)
  next
    case (Suc k)
    then have "(a @ m @ b) ! (length a + i - 1) = m ! k" using assms(3) by (simp add: nth_append)
    then show ?thesis using Suc assms(3) by simp
  qed
  have right: "length a + i < length (a @ m @ b) \<and> w ((a @ m @ b) ! (length a + i)) \<longleftrightarrow> i < length m \<and> w (m ! i)"
  proof (cases "i < length m")
    case False
    then have "i = length m" using assms(3) by simp
    then show ?thesis using assms(2) by (cases b) (simp_all add: nth_append)
  qed (simp add: nth_append)
  show ?thesis unfolding boundary_def left right ..
qed

lemma bounded_search_inside:
  assumes "rx_search (boundary w) (boundary w) r m" "a = [] \<or> \<not> w (last a)" "b = [] \<or> \<not> w (hd b)"
  shows "rx_search (boundary w) (boundary w) r (a @ m @ b)"
proof -
  from assms(1) obtain i n where i: "i \<in> {0..<length m + 1}" "boundary w m i"
    and n: "n \<in> {0..<length m - i + 1}" "boundary w m (i + n)" "matches r (take n (drop i m))"
    unfolding rx_search_def list_ex_iff set_upt by blast
  have l: "i \<le> length m" "i + n \<le> length m" using i(1) n(1) by auto
  let ?w = "a @ m @ b"
  have t: "take n (drop (length a + i) ?w) = take n (drop i m)" using l by simp
  have "boundary w ?w (length a + i)" "boundary w ?w (length a + (i + n))"
    using boundary_inside[OF assms(2,3)] i(2) n(2) l by blast+
  then have "boundary w ?w (length a + i)" "boundary w ?w (length a + i + n)" by (simp_all add: add.assoc)
  moreover have "length a + i \<in> {0..<length ?w + 1}" "n \<in> {0..<length ?w - (length a + i) + 1}" using l by auto
  ultimately show ?thesis
    unfolding rx_search_def list_ex_iff set_upt using n(3) t by metis
qed

lemma link_or_credential_inside:
  assumes "link_or_credential m" "a = [] \<or> last a = 10" "b = [] \<or> hd b = 10"
  shows "link_or_credential (a @ m @ b)"
proof -
  have "\<not> word_char 10" by (simp add: word_char_def alnum_def digit_def rng_def)
  with assms(2,3) have e: "a = [] \<or> \<not> word_char (last a)" "b = [] \<or> \<not> word_char (hd b)" by auto
  show ?thesis
    using assms(1) bounded_search_inside[OF _ e] rx_test_superstring unfolding link_or_credential_def by blast
qed

lemma join_lines_part:
  "s \<in> set xs \<Longrightarrow> \<exists>a b. join_with [10] xs = a @ s @ b \<and> (a = [] \<or> last a = 10) \<and> (b = [] \<or> hd b = 10)"
  for s :: ustr
proof (induction xs rule: induct_list012)
  case (2 x)
  then show ?case by (intro exI[of _ "[]"]) simp
next
  case (3 x y ys)
  show ?case
  proof (cases "s = x")
    case True
    then show ?thesis by (intro exI[of _ "[]"] exI[of _ "[10] @ join_with [10] (y # ys)"]) simp
  next
    case False
    with 3 obtain a b where ab: "join_with [10] (y # ys) = a @ s @ b" "a = [] \<or> last a = 10" "b = [] \<or> hd b = 10" by auto
    show ?thesis
      using ab by (intro exI[of _ "x @ [10] @ a"] exI[of _ b]) auto
  qed
qed simp

lemma report_text_part:
  assumes "s \<in> set values" "s \<noteq> []"
  shows "\<exists>a b. report_text values = a @ s @ b \<and> (a = [] \<or> last a = 10) \<and> (b = [] \<or> hd b = 10)"
  unfolding report_text_def using assms by (intro join_lines_part) simp

text \<open>
  C28. An accepted report can be published: none of its texts holds contact data, markup, an unsafe
  link or a control character, none holds a web address or a credential anywhere, also not across
  the edges of the texts, the summary is one line of ten to 160 characters, and the details have
  20 to 4000.
\<close>

theorem accepted_report_publishable:
  assumes "validate_portal_issue_report_input v = Inr i"
  shows "\<exists>summary details steps. dot i ''summary'' = JStr summary \<and> dot i ''details'' = JStr details
    \<and> dot i ''reproductionSteps'' = jopt_text steps
    \<and> (\<forall>s \<in> {summary, details} \<union> set_option steps. \<not> contains_unsafe_public_text s \<and> \<not> link_or_credential s)
    \<and> fits 10 160 summary \<and> 10 \<notin> set summary \<and> 13 \<notin> set summary \<and> fits 20 4000 details"
proof -
  from input_form[OF assms] obtain summary details steps ctx where f:
     "single_line SummaryInvalid 10 160 (dot v ''summary'') = Inr summary"
     "multiline DetailsInvalid 20 4000 (dot v ''details'') = Inr details"
     "optional_multiline StepsInvalid 2000 (dot v ''reproductionSteps'') = Inr steps"
     "validate_report_text summary details steps = Inr ()"
     and i: "i = JObj [(u ''reportId'', dot v ''reportId''), (u ''category'', dot v ''category''),
       (u ''summary'', JStr summary), (u ''details'', JStr details),
       (u ''reproductionSteps'', jopt_text steps), (u ''context'', ctx)]" by blast
  let ?vs = "[summary, details] @ (case steps of None \<Rightarrow> [] | Some s \<Rightarrow> [s])"
  have steps: "s \<noteq> []" if "steps = Some s" for s
    using f(3) that by (auto simp: optional_multiline_def multiline_def sbind_eq_Inr fits_def Let_def split: if_splits)
  have lens: "fits 10 160 summary" "10 \<notin> set summary" "13 \<notin> set summary" "fits 20 4000 details"
    using f(1,2) by (auto simp: single_line_def multiline_def sbind_eq_Inr Let_def split: if_splits)
  have link: "\<not> link_or_credential (report_text ?vs)" and pub: "validate_public_artifact_text (JObj [(u ''note'', JStr summary),
      (u ''rationale'', JStr details), (u ''resolutionNote'', jopt_text steps)]) = Inr ()"
    using f(4) by (auto simp: validate_report_text_def split: if_splits sum.splits)
  have all: "{summary, details} \<union> set_option steps = set ?vs" by (cases steps) auto
  have ne: "[] \<notin> set ?vs" using lens steps by (cases steps) (auto simp: fits_def)
  have "\<not> link_or_credential s" if "s \<in> set ?vs" for s
  proof
    assume l: "link_or_credential s"
    have "s \<noteq> []" using that ne by metis
    from report_text_part[OF that this] obtain a b where "report_text ?vs = a @ s @ b"
      "a = [] \<or> last a = 10" "b = [] \<or> hd b = 10" by blast
    with link_or_credential_inside[OF l, of a b] link show False by simp
  qed
  moreover have "\<not> contains_unsafe_public_text s" if "s \<in> set ?vs" for s
    using pub that by (auto simp: validate_public_artifact_text_def PUBLIC_NOTE_KEYS_def jopt_text_def split: option.splits)
  ultimately have safe: "\<forall>s \<in> {summary, details} \<union> set_option steps. \<not> contains_unsafe_public_text s \<and> \<not> link_or_credential s"
    unfolding all by blast
  show ?thesis
    using lens safe by (intro exI[of _ summary] exI[of _ details] exI[of _ steps] conjI) (simp_all add: i)
qed

theorem accepted_report_publishable_witness:
  "\<exists>i s. validate_portal_issue_report_input sample_report = Inr i \<and> dot i ''summary'' = JStr s \<and> \<not> link_or_credential s"
proof -
  obtain i where i: "validate_portal_issue_report_input sample_report = Inr i" using sample_accepted by blast
  from accepted_report_publishable[OF this] show ?thesis using i by blast
qed

end
