(* ===== verification/JournalPayload.thy ===== *)
theory JournalPayload
  imports Json Protocol
begin

text \<open>
  The record of a PostgreSQL write in the recovery journal (\<open>src/cpoly-recovery.js\<close>): how the
  statements and their parameters become JSON and come back, and the envelope they are encrypted in.
  AES-GCM is an argument. An error the platform throws (a syntax error of \<open>JSON.parse\<close>, a type error)
  is the argument \<open>pf\<close>; a number parameter is a finite double, or the name of NaN or an infinity.
\<close>

section \<open>Failures\<close>

text \<open>What the classification of errors reads from one: \<open>flConflict\<close> is \<open>instanceof
  WriteReceiptConflictError\<close>, \<open>flStatus\<close> is \<open>Number(error.status || 0)\<close>.\<close>

record failure =
  flConflict :: bool
  flRetryable :: bool
  flStatus :: int
  flCode :: ustr
  flMessage :: ustr
  flProviderError :: ustr

definition plain_failure :: "ustr \<Rightarrow> failure" where
  "plain_failure m = \<lparr>flConflict = False, flRetryable = False, flStatus = 0, flCode = [], flMessage = m,
     flProviderError = []\<rparr>"

abbreviation thrown_by_platform :: "failure \<Rightarrow> failure thrown + 'a \<Rightarrow> failure + 'a" where
  "thrown_by_platform pf r \<equiv> (case r of Inl TypeError \<Rightarrow> Inl pf | Inl (Thrown f) \<Rightarrow> Inl f | Inr x \<Rightarrow> Inr x)"

section \<open>Base 64\<close>

definition b64_char :: "nat \<Rightarrow> nat" where
  "b64_char d = (if d < 26 then 65 + d else if d < 52 then 71 + d else if d < 62 then d - 4
     else if d = 62 then 43 else 47)"

definition b64_digit :: "nat \<Rightarrow> nat option" where
  "b64_digit c = (if rng CHR ''A'' CHR ''Z'' c then Some (c - 65) else if rng CHR ''a'' CHR ''z'' c then Some (c - 71)
     else if digit c then Some (c + 4) else if c = 43 then Some 62 else if c = 47 then Some 63 else None)"

fun b64_digits :: "nat list \<Rightarrow> nat list" where
  "b64_digits (a # b # c # bs) =
     [a div 4, (a mod 4) * 16 + b div 16, (b mod 16) * 4 + c div 64, c mod 64] @ b64_digits bs"
| "b64_digits [a, b] = [a div 4, (a mod 4) * 16 + b div 16, (b mod 16) * 4]"
| "b64_digits [a] = [a div 4, (a mod 4) * 16]"
| "b64_digits [] = []"

fun b64_bytes :: "nat list \<Rightarrow> nat list" where
  "b64_bytes (a # b # c # d # ds) =
     [a * 4 + b div 16, (b mod 16) * 16 + c div 4, (c mod 4) * 64 + d] @ b64_bytes ds"
| "b64_bytes [a, b, c] = [a * 4 + b div 16, (b mod 16) * 16 + c div 4]"
| "b64_bytes [a, b] = [a * 4 + b div 16]"
| "b64_bytes ds = []"

text \<open>\<open>btoa\<close> over the bytes, and the forgiving decoding of \<open>atob\<close>.\<close>

definition base64_encode :: "nat list \<Rightarrow> ustr" where
  "base64_encode bs = (let ds = b64_digits bs in
     map b64_char ds @ replicate ((4 - length ds mod 4) mod 4) 61)"

definition ascii_space :: "nat \<Rightarrow> bool" where
  "ascii_space c \<longleftrightarrow> c = 9 \<or> c = 10 \<or> c = 12 \<or> c = 13 \<or> c = 32"

definition drop_padding :: "ustr \<Rightarrow> ustr" where
  "drop_padding s = (if length s mod 4 \<noteq> 0 then s else
     (case rev s of c # d # r \<Rightarrow> if c = 61 \<and> d = 61 then rev r else if c = 61 then rev (d # r) else s | _ \<Rightarrow> s))"

definition base64_decode :: "ustr \<Rightarrow> nat list option" where
  "base64_decode s = (let t = drop_padding (filter (\<lambda>c. \<not> ascii_space c) s) in
     if length t mod 4 = 1 \<or> list_ex (\<lambda>c. b64_digit c = None) t then None
     else Some (b64_bytes (map (\<lambda>c. the (b64_digit c)) t)))"

section \<open>Parameters\<close>

text \<open>A bound value: \<open>undefined\<close>, \<open>null\<close>, texts, numbers, truth values, arrays and plain objects
  are JSON values.\<close>

datatype param = PJson jsv | PNonFinite ustr | PBigint int | PBytes "nat list"

definition typed :: "string \<Rightarrow> jsv \<Rightarrow> jsv" where
  "typed type v = JObj [(u ''type'', JStr (u type)), (u ''value'', v)]"

definition serialize_journal_value :: "param \<Rightarrow> jsv" where
  "serialize_journal_value p = (case p of
       PNonFinite name \<Rightarrow> typed ''number'' (JStr name)
     | PBigint i \<Rightarrow> typed ''bigint'' (JStr (int_str i))
     | PBytes bs \<Rightarrow> typed ''blob'' (JStr (base64_encode bs))
     | PJson v \<Rightarrow> (case v of
           JUndef \<Rightarrow> typed ''null'' JNull
         | JNull \<Rightarrow> typed ''null'' JNull
         | JStr s \<Rightarrow> typed ''string'' v
         | JNum n \<Rightarrow> typed ''number'' v
         | JBool b \<Rightarrow> typed ''boolean'' v
         | _ \<Rightarrow> typed ''json'' (JStr (json_text v))))"

text \<open>\<open>Number(s)\<close> with the infinities and NaN named.\<close>

definition non_finite_name :: "ustr \<Rightarrow> ustr" where
  "non_finite_name t =
    (if t = u ''Infinity'' \<or> t = u ''+Infinity'' \<or> unsigned_radix t \<noteq> None then u ''Infinity''
     else if t = u ''-Infinity'' then u ''-Infinity''
     else (case decimal_literal t of None \<Rightarrow> u ''NaN'' | Some x \<Rightarrow> if x < 0 then u ''-Infinity'' else u ''Infinity''))"

definition number_of_text :: "ustr \<Rightarrow> param" where
  "number_of_text s = (case string_number s of Some n \<Rightarrow> PJson (JNum n) | None \<Rightarrow> PNonFinite (non_finite_name (js_trim s)))"

definition js_number :: "jsv \<Rightarrow> failure thrown + param" where
  "js_number v = (case v of
       JUndef \<Rightarrow> Inr (PNonFinite (u ''NaN''))
     | JNull \<Rightarrow> Inr (PJson (JNum 0))
     | JBool b \<Rightarrow> Inr (PJson (JNum (if b then 1 else 0)))
     | JNum n \<Rightarrow> Inr (PJson v)
     | _ \<Rightarrow> sbind (to_string v) (\<lambda>s. Inr (number_of_text s)))"

definition text_of :: "jsv \<Rightarrow> jsv \<Rightarrow> failure thrown + ustr" where
  "text_of v fallback = to_string (js_or v fallback)"

definition deserialize_journal_value :: "jsv \<Rightarrow> failure thrown + param" where
  "deserialize_journal_value d =
    (if \<not> js_is_plain_object d then Inl (Thrown (plain_failure (u ''Stored PostgreSQL journal parameter was invalid.'')))
     else let type = dot d ''type''; v = dot d ''value'' in
       if str_is type ''null'' then Inr (PJson JNull)
       else if str_is type ''string'' then sbind (to_string (coalesce v (JStr []))) (\<lambda>s. Inr (PJson (JStr s)))
       else if str_is type ''number'' then js_number v
       else if str_is type ''bigint'' then sbind (to_string (coalesce v (JStr (u ''0'')))) (\<lambda>s. Inr (PJson (JStr s)))
       else if str_is type ''boolean'' then Inr (PJson (JBool (truthy v)))
       else if str_is type ''blob'' then sbind (text_of v (JStr []))
         (\<lambda>s. case base64_decode s of None \<Rightarrow> Inl TypeError | Some bs \<Rightarrow> Inr (PBytes bs))
       else if str_is type ''json'' then sbind (text_of v (JStr (u ''null'')))
         (\<lambda>s. case json_parse s of None \<Rightarrow> Inl TypeError | Some j \<Rightarrow> Inr (PJson j))
       else Inl (Thrown (plain_failure (u ''Stored PostgreSQL journal parameter type was invalid.''))))"

section \<open>Payloads\<close>

record sql_operation =
  opMode :: ustr
  opSql :: ustr
  opParams :: "param list"

definition JOURNAL_SCHEMA :: ustr where "JOURNAL_SCHEMA = u ''adg-cpoly-postgres-journal-v1''"

definition operation_document :: "sql_operation \<Rightarrow> jsv" where
  "operation_document op = JObj [(u ''mode'', JStr (if opMode op = [] then u ''run'' else opMode op)),
     (u ''sql'', JStr (opSql op)), (u ''params'', JArr (map serialize_journal_value (opParams op)))]"

definition payload_document :: "ustr \<Rightarrow> ustr \<Rightarrow> sql_operation list \<Rightarrow> jsv" where
  "payload_document requestId kind ops = JObj [(u ''schema'', JStr JOURNAL_SCHEMA), (u ''requestId'', JStr requestId),
     (u ''operationKind'', JStr kind), (u ''operations'', JArr (map operation_document ops))]"

definition sha256_hex_utf8 :: "(nat list \<Rightarrow> ustr) \<Rightarrow> ustr \<Rightarrow> ustr" where
  "sha256_hex_utf8 sha256 s = sha256 (utf8_encode s)"

record journal_text =
  jtJson :: ustr
  jtHash :: ustr
  jtCount :: nat

definition build_journal_payload :: "(nat list \<Rightarrow> ustr) \<Rightarrow> ustr \<Rightarrow> ustr \<Rightarrow> sql_operation list \<Rightarrow> journal_text" where
  "build_journal_payload sha256 requestId kind ops = (let json = json_text (payload_document requestId kind ops) in
     \<lparr>jtJson = json, jtHash = sha256_hex_utf8 sha256 json, jtCount = length ops\<rparr>)"

record journal_payload =
  plRequest :: jsv
  plKind :: jsv
  plOperations :: "sql_operation list"

definition UUID_V4 :: rx where "UUID_V4 = UUID_PATTERN (\<lambda>c. c = 52)"

definition parse_operation :: "jsv \<Rightarrow> failure thrown + sql_operation" where
  "parse_operation d =
    sbind (field d (u ''mode'')) (\<lambda>mode. sbind (text_of mode (JStr (u ''run''))) (\<lambda>m.
    sbind (text_of (dot d ''sql'') (JStr [])) (\<lambda>s.
    sbind (mapE deserialize_journal_value (elems (dot d ''params''))) (\<lambda>ps.
    Inr \<lparr>opMode = m, opSql = s, opParams = ps\<rparr>))))"

definition payload_ok :: "jsv \<Rightarrow> failure thrown + bool" where
  "payload_ok p =
    (if \<not> truthy p \<or> \<not> strict_eq (dot p ''schema'') (JStr JOURNAL_SCHEMA) then Inr False
     else sbind (text_of (dot p ''requestId'') (JStr [])) (\<lambda>r.
       if \<not> matches UUID_V4 r then Inr False
       else sbind (text_of (dot p ''operationKind'') (JStr [])) (\<lambda>k.
         Inr (k \<in> {u ''run'', u ''batch''} \<and> js_is_array (dot p ''operations'') \<and> elems (dot p ''operations'') \<noteq> []))))"

definition parse_journal_payload :: "ustr \<Rightarrow> ustr \<Rightarrow> failure thrown + journal_payload" where
  "parse_journal_payload json expectedRequestId =
    (case json_parse json of
       None \<Rightarrow> Inl (Thrown (plain_failure (u ''Stored PostgreSQL journal payload is not valid JSON.'')))
     | Some p \<Rightarrow> sbind (payload_ok p) (\<lambda>ok.
         if \<not> ok then Inl (Thrown (plain_failure (u ''Stored PostgreSQL journal payload is invalid.'')))
         else if expectedRequestId \<noteq> [] \<and> \<not> strict_eq (dot p ''requestId'') (JStr expectedRequestId)
         then Inl (Thrown (plain_failure (u ''Stored PostgreSQL journal request ID did not match.'')))
         else sbind (mapE parse_operation (elems (dot p ''operations''))) (\<lambda>ops.
           Inr \<lparr>plRequest = dot p ''requestId'', plKind = dot p ''operationKind'', plOperations = ops\<rparr>)))"

section \<open>Encryption\<close>

text \<open>The cipher: encryption under a nonce gives the cipher text followed by its tag of 16 bytes.\<close>

record aead =
  aeEncrypt :: "nat list \<Rightarrow> nat list \<Rightarrow> nat list"
  aeDecrypt :: "nat list \<Rightarrow> nat list \<Rightarrow> nat list option"

definition encrypt_recovery_bytes :: "aead \<Rightarrow> nat list \<Rightarrow> nat list \<Rightarrow> nat list" where
  "encrypt_recovery_bytes ae nonce bytes = (let encrypted = aeEncrypt ae nonce bytes; n = length encrypted - 16;
     tag = drop n encrypted; cipher = take n encrypted in [1] @ nonce @ tag @ cipher)"

definition decrypt_recovery_bytes :: "aead \<Rightarrow> nat list \<Rightarrow> failure thrown + nat list" where
  "decrypt_recovery_bytes ae ciphertext =
    (if length ciphertext < 1 + 12 + 16 then Inl (Thrown (plain_failure (u ''Recovery ciphertext length was invalid.'')))
     else if ciphertext ! 0 \<noteq> 1 then Inl (Thrown (plain_failure (u ''Recovery ciphertext version was invalid.'')))
     else let nonce = take 12 (drop 1 ciphertext); tag = take 16 (drop 13 ciphertext); cipher = drop 29 ciphertext in
       (case aeDecrypt ae nonce (cipher @ tag) of None \<Rightarrow> Inl TypeError | Some plain \<Rightarrow> Inr plain))"

definition encrypt_recovery_string :: "aead \<Rightarrow> nat list \<Rightarrow> ustr \<Rightarrow> nat list" where
  "encrypt_recovery_string ae nonce s = encrypt_recovery_bytes ae nonce (utf8_encode s)"

definition decrypt_recovery_string :: "aead \<Rightarrow> nat list \<Rightarrow> failure thrown + ustr" where
  "decrypt_recovery_string ae ciphertext =
    sbind (decrypt_recovery_bytes ae ciphertext) (\<lambda>bytes. Inr (utf16_units (utf8_decode bytes)))"

section \<open>Round trip of base 64\<close>

lemma b64_bytes_digits: "\<forall>b \<in> set bs. b < 256 \<Longrightarrow> b64_bytes (b64_digits bs) = bs"
proof (induction bs rule: b64_digits.induct)
  case (1 a b c bs)
  have "((a mod 4) * 16 + b div 16) div 16 = a mod 4" "((a mod 4) * 16 + b div 16) mod 16 = b div 16"
    "((b mod 16) * 4 + c div 64) div 4 = b mod 16" "((b mod 16) * 4 + c div 64) mod 4 = c div 64"
    using 1(2) by auto
  then show ?case using 1 by simp
qed auto

lemma b64_digits_bound: "\<forall>b \<in> set bs. b < 256 \<Longrightarrow> d \<in> set (b64_digits bs) \<Longrightarrow> d < 64"
  by (induction bs rule: b64_digits.induct) auto

lemma b64_digits_length: "length (b64_digits bs) mod 4 \<noteq> 1"
  by (induction bs rule: b64_digits.induct) auto

lemma b64_digit_char: "d < 64 \<Longrightarrow> b64_digit (b64_char d) = Some d"
proof -
  assume "d < 64"
  then consider "d < 26" | "26 \<le> d" "d < 52" | "52 \<le> d" "d < 62" | "d = 62" | "d = 63" by linarith
  then show ?thesis by cases (simp_all add: b64_digit_def b64_char_def rng_def digit_def, arith?)
qed

lemma b64_char_plain: "d < 64 \<Longrightarrow> b64_char d \<noteq> 61 \<and> \<not> ascii_space (b64_char d)"
  by (auto simp: b64_char_def ascii_space_def)

lemma drop_padding_padded:
  assumes "61 \<notin> set s" "length s mod 4 \<noteq> 1"
  shows "drop_padding (s @ replicate ((4 - length s mod 4) mod 4) 61) = s"
proof -
  consider "length s mod 4 = 0" | "length s mod 4 = 2" | "length s mod 4 = 3"
    using assms(2) mod_less_divisor[of 4 "length s"] by linarith
  then show ?thesis
  proof cases
    case 1
    then show ?thesis using assms(1)
      by (cases "rev s") (auto simp: drop_padding_def dest: arg_cong[where f = set] split: list.splits)
  next
    case 2
    then show ?thesis by (auto simp: drop_padding_def mod_add_eq numeral_2_eq_2 mod_Suc)
  next
    case 3
    then show ?thesis using assms(1)
      by (cases "rev s") (auto simp: drop_padding_def mod_Suc dest: arg_cong[where f = set])
  qed
qed

lemma base64_roundtrip:
  assumes "\<forall>b \<in> set bs. b < 256"
  shows "base64_decode (base64_encode bs) = Some bs"
proof -
  let ?ds = "b64_digits bs" and ?cs = "map b64_char (b64_digits bs)"
  have bound: "\<forall>d \<in> set ?ds. d < 64" using b64_digits_bound[OF assms] by blast
  then have plain: "61 \<notin> set ?cs" "\<forall>c \<in> set ?cs. \<not> ascii_space c" using b64_char_plain by fastforce+
  have "filter (\<lambda>c. \<not> ascii_space c) (base64_encode bs) = base64_encode bs"
    using plain(2) by (auto simp: base64_encode_def Let_def filter_id_conv ascii_space_def)
  then have "drop_padding (filter (\<lambda>c. \<not> ascii_space c) (base64_encode bs)) = ?cs"
    using drop_padding_padded[OF plain(1)] b64_digits_length[of bs] by (simp add: base64_encode_def Let_def)
  moreover have "map (\<lambda>c. the (b64_digit c)) ?cs = ?ds"
    using bound b64_digit_char by (auto intro: map_idI)
  moreover have "\<not> list_ex (\<lambda>c. b64_digit c = None) ?cs"
    using bound b64_digit_char by (auto simp: list_ex_iff)
  ultimately show ?thesis
    using b64_bytes_digits[OF assms] b64_digits_length[of bs] by (simp add: base64_decode_def Let_def)
qed

end
