(* ===== verification/SqlTranslation.thy ===== *)
theory SqlTranslation
  imports JournalPayload
begin

text \<open>
  The SQL translation of \<open>src/database.js\<close>: \<open>INSERT OR IGNORE\<close> becomes \<open>ON CONFLICT DO NOTHING\<close>, the
  placeholders \<open>?\<close> outside of quotes and comments become \<open>$1\<close>, \<open>$2\<close> and so on, and parameters are
  normalised for the driver. Upper and lower case of the language are arguments.
\<close>

section \<open>Statement modes\<close>

datatype statement_mode = RunMode | AllMode

definition infer_statement_mode :: "(ustr \<Rightarrow> ustr) \<Rightarrow> ustr \<Rightarrow> statement_mode" where
  "infer_statement_mode upper sql = (let keyword = upper (takeWhile iletter (dropWhile js_space sql)) in
     if keyword \<in> {u ''SELECT'', u ''PRAGMA'', u ''EXPLAIN'', u ''WITH''} then AllMode else RunMode)"

definition mode_name :: "statement_mode \<Rightarrow> ustr" where
  "mode_name m = (case m of RunMode \<Rightarrow> u ''run'' | AllMode \<Rightarrow> u ''all'')"

definition normalize_statement_mode :: "(ustr \<Rightarrow> ustr) \<Rightarrow> (ustr \<Rightarrow> ustr) \<Rightarrow> ustr \<Rightarrow> ustr \<Rightarrow> statement_mode" where
  "normalize_statement_mode upper lower mode sql =
    (let value = lower (if mode = [] then mode_name (infer_statement_mode upper sql) else mode) in
     if value = u ''first'' \<or> value = u ''all'' then AllMode else RunMode)"

section \<open>Inserts\<close>

text \<open>A word at the start, in any case; the white space before it, which has to be there if asked.\<close>

definition match_word :: "string \<Rightarrow> ustr \<Rightarrow> (ustr \<times> ustr) option" where
  "match_word w s = (let n = length w in
     if length s \<ge> n \<and> list_all2 icase w (take n s) then Some (take n s, drop n s) else None)"

definition match_space :: "nat \<Rightarrow> ustr \<Rightarrow> (ustr \<times> ustr) option" where
  "match_space least s = (let sp = takeWhile js_space s in
     if least \<le> length sp then Some (sp, dropWhile js_space s) else None)"

text \<open>\<open>/^\s*INSERT\s+OR\s+IGNORE\b/iu\<close>: what stands before \<open>OR\<close>, and what follows \<open>IGNORE\<close>.\<close>

definition split_insert_or_ignore :: "ustr \<Rightarrow> (ustr \<times> ustr) option" where
  "split_insert_or_ignore sql =
    Option.bind (match_space 0 sql) (\<lambda>(s0, r0). Option.bind (match_word ''insert'' r0) (\<lambda>(w, r1).
    Option.bind (match_space 1 r1) (\<lambda>(s1, r2). Option.bind (match_word ''or'' r2) (\<lambda>(_, r3).
    Option.bind (match_space 1 r3) (\<lambda>(_, r4). Option.bind (match_word ''ignore'' r4) (\<lambda>(_, r5).
      if (case r5 of [] \<Rightarrow> True | c # _ \<Rightarrow> \<not> iword_char c) then Some (s0 @ w @ s1, r5) else None))))))"

text \<open>\<open>/;\s*$/\<close>\<close>

definition trailing_semicolon :: "ustr \<Rightarrow> ustr" where
  "trailing_semicolon sql = (let sp = takeWhile js_space (rev sql) in
     case dropWhile js_space (rev sql) of c # _ \<Rightarrow> if c = 59 then 59 # rev sp else [] | [] \<Rightarrow> [])"

definition rewrite_insert_or_ignore :: "ustr \<Rightarrow> ustr" where
  "rewrite_insert_or_ignore sql =
    (if split_insert_or_ignore sql = None then sql
     else let trailing = trailing_semicolon sql; body = take (length sql - length trailing) sql;
       rewritten = (case split_insert_or_ignore body of None \<Rightarrow> body | Some (before, after) \<Rightarrow> before @ after) in
       rewritten @ u '' ON CONFLICT DO NOTHING'' @ trailing)"

section \<open>Placeholders\<close>

datatype sql_state = NormalSql | LineComment | BlockComment | SingleQuoted | DoubleQuoted

definition placeholder_for_value :: "nat \<Rightarrow> param \<Rightarrow> ustr" where
  "placeholder_for_value k v = (case v of
       PBigint _ \<Rightarrow> u ''CAST($'' @ nat_str k @ u '' AS BIGINT)''
     | PJson (JNum n) \<Rightarrow> u ''CAST($'' @ nat_str k @
         (if js_is_integer (JNum n) then u '' AS BIGINT)'' else u '' AS DOUBLE PRECISION)'')
     | _ \<Rightarrow> u ''$'' @ nat_str k)"

definition nth_param :: "param list \<Rightarrow> nat \<Rightarrow> param" where
  "nth_param ps k = (if k < length ps then ps ! k else PJson JUndef)"

text \<open>\<open>45 -\<close>, \<open>47 /\<close>, \<open>42 *\<close>, \<open>39 '\<close>, \<open>34 "\<close>, \<open>63 ?\<close>, \<open>10\<close> a new line.\<close>

fun replace_placeholders :: "param list \<Rightarrow> sql_state \<Rightarrow> nat \<Rightarrow> ustr \<Rightarrow> ustr" where
  "replace_placeholders ps st k [] = []"
| "replace_placeholders ps LineComment k (c # s) =
     c # replace_placeholders ps (if c = 10 then NormalSql else LineComment) k s"
| "replace_placeholders ps BlockComment k (c # s) =
     (case s of d # t \<Rightarrow> if c = 42 \<and> d = 47 then c # d # replace_placeholders ps NormalSql k t
        else c # replace_placeholders ps BlockComment k s
      | [] \<Rightarrow> [c])"
| "replace_placeholders ps SingleQuoted k (c # s) =
     (case s of d # t \<Rightarrow> if c = 39 \<and> d = 39 then c # d # replace_placeholders ps SingleQuoted k t
        else c # replace_placeholders ps (if c = 39 then NormalSql else SingleQuoted) k s
      | [] \<Rightarrow> [c])"
| "replace_placeholders ps DoubleQuoted k (c # s) =
     (case s of d # t \<Rightarrow> if c = 34 \<and> d = 34 then c # d # replace_placeholders ps DoubleQuoted k t
        else c # replace_placeholders ps (if c = 34 then NormalSql else DoubleQuoted) k s
      | [] \<Rightarrow> [c])"
| "replace_placeholders ps NormalSql k (c # s) =
     (if c = 45 \<and> s \<noteq> [] \<and> hd s = 45 then c # 45 # replace_placeholders ps LineComment k (tl s)
      else if c = 47 \<and> s \<noteq> [] \<and> hd s = 42 then c # 42 # replace_placeholders ps BlockComment k (tl s)
      else if c = 39 then c # replace_placeholders ps SingleQuoted k s
      else if c = 34 then c # replace_placeholders ps DoubleQuoted k s
      else if c = 63 then placeholder_for_value (k + 1) (nth_param ps k) @ replace_placeholders ps NormalSql (k + 1) s
      else c # replace_placeholders ps NormalSql k s)"

definition translate_sqlite_sql_to_postgres :: "ustr \<Rightarrow> param list \<Rightarrow> ustr" where
  "translate_sqlite_sql_to_postgres sql ps = replace_placeholders ps NormalSql 0 (rewrite_insert_or_ignore sql)"

section \<open>Parameters\<close>

definition normalize_parameter :: "param \<Rightarrow> param" where
  "normalize_parameter p = (case p of
       PJson JUndef \<Rightarrow> PJson JNull
     | PBigint i \<Rightarrow> (let n = fl (of_int i) in
         if js_is_safe_integer (JNum n) then PJson (JNum n) else PJson (JStr (int_str i)))
     | _ \<Rightarrow> p)"

section \<open>Examples\<close>

lemma translated_insert:
  "translate_sqlite_sql_to_postgres (u ''INSERT OR IGNORE INTO t VALUES (?, ?, 'a?')'') [PJson (JNum 3), PJson (JStr (u ''x''))]
    = u ''INSERT  INTO t VALUES (CAST($1 AS BIGINT), $2, 'a?') ON CONFLICT DO NOTHING''"
  by code_simp

lemma translated_comment:
  "translate_sqlite_sql_to_postgres (u ''SELECT ? /* ? */ WHERE x = \"?\" -- ?'') [PJson JNull]
    = u ''SELECT $1 /* ? */ WHERE x = \"?\" -- ?''"
  by code_simp

end
