(* ===== verification/Journal.thy ===== *)
theory Journal
  imports SqlTranslation "HOL-Library.Product_Lexorder"
begin

text \<open>
  The write journal of \<open>src/database.js\<close> (\<open>JournaledPostgresD1Database\<close>, \<open>PostgresD1Database\<close>) with the
  journal table of \<open>src/cpoly-recovery.js\<close>: every write is recorded in D1 before PostgreSQL runs it in a
  transaction that also claims a receipt, and a scheduled replay runs what may not have arrived.
  Transactions lock the row of the current generation, so they are atomic here. Each call of either
  database has a fate, since both are reached over a network; PostgreSQL's execution of a statement,
  the digest, the cipher and the clock are arguments. The journal keeps no other columns than these.
\<close>

section \<open>State\<close>

datatype journal_status = JournalPending | JournalApplied | JournalFailed
datatype disposition = Blocking | TerminalRejected

record journal_row =
  jrRequest :: ustr
  jrHash :: ustr
  jrKind :: ustr
  jrCount :: nat
  jrStatus :: journal_status
  jrDisposition :: disposition
  jrCiphertext :: "nat list"
  jrAttempts :: nat
  jrLastError :: "ustr option"
  jrCreatedAt :: int
  jrUpdatedAt :: int
  jrAppliedAt :: "int option"
  jrGeneration :: "int option"
  jrSeq :: "int option"

record pg_receipt =
  prSeq :: int
  prGeneration :: int
  prRequest :: ustr
  prHash :: ustr
  prKind :: ustr
  prCount :: nat
  prAppliedAt :: int

text \<open>\<open>pgNextSeq\<close> is the sequence behind \<open>BIGSERIAL\<close>, which no rollback takes back; \<open>pgData\<close> is
  everything else in the database.\<close>

record 'd pg =
  pgGeneration :: "int option"
  pgReceipts :: "pg_receipt list"
  pgNextSeq :: int
  pgData :: 'd

record 'd world =
  wJournal :: "journal_row list"
  wPg :: "'d pg"
  wTicks :: nat
  wUuids :: nat
  wNonces :: nat
  wPgCalls :: nat
  wD1Calls :: nat

text \<open>A call does what it is asked to, or fails before or after it has.\<close>

datatype fate = Reaches | FailsBefore failure | FailsAfter failure

record 'd jenv =
  jeSha256 :: "nat list \<Rightarrow> ustr"
  jeAead :: aead
  jeNonce :: "nat \<Rightarrow> nat list"
  jeClock :: "nat \<Rightarrow> int"
  jeUuid :: "nat \<Rightarrow> ustr"
  jeUpper :: "ustr \<Rightarrow> ustr"
  jeLower :: "ustr \<Rightarrow> ustr"
  jeExec :: "ustr \<Rightarrow> param list \<Rightarrow> 'd \<Rightarrow> failure + nat \<times> 'd"
  jePgFate :: "nat \<Rightarrow> fate"
  jeD1Fate :: "nat \<Rightarrow> fate"
  jePlatform :: failure
  jeDisabled :: bool
  jeAvailable :: bool
  jeHasKey :: bool
  jeMaxBytes :: nat

type_synonym ('d, 'a) jdb = "('d world, failure, 'a) st"

abbreviation fails :: "string \<Rightarrow> failure" where
  "fails m \<equiv> plain_failure (u m)"

definition clock :: "'d jenv \<Rightarrow> ('d, int) jdb" where
  "clock env w = (Inr (jeClock env (wTicks w)), w\<lparr>wTicks := wTicks w + 1\<rparr>)"

definition request_id :: "'d jenv \<Rightarrow> ('d, ustr) jdb" where
  "request_id env w = (Inr (jeUuid env (wUuids w)), w\<lparr>wUuids := wUuids w + 1\<rparr>)"

definition fresh_nonce :: "'d jenv \<Rightarrow> ('d, nat list) jdb" where
  "fresh_nonce env w = (Inr (jeNonce env (wNonces w)), w\<lparr>wNonces := wNonces w + 1\<rparr>)"

section \<open>The journal table\<close>

type_synonym journal_stmt = "journal_row list \<Rightarrow> failure + nat \<times> journal_row list"

definition journal_run :: "'d jenv \<Rightarrow> journal_stmt \<Rightarrow> ('d, nat) jdb" where
  "journal_run env s w =
    (let w1 = w\<lparr>wD1Calls := wD1Calls w + 1\<rparr>; outcome = s (wJournal w) in
     case jeD1Fate env (wD1Calls w) of
       FailsBefore e \<Rightarrow> (Inl e, w1)
     | Reaches \<Rightarrow> (case outcome of Inl e \<Rightarrow> (Inl e, w1) | Inr (n, rows) \<Rightarrow> (Inr n, w1\<lparr>wJournal := rows\<rparr>))
     | FailsAfter e \<Rightarrow> (Inl e, case outcome of Inl _ \<Rightarrow> w1 | Inr (n, rows) \<Rightarrow> w1\<lparr>wJournal := rows\<rparr>))"

definition journal_read :: "'d jenv \<Rightarrow> (journal_row list \<Rightarrow> 'a) \<Rightarrow> ('d, 'a) jdb" where
  "journal_read env f w =
    (let w1 = w\<lparr>wD1Calls := wD1Calls w + 1\<rparr> in
     case jeD1Fate env (wD1Calls w) of Reaches \<Rightarrow> (Inr (f (wJournal w)), w1) | FailsBefore e \<Rightarrow> (Inl e, w1)
     | FailsAfter e \<Rightarrow> (Inl e, w1))"

definition hex64 :: rx where "hex64 = rtimes 64 (RCls lower_hex)"

text \<open>The constraints; \<open>GLOB '[0-9a-f]*'\<close> asks for one hexadecimal digit in front only.\<close>

definition journal_check :: "journal_row \<Rightarrow> bool" where
  "journal_check r \<longleftrightarrow> length (jrHash r) = 64 \<and> lower_hex (hd (jrHash r)) \<and> jrKind r \<in> {u ''run'', u ''batch''}
     \<and> 1 \<le> jrCount r \<and> jrCount r \<le> 512 \<and> length (jrCiphertext r) \<le> 1800000
     \<and> (jrStatus r = JournalApplied \<longrightarrow> jrAppliedAt r \<noteq> None)
     \<and> (case jrGeneration r of None \<Rightarrow> True | Some g \<Rightarrow> 1 \<le> g) \<and> (case jrSeq r of None \<Rightarrow> True | Some s \<Rightarrow> 0 \<le> s)"

definition insert_pending :: "ustr \<Rightarrow> ustr \<Rightarrow> ustr \<Rightarrow> nat \<Rightarrow> nat list \<Rightarrow> int \<Rightarrow> journal_stmt" where
  "insert_pending requestId hash kind n ciphertext now rows =
    (let r = \<lparr>jrRequest = requestId, jrHash = hash, jrKind = kind, jrCount = n, jrStatus = JournalPending,
        jrDisposition = Blocking, jrCiphertext = ciphertext, jrAttempts = 0, jrLastError = None, jrCreatedAt = now,
        jrUpdatedAt = now, jrAppliedAt = None, jrGeneration = None, jrSeq = None\<rparr> in
     if journal_check r \<and> requestId \<notin> jrRequest ` set rows then Inr (1, rows @ [r])
     else Inl (fails ''constraint failed''))"

definition update_journal :: "(journal_row \<Rightarrow> bool) \<Rightarrow> (journal_row \<Rightarrow> journal_row) \<Rightarrow> journal_stmt" where
  "update_journal p f rows = (if \<forall>r \<in> set rows. p r \<longrightarrow> journal_check (f r)
     then Inr (count_rows p rows, update_rows p f rows) else Inl (fails ''constraint failed''))"

definition insert_pending_journal_entry ::
  "'d jenv \<Rightarrow> ustr \<Rightarrow> ustr \<Rightarrow> ustr \<Rightarrow> nat \<Rightarrow> nat list \<Rightarrow> int \<Rightarrow> ('d, nat) jdb" where
  "insert_pending_journal_entry env requestId hash kind n ciphertext now =
    journal_run env (insert_pending requestId hash kind n ciphertext now)"

definition applied_row :: "int \<Rightarrow> int \<Rightarrow> int \<Rightarrow> journal_row \<Rightarrow> journal_row" where
  "applied_row appliedAt generation receiptSeq r = r\<lparr>jrStatus := JournalApplied, jrDisposition := Blocking,
     jrAttempts := jrAttempts r + 1, jrLastError := None, jrUpdatedAt := appliedAt,
     jrAppliedAt := Some (case jrAppliedAt r of Some t \<Rightarrow> t | None \<Rightarrow> appliedAt),
     jrGeneration := Some generation, jrSeq := Some receiptSeq\<rparr>"

definition mark_journal_applied :: "'d jenv \<Rightarrow> ustr \<Rightarrow> int \<Rightarrow> int \<Rightarrow> int \<Rightarrow> ('d, nat) jdb" where
  "mark_journal_applied env requestId appliedAt generation receiptSeq =
    journal_run env (update_journal (\<lambda>r. jrRequest r = requestId) (applied_row appliedAt generation receiptSeq))"

definition bound_error_message :: "ustr \<Rightarrow> ustr" where
  "bound_error_message m = take 400 (if m = [] then u ''Recovery operation failed.'' else m)"

definition retried_row :: "journal_status \<Rightarrow> disposition \<Rightarrow> ustr \<Rightarrow> int \<Rightarrow> journal_row \<Rightarrow> journal_row" where
  "retried_row status d m now r = r\<lparr>jrStatus := status, jrDisposition := d, jrAttempts := jrAttempts r + 1,
     jrLastError := Some (bound_error_message m), jrUpdatedAt := now\<rparr>"

definition mark_journal_pending :: "'d jenv \<Rightarrow> ustr \<Rightarrow> ustr \<Rightarrow> int \<Rightarrow> ('d, nat) jdb" where
  "mark_journal_pending env requestId m now =
    journal_run env (update_journal (\<lambda>r. jrRequest r = requestId) (retried_row JournalPending Blocking m now))"

definition mark_journal_failed :: "'d jenv \<Rightarrow> ustr \<Rightarrow> ustr \<Rightarrow> disposition \<Rightarrow> int \<Rightarrow> ('d, nat) jdb" where
  "mark_journal_failed env requestId m d now =
    journal_run env (update_journal (\<lambda>r. jrRequest r = requestId) (retried_row JournalFailed d m now))"

definition AMBIGUOUS_MARKERS :: "string list" where
  "AMBIGUOUS_MARKERS = [''timeout'', ''network'', ''connection'', ''disconnect'', ''socket'', ''econn'',
     ''temporarily unavailable'', ''try again'', ''provider request failed with status 5'']"

text \<open>\<open>lower(x) LIKE '%marker%'\<close>: SQLite folds ASCII letters only.\<close>

definition ascii_lower :: "ustr \<Rightarrow> ustr" where
  "ascii_lower s = map (\<lambda>c. if 65 \<le> c \<and> c \<le> 90 then c + 32 else c) s"

definition has_marker :: "ustr \<Rightarrow> bool" where
  "has_marker s = list_ex (\<lambda>m. rx_test (rlit m) s) AMBIGUOUS_MARKERS"

definition requeueable :: "journal_row \<Rightarrow> bool" where
  "requeueable r \<longleftrightarrow> jrStatus r = JournalFailed \<and> jrDisposition r = Blocking
     \<and> has_marker (ascii_lower (case jrLastError r of None \<Rightarrow> [] | Some m \<Rightarrow> m))"

definition requeue_ambiguous_failed_journal_entries :: "'d jenv \<Rightarrow> int \<Rightarrow> ('d, nat) jdb" where
  "requeue_ambiguous_failed_journal_entries env now = journal_run env
    (update_journal requeueable (\<lambda>r. r\<lparr>jrStatus := JournalPending, jrDisposition := Blocking, jrUpdatedAt := now\<rparr>))"

definition replay_candidate :: "journal_row \<Rightarrow> bool" where
  "replay_candidate r \<longleftrightarrow> jrStatus r = JournalPending
     \<or> jrStatus r = JournalApplied \<and> (jrGeneration r = None \<or> jrSeq r = None)"

text \<open>\<open>ORDER BY created_at LIMIT n\<close>\<close>

definition oldest :: "nat \<Rightarrow> (journal_row \<Rightarrow> bool) \<Rightarrow> journal_row list \<Rightarrow> journal_row list" where
  "oldest limit p rows = take limit (sort_key jrCreatedAt (filter p rows))"

definition load_recovery_journal_candidates :: "'d jenv \<Rightarrow> nat \<Rightarrow> ('d, journal_row list) jdb" where
  "load_recovery_journal_candidates env limit = journal_read env (oldest limit replay_candidate)"

record coverage =
  cvGeneration :: int
  cvWatermark :: int

text \<open>Applied under an earlier generation, after the snapshot was taken.\<close>

definition beyond_snapshot :: "coverage \<Rightarrow> int \<Rightarrow> int \<Rightarrow> int \<Rightarrow> bool" where
  "beyond_snapshot cov target g s \<longleftrightarrow> g < target
     \<and> (cvGeneration cov < g \<or> g = cvGeneration cov \<and> cvWatermark cov < s)"

definition needs_replay :: "coverage \<Rightarrow> int \<Rightarrow> journal_row \<Rightarrow> bool" where
  "needs_replay cov target r \<longleftrightarrow> jrStatus r = JournalPending
     \<or> jrStatus r = JournalApplied \<and> (case (jrGeneration r, jrSeq r) of
          (Some g, Some s) \<Rightarrow> beyond_snapshot cov target g s | _ \<Rightarrow> True)"

definition load_recovery_replay_batch :: "'d jenv \<Rightarrow> coverage \<Rightarrow> int \<Rightarrow> nat \<Rightarrow> ('d, journal_row list) jdb" where
  "load_recovery_replay_batch env cov target limit = journal_read env (oldest limit (needs_replay cov target))"

definition outstanding :: "coverage \<Rightarrow> int \<Rightarrow> journal_row \<Rightarrow> bool" where
  "outstanding cov target r \<longleftrightarrow> needs_replay cov target r \<or> jrStatus r = JournalFailed \<and> jrDisposition r = Blocking"

definition count_recovery_replay_pending :: "'d jenv \<Rightarrow> coverage \<Rightarrow> int \<Rightarrow> ('d, nat) jdb" where
  "count_recovery_replay_pending env cov target = journal_read env (\<lambda>rows. count_rows (outstanding cov target) rows)"

text \<open>Rows the snapshot covers are deleted, the oldest first.\<close>

definition covered :: "coverage \<Rightarrow> journal_row \<Rightarrow> bool" where
  "covered cov r \<longleftrightarrow> jrStatus r = JournalApplied \<and> (case (jrGeneration r, jrSeq r) of
     (Some g, Some s) \<Rightarrow> g < cvGeneration cov \<or> g = cvGeneration cov \<and> s \<le> cvWatermark cov | _ \<Rightarrow> False)"

definition covered_order :: "journal_row \<Rightarrow> int \<times> int \<times> int" where
  "covered_order r = ((case jrGeneration r of None \<Rightarrow> 0 | Some g \<Rightarrow> g), (case jrSeq r of None \<Rightarrow> 0 | Some s \<Rightarrow> s), jrCreatedAt r)"

definition cleanup_applied_recovery_journal :: "'d jenv \<Rightarrow> coverage option \<Rightarrow> nat \<Rightarrow> ('d, nat) jdb" where
  "cleanup_applied_recovery_journal env snapshot limit =
    (case snapshot of None \<Rightarrow> st_return 0 | Some cov \<Rightarrow>
      st_bind (journal_read env (\<lambda>rows. map jrRequest (take limit (sort_key covered_order (filter (covered cov) rows))))) (\<lambda>ids.
      if ids = [] then st_return 0
      else st_bind (journal_run env (\<lambda>rows. Inr (0, filter (\<lambda>r. jrRequest r \<notin> set ids) rows))) (\<lambda>_.
        st_return (length ids))))"

section \<open>Classification of errors\<close>

definition code_unit_upper_alnum :: "nat \<Rightarrow> bool" where
  "code_unit_upper_alnum c \<longleftrightarrow> digit c \<or> rng CHR ''A'' CHR ''Z'' c"

definition is_ambiguous_postgres_write_error :: "'d jenv \<Rightarrow> failure \<Rightarrow> bool" where
  "is_ambiguous_postgres_write_error env f =
    (if flConflict f then False
     else if flRetryable f then True
     else if flStatus f \<in> {408, 425, 429} \<or> 500 \<le> flStatus f then True
     else if matches (rtimes 5 (RCls code_unit_upper_alnum)) (flCode f)
     then take 2 (flCode f) = u ''08'' \<or> flCode f \<in> {u ''57P01'', u ''57P02'', u ''57P03''}
     else has_marker (jeLower env (flMessage f)))"

definition CONSTRAINT_REJECTIONS :: "string list" where
  "CONSTRAINT_REJECTIONS = [''duplicate key value violates unique constraint'', ''violates foreign key constraint'',
     ''violates not-null constraint'', ''violates check constraint'', ''violates exclusion constraint'']"

definition is_terminal_postgres_write_rejection :: "'d jenv \<Rightarrow> failure \<Rightarrow> bool" where
  "is_terminal_postgres_write_rejection env f =
    (if flConflict f then False
     else matches (RSeq (rlit ''23'') (rtimes 3 (RCls code_unit_upper_alnum))) (jeUpper env (flCode f))
       \<or> list_ex (\<lambda>m. rx_test (rlit m) (jeLower env (flProviderError f))) CONSTRAINT_REJECTIONS)"

definition journal_failure_message :: "failure \<Rightarrow> ustr" where
  "journal_failure_message f = (if flProviderError f \<noteq> [] then flProviderError f
     else if flMessage f \<noteq> [] then flMessage f else u ''Error'')"

section \<open>Transactions\<close>

text \<open>A transaction that throws is rolled back, up to the sequence.\<close>

definition pg_transaction :: "'d jenv \<Rightarrow> ('d pg \<Rightarrow> (failure + 'a) \<times> 'd pg) \<Rightarrow> ('d, 'a) jdb" where
  "pg_transaction env body w =
    (let w1 = w\<lparr>wPgCalls := wPgCalls w + 1\<rparr>; (r, p) = body (wPg w);
       done = (case r of Inl _ \<Rightarrow> w1\<lparr>wPg := (wPg w)\<lparr>pgNextSeq := pgNextSeq p\<rparr>\<rparr> | Inr _ \<Rightarrow> w1\<lparr>wPg := p\<rparr>) in
     case jePgFate env (wPgCalls w) of
       FailsBefore e \<Rightarrow> (Inl e, w1)
     | Reaches \<Rightarrow> (r, done)
     | FailsAfter e \<Rightarrow> (case r of Inl e' \<Rightarrow> Inl e' | Inr _ \<Rightarrow> Inl e, done))"

definition receipt_check :: "pg_receipt \<Rightarrow> bool" where
  "receipt_check r \<longleftrightarrow> 1 \<le> prGeneration r \<and> length (prHash r) = 64 \<and> prKind r \<in> {u ''run'', u ''batch''} \<and> 1 \<le> prCount r"

definition check_violation :: failure where
  "check_violation = (plain_failure [])\<lparr>flCode := u ''23514''\<rparr>"

definition receipt_conflict :: "ustr \<Rightarrow> failure" where
  "receipt_conflict requestId = (plain_failure (u ''PostgreSQL write receipt conflict for request '' @ requestId @ u ''.''))
     \<lparr>flConflict := True\<rparr>"

definition generation_mismatch :: "string \<Rightarrow> int \<Rightarrow> int \<Rightarrow> failure" where
  "generation_mismatch what expected found = plain_failure (u ''PostgreSQL recovery generation mismatch: expected '' @ u what
     @ int_str expected @ u '' but found '' @ int_str found @ u ''.'')"

definition execute_translated_operation :: "'d jenv \<Rightarrow> sql_operation \<Rightarrow> 'd \<Rightarrow> failure + nat \<times> 'd" where
  "execute_translated_operation env op d =
    jeExec env (translate_sqlite_sql_to_postgres (opSql op) (opParams op)) (map normalize_parameter (opParams op)) d"

fun run_operations :: "'d jenv \<Rightarrow> sql_operation list \<Rightarrow> 'd \<Rightarrow> failure + nat list \<times> 'd" where
  "run_operations env [] d = Inr ([], d)"
| "run_operations env (op # ops) d =
     sbind (ensure (normalize_statement_mode (jeUpper env) (jeLower env) (opMode op) (opSql op) = RunMode)
         (fails ''Mutating PostgreSQL journal entries must not contain reads.'')) (\<lambda>_.
     sbind (execute_translated_operation env op d) (\<lambda>(n, d').
     sbind (run_operations env ops d') (\<lambda>(ns, d''). Inr (n # ns, d''))))"

fun run_operations_direct :: "'d jenv \<Rightarrow> sql_operation list \<Rightarrow> 'd \<Rightarrow> failure + nat list \<times> 'd" where
  "run_operations_direct env [] d = Inr ([], d)"
| "run_operations_direct env (op # ops) d = sbind (execute_translated_operation env op d) (\<lambda>(n, d').
     sbind (run_operations_direct env ops d') (\<lambda>(ns, d''). Inr (n # ns, d'')))"

record applied =
  apResults :: "nat list"
  apGeneration :: int
  apSeq :: int

text \<open>The claim of a receipt: a request that has one already is not run again.\<close>

definition claim_and_run ::
  "'d jenv \<Rightarrow> pg_receipt \<Rightarrow> sql_operation list \<Rightarrow> 'd pg \<Rightarrow> (failure + applied) \<times> 'd pg" where
  "claim_and_run env r ops p =
    (let p1 = p\<lparr>pgNextSeq := pgNextSeq p + 1\<rparr> in
     if \<not> receipt_check r then (Inl check_violation, p1)
     else if \<exists>x \<in> set (pgReceipts p). prRequest x = prRequest r \<or> prSeq x = prSeq r then
       (case List.find (\<lambda>x. prRequest x = prRequest r) (pgReceipts p) of
          None \<Rightarrow> (Inl (receipt_conflict (prRequest r)), p1)
        | Some x \<Rightarrow> if prHash x \<noteq> prHash r \<or> prKind x \<noteq> prKind r \<or> prCount x \<noteq> length ops
            then (Inl (receipt_conflict (prRequest r)), p1)
            else (Inr \<lparr>apResults = replicate (length ops) 0, apGeneration = prGeneration x, apSeq = prSeq x\<rparr>, p1))
     else (case run_operations env ops (pgData p) of
          Inl e \<Rightarrow> (Inl e, p1)
        | Inr (ns, d) \<Rightarrow> (Inr \<lparr>apResults = ns, apGeneration = prGeneration r, apSeq = prSeq r\<rparr>,
            p1\<lparr>pgReceipts := pgReceipts p @ [r], pgData := d\<rparr>)))"

definition apply_body :: "'d jenv \<Rightarrow> int \<Rightarrow> ustr \<Rightarrow> ustr \<Rightarrow> ustr \<Rightarrow> sql_operation list \<Rightarrow> int option
    \<Rightarrow> 'd pg \<Rightarrow> (failure + applied) \<times> 'd pg" where
  "apply_body env appliedAt requestId hash kind ops forced p =
    (case pgGeneration p of
       None \<Rightarrow> (Inl (fails ''PostgreSQL CPOLY runtime state is missing.''), p)
     | Some current \<Rightarrow>
         let generation = (case forced of None \<Rightarrow> current | Some g \<Rightarrow> g) in
         if current \<noteq> generation then (Inl (generation_mismatch '''' generation current), p)
         else claim_and_run env \<lparr>prSeq = pgNextSeq p, prGeneration = generation, prRequest = requestId, prHash = hash,
           prKind = kind, prCount = length ops, prAppliedAt = appliedAt\<rparr> ops p)"

definition apply_mutating_operations_with_receipt ::
  "'d jenv \<Rightarrow> ustr \<Rightarrow> ustr \<Rightarrow> ustr \<Rightarrow> sql_operation list \<Rightarrow> int option \<Rightarrow> ('d, applied) jdb" where
  "apply_mutating_operations_with_receipt env requestId hash kind ops forced =
    st_bind (clock env) (\<lambda>appliedAt. pg_transaction env (apply_body env appliedAt requestId hash kind ops forced))"

definition apply_mutating_operations_direct :: "'d jenv \<Rightarrow> sql_operation list \<Rightarrow> ('d, nat list) jdb" where
  "apply_mutating_operations_direct env ops = pg_transaction env (\<lambda>p.
    case run_operations_direct env ops (pgData p) of Inl e \<Rightarrow> (Inl e, p) | Inr (ns, d) \<Rightarrow> (Inr ns, p\<lparr>pgData := d\<rparr>))"

definition watermark :: "pg_receipt list \<Rightarrow> int" where
  "watermark rs = foldl max 0 (map prSeq rs)"

definition promote_body :: "coverage \<Rightarrow> int \<Rightarrow> 'd pg \<Rightarrow> (failure + unit) \<times> 'd pg" where
  "promote_body cov target p =
    (case pgGeneration p of
       None \<Rightarrow> (Inl (fails ''PostgreSQL CPOLY runtime state is missing.''), p)
     | Some current \<Rightarrow>
         if current = target then (Inr (), p)
         else if current \<noteq> cvGeneration cov
         then (Inl (generation_mismatch ''snapshot generation '' (cvGeneration cov) current), p)
         else if watermark (pgReceipts p) < cvWatermark cov
         then (Inl (plain_failure (u ''PostgreSQL receipt watermark '' @ int_str (watermark (pgReceipts p))
           @ u '' did not cover snapshot watermark '' @ int_str (cvWatermark cov) @ u ''.'')), p)
         else (Inr (), p\<lparr>pgGeneration := Some target\<rparr>))"

definition promote_recovery_generation :: "'d jenv \<Rightarrow> coverage \<Rightarrow> int \<Rightarrow> ('d, unit) jdb" where
  "promote_recovery_generation env cov target = pg_transaction env (promote_body cov target)"

definition get_current_receipt_watermark :: "'d jenv \<Rightarrow> ('d, int \<times> int) jdb" where
  "get_current_receipt_watermark env = pg_transaction env (\<lambda>p.
    (case pgGeneration p of None \<Rightarrow> Inl (fails ''PostgreSQL CPOLY runtime state is missing.'')
     | Some g \<Rightarrow> Inr (g, watermark (pgReceipts p)), p))"

section \<open>A write\<close>

definition swallowed :: "('d, 'a) jdb \<Rightarrow> ('d, unit) jdb" where
  "swallowed m = st_catch (st_bind m (\<lambda>_. st_return ())) (\<lambda>_. st_return ())"

definition write_failed :: "'d jenv \<Rightarrow> ustr \<Rightarrow> failure \<Rightarrow> ('d, 'a) jdb" where
  "write_failed env requestId e =
    (let rejected = is_terminal_postgres_write_rejection env e in
     st_bind (swallowed (st_bind (clock env) (\<lambda>now.
       if \<not> rejected \<and> is_ambiguous_postgres_write_error env e
       then mark_journal_pending env requestId (journal_failure_message e) now
       else mark_journal_failed env requestId (journal_failure_message e)
         (if rejected then TerminalRejected else Blocking) now))) (\<lambda>_. st_throw e))"

definition run_journalled :: "'d jenv \<Rightarrow> ustr \<Rightarrow> ustr \<Rightarrow> ustr \<Rightarrow> sql_operation list \<Rightarrow> ('d, nat list) jdb" where
  "run_journalled env requestId hash kind ops =
    st_catch (st_bind (apply_mutating_operations_with_receipt env requestId hash kind ops None) (\<lambda>a.
        st_bind (swallowed (st_bind (clock env) (\<lambda>now.
          mark_journal_applied env requestId now (apGeneration a) (apSeq a)))) (\<lambda>_.
        st_return (apResults a))))
      (write_failed env requestId)"

definition execute_mutating_operations :: "'d jenv \<Rightarrow> ustr \<Rightarrow> sql_operation list \<Rightarrow> ('d, nat list) jdb" where
  "execute_mutating_operations env kind ops =
    (if jeDisabled env then apply_mutating_operations_direct env ops
     else st_bind (st_ensure (jeAvailable env)
         (fails ''PostgreSQL writes are blocked because the D1 recovery journal is unavailable.'')) (\<lambda>_.
     st_bind (st_ensure (jeHasKey env)
         (fails ''PostgreSQL writes are blocked because CPOLY_BACKUP_MASTER_KEY is missing.'')) (\<lambda>_.
     st_bind (request_id env) (\<lambda>requestId.
     st_bind (fresh_nonce env) (\<lambda>nonce.
     let payload = build_journal_payload (jeSha256 env) requestId kind ops;
       ciphertext = encrypt_recovery_string (jeAead env) nonce (jtJson payload) in
     st_bind (st_ensure (length ciphertext \<le> jeMaxBytes env)
         (fails ''PostgreSQL recovery journal payload exceeded the configured D1 cap.'')) (\<lambda>_.
     st_bind (clock env) (\<lambda>now.
     st_bind (insert_pending_journal_entry env requestId (jtHash payload) kind (jtCount payload) ciphertext now) (\<lambda>_.
     run_journalled env requestId (jtHash payload) kind ops))))))))"

text \<open>\<open>batch\<close> and \<open>run\<close>\<close>

definition pg_batch :: "'d jenv \<Rightarrow> sql_operation list \<Rightarrow> ('d, nat list) jdb" where
  "pg_batch env ops = (if ops = [] then st_return [] else execute_mutating_operations env (u ''batch'') ops)"

definition pg_run :: "'d jenv \<Rightarrow> sql_operation \<Rightarrow> ('d, nat) jdb" where
  "pg_run env op = st_bind (execute_mutating_operations env (u ''run'') [op]) (\<lambda>ns. st_return (hd ns))"

section \<open>Replay\<close>

definition hex_value :: "nat \<Rightarrow> nat" where
  "hex_value c = (if digit c then c - 48 else c - 87)"

fun hex_to_bytes :: "ustr \<Rightarrow> nat list" where
  "hex_to_bytes (a # b # s) = (hex_value a * 16 + hex_value b) # hex_to_bytes s"
| "hex_to_bytes _ = []"

definition constant_time_hex_equal :: "ustr \<Rightarrow> ustr \<Rightarrow> bool" where
  "constant_time_hex_equal a b \<longleftrightarrow> matches hex64 a \<and> matches hex64 b \<and> hex_to_bytes a = hex_to_bytes b"

definition stored_payload :: "'d jenv \<Rightarrow> journal_row \<Rightarrow> failure + journal_payload" where
  "stored_payload env r = sbind (thrown_by_platform (jePlatform env) (decrypt_recovery_string (jeAead env) (jrCiphertext r))) (\<lambda>json.
     sbind (ensure (constant_time_hex_equal (sha256_hex_utf8 (jeSha256 env) json) (jrHash r))
       (fails ''Stored PostgreSQL journal payload hash mismatch.'')) (\<lambda>_.
     sbind (thrown_by_platform (jePlatform env) (parse_journal_payload json (jrRequest r))) (\<lambda>p.
     sbind (ensure (plKind p = JStr (jrKind r) \<and> length (plOperations p) = jrCount r)
       (fails ''Stored PostgreSQL journal metadata mismatch.'')) (\<lambda>_. Inr p))))"

definition replay_entry :: "'d jenv \<Rightarrow> int option \<Rightarrow> journal_row \<Rightarrow> ('d, nat) jdb" where
  "replay_entry env forced r =
    st_bind (st_lift (stored_payload env r)) (\<lambda>p.
    st_bind (apply_mutating_operations_with_receipt env (jrRequest r) (jrHash r) (jrKind r) (plOperations p) forced) (\<lambda>a.
    st_bind (clock env) (\<lambda>now.
    st_bind (mark_journal_applied env (jrRequest r) now (apGeneration a) (apSeq a)) (\<lambda>_. st_return 1))))"

definition definitive :: "failure \<Rightarrow> bool" where
  "definitive e \<longleftrightarrow> flConflict e \<or> rx_test (rlit ''stored postgresql journal'') (ascii_lower (flMessage e))"

definition rejected_for_good :: "'d jenv \<Rightarrow> failure \<Rightarrow> bool" where
  "rejected_for_good env e \<longleftrightarrow> \<not> definitive e \<and> is_terminal_postgres_write_rejection env e"

definition record_replay_failure :: "'d jenv \<Rightarrow> ustr \<Rightarrow> failure \<Rightarrow> ('d, nat) jdb" where
  "record_replay_failure env requestId e = st_bind (clock env) (\<lambda>now.
    if rejected_for_good env e then mark_journal_failed env requestId (journal_failure_message e) TerminalRejected now
    else if \<not> definitive e \<and> is_ambiguous_postgres_write_error env e
    then mark_journal_pending env requestId (journal_failure_message e) now
    else mark_journal_failed env requestId (journal_failure_message e) Blocking now)"

fun replay_candidates :: "'d jenv \<Rightarrow> journal_row list \<Rightarrow> ('d, nat) jdb" where
  "replay_candidates env [] = st_return 0"
| "replay_candidates env (r # rs) =
     st_bind (st_catch (replay_entry env None r)
       (\<lambda>e. st_bind (swallowed (record_replay_failure env (jrRequest r) e)) (\<lambda>_. st_return 0))) (\<lambda>n.
     st_bind (replay_candidates env rs) (\<lambda>m. st_return (n + m)))"

definition replay_recovery_journal :: "'d jenv \<Rightarrow> nat \<Rightarrow> ('d, nat) jdb" where
  "replay_recovery_journal env limit =
    (if \<not> jeAvailable env \<or> \<not> jeHasKey env then st_return 0
     else st_bind (clock env) (\<lambda>now.
       st_bind (requeue_ambiguous_failed_journal_entries env now) (\<lambda>_.
       st_bind (load_recovery_journal_candidates env limit) (replay_candidates env))))"

section \<open>Recovery\<close>

fun replay_batch :: "'d jenv \<Rightarrow> int \<Rightarrow> journal_row list \<Rightarrow> ('d, nat) jdb" where
  "replay_batch env target [] = st_return 0"
| "replay_batch env target (r # rs) =
     st_bind (st_catch (replay_entry env (Some target) r)
       (\<lambda>e. st_bind (record_replay_failure env (jrRequest r) e) (\<lambda>_.
          if rejected_for_good env e then st_return 0 else st_throw e))) (\<lambda>n.
     st_bind (replay_batch env target rs) (\<lambda>m. st_return (n + m)))"

text \<open>\<open>while (true)\<close>: whether it returns has to be proved.\<close>

partial_function (option) replay_until_exhausted ::
  "'d jenv \<Rightarrow> coverage \<Rightarrow> int \<Rightarrow> nat \<Rightarrow> nat \<Rightarrow> 'd world \<Rightarrow> ((failure + nat) \<times> 'd world) option" where
  "replay_until_exhausted env cov target limit replayed w =
    (case load_recovery_replay_batch env cov target limit w of
       (Inl e, w1) \<Rightarrow> Some (Inl e, w1)
     | (Inr batch, w1) \<Rightarrow>
         if batch = [] then Some (Inr replayed, w1)
         else (case replay_batch env target batch w1 of
             (Inl e, w2) \<Rightarrow> Some (Inl e, w2)
           | (Inr n, w2) \<Rightarrow> replay_until_exhausted env cov target limit (replayed + n) w2))"

declare replay_until_exhausted.simps [code]

record recovery_answer =
  raGeneration :: int
  raSeq :: int
  raReplayed :: nat
  raPending :: nat

definition finish_recovery :: "'d jenv \<Rightarrow> coverage \<Rightarrow> int \<Rightarrow> nat \<Rightarrow> ('d, recovery_answer) jdb" where
  "finish_recovery env cov target replayed =
    st_bind (count_recovery_replay_pending env cov target) (\<lambda>pending.
    st_bind (get_current_receipt_watermark env) (\<lambda>(g, s).
    st_return \<lparr>raGeneration = g, raSeq = s, raReplayed = replayed, raPending = pending\<rparr>))"

definition prepare_recovery :: "'d jenv \<Rightarrow> coverage \<Rightarrow> int \<Rightarrow> ('d, unit) jdb" where
  "prepare_recovery env cov target =
    st_bind (st_ensure (jeAvailable env \<and> jeHasKey env) (fails ''Recovery journal is unavailable.'')) (\<lambda>_.
    st_bind (clock env) (\<lambda>now.
    st_bind (requeue_ambiguous_failed_journal_entries env now) (\<lambda>_.
    promote_recovery_generation env cov target)))"

definition complete_recovery_replay ::
  "'d jenv \<Rightarrow> coverage \<Rightarrow> int \<Rightarrow> nat \<Rightarrow> 'd world \<Rightarrow> ((failure + recovery_answer) \<times> 'd world) option" where
  "complete_recovery_replay env cov target limit w =
    (case prepare_recovery env cov target w of
       (Inl e, w1) \<Rightarrow> Some (Inl e, w1)
     | (Inr _, w1) \<Rightarrow> (case replay_until_exhausted env cov target limit 0 w1 of
         None \<Rightarrow> None
       | Some (Inl e, w2) \<Rightarrow> Some (Inl e, w2)
       | Some (Inr n, w2) \<Rightarrow> Some (finish_recovery env cov target n w2)))"

end
