(* ===== verification/BackupDescriptor.thy ===== *)
theory BackupDescriptor
  imports Json Journal
begin

text \<open>
  The description of a database backup (\<open>src/cpoly-recovery.js\<close>): limits from the environment, the
  normalisation of a descriptor with its archive, chunks and manifest, and the descriptor read back
  from its stored text. Lower-casing, \<open>Date.parse\<close>, the decoding of a request and the digest are
  arguments; the environment gives a value to each name.
\<close>

section \<open>Errors and arguments\<close>

record route_error =
  reStatus :: nat
  reMessage :: ustr

type_synonym 'a route = "route_error thrown + 'a"

abbreviation reject :: "nat \<Rightarrow> ustr \<Rightarrow> 'a route" where
  "reject status message \<equiv> Inl (Thrown \<lparr>reStatus = status, reMessage = message\<rparr>)"

abbreviation invalid :: "ustr \<Rightarrow> 'a route" where
  "invalid fieldName \<equiv> reject 400 (fieldName @ u '' is invalid.'')"

record platform =
  pfLower :: "ustr \<Rightarrow> ustr"
  pfDateValid :: "ustr \<Rightarrow> bool"
  pfDecode :: "nat list \<Rightarrow> ustr"
  pfSha256 :: "nat list \<Rightarrow> ustr"

type_synonym bindings = "string \<Rightarrow> jsv"

definition MAX_SAFE_INTEGER :: int where "MAX_SAFE_INTEGER = 9007199254740991"

section \<open>Fields\<close>

text \<open>\<open>Number.parseInt(s, 10)\<close>, with \<open>None\<close> for NaN.\<close>

definition parse_int :: "ustr \<Rightarrow> int option" where
  "parse_int s = (let (negative, body) = split_sign (dropWhile js_space s); ds = takeWhile digit body in
     if ds = [] then None else Some (if negative then - int (digits_val ds) else int (digits_val ds)))"

definition positive_integer :: "jsv \<Rightarrow> ustr \<Rightarrow> int \<Rightarrow> int \<Rightarrow> int route" where
  "positive_integer value fieldName minimum maximum = sbind (to_string value) (\<lambda>s.
     case parse_int s of None \<Rightarrow> invalid fieldName
     | Some n \<Rightarrow> if \<bar>n\<bar> \<le> MAX_SAFE_INTEGER \<and> minimum \<le> n \<and> n \<le> maximum then Inr n else invalid fieldName)"

definition bounded_integer :: "jsv \<Rightarrow> int \<Rightarrow> int \<Rightarrow> int \<Rightarrow> int" where
  "bounded_integer value fallback minimum maximum =
     (case parse_int (to_str (coalesce value (JNum (of_int fallback)))) of
        None \<Rightarrow> fallback
      | Some n \<Rightarrow> if \<bar>n\<bar> \<le> MAX_SAFE_INTEGER then min maximum (max minimum n) else fallback)"

definition normalize_object :: "jsv \<Rightarrow> ustr \<Rightarrow> jsv route" where
  "normalize_object value fieldName = (if js_is_plain_object value then Inr value else invalid fieldName)"

definition normalize_array :: "jsv \<Rightarrow> ustr \<Rightarrow> jsv list route" where
  "normalize_array value fieldName = (if js_is_array value then Inr (elems value) else invalid fieldName)"

definition normalize_boolean :: "jsv \<Rightarrow> ustr \<Rightarrow> bool route" where
  "normalize_boolean value fieldName = (case value of JBool b \<Rightarrow> Inr b | _ \<Rightarrow> invalid fieldName)"

definition non_empty_string :: "jsv \<Rightarrow> ustr \<Rightarrow> nat \<Rightarrow> ustr route" where
  "non_empty_string value fieldName maxLength = sbind (to_string (js_or value (JStr []))) (\<lambda>s.
     let text = js_trim s in if text = [] \<or> maxLength < length text then invalid fieldName else Inr text)"

definition optional_string :: "jsv \<Rightarrow> ustr \<Rightarrow> nat \<Rightarrow> ustr option route" where
  "optional_string value fieldName maxLength =
     (if nullish value \<or> value = JStr [] then Inr None
      else sbind (non_empty_string value fieldName maxLength) (\<lambda>s. Inr (Some s)))"

definition iso_timestamp :: "platform \<Rightarrow> jsv \<Rightarrow> ustr \<Rightarrow> ustr route" where
  "iso_timestamp pf value fieldName = sbind (non_empty_string value fieldName 64) (\<lambda>text.
     if pfDateValid pf text then Inr text else invalid fieldName)"

definition SAFE_FILE_NAME_PATTERN :: rx where
  "SAFE_FILE_NAME_PATTERN = ratleast 1 (RCls (\<lambda>c. alnum c \<or> one_of ''._-'' c))"

definition at_end :: "ustr \<Rightarrow> nat \<Rightarrow> bool" where
  "at_end s i \<longleftrightarrow> i = length s"

definition DUMP_SUFFIX :: rx where
  "DUMP_SUFFIX = RSeq (rlit ''.'') (RAlt (rilit ''dump'') (rilit ''sql''))"

definition GPG_SUFFIX :: rx where "GPG_SUFFIX = RSeq (rlit ''.'') (rilit ''gpg'')"

definition safe_file_name :: "jsv \<Rightarrow> ustr \<Rightarrow> rx option \<Rightarrow> ustr route" where
  "safe_file_name value fieldName requiredSuffix = sbind (non_empty_string value fieldName 256) (\<lambda>text.
     if \<not> matches SAFE_FILE_NAME_PATTERN text \<or> rx_test (rlit ''..'') text \<or> 47 \<in> set text \<or> 92 \<in> set text
     then invalid fieldName
     else if (case requiredSuffix of None \<Rightarrow> False | Some r \<Rightarrow> \<not> rx_search anywhere at_end r text) then invalid fieldName
     else Inr text)"

definition SHA256_HEX_PATTERN :: rx where "SHA256_HEX_PATTERN = rtimes 64 (RCls lower_hex)"

definition trimmed_lower :: "platform \<Rightarrow> jsv \<Rightarrow> ustr route" where
  "trimmed_lower pf value = sbind (to_string (js_or value (JStr []))) (\<lambda>s. Inr (pfLower pf (js_trim s)))"

definition sha256_field :: "platform \<Rightarrow> jsv \<Rightarrow> ustr \<Rightarrow> ustr route" where
  "sha256_field pf value fieldName = sbind (trimmed_lower pf value) (\<lambda>text.
     if matches SHA256_HEX_PATTERN text then Inr text else invalid fieldName)"

section \<open>Limits\<close>

definition HARD_MAX_CHUNK_BYTES :: int where "HARD_MAX_CHUNK_BYTES = 524288"
definition DEFAULT_BACKUP_RETENTION_HOURS :: int where "DEFAULT_BACKUP_RETENTION_HOURS = 24 * 7"
definition MAX_BACKUP_DESCRIPTOR_JSON_BYTES :: nat where "MAX_BACKUP_DESCRIPTOR_JSON_BYTES = 262144"

definition max_chunk_bytes :: "bindings \<Rightarrow> int" where
  "max_chunk_bytes vars = bounded_integer (vars ''CPOLY_BACKUP_MAX_CHUNK_BYTES'') 524288 1 HARD_MAX_CHUNK_BYTES"

definition max_backup_bytes :: "bindings \<Rightarrow> int" where
  "max_backup_bytes vars = bounded_integer (vars ''CPOLY_BACKUP_MAX_BACKUP_BYTES'') 33554432
     (max_chunk_bytes vars) (HARD_MAX_CHUNK_BYTES * 512)"

definition max_backup_chunks :: "bindings \<Rightarrow> int" where
  "max_backup_chunks vars = bounded_integer (vars ''CPOLY_BACKUP_MAX_CHUNKS'') 512 1 4096"

definition max_retained_backups :: "bindings \<Rightarrow> int" where
  "max_retained_backups vars = bounded_integer (vars ''CPOLY_BACKUP_MAX_RETAINED_BACKUPS'') 7 1 64"

definition max_retained_bytes :: "bindings \<Rightarrow> int" where
  "max_retained_bytes vars = bounded_integer (vars ''CPOLY_BACKUP_MAX_RETAINED_BYTES'') 67108864
     (max_backup_bytes vars) (33554432 * 64)"

definition stale_upload_hours :: "bindings \<Rightarrow> int" where
  "stale_upload_hours vars = bounded_integer (vars ''CPOLY_BACKUP_STALE_UPLOAD_HOURS'') 12 1 (DEFAULT_BACKUP_RETENTION_HOURS * 4)"

definition nonce_prune_limit :: "bindings \<Rightarrow> int" where
  "nonce_prune_limit vars = bounded_integer (vars ''CPOLY_NONCE_PRUNE_LIMIT'') 200 10 1000"

definition journal_replay_limit :: "bindings \<Rightarrow> int" where
  "journal_replay_limit vars = bounded_integer (vars ''CPOLY_JOURNAL_REPLAY_LIMIT'') 24 1 128"

definition journal_cleanup_limit :: "bindings \<Rightarrow> int" where
  "journal_cleanup_limit vars = bounded_integer (vars ''CPOLY_JOURNAL_CLEANUP_LIMIT'') 64 1 256"

definition kv_propagation_delay_ms :: "bindings \<Rightarrow> int" where
  "kv_propagation_delay_ms vars = bounded_integer (vars ''CPOLY_BACKUP_KV_PROPAGATION_DELAY_MS'') (60 * 1000) 0 (10 * 60 * 1000)"

definition backup_restore_lease_ms :: "bindings \<Rightarrow> int" where
  "backup_restore_lease_ms vars =
     bounded_integer (vars ''CPOLY_BACKUP_RESTORE_LEASE_MS'') (30 * 60 * 1000) 60000 (24 * 60 * 60 * 1000)"

definition recovery_lease_ms :: "bindings \<Rightarrow> int" where
  "recovery_lease_ms vars =
     bounded_integer (vars ''CPOLY_RECOVERY_LEASE_MS'') (60 * 60 * 1000) (5 * 60 * 1000) (24 * 60 * 60 * 1000)"

definition backup_retention_hours :: "jsv \<Rightarrow> int" where
  "backup_retention_hours value = bounded_integer value DEFAULT_BACKUP_RETENTION_HOURS 1 (DEFAULT_BACKUP_RETENTION_HOURS * 4)"

definition requested_retention_hours :: "jsv \<Rightarrow> bindings \<Rightarrow> int route" where
  "requested_retention_hours body vars =
     (let fallback = backup_retention_hours (vars ''CPOLY_BACKUP_RETENTION_HOURS'') in
      if nullish (dot body ''retentionHours'') then Inr fallback
      else positive_integer (dot body ''retentionHours'') (u ''retentionHours'') 1 fallback)"

record limits =
  lmChunkBytes :: int
  lmBackupBytes :: int
  lmChunks :: int

definition backup_descriptor_limits :: "bindings \<Rightarrow> limits" where
  "backup_descriptor_limits vars = \<lparr>lmChunkBytes = max_chunk_bytes vars, lmBackupBytes = max_backup_bytes vars,
     lmChunks = max_backup_chunks vars\<rparr>"

definition stored_descriptor_limits :: limits where
  "stored_descriptor_limits = \<lparr>lmChunkBytes = HARD_MAX_CHUNK_BYTES, lmBackupBytes = HARD_MAX_CHUNK_BYTES * 4096,
     lmChunks = 4096\<rparr>"

section \<open>Archive and chunks\<close>

record archive =
  arFileName :: ustr
  arSizeBytes :: int
  arSha256 :: ustr
  arChunkCount :: int
  arChunkSizeBytes :: int
  arContentType :: ustr
  arEncryption :: ustr
  arDatabase :: "ustr option"
  arFormat :: "ustr option"

record chunk =
  ckIndex :: int
  ckSizeBytes :: int
  ckSha256 :: ustr

definition jobject :: "(string \<times> jsv) list \<Rightarrow> jsv" where
  "jobject kvs = JObj (map (\<lambda>(k, v). (u k, v)) kvs)"

abbreviation jint :: "int \<Rightarrow> jsv" where
  "jint n \<equiv> JNum (of_int n)"

definition UNENCRYPTED_FORMAT :: ustr where "UNENCRYPTED_FORMAT = u ''none''"
definition ENCRYPTION_FORMAT :: ustr where "ENCRYPTION_FORMAT = u ''openpgp-symmetric-aes256''"

definition archive_encryption_format :: "platform \<Rightarrow> jsv \<Rightarrow> ustr route" where
  "archive_encryption_format pf value = sbind (to_string (js_or value (JStr UNENCRYPTED_FORMAT))) (\<lambda>s.
     let normalized = pfLower pf (js_trim s) in
     if normalized \<in> {ENCRYPTION_FORMAT, u ''aes256-openpgp'', u ''gpg-aes256-symmetric'', u ''openpgp-aes256-symmetric''}
     then Inr ENCRYPTION_FORMAT
     else if normalized \<in> {UNENCRYPTED_FORMAT, u ''plaintext'', u ''custom-dump'', u ''postgres-custom''}
     then Inr UNENCRYPTED_FORMAT
     else reject 400 (u ''Backup archive encryption format was invalid.''))"

definition normalize_archive :: "platform \<Rightarrow> limits \<Rightarrow> jsv \<Rightarrow> archive route" where
  "normalize_archive pf lm value =
    sbind (normalize_object value (u ''archive'')) (\<lambda>object.
    sbind (safe_file_name (dot object ''fileName'') (u ''archive.fileName'') None) (\<lambda>fileName.
    sbind (optional_string (dot object ''format'') (u ''archive.format'') 128) (\<lambda>format.
    sbind (optional_string (dot object ''database'') (u ''archive.database'') 256) (\<lambda>database.
    sbind (positive_integer (dot object ''sizeBytes'') (u ''archive.sizeBytes'') 1 (lmBackupBytes lm)) (\<lambda>sizeBytes.
    sbind (sha256_field pf (dot object ''sha256'') (u ''archive.sha256'')) (\<lambda>sha256.
    sbind (positive_integer (dot object ''chunkCount'') (u ''archive.chunkCount'') 1 (lmChunks lm)) (\<lambda>chunkCount.
    sbind (positive_integer (dot object ''chunkSizeBytes'') (u ''archive.chunkSizeBytes'') 1 (lmChunkBytes lm)) (\<lambda>chunkSizeBytes.
    sbind (optional_string (dot object ''contentType'') (u ''archive.contentType'') 128) (\<lambda>contentType.
    sbind (archive_encryption_format pf (coalesce (dot object ''encryptionFormat'') (dot object ''ciphertextFormat''))) (\<lambda>encryption.
    Inr \<lparr>arFileName = fileName, arSizeBytes = sizeBytes, arSha256 = sha256, arChunkCount = chunkCount,
      arChunkSizeBytes = chunkSizeBytes,
      arContentType = (case contentType of None \<Rightarrow> u ''application/octet-stream'' | Some t \<Rightarrow> t),
      arEncryption = encryption, arDatabase = database, arFormat = format\<rparr>))))))))))"

definition archive_json :: "archive \<Rightarrow> jsv" where
  "archive_json a = jobject ([(''fileName'', JStr (arFileName a)), (''sizeBytes'', jint (arSizeBytes a)),
     (''sha256'', JStr (arSha256 a)), (''chunkCount'', jint (arChunkCount a)),
     (''chunkSizeBytes'', jint (arChunkSizeBytes a)), (''contentType'', JStr (arContentType a)),
     (''encryptionFormat'', JStr (arEncryption a))]
     @ (case arDatabase a of None \<Rightarrow> [] | Some d \<Rightarrow> [(''database'', JStr d)])
     @ (case arFormat a of None \<Rightarrow> [] | Some f \<Rightarrow> [(''format'', JStr f)]))"

definition indexed_field :: "string \<Rightarrow> nat \<Rightarrow> string \<Rightarrow> ustr" where
  "indexed_field name i suffix = u name @ u ''['' @ nat_str i @ u '']'' @ u suffix"

definition normalize_chunk :: "platform \<Rightarrow> limits \<Rightarrow> archive \<Rightarrow> nat \<Rightarrow> nat \<times> jsv \<Rightarrow> chunk route" where
  "normalize_chunk pf lm a n = (\<lambda>(i, value).
    sbind (normalize_object value (indexed_field ''chunks'' i [])) (\<lambda>object.
    sbind (positive_integer (dot object ''index'') (indexed_field ''chunks'' i ''.index'') 0 (lmChunks lm)) (\<lambda>index.
    sbind (ensure (index = int i) (Thrown \<lparr>reStatus = 400, reMessage = u ''Backup chunk indexes must be contiguous and zero-based.''\<rparr>)) (\<lambda>_.
    sbind (positive_integer (dot object ''sizeBytes'') (indexed_field ''chunks'' i ''.sizeBytes'') 1 (arChunkSizeBytes a)) (\<lambda>sizeBytes.
    sbind (ensure (\<not> (i + 1 < n \<and> sizeBytes \<noteq> arChunkSizeBytes a))
      (Thrown \<lparr>reStatus = 400, reMessage = u ''All non-final backup chunks must use archive.chunkSizeBytes.''\<rparr>)) (\<lambda>_.
    sbind (sha256_field pf (dot object ''sha256'') (indexed_field ''chunks'' i ''.sha256'')) (\<lambda>sha256.
    Inr \<lparr>ckIndex = index, ckSizeBytes = sizeBytes, ckSha256 = sha256\<rparr>)))))))"

definition normalize_chunks :: "platform \<Rightarrow> limits \<Rightarrow> archive \<Rightarrow> jsv \<Rightarrow> chunk list route" where
  "normalize_chunks pf lm a value =
    sbind (normalize_array value (u ''chunks'')) (\<lambda>values.
    sbind (ensure (int (length values) = arChunkCount a)
      (Thrown \<lparr>reStatus = 400, reMessage = u ''Backup chunk descriptors did not match archive.chunkCount.''\<rparr>)) (\<lambda>_.
    sbind (mapE (normalize_chunk pf lm a (length values)) (enumerate 0 values)) (\<lambda>chunks.
    sbind (ensure (sum_list (map ckSizeBytes chunks) = arSizeBytes a)
      (Thrown \<lparr>reStatus = 400, reMessage = u ''Backup chunk descriptors did not sum to archive.sizeBytes.''\<rparr>)) (\<lambda>_.
    Inr chunks))))"

definition chunk_json :: "chunk \<Rightarrow> jsv" where
  "chunk_json c = jobject [(''index'', jint (ckIndex c)), (''sizeBytes'', jint (ckSizeBytes c)), (''sha256'', JStr (ckSha256 c))]"

section \<open>Manifest\<close>

definition database_row :: "nat \<times> jsv \<Rightarrow> jsv route" where
  "database_row = (\<lambda>(i, value).
    sbind (normalize_object value (indexed_field ''manifest.databases'' i [])) (\<lambda>object.
    sbind (non_empty_string (dot object ''name'') (indexed_field ''manifest.databases'' i ''.name'') 256) (\<lambda>name.
    sbind (positive_integer (dot object ''bytes'') (indexed_field ''manifest.databases'' i ''.bytes'') 1 MAX_SAFE_INTEGER) (\<lambda>bytes.
    sbind (safe_file_name (dot object ''dump'') (indexed_field ''manifest.databases'' i ''.dump'') (Some DUMP_SUFFIX)) (\<lambda>dump.
    sbind (if nullish (dot object ''oid'') then Inr []
      else sbind (positive_integer (dot object ''oid'') (indexed_field ''manifest.databases'' i ''.oid'') 1 MAX_SAFE_INTEGER)
        (\<lambda>oid. Inr [(''oid'', jint oid)])) (\<lambda>oid.
    Inr (jobject ([(''name'', JStr name), (''bytes'', jint bytes), (''dump'', JStr dump)] @ oid))))))))"

definition database_inventory :: "jsv \<Rightarrow> jsv list route" where
  "database_inventory value =
    sbind (normalize_array value (u ''manifest.databases'')) (\<lambda>values.
    if values = [] then reject 400 (u ''Backup manifest.databases must not be empty.'')
    else mapE database_row (enumerate 0 values))"

definition file_hash_row :: "platform \<Rightarrow> nat \<times> jsv \<Rightarrow> jsv route" where
  "file_hash_row pf = (\<lambda>(i, value).
    sbind (normalize_object value (indexed_field ''manifest.plaintext_file_hashes'' i [])) (\<lambda>object.
    sbind (safe_file_name (dot object ''name'') (indexed_field ''manifest.plaintext_file_hashes'' i ''.name'') None) (\<lambda>name.
    sbind (positive_integer (dot object ''bytes'') (indexed_field ''manifest.plaintext_file_hashes'' i ''.bytes'') 1 MAX_SAFE_INTEGER) (\<lambda>bytes.
    sbind (sha256_field pf (dot object ''sha256'') (indexed_field ''manifest.plaintext_file_hashes'' i ''.sha256'')) (\<lambda>sha256.
    Inr (jobject [(''name'', JStr name), (''bytes'', jint bytes), (''sha256'', JStr sha256)]))))))"

definition plaintext_hashes :: "platform \<Rightarrow> jsv \<Rightarrow> jsv list route" where
  "plaintext_hashes pf value =
    sbind (normalize_array value (u ''manifest.plaintext_file_hashes'')) (\<lambda>rows.
    if rows = [] then reject 400 (u ''Backup manifest.plaintext_file_hashes must not be empty.'')
    else mapE (file_hash_row pf) (enumerate 0 rows))"

definition ATTESTATIONS_SCHEMA :: ustr where "ATTESTATIONS_SCHEMA = u ''adg.cpoly-postgres.backup-attestations.v1''"

definition attestations_json :: jsv where
  "attestations_json = jobject [(''schema'', JStr ATTESTATIONS_SCHEMA), (''protected_columns_entitycrypt'', JBool True),
     (''role_password_material_excluded'', JBool True), (''bootstrap_roles_separate'', JBool True)]"

definition manifest_attestations :: "jsv \<Rightarrow> jsv route" where
  "manifest_attestations value =
    sbind (normalize_object value (u ''manifest.attestations'')) (\<lambda>object.
    sbind (if nullish (dot object ''schema'') then Inr True
      else sbind (non_empty_string (dot object ''schema'') (u ''manifest.attestations.schema'') 128) (\<lambda>s. Inr (s = ATTESTATIONS_SCHEMA))) (\<lambda>known.
    sbind (ensure known (Thrown \<lparr>reStatus = 400, reMessage = u ''Backup manifest attestation schema was invalid.''\<rparr>)) (\<lambda>_.
    sbind (normalize_boolean (dot object ''protected_columns_entitycrypt'') (u ''manifest.attestations.protected_columns_entitycrypt'')) (\<lambda>a.
    sbind (normalize_boolean (dot object ''role_password_material_excluded'') (u ''manifest.attestations.role_password_material_excluded'')) (\<lambda>b.
    sbind (normalize_boolean (dot object ''bootstrap_roles_separate'') (u ''manifest.attestations.bootstrap_roles_separate'')) (\<lambda>c.
    if a \<and> b \<and> c then Inr attestations_json
    else reject 400 (u ''Backup manifest attestations must confirm EntityCrypt protection and separate role bootstrap handling.'')))))))"

definition AES256_PATTERN :: rx where "AES256_PATTERN = rseq [rilit ''aes'', ropt (rlit ''-''), rlit ''256'']"
definition OPENPGP_PATTERN :: rx where "OPENPGP_PATTERN = rilit ''openpgp''"
definition ENCRYPTION_STATUS :: ustr where "ENCRYPTION_STATUS = u ''PASS_AES256_GPG_SYMMETRIC''"

text \<open>\<open>for (const key of ["key_source", "key_vault_name", "secret_name"])\<close>\<close>

definition key_note :: "jsv \<Rightarrow> (string \<times> jsv) list \<Rightarrow> string \<Rightarrow> (string \<times> jsv) list route" where
  "key_note object acc key = sbind (optional_string (dot object key) (u ''manifest.encryption.'' @ u key) 256) (\<lambda>value.
     Inr (case value of None \<Rightarrow> acc | Some s \<Rightarrow> acc @ [(key, JStr s)]))"

definition manifest_encryption :: "platform \<Rightarrow> archive \<Rightarrow> jsv \<Rightarrow> jsv option route" where
  "manifest_encryption pf a value =
    (if nullish value then Inr None
     else if arEncryption a \<noteq> ENCRYPTION_FORMAT
     then reject 400 (u ''Backup manifest encryption metadata requires an encrypted archive format.'')
     else sbind (normalize_object value (u ''manifest.encryption'')) (\<lambda>object.
     sbind (non_empty_string (dot object ''status'') (u ''manifest.encryption.status'') 128) (\<lambda>status.
     sbind (ensure (status = ENCRYPTION_STATUS) (Thrown \<lparr>reStatus = 400, reMessage = u ''Backup manifest encryption status was invalid.''\<rparr>)) (\<lambda>_.
     sbind (non_empty_string (dot object ''algorithm'') (u ''manifest.encryption.algorithm'') 256) (\<lambda>algorithm.
     sbind (ensure (rx_test AES256_PATTERN algorithm \<and> rx_test OPENPGP_PATTERN algorithm)
       (Thrown \<lparr>reStatus = 400, reMessage = u ''Backup manifest encryption algorithm was invalid.''\<rparr>)) (\<lambda>_.
     sbind (safe_file_name (dot object ''encrypted_archive'') (u ''manifest.encryption.encrypted_archive'') (Some GPG_SUFFIX)) (\<lambda>name.
     sbind (positive_integer (dot object ''encrypted_bytes'') (u ''manifest.encryption.encrypted_bytes'') 1 MAX_SAFE_INTEGER) (\<lambda>bytes.
     sbind (sha256_field pf (dot object ''encrypted_sha256'') (u ''manifest.encryption.encrypted_sha256'')) (\<lambda>sha256.
     sbind (ensure (name = arFileName a \<and> bytes = arSizeBytes a \<and> sha256 = arSha256 a)
       (Thrown \<lparr>reStatus = 400, reMessage = u ''Backup manifest encryption metadata did not match the archive.''\<rparr>)) (\<lambda>_.
     sbind (ensure (dot object ''round_trip_verified'' = JBool True)
       (Thrown \<lparr>reStatus = 400, reMessage = u ''Backup manifest must prove an encryption round-trip.''\<rparr>)) (\<lambda>_.
     sbind (foldE (key_note object) [(''status'', JStr status), (''algorithm'', JStr algorithm), (''encrypted_archive'', JStr name),
       (''encrypted_bytes'', jint bytes), (''encrypted_sha256'', JStr sha256), (''round_trip_verified'', JBool True)]
       [''key_source'', ''key_vault_name'', ''secret_name'']) (\<lambda>members.
     Inr (Some (jobject members))))))))))))))"

record restored_row =
  rrSource :: ustr
  rrTarget :: ustr
  rrBytes :: int
  rrStatus :: ustr

definition restored_row_of :: "nat \<times> jsv \<Rightarrow> restored_row route" where
  "restored_row_of = (\<lambda>(i, row).
    sbind (normalize_object row (indexed_field ''manifest.restore_test.databases'' i [])) (\<lambda>value.
    sbind (non_empty_string (dot value ''source_database'') (indexed_field ''manifest.restore_test.databases'' i ''.source_database'') 256) (\<lambda>source.
    sbind (non_empty_string (dot value ''target_database'') (indexed_field ''manifest.restore_test.databases'' i ''.target_database'') 256) (\<lambda>target.
    sbind (positive_integer (dot value ''restored_bytes'') (indexed_field ''manifest.restore_test.databases'' i ''.restored_bytes'') 1 MAX_SAFE_INTEGER) (\<lambda>bytes.
    sbind (non_empty_string (dot value ''status'') (indexed_field ''manifest.restore_test.databases'' i ''.status'') 64) (\<lambda>status.
    Inr \<lparr>rrSource = source, rrTarget = target, rrBytes = bytes, rrStatus = status\<rparr>))))))"

definition restored_json :: "restored_row \<Rightarrow> jsv" where
  "restored_json r = jobject [(''source_database'', JStr (rrSource r)), (''target_database'', JStr (rrTarget r)),
     (''restored_bytes'', jint (rrBytes r)), (''status'', JStr (rrStatus r))]"

definition restore_evidence :: "jsv \<Rightarrow> jsv list \<Rightarrow> jsv route" where
  "restore_evidence restoreTest inventoryRows =
    sbind (normalize_object restoreTest (u ''manifest.restore_test'')) (\<lambda>object.
    sbind (normalize_boolean (dot object ''requested'') (u ''manifest.restore_test.requested'')) (\<lambda>requested.
    sbind (non_empty_string (dot object ''status'') (u ''manifest.restore_test.status'') 64) (\<lambda>status.
    sbind (ensure (status \<in> {u ''PASS'', u ''NOT_RUN''}) (Thrown \<lparr>reStatus = 400, reMessage = u ''Backup restore evidence status was invalid.''\<rparr>)) (\<lambda>_.
    sbind (if nullish (dot object ''databases'') then Inr []
      else sbind (normalize_array (dot object ''databases'') (u ''manifest.restore_test.databases'')) (\<lambda>rows.
        mapE restored_row_of (enumerate 0 rows))) (\<lambda>databases.
    sbind (ensure (requested \<longrightarrow> status = u ''PASS'') (Thrown \<lparr>reStatus = 400, reMessage = u ''Requested restore evidence must report PASS.''\<rparr>)) (\<lambda>_.
    sbind (ensure (requested \<longrightarrow> databases \<noteq> []) (Thrown \<lparr>reStatus = 400, reMessage = u ''Requested restore evidence must list restored databases.''\<rparr>)) (\<lambda>_.
    let inventory = sort (map (\<lambda>row. to_str (dot row ''name'')) inventoryRows); restored = map rrSource databases in
    sbind (ensure (distinct restored) (Thrown \<lparr>reStatus = 400, reMessage = u ''Restore evidence contained a duplicate source database.''\<rparr>)) (\<lambda>_.
    sbind (ensure (requested \<longrightarrow> sort restored = inventory)
      (Thrown \<lparr>reStatus = 400, reMessage = u ''Restore evidence must cover every inventoried database exactly once.''\<rparr>)) (\<lambda>_.
    sbind (ensure (requested \<longrightarrow> list_all (\<lambda>row. rrStatus row = u ''PASS'') databases)
      (Thrown \<lparr>reStatus = 400, reMessage = u ''Restore evidence rows must all report PASS.''\<rparr>)) (\<lambda>_.
    Inr (jobject [(''requested'', JBool requested), (''status'', JStr status), (''databases'', JArr (map restored_json databases))])))))))))))"

definition CLAIM_BOUNDARY :: ustr where
  "CLAIM_BOUNDARY = u ''This proves creation, integrity, EntityCrypt protected-column '' @ u ''attestations, separate role bootstrap handling, and the requested ''
     @ u ''restore test only. Off-host replication and recovery-time objectives '' @ u ''require separate scheduled operations.''"

definition LEGACY_CLAIM_BOUNDARY :: ustr where
  "LEGACY_CLAIM_BOUNDARY = u ''This proves creation, integrity, encryption, and the requested restore ''
     @ u ''test only. Off-host replication and recovery-time objectives require '' @ u ''separate scheduled operations.''"

definition exact_claim_boundary :: "jsv \<Rightarrow> bool \<Rightarrow> ustr route" where
  "exact_claim_boundary value legacyEncryptedArchive =
    sbind (non_empty_string value (u ''manifest.claim_boundary'') 512) (\<lambda>claim.
    if claim = CLAIM_BOUNDARY \<or> legacyEncryptedArchive \<and> claim = LEGACY_CLAIM_BOUNDARY then Inr claim
    else reject 400 (u ''Backup manifest claim boundary was invalid.''))"

record manifest =
  mfJson :: jsv
  mfGeneration :: int
  mfWatermark :: int

definition normalize_manifest :: "platform \<Rightarrow> archive \<Rightarrow> jsv \<Rightarrow> manifest route" where
  "normalize_manifest pf a value =
    sbind (normalize_object value (u ''manifest'')) (\<lambda>object.
    sbind (to_string (js_or (dot object ''schema'') (JStr []))) (\<lambda>schema.
    sbind (ensure (schema \<in> {u ''cpoly_postgres_backup_v1'', u ''adg.cpoly-postgres.encrypted-bundle.v1''})
      (Thrown \<lparr>reStatus = 400, reMessage = u ''Backup manifest schema was invalid.''\<rparr>)) (\<lambda>_.
    sbind (database_inventory (dot object ''databases'')) (\<lambda>databases.
    sbind (manifest_attestations (dot object ''attestations'')) (\<lambda>attestations.
    sbind (manifest_encryption pf a (dot object ''encryption'')) (\<lambda>encryption.
    sbind (exact_claim_boundary (dot object ''claim_boundary'') (encryption \<noteq> None)) (\<lambda>claimBoundary.
    sbind (restore_evidence (dot object ''restore_test'') databases) (\<lambda>restoreTest.
    sbind (iso_timestamp pf (dot object ''created_at_utc'') (u ''manifest.created_at_utc'')) (\<lambda>createdAt.
    sbind (non_empty_string (dot object ''source_container'') (u ''manifest.source_container'') 256) (\<lambda>container.
    sbind (non_empty_string (dot object ''source_image'') (u ''manifest.source_image'') 512) (\<lambda>image.
    sbind (non_empty_string (dot object ''server_version'') (u ''manifest.server_version'') 128) (\<lambda>version.
    sbind (plaintext_hashes pf (dot object ''plaintext_file_hashes'')) (\<lambda>hashes.
    sbind (positive_integer (dot object ''snapshotGeneration'') (u ''manifest.snapshotGeneration'') 1 MAX_SAFE_INTEGER) (\<lambda>generation.
    sbind (positive_integer (dot object ''postgresReceiptWatermark'') (u ''manifest.postgresReceiptWatermark'') 0 MAX_SAFE_INTEGER) (\<lambda>watermark.
    Inr \<lparr>mfJson = jobject ([(''schema'', JStr schema), (''created_at_utc'', JStr createdAt), (''source_container'', JStr container),
        (''source_image'', JStr image), (''server_version'', JStr version), (''databases'', JArr databases),
        (''plaintext_file_hashes'', JArr hashes), (''attestations'', attestations), (''restore_test'', restoreTest),
        (''claim_boundary'', JStr claimBoundary), (''snapshotGeneration'', jint generation),
        (''postgresReceiptWatermark'', jint watermark)]
        @ (case encryption of None \<Rightarrow> [] | Some e \<Rightarrow> [(''encryption'', e)])),
      mfGeneration = generation, mfWatermark = watermark\<rparr>)))))))))))))))"

section \<open>Descriptor\<close>

record descriptor =
  dsArchive :: archive
  dsChunks :: "chunk list"
  dsManifest :: manifest
  dsJson :: ustr
  dsSha256 :: ustr
  dsMetadataSha256 :: ustr

definition BACKUP_DESCRIPTOR_SCHEMA :: ustr where "BACKUP_DESCRIPTOR_SCHEMA = u ''adg.cpoly-postgres.backup.v1''"

definition descriptor_json :: "archive \<Rightarrow> chunk list \<Rightarrow> jsv \<Rightarrow> jsv" where
  "descriptor_json a chunks manifest = jobject [(''schema'', JStr BACKUP_DESCRIPTOR_SCHEMA), (''manifest'', manifest), (''metadata'', manifest),
     (''archive'', archive_json a), (''chunks'', JArr (map chunk_json chunks))]"

definition descriptor_parts :: "platform \<Rightarrow> limits \<Rightarrow> jsv \<Rightarrow> descriptor route" where
  "descriptor_parts pf lm parts =
    sbind (non_empty_string (dot parts ''schema'') (u ''schema'') 128) (\<lambda>schema.
    sbind (ensure (schema = BACKUP_DESCRIPTOR_SCHEMA) (Thrown \<lparr>reStatus = 400, reMessage = u ''Backup descriptor schema was invalid.''\<rparr>)) (\<lambda>_.
    sbind (normalize_archive pf lm (dot parts ''archive'')) (\<lambda>a.
    sbind (normalize_chunks pf lm a (dot parts ''chunks'')) (\<lambda>chunks.
    sbind (normalize_manifest pf a (coalesce (dot parts ''manifest'') (dot parts ''metadata''))) (\<lambda>manifest.
    let json = json_text (descriptor_json a chunks (mfJson manifest)) in
    if MAX_BACKUP_DESCRIPTOR_JSON_BYTES < length (utf8_encode json)
    then reject 413 (u ''Backup descriptor exceeded the configured limit.'')
    else Inr \<lparr>dsArchive = a, dsChunks = chunks, dsManifest = manifest, dsJson = json,
      dsSha256 = sha256_hex_utf8 (pfSha256 pf) json, dsMetadataSha256 = sha256_hex_utf8 (pfSha256 pf) (json_text (mfJson manifest))\<rparr>)))))"

definition requested_descriptor :: "platform \<Rightarrow> bindings \<Rightarrow> jsv \<Rightarrow> descriptor route" where
  "requested_descriptor pf vars body = descriptor_parts pf (backup_descriptor_limits vars) body"

section \<open>The stored descriptor\<close>

text \<open>A row of \<open>cpoly_backup_sets\<close>.\<close>

datatype backup_status = BackupUploading | BackupComplete | BackupFailed | BackupExpired

record backup_row =
  bkId :: ustr
  bkStatus :: backup_status
  bkCreatedAt :: int
  bkUpdatedAt :: int
  bkExpiresAt :: int
  bkTotalSize :: "int option"
  bkChunkCount :: "int option"
  bkSha256 :: "ustr option"
  bkUploadedBytes :: int
  bkUploadedChunks :: int
  bkCompletedAt :: "int option"
  bkDescriptorJson :: "ustr option"
  bkDescriptorSha256 :: "ustr option"
  bkManifestSha256 :: "ustr option"
  bkGeneration :: "int option"
  bkWatermark :: "int option"
  bkVerifiedAt :: "int option"
  bkLeaseExpiresAt :: "int option"

definition column :: "ustr option \<Rightarrow> jsv" where
  "column c = (case c of None \<Rightarrow> JNull | Some s \<Rightarrow> JStr s)"

definition stored_descriptor :: "platform \<Rightarrow> backup_row \<Rightarrow> descriptor option route" where
  "stored_descriptor pf b =
    (case bkDescriptorJson b of None \<Rightarrow> Inr None | Some json \<Rightarrow>
     if json = [] then Inr None
     else sbind (sha256_field pf (column (bkDescriptorSha256 b)) (u ''Stored backup descriptor hash'')) (\<lambda>sha256.
     sbind (ensure (constant_time_hex_equal (sha256_hex_utf8 (pfSha256 pf) json) sha256)
       (Thrown \<lparr>reStatus = 409, reMessage = u ''Stored backup descriptor hash did not match its payload.''\<rparr>)) (\<lambda>_.
     case json_parse json of None \<Rightarrow> reject 409 (u ''Stored backup descriptor JSON was invalid.'')
     | Some parsed \<Rightarrow>
     sbind (descriptor_parts pf stored_descriptor_limits parsed) (\<lambda>d.
     sbind (ensure (constant_time_hex_equal (dsSha256 d) sha256)
       (Thrown \<lparr>reStatus = 409, reMessage = u ''Stored backup descriptor normalization mismatch was detected.''\<rparr>)) (\<lambda>_.
     sbind (if bkManifestSha256 b \<in> {None, Some []} then Inr True
       else sbind (sha256_field pf (column (bkManifestSha256 b)) (u ''Stored backup metadata hash'')) (\<lambda>m.
         Inr (constant_time_hex_equal (dsMetadataSha256 d) m))) (\<lambda>same.
     sbind (ensure same (Thrown \<lparr>reStatus = 409, reMessage = u ''Stored backup metadata hash did not match its payload.''\<rparr>)) (\<lambda>_.
     sbind (ensure (bkGeneration b \<in> {None, Some (mfGeneration (dsManifest d))})
       (Thrown \<lparr>reStatus = 409, reMessage = u ''Stored backup snapshot generation did not match its descriptor.''\<rparr>)) (\<lambda>_.
     sbind (ensure (bkWatermark b \<in> {None, Some (mfWatermark (dsManifest d))})
       (Thrown \<lparr>reStatus = 409, reMessage = u ''Stored backup snapshot watermark did not match its descriptor.''\<rparr>)) (\<lambda>_.
     Inr (Some d))))))))))"

end
