(* ===== verification/BackupStore.thy ===== *)
theory BackupStore
  imports BackupDescriptor Dates
begin

text \<open>
  The tables of the recovery lane (\<open>migrations/0005\<close>, \<open>0007\<close>, \<open>0009\<close>) with the object store that holds the
  chunks of a backup, and the queries and writes of \<open>src/cpoly-recovery.js\<close> on them. The journal and
  PostgreSQL are those of \<open>Journal\<close>. Every call of D1 and of the object store has a fate; the store
  may also miss an object that it holds, since it is eventually consistent. A statement of D1 is
  atomic and a batch is a transaction; rows that tie in an \<open>ORDER BY\<close> come in the order of the table.
\<close>

section \<open>State\<close>

record chunk_row =
  ciBackup :: ustr
  ciIndex :: nat
  ciKey :: ustr
  ciSize :: nat
  ciSha256 :: ustr
  ciCreatedAt :: int

text \<open>\<open>cpoly_backup_chunks\<close>, which earlier versions filled.\<close>

record legacy_chunk =
  lcBackup :: ustr
  lcIndex :: nat
  lcBytes :: "nat list"

record nonce_row =
  noNonce :: ustr
  noMethod :: ustr
  noPath :: ustr
  noBodySha256 :: ustr
  noCreatedAt :: int
  noExpiresAt :: int

datatype recovery_state = Ready | Recovering

record runtime =
  rtState :: recovery_state
  rtReadyGeneration :: int
  rtTargetGeneration :: "int option"
  rtRecoveryId :: "ustr option"
  rtBackupId :: "ustr option"
  rtGeneration :: "int option"
  rtWatermark :: "int option"
  rtLeaseExpiresAt :: "int option"
  rtStartedAt :: "int option"
  rtUpdatedAt :: int
  rtCompletedAt :: "int option"
  rtLastError :: "ustr option"

record 'd recovery =
  rvWorld :: "'d world"
  rvSets :: "backup_row list"
  rvChunks :: "chunk_row list"
  rvLegacy :: "legacy_chunk list"
  rvNonces :: "nonce_row list"
  rvRuntime :: "runtime option"
  rvObjects :: "(ustr, nat list) omap"
  rvKvCalls :: nat

datatype kv_fate = KvReaches | KvMisses | KvFailsBefore failure | KvFailsAfter failure

record 'd renv =
  evJournal :: "'d jenv"
  evPlatform :: platform
  evVars :: bindings
  evHmac :: "ustr \<Rightarrow> ustr \<Rightarrow> ustr"
  evKvFate :: "nat \<Rightarrow> kv_fate"
  evStore :: bool
  evPostgres :: bool

datatype recovery_error = Refused "route_error thrown" | Broken failure

type_synonym ('d, 'a) rdb = "('d recovery, recovery_error, 'a) st"

abbreviation refuse :: "nat \<Rightarrow> ustr \<Rightarrow> ('d, 'a) rdb" where
  "refuse status message \<equiv> st_throw (Refused (Thrown \<lparr>reStatus = status, reMessage = message\<rparr>))"

definition demand :: "bool \<Rightarrow> nat \<Rightarrow> ustr \<Rightarrow> ('d, unit) rdb" where
  "demand b status message = (if b then st_return () else refuse status message)"

definition routed :: "'a route \<Rightarrow> ('d, 'a) rdb" where
  "routed r = (case r of Inl e \<Rightarrow> st_throw (Refused e) | Inr x \<Rightarrow> st_return x)"

text \<open>The descriptor of a row that may have none: reading a property of \<open>null\<close> throws.\<close>

definition present :: "'a option \<Rightarrow> ('d, 'a) rdb" where
  "present r = (case r of None \<Rightarrow> st_throw (Refused TypeError) | Some x \<Rightarrow> st_return x)"

definition in_world :: "('d, 'a) jdb \<Rightarrow> ('d, 'a) rdb" where
  "in_world m s = (case m (rvWorld s) of (r, w) \<Rightarrow>
     (case r of Inl f \<Rightarrow> Inl (Broken f) | Inr x \<Rightarrow> Inr x, s\<lparr>rvWorld := w\<rparr>))"

definition now_ms :: "'d renv \<Rightarrow> ('d, int) rdb" where
  "now_ms env = in_world (clock (evJournal env))"

definition fresh_uuid :: "'d renv \<Rightarrow> ('d, ustr) rdb" where
  "fresh_uuid env = in_world (request_id (evJournal env))"

section \<open>Calls\<close>

type_synonym ('d, 'a) statement = "'d recovery \<Rightarrow> failure + 'a \<times> 'd recovery"

definition d1 :: "'d renv \<Rightarrow> ('d, 'a) statement \<Rightarrow> ('d, 'a) rdb" where
  "d1 env q s =
    (let n = wD1Calls (rvWorld s); s1 = s\<lparr>rvWorld := (rvWorld s)\<lparr>wD1Calls := n + 1\<rparr>\<rparr> in
     case jeD1Fate (evJournal env) n of
       FailsBefore e \<Rightarrow> (Inl (Broken e), s1)
     | Reaches \<Rightarrow> (case q s1 of Inl e \<Rightarrow> (Inl (Broken e), s1) | Inr (x, s2) \<Rightarrow> (Inr x, s2))
     | FailsAfter e \<Rightarrow> (Inl (Broken e), case q s1 of Inl _ \<Rightarrow> s1 | Inr (x, s2) \<Rightarrow> s2))"

definition d1_read :: "'d renv \<Rightarrow> ('d recovery \<Rightarrow> 'a) \<Rightarrow> ('d, 'a) rdb" where
  "d1_read env f = d1 env (\<lambda>s. Inr (f s, s))"

text \<open>A batch: the statements one after the other, or none.\<close>

fun in_batch :: "('d, nat) statement list \<Rightarrow> ('d, unit) statement" where
  "in_batch [] s = Inr ((), s)"
| "in_batch (q # qs) s = (case q s of Inl e \<Rightarrow> Inl e | Inr (_, s') \<Rightarrow> in_batch qs s')"

definition kv :: "'d renv \<Rightarrow> ('d recovery \<Rightarrow> 'a \<times> 'd recovery) \<Rightarrow> 'a \<Rightarrow> ('d, 'a) rdb" where
  "kv env q missed s =
    (let n = rvKvCalls s; s1 = s\<lparr>rvKvCalls := n + 1\<rparr> in
     case evKvFate env n of
       KvFailsBefore e \<Rightarrow> (Inl (Broken e), s1)
     | KvReaches \<Rightarrow> (case q s1 of (x, s2) \<Rightarrow> (Inr x, s2))
     | KvMisses \<Rightarrow> (case q s1 of (x, s2) \<Rightarrow> (Inr missed, s2))
     | KvFailsAfter e \<Rightarrow> (case q s1 of (x, s2) \<Rightarrow> (Inl (Broken e), s2)))"

definition kv_get :: "'d renv \<Rightarrow> ustr \<Rightarrow> ('d, nat list option) rdb" where
  "kv_get env key = kv env (\<lambda>s. (omap_get (rvObjects s) key, s)) None"

definition kv_put :: "'d renv \<Rightarrow> ustr \<Rightarrow> nat list \<Rightarrow> ('d, unit) rdb" where
  "kv_put env key bytes = kv env (\<lambda>s. ((), s\<lparr>rvObjects := omap_set key bytes (rvObjects s)\<rparr>)) ()"

definition kv_delete :: "'d renv \<Rightarrow> ustr \<Rightarrow> ('d, unit) rdb" where
  "kv_delete env key = kv env (\<lambda>s. ((), s\<lparr>rvObjects := filter (\<lambda>(k, v). k \<noteq> key) (rvObjects s)\<rparr>)) ()"

section \<open>Constraints\<close>

definition hash_like :: "ustr \<Rightarrow> bool" where
  "hash_like s \<longleftrightarrow> length s = 64 \<and> lower_hex (hd s)"

definition when_set :: "('a \<Rightarrow> bool) \<Rightarrow> 'a option \<Rightarrow> bool" where
  "when_set p c = (case c of None \<Rightarrow> True | Some x \<Rightarrow> p x)"

definition set_check :: "backup_row \<Rightarrow> bool" where
  "set_check b \<longleftrightarrow> bkCreatedAt b < bkExpiresAt b \<and> when_set (\<lambda>n. 0 < n) (bkTotalSize b) \<and> when_set (\<lambda>n. 0 < n) (bkChunkCount b)
     \<and> when_set hash_like (bkSha256 b) \<and> 0 \<le> bkUploadedBytes b \<and> 0 \<le> bkUploadedChunks b
     \<and> (bkCompletedAt b = None \<or> bkTotalSize b \<noteq> None \<and> bkChunkCount b \<noteq> None \<and> bkSha256 b \<noteq> None)
     \<and> when_set (\<lambda>s. length (code_points s) \<le> 262144) (bkDescriptorJson b) \<and> when_set hash_like (bkDescriptorSha256 b)
     \<and> when_set hash_like (bkManifestSha256 b) \<and> when_set (\<lambda>n. 1 \<le> n) (bkGeneration b)
     \<and> when_set (\<lambda>n. 0 \<le> n) (bkWatermark b) \<and> when_set (\<lambda>n. 0 \<le> n) (bkVerifiedAt b)
     \<and> when_set (\<lambda>n. 0 \<le> n) (bkLeaseExpiresAt b)"

definition chunk_check :: "chunk_row \<Rightarrow> bool" where
  "chunk_check c \<longleftrightarrow> ciIndex c \<le> 4096 \<and> 1 \<le> length (code_points (ciKey c)) \<and> length (code_points (ciKey c)) \<le> 512
     \<and> 0 < ciSize c \<and> ciSize c \<le> 786432 \<and> hash_like (ciSha256 c)"

definition nonce_check :: "nonce_row \<Rightarrow> bool" where
  "nonce_check r \<longleftrightarrow> hash_like (noBodySha256 r) \<and> noCreatedAt r < noExpiresAt r"

definition runtime_check :: "runtime \<Rightarrow> bool" where
  "runtime_check r \<longleftrightarrow> 1 \<le> rtReadyGeneration r \<and> when_set (\<lambda>n. 1 \<le> n) (rtTargetGeneration r)
     \<and> when_set (\<lambda>n. 1 \<le> n) (rtGeneration r) \<and> when_set (\<lambda>n. 0 \<le> n) (rtWatermark r)
     \<and> when_set (\<lambda>n. 0 \<le> n) (rtLeaseExpiresAt r)
     \<and> (rtState r = Ready \<longrightarrow> rtRecoveryId r = None \<and> rtTargetGeneration r = None \<and> rtBackupId r = None
        \<and> rtGeneration r = None \<and> rtWatermark r = None \<and> rtLeaseExpiresAt r = None \<and> rtStartedAt r = None)"

abbreviation violated :: failure where
  "violated \<equiv> fails ''constraint failed''"

section \<open>Statements\<close>

definition insert_set :: "backup_row \<Rightarrow> ('d, nat) statement" where
  "insert_set b s = (if set_check b \<and> bkId b \<notin> bkId ` set (rvSets s)
     then Inr (1, s\<lparr>rvSets := rvSets s @ [b]\<rparr>) else Inl violated)"

definition update_sets :: "(backup_row \<Rightarrow> bool) \<Rightarrow> (backup_row \<Rightarrow> backup_row) \<Rightarrow> ('d, nat) statement" where
  "update_sets p f s = (if \<forall>b \<in> set (rvSets s). p b \<longrightarrow> set_check (f b)
     then Inr (count_rows p (rvSets s), s\<lparr>rvSets := update_rows p f (rvSets s)\<rparr>) else Inl violated)"

text \<open>\<open>DELETE FROM cpoly_backup_sets\<close>: the foreign keys delete the chunks and clear the runtime.\<close>

definition delete_set :: "ustr \<Rightarrow> ('d, nat) statement" where
  "delete_set i s = Inr (count_rows (\<lambda>b. bkId b = i) (rvSets s),
     s\<lparr>rvSets := filter (\<lambda>b. bkId b \<noteq> i) (rvSets s), rvChunks := filter (\<lambda>c. ciBackup c \<noteq> i) (rvChunks s),
       rvLegacy := filter (\<lambda>c. lcBackup c \<noteq> i) (rvLegacy s),
       rvRuntime := map_option (\<lambda>r. if rtBackupId r = Some i \<and> i \<in> bkId ` set (rvSets s) then r\<lparr>rtBackupId := None\<rparr> else r) (rvRuntime s)\<rparr>)"

definition insert_chunk :: "chunk_row \<Rightarrow> ('d, nat) statement" where
  "insert_chunk c s = (if chunk_check c \<and> ciBackup c \<in> bkId ` set (rvSets s)
       \<and> (\<forall>d \<in> set (rvChunks s). (ciBackup d, ciIndex d) \<noteq> (ciBackup c, ciIndex c) \<and> ciKey d \<noteq> ciKey c)
     then Inr (1, s\<lparr>rvChunks := rvChunks s @ [c]\<rparr>) else Inl violated)"

definition update_chunks :: "(chunk_row \<Rightarrow> bool) \<Rightarrow> (chunk_row \<Rightarrow> chunk_row) \<Rightarrow> ('d, nat) statement" where
  "update_chunks p f s = (let rows = update_rows p f (rvChunks s) in
     if (\<forall>c \<in> set rows. chunk_check c) \<and> distinct (map (\<lambda>c. (ciBackup c, ciIndex c)) rows) \<and> distinct (map ciKey rows)
     then Inr (count_rows p (rvChunks s), s\<lparr>rvChunks := rows\<rparr>) else Inl violated)"

text \<open>\<open>INSERT \<dots> SELECT \<dots> WHERE NOT EXISTS\<close>\<close>

definition insert_nonce :: "nonce_row \<Rightarrow> ('d, nat) statement" where
  "insert_nonce r s = (if noNonce r \<in> noNonce ` set (rvNonces s) then Inr (0, s)
     else if nonce_check r then Inr (1, s\<lparr>rvNonces := rvNonces s @ [r]\<rparr>) else Inl violated)"

definition update_runtime :: "(runtime \<Rightarrow> bool) \<Rightarrow> (runtime \<Rightarrow> runtime) \<Rightarrow> ('d, nat) statement" where
  "update_runtime p f s = (case rvRuntime s of None \<Rightarrow> Inr (0, s)
     | Some r \<Rightarrow> if \<not> p r then Inr (0, s)
         else if runtime_check (f r) \<and> when_set (\<lambda>i. i \<in> bkId ` set (rvSets s)) (rtBackupId (f r))
         then Inr (1, s\<lparr>rvRuntime := Some (f r)\<rparr>) else Inl violated)"

section \<open>Queries\<close>

definition load_backup_set :: "'d renv \<Rightarrow> ustr \<Rightarrow> ('d, backup_row) rdb" where
  "load_backup_set env backupId =
    st_bind (d1_read env (\<lambda>s. List.find (\<lambda>b. bkId b = backupId) (rvSets s))) (\<lambda>row.
    case row of None \<Rightarrow> refuse 404 (u ''CPOLY backup was not found.'') | Some b \<Rightarrow> st_return b)"

definition snapshot_order :: "backup_row \<Rightarrow> int \<times> int \<times> int \<times> int" where
  "snapshot_order b = (- the (bkGeneration b), - the (bkWatermark b), - the (bkVerifiedAt b), - bkCreatedAt b)"

definition restorable :: "backup_row \<Rightarrow> bool" where
  "restorable b \<longleftrightarrow> bkStatus b = BackupComplete \<and> bkVerifiedAt b \<noteq> None \<and> bkGeneration b \<noteq> None \<and> bkWatermark b \<noteq> None"

definition newest_first :: "backup_row list \<Rightarrow> backup_row list" where
  "newest_first rows = sort_key snapshot_order (filter restorable rows)"

text \<open>The query leaves out the columns of the upload, which then count as 0.\<close>

definition load_latest_complete_backups :: "'d renv \<Rightarrow> nat \<Rightarrow> ('d, backup_row list) rdb" where
  "load_latest_complete_backups env n =
    d1_read env (\<lambda>s. map (\<lambda>b. b\<lparr>bkUploadedBytes := 0, bkUploadedChunks := 0\<rparr>) (take (max 1 (min 8 n)) (newest_first (rvSets s))))"

record inventory =
  inCount :: nat
  inTotalBytes :: nat
  inMinIndex :: "nat option"
  inMaxIndex :: "nat option"

definition query_backup_chunk_inventory :: "'d renv \<Rightarrow> ustr \<Rightarrow> ('d, inventory) rdb" where
  "query_backup_chunk_inventory env backupId = d1_read env (\<lambda>s.
     let rows = filter (\<lambda>c. ciBackup c = backupId) (rvChunks s); is = map ciIndex rows in
     \<lparr>inCount = length rows, inTotalBytes = sum_list (map ciSize rows),
      inMinIndex = (if is = [] then None else Some (foldl min (hd is) is)),
      inMaxIndex = (if is = [] then None else Some (foldl max 0 is))\<rparr>)"

definition backup_chunks :: "ustr \<Rightarrow> chunk_row list \<Rightarrow> chunk_row list" where
  "backup_chunks backupId rows = sort_key ciIndex (filter (\<lambda>c. ciBackup c = backupId) rows)"

definition load_backup_chunk_page :: "'d renv \<Rightarrow> ustr \<Rightarrow> nat \<Rightarrow> nat \<Rightarrow> ('d, chunk_row list) rdb" where
  "load_backup_chunk_page env backupId offset n =
    d1_read env (\<lambda>s. map (\<lambda>c. c\<lparr>ciSha256 := pfLower (evPlatform env) (ciSha256 c)\<rparr>)
      (take n (drop offset (backup_chunks backupId (rvChunks s)))))"

definition find_chunk :: "'d renv \<Rightarrow> ustr \<Rightarrow> nat \<Rightarrow> ('d, chunk_row option) rdb" where
  "find_chunk env backupId i =
    d1_read env (\<lambda>s. List.find (\<lambda>c. ciBackup c = backupId \<and> ciIndex c = i) (rvChunks s))"

section \<open>The object store\<close>

definition chunk_key_prefix :: "'d renv \<Rightarrow> ustr \<Rightarrow> nat \<Rightarrow> ustr" where
  "chunk_key_prefix env backupId i = u ''cpoly-backups/v1/'' @ pfLower (evPlatform env) backupId @ u ''/chunks/'' @ padded 6 (int i)"

definition build_backup_chunk_key :: "'d renv \<Rightarrow> ustr \<Rightarrow> nat \<Rightarrow> ('d, ustr) rdb" where
  "build_backup_chunk_key env backupId i = st_bind (fresh_uuid env) (\<lambda>token.
     st_return (chunk_key_prefix env backupId i @ u ''/'' @ pfLower (evPlatform env) token))"

definition build_legacy_backup_chunk_key :: "'d renv \<Rightarrow> ustr \<Rightarrow> nat \<Rightarrow> ustr" where
  "build_legacy_backup_chunk_key env backupId i = u ''legacy-d1:'' @ pfLower (evPlatform env) backupId @ u '':'' @ nat_str i"

definition starts_with :: "ustr \<Rightarrow> ustr \<Rightarrow> bool" where
  "starts_with p s \<longleftrightarrow> take (length p) s = p"

definition is_legacy_backup_chunk_key :: "ustr \<Rightarrow> bool" where
  "is_legacy_backup_chunk_key key = starts_with (u ''legacy-d1:'') key"

abbreviation storage_unavailable :: ustr where
  "storage_unavailable \<equiv> u ''CPOLY backup object storage is unavailable.''"

definition read_backup_chunk_from_store :: "'d renv \<Rightarrow> ustr \<Rightarrow> nat \<Rightarrow> ustr \<Rightarrow> ('d, nat list option) rdb" where
  "read_backup_chunk_from_store env backupId i key =
    (if key = [] then st_return None
     else if is_legacy_backup_chunk_key key
     then d1_read env (\<lambda>s. map_option lcBytes (List.find (\<lambda>c. lcBackup c = backupId \<and> lcIndex c = i) (rvLegacy s)))
     else st_bind (demand (evStore env) 503 storage_unavailable) (\<lambda>_. kv_get env key))"

definition put_backup_chunk_to_store :: "'d renv \<Rightarrow> ustr \<Rightarrow> nat list \<Rightarrow> ('d, unit) rdb" where
  "put_backup_chunk_to_store env key bytes =
    st_bind (demand (evStore env) 503 storage_unavailable) (\<lambda>_. kv_put env key bytes)"

definition delete_backup_chunk_from_store :: "'d renv \<Rightarrow> ustr \<Rightarrow> ('d, bool) rdb" where
  "delete_backup_chunk_from_store env key =
    (if is_legacy_backup_chunk_key key then st_return True
     else if \<not> evStore env then st_return False
     else st_bind (kv_delete env key) (\<lambda>_. st_return True))"

text \<open>\<open>try { await m } catch {}\<close>\<close>

definition ignoring :: "('d, 'a) rdb \<Rightarrow> ('d, unit) rdb" where
  "ignoring m = st_catch (st_bind m (\<lambda>_. st_return ())) (\<lambda>_. st_return ())"

fun delete_objects :: "'d renv \<Rightarrow> chunk_row list \<Rightarrow> ('d, bool) rdb" where
  "delete_objects env [] = st_return True"
| "delete_objects env (c # cs) =
     st_bind (st_catch (st_bind (delete_backup_chunk_from_store env (ciKey c)) (\<lambda>_. st_return True)) (\<lambda>_. st_return False)) (\<lambda>deleted.
     st_bind (delete_objects env cs) (\<lambda>rest. st_return (deleted \<and> rest)))"

definition delete_backup_objects_best_effort :: "'d renv \<Rightarrow> ustr \<Rightarrow> ('d, bool) rdb" where
  "delete_backup_objects_best_effort env backupId =
    st_bind (load_backup_chunk_page env backupId 0 (nat (max (max_backup_chunks (evVars env)) 1))) (delete_objects env)"

section \<open>Verification of the stored chunks\<close>

definition expected_chunk :: "descriptor \<Rightarrow> nat \<Rightarrow> chunk option" where
  "expected_chunk d i = (if i < length (dsChunks d) then Some (dsChunks d ! i) else None)"

definition chunk_record_matches :: "'d renv \<Rightarrow> ustr \<Rightarrow> descriptor \<Rightarrow> chunk_row \<Rightarrow> bool" where
  "chunk_record_matches env backupId d c = (case expected_chunk d (ciIndex c) of None \<Rightarrow> False
     | Some e \<Rightarrow> int (ciSize c) = ckSizeBytes e \<and> ciSha256 c = ckSha256 e
         \<and> (starts_with (chunk_key_prefix env backupId (ciIndex c) @ u ''/'') (ciKey c)
            \<or> ciKey c = build_legacy_backup_chunk_key env backupId (ciIndex c)))"

abbreviation chunk_mismatch :: ustr where
  "chunk_mismatch \<equiv> u ''Backup chunk metadata did not match the stored descriptor.''"

abbreviation chunks_incomplete :: ustr where
  "chunks_incomplete \<equiv> u ''Backup chunk set is incomplete.''"

definition inventory_matches :: "inventory \<Rightarrow> archive \<Rightarrow> bool" where
  "inventory_matches found a \<longleftrightarrow> int (inCount found) = arChunkCount a \<and> int (inTotalBytes found) = arSizeBytes a
     \<and> (0 < arChunkCount a \<longrightarrow> inMinIndex found = Some 0)
     \<and> (0 < arChunkCount a \<longrightarrow> map_option int (inMaxIndex found) = Some (arChunkCount a - 1))"

text \<open>
  \<open>while (offset < chunkCount)\<close>, a page of 64 rows at a time. A page is not empty, so that the offset
  grows by at least 1: the body answers how much more.
\<close>

function verify_pages :: "'d renv \<Rightarrow> ustr \<Rightarrow> descriptor \<Rightarrow> nat \<Rightarrow> ('d, unit) rdb" where
  "verify_pages env backupId d offset s =
    (if int offset < arChunkCount (dsArchive d)
     then (case st_bind (load_backup_chunk_page env backupId offset 64) (\<lambda>rows.
               st_bind (demand (rows \<noteq> []) 409 chunks_incomplete) (\<lambda>_.
               st_bind (demand (list_all (chunk_record_matches env backupId d) rows) 409 chunk_mismatch) (\<lambda>_.
               st_return (length rows - 1)))) s of
             (Inl e, s') \<Rightarrow> (Inl e, s')
           | (Inr n, s') \<Rightarrow> verify_pages env backupId d (offset + n + 1) s')
     else (Inr (), s))"
  by pat_completeness auto
termination by (relation "measure (\<lambda>(env, backupId, d, offset, s). nat (arChunkCount (dsArchive d)) - offset)") auto

definition verify_stored_chunk_inventory_metadata :: "'d renv \<Rightarrow> ustr \<Rightarrow> descriptor \<Rightarrow> ('d, unit) rdb" where
  "verify_stored_chunk_inventory_metadata env backupId d =
    st_bind (query_backup_chunk_inventory env backupId) (\<lambda>found.
    st_bind (demand (inventory_matches found (dsArchive d)) 409 chunks_incomplete) (\<lambda>_.
    verify_pages env backupId d 0))"

text \<open>The rows of a page, with the bytes read so far, which are what the digest has been fed.\<close>

fun read_rows :: "'d renv \<Rightarrow> ustr \<Rightarrow> descriptor \<Rightarrow> nat list \<Rightarrow> chunk_row list \<Rightarrow> ('d, nat list) rdb" where
  "read_rows env backupId d acc [] = st_return acc"
| "read_rows env backupId d acc (c # cs) =
     st_bind (demand (chunk_record_matches env backupId d c) 409 chunk_mismatch) (\<lambda>_.
     st_bind (read_backup_chunk_from_store env backupId (ciIndex c) (ciKey c)) (\<lambda>stored.
     case stored of None \<Rightarrow> refuse 409 (u ''Backup chunk was missing from object storage.'')
     | Some bytes \<Rightarrow>
         st_bind (demand (length bytes = ciSize c \<and> pfSha256 (evPlatform env) bytes = ciSha256 c) 409
           (u ''Backup chunk integrity verification failed.'')) (\<lambda>_.
         read_rows env backupId d (acc @ bytes) cs)))"

function read_pages :: "'d renv \<Rightarrow> ustr \<Rightarrow> descriptor \<Rightarrow> nat \<Rightarrow> nat list \<Rightarrow> ('d, nat list) rdb" where
  "read_pages env backupId d offset acc s =
    (if int offset < arChunkCount (dsArchive d)
     then (case st_bind (load_backup_chunk_page env backupId offset 32) (\<lambda>rows.
               st_bind (demand (rows \<noteq> []) 409 chunks_incomplete) (\<lambda>_.
               st_bind (read_rows env backupId d acc rows) (\<lambda>acc'.
               st_return (length rows - 1, acc')))) s of
             (Inl e, s') \<Rightarrow> (Inl e, s')
           | (Inr (n, acc'), s') \<Rightarrow> read_pages env backupId d (offset + n + 1) acc' s')
     else (Inr acc, s))"
  by pat_completeness auto
termination by (relation "measure (\<lambda>(env, backupId, d, offset, acc, s). nat (arChunkCount (dsArchive d)) - offset)") auto

definition verify_backup_store_contents :: "'d renv \<Rightarrow> ustr \<Rightarrow> descriptor \<Rightarrow> ('d, unit) rdb" where
  "verify_backup_store_contents env backupId d =
    st_bind (verify_stored_chunk_inventory_metadata env backupId d) (\<lambda>_.
    st_bind (read_pages env backupId d 0 []) (\<lambda>bytes.
    demand (int (length bytes) = arSizeBytes (dsArchive d) \<and> pfSha256 (evPlatform env) bytes = arSha256 (dsArchive d)) 409
      (u ''Backup archive digest did not match the stored descriptor.'')))"

end
