(* ===== verification/BackupRoutes.thy ===== *)
theory BackupRoutes
  imports BackupStore
begin

text \<open>
  The internal routes of \<open>src/cpoly-recovery.js\<close>: a signed request creates a backup set, uploads its
  chunks, completes it, reads the latest one, and begins and completes a recovery; the scheduler
  prunes. Each handler is the sequence of the calls it awaits. The body of a request is its bytes.
\<close>

section \<open>Answers\<close>

text \<open>An object literal with spreads: a repeated key keeps its first place and takes the last value.\<close>

definition spread :: "(string \<times> jsv) list \<Rightarrow> (string \<times> jsv) list" where
  "spread kvs = omap_of_entries kvs"

definition jtext :: "ustr option \<Rightarrow> jsv" where
  "jtext s = (case s of None \<Rightarrow> JNull | Some t \<Rightarrow> JStr t)"

definition jtime :: "int option \<Rightarrow> jsv" where
  "jtime t = (case t of None \<Rightarrow> JNull | Some ms \<Rightarrow> JStr (iso_string ms))"

definition jnumber :: "int option \<Rightarrow> jsv" where
  "jnumber n = (case n of None \<Rightarrow> JNull | Some i \<Rightarrow> jint i)"

record chunk_reply =
  crBytes :: "nat list"
  crContentType :: ustr
  crBackupId :: ustr
  crChunkIndex :: nat
  crSha256 :: ustr
  crTotalChunks :: "int option"
  crHashes :: "(ustr \<times> ustr) option"

datatype reply = JsonReply nat jsv | ChunkReply chunk_reply

abbreviation accepted :: "(string \<times> jsv) list" where
  "accepted \<equiv> [(''ok'', JBool True), (''accepted'', JBool True)]"

definition descriptor_members :: "descriptor \<Rightarrow> (string \<times> jsv) list" where
  "descriptor_members d = [(''schema'', JStr BACKUP_DESCRIPTOR_SCHEMA), (''descriptorSha256'', JStr (dsSha256 d)),
     (''metadataSha256'', JStr (dsMetadataSha256 d)), (''archive'', archive_json (dsArchive d)),
     (''chunks'', JArr (map chunk_json (dsChunks d))), (''metadata'', mfJson (dsManifest d)),
     (''manifest'', mfJson (dsManifest d)), (''claimBoundary'', dot (mfJson (dsManifest d)) ''claim_boundary'')]"

definition or_else :: "'a option \<Rightarrow> 'a \<Rightarrow> 'a" where
  "or_else c x = (case c of None \<Rightarrow> x | Some y \<Rightarrow> y)"

definition backup_available_after_ms :: "'d renv \<Rightarrow> backup_row \<Rightarrow> int" where
  "backup_available_after_ms env b =
     or_else (bkVerifiedAt b) (or_else (bkCompletedAt b) (bkUpdatedAt b)) + kv_propagation_delay_ms (evVars env)"

definition status_name :: "backup_status \<Rightarrow> ustr" where
  "status_name st = u (case st of BackupUploading \<Rightarrow> ''uploading'' | BackupComplete \<Rightarrow> ''complete''
     | BackupFailed \<Rightarrow> ''failed'' | BackupExpired \<Rightarrow> ''expired'')"

definition build_backup_response :: "'d renv \<Rightarrow> backup_row \<Rightarrow> descriptor option \<Rightarrow> (string \<times> jsv) list" where
  "build_backup_response env b stored =
    [(''backupId'', JStr (bkId b)), (''status'', JStr (status_name (bkStatus b))),
     (''createdAtUtc'', JStr (iso_string (bkCreatedAt b))), (''expiresAtUtc'', JStr (iso_string (bkExpiresAt b))),
     (''chunkCount'', jint (or_else (bkChunkCount b) (bkUploadedChunks b))),
     (''totalBytes'', jint (or_else (bkTotalSize b) (bkUploadedBytes b))), (''sha256'', jtext (bkSha256 b))]
    @ (case bkCompletedAt b of None \<Rightarrow> [] | Some t \<Rightarrow>
        [(''completedAtUtc'', JStr (iso_string t)), (''availableAfter'', jint (backup_available_after_ms env b)),
         (''availableAfterUtc'', JStr (iso_string (backup_available_after_ms env b)))])
    @ (case stored of None \<Rightarrow> [] | Some d \<Rightarrow> descriptor_members d
        @ [(''snapshotGeneration'', jint (or_else (bkGeneration b) (mfGeneration (dsManifest d)))),
           (''snapshotWatermark'', jint (or_else (bkWatermark b) (mfWatermark (dsManifest d))))])"

section \<open>Request bodies\<close>

definition parse_required_json_body :: "'d renv \<Rightarrow> nat list \<Rightarrow> ustr \<Rightarrow> jsv route" where
  "parse_required_json_body env bytes expectedSchema =
    (case json_parse (pfDecode (evPlatform env) bytes) of
       None \<Rightarrow> reject 400 (u ''Backup request body was not valid JSON.'')
     | Some v \<Rightarrow> if \<not> truthy v \<or> \<not> strict_eq (dot v ''schema'') (JStr expectedSchema) \<or> js_is_array v
         then reject 400 (u ''Backup request JSON schema was invalid.'') else Inr v)"

definition require_uuid :: "ustr \<Rightarrow> ('d, unit) rdb" where
  "require_uuid backupId = demand (matches UUID_V4 backupId) 400 (u ''Backup ID is invalid.'')"

section \<open>A new backup set\<close>

definition new_backup_row :: "ustr \<Rightarrow> int \<Rightarrow> int \<Rightarrow> descriptor \<Rightarrow> backup_row" where
  "new_backup_row backupId now expiresAt d = \<lparr>bkId = backupId, bkStatus = BackupUploading, bkCreatedAt = now,
     bkUpdatedAt = now, bkExpiresAt = expiresAt, bkTotalSize = None, bkChunkCount = None, bkSha256 = None,
     bkUploadedBytes = 0, bkUploadedChunks = 0, bkCompletedAt = None, bkDescriptorJson = Some (dsJson d),
     bkDescriptorSha256 = Some (dsSha256 d), bkManifestSha256 = Some (dsMetadataSha256 d),
     bkGeneration = Some (mfGeneration (dsManifest d)), bkWatermark = Some (mfWatermark (dsManifest d)),
     bkVerifiedAt = None, bkLeaseExpiresAt = None\<rparr>"

definition created_members :: "'d renv \<Rightarrow> ustr \<Rightarrow> int \<Rightarrow> int \<Rightarrow> descriptor \<Rightarrow> (string \<times> jsv) list" where
  "created_members env backupId now expiresAt d =
    [(''backupId'', JStr backupId), (''status'', JStr (u ''uploading'')), (''createdAtUtc'', JStr (iso_string now)),
     (''expiresAtUtc'', JStr (iso_string expiresAt)), (''maxChunkBytes'', jint (max_chunk_bytes (evVars env))),
     (''maxChunks'', jint (max_backup_chunks (evVars env))), (''maxBackupBytes'', jint (max_backup_bytes (evVars env)))]
    @ descriptor_members d
    @ [(''snapshotGeneration'', jint (mfGeneration (dsManifest d))), (''snapshotWatermark'', jint (mfWatermark (dsManifest d)))]"

definition create_backup_set :: "'d renv \<Rightarrow> nat list \<Rightarrow> ('d, reply) rdb" where
  "create_backup_set env rawBody =
    st_bind (routed (parse_required_json_body env rawBody BACKUP_DESCRIPTOR_SCHEMA)) (\<lambda>body.
    st_bind (routed (requested_descriptor (evPlatform env) (evVars env) body)) (\<lambda>d.
    st_bind (now_ms env) (\<lambda>now.
    st_bind (fresh_uuid env) (\<lambda>backupId.
    st_bind (routed (requested_retention_hours body (evVars env))) (\<lambda>retentionHours.
    let expiresAt = now + retentionHours * 60 * 60 * 1000; response = created_members env backupId now expiresAt d in
    st_bind (d1 env (insert_set (new_backup_row backupId now expiresAt d))) (\<lambda>_.
    st_return (JsonReply 201 (jobject (accepted @ response @ [(''backup'', jobject response)])))))))))"

section \<open>Upload of a chunk\<close>

definition ensure_uploadable_backup :: "backup_row \<Rightarrow> int \<Rightarrow> ('d, unit) rdb" where
  "ensure_uploadable_backup b now =
    st_bind (demand (bkStatus b = BackupUploading) 409 (u ''Backup is no longer accepting chunk uploads.'')) (\<lambda>_.
    demand (now < bkExpiresAt b) 409 (u ''Backup has expired.''))"

definition chunk_members :: "ustr \<Rightarrow> nat \<Rightarrow> (string \<times> jsv) list" where
  "chunk_members backupId chunkIndex = accepted @ [(''backupId'', JStr backupId), (''chunkIndex'', jint (int chunkIndex))]"

text \<open>\<open>try { m } catch { best-effort delete of the key; throw }\<close>\<close>

definition or_delete :: "'d renv \<Rightarrow> ustr \<Rightarrow> ('d, 'a) rdb \<Rightarrow> ('d, 'a) rdb" where
  "or_delete env key m = st_catch m (\<lambda>e. st_bind (ignoring (delete_backup_chunk_from_store env key)) (\<lambda>_. st_throw e))"

definition repair_chunk :: "'d renv \<Rightarrow> ustr \<Rightarrow> nat \<Rightarrow> nat list \<Rightarrow> int \<Rightarrow> chunk_row \<Rightarrow> ('d, unit) rdb" where
  "repair_chunk env backupId chunkIndex rawBody now existing =
    (let hash = pfSha256 (evPlatform env) rawBody in
     st_bind (build_backup_chunk_key env backupId chunkIndex) (\<lambda>replacementKey.
     st_bind (put_backup_chunk_to_store env replacementKey rawBody) (\<lambda>_.
     st_bind (or_delete env replacementKey
         (st_bind (d1 env (update_chunks (\<lambda>c. ciBackup c = backupId \<and> ciIndex c = chunkIndex \<and> ciKey c = ciKey existing)
             (\<lambda>c. c\<lparr>ciKey := replacementKey, ciSize := length rawBody, ciSha256 := hash, ciCreatedAt := now\<rparr>))) (\<lambda>n.
          demand (n = 1) 409 (u ''Backup chunk repair lost its inventory lease.'')))) (\<lambda>_.
     if replacementKey \<noteq> ciKey existing then ignoring (delete_backup_chunk_from_store env (ciKey existing)) else st_return ()))))"

definition upload_again :: "'d renv \<Rightarrow> backup_row \<Rightarrow> nat \<Rightarrow> nat list \<Rightarrow> int \<Rightarrow> chunk_row \<Rightarrow> ('d, reply) rdb" where
  "upload_again env b chunkIndex rawBody now existing =
    (let hash = pfSha256 (evPlatform env) rawBody; next = (''nextChunkIndex'', jint (bkUploadedChunks b));
       known = chunk_members (bkId b) chunkIndex @ [(''idempotent'', JBool True)] in
     st_bind (demand (ciSize existing = length rawBody \<and> ciSha256 existing = hash) 409
       (u ''Backup chunk conflict was detected.'')) (\<lambda>_.
     st_bind (read_backup_chunk_from_store env (bkId b) chunkIndex (ciKey existing)) (\<lambda>stored.
     if (case stored of None \<Rightarrow> False | Some bytes \<Rightarrow> length bytes = length rawBody \<and> pfSha256 (evPlatform env) bytes = hash)
     then st_return (JsonReply 200 (jobject (known @ [next])))
     else st_bind (repair_chunk env (bkId b) chunkIndex rawBody now existing) (\<lambda>_.
       st_return (JsonReply 200 (jobject (known @ [(''repaired'', JBool True), next])))))))"

definition store_chunk :: "'d renv \<Rightarrow> ustr \<Rightarrow> nat \<Rightarrow> nat list \<Rightarrow> int \<Rightarrow> int \<Rightarrow> ('d, unit) rdb" where
  "store_chunk env backupId chunkIndex rawBody nextBytes now =
    st_bind (build_backup_chunk_key env backupId chunkIndex) (\<lambda>kvKey.
    st_bind (put_backup_chunk_to_store env kvKey rawBody) (\<lambda>_.
    or_delete env kvKey (d1 env (in_batch
      [insert_chunk \<lparr>ciBackup = backupId, ciIndex = chunkIndex, ciKey = kvKey, ciSize = length rawBody,
         ciSha256 = pfSha256 (evPlatform env) rawBody, ciCreatedAt = now\<rparr>,
       update_sets (\<lambda>b. bkId b = backupId \<and> bkStatus b = BackupUploading)
         (\<lambda>b. b\<lparr>bkUploadedBytes := nextBytes, bkUploadedChunks := int chunkIndex + 1, bkUpdatedAt := now\<rparr>)]))))"

definition upload_new :: "'d renv \<Rightarrow> backup_row \<Rightarrow> descriptor option \<Rightarrow> nat \<Rightarrow> nat list \<Rightarrow> int \<Rightarrow> ('d, reply) rdb" where
  "upload_new env b stored chunkIndex rawBody now =
    (let expectedIndex = bkUploadedChunks b; nextBytes = bkUploadedBytes b + int (length rawBody);
       hash = pfSha256 (evPlatform env) rawBody in
     st_bind (demand (int chunkIndex = expectedIndex) 409 (u ''Expected chunk index '' @ int_str expectedIndex
       @ u '' but received '' @ nat_str chunkIndex @ u ''.'')) (\<lambda>_.
     st_bind (demand (nextBytes \<le> max_backup_bytes (evVars env)) 413 (u ''Backup size exceeded the configured cap.'')) (\<lambda>_.
     st_bind (present stored) (\<lambda>d.
     case expected_chunk d chunkIndex of
       None \<Rightarrow> refuse 409 (u ''Backup chunk index was not declared in the backup descriptor.'')
     | Some e \<Rightarrow>
         st_bind (demand (int (length rawBody) = ckSizeBytes e \<and> hash = ckSha256 e) 409
           (u ''Backup chunk did not match the declared archive metadata.'')) (\<lambda>_.
         st_bind (demand (nextBytes \<le> arSizeBytes (dsArchive d)) 409
           (u ''Backup size exceeded the stored archive metadata.'')) (\<lambda>_.
         st_bind (store_chunk env (bkId b) chunkIndex rawBody nextBytes now) (\<lambda>_.
         st_return (JsonReply 200 (jobject (chunk_members (bkId b) chunkIndex
           @ [(''nextChunkIndex'', jint (int chunkIndex + 1)), (''uploadedBytes'', jint nextBytes)]))))))))))"

definition upload_backup_chunk :: "'d renv \<Rightarrow> ustr \<Rightarrow> nat \<Rightarrow> nat list \<Rightarrow> ('d, reply) rdb" where
  "upload_backup_chunk env backupId chunkIndex rawBody =
    st_bind (require_uuid backupId) (\<lambda>_.
    st_bind (demand (rawBody \<noteq> []) 400 (u ''Backup chunk body is empty.'')) (\<lambda>_.
    st_bind (load_backup_set env backupId) (\<lambda>b.
    st_bind (routed (stored_descriptor (evPlatform env) b)) (\<lambda>stored.
    st_bind (now_ms env) (\<lambda>now.
    st_bind (ensure_uploadable_backup b now) (\<lambda>_.
    st_bind (demand (int chunkIndex < max_backup_chunks (evVars env)) 413 (u ''Backup chunk index exceeded the configured cap.'')) (\<lambda>_.
    st_bind (demand (int (length rawBody) \<le> max_chunk_bytes (evVars env)) 413 (u ''Backup chunk exceeded the configured cap.'')) (\<lambda>_.
    st_bind (demand (evStore env) 503 storage_unavailable) (\<lambda>_.
    st_bind (find_chunk env backupId chunkIndex) (\<lambda>existing.
    case existing of Some c \<Rightarrow> upload_again env b chunkIndex rawBody now c
    | None \<Rightarrow> upload_new env b stored chunkIndex rawBody now))))))))))"

section \<open>The recovery runtime\<close>

definition get_cpoly_recovery_runtime :: "'d renv \<Rightarrow> ('d, runtime) rdb" where
  "get_cpoly_recovery_runtime env =
    st_bind (d1_read env rvRuntime) (\<lambda>row.
    case row of None \<Rightarrow> st_throw (Broken (fails ''CPOLY recovery runtime state is missing.'')) | Some r \<Rightarrow> st_return r)"

definition set_recovery_runtime_error :: "'d renv \<Rightarrow> ustr \<Rightarrow> ('d, unit) rdb" where
  "set_recovery_runtime_error env message = st_bind (now_ms env) (\<lambda>now.
    st_bind (d1 env (update_runtime (\<lambda>_. True)
      (\<lambda>r. r\<lparr>rtUpdatedAt := now, rtLastError := Some (bound_error_message message)\<rparr>))) (\<lambda>_. st_return ()))"

section \<open>Pruning\<close>

text \<open>The loop over the complete sets, newest first: the ones kept so far and their bytes.\<close>

definition protected_set :: "int \<Rightarrow> runtime \<Rightarrow> backup_row \<Rightarrow> bool" where
  "protected_set now rt b \<longleftrightarrow> (case bkLeaseExpiresAt b of None \<Rightarrow> False | Some t \<Rightarrow> now < t)
     \<or> rtState rt = Recovering \<and> rtBackupId rt = Some (bkId b)"

definition keep_step :: "bindings \<Rightarrow> int \<Rightarrow> runtime \<Rightarrow> ustr list \<times> int \<Rightarrow> backup_row \<Rightarrow> ustr list \<times> int" where
  "keep_step vars now rt = (\<lambda>(keepIds, retainedBytes) b.
     let size = or_else (bkTotalSize b) 0; kept = (keepIds @ [bkId b], retainedBytes + size) in
     if protected_set now rt b then kept
     else if bkExpiresAt b \<le> now \<or> max_retained_backups vars \<le> int (length keepIds)
       \<or> max_retained_bytes vars < retainedBytes + size then (keepIds, retainedBytes)
     else kept)"

definition kept_sets :: "bindings \<Rightarrow> int \<Rightarrow> runtime \<Rightarrow> backup_row list \<Rightarrow> ustr list" where
  "kept_sets vars now rt rows = fst (foldl (keep_step vars now rt) ([], 0) rows)"

definition expire_statement :: "int \<Rightarrow> ustr \<Rightarrow> ('d, nat) statement" where
  "expire_statement now i = update_sets (\<lambda>b. bkId b = i \<and> bkStatus b = BackupComplete)
     (\<lambda>b. b\<lparr>bkStatus := BackupExpired, bkCompletedAt := None, bkUpdatedAt := now\<rparr>)"

definition fail_statement :: "int \<Rightarrow> ustr \<Rightarrow> ('d, nat) statement" where
  "fail_statement now i = update_sets (\<lambda>b. bkId b = i \<and> bkStatus b = BackupUploading)
     (\<lambda>b. b\<lparr>bkStatus := BackupFailed, bkUpdatedAt := now\<rparr>)"

definition batch_for :: "'d renv \<Rightarrow> (ustr \<Rightarrow> ('d, nat) statement) \<Rightarrow> ustr list \<Rightarrow> ('d, unit) rdb" where
  "batch_for env q is = (if is = [] then st_return () else d1 env (in_batch (map q is)))"

fun delete_sets_objects :: "'d renv \<Rightarrow> ustr list \<Rightarrow> ('d, ustr list) rdb" where
  "delete_sets_objects env [] = st_return []"
| "delete_sets_objects env (i # is) =
     st_bind (delete_backup_objects_best_effort env i) (\<lambda>deleted.
     st_bind (delete_sets_objects env is) (\<lambda>rest. st_return (if deleted then i # rest else rest)))"

definition latest_kept :: "ustr list \<Rightarrow> backup_row list \<Rightarrow> (ustr \<times> coverage) option" where
  "latest_kept keepIds rows = map_option (\<lambda>b. (bkId b, \<lparr>cvGeneration = the (bkGeneration b), cvWatermark = the (bkWatermark b)\<rparr>))
     (List.find (\<lambda>b. bkId b \<in> set keepIds) rows)"

definition prune_expired_backups ::
  "'d renv \<Rightarrow> int \<Rightarrow> runtime option \<Rightarrow> ('d, (ustr \<times> coverage) option) rdb" where
  "prune_expired_backups env now recoveryRuntime =
    st_bind (case recoveryRuntime of None \<Rightarrow> get_cpoly_recovery_runtime env | Some r \<Rightarrow> st_return r) (\<lambda>rt.
    st_bind (d1_read env (\<lambda>s. newest_first (rvSets s))) (\<lambda>completeRows.
    let keepIds = kept_sets (evVars env) now rt completeRows;
      deleteIds = map bkId (filter (\<lambda>b. bkId b \<notin> set keepIds) completeRows);
      staleUploadBefore = now - stale_upload_hours (evVars env) * 60 * 60 * 1000 in
    st_bind (d1_read env (\<lambda>s. map bkId (filter (\<lambda>b. bkStatus b \<noteq> BackupComplete \<and> bkCreatedAt b \<le> staleUploadBefore) (rvSets s)))) (\<lambda>staleRows.
    let staleDeleteIds = filter (\<lambda>i. i \<notin> set deleteIds) staleRows in
    st_bind (batch_for env (expire_statement now) deleteIds) (\<lambda>_.
    st_bind (batch_for env (fail_statement now) staleDeleteIds) (\<lambda>_.
    st_bind (delete_sets_objects env (deleteIds @ staleDeleteIds)) (\<lambda>confirmedDeletes.
    st_bind (batch_for env delete_set confirmedDeletes) (\<lambda>_.
    st_return (latest_kept keepIds completeRows))))))))"

section \<open>Completion\<close>

definition given :: "jsv \<Rightarrow> bool" where
  "given v \<longleftrightarrow> \<not> nullish v"

definition has_backup_descriptor_fields :: "jsv \<Rightarrow> bool" where
  "has_backup_descriptor_fields body \<longleftrightarrow> truthy body \<and> (given (dot body ''manifest'') \<or> given (dot body ''metadata'')
     \<or> given (dot body ''archive'') \<or> given (dot body ''chunks''))"

text \<open>\<open>if (value != null) check\<close>\<close>

definition if_given :: "jsv \<Rightarrow> ('d, unit) rdb \<Rightarrow> ('d, unit) rdb" where
  "if_given v m = (if given v then m else st_return ())"

definition same_hash :: "'d renv \<Rightarrow> jsv \<Rightarrow> string \<Rightarrow> ('d, ustr) rdb \<Rightarrow> string \<Rightarrow> ('d, unit) rdb" where
  "same_hash env v name stored message = if_given v
     (st_bind (routed (sha256_field (evPlatform env) v (u name))) (\<lambda>expected. st_bind stored (\<lambda>hash.
      demand (constant_time_hex_equal expected hash) 409 (u message))))"

definition same_number :: "jsv \<Rightarrow> string \<Rightarrow> int \<Rightarrow> ('d, int) rdb \<Rightarrow> string \<Rightarrow> ('d, unit) rdb" where
  "same_number v name maximum stored message = if_given v
     (st_bind (routed (positive_integer v (u name) 1 maximum)) (\<lambda>n. st_bind stored (\<lambda>m. demand (n = m) 409 (u message))))"

definition validate_descriptor_complete_body :: "'d renv \<Rightarrow> ustr \<Rightarrow> jsv \<Rightarrow> descriptor option \<Rightarrow> ('d, archive) rdb" where
  "validate_descriptor_complete_body env urlBackupId body stored =
    st_bind (if_given (dot body ''backupId'') (st_bind (routed (to_string (dot body ''backupId''))) (\<lambda>i.
       demand (i = urlBackupId) 409 (u ''Backup ID in the completion body did not match the request path.'')))) (\<lambda>_.
     st_bind (same_hash env (dot body ''descriptorSha256'') ''descriptorSha256'' (st_bind (present stored) (\<lambda>d. st_return (dsSha256 d)))
       ''Backup descriptor hash did not match the stored upload.'') (\<lambda>_.
     st_bind (same_hash env (dot body ''metadataSha256'') ''metadataSha256'' (st_bind (present stored) (\<lambda>d. st_return (dsMetadataSha256 d)))
       ''Backup metadata hash did not match the stored upload.'') (\<lambda>_.
     st_bind (same_number (dot body ''chunkCount'') ''chunkCount'' (max_backup_chunks (evVars env))
       (st_bind (present stored) (\<lambda>d. st_return (arChunkCount (dsArchive d))))
       ''Backup chunk count did not match the stored descriptor.'') (\<lambda>_.
     st_bind (same_number (dot body ''totalBytes'') ''totalBytes'' (max_backup_bytes (evVars env))
       (st_bind (present stored) (\<lambda>d. st_return (arSizeBytes (dsArchive d))))
       ''Backup size did not match the stored descriptor.'') (\<lambda>_.
     st_bind (same_hash env (dot body ''sha256'') ''sha256'' (st_bind (present stored) (\<lambda>d. st_return (arSha256 (dsArchive d))))
       ''Backup SHA-256 did not match the stored descriptor.'') (\<lambda>_.
     st_bind (if has_backup_descriptor_fields body
       then st_bind (routed (requested_descriptor (evPlatform env) (evVars env) body)) (\<lambda>provided.
         st_bind (present stored) (\<lambda>d. demand (constant_time_hex_equal (dsSha256 provided) (dsSha256 d)) 409
           (u ''Backup descriptor did not match the stored upload.'')))
       else st_return ()) (\<lambda>_.
     st_bind (present stored) (\<lambda>d. st_return (dsArchive d)))))))))"

definition mark_backup_failed :: "'d renv \<Rightarrow> ustr \<Rightarrow> int \<Rightarrow> ('d, unit) rdb" where
  "mark_backup_failed env backupId now = st_bind (d1 env (fail_statement now backupId)) (\<lambda>_. st_return ())"

text \<open>\<open>try { await verifyBackupStoreContents } catch\<close>\<close>

definition verify_or_discard :: "'d renv \<Rightarrow> ustr \<Rightarrow> descriptor \<Rightarrow> int \<Rightarrow> ('d, unit) rdb" where
  "verify_or_discard env backupId d now = st_catch (verify_backup_store_contents env backupId d) (\<lambda>e.
     st_bind (mark_backup_failed env backupId now) (\<lambda>_.
     st_bind (delete_backup_objects_best_effort env backupId) (\<lambda>_. st_throw e)))"

definition completed_row :: "archive \<Rightarrow> descriptor \<Rightarrow> int \<Rightarrow> backup_row \<Rightarrow> backup_row" where
  "completed_row a d now b = b\<lparr>bkStatus := BackupComplete, bkTotalSize := Some (arSizeBytes a),
     bkChunkCount := Some (arChunkCount a), bkSha256 := Some (arSha256 a), bkDescriptorSha256 := Some (dsSha256 d),
     bkManifestSha256 := Some (dsMetadataSha256 d), bkGeneration := Some (mfGeneration (dsManifest d)),
     bkWatermark := Some (mfWatermark (dsManifest d)), bkCompletedAt := Some now, bkVerifiedAt := Some now, bkUpdatedAt := now\<rparr>"

definition finish_backup_set :: "'d renv \<Rightarrow> ustr \<Rightarrow> archive \<Rightarrow> descriptor \<Rightarrow> int \<Rightarrow> ('d, unit) rdb" where
  "finish_backup_set env backupId a d now =
    st_bind (d1 env (update_sets (\<lambda>b. bkId b = backupId \<and> bkStatus b = BackupUploading) (completed_row a d now))) (\<lambda>n.
    demand (n = 1) 409 (u ''Backup is no longer accepting completion.''))"

text \<open>The rest of the handler, from a row that was read before.\<close>

definition complete_loaded :: "'d renv \<Rightarrow> backup_row \<Rightarrow> archive \<Rightarrow> descriptor \<Rightarrow> int \<Rightarrow> ('d, reply) rdb" where
  "complete_loaded env b a d now =
    st_bind (ensure_uploadable_backup b now) (\<lambda>_.
    st_bind (demand (bkUploadedChunks b = arChunkCount a) 409 (u ''Backup chunk count did not match the uploaded set.'')) (\<lambda>_.
    st_bind (demand (bkUploadedBytes b = arSizeBytes a) 409 (u ''Backup total size did not match the uploaded set.'')) (\<lambda>_.
    st_bind (verify_or_discard env (bkId b) d now) (\<lambda>_.
    st_bind (finish_backup_set env (bkId b) a d now) (\<lambda>_.
    st_bind (prune_expired_backups env now None) (\<lambda>_.
    let response = build_backup_response env (completed_row a d now b) (Some d) in
    st_return (JsonReply 200 (jobject (spread (accepted @ [(''status'', JStr (u ''complete''))] @ response
      @ [(''backup'', jobject response)]))))))))))"

definition complete_backup_set :: "'d renv \<Rightarrow> ustr \<Rightarrow> nat list \<Rightarrow> ('d, reply) rdb" where
  "complete_backup_set env backupId rawBody =
    st_bind (require_uuid backupId) (\<lambda>_.
    st_bind (routed (parse_required_json_body env rawBody BACKUP_DESCRIPTOR_SCHEMA)) (\<lambda>body.
    st_bind (load_backup_set env backupId) (\<lambda>b.
    st_bind (routed (stored_descriptor (evPlatform env) b)) (\<lambda>stored.
    st_bind (validate_descriptor_complete_body env backupId body stored) (\<lambda>a.
    st_bind (now_ms env) (\<lambda>now.
    st_bind (present stored) (\<lambda>d. complete_loaded env b a d now)))))))"

section \<open>Reading a backup\<close>

definition touch_backup_restore_lease :: "'d renv \<Rightarrow> ustr \<Rightarrow> int \<Rightarrow> ('d, unit) rdb" where
  "touch_backup_restore_lease env backupId leaseExpiresAt = st_bind (now_ms env) (\<lambda>now.
    st_bind (d1 env (update_sets (\<lambda>b. bkId b = backupId \<and> bkStatus b = BackupComplete)
      (\<lambda>b. b\<lparr>bkLeaseExpiresAt := Some leaseExpiresAt, bkUpdatedAt := now\<rparr>))) (\<lambda>_. st_return ()))"

definition described :: "'d renv \<Rightarrow> backup_row \<Rightarrow> string \<Rightarrow> ('d, descriptor) rdb" where
  "described env b message = st_bind (routed (stored_descriptor (evPlatform env) b)) (\<lambda>stored.
     case stored of None \<Rightarrow> refuse 409 (u message)
     | Some d \<Rightarrow> st_bind (verify_stored_chunk_inventory_metadata env (bkId b) d) (\<lambda>_. st_return d))"

definition fetch_latest_backup :: "'d renv \<Rightarrow> ('d, reply) rdb" where
  "fetch_latest_backup env = st_bind (load_latest_complete_backups env 2) (\<lambda>backups.
    case backups of
      [] \<Rightarrow> st_return (JsonReply 404 (jobject [(''message'', JStr (u ''No complete CPOLY backup is available.''))]))
    | b # older \<Rightarrow>
        st_bind (described env b ''Stored backup descriptor was missing.'') (\<lambda>d.
        st_bind (case older of [] \<Rightarrow> st_return None
          | p # _ \<Rightarrow> st_bind (described env p ''Stored prior backup descriptor was missing.'') (\<lambda>pd. st_return (Some (p, pd)))) (\<lambda>prior.
        st_bind (now_ms env) (\<lambda>now.
        let leaseExpiresAt = now + backup_restore_lease_ms (evVars env) in
        st_bind (touch_backup_restore_lease env (bkId b) leaseExpiresAt) (\<lambda>_.
        st_bind (case prior of None \<Rightarrow> st_return () | Some (p, pd) \<Rightarrow> touch_backup_restore_lease env (bkId p) leaseExpiresAt) (\<lambda>_.
        let latest = build_backup_response env b (Some d) in
        st_return (JsonReply 200 (jobject (accepted @ latest @ [(''backup'', jobject latest)]
          @ (case prior of None \<Rightarrow> [] | Some (p, pd) \<Rightarrow>
              [(''priorBackup'', jobject (build_backup_response env p (Some pd)))]))))))))))"

definition fetch_backup_chunk :: "'d renv \<Rightarrow> ustr \<Rightarrow> nat \<Rightarrow> ('d, reply) rdb" where
  "fetch_backup_chunk env backupId chunkIndex =
    st_bind (require_uuid backupId) (\<lambda>_.
    st_bind (load_backup_set env backupId) (\<lambda>b.
    st_bind (routed (stored_descriptor (evPlatform env) b)) (\<lambda>stored.
    st_bind (demand (bkStatus b = BackupComplete) 409 (u ''Backup is not complete.'')) (\<lambda>_.
    st_bind (demand (int chunkIndex < or_else (bkChunkCount b) 0) 404 (u ''Backup chunk index is out of range.'')) (\<lambda>_.
    st_bind (find_chunk env backupId chunkIndex) (\<lambda>row.
    case row of None \<Rightarrow> refuse 404 (u ''Backup chunk was not found.'')
    | Some c \<Rightarrow> st_bind (read_backup_chunk_from_store env backupId chunkIndex (ciKey c)) (\<lambda>object.
    case object of None \<Rightarrow> refuse 409 (u ''Backup chunk was missing from object storage.'')
    | Some bytes \<Rightarrow>
    let bodyHash = pfSha256 (evPlatform env) bytes in
    st_bind (demand (bodyHash = ciSha256 c \<and> length bytes = ciSize c) 409 (u ''Backup chunk integrity verification failed.'')) (\<lambda>_.
    st_bind (demand (case stored of None \<Rightarrow> True | Some d \<Rightarrow> (case expected_chunk d chunkIndex of None \<Rightarrow> False
        | Some e \<Rightarrow> ckSizeBytes e = int (length bytes) \<and> ckSha256 e = bodyHash)) 409
      (u ''Backup chunk did not match the stored descriptor.'')) (\<lambda>_.
    st_bind (now_ms env) (\<lambda>now.
    st_bind (touch_backup_restore_lease env backupId (now + backup_restore_lease_ms (evVars env))) (\<lambda>_.
    st_return (ChunkReply \<lparr>crBytes = bytes,
      crContentType = (case stored of None \<Rightarrow> u ''application/octet-stream'' | Some d \<Rightarrow> arContentType (dsArchive d)),
      crBackupId = backupId, crChunkIndex = chunkIndex, crSha256 = bodyHash, crTotalChunks = bkChunkCount b,
      crHashes = map_option (\<lambda>d. (dsSha256 d, dsMetadataSha256 d)) stored\<rparr>))))))))))))"

section \<open>Recovery\<close>

definition build_recovery_status_payload :: "runtime \<Rightarrow> jsv" where
  "build_recovery_status_payload r = jobject
    [(''state'', JStr (u (case rtState r of Ready \<Rightarrow> ''ready'' | Recovering \<Rightarrow> ''recovering''))),
     (''readyGeneration'', jint (rtReadyGeneration r)), (''targetGeneration'', jnumber (rtTargetGeneration r)),
     (''recoveryId'', jtext (rtRecoveryId r)), (''restoreBackupId'', jtext (rtBackupId r)),
     (''restoreSnapshotGeneration'', jnumber (rtGeneration r)), (''restoreSnapshotWatermark'', jnumber (rtWatermark r)),
     (''restoreLeaseExpiresAtUtc'', jtime (rtLeaseExpiresAt r)), (''startedAtUtc'', jtime (rtStartedAt r)),
     (''updatedAtUtc'', JStr (iso_string (rtUpdatedAt r))), (''completedAtUtc'', jtime (rtCompletedAt r)),
     (''lastError'', jtext (rtLastError r))]"

definition status_reply :: "'d renv \<Rightarrow> (string \<times> jsv) list \<Rightarrow> ('d, reply) rdb" where
  "status_reply env members = st_bind (get_cpoly_recovery_runtime env) (\<lambda>r.
     st_return (JsonReply 200 (jobject ([(''ok'', JBool True)] @ members @ [(''recovery'', build_recovery_status_payload r)]))))"

definition fetch_recovery_status :: "'d renv \<Rightarrow> ('d, reply) rdb" where
  "fetch_recovery_status env = status_reply env []"

definition normalize_backup_id :: "platform \<Rightarrow> jsv \<Rightarrow> string \<Rightarrow> ustr route" where
  "normalize_backup_id pf value fieldName = sbind (trimmed_lower pf value) (\<lambda>text.
     if matches UUID_V4 text then Inr text else invalid (u fieldName))"

definition normalize_recovery_snapshot_coverage :: "jsv \<Rightarrow> jsv \<Rightarrow> string \<Rightarrow> coverage route" where
  "normalize_recovery_snapshot_coverage generationValue watermarkValue fieldPrefix =
    sbind (positive_integer generationValue (u fieldPrefix @ u ''.generation'') 1 MAX_SAFE_INTEGER) (\<lambda>generation.
    sbind (positive_integer watermarkValue (u fieldPrefix @ u ''.watermark'') 0 MAX_SAFE_INTEGER) (\<lambda>watermark.
    Inr \<lparr>cvGeneration = generation, cvWatermark = watermark\<rparr>))"

definition descriptor_coverage :: "descriptor \<Rightarrow> coverage" where
  "descriptor_coverage d = \<lparr>cvGeneration = mfGeneration (dsManifest d), cvWatermark = mfWatermark (dsManifest d)\<rparr>"

definition require_postgres :: "'d renv \<Rightarrow> ('d, unit) rdb" where
  "require_postgres env = demand (evPostgres env) 409 (u ''Recovery generation control requires the PostgreSQL adapter.'')"

text \<open>\<open>body.value ?? stored.value\<close>\<close>

definition requested_or_stored :: "jsv \<Rightarrow> descriptor option \<Rightarrow> (descriptor \<Rightarrow> int) \<Rightarrow> ('d, jsv) rdb" where
  "requested_or_stored v stored f = (if given v then st_return v else st_bind (present stored) (\<lambda>d. st_return (jint (f d))))"

definition begun_runtime :: "runtime \<Rightarrow> ustr \<Rightarrow> ustr \<Rightarrow> coverage \<Rightarrow> int \<Rightarrow> int \<Rightarrow> runtime \<Rightarrow> runtime" where
  "begun_runtime seen recoveryId backupId cov leaseExpiresAt now r = r\<lparr>rtState := Recovering,
     rtReadyGeneration := rtReadyGeneration seen, rtTargetGeneration := Some (rtReadyGeneration seen + 1),
     rtRecoveryId := Some recoveryId, rtBackupId := Some backupId, rtGeneration := Some (cvGeneration cov),
     rtWatermark := Some (cvWatermark cov), rtLeaseExpiresAt := Some leaseExpiresAt, rtStartedAt := Some now,
     rtUpdatedAt := now, rtCompletedAt := None, rtLastError := None\<rparr>"

definition extend_recovery :: "'d renv \<Rightarrow> runtime \<Rightarrow> ustr \<Rightarrow> int \<Rightarrow> ('d, reply) rdb" where
  "extend_recovery env seen backupId now =
    (let leaseExpiresAt = now + recovery_lease_ms (evVars env) in
     st_bind (d1 env (update_runtime (\<lambda>r. rtState r = Recovering \<and> rtRecoveryId seen \<noteq> None \<and> rtRecoveryId r = rtRecoveryId seen)
       (\<lambda>r. r\<lparr>rtLeaseExpiresAt := Some leaseExpiresAt, rtUpdatedAt := now, rtLastError := None\<rparr>))) (\<lambda>_.
     st_bind (touch_backup_restore_lease env backupId leaseExpiresAt) (\<lambda>_. status_reply env [])))"

definition start_recovery :: "'d renv \<Rightarrow> runtime \<Rightarrow> ustr \<Rightarrow> coverage \<Rightarrow> int \<Rightarrow> ('d, reply) rdb" where
  "start_recovery env seen backupId cov now =
    st_bind (fresh_uuid env) (\<lambda>recoveryId.
    let leaseExpiresAt = now + recovery_lease_ms (evVars env) in
    st_bind (d1 env (update_runtime (\<lambda>_. True) (begun_runtime seen recoveryId backupId cov leaseExpiresAt now))) (\<lambda>_.
    st_bind (touch_backup_restore_lease env backupId leaseExpiresAt) (\<lambda>_. status_reply env [])))"

text \<open>From the runtime that was read at the beginning.\<close>

definition begin_or_extend :: "'d renv \<Rightarrow> runtime \<Rightarrow> ustr \<Rightarrow> coverage \<Rightarrow> ('d, reply) rdb" where
  "begin_or_extend env seen backupId cov = st_bind (now_ms env) (\<lambda>now.
    if rtState seen = Recovering
    then (if rtBackupId seen = Some backupId \<and> rtGeneration seen = Some (cvGeneration cov) \<and> rtWatermark seen = Some (cvWatermark cov)
      then extend_recovery env seen backupId now
      else refuse 409 (u ''Another recovery generation is already in progress.''))
    else start_recovery env seen backupId cov now)"

definition RECOVERY_BEGIN_SCHEMA :: ustr where "RECOVERY_BEGIN_SCHEMA = u ''adg-cpoly-recovery-begin-v1''"
definition RECOVERY_COMPLETE_SCHEMA :: ustr where "RECOVERY_COMPLETE_SCHEMA = u ''adg-cpoly-recovery-complete-v1''"

definition begin_recovery :: "'d renv \<Rightarrow> nat list \<Rightarrow> ('d, reply) rdb" where
  "begin_recovery env rawBody =
    st_bind (require_postgres env) (\<lambda>_.
    st_bind (routed (parse_required_json_body env rawBody RECOVERY_BEGIN_SCHEMA)) (\<lambda>body.
    st_bind (routed (normalize_backup_id (evPlatform env) (dot body ''backupId'') ''backupId'')) (\<lambda>backupId.
    st_bind (get_cpoly_recovery_runtime env) (\<lambda>seen.
    st_bind (load_backup_set env backupId) (\<lambda>b.
    st_bind (demand (bkStatus b = BackupComplete) 409 (u ''Backup is not complete.'')) (\<lambda>_.
    st_bind (routed (stored_descriptor (evPlatform env) b)) (\<lambda>stored.
    st_bind (requested_or_stored (dot body ''snapshotGeneration'') stored (cvGeneration \<circ> descriptor_coverage)) (\<lambda>g.
    st_bind (requested_or_stored (dot body ''snapshotWatermark'') stored (cvWatermark \<circ> descriptor_coverage)) (\<lambda>m.
    st_bind (routed (normalize_recovery_snapshot_coverage g m ''snapshot'')) (\<lambda>cov.
    st_bind (present stored) (\<lambda>d.
    st_bind (demand (cov = descriptor_coverage d) 409 (u ''Requested recovery snapshot did not match the selected backup.'')) (\<lambda>_.
    begin_or_extend env seen backupId cov))))))))))))"

definition load_restore_set :: "'d renv \<Rightarrow> ustr option \<Rightarrow> ('d, backup_row) rdb" where
  "load_restore_set env backupId = (case backupId of Some i \<Rightarrow> load_backup_set env i
     | None \<Rightarrow> st_bind (d1_read env (\<lambda>_. ())) (\<lambda>_. refuse 404 (u ''CPOLY backup was not found.'')))"

definition matching_id :: "'d renv \<Rightarrow> jsv \<Rightarrow> string \<Rightarrow> ustr option \<Rightarrow> string \<Rightarrow> ('d, unit) rdb" where
  "matching_id env v name active message = if_given v
     (st_bind (routed (normalize_backup_id (evPlatform env) v name)) (\<lambda>i. demand (Some i = active) 409 (u message)))"

definition check_completion :: "'d renv \<Rightarrow> nat list \<Rightarrow> ('d, runtime \<times> coverage) rdb" where
  "check_completion env rawBody =
    st_bind (require_postgres env) (\<lambda>_.
    st_bind (routed (parse_required_json_body env rawBody RECOVERY_COMPLETE_SCHEMA)) (\<lambda>body.
    st_bind (get_cpoly_recovery_runtime env) (\<lambda>seen.
    st_bind (demand (rtState seen = Recovering) 409 (u ''No recovery generation is in progress.'')) (\<lambda>_.
    st_bind (matching_id env (dot body ''recoveryId'') ''recoveryId'' (rtRecoveryId seen) ''Recovery ID did not match the active run.'') (\<lambda>_.
    st_bind (matching_id env (dot body ''backupId'') ''backupId'' (rtBackupId seen) ''Backup ID did not match the active recovery.'') (\<lambda>_.
    st_bind (routed (normalize_recovery_snapshot_coverage (coalesce (dot body ''snapshotGeneration'') (jnumber (rtGeneration seen)))
        (coalesce (dot body ''snapshotWatermark'') (jnumber (rtWatermark seen))) ''snapshot'')) (\<lambda>cov.
    st_bind (demand (rtGeneration seen = Some (cvGeneration cov) \<and> rtWatermark seen = Some (cvWatermark cov)) 409
      (u ''Recovery completion snapshot did not match the active run.'')) (\<lambda>_.
    st_bind (load_restore_set env (rtBackupId seen)) (\<lambda>b.
    st_bind (routed (stored_descriptor (evPlatform env) b)) (\<lambda>stored.
    st_bind (present stored) (\<lambda>d.
    st_bind (demand (descriptor_coverage d = cov) 409 (u ''Recovery backup descriptor no longer matches the active snapshot.'')) (\<lambda>_.
    st_return (seen, cov)))))))))))))"

text \<open>No handler leaves a recovery without a target generation; \<open>Number(null)\<close> is 0.\<close>

definition target_generation :: "runtime \<Rightarrow> int" where
  "target_generation r = or_else (rtTargetGeneration r) 0"

definition finished_runtime :: "runtime \<Rightarrow> int \<Rightarrow> runtime \<Rightarrow> runtime" where
  "finished_runtime seen now r = r\<lparr>rtState := Ready, rtReadyGeneration := target_generation seen, rtTargetGeneration := None,
     rtRecoveryId := None, rtBackupId := None, rtGeneration := None, rtWatermark := None, rtLeaseExpiresAt := None,
     rtStartedAt := None, rtUpdatedAt := now, rtCompletedAt := Some now, rtLastError := None\<rparr>"

definition replay_json :: "recovery_answer \<Rightarrow> jsv" where
  "replay_json a = jobject [(''generation'', jint (raGeneration a)), (''receiptSeq'', jint (raSeq a)),
     (''replayed'', jint (int (raReplayed a))), (''pending'', jint (int (raPending a)))]"

abbreviation watermark_invalid :: ustr where
  "watermark_invalid \<equiv> u ''PostgreSQL recovery verification watermark was invalid.''"

definition conclude_recovery :: "'d renv \<Rightarrow> runtime \<Rightarrow> coverage \<Rightarrow> recovery_answer \<Rightarrow> ('d, reply) rdb" where
  "conclude_recovery env seen cov a =
    st_bind (in_world (count_recovery_replay_pending (evJournal env) cov (target_generation seen))) (\<lambda>open.
    st_bind (if open = 0 then st_return () else
      st_bind (set_recovery_runtime_error env (u ''Recovery replay still has '' @ nat_str open @ u '' outstanding journal entries.'')) (\<lambda>_.
      refuse 409 (u ''Recovery replay has not yet reached a ready state.''))) (\<lambda>_.
    st_bind (routed (normalize_recovery_snapshot_coverage (jint (raGeneration a)) (jint (raSeq a)) ''postgresReceipt'')) (\<lambda>reached.
    st_bind (if cvGeneration reached = target_generation seen \<and> cvWatermark cov \<le> cvWatermark reached then st_return () else
      st_bind (set_recovery_runtime_error env watermark_invalid) (\<lambda>_. refuse 409 watermark_invalid)) (\<lambda>_.
    st_bind (now_ms env) (\<lambda>now.
    st_bind (d1 env (update_runtime (\<lambda>_. True) (finished_runtime seen now))) (\<lambda>_.
    st_bind (case rtBackupId seen of None \<Rightarrow> st_return () | Some i \<Rightarrow> touch_backup_restore_lease env i now) (\<lambda>_.
    status_reply env [(''replay'', replay_json a)])))))))"

text \<open>The replay may not return, and then neither does the handler.\<close>

definition complete_recovery ::
  "'d renv \<Rightarrow> nat list \<Rightarrow> 'd recovery \<Rightarrow> ((recovery_error + reply) \<times> 'd recovery) option" where
  "complete_recovery env rawBody s =
    (case check_completion env rawBody s of
       (Inl e, s1) \<Rightarrow> Some (Inl e, s1)
     | (Inr (seen, cov), s1) \<Rightarrow>
         (case complete_recovery_replay (evJournal env) cov (target_generation seen)
             (nat (journal_replay_limit (evVars env))) (rvWorld s1) of
            None \<Rightarrow> None
          | Some (Inl f, w) \<Rightarrow> Some (Inl (Broken f), s1\<lparr>rvWorld := w\<rparr>)
          | Some (Inr a, w) \<Rightarrow> Some (conclude_recovery env seen cov a (s1\<lparr>rvWorld := w\<rparr>))))"

section \<open>Signed requests\<close>

record request =
  rqMethod :: ustr
  rqPathname :: ustr
  rqSearch :: ustr
  rqContentLength :: "ustr option"
  rqTimestamp :: "ustr option"
  rqNonce :: "ustr option"
  rqBodySha256 :: "ustr option"
  rqSignature :: "ustr option"
  rqBody :: "nat list"

definition CPOLY_SIGNATURE_WINDOW_MS :: int where "CPOLY_SIGNATURE_WINDOW_MS = 5 * 60 * 1000"

definition header_text :: "'d renv \<Rightarrow> ustr option \<Rightarrow> ustr" where
  "header_text env h = pfLower (evPlatform env) (js_trim (or_else h []))"

text \<open>\<open>String(x || "")\<close> of a number: 0 is falsy.\<close>

definition canonical_number :: "int \<Rightarrow> ustr" where
  "canonical_number n = (if n = 0 then [] else int_str n)"

definition build_cpoly_canonical_text :: "'d renv \<Rightarrow> ustr \<Rightarrow> ustr \<Rightarrow> int \<Rightarrow> ustr \<Rightarrow> ustr \<Rightarrow> ustr" where
  "build_cpoly_canonical_text env method path timestamp nonce bodyHash =
    join_with [10] [jeUpper (evJournal env) (if method = [] then u ''GET'' else method), path, canonical_number timestamp, nonce, bodyHash]"

definition hmac_key :: "'d renv \<Rightarrow> ustr" where
  "hmac_key env = to_str (js_or (evVars env ''CPOLY_BACKUP_HMAC_KEY'') (JStr []))"

definition unauthorized :: "bool \<Rightarrow> string \<Rightarrow> ('d, unit) rdb" where
  "unauthorized ok message = demand ok 401 (u message)"

definition verify_signed_cpoly_request :: "'d renv \<Rightarrow> request \<Rightarrow> ('d, unit) rdb" where
  "verify_signed_cpoly_request env rq =
    (let path = rqPathname rq @ rqSearch rq; nonce = header_text env (rqNonce rq);
       bodyHash = header_text env (rqBodySha256 rq); signature = header_text env (rqSignature rq);
       timestamp = parse_int (or_else (rqTimestamp rq) []) in
     st_bind (unauthorized ((case timestamp of None \<Rightarrow> False | Some t \<Rightarrow> \<bar>t\<bar> \<le> MAX_SAFE_INTEGER) \<and> matches UUID_V4 nonce
       \<and> matches SHA256_HEX_PATTERN bodyHash \<and> matches SHA256_HEX_PATTERN signature)
       ''CPOLY backup signature headers were invalid.'') (\<lambda>_.
     st_bind (now_ms env) (\<lambda>now.
     st_bind (unauthorized (\<bar>now - the timestamp\<bar> \<le> CPOLY_SIGNATURE_WINDOW_MS)
       ''CPOLY backup request timestamp was outside the allowed window.'') (\<lambda>_.
     st_bind (unauthorized (constant_time_hex_equal (pfSha256 (evPlatform env) (rqBody rq)) bodyHash)
       ''CPOLY backup request body hash did not match.'') (\<lambda>_.
     st_bind (unauthorized (constant_time_hex_equal
         (evHmac env (hmac_key env) (build_cpoly_canonical_text env (rqMethod rq) path (the timestamp) nonce bodyHash)) signature)
       ''CPOLY backup request signature was invalid.'') (\<lambda>_.
     st_bind (d1 env (insert_nonce \<lparr>noNonce = nonce, noMethod = rqMethod rq, noPath = path, noBodySha256 = bodyHash,
       noCreatedAt = now, noExpiresAt = the timestamp + CPOLY_SIGNATURE_WINDOW_MS\<rparr>)) (\<lambda>n.
     demand (n = 1) 409 (u ''CPOLY backup request nonce was already used.''))))))))"

definition prune_signed_nonces :: "'d renv \<Rightarrow> int \<Rightarrow> nat \<Rightarrow> ('d, unit) rdb" where
  "prune_signed_nonces env now n = st_bind (d1 env (\<lambda>s.
     let old = map noNonce (take n (sort_key noExpiresAt (filter (\<lambda>r. noExpiresAt r \<le> now) (rvNonces s)))) in
     Inr ((), s\<lparr>rvNonces := filter (\<lambda>r. noNonce r \<notin> set old) (rvNonces s)\<rparr>))) (\<lambda>_. st_return ())"

section \<open>Routes\<close>

definition hex_or_dash :: "nat \<Rightarrow> bool" where
  "hex_or_dash c \<longleftrightarrow> any_hex c \<or> c = 45"

definition BACKUP_PATH :: rx where
  "BACKUP_PATH = RSeq (rilit ''/api/internal/cpoly-backups/'') (rtimes 36 (RCls hex_or_dash))"

definition CHUNK_PATH :: rx where
  "CHUNK_PATH = RSeq BACKUP_PATH (RSeq (rilit ''/chunks/'') (ratleast 1 (RCls digit)))"

definition COMPLETE_PATH :: rx where "COMPLETE_PATH = RSeq BACKUP_PATH (rilit ''/complete'')"

text \<open>The groups of the patterns: the lengths of the fixed parts are 28, 36 and 8.\<close>

definition path_backup_id :: "'d renv \<Rightarrow> ustr \<Rightarrow> ustr" where
  "path_backup_id env p = pfLower (evPlatform env) (take 36 (drop 28 p))"

definition path_chunk_index :: "ustr \<Rightarrow> nat route" where
  "path_chunk_index p = sbind (positive_integer (JStr (drop 72 p)) (u ''chunkIndex'') 0 4096) (\<lambda>i. Inr (nat i))"

definition internal_route_body_limit :: "'d renv \<Rightarrow> request \<Rightarrow> int" where
  "internal_route_body_limit env rq = (if rqMethod rq = u ''PUT'' \<and> matches CHUNK_PATH (rqPathname rq)
     then max_chunk_bytes (evVars env) else int MAX_BACKUP_DESCRIPTOR_JSON_BYTES)"

definition read_internal_request_body :: "'d renv \<Rightarrow> request \<Rightarrow> ('d, unit) rdb" where
  "read_internal_request_body env rq =
    (let maxBytes = internal_route_body_limit env rq; declared = or_else (rqContentLength rq) [] in
     st_bind (demand (case (if declared = [] then Some 0 else string_number declared) of None \<Rightarrow> True | Some x \<Rightarrow> x \<le> of_int maxBytes) 413
       (u ''Request body exceeded the configured limit.'')) (\<lambda>_.
     st_bind (demand (int (length (rqBody rq)) \<le> maxBytes) 413 (u ''Request body exceeded the configured limit.'')) (\<lambda>_.
     demand (rqMethod rq \<in> {u ''GET'', u ''HEAD''} \<longrightarrow> rqBody rq = []) 400
       (u ''GET and HEAD backup requests must not send a body.''))))"

definition cpoly_backup_configured :: "'d renv \<Rightarrow> bool" where
  "cpoly_backup_configured env \<longleftrightarrow> evStore env \<and> js_trim (hmac_key env) \<noteq> []"

definition admit :: "'d renv \<Rightarrow> request \<Rightarrow> ('d, unit) rdb" where
  "admit env rq =
    st_bind (demand (cpoly_backup_configured env) 503 (u ''CPOLY recovery backup lane is not configured.'')) (\<lambda>_.
    st_bind (read_internal_request_body env rq) (\<lambda>_. verify_signed_cpoly_request env rq))"

definition returning :: "('d, reply) rdb \<Rightarrow> 'd recovery \<Rightarrow> ((recovery_error + reply) \<times> 'd recovery) option" where
  "returning m s = Some (m s)"

abbreviation not_found :: reply where
  "not_found \<equiv> JsonReply 404 (jobject [(''message'', JStr (u ''Not found.''))])"

definition dispatch :: "'d renv \<Rightarrow> request \<Rightarrow> 'd recovery \<Rightarrow> ((recovery_error + reply) \<times> 'd recovery) option" where
  "dispatch env rq =
    (let p = rqPathname rq; method = (\<lambda>m. rqMethod rq = u m) in
     if p = u ''/api/internal/cpoly-recovery/status'' \<and> method ''GET'' then returning (fetch_recovery_status env)
     else if p = u ''/api/internal/cpoly-recovery/begin'' \<and> method ''POST'' then returning (begin_recovery env (rqBody rq))
     else if p = u ''/api/internal/cpoly-recovery/complete'' \<and> method ''POST'' then complete_recovery env (rqBody rq)
     else if p = u ''/api/internal/cpoly-backups'' \<and> method ''POST'' then returning (create_backup_set env (rqBody rq))
     else if p = u ''/api/internal/cpoly-backups/latest'' \<and> method ''GET'' then returning (fetch_latest_backup env)
     else if matches CHUNK_PATH p then returning (st_bind (routed (path_chunk_index p)) (\<lambda>i.
       if method ''PUT'' then upload_backup_chunk env (path_backup_id env p) i (rqBody rq)
       else if method ''GET'' then fetch_backup_chunk env (path_backup_id env p) i
       else st_return not_found))
     else if matches COMPLETE_PATH p \<and> method ''POST''
     then returning (complete_backup_set env (path_backup_id env p) (rqBody rq))
     else returning (st_return not_found))"

text \<open>The outer \<open>try\<close>: an error of a route is an answer, any other error passes.\<close>

definition answered :: "recovery_error + reply \<Rightarrow> recovery_error + reply option" where
  "answered r = (case r of Inr reply \<Rightarrow> Inr (Some reply)
     | Inl (Refused (Thrown e)) \<Rightarrow> Inr (Some (JsonReply (reStatus e) (jobject [(''message'', JStr (reMessage e))])))
     | Inl e \<Rightarrow> Inl e)"

definition route_cpoly_backup_request ::
  "'d renv \<Rightarrow> request \<Rightarrow> 'd recovery \<Rightarrow> ((recovery_error + reply option) \<times> 'd recovery) option" where
  "route_cpoly_backup_request env rq s =
    (if \<not> starts_with (u ''/api/internal/cpoly-backups'') (rqPathname rq) \<and> \<not> starts_with (u ''/api/internal/cpoly-recovery'') (rqPathname rq)
     then Some (Inr None, s)
     else map_option (apfst answered) (case admit env rq s of
         (Inl e, s1) \<Rightarrow> Some (Inl e, s1)
       | (Inr _, s1) \<Rightarrow> dispatch env rq s1))"

section \<open>The scheduler\<close>

definition or_none :: "('d, 'a option) rdb \<Rightarrow> ('d, 'a option) rdb" where
  "or_none m = st_catch m (\<lambda>_. st_return None)"

definition process_cpoly_recovery_maintenance :: "'d renv \<Rightarrow> ('d, unit) rdb" where
  "process_cpoly_recovery_maintenance env =
    st_bind (now_ms env) (\<lambda>now.
    st_bind (ignoring (prune_signed_nonces env now (nat (nonce_prune_limit (evVars env))))) (\<lambda>_.
    st_bind (get_cpoly_recovery_runtime env) (\<lambda>rt.
    st_bind (or_none (prune_expired_backups env now (Some rt))) (\<lambda>snapshot.
    if rtState rt = Recovering \<or> \<not> evPostgres env then st_return ()
    else st_bind (ignoring (in_world (replay_recovery_journal (evJournal env) (nat (journal_replay_limit (evVars env)))))) (\<lambda>_.
      case snapshot of None \<Rightarrow> st_return ()
      | Some (i, cov) \<Rightarrow> ignoring (in_world (cleanup_applied_recovery_journal (evJournal env) (Some cov)
          (nat (journal_cleanup_limit (evVars env))))))))))"

end
