(* ===== verification/JsonRoundtrip.thy ===== *)
theory JsonRoundtrip
  imports Json
begin

text \<open>
  \<open>JSON.parse(JSON.stringify(v))\<close> is \<open>v\<close> again, for documents of plain values: no \<open>undefined\<close>, texts of
  16-bit code units, integers a double holds exactly, and objects whose keys stand in the order of
  the language. The parser's fuel is enough for every text.
\<close>

section \<open>Texts\<close>

lemma radix_digit_hex: "d < 16 \<Longrightarrow> radix_digit 16 (hex_digit d) = Some d"
  by (cases "d < 10") (auto simp: radix_digit_def hex_digit_def digit_def rng_def)

lemma hex_unit_hex4: "c < 0x10000 \<Longrightarrow> hex_unit (hex4 c) = Some c"
proof -
  assume "c < 0x10000"
  moreover have "(((0 + c div 4096 mod 16) * 16 + c div 256 mod 16) * 16 + c div 16 mod 16) * 16 + c mod 16 = c mod 65536"
    using mod_mult2_eq[of c 16 4096] mod_mult2_eq[of "c div 16" 16 256] mod_mult2_eq[of "c div 256" 16 16]
    by (simp add: div_mult2_eq[symmetric])
  ultimately show ?thesis by (simp add: hex_unit_def hex4_def radix_digit_hex algebra_simps)
qed

lemma string_rest_unit:
  "c < 0x10000 \<Longrightarrow> string_rest (quote_unit c @ t) = map_option (apfst (Cons c)) (string_rest t)"
  using hex_unit_hex4[of c]
  by (auto simp: quote_unit_def json_escape_def) (auto simp: hex4_def)

lemma string_rest_quoted:
  "\<forall>c \<in> set s. c < 0x10000 \<Longrightarrow> string_rest (quote_body s @ 34 # t) = Some (s, t)"
proof (induction s rule: quote_body.induct)
  case (2 c d s)
  show ?case
  proof (cases "high_surrogate c \<and> low_surrogate d")
    case True
    then have "c \<noteq> 34" "c \<noteq> 92" "\<not> c < 32" "d \<noteq> 34" "d \<noteq> 92" "\<not> d < 32"
      by (auto simp: high_surrogate_def low_surrogate_def)
    then show ?thesis using True 2 by simp
  next
    case False
    then have "quote_body (c # d # s) = quote_unit c @ quote_body (d # s)"
      by (simp only: quote_body.simps if_False)
    moreover have "string_rest (quote_body (d # s) @ 34 # t) = Some (d # s, t)" "c < 0x10000"
      using 2 False by simp_all
    ultimately show ?thesis by (simp only: append_assoc string_rest_unit) simp
  qed
qed (simp_all add: string_rest_unit)

section \<open>Numbers\<close>

lemma nat_str_all_digits: "list_all digit (nat_str n)"
  using nat_str_digits by (auto simp: list_all_iff digit_def rng_def)

lemma nat_str_head: "0 < n \<Longrightarrow> \<exists>c t. nat_str n = c # t \<and> 49 \<le> c \<and> c \<le> 57 \<and> list_all digit t"
proof (induction n rule: nat_str.induct)
  case (1 n)
  show ?case
  proof (cases "n < 10")
    case True
    then show ?thesis using 1(2) nat_str.simps[of n] by auto
  next
    case False
    then obtain c t where "nat_str (n div 10) = c # t" "49 \<le> c" "c \<le> 57" "list_all digit t"
      using 1(1) by (metis div_greater_zero_iff leI pos2 zero_less_numeral)
    then show ?thesis using False nat_str.simps[of n] nat_str_all_digits[of n] by simp
  qed
qed

lemma in_lang_JSON_NUMBER: "in_lang JSON_NUMBER (int_str i)"
proof -
  have whole: "in_lang (RAlt (rlit ''0'') (RSeq (RCls (rng CHR ''1'' CHR ''9'')) (RStar (RCls digit)))) (nat_str n)" for n
  proof (cases "n = 0")
    case True
    then have "nat_str n = u ''0''" by (simp add: nat_str.simps[of 0] u_def)
    then show ?thesis using in_lang_rlit[of "''0''"] by (auto intro: in_lang.alt1)
  next
    case False
    then obtain c t where n: "nat_str n = c # t" "49 \<le> c" "c \<le> 57" "list_all digit t"
      using nat_str_head by blast
    then have "in_lang (RCls (rng CHR ''1'' CHR ''9'')) [c]" by (auto simp: rng_def intro: in_lang.cls)
    from in_lang.seq[OF this, of "RStar (RCls digit)" t] n show ?thesis
      by (auto simp: in_lang_star_cls intro: in_lang.alt2)
  qed
  have sign: "in_lang (ropt (rlit ''-'')) (if i < 0 then u ''-'' else [])"
    using in_lang_rlit[of "''-''"] by (auto simp: ropt_def intro: in_lang.intros)
  have "int_str i = (if i < 0 then u ''-'' else []) @ nat_str (nat \<bar>i\<bar>) @ [] @ []"
    by (simp add: int_str_def)
  moreover have "in_lang (ropt r) []" for r by (simp add: ropt_def in_lang.intros)
  ultimately show ?thesis
    using sign whole unfolding JSON_NUMBER_def rseq.simps by (metis in_lang.seq)
qed

lemma split_at_none: "\<forall>c \<in> set s. \<not> p c \<Longrightarrow> split_at p s = (s, None)"
  by (induction s) (auto simp: split_at_def)

lemma decimal_literal_int_str: "decimal_literal (int_str i) = Some (of_int i)"
proof -
  let ?ds = "nat_str (nat \<bar>i\<bar>)"
  obtain c t where ds: "?ds = c # t" by (cases ?ds) auto
  have digits: "\<And>d. d \<in> set ?ds \<Longrightarrow> 48 \<le> d \<and> d \<le> 57" using nat_str_digits by blast
  then have "\<forall>d \<in> set ?ds. \<not> one_of ''eE'' d" "\<forall>d \<in> set ?ds. d \<noteq> 46" by (fastforce simp: one_of_def u_def)+
  then have whole: "split_at (one_of ''eE'') ?ds = (?ds, None)" "split_at (\<lambda>c. c = 46) ?ds = (?ds, None)"
    by (simp_all add: split_at_none)
  have sign: "split_sign (int_str i) = (i < 0, ?ds)"
    using digits[of c] ds by (auto simp: split_sign_def int_str_def u_def)
  have "(of_nat (nat \<bar>i\<bar>)::rat) = (if i < 0 then - of_int i else of_int i)" by simp
  moreover have "digits_val [48] = 0" "digit 48" by (simp_all add: digits_val_def digit_def rng_def)
  ultimately show ?thesis
    using whole sign nat_str_all_digits[of "nat \<bar>i\<bar>"]
    by (simp add: decimal_literal_def Let_def del: of_nat_nat)
qed

section \<open>Documents\<close>

primrec json_plain :: "jsv \<Rightarrow> bool" where
  "json_plain JUndef = False"
| "json_plain JNull = True"
| "json_plain (JBool b) = True"
| "json_plain (JNum n) = (n = of_int \<lfloor>n\<rfloor> \<and> \<bar>n\<bar> \<le> 2 ^ 53)"
| "json_plain (JStr s) = (\<forall>c \<in> set s. c < 0x10000)"
| "json_plain (JArr vs) = list_all id (map json_plain vs)"
| "json_plain (JObj kvs) = (object_of kvs = JObj kvs \<and> (\<forall>k \<in> set (map fst kvs). \<forall>c \<in> set k. c < 0x10000)
     \<and> list_all snd (map (map_prod id json_plain) kvs))"

lemma json_stringify_plain: "json_plain v \<Longrightarrow> json_stringify v = Some (json_text v)"
  by (cases v) (auto simp: json_text_def)

lemma json_text_simps:
  "json_text JNull = u ''null''" "json_text (JBool b) = (if b then u ''true'' else u ''false'')"
  "json_text (JStr s) = 34 # quote_body s @ [34]"
  "json_plain (JNum n) \<Longrightarrow> json_text (JNum n) = int_str \<lfloor>n\<rfloor>"
  by (auto simp: json_text_def json_quote_def num_str_def)

lemma json_text_JArr:
  "json_plain (JArr vs) \<Longrightarrow> json_text (JArr vs) = 91 # join_with [44] (map json_text vs) @ [93]"
proof -
  assume "json_plain (JArr vs)"
  then have "map (\<lambda>r. case r of None \<Rightarrow> u ''null'' | Some s \<Rightarrow> s) (map json_stringify vs) = map json_text vs"
    by (auto simp: list_all_iff json_stringify_plain)
  then have "json_stringify (JArr vs) = Some (u ''['' @ join_with (u '','') (map json_text vs) @ u '']'')"
    by (simp only: json_stringify.simps)
  then show ?thesis by (simp add: json_text_def[of "JArr vs"] u_def)
qed

definition member_text :: "ustr \<times> jsv \<Rightarrow> ustr" where
  "member_text kv = json_quote (fst kv) @ [58] @ json_text (snd kv)"

lemma json_text_JObj:
  "json_plain (JObj kvs) \<Longrightarrow> json_text (JObj kvs) = 123 # join_with [44] (map member_text kvs) @ [125]"
proof -
  assume "json_plain (JObj kvs)"
  then have "\<forall>kv \<in> set kvs. json_stringify (snd kv) = Some (json_text (snd kv))"
    by (auto simp: list_all_iff json_stringify_plain)
  then have "concat (map (\<lambda>(k, r). case r of None \<Rightarrow> [] | Some s \<Rightarrow> [json_quote k @ u '':'' @ s])
      (map (map_prod id json_stringify) kvs)) = map member_text kvs"
    by (induction kvs) (auto simp: member_text_def u_def)
  then show ?thesis by (simp add: json_text_def u_def comp_def)
qed

text \<open>Every text starts with a character that is neither white space nor a closing bracket.\<close>

lemma int_str_head: "\<exists>c t. int_str i = c # t \<and> (c = 45 \<or> 48 \<le> c \<and> c \<le> 57)"
  using int_str_digits[of _ i] int_str_nonempty[of i] by (cases "int_str i") auto

lemma json_text_head:
  "json_plain v \<Longrightarrow> \<exists>c t. json_text v = c # t \<and> \<not> json_space c \<and> c \<noteq> 93 \<and> c \<noteq> 125"
proof (cases v)
  case (JNum n)
  then show "json_plain v \<Longrightarrow> ?thesis"
    using int_str_head[of "\<lfloor>n\<rfloor>"] by (auto simp: json_text_simps json_space_def simp del: json_plain.simps)
qed (auto simp: json_text_simps json_text_JArr json_text_JObj json_space_def u_def simp del: json_plain.simps(6,7))

lemma skip_space_head: "\<not> json_space c \<Longrightarrow> skip_space (c # s) = c # s"
  by (simp add: skip_space_def)

lemma skip_space_text: "json_plain v \<Longrightarrow> skip_space (json_text v @ s) = json_text v @ s"
  using json_text_head[of v] skip_space_head by auto

section \<open>Parsing what was printed\<close>

definition ends_number :: "ustr \<Rightarrow> bool" where
  "ends_number s \<longleftrightarrow> (case s of [] \<Rightarrow> True | c # t \<Rightarrow> \<not> number_char c)"

lemma ends_number_simps [simp]: "ends_number []" "ends_number (44 # s)" "ends_number (93 # s)" "ends_number (125 # s)"
  by (simp_all add: ends_number_def number_char_def one_of_def digit_def rng_def u_def)

definition parses :: "jsv \<Rightarrow> bool" where
  "parses v \<longleftrightarrow> (\<forall>n rest. length (json_text v) < n \<longrightarrow> ends_number rest \<longrightarrow>
     json_value n (json_text v @ rest) = Some (v, rest))"

lemma json_number_int_str:
  assumes "\<bar>i\<bar> \<le> 2 ^ 53" "ends_number rest"
  shows "json_number (int_str i @ rest) = Some (JNum (of_int i), rest)"
proof -
  have "\<forall>c \<in> set (int_str i). number_char c"
    using int_str_digits[of _ i] by (auto simp: number_char_def one_of_def u_def digit_def rng_def)
  then have t: "takeWhile number_char (int_str i @ rest) = int_str i" "dropWhile number_char (int_str i @ rest) = rest"
    using assms(2) by (auto simp: ends_number_def takeWhile_append2 dropWhile_append2 split: list.splits)
  have "(of_int \<bar>i\<bar>::rat) \<le> of_int (2 ^ 53)" using assms(1) by (simp only: of_int_le_iff)
  moreover have "(of_int (2 ^ 53)::rat) \<le> max_double" by (simp add: max_double_def)
  ultimately have "finite_double (of_int i) = Some (of_int i)"
    using fl_of_int[OF assms(1)] by (simp add: finite_double_def Let_def)
  then show ?thesis
    using in_lang_JSON_NUMBER[of i]
    by (simp add: json_number_def Let_def t matches_in_lang decimal_literal_int_str)
qed

lemma parses_elements:
  assumes "\<forall>v \<in> set vs. json_plain v \<and> parses v" "vs \<noteq> []" "length (join_with [44] (map json_text vs)) + 1 < n"
  shows "json_elements n (join_with [44] (map json_text vs) @ 93 # rest) = Some (vs, rest)"
  using assms
proof (induction vs arbitrary: n)
  case (Cons v vs)
  obtain m where n: "n = Suc m" using Cons.prems(3) by (cases n) auto
  show ?case
  proof (cases vs)
    case Nil
    then have "json_value m (json_text v @ 93 # rest) = Some (v, 93 # rest)"
      using Cons.prems n by (simp add: parses_def)
    then show ?thesis using n Nil by (simp add: skip_space_def json_space_def)
  next
    case (Cons w ws)
    then have "length (json_text v) < m" "length (join_with [44] (map json_text vs)) + 1 < m"
      using Cons.prems(3) n by auto
    then have "json_value m (json_text v @ 44 # join_with [44] (map json_text vs) @ 93 # rest)
        = Some (v, 44 # join_with [44] (map json_text vs) @ 93 # rest)"
      "json_elements m (join_with [44] (map json_text vs) @ 93 # rest) = Some (vs, rest)"
      using Cons.prems Cons.IH Cons by (simp_all add: parses_def)
    then show ?thesis using n Cons by (simp add: skip_space_def json_space_def)
  qed
qed simp

lemma parses_member:
  assumes "json_plain v" "parses v" "\<forall>c \<in> set k. c < 0x10000" "length (member_text (k, v)) < n" "ends_number rest"
  shows "string_rest (tl (member_text (k, v)) @ rest) = Some (k, 58 # json_text v @ rest)"
    "json_value n (json_text v @ rest) = Some (v, rest)"
  using assms string_rest_quoted[OF assms(3)] by (auto simp: member_text_def json_quote_def parses_def)

lemma parses_members:
  assumes "\<forall>kv \<in> set kvs. json_plain (snd kv) \<and> parses (snd kv) \<and> (\<forall>c \<in> set (fst kv). c < 0x10000)" "kvs \<noteq> []"
    "length (join_with [44] (map member_text kvs)) + 1 < n"
  shows "json_members n (join_with [44] (map member_text kvs) @ 125 # rest) = Some (kvs, rest)"
  using assms
proof (induction kvs arbitrary: n)
  case (Cons kv kvs)
  obtain m where n: "n = Suc m" using Cons.prems(3) by (cases n) auto
  obtain k v where kv: "kv = (k, v)" by (cases kv)
  have head: "member_text (k, v) = 34 # tl (member_text (k, v))" by (simp add: member_text_def json_quote_def)
  have plain: "json_plain v" "parses v" "\<forall>c \<in> set k. c < 0x10000" using Cons.prems(1) kv by auto
  define tail where "tail = (if kvs = [] then 125 # rest else 44 # join_with [44] (map member_text kvs) @ 125 # rest)"
  have len: "length (member_text (k, v)) < m" "kvs \<noteq> [] \<Longrightarrow> length (join_with [44] (map member_text kvs)) + 1 < m"
    using Cons.prems(3) n kv by (cases kvs; auto)+
  have whole: "join_with [44] (map member_text (kv # kvs)) @ 125 # rest = 34 # tl (member_text (k, v)) @ tail"
    using head kv by (cases kvs) (simp_all add: tail_def)
  have "ends_number tail" by (simp add: tail_def)
  note parsed = parses_member[OF plain len(1) this]
  have "json_members m (join_with [44] (map member_text kvs) @ 125 # rest) = Some (kvs, rest)" if "kvs \<noteq> []"
    using Cons.prems(1) Cons.IH[OF _ that len(2)[OF that]] by simp
  then show ?case
    unfolding whole n using parsed kv
    by (cases "kvs = []") (simp_all add: skip_space_def json_space_def tail_def)
qed simp

lemma json_value_text: "json_plain v \<Longrightarrow> parses v"
proof (induction v)
  case JNull
  then show ?case
    unfolding parses_def
    by (auto simp: json_text_simps u_def json_literal_def skip_space_def json_space_def gr0_conv_Suc dest!: less_imp_Suc_add)
next
  case (JBool b)
  then show ?case
    unfolding parses_def
    by (cases b) (auto simp: json_text_simps u_def json_literal_def skip_space_def json_space_def dest!: less_imp_Suc_add)
next
  case (JNum x)
  then have x: "x = of_int \<lfloor>x\<rfloor>" "\<bar>x\<bar> \<le> 2 ^ 53" by simp_all
  then have "(of_int \<bar>\<lfloor>x\<rfloor>\<bar>::rat) \<le> of_int (2 ^ 53)" by simp
  then have i: "\<bar>\<lfloor>x\<rfloor>\<bar> \<le> 2 ^ 53" by (simp only: of_int_le_iff)
  obtain c t where head: "int_str \<lfloor>x\<rfloor> = c # t" "c = 45 \<or> 48 \<le> c \<and> c \<le> 57" using int_str_head by blast
  show ?case
    unfolding parses_def
  proof (intro allI impI)
    fix n rest assume n: "length (json_text (JNum x)) < n" and rest: "ends_number rest"
    obtain m where m: "n = Suc m" using n by (cases n) auto
    have "skip_space (c # t @ rest) = c # t @ rest" using head(2) by (auto simp: skip_space_def json_space_def)
    then show "json_value n (json_text (JNum x) @ rest) = Some (JNum x, rest)"
      using json_number_int_str[OF i rest] head x(1) m json_text_simps(4)[OF JNum] by auto
  qed
next
  case (JStr s)
  then show ?case
    unfolding parses_def
    by (auto simp: json_text_simps skip_space_def json_space_def string_rest_quoted dest!: less_imp_Suc_add)
next
  case (JArr vs)
  have plain: "\<forall>v \<in> set vs. json_plain v \<and> parses v" using JArr by (auto simp: list_all_iff)
  show ?case
    unfolding parses_def json_text_JArr[OF JArr.prems]
  proof (intro allI impI)
    fix n rest assume n: "length (91 # join_with [44] (map json_text vs) @ [93]) < n" "ends_number rest"
    obtain m where m: "n = Suc m" using n by (cases n) auto
    show "json_value n ((91 # join_with [44] (map json_text vs) @ [93]) @ rest) = Some (JArr vs, rest)"
    proof (cases vs)
      case Nil
      then show ?thesis using m by (simp add: skip_space_def json_space_def)
    next
      case (Cons v ws)
      obtain c t where head: "json_text v = c # t" "\<not> json_space c" "c \<noteq> 93" using json_text_head plain Cons by force
      obtain r where r: "join_with [44] (map json_text vs) = c # r"
        using head Cons by (cases ws) auto
      have "json_elements m (join_with [44] (map json_text vs) @ 93 # rest) = Some (vs, rest)"
        using n m Cons by (intro parses_elements plain) auto
      then show ?thesis using m head r by (simp add: skip_space_def json_space_def)
    qed
  qed
next
  case (JObj kvs)
  have plain: "\<forall>kv \<in> set kvs. json_plain (snd kv) \<and> parses (snd kv) \<and> (\<forall>c \<in> set (fst kv). c < 0x10000)"
    using JObj by (fastforce simp: list_all_iff)
  show ?case
    unfolding parses_def json_text_JObj[OF JObj.prems]
  proof (intro allI impI)
    fix n rest assume n: "length (123 # join_with [44] (map member_text kvs) @ [125]) < n" "ends_number rest"
    obtain m where m: "n = Suc m" using n by (cases n) auto
    show "json_value n ((123 # join_with [44] (map member_text kvs) @ [125]) @ rest) = Some (JObj kvs, rest)"
    proof (cases kvs)
      case Nil
      then show ?thesis using m by (simp add: skip_space_def json_space_def)
    next
      case (Cons kv ws)
      obtain r where r: "join_with [44] (map member_text kvs) = 34 # r"
        using Cons by (cases ws) (auto simp: member_text_def json_quote_def)
      have "json_members m (join_with [44] (map member_text kvs) @ 125 # rest) = Some (kvs, rest)"
        using n m Cons by (intro parses_members plain) auto
      moreover have "object_of kvs = JObj kvs" using JObj.prems by simp
      ultimately show ?thesis using m r by (simp add: skip_space_def json_space_def)
    qed
  qed
qed simp

theorem json_roundtrip:
  assumes "json_plain v"
  shows "json_parse (json_text v) = Some v"
proof -
  have "json_value (length (json_text v) + 1) (json_text v @ []) = Some (v, [])"
    using json_value_text[OF assms] unfolding parses_def by (metis ends_number_simps(1) less_add_one)
  then show ?thesis by (simp add: json_parse_def skip_space_def)
qed

end
