(* ===== verification/JournalRoundtrip.thy ===== *)
theory JournalRoundtrip
  imports Journal JsonRoundtrip
begin

text \<open>
  What the journal stores comes back: the payload of a write survives \<open>JSON.stringify\<close>, encryption,
  the stored hash and \<open>JSON.parse\<close>, with its statements and parameters. \<open>undefined\<close> comes back as
  \<open>null\<close>, as the driver binds it, and a big integer as its decimal text, which the driver binds as a text.
\<close>

section \<open>Well-formed texts\<close>

lemma well_formed_append: "well_formed a \<Longrightarrow> well_formed b \<Longrightarrow> well_formed (a @ b)"
proof (induction a rule: well_formed.induct)
  case (3 c)
  then show ?case by (cases b) auto
qed (auto split: if_splits)

lemma no_surrogate [simp]: "c < 0xD800 \<Longrightarrow> \<not> high_surrogate c" "c < 0xD800 \<Longrightarrow> \<not> low_surrogate c"
  by (simp_all add: high_surrogate_def low_surrogate_def)

lemma well_formed_Cons [simp]: "c < 0xD800 \<Longrightarrow> well_formed (c # s) \<longleftrightarrow> well_formed s"
  by (cases s) (auto simp: high_surrogate_def low_surrogate_def)

lemma well_formed_u [simp]: "well_formed (u s)"
proof (induction s)
  case (Cons c s)
  have "(of_char c :: nat) < 256" by simp
  then have "(of_char c :: nat) < 0xD800" by linarith
  then show ?case using Cons by (simp add: u_Cons)
qed simp

lemma hex4_ascii: "\<forall>d \<in> set (hex4 c). d < 128"
proof -
  have "hex_digit (d mod 16) < 128" for d by (simp add: hex_digit_def less_trans[OF mod_less_divisor])
  then show ?thesis by (simp add: hex4_def)
qed

lemma well_formed_quote_unit: "c < 0x10000 \<Longrightarrow> well_formed (quote_unit c)"
  using well_formed_ascii[OF hex4_ascii[of c]] by (simp add: quote_unit_def high_surrogate_def low_surrogate_def)

lemma well_formed_quote_body: "\<forall>c \<in> set s. c < 0x10000 \<Longrightarrow> well_formed (quote_body s)"
proof (induction s rule: quote_body.induct)
  case (2 c d s)
  then show ?case
    by (subst quote_body.simps(2)) (auto intro!: well_formed_append well_formed_quote_unit)
qed (simp_all add: well_formed_quote_unit)

lemma well_formed_json_quote: "\<forall>c \<in> set s. c < 0x10000 \<Longrightarrow> well_formed (json_quote s)"
  unfolding json_quote_def by (intro well_formed_append well_formed_quote_body) auto

lemma well_formed_join: "\<forall>t \<in> set ts. well_formed t \<Longrightarrow> well_formed (join_with [44] ts)"
  by (induction "[44::nat]" ts rule: join_with.induct) (auto intro!: well_formed_append)

lemma well_formed_json_text: "json_plain v \<Longrightarrow> well_formed (json_text v)"
proof (induction v)
  case (JNum x)
  have "\<forall>c \<in> set (int_str \<lfloor>x\<rfloor>). c < 128" using int_str_digits[of _ "\<lfloor>x\<rfloor>"] by force
  then show ?case using JNum json_text_simps(4)[OF JNum] by (simp add: well_formed_ascii)
next
  case (JStr s)
  then show ?case using well_formed_json_quote[of s] by (simp add: json_text_simps json_quote_def)
next
  case (JArr vs)
  then have "\<forall>t \<in> set (map json_text vs). well_formed t" by (auto simp: list_all_iff)
  from well_formed_join[OF this] have "well_formed ([91] @ join_with [44] (map json_text vs) @ [93])"
    by (intro well_formed_append) (auto intro: well_formed_ascii)
  then show ?case using json_text_JArr[OF JArr.prems] by simp
next
  case (JObj kvs)
  then have "\<forall>kv \<in> set kvs. well_formed (json_quote (fst kv)) \<and> well_formed (json_text (snd kv))"
    by (fastforce simp: list_all_iff intro: well_formed_json_quote)
  then have "\<forall>kv \<in> set kvs. well_formed (member_text kv)"
    unfolding member_text_def by (auto intro!: well_formed_append intro: well_formed_ascii)
  then have "well_formed ([123] @ join_with [44] (map member_text kvs) @ [125])"
    by (intro well_formed_append well_formed_join) (auto intro: well_formed_ascii)
  then show ?case using json_text_JObj[OF JObj.prems] by simp
qed (auto simp: json_text_simps)

lemma json_text_units: "json_plain v \<Longrightarrow> c \<in> set (json_text v) \<Longrightarrow> c < 0x10000"
  using well_formed_json_text well_formed_units by blast

section \<open>Encryption\<close>

text \<open>The law of the cipher: what it encrypts it decrypts, and its output carries a tag.\<close>

definition aead_lawful :: "aead \<Rightarrow> bool" where
  "aead_lawful ae \<longleftrightarrow> (\<forall>nonce plain. length nonce = 12 \<longrightarrow>
     16 \<le> length (aeEncrypt ae nonce plain) \<and> aeDecrypt ae nonce (aeEncrypt ae nonce plain) = Some plain)"

lemma decrypt_encrypt_string:
  assumes "aead_lawful ae" "length nonce = 12" "well_formed s"
  shows "decrypt_recovery_string ae (encrypt_recovery_string ae nonce s) = Inr s"
proof -
  let ?e = "aeEncrypt ae nonce (utf8_encode s)"
  let ?tag = "drop (length ?e - 16) ?e" and ?cipher = "take (length ?e - 16) ?e"
  have law: "16 \<le> length ?e" "aeDecrypt ae nonce ?e = Some (utf8_encode s)"
    using assms(1,2) by (auto simp: aead_lawful_def)
  have tag: "length ?tag = 16" using law(1) by simp
  have envelope: "encrypt_recovery_string ae nonce s = 1 # nonce @ ?tag @ ?cipher"
    by (simp add: encrypt_recovery_string_def encrypt_recovery_bytes_def Let_def)
  have "utf8_decode (utf8_encode s) = code_points s"
    using utf8_decode_encode[of "code_points s"] code_points_bound well_formed_units[OF assms(3)]
    unfolding utf8_encode_def by blast
  then show ?thesis
    using law tag assms(2) utf16_code_points[OF assms(3)]
    unfolding decrypt_recovery_string_def envelope decrypt_recovery_bytes_def
    by (simp add: Let_def)
qed

section \<open>Payloads\<close>

definition bindable :: "param \<Rightarrow> bool" where
  "bindable p \<longleftrightarrow> (case p of PJson v \<Rightarrow> v = JUndef \<or> json_plain v | PBytes bs \<Rightarrow> \<forall>b \<in> set bs. b < 256
     | PNonFinite name \<Rightarrow> name \<in> {u ''NaN'', u ''Infinity'', u ''-Infinity''} | PBigint i \<Rightarrow> True)"

definition replayed_param :: "param \<Rightarrow> param" where
  "replayed_param p = (case p of PBigint i \<Rightarrow> PJson (JStr (int_str i)) | PJson JUndef \<Rightarrow> PJson JNull | _ \<Rightarrow> p)"

definition journallable :: "sql_operation \<Rightarrow> bool" where
  "journallable op \<longleftrightarrow> opMode op = u ''run'' \<and> (\<forall>c \<in> set (opSql op). c < 0x10000) \<and> (\<forall>p \<in> set (opParams op). bindable p)"

definition replayed_operation :: "sql_operation \<Rightarrow> sql_operation" where
  "replayed_operation op = op\<lparr>opParams := map replayed_param (opParams op)\<rparr>"

lemma u_units: "c \<in> set (u s) \<Longrightarrow> c < 0x10000"
  using well_formed_units[OF well_formed_u] .

lemma object_of_typed: "object_of [(u ''type'', a), (u ''value'', b)] = JObj [(u ''type'', a), (u ''value'', b)]"
proof -
  have "array_index (u ''type'') = None" "array_index (u ''value'') = None" by code_simp+
  then show ?thesis by (simp add: object_of_def)
qed

lemma typed_plain: "json_plain v \<Longrightarrow> json_plain (typed t v)"
  by (auto simp: typed_def object_of_typed dest: u_units)

lemma base64_units: "\<forall>b \<in> set bs. b < 256 \<Longrightarrow> c \<in> set (base64_encode bs) \<Longrightarrow> c < 0x10000"
  using b64_digits_bound[of bs] by (fastforce simp: base64_encode_def Let_def b64_char_def split: if_splits)

lemma int_str_units: "c \<in> set (int_str i) \<Longrightarrow> c < 0x10000"
  using int_str_digits by fastforce

lemma serialize_plain: "bindable p \<Longrightarrow> json_plain (serialize_journal_value p)"
proof (cases p)
  case (PJson v)
  then show "bindable p \<Longrightarrow> ?thesis"
    using json_text_units[of v]
    by (cases v) (auto simp: bindable_def serialize_journal_value_def simp del: json_plain.simps(6,7) intro!: typed_plain)
qed (auto simp: bindable_def serialize_journal_value_def dest: u_units base64_units int_str_units intro!: typed_plain)

lemma number_of_name:
  "name \<in> {u ''NaN'', u ''Infinity'', u ''-Infinity''} \<Longrightarrow> number_of_text name = PNonFinite name"
proof -
  have "number_of_text (u ''NaN'') = PNonFinite (u ''NaN'')" "number_of_text (u ''Infinity'') = PNonFinite (u ''Infinity'')"
    "number_of_text (u ''-Infinity'') = PNonFinite (u ''-Infinity'')"
    by code_simp+
  then show "name \<in> {u ''NaN'', u ''Infinity'', u ''-Infinity''} \<Longrightarrow> ?thesis" by blast
qed

lemma typed_fields [simp]:
  "js_is_plain_object (typed t v)" "dot (typed t v) ''type'' = JStr (u t)" "dot (typed t v) ''value'' = v"
  by (simp_all add: typed_def)

lemma deserialize_serialize: "bindable p \<Longrightarrow> deserialize_journal_value (serialize_journal_value p) = Inr (replayed_param p)"
proof (cases p)
  case (PJson v)
  assume "bindable p"
  show ?thesis
  proof (cases v)
    case (JArr vs)
    then have "json_parse (json_text v) = Some v" "json_text v \<noteq> []"
      using \<open>bindable p\<close> PJson json_roundtrip[of v] json_text_head[of v] by (auto simp: bindable_def)
    then show ?thesis
      using PJson JArr by (simp add: serialize_journal_value_def deserialize_journal_value_def replayed_param_def text_of_def js_or_def Let_def)
  next
    case (JObj kvs)
    then have "json_parse (json_text v) = Some v" "json_text v \<noteq> []"
      using \<open>bindable p\<close> PJson json_roundtrip[of v] json_text_head[of v] by (auto simp: bindable_def)
    then show ?thesis
      using PJson JObj by (simp add: serialize_journal_value_def deserialize_journal_value_def replayed_param_def text_of_def js_or_def Let_def)
  qed (simp_all add: PJson serialize_journal_value_def deserialize_journal_value_def replayed_param_def js_number_def
      coalesce_def Let_def)
next
  case (PNonFinite name)
  assume "bindable p"
  then have "number_of_text name = PNonFinite name" using PNonFinite number_of_name by (simp add: bindable_def)
  then show ?thesis
    using PNonFinite by (simp add: serialize_journal_value_def deserialize_journal_value_def replayed_param_def js_number_def Let_def)
next
  case (PBigint i)
  then show ?thesis
    by (simp add: serialize_journal_value_def deserialize_journal_value_def replayed_param_def coalesce_def Let_def)
next
  case (PBytes bs)
  assume "bindable p"
  then show ?thesis
    using PBytes base64_roundtrip[of bs]
    by (auto simp: bindable_def serialize_journal_value_def deserialize_journal_value_def replayed_param_def text_of_def
        js_or_def Let_def base64_decode_def drop_padding_def)
qed

lemma object_of_operation:
  "object_of [(u ''mode'', a), (u ''sql'', b), (u ''params'', c)] = JObj [(u ''mode'', a), (u ''sql'', b), (u ''params'', c)]"
proof -
  have "array_index (u ''mode'') = None" "array_index (u ''sql'') = None" "array_index (u ''params'') = None" by code_simp+
  then show ?thesis by (simp add: object_of_def)
qed

lemma object_of_payload:
  "object_of [(u ''schema'', a), (u ''requestId'', b), (u ''operationKind'', c), (u ''operations'', d)]
    = JObj [(u ''schema'', a), (u ''requestId'', b), (u ''operationKind'', c), (u ''operations'', d)]"
proof -
  have "array_index (u ''schema'') = None" "array_index (u ''requestId'') = None" "array_index (u ''operationKind'') = None"
    "array_index (u ''operations'') = None" by code_simp+
  then show ?thesis by (simp add: object_of_def)
qed

lemma operation_plain: "journallable op \<Longrightarrow> json_plain (operation_document op)"
  unfolding operation_document_def journallable_def
  by (auto simp: object_of_operation list_all_iff serialize_plain dest: u_units)

lemma parse_operation_document:
  "journallable op \<Longrightarrow> parse_operation (operation_document op) = Inr (replayed_operation op)"
proof -
  assume op: "journallable op"
  then have "list_all2 (\<lambda>d p. deserialize_journal_value d = Inr p) (map serialize_journal_value (opParams op)) (map replayed_param (opParams op))"
    by (auto simp: list_all2_conv_all_nth deserialize_serialize journallable_def)
  then have "mapE deserialize_journal_value (map serialize_journal_value (opParams op)) = Inr (map replayed_param (opParams op))"
    by (simp only: mapE_eq_Inr)
  then show ?thesis
    using op by (simp add: parse_operation_def operation_document_def journallable_def field_def text_of_def js_or_def
        replayed_operation_def)
qed

lemma uuid_units: "matches (UUID_PATTERN p) s \<Longrightarrow> (\<And>c. p c \<Longrightarrow> c < 0x10000) \<Longrightarrow> \<forall>c \<in> set s. c < 0x10000"
proof -
  have hex: "list_all any_hex t \<Longrightarrow> c \<in> set t \<Longrightarrow> c < 0x10000" for t c
    by (fastforce simp: list_all_iff any_hex_def lower_hex_def rng_def digit_def)
  show "matches (UUID_PATTERN p) s \<Longrightarrow> (\<And>c. p c \<Longrightarrow> c < 0x10000) \<Longrightarrow> ?thesis"
    unfolding matches_in_lang UUID_PATTERN_def rseq.simps
    by (auto elim!: in_lang_SeqE simp: in_lang_rtimes one_of_def u_def dest: hex)
qed

lemma payload_plain:
  assumes "matches UUID_V4 requestId" "\<forall>op \<in> set ops. journallable op" "kind \<in> {u ''run'', u ''batch''}"
  shows "json_plain (payload_document requestId kind ops)"
proof -
  have "\<forall>c \<in> set requestId. c < 0x10000"
    using assms(1) uuid_units[of "\<lambda>c. c = 52" requestId] by (simp add: UUID_V4_def)
  then show ?thesis
    using assms(2,3)
    by (auto simp: payload_document_def object_of_payload list_all_iff operation_plain JOURNAL_SCHEMA_def
        simp del: json_plain.simps(7) dest: u_units intro!: json_plain.simps(7)[THEN iffD2])
qed

lemma parse_built_payload:
  assumes "matches UUID_V4 requestId" "\<forall>op \<in> set ops. journallable op" "kind \<in> {u ''run'', u ''batch''}" "ops \<noteq> []"
  shows "parse_journal_payload (json_text (payload_document requestId kind ops)) requestId
    = Inr \<lparr>plRequest = JStr requestId, plKind = JStr kind, plOperations = map replayed_operation ops\<rparr>"
proof -
  let ?d = "payload_document requestId kind ops"
  have fields: "dot ?d ''schema'' = JStr JOURNAL_SCHEMA" "dot ?d ''requestId'' = JStr requestId"
    "dot ?d ''operationKind'' = JStr kind" "dot ?d ''operations'' = JArr (map operation_document ops)" "truthy ?d"
    by (simp_all add: payload_document_def)
  have ne: "requestId \<noteq> []" "kind \<noteq> []"
    using assms(1,3) by (auto simp: UUID_V4_def UUID_PATTERN_def rseq.simps rtimes.simps numeral_eq_Suc)
  have "payload_ok ?d = Inr True"
    using assms ne unfolding payload_ok_def fields by (simp add: fields text_of_def js_or_def)
  moreover have "mapE parse_operation (map operation_document ops) = Inr (map replayed_operation ops)"
    using assms(2) by (auto simp: mapE_eq_Inr list_all2_conv_all_nth parse_operation_document)
  ultimately show ?thesis
    using json_roundtrip[OF payload_plain[OF assms(1-3)]]
    by (simp add: parse_journal_payload_def fields)
qed

section \<open>The round trip\<close>

text \<open>The journal row of a write is the one \<open>execute_mutating_operations\<close> inserts.\<close>

definition journals :: "'d jenv \<Rightarrow> nat list \<Rightarrow> ustr \<Rightarrow> ustr \<Rightarrow> sql_operation list \<Rightarrow> journal_row \<Rightarrow> bool" where
  "journals env nonce requestId kind ops r \<longleftrightarrow>
    (let p = build_journal_payload (jeSha256 env) requestId kind ops in
     jrRequest r = requestId \<and> jrHash r = jtHash p \<and> jrKind r = kind \<and> jrCount r = jtCount p
     \<and> jrCiphertext r = encrypt_recovery_string (jeAead env) nonce (jtJson p))"

text \<open>What is executed: without big integers the placeholders and the bound values are the same.\<close>

definition bigint_free :: "sql_operation \<Rightarrow> bool" where
  "bigint_free op \<longleftrightarrow> (\<forall>i. PBigint i \<notin> set (opParams op))"

lemma placeholder_replayed: "(\<And>i. p \<noteq> PBigint i) \<Longrightarrow> placeholder_for_value k (replayed_param p) = placeholder_for_value k p"
  by (auto simp: placeholder_for_value_def replayed_param_def split: param.split jsv.split)

lemma placeholders_same:
  "(\<And>n j. placeholder_for_value n (nth_param qs j) = placeholder_for_value n (nth_param ps j)) \<Longrightarrow>
    replace_placeholders qs st k s = replace_placeholders ps st k s"
proof (induction ps st k s rule: replace_placeholders.induct)
  case (3 ps k c s)
  then show ?case by (cases s) simp_all
next
  case (4 ps k c s)
  then show ?case by (cases s) simp_all
next
  case (5 ps k c s)
  then show ?case by (cases s) simp_all
next
  case (6 ps k c s)
  show ?case
    unfolding replace_placeholders.simps 6(7)
    by (intro if_cong refl arg_cong2[where f = append] arg_cong[where f = "Cons _"] 6) (assumption | rule refl)+
qed simp_all

lemma placeholders_replayed:
  assumes "\<And>i. PBigint i \<notin> set ps"
  shows "replace_placeholders (map replayed_param ps) st k s = replace_placeholders ps st k s"
proof (rule placeholders_same)
  show "placeholder_for_value n (nth_param (map replayed_param ps) j) = placeholder_for_value n (nth_param ps j)" for n j
  proof (cases "j < length ps")
    case True
    then have "ps ! j \<in> set ps" by simp
    then have "ps ! j \<noteq> PBigint i" for i using assms[of i] by metis
    then show ?thesis using True placeholder_replayed[of "ps ! j"] by (simp add: nth_param_def)
  qed (simp add: nth_param_def)
qed

lemma bound_replayed:
  "map normalize_parameter (opParams (replayed_operation op))
    = map (\<lambda>p. case p of PBigint i \<Rightarrow> PJson (JStr (int_str i)) | _ \<Rightarrow> normalize_parameter p) (opParams op)"
  by (simp add: replayed_operation_def normalize_parameter_def replayed_param_def split: param.split jsv.split)

lemma executed_replayed:
  assumes "bigint_free op"
  shows "execute_translated_operation env (replayed_operation op) = execute_translated_operation env op"
proof -
  have "map normalize_parameter (opParams (replayed_operation op)) = map normalize_parameter (opParams op)"
    unfolding bound_replayed using assms by (auto simp: bigint_free_def split: param.split)
  moreover have "translate_sqlite_sql_to_postgres (opSql op) (opParams (replayed_operation op))
      = translate_sqlite_sql_to_postgres (opSql op) (opParams op)"
    using assms placeholders_replayed[of "opParams op"]
    by (simp add: translate_sqlite_sql_to_postgres_def bigint_free_def replayed_operation_def)
  moreover have "opSql (replayed_operation op) = opSql op" by (simp add: replayed_operation_def)
  ultimately show ?thesis by (simp only: execute_translated_operation_def fun_eq_iff simp_thms)
qed


section \<open>A concrete environment\<close>

text \<open>A cipher that appends an empty tag, a constant digest, and a PostgreSQL that keeps the statements it ran.\<close>

definition sample_aead :: aead where
  "sample_aead = \<lparr>aeEncrypt = \<lambda>_ plain. plain @ replicate 16 0,
     aeDecrypt = \<lambda>_ sealed. Some (take (length sealed - 16) sealed)\<rparr>"

definition sample_exec :: "ustr \<Rightarrow> param list \<Rightarrow> ustr list \<Rightarrow> failure + nat \<times> ustr list" where
  "sample_exec sql ps d = Inr (1, d @ [sql])"

definition sample_env :: "ustr list jenv" where
  "sample_env = \<lparr>jeSha256 = \<lambda>_. replicate 64 48, jeAead = sample_aead, jeNonce = \<lambda>_. replicate 12 0, jeClock = int,
     jeUuid = \<lambda>n. u ''00000000-0000-4000-8000-00000000000'' @ [48 + n], jeUpper = id, jeLower = id, jeExec = sample_exec,
     jePgFate = \<lambda>_. Reaches, jeD1Fate = \<lambda>_. Reaches, jePlatform = fails ''SyntaxError'', jeDisabled = False,
     jeAvailable = True, jeHasKey = True, jeMaxBytes = 1800000\<rparr>"

definition sample_op :: sql_operation where
  "sample_op = \<lparr>opMode = u ''run'', opSql = u ''UPDATE t SET a = ?'', opParams = [PBigint 7, PJson JUndef]\<rparr>"

definition sample_request :: ustr where "sample_request = u ''00000000-0000-4000-8000-000000000000''"

definition sample_row :: journal_row where
  "sample_row = (let p = build_journal_payload (jeSha256 sample_env) sample_request (u ''run'') [sample_op] in
     \<lparr>jrRequest = sample_request, jrHash = jtHash p, jrKind = u ''run'', jrCount = jtCount p, jrStatus = JournalPending,
      jrDisposition = Blocking, jrCiphertext = encrypt_recovery_string sample_aead (replicate 12 0) (jtJson p),
      jrAttempts = 0, jrLastError = None, jrCreatedAt = 0, jrUpdatedAt = 0, jrAppliedAt = None, jrGeneration = None, jrSeq = None\<rparr>)"

lemma sample_lawful: "aead_lawful sample_aead"
  by (simp add: aead_lawful_def sample_aead_def)

lemma sample_hex: "matches hex64 (jeSha256 sample_env bytes)"
proof -
  have "matches hex64 (replicate 64 48)" by code_simp
  then show ?thesis by (simp add: sample_env_def)
qed

lemma sample_uuid: "matches UUID_V4 sample_request" by code_simp


end
