(* ===== verification/BackupRoundtrip.thy ===== *)
theory BackupRoundtrip
  imports BackupDescriptor JournalRoundtrip
begin

text \<open>
  A backup can be read again: the descriptor an accepted request is normalised to is stored as text, and
  reading that text gives the same descriptor, with every check of the stored row passed. Each
  normaliser is a projection: what it has answered it maps to itself.
\<close>

section \<open>Fields\<close>

text \<open>Documented behaviour of \<open>toLowerCase\<close> on ASCII, and the form of a SHA-256 digest in hexadecimal.\<close>

definition platform_lawful :: "platform \<Rightarrow> bool" where
  "platform_lawful pf \<longleftrightarrow> (\<forall>s. (\<forall>c \<in> set s. c < 128) \<longrightarrow> pfLower pf s = ascii_lower s)
     \<and> (\<forall>bytes. matches hex64 (pfSha256 pf bytes))"

lemma parse_int_int_str: "parse_int (int_str i) = Some i"
proof -
  obtain c t where ds: "nat_str (nat \<bar>i\<bar>) = c # t" by (cases "nat_str (nat \<bar>i\<bar>)") auto
  have digits: "48 \<le> d \<and> d \<le> 57" if "d \<in> set (c # t)" for d
    using nat_str_digits[of d "nat \<bar>i\<bar>"] that ds by simp
  have all: "takeWhile digit (c # t) = c # t"
    using nat_str_all_digits[of "nat \<bar>i\<bar>"] ds by (simp add: list_all_iff takeWhile_eq_all_conv)
  have val: "digits_val (c # t) = nat \<bar>i\<bar>" by (metis digits_val_nat_str ds)
  have space: "\<not> js_space 45" "\<not> js_space c"
    using digits[of c] by (auto simp: js_space_def)
  show ?thesis
  proof (cases "i < 0")
    case True
    then have "int_str i = 45 # c # t" using ds by (simp add: int_str_def u_def)
    then show ?thesis using space all val True by (simp add: parse_int_def split_sign_def)
  next
    case False
    then have "int_str i = c # t" using ds by (simp add: int_str_def)
    moreover have "c \<noteq> 45" "c \<noteq> 43" using digits[of c] by auto
    ultimately show ?thesis using space all val False by (simp add: parse_int_def split_sign_def)
  qed
qed

lemma positive_integer_again:
  assumes "positive_integer v f lo hi = Inr n" "lo' \<le> n" "n \<le> hi'"
  shows "positive_integer (jint n) f' lo' hi' = Inr n"
proof -
  have "\<bar>n\<bar> \<le> MAX_SAFE_INTEGER"
    using assms(1) by (auto simp: positive_integer_def sbind_eq_Inr split: option.splits if_splits)
  moreover from this have "to_str (jint n) = int_str n" by (simp add: num_str_of_int MAX_SAFE_INTEGER_def)
  ultimately show ?thesis
    using assms(2,3) by (simp add: positive_integer_def to_string_def parse_int_int_str)
qed

lemma positive_integer_bounds:
  "positive_integer v f lo hi = Inr n \<Longrightarrow> lo \<le> n \<and> n \<le> hi \<and> \<bar>n\<bar> \<le> MAX_SAFE_INTEGER"
  by (auto simp: positive_integer_def sbind_eq_Inr split: option.splits if_splits)

lemma positive_integer_wider:
  "positive_integer v f lo hi = Inr n \<Longrightarrow> hi \<le> hi' \<Longrightarrow> positive_integer (jint n) f' lo hi' = Inr n"
  using positive_integer_again positive_integer_bounds by (meson order_trans)

lemma non_empty_string_again:
  assumes "non_empty_string v f m = Inr s" "length s \<le> m'"
  shows "non_empty_string (JStr s) f' m' = Inr s"
  using assms by (auto simp: non_empty_string_def sbind_eq_Inr js_or_def Let_def split: if_splits)

lemma non_empty_string_props: "non_empty_string v f m = Inr s \<Longrightarrow> s \<noteq> [] \<and> length s \<le> m \<and> js_trim s = s"
  by (auto simp: non_empty_string_def sbind_eq_Inr Let_def split: if_splits)

lemma optional_string_again:
  assumes "optional_string v f m = Inr (Some s)"
  shows "optional_string (JStr s) f' m = Inr (Some s)"
  using assms non_empty_string_again[of v f m s m f'] non_empty_string_props[of v f m s]
  by (auto simp: optional_string_def sbind_eq_Inr split: if_splits)

lemma optional_string_nonempty: "optional_string v f m = Inr (Some s) \<Longrightarrow> s \<noteq> []"
  using non_empty_string_props by (auto simp: optional_string_def sbind_eq_Inr split: if_splits)

lemma optional_string_none [simp]: "optional_string JUndef f m = Inr None"
  by (simp add: optional_string_def)

lemma safe_file_name_again:
  assumes "safe_file_name v f r = Inr s"
  shows "safe_file_name (JStr s) f' r = Inr s"
proof -
  obtain "non_empty_string v f 256 = Inr s"
    using assms by (auto simp: safe_file_name_def sbind_eq_Inr split: if_splits)
  then show ?thesis
    using assms non_empty_string_again[of v f 256 s 256 f'] non_empty_string_props[of v f 256 s]
    by (auto simp: safe_file_name_def sbind_eq_Inr split: if_splits)
qed

lemma hex_text:
  assumes "matches SHA256_HEX_PATTERN s"
  shows "\<forall>c \<in> set s. c < 128" "js_trim s = s" "ascii_lower s = s" "s \<noteq> []"
proof -
  have s: "list_all lower_hex s" "length s = 64"
    using assms by (simp_all add: SHA256_HEX_PATTERN_def matches_in_lang in_lang_rtimes)
  have hex: "c \<in> set s \<Longrightarrow> 48 \<le> c \<and> c \<le> 57 \<or> 97 \<le> c \<and> c \<le> 102" for c
    using s(1) by (auto simp: list_all_iff lower_hex_def digit_def rng_def)
  show "\<forall>c \<in> set s. c < 128" using hex by fastforce
  show "s \<noteq> []" using s(2) by auto
  have "\<not> js_space c" if "c \<in> set s" for c using hex[OF that] by (auto simp: js_space_def)
  then show "js_trim s = s" using \<open>s \<noteq> []\<close> by (simp add: trim_fixed_iff)
  have "(if 65 \<le> c \<and> c \<le> 90 then c + 32 else c) = c" if "c \<in> set s" for c using hex[OF that] by auto
  then show "ascii_lower s = s" by (simp add: ascii_lower_def map_idI)
qed

lemma sha256_field_again:
  assumes "platform_lawful pf" "matches SHA256_HEX_PATTERN s"
  shows "sha256_field pf (JStr s) f = Inr s"
  using assms hex_text[OF assms(2)]
  by (auto simp: sha256_field_def trimmed_lower_def js_or_def platform_lawful_def)

lemma sha256_field_hex: "sha256_field pf v f = Inr s \<Longrightarrow> matches SHA256_HEX_PATTERN s"
  by (auto simp: sha256_field_def sbind_eq_Inr split: if_splits)

lemma dot_jobject: "dot (jobject kvs) k = (case map_of kvs k of None \<Rightarrow> JUndef | Some v \<Rightarrow> v)"
proof -
  have "map_of (map (\<lambda>(k, v). (u k, v)) kvs) (u k) = map_of kvs k" by (induction kvs) auto
  then show ?thesis by (simp add: jobject_def)
qed

lemma jobject_plain [simp]: "js_is_plain_object (jobject kvs)"
  by (simp add: jobject_def)

lemma elems_JArr: "normalize_array (JArr vs) f = Inr vs"
  by (simp add: normalize_array_def)

lemma jobject_object: "normalize_object (jobject kvs) f = Inr (jobject kvs)"
  by (simp add: normalize_object_def)

lemmas read_again = dot_jobject elems_JArr jobject_object

section \<open>Archive and chunks\<close>

definition no_wider :: "limits \<Rightarrow> limits \<Rightarrow> bool" where
  "no_wider lm lm' \<longleftrightarrow> lmChunkBytes lm \<le> lmChunkBytes lm' \<and> lmBackupBytes lm \<le> lmBackupBytes lm' \<and> lmChunks lm \<le> lmChunks lm'"

lemma encryption_format_again:
  assumes "platform_lawful pf" "s = ENCRYPTION_FORMAT \<or> s = UNENCRYPTED_FORMAT"
  shows "archive_encryption_format pf (JStr s) = Inr s"
proof -
  have "js_trim s = s \<and> ascii_lower s = s \<and> s \<noteq> [] \<and> list_all (\<lambda>c. c < 128) s"
  proof -
    have "js_trim ENCRYPTION_FORMAT = ENCRYPTION_FORMAT" "ascii_lower ENCRYPTION_FORMAT = ENCRYPTION_FORMAT"
      "list_all (\<lambda>c. c < 128) ENCRYPTION_FORMAT" "js_trim UNENCRYPTED_FORMAT = UNENCRYPTED_FORMAT"
      "ascii_lower UNENCRYPTED_FORMAT = UNENCRYPTED_FORMAT" "list_all (\<lambda>c. c < 128) UNENCRYPTED_FORMAT"
      by code_simp+
    then show ?thesis using assms(2) by (auto simp: ENCRYPTION_FORMAT_def UNENCRYPTED_FORMAT_def)
  qed
  moreover from this have "pfLower pf s = s" using assms(1) by (auto simp: platform_lawful_def list_all_iff)
  ultimately show ?thesis
    using assms(2) by (auto simp: archive_encryption_format_def js_or_def Let_def ENCRYPTION_FORMAT_def UNENCRYPTED_FORMAT_def)
qed

lemma encryption_format_values: "archive_encryption_format pf v = Inr s \<Longrightarrow> s = ENCRYPTION_FORMAT \<or> s = UNENCRYPTED_FORMAT"
  by (auto simp: archive_encryption_format_def sbind_eq_Inr Let_def split: if_splits)

text \<open>What a normalised archive satisfies.\<close>

definition archive_normal :: "platform \<Rightarrow> limits \<Rightarrow> archive \<Rightarrow> bool" where
  "archive_normal pf lm a \<longleftrightarrow> (\<exists>v f. safe_file_name v f None = Inr (arFileName a))
     \<and> (\<exists>v f. positive_integer v f 1 (lmBackupBytes lm) = Inr (arSizeBytes a)) \<and> matches SHA256_HEX_PATTERN (arSha256 a)
     \<and> (\<exists>v f. positive_integer v f 1 (lmChunks lm) = Inr (arChunkCount a))
     \<and> (\<exists>v f. positive_integer v f 1 (lmChunkBytes lm) = Inr (arChunkSizeBytes a))
     \<and> (\<exists>v f. optional_string v f 128 = Inr (Some (arContentType a)))
     \<and> (arEncryption a = ENCRYPTION_FORMAT \<or> arEncryption a = UNENCRYPTED_FORMAT)
     \<and> (\<forall>d. arDatabase a = Some d \<longrightarrow> (\<exists>v f. optional_string v f 256 = Inr (Some d)))
     \<and> (\<forall>d. arFormat a = Some d \<longrightarrow> (\<exists>v f. optional_string v f 128 = Inr (Some d)))"

lemma default_content_type: "optional_string (JStr (u ''application/octet-stream'')) f 128 = Inr (Some (u ''application/octet-stream''))"
proof -
  have "js_trim (u ''application/octet-stream'') = u ''application/octet-stream''" by code_simp
  then show ?thesis by (simp add: optional_string_def non_empty_string_def js_or_def)
qed

lemma normalize_archive_normal:
  assumes "normalize_archive pf lm v = Inr a"
  shows "archive_normal pf lm a"
  using assms unfolding normalize_archive_def sbind_eq_Inr
proof (elim exE conjE)
  fix object fileName format database sizeBytes sha256 chunkCount chunkSizeBytes contentType encryption
  assume parts: "safe_file_name (dot object ''fileName'') (u ''archive.fileName'') None = Inr fileName"
    "optional_string (dot object ''format'') (u ''archive.format'') 128 = Inr format"
    "optional_string (dot object ''database'') (u ''archive.database'') 256 = Inr database"
    "positive_integer (dot object ''sizeBytes'') (u ''archive.sizeBytes'') 1 (lmBackupBytes lm) = Inr sizeBytes"
    "sha256_field pf (dot object ''sha256'') (u ''archive.sha256'') = Inr sha256"
    "positive_integer (dot object ''chunkCount'') (u ''archive.chunkCount'') 1 (lmChunks lm) = Inr chunkCount"
    "positive_integer (dot object ''chunkSizeBytes'') (u ''archive.chunkSizeBytes'') 1 (lmChunkBytes lm) = Inr chunkSizeBytes"
    "optional_string (dot object ''contentType'') (u ''archive.contentType'') 128 = Inr contentType"
    "archive_encryption_format pf (coalesce (dot object ''encryptionFormat'') (dot object ''ciphertextFormat'')) = Inr encryption"
    and a: "Inr \<lparr>arFileName = fileName, arSizeBytes = sizeBytes, arSha256 = sha256, arChunkCount = chunkCount,
      arChunkSizeBytes = chunkSizeBytes,
      arContentType = (case contentType of None \<Rightarrow> u ''application/octet-stream'' | Some t \<Rightarrow> t),
      arEncryption = encryption, arDatabase = database, arFormat = format\<rparr> = Inr a"
  have "\<exists>v f. optional_string v f 128 = Inr (Some (case contentType of None \<Rightarrow> u ''application/octet-stream'' | Some t \<Rightarrow> t))"
    using parts(8) default_content_type by (cases contentType) auto
  moreover have "arContentType a = (case contentType of None \<Rightarrow> u ''application/octet-stream'' | Some t \<Rightarrow> t)"
    using a by auto
  ultimately have content: "\<exists>v f. optional_string v f 128 = Inr (Some (arContentType a))" by simp
  have fields: "arFileName a = fileName" "arSizeBytes a = sizeBytes" "arSha256 a = sha256" "arChunkCount a = chunkCount"
    "arChunkSizeBytes a = chunkSizeBytes" "arEncryption a = encryption" "arDatabase a = database" "arFormat a = format"
    using a by auto
  show ?thesis
    unfolding archive_normal_def fields
  proof (intro conjI content encryption_format_values[OF parts(9)] sha256_field_hex[OF parts(5)] allI impI)
    show "\<exists>v f. optional_string v f 256 = Inr (Some d)" if "database = Some d" for d using parts(3) that by blast
    show "\<exists>v f. optional_string v f 128 = Inr (Some d)" if "format = Some d" for d using parts(2) that by blast
  qed (use parts in blast)+
qed

lemma archive_again:
  assumes "archive_normal pf lm a" "platform_lawful pf" "no_wider lm lm'"
  shows "normalize_archive pf lm' (archive_json a) = Inr a"
proof -
  have lookups: "dot (archive_json a) ''fileName'' = JStr (arFileName a)" "dot (archive_json a) ''sizeBytes'' = jint (arSizeBytes a)"
    "dot (archive_json a) ''sha256'' = JStr (arSha256 a)" "dot (archive_json a) ''chunkCount'' = jint (arChunkCount a)"
    "dot (archive_json a) ''chunkSizeBytes'' = jint (arChunkSizeBytes a)" "dot (archive_json a) ''contentType'' = JStr (arContentType a)"
    "dot (archive_json a) ''encryptionFormat'' = JStr (arEncryption a)"
    "dot (archive_json a) ''database'' = column (arDatabase a) \<or> arDatabase a = None \<and> dot (archive_json a) ''database'' = JUndef"
    "dot (archive_json a) ''format'' = column (arFormat a) \<or> arFormat a = None \<and> dot (archive_json a) ''format'' = JUndef"
    by (simp_all add: archive_json_def dot_jobject column_def split: option.split)
  have fname: "safe_file_name (JStr (arFileName a)) f None = Inr (arFileName a)" for f
    using assms(1) safe_file_name_again unfolding archive_normal_def by blast
  have ctype: "optional_string (JStr (arContentType a)) f 128 = Inr (Some (arContentType a))" for f
    using assms(1) optional_string_again unfolding archive_normal_def by blast
  have database: "optional_string (dot (archive_json a) ''database'') f 256 = Inr (arDatabase a)" for f
  proof (cases "arDatabase a")
    case (Some d)
    then show ?thesis using assms(1) lookups(8) optional_string_again unfolding archive_normal_def column_def by auto
  qed (use lookups(8) in \<open>auto simp: column_def optional_string_def\<close>)
  have format: "optional_string (dot (archive_json a) ''format'') f 128 = Inr (arFormat a)" for f
  proof (cases "arFormat a")
    case (Some d)
    then show ?thesis using assms(1) lookups(9) optional_string_again unfolding archive_normal_def column_def by auto
  qed (use lookups(9) in \<open>auto simp: column_def optional_string_def\<close>)
  have size: "positive_integer (jint (arSizeBytes a)) f 1 (lmBackupBytes lm') = Inr (arSizeBytes a)"
    and count: "positive_integer (jint (arChunkCount a)) f 1 (lmChunks lm') = Inr (arChunkCount a)"
    and chunk: "positive_integer (jint (arChunkSizeBytes a)) f 1 (lmChunkBytes lm') = Inr (arChunkSizeBytes a)" for f
    using assms(1,3) positive_integer_wider unfolding archive_normal_def no_wider_def by blast+
  have sha: "sha256_field pf (JStr (arSha256 a)) f = Inr (arSha256 a)" for f
    using assms(1) sha256_field_again[OF assms(2)] unfolding archive_normal_def by blast
  have enc: "archive_encryption_format pf (coalesce (JStr (arEncryption a)) v) = Inr (arEncryption a)" for v
    using assms(1) encryption_format_again[OF assms(2)] unfolding archive_normal_def coalesce_def by simp
  have obj: "normalize_object (archive_json a) f = Inr (archive_json a)" for f
    by (simp add: archive_json_def jobject_object)
  show ?thesis
    unfolding normalize_archive_def by (simp add: obj lookups(1-7) fname ctype database format size count chunk sha enc)
qed

lemma mapE_again:
  assumes "mapE f (enumerate k vs) = Inr cs" "\<And>i v c. f (i, v) = Inr c \<Longrightarrow> g (i, h c) = Inr c"
  shows "mapE g (enumerate k (map h cs)) = Inr cs"
proof -
  have "list_all2 (\<lambda>x y. f x = Inr y) (enumerate k vs) cs" using assms(1) by (simp add: mapE_eq_Inr)
  then have "length cs = length vs" "\<forall>i < length vs. f (k + i, vs ! i) = Inr (cs ! i)"
    by (auto simp: list_all2_conv_all_nth nth_enumerate_eq)
  then have "list_all2 (\<lambda>x y. g x = Inr y) (enumerate k (map h cs)) cs"
    using assms(2) by (auto simp: list_all2_conv_all_nth nth_enumerate_eq)
  then show ?thesis by (simp only: mapE_eq_Inr)
qed

lemma ensure_conv: "sbind (ensure b e) f = (if b then f () else Inl e)"
  by (simp add: ensure_def)

lemma chunk_again:
  assumes "normalize_chunk pf lm a n (i, v) = Inr c" "platform_lawful pf" "no_wider lm lm'"
  shows "normalize_chunk pf lm' a n (i, chunk_json c) = Inr c"
  using assms(1)[unfolded normalize_chunk_def prod.case sbind_eq_Inr ensure_eq]
proof (elim exE conjE)
  fix object index sizeBytes sha256
  assume parts: "positive_integer (dot object ''index'') (indexed_field ''chunks'' i ''.index'') 0 (lmChunks lm) = Inr index"
    "index = int i"
    "positive_integer (dot object ''sizeBytes'') (indexed_field ''chunks'' i ''.sizeBytes'') 1 (arChunkSizeBytes a) = Inr sizeBytes"
    "\<not> (i + 1 < n \<and> sizeBytes \<noteq> arChunkSizeBytes a)"
    "sha256_field pf (dot object ''sha256'') (indexed_field ''chunks'' i ''.sha256'') = Inr sha256"
    and c: "Inr \<lparr>ckIndex = index, ckSizeBytes = sizeBytes, ckSha256 = sha256\<rparr> = Inr c"
  have fields: "ckIndex c = index" "ckSizeBytes c = sizeBytes" "ckSha256 c = sha256" using c by auto
  have lookups: "dot (chunk_json c) ''index'' = jint index" "dot (chunk_json c) ''sizeBytes'' = jint sizeBytes"
    "dot (chunk_json c) ''sha256'' = JStr sha256" by (simp_all add: chunk_json_def dot_jobject fields)
  have index: "positive_integer (jint index) f 0 (lmChunks lm') = Inr index" for f
    using positive_integer_wider[OF parts(1)] assms(3) by (simp add: no_wider_def)
  have size: "positive_integer (jint sizeBytes) f 1 (arChunkSizeBytes a) = Inr sizeBytes" for f
    by (rule positive_integer_wider[OF parts(3) order_refl])
  have obj: "normalize_object (chunk_json c) f = Inr (chunk_json c)" for f by (simp add: chunk_json_def jobject_object)
  show ?thesis
    unfolding normalize_chunk_def prod.case obj sbind_simps lookups index size ensure_conv
      sha256_field_again[OF assms(2) sha256_field_hex[OF parts(5)]] using parts(2,4) c by simp
qed

lemma chunks_again:
  assumes "normalize_chunks pf lm a v = Inr cs" "platform_lawful pf" "no_wider lm lm'"
  shows "normalize_chunks pf lm' a (JArr (map chunk_json cs)) = Inr cs"
proof -
  obtain rows where parts: "int (length rows) = arChunkCount a"
    "mapE (normalize_chunk pf lm a (length rows)) (enumerate 0 rows) = Inr cs" "sum_list (map ckSizeBytes cs) = arSizeBytes a"
    using assms(1) by (auto simp: normalize_chunks_def sbind_eq_Inr)
  then have "length cs = length rows" by (simp add: mapE_length)
  moreover have "mapE (normalize_chunk pf lm' a (length rows)) (enumerate 0 (map chunk_json cs)) = Inr cs"
    using parts(2) chunk_again[OF _ assms(2,3)] by (rule mapE_again)
  ultimately show ?thesis using parts by (simp add: normalize_chunks_def elems_JArr)
qed

section \<open>Manifest\<close>

lemma database_row_again:
  assumes "database_row (i, v) = Inr r"
  shows "database_row (i, r) = Inr r"
  using assms[unfolded database_row_def prod.case sbind_eq_Inr]
proof (elim exE conjE)
  fix object name bytes dump oid
  assume parts: "non_empty_string (dot object ''name'') (indexed_field ''manifest.databases'' i ''.name'') 256 = Inr name"
    "positive_integer (dot object ''bytes'') (indexed_field ''manifest.databases'' i ''.bytes'') 1 MAX_SAFE_INTEGER = Inr bytes"
    "safe_file_name (dot object ''dump'') (indexed_field ''manifest.databases'' i ''.dump'') (Some DUMP_SUFFIX) = Inr dump"
    "(if nullish (dot object ''oid'') then Inr []
      else sbind (positive_integer (dot object ''oid'') (indexed_field ''manifest.databases'' i ''.oid'') 1 MAX_SAFE_INTEGER)
        (\<lambda>oid. Inr [(''oid'', jint oid)])) = Inr oid"
    and r: "Inr (jobject ([(''name'', JStr name), (''bytes'', jint bytes), (''dump'', JStr dump)] @ oid)) = Inr r"
  have oid: "oid = [] \<or> (\<exists>n. oid = [(''oid'', jint n)] \<and> (\<forall>f. positive_integer (jint n) f 1 MAX_SAFE_INTEGER = Inr n))"
    using parts(4) positive_integer_wider by (auto simp: sbind_eq_Inr split: if_splits)
  have lookups: "dot r ''name'' = JStr name" "dot r ''bytes'' = jint bytes" "dot r ''dump'' = JStr dump"
    using r by (auto simp: dot_jobject)
  have obj: "normalize_object r f = Inr r" for f using r jobject_object by auto
  have name: "non_empty_string (JStr name) f 256 = Inr name" for f
    using non_empty_string_again[OF parts(1)] non_empty_string_props[OF parts(1)] by simp
  have last: "(if nullish (dot r ''oid'') then Inr []
      else sbind (positive_integer (dot r ''oid'') f 1 MAX_SAFE_INTEGER) (\<lambda>oid. Inr [(''oid'', jint oid)])) = Inr oid" for f
    using oid r by (auto simp: dot_jobject)
  show ?thesis
    unfolding database_row_def prod.case obj sbind_simps lookups name positive_integer_wider[OF parts(2) order_refl]
      safe_file_name_again[OF parts(3)] last using r by simp
qed

lemma file_hash_row_again:
  assumes "file_hash_row pf (i, v) = Inr r" "platform_lawful pf"
  shows "file_hash_row pf (i, r) = Inr r"
  using assms(1)[unfolded file_hash_row_def prod.case sbind_eq_Inr]
proof (elim exE conjE)
  fix object name bytes sha256
  assume parts: "safe_file_name (dot object ''name'') (indexed_field ''manifest.plaintext_file_hashes'' i ''.name'') None = Inr name"
    "positive_integer (dot object ''bytes'') (indexed_field ''manifest.plaintext_file_hashes'' i ''.bytes'') 1 MAX_SAFE_INTEGER = Inr bytes"
    "sha256_field pf (dot object ''sha256'') (indexed_field ''manifest.plaintext_file_hashes'' i ''.sha256'') = Inr sha256"
    and r: "Inr (jobject [(''name'', JStr name), (''bytes'', jint bytes), (''sha256'', JStr sha256)]) = Inr r"
  have lookups: "dot r ''name'' = JStr name" "dot r ''bytes'' = jint bytes" "dot r ''sha256'' = JStr sha256"
    using r by (auto simp: dot_jobject)
  have obj: "normalize_object r f = Inr r" for f using r jobject_object by auto
  show ?thesis
    unfolding file_hash_row_def prod.case obj sbind_simps lookups positive_integer_wider[OF parts(2) order_refl]
      safe_file_name_again[OF parts(1)] sha256_field_again[OF assms(2) sha256_field_hex[OF parts(3)]] using r by simp
qed

lemma rows_again:
  assumes "mapE f (enumerate 0 vs) = Inr rs" "\<And>i v r. f (i, v) = Inr r \<Longrightarrow> f (i, r) = Inr r"
  shows "mapE f (enumerate 0 rs) = Inr rs"
  using mapE_again[of f 0 vs rs f id] assms by simp

lemma database_inventory_again: "database_inventory v = Inr rs \<Longrightarrow> database_inventory (JArr rs) = Inr rs"
  using rows_again[of database_row] database_row_again mapE_length
  by (fastforce simp: database_inventory_def sbind_eq_Inr elems_JArr split: if_splits)

lemma plaintext_hashes_again: "plaintext_hashes pf v = Inr rs \<Longrightarrow> platform_lawful pf \<Longrightarrow> plaintext_hashes pf (JArr rs) = Inr rs"
  using rows_again[of "file_hash_row pf"] file_hash_row_again mapE_length
  by (fastforce simp: plaintext_hashes_def sbind_eq_Inr elems_JArr split: if_splits)

lemma attestations_again: "manifest_attestations attestations_json = Inr attestations_json"
proof -
  have "js_trim ATTESTATIONS_SCHEMA = ATTESTATIONS_SCHEMA" by code_simp
  moreover have "ATTESTATIONS_SCHEMA \<noteq> []" "length ATTESTATIONS_SCHEMA \<le> 128" by (simp_all add: ATTESTATIONS_SCHEMA_def)
  ultimately show ?thesis
    by (simp add: manifest_attestations_def attestations_json_def read_again non_empty_string_def js_or_def normalize_boolean_def)
qed

lemma attestations_value: "manifest_attestations v = Inr a \<Longrightarrow> a = attestations_json"
  by (auto simp: manifest_attestations_def sbind_eq_Inr split: if_splits)

lemma key_note_run:
  "key_note object acc key = Inr r \<longleftrightarrow> (\<exists>n. optional_string (dot object key) (u ''manifest.encryption.'' @ u key) 256 = Inr n
     \<and> r = acc @ (case n of None \<Rightarrow> [] | Some s \<Rightarrow> [(key, JStr s)]))"
  by (auto simp: key_note_def sbind_eq_Inr split: option.splits)

lemma optional_note_again:
  assumes "optional_string v f m = Inr n"
  shows "optional_string (case n of None \<Rightarrow> JUndef | Some s \<Rightarrow> JStr s) f' m = Inr n"
  using assms optional_string_again by (cases n) auto

lemma encryption_again:
  assumes "manifest_encryption pf a v = Inr (Some e)" "platform_lawful pf"
  shows "manifest_encryption pf a e = Inr (Some e)"
proof -
  have given: "nullish v = False" "(arEncryption a \<noteq> ENCRYPTION_FORMAT) = False"
    using assms(1) by (auto simp: manifest_encryption_def split: if_splits)
  show ?thesis
    using assms(1)[unfolded manifest_encryption_def given if_False sbind_eq_Inr ensure_eq]
  proof (elim exE conjE)
    fix object status algorithm name bytes sha256 members
    assume parts: "non_empty_string (dot object ''status'') (u ''manifest.encryption.status'') 128 = Inr status"
      "status = ENCRYPTION_STATUS" "non_empty_string (dot object ''algorithm'') (u ''manifest.encryption.algorithm'') 256 = Inr algorithm"
      "rx_test AES256_PATTERN algorithm" "rx_test OPENPGP_PATTERN algorithm"
      "safe_file_name (dot object ''encrypted_archive'') (u ''manifest.encryption.encrypted_archive'') (Some GPG_SUFFIX) = Inr name"
      "positive_integer (dot object ''encrypted_bytes'') (u ''manifest.encryption.encrypted_bytes'') 1 MAX_SAFE_INTEGER = Inr bytes"
      "sha256_field pf (dot object ''encrypted_sha256'') (u ''manifest.encryption.encrypted_sha256'') = Inr sha256"
      "name = arFileName a" "bytes = arSizeBytes a" "sha256 = arSha256 a"
      "foldE (key_note object) [(''status'', JStr status), (''algorithm'', JStr algorithm), (''encrypted_archive'', JStr name),
         (''encrypted_bytes'', jint bytes), (''encrypted_sha256'', JStr sha256), (''round_trip_verified'', JBool True)]
         [''key_source'', ''key_vault_name'', ''secret_name''] = Inr members"
      and e: "Inr (Some (jobject members)) = Inr (Some e)"
    let ?base = "[(''status'', JStr status), (''algorithm'', JStr algorithm), (''encrypted_archive'', JStr name),
         (''encrypted_bytes'', jint bytes), (''encrypted_sha256'', JStr sha256), (''round_trip_verified'', JBool True)]"
    let ?note = "\<lambda>key n. case n of None \<Rightarrow> [] | Some s \<Rightarrow> [(key, JStr s)]"
    obtain n1 n2 n3 where noted: "optional_string (dot object ''key_source'') (u ''manifest.encryption.'' @ u ''key_source'') 256 = Inr n1"
      "optional_string (dot object ''key_vault_name'') (u ''manifest.encryption.'' @ u ''key_vault_name'') 256 = Inr n2"
      "optional_string (dot object ''secret_name'') (u ''manifest.encryption.'' @ u ''secret_name'') 256 = Inr n3"
      and members: "members = ?base @ ?note ''key_source'' n1 @ ?note ''key_vault_name'' n2 @ ?note ''secret_name'' n3"
      using parts(12) by (auto simp: sbind_eq_Inr key_note_run)
    have e: "e = jobject members" using e by simp
    have lookups: "dot e ''status'' = JStr status" "dot e ''algorithm'' = JStr algorithm" "dot e ''encrypted_archive'' = JStr name"
      "dot e ''encrypted_bytes'' = jint bytes" "dot e ''encrypted_sha256'' = JStr sha256" "dot e ''round_trip_verified'' = JBool True"
      unfolding e members by (simp_all add: dot_jobject)
    have "dot e ''key_source'' = (case n1 of None \<Rightarrow> JUndef | Some s \<Rightarrow> JStr s)"
      "dot e ''key_vault_name'' = (case n2 of None \<Rightarrow> JUndef | Some s \<Rightarrow> JStr s)"
      "dot e ''secret_name'' = (case n3 of None \<Rightarrow> JUndef | Some s \<Rightarrow> JStr s)"
      unfolding e members by (cases n1; cases n2; cases n3; simp add: dot_jobject)+
    then have "foldE (key_note e) ?base [''key_source'', ''key_vault_name'', ''secret_name''] = Inr members"
      using noted[THEN optional_note_again] by (simp add: members key_note_def split: option.splits)
    moreover have "normalize_object e f = Inr e" "\<not> nullish e" for f by (simp_all add: e jobject_object) (simp add: jobject_def)
    moreover have "non_empty_string (JStr status) f 128 = Inr status" "non_empty_string (JStr algorithm) f 256 = Inr algorithm" for f
      using non_empty_string_again non_empty_string_props parts(1,3) by blast+
    moreover have "safe_file_name (JStr name) f (Some GPG_SUFFIX) = Inr name" for f by (rule safe_file_name_again[OF parts(6)])
    moreover have "positive_integer (jint bytes) f 1 MAX_SAFE_INTEGER = Inr bytes" for f by (rule positive_integer_wider[OF parts(7) order_refl])
    moreover have "sha256_field pf (JStr sha256) f = Inr sha256" for f
      by (rule sha256_field_again[OF assms(2) sha256_field_hex[OF parts(8)]])
    ultimately show ?thesis
      unfolding manifest_encryption_def using parts(2,4,5,9-11) given(2)
      by (simp add: ensure_conv lookups flip: e)
  qed
qed

lemma restored_row_again:
  assumes "restored_row_of (i, v) = Inr r"
  shows "restored_row_of (i, restored_json r) = Inr r"
  using assms[unfolded restored_row_of_def prod.case sbind_eq_Inr]
proof (elim exE conjE)
  fix object source target bytes status
  assume parts: "non_empty_string (dot object ''source_database'') (indexed_field ''manifest.restore_test.databases'' i ''.source_database'') 256 = Inr source"
    "non_empty_string (dot object ''target_database'') (indexed_field ''manifest.restore_test.databases'' i ''.target_database'') 256 = Inr target"
    "positive_integer (dot object ''restored_bytes'') (indexed_field ''manifest.restore_test.databases'' i ''.restored_bytes'') 1 MAX_SAFE_INTEGER = Inr bytes"
    "non_empty_string (dot object ''status'') (indexed_field ''manifest.restore_test.databases'' i ''.status'') 64 = Inr status"
    and r: "Inr \<lparr>rrSource = source, rrTarget = target, rrBytes = bytes, rrStatus = status\<rparr> = Inr r"
  have fields: "rrSource r = source" "rrTarget r = target" "rrBytes r = bytes" "rrStatus r = status" using r by auto
  have lookups: "dot (restored_json r) ''source_database'' = JStr source" "dot (restored_json r) ''target_database'' = JStr target"
    "dot (restored_json r) ''restored_bytes'' = jint bytes" "dot (restored_json r) ''status'' = JStr status"
    by (simp_all add: restored_json_def dot_jobject fields)
  have obj: "normalize_object (restored_json r) f = Inr (restored_json r)" for f by (simp add: restored_json_def jobject_object)
  have texts: "non_empty_string (JStr source) f 256 = Inr source" "non_empty_string (JStr target) f 256 = Inr target"
    "non_empty_string (JStr status) f 64 = Inr status" for f
    using non_empty_string_again non_empty_string_props parts(1,2,4) by blast+
  show ?thesis
    unfolding restored_row_of_def prod.case obj sbind_simps lookups texts positive_integer_wider[OF parts(3) order_refl] using r by simp
qed

lemma restore_evidence_again:
  assumes "restore_evidence v inventory = Inr e"
  shows "restore_evidence e inventory = Inr e"
  using assms[unfolded restore_evidence_def Let_def sbind_eq_Inr ensure_eq]
proof (elim exE conjE)
  fix object requested status dbs
  assume parts: "non_empty_string (dot object ''status'') (u ''manifest.restore_test.status'') 64 = Inr status" "status \<in> {u ''PASS'', u ''NOT_RUN''}"
    "(if nullish (dot object ''databases'') then Inr []
      else sbind (normalize_array (dot object ''databases'') (u ''manifest.restore_test.databases'')) (\<lambda>rows.
        mapE restored_row_of (enumerate 0 rows))) = Inr dbs"
    "requested \<longrightarrow> status = u ''PASS''" "requested \<longrightarrow> dbs \<noteq> []" "distinct (map rrSource dbs)"
    "requested \<longrightarrow> sort (map rrSource dbs) = sort (map (\<lambda>row. to_str (dot row ''name'')) inventory)"
    "requested \<longrightarrow> list_all (\<lambda>row. rrStatus row = u ''PASS'') dbs"
    and e: "Inr (jobject [(''requested'', JBool requested), (''status'', JStr status), (''databases'', JArr (map restored_json dbs))]) = Inr e"
  have e: "e = jobject [(''requested'', JBool requested), (''status'', JStr status), (''databases'', JArr (map restored_json dbs))]"
    using e by simp
  have "mapE restored_row_of (enumerate 0 (map restored_json dbs)) = Inr dbs"
  proof (cases "nullish (dot object ''databases'')")
    case False
    then obtain rows where "mapE restored_row_of (enumerate 0 rows) = Inr dbs"
      using parts(3) by (auto simp: sbind_eq_Inr)
    from mapE_again[OF this restored_row_again] show ?thesis .
  qed (use parts(3) in simp)
  moreover have "non_empty_string (JStr status) f 64 = Inr status" for f
    using non_empty_string_again non_empty_string_props parts(1) by blast
  ultimately show ?thesis
    using parts(2,4-8) unfolding restore_evidence_def e
    by (simp add: read_again normalize_boolean_def Let_def ensure_conv)
qed

lemma claim_boundary_again:
  "exact_claim_boundary v legacy = Inr c \<Longrightarrow> exact_claim_boundary (JStr c) legacy = Inr c"
  using non_empty_string_again non_empty_string_props by (fastforce simp: exact_claim_boundary_def sbind_eq_Inr split: if_splits)

lemma iso_timestamp_again: "iso_timestamp pf v f = Inr t \<Longrightarrow> iso_timestamp pf (JStr t) f' = Inr t"
  using non_empty_string_again non_empty_string_props by (fastforce simp: iso_timestamp_def sbind_eq_Inr split: if_splits)

lemma text_again: "non_empty_string v f m = Inr s \<Longrightarrow> non_empty_string (JStr s) f' m = Inr s"
  using non_empty_string_again non_empty_string_props by blast

lemma manifest_again:
  assumes "normalize_manifest pf a v = Inr m" "platform_lawful pf"
  shows "normalize_manifest pf a (mfJson m) = Inr m"
  using assms(1)[unfolded normalize_manifest_def sbind_eq_Inr ensure_eq]
proof (elim exE conjE)
  fix object schema databases attestations encryption claim restored created container image version hashes generation watermark
  assume parts: "schema \<in> {u ''cpoly_postgres_backup_v1'', u ''adg.cpoly-postgres.encrypted-bundle.v1''}"
    "database_inventory (dot object ''databases'') = Inr databases"
    "manifest_attestations (dot object ''attestations'') = Inr attestations"
    "manifest_encryption pf a (dot object ''encryption'') = Inr encryption"
    "exact_claim_boundary (dot object ''claim_boundary'') (encryption \<noteq> None) = Inr claim"
    "restore_evidence (dot object ''restore_test'') databases = Inr restored"
    "iso_timestamp pf (dot object ''created_at_utc'') (u ''manifest.created_at_utc'') = Inr created"
    "non_empty_string (dot object ''source_container'') (u ''manifest.source_container'') 256 = Inr container"
    "non_empty_string (dot object ''source_image'') (u ''manifest.source_image'') 512 = Inr image"
    "non_empty_string (dot object ''server_version'') (u ''manifest.server_version'') 128 = Inr version"
    "plaintext_hashes pf (dot object ''plaintext_file_hashes'') = Inr hashes"
    "positive_integer (dot object ''snapshotGeneration'') (u ''manifest.snapshotGeneration'') 1 MAX_SAFE_INTEGER = Inr generation"
    "positive_integer (dot object ''postgresReceiptWatermark'') (u ''manifest.postgresReceiptWatermark'') 0 MAX_SAFE_INTEGER = Inr watermark"
  let ?members = "[(''schema'', JStr schema), (''created_at_utc'', JStr created), (''source_container'', JStr container),
        (''source_image'', JStr image), (''server_version'', JStr version), (''databases'', JArr databases),
        (''plaintext_file_hashes'', JArr hashes), (''attestations'', attestations), (''restore_test'', restored),
        (''claim_boundary'', JStr claim), (''snapshotGeneration'', jint generation),
        (''postgresReceiptWatermark'', jint watermark)] @ (case encryption of None \<Rightarrow> [] | Some e \<Rightarrow> [(''encryption'', e)])"
  assume m: "Inr \<lparr>mfJson = jobject ?members, mfGeneration = generation, mfWatermark = watermark\<rparr> = Inr m"
  define j where "j = mfJson m"
  have j: "j = jobject ?members" and m': "m = \<lparr>mfJson = j, mfGeneration = generation, mfWatermark = watermark\<rparr>"
    using m by (auto simp: j_def)
  have lookups: "dot j ''schema'' = JStr schema" "dot j ''created_at_utc'' = JStr created" "dot j ''source_container'' = JStr container"
    "dot j ''source_image'' = JStr image" "dot j ''server_version'' = JStr version" "dot j ''databases'' = JArr databases"
    "dot j ''plaintext_file_hashes'' = JArr hashes" "dot j ''attestations'' = attestations" "dot j ''restore_test'' = restored"
    "dot j ''claim_boundary'' = JStr claim" "dot j ''snapshotGeneration'' = jint generation"
    "dot j ''postgresReceiptWatermark'' = jint watermark"
    unfolding j by (simp_all add: dot_jobject)
  have look: "dot j ''encryption'' = (case encryption of None \<Rightarrow> JUndef | Some e \<Rightarrow> e)"
    unfolding j by (cases encryption) (simp_all add: dot_jobject)
  have "manifest_encryption pf a (dot j ''encryption'') = Inr encryption"
    using parts(4) encryption_again[OF _ assms(2)] by (cases encryption) (auto simp: look manifest_encryption_def[of _ _ JUndef])
  moreover have "manifest_attestations attestations = Inr attestations"
    using attestations_again attestations_value[OF parts(3)] by simp
  moreover have "to_string (js_or (JStr schema) (JStr [])) = (Inr schema :: ustr route)"
    using parts(1) by (auto simp: to_string_def js_or_def)
  moreover have "normalize_object j f = Inr j" for f by (simp add: j jobject_object)
  moreover have "database_inventory (JArr databases) = Inr databases" by (rule database_inventory_again[OF parts(2)])
  moreover have "exact_claim_boundary (JStr claim) (encryption \<noteq> None) = Inr claim" by (rule claim_boundary_again[OF parts(5)])
  moreover have "restore_evidence restored databases = Inr restored" by (rule restore_evidence_again[OF parts(6)])
  moreover have "plaintext_hashes pf (JArr hashes) = Inr hashes" by (rule plaintext_hashes_again[OF parts(11) assms(2)])
  moreover note iso_timestamp_again[OF parts(7)] text_again[OF parts(8)] text_again[OF parts(9)] text_again[OF parts(10)]
    positive_integer_wider[OF parts(12) order_refl] positive_integer_wider[OF parts(13) order_refl]
  ultimately have "normalize_manifest pf a j = Inr m"
    using parts(1) unfolding normalize_manifest_def lookups by (simp add: ensure_conv lookups m') (simp add: j)
  then show ?thesis by (simp add: j_def)
qed

section \<open>The stored text\<close>

text \<open>The parts of a document that make it its own reading, but for the width of the characters.\<close>

primrec shaped :: "jsv \<Rightarrow> bool" where
  "shaped JUndef = False"
| "shaped JNull = True"
| "shaped (JBool b) = True"
| "shaped (JNum n) = (n = of_int \<lfloor>n\<rfloor> \<and> \<bar>n\<bar> \<le> 2 ^ 53)"
| "shaped (JStr s) = True"
| "shaped (JArr vs) = list_all id (map shaped vs)"
| "shaped (JObj kvs) = (object_of kvs = JObj kvs \<and> list_all snd (map (map_prod id shaped) kvs))"

primrec units16 :: "jsv \<Rightarrow> bool" where
  "units16 JUndef = True"
| "units16 JNull = True"
| "units16 (JBool b) = True"
| "units16 (JNum n) = True"
| "units16 (JStr s) = (\<forall>c \<in> set s. c < 0x10000)"
| "units16 (JArr vs) = list_all id (map units16 vs)"
| "units16 (JObj kvs) = ((\<forall>k \<in> set (map fst kvs). \<forall>c \<in> set k. c < 0x10000) \<and> list_all snd (map (map_prod id units16) kvs))"

lemma json_plain_split: "json_plain v \<longleftrightarrow> shaped v \<and> units16 v"
proof (induction v)
  case (JObj kvs)
  then show ?case by (fastforce simp: list_all_iff)
qed (auto simp: list_all_iff)

lemma omap_set_new: "k \<notin> set (map fst m) \<Longrightarrow> omap_set k v m = m @ [(k, v)]"
  by (induction m) auto

lemma object_of_names:
  assumes "distinct (map fst kvs)" "\<forall>k \<in> set (map fst kvs). array_index k = None"
  shows "object_of kvs = JObj kvs"
proof -
  have "distinct (map fst (m @ kvs)) \<Longrightarrow> foldl (\<lambda>m (k, v). omap_set k v m) m kvs = m @ kvs" for m
    by (induction kvs arbitrary: m) (auto simp: omap_set_new)
  from this[of "[]"] have "foldl (\<lambda>m (k, v). omap_set k v m) [] kvs = kvs" using assms(1) by simp
  moreover have "filter (\<lambda>(k, v). array_index k \<noteq> None) kvs = []" "filter (\<lambda>(k, v). array_index k = None) kvs = kvs"
    using assms(2) by (auto simp: filter_empty_conv filter_id_conv)
  ultimately show ?thesis unfolding object_of_def by simp
qed

definition name_like :: "string \<Rightarrow> bool" where
  "name_like k \<longleftrightarrow> (case k of [] \<Rightarrow> True | c # _ \<Rightarrow> \<not> digit (of_char c))"

lemma name_like_index: "name_like k \<Longrightarrow> array_index (u k) = None"
  by (cases k) (simp_all add: name_like_def array_index_def u_def)

lemma shaped_jobject:
  assumes "distinct (map fst kvs)" "list_all name_like (map fst kvs)" "list_all shaped (map snd kvs)"
  shows "shaped (jobject kvs)"
proof -
  have "map fst (map (\<lambda>(k, v). (u k, v)) kvs) = map u (map fst kvs)" by (induction kvs) auto
  moreover have "inj u" by (auto simp: inj_def u_def)
  ultimately have "object_of (map (\<lambda>(k, v). (u k, v)) kvs) = JObj (map (\<lambda>(k, v). (u k, v)) kvs)"
    using assms name_like_index
    by (intro object_of_names) (auto simp: distinct_map inj_on_def list_all_iff simp del: map_map dest: injD)
  then show ?thesis using assms(3) by (auto simp: jobject_def list_all_iff)
qed

lemma shaped_jint: "\<bar>n\<bar> \<le> MAX_SAFE_INTEGER \<Longrightarrow> shaped (jint n)"
  by (simp add: MAX_SAFE_INTEGER_def)

lemmas shape_simps = name_like_def digit_def rng_def

lemma shaped_int: "positive_integer v f lo hi = Inr n \<Longrightarrow> shaped (jint n)"
  using positive_integer_bounds shaped_jint by blast

text \<open>The members of an object whose keys are given as literals.\<close>

definition names_like :: "string list \<Rightarrow> bool" where
  "names_like ks \<longleftrightarrow> distinct ks \<and> list_all name_like ks"

lemma shaped_members: "names_like (map fst kvs) \<Longrightarrow> list_all shaped (map snd kvs) \<Longrightarrow> shaped (jobject kvs)"
  using shaped_jobject by (simp add: names_like_def)

lemma mapE_result: "mapE f xs = Inr ys \<Longrightarrow> y \<in> set ys \<Longrightarrow> \<exists>x. f x = Inr y"
  by (fastforce simp: mapE_eq_Inr list_all2_conv_all_nth in_set_conv_nth)

lemma shaped_rows: "mapE f vs = Inr rs \<Longrightarrow> (\<And>x r. f x = Inr r \<Longrightarrow> shaped r) \<Longrightarrow> shaped (JArr rs)"
  by (auto simp: list_all_iff dest: mapE_result)

lemma shaped_archive: "archive_normal pf lm a \<Longrightarrow> shaped (archive_json a)"
  unfolding archive_json_def archive_normal_def
proof (elim exE conjE, rule shaped_members)
  show "names_like (map fst ([(''fileName'', JStr (arFileName a)), (''sizeBytes'', jint (arSizeBytes a)),
     (''sha256'', JStr (arSha256 a)), (''chunkCount'', jint (arChunkCount a)),
     (''chunkSizeBytes'', jint (arChunkSizeBytes a)), (''contentType'', JStr (arContentType a)),
     (''encryptionFormat'', JStr (arEncryption a))]
     @ (case arDatabase a of None \<Rightarrow> [] | Some d \<Rightarrow> [(''database'', JStr d)])
     @ (case arFormat a of None \<Rightarrow> [] | Some f \<Rightarrow> [(''format'', JStr f)])))"
    by (cases "arDatabase a"; cases "arFormat a") (simp_all add: names_like_def shape_simps)
qed (cases "arDatabase a"; cases "arFormat a"; simp add: shaped_int del: shaped.simps(4))

lemma shaped_chunk:
  assumes "normalize_chunk pf lm a n x = Inr c"
  shows "shaped (chunk_json c)"
proof -
  obtain i v where x: "x = (i, v)" by (cases x)
  show ?thesis
    using assms[unfolded normalize_chunk_def x prod.case sbind_eq_Inr ensure_eq]
  proof (elim exE conjE)
    fix object index sizeBytes sha256
    assume parts: "positive_integer (dot object ''index'') (indexed_field ''chunks'' i ''.index'') 0 (lmChunks lm) = Inr index"
      "positive_integer (dot object ''sizeBytes'') (indexed_field ''chunks'' i ''.sizeBytes'') 1 (arChunkSizeBytes a) = Inr sizeBytes"
      and "Inr \<lparr>ckIndex = index, ckSizeBytes = sizeBytes, ckSha256 = sha256\<rparr> = Inr c"
    then have c: "ckIndex c = index" "ckSizeBytes c = sizeBytes" by auto
    show ?thesis
      unfolding chunk_json_def c using shaped_int[OF parts(1)] shaped_int[OF parts(2)]
      by (intro shaped_members) (simp_all add: names_like_def shape_simps del: shaped.simps(4))
  qed
qed

lemma shaped_chunks:
  assumes "normalize_chunks pf lm a v = Inr cs"
  shows "shaped (JArr (map chunk_json cs))"
proof -
  obtain rows where "mapE (normalize_chunk pf lm a (length rows)) (enumerate 0 rows) = Inr cs"
    using assms by (auto simp: normalize_chunks_def sbind_eq_Inr)
  then have "\<forall>c \<in> set cs. shaped (chunk_json c)"
    by (auto dest!: mapE_result intro: shaped_chunk)
  then show ?thesis by (simp add: list_all_iff)
qed

lemma shaped_database:
  assumes "database_row x = Inr r"
  shows "shaped r"
proof -
  obtain name bytes dump oid f g where r: "r = jobject ([(''name'', JStr name), (''bytes'', jint bytes), (''dump'', JStr dump)] @ oid)"
    and bytes: "positive_integer f g 1 MAX_SAFE_INTEGER = Inr bytes"
    and oid: "oid = [] \<or> (\<exists>n f g. positive_integer f g 1 MAX_SAFE_INTEGER = Inr n \<and> oid = [(''oid'', jint n)])"
    using assms by (fastforce simp: database_row_def sbind_eq_Inr split: prod.splits if_splits)
  show ?thesis
    unfolding r using oid shaped_int[OF bytes]
    by (elim disjE exE conjE; intro shaped_members; simp add: names_like_def shape_simps shaped_int del: shaped.simps(4))
qed

lemma shaped_inventory: "database_inventory v = Inr rs \<Longrightarrow> shaped (JArr rs)"
  using shaped_rows[OF _ shaped_database] by (auto simp: database_inventory_def sbind_eq_Inr split: if_splits)

lemma shaped_hash_row:
  assumes "file_hash_row pf x = Inr r"
  shows "shaped r"
proof -
  obtain name bytes sha256 f g where r: "r = jobject [(''name'', JStr name), (''bytes'', jint bytes), (''sha256'', JStr sha256)]"
    and bytes: "positive_integer f g 1 MAX_SAFE_INTEGER = Inr bytes"
    using assms by (fastforce simp: file_hash_row_def sbind_eq_Inr split: prod.splits if_splits)
  show ?thesis
    unfolding r using shaped_int[OF bytes]
    by (intro shaped_members) (simp_all add: names_like_def shape_simps del: shaped.simps(4))
qed

lemma shaped_hashes: "plaintext_hashes pf v = Inr rs \<Longrightarrow> shaped (JArr rs)"
  using shaped_rows[OF _ shaped_hash_row] by (auto simp: plaintext_hashes_def sbind_eq_Inr split: if_splits)

lemma shaped_attestations: "manifest_attestations v = Inr a \<Longrightarrow> shaped a"
  by (drule attestations_value) (auto simp: attestations_json_def names_like_def shape_simps intro!: shaped_members)

lemma shaped_encryption:
  assumes "manifest_encryption pf a v = Inr (Some e)"
  shows "shaped e"
proof -
  have given: "nullish v = False" "(arEncryption a \<noteq> ENCRYPTION_FORMAT) = False"
    using assms by (auto simp: manifest_encryption_def split: if_splits)
  show ?thesis
    using assms[unfolded manifest_encryption_def given if_False sbind_eq_Inr ensure_eq]
  proof (elim exE conjE)
    fix object status algorithm name bytes sha256 members
    assume bytes: "positive_integer (dot object ''encrypted_bytes'') (u ''manifest.encryption.encrypted_bytes'') 1 MAX_SAFE_INTEGER = Inr bytes"
      and run: "foldE (key_note object) [(''status'', JStr status), (''algorithm'', JStr algorithm), (''encrypted_archive'', JStr name),
         (''encrypted_bytes'', jint bytes), (''encrypted_sha256'', JStr sha256), (''round_trip_verified'', JBool True)]
         [''key_source'', ''key_vault_name'', ''secret_name''] = Inr members"
      and e: "Inr (Some (jobject members)) = Inr (Some e)"
    have e: "e = jobject members" using e by simp
    let ?note = "\<lambda>key n. case n of None \<Rightarrow> [] | Some s \<Rightarrow> [(key, JStr s)]"
    obtain n1 n2 n3 where members: "members = [(''status'', JStr status), (''algorithm'', JStr algorithm), (''encrypted_archive'', JStr name),
         (''encrypted_bytes'', jint bytes), (''encrypted_sha256'', JStr sha256), (''round_trip_verified'', JBool True)]
         @ ?note ''key_source'' n1 @ ?note ''key_vault_name'' n2 @ ?note ''secret_name'' n3"
      using run by (auto simp: sbind_eq_Inr key_note_run)
    show ?thesis
      unfolding e members using shaped_int[OF bytes]
      by (intro shaped_members; cases n1; cases n2; cases n3; simp add: names_like_def shape_simps del: shaped.simps(4))
  qed
qed

lemma shaped_restored:
  assumes "restored_row_of x = Inr r"
  shows "shaped (restored_json r)"
proof -
  obtain f g where bytes: "positive_integer f g 1 MAX_SAFE_INTEGER = Inr (rrBytes r)"
    using assms by (auto simp: restored_row_of_def sbind_eq_Inr split: prod.splits)
  show ?thesis
    unfolding restored_json_def using shaped_int[OF bytes]
    by (intro shaped_members) (simp_all add: names_like_def shape_simps del: shaped.simps(4))
qed

lemma shaped_evidence:
  assumes "restore_evidence v inventory = Inr e"
  shows "shaped e"
  using assms[unfolded restore_evidence_def Let_def sbind_eq_Inr ensure_eq]
proof (elim exE conjE)
  fix object requested status dbs
  assume dbs: "(if nullish (dot object ''databases'') then Inr []
      else sbind (normalize_array (dot object ''databases'') (u ''manifest.restore_test.databases'')) (\<lambda>rows.
        mapE restored_row_of (enumerate 0 rows))) = Inr dbs"
    and e: "Inr (jobject [(''requested'', JBool requested), (''status'', JStr status), (''databases'', JArr (map restored_json dbs))]) = Inr e"
  have "\<forall>r \<in> set dbs. shaped (restored_json r)"
    using dbs by (auto simp: sbind_eq_Inr split: if_splits dest!: mapE_result intro: shaped_restored)
  then have "shaped (jobject [(''requested'', JBool requested), (''status'', JStr status), (''databases'', JArr (map restored_json dbs))])"
    by (intro shaped_members) (simp_all add: names_like_def shape_simps list_all_iff)
  then show ?thesis using e by simp
qed

lemma shaped_manifest:
  assumes "normalize_manifest pf a v = Inr m"
  shows "shaped (mfJson m)"
  using assms[unfolded normalize_manifest_def sbind_eq_Inr ensure_eq]
proof (elim exE conjE)
  fix object schema databases attestations encryption claim restored created container image version hashes generation watermark
  assume parts: "database_inventory (dot object ''databases'') = Inr databases"
    "manifest_attestations (dot object ''attestations'') = Inr attestations"
    "manifest_encryption pf a (dot object ''encryption'') = Inr encryption"
    "restore_evidence (dot object ''restore_test'') databases = Inr restored"
    "plaintext_hashes pf (dot object ''plaintext_file_hashes'') = Inr hashes"
    "positive_integer (dot object ''snapshotGeneration'') (u ''manifest.snapshotGeneration'') 1 MAX_SAFE_INTEGER = Inr generation"
    "positive_integer (dot object ''postgresReceiptWatermark'') (u ''manifest.postgresReceiptWatermark'') 0 MAX_SAFE_INTEGER = Inr watermark"
    and m: "Inr \<lparr>mfJson = jobject ([(''schema'', JStr schema), (''created_at_utc'', JStr created), (''source_container'', JStr container),
        (''source_image'', JStr image), (''server_version'', JStr version), (''databases'', JArr databases),
        (''plaintext_file_hashes'', JArr hashes), (''attestations'', attestations), (''restore_test'', restored),
        (''claim_boundary'', JStr claim), (''snapshotGeneration'', jint generation),
        (''postgresReceiptWatermark'', jint watermark)] @ (case encryption of None \<Rightarrow> [] | Some e \<Rightarrow> [(''encryption'', e)])),
        mfGeneration = generation, mfWatermark = watermark\<rparr> = Inr m"
  have "shaped (jobject ([(''schema'', JStr schema), (''created_at_utc'', JStr created), (''source_container'', JStr container),
        (''source_image'', JStr image), (''server_version'', JStr version), (''databases'', JArr databases),
        (''plaintext_file_hashes'', JArr hashes), (''attestations'', attestations), (''restore_test'', restored),
        (''claim_boundary'', JStr claim), (''snapshotGeneration'', jint generation),
        (''postgresReceiptWatermark'', jint watermark)] @ (case encryption of None \<Rightarrow> [] | Some e \<Rightarrow> [(''encryption'', e)])))"
    using shaped_inventory[OF parts(1)] shaped_attestations[OF parts(2)] shaped_encryption parts(3) shaped_evidence[OF parts(4)]
      shaped_hashes[OF parts(5)] shaped_int[OF parts(6)] shaped_int[OF parts(7)]
    by (intro shaped_members; cases encryption; simp add: names_like_def shape_simps del: shaped.simps(4,6))
  then show ?thesis using m by auto
qed

section \<open>Reading the stored descriptor\<close>

lemma bounded_integer_le: "fallback \<le> maximum \<Longrightarrow> bounded_integer v fallback minimum maximum \<le> maximum"
  by (auto simp: bounded_integer_def split: option.splits)

lemma requested_limits: "no_wider (backup_descriptor_limits vars) stored_descriptor_limits"
proof -
  have "max_backup_bytes vars \<le> HARD_MAX_CHUNK_BYTES * 512" unfolding max_backup_bytes_def
    by (rule bounded_integer_le) (simp add: HARD_MAX_CHUNK_BYTES_def)
  moreover have "max_chunk_bytes vars \<le> HARD_MAX_CHUNK_BYTES" unfolding max_chunk_bytes_def
    by (rule bounded_integer_le) (simp add: HARD_MAX_CHUNK_BYTES_def)
  moreover have "max_backup_chunks vars \<le> 4096" unfolding max_backup_chunks_def
    by (rule bounded_integer_le) simp
  ultimately show ?thesis
    by (simp add: no_wider_def backup_descriptor_limits_def stored_descriptor_limits_def HARD_MAX_CHUNK_BYTES_def)
qed

definition document :: "descriptor \<Rightarrow> jsv" where
  "document d = descriptor_json (dsArchive d) (dsChunks d) (mfJson (dsManifest d))"

text \<open>The columns of a row that hold a descriptor.\<close>

definition stores :: "backup_row \<Rightarrow> descriptor \<Rightarrow> bool" where
  "stores b d \<longleftrightarrow> bkDescriptorJson b = Some (dsJson d) \<and> bkDescriptorSha256 b = Some (dsSha256 d)
     \<and> bkManifestSha256 b = Some (dsMetadataSha256 d) \<and> bkGeneration b = Some (mfGeneration (dsManifest d))
     \<and> bkWatermark b = Some (mfWatermark (dsManifest d))"

lemma document_again:
  assumes "descriptor_parts pf lm body = Inr d" "platform_lawful pf" "no_wider lm lm'"
  shows "descriptor_parts pf lm' (document d) = Inr d" "shaped (document d)" "dsJson d = json_text (document d)"
    "dsSha256 d = sha256_hex_utf8 (pfSha256 pf) (dsJson d)"
    "dsMetadataSha256 d = sha256_hex_utf8 (pfSha256 pf) (json_text (mfJson (dsManifest d)))"
proof -
  obtain a chunks m where parts: "normalize_archive pf lm (dot body ''archive'') = Inr a"
    "normalize_chunks pf lm a (dot body ''chunks'') = Inr chunks"
    "normalize_manifest pf a (coalesce (dot body ''manifest'') (dot body ''metadata'')) = Inr m"
    and size: "\<not> MAX_BACKUP_DESCRIPTOR_JSON_BYTES < length (utf8_encode (json_text (descriptor_json a chunks (mfJson m))))"
    and d: "d = \<lparr>dsArchive = a, dsChunks = chunks, dsManifest = m, dsJson = json_text (descriptor_json a chunks (mfJson m)),
      dsSha256 = sha256_hex_utf8 (pfSha256 pf) (json_text (descriptor_json a chunks (mfJson m))),
      dsMetadataSha256 = sha256_hex_utf8 (pfSha256 pf) (json_text (mfJson m))\<rparr>"
    using assms(1) by (auto simp: descriptor_parts_def Let_def sbind_eq_Inr split: if_splits)
  have doc: "document d = descriptor_json a chunks (mfJson m)" by (simp add: document_def d)
  have lookups: "dot (document d) ''schema'' = JStr BACKUP_DESCRIPTOR_SCHEMA" "dot (document d) ''manifest'' = mfJson m"
    "dot (document d) ''archive'' = archive_json a" "dot (document d) ''chunks'' = JArr (map chunk_json chunks)"
    by (simp_all add: doc descriptor_json_def dot_jobject)
  have "js_is_plain_object (mfJson m)"
    using parts(3) by (auto simp: normalize_manifest_def sbind_eq_Inr)
  then have present: "coalesce (mfJson m) w = mfJson m" for w by (cases "mfJson m") (simp_all add: coalesce_def)
  have "js_trim BACKUP_DESCRIPTOR_SCHEMA = BACKUP_DESCRIPTOR_SCHEMA" by code_simp
  then have schema: "non_empty_string (JStr BACKUP_DESCRIPTOR_SCHEMA) f 128 = Inr BACKUP_DESCRIPTOR_SCHEMA" for f
    by (simp add: non_empty_string_def js_or_def BACKUP_DESCRIPTOR_SCHEMA_def)
  note normal = normalize_archive_normal[OF parts(1)]
  show "descriptor_parts pf lm' (document d) = Inr d"
    unfolding descriptor_parts_def lookups present using size
    by (simp add: schema ensure_conv archive_again[OF normal assms(2,3)] chunks_again[OF parts(2) assms(2,3)]
      manifest_again[OF parts(3) assms(2)] Let_def) (simp add: d)
  show "shaped (document d)"
    unfolding doc descriptor_json_def
    using shaped_archive[OF normal] shaped_chunks[OF parts(2)] shaped_manifest[OF parts(3)]
    by (intro shaped_members) (simp_all add: names_like_def shape_simps del: shaped.simps(6))
  show "dsJson d = json_text (document d)" by (simp add: doc) (simp add: d)
  show "dsSha256 d = sha256_hex_utf8 (pfSha256 pf) (dsJson d)"
    "dsMetadataSha256 d = sha256_hex_utf8 (pfSha256 pf) (json_text (mfJson (dsManifest d)))" by (simp_all add: d)
qed

lemma descriptor_reads_back:
  assumes "requested_descriptor pf vars body = Inr d" "platform_lawful pf" "units16 (document d)" "stores b d"
  shows "stored_descriptor pf b = Inr (Some d)"
proof -
  note again = document_again[OF assms(1)[unfolded requested_descriptor_def] assms(2) requested_limits]
  have parsed: "json_parse (dsJson d) = Some (document d)"
    using json_roundtrip again(2,3) assms(3) by (simp add: json_plain_split)
  then have "dsJson d \<noteq> []" by (auto simp: json_parse_refused)
  have hex: "matches SHA256_HEX_PATTERN (dsSha256 d)" "matches SHA256_HEX_PATTERN (dsMetadataSha256 d)"
    using assms(2) by (simp_all add: again(4,5) sha256_hex_utf8_def platform_lawful_def SHA256_HEX_PATTERN_def hex64_def)
  have hashes: "sha256_field pf (column (Some (dsSha256 d))) f = Inr (dsSha256 d)"
    "sha256_field pf (column (Some (dsMetadataSha256 d))) f = Inr (dsMetadataSha256 d)" for f
    using sha256_field_again[OF assms(2)] hex by (simp_all add: column_def)
  have "constant_time_hex_equal s s" if "matches SHA256_HEX_PATTERN s" for s
    using that by (simp add: constant_time_hex_equal_def SHA256_HEX_PATTERN_def hex64_def)
  then show ?thesis
    using assms(4) hex hashes again(1,4) parsed \<open>dsJson d \<noteq> []\<close> hex_text(4)[OF hex(2)]
    by (simp add: stored_descriptor_def stores_def ensure_conv)
qed

end
