(* ===== verification/JournalSafety.thy ===== *)
theory JournalSafety
  imports JournalRoundtrip
begin

text \<open>
  What the write journal guarantees under every fate of the calls it makes: a request runs at most
  once however often it is replayed, the journal says truthfully what has run, and a recovery that
  reports nothing outstanding has restored every write. \<open>write_effect\<close> is the interface of a preorder
  on worlds to the atomic steps of the journal; the handlers are proved once inside it.
\<close>

section \<open>The statements of a request\<close>

text \<open>
  The statements \<open>ops\<close> a journal text stands for: those it was built from, or those it parses to. A
  claim names the digest of the text.
\<close>

definition stands_for :: "'d jenv \<Rightarrow> ustr \<Rightarrow> ustr \<Rightarrow> ustr \<Rightarrow> sql_operation list \<Rightarrow> bool" where
  "stands_for env q hash kind ops \<longleftrightarrow> (\<exists>json. hash = sha256_hex_utf8 (jeSha256 env) json
     \<and> (json = json_text (payload_document q kind ops)
        \<or> (\<exists>p. parse_journal_payload json q = Inr p \<and> plKind p = JStr kind \<and> plOperations p = ops)))"

definition of_request :: "'d jenv \<Rightarrow> pg_receipt \<Rightarrow> sql_operation list \<Rightarrow> bool" where
  "of_request env x ops \<longleftrightarrow> prCount x = length ops \<and> stands_for env (prRequest x) (prHash x) (prKind x) ops"

lemma built_stands_for: "stands_for env q (jtHash (build_journal_payload (jeSha256 env) q kind ops)) kind ops"
  by (auto simp: stands_for_def build_journal_payload_def Let_def)

lemma hex_value_bound: "lower_hex c \<Longrightarrow> hex_value c < 16"
  by (auto simp: lower_hex_def hex_value_def digit_def rng_def)

lemma hex_value_inject: "lower_hex c \<Longrightarrow> lower_hex d \<Longrightarrow> hex_value c = hex_value d \<Longrightarrow> c = d"
  by (auto simp: lower_hex_def hex_value_def digit_def rng_def split: if_splits)

lemma hex_pair_inject:
  assumes "lower_hex a" "lower_hex b" "lower_hex c" "lower_hex d"
    "hex_value a * 16 + hex_value b = hex_value c * 16 + hex_value d"
  shows "a = c" "b = d"
proof -
  have "(hex_value a * 16 + hex_value b) div 16 = hex_value a" "(hex_value a * 16 + hex_value b) mod 16 = hex_value b"
    "(hex_value c * 16 + hex_value d) div 16 = hex_value c" "(hex_value c * 16 + hex_value d) mod 16 = hex_value d"
    using hex_value_bound[OF assms(2)] hex_value_bound[OF assms(4)] by simp_all
  then have "hex_value a = hex_value c" "hex_value b = hex_value d" using assms(5) by metis+
  then show "a = c" "b = d" using assms hex_value_inject by blast+
qed

lemma hex_to_bytes_inject:
  "length s = 2 * n \<Longrightarrow> length t = 2 * n \<Longrightarrow> list_all lower_hex s \<Longrightarrow> list_all lower_hex t \<Longrightarrow>
    hex_to_bytes s = hex_to_bytes t \<Longrightarrow> s = t"
proof (induction n arbitrary: s t)
  case (Suc n)
  have "length s = Suc (Suc (2 * n))" "length t = Suc (Suc (2 * n))" using Suc(2,3) by simp_all
  then obtain a b s' c d t' where st: "s = a # b # s'" "t = c # d # t'" unfolding length_Suc_conv by blast
  have "s' = t'" by (rule Suc(1)) (use Suc(2-6) in \<open>simp_all add: st\<close>)
  moreover have digits: "lower_hex a" "lower_hex b" "lower_hex c" "lower_hex d"
    "hex_value a * 16 + hex_value b = hex_value c * 16 + hex_value d"
    using Suc(4-6) by (simp_all add: st)
  ultimately show ?case using hex_pair_inject[OF digits] by (simp add: st)
qed simp

lemma equal_digests:
  assumes "constant_time_hex_equal a b"
  shows "a = b"
proof -
  have digits: "length s = 2 * 32 \<and> list_all lower_hex s" if "matches hex64 s" for s
    using that unfolding hex64_def matches_in_lang in_lang_rtimes by (auto simp: list_all_iff)
  show ?thesis
    using assms digits[of a] digits[of b] hex_to_bytes_inject[of a 32 b] unfolding constant_time_hex_equal_def by blast
qed

lemma stored_stands_for:
  assumes "stored_payload env r = Inr p"
  shows "stands_for env (jrRequest r) (jrHash r) (jrKind r) (plOperations p)"
proof -
  obtain json where "constant_time_hex_equal (sha256_hex_utf8 (jeSha256 env) json) (jrHash r)"
    "thrown_by_platform (jePlatform env) (parse_journal_payload json (jrRequest r)) = Inr p" "plKind p = JStr (jrKind r)"
    using assms by (auto simp: stored_payload_def sbind_eq_Inr)
  moreover from this(2) have "parse_journal_payload json (jrRequest r) = Inr p" by (auto split: sum.splits thrown.splits)
  ultimately show ?thesis unfolding stands_for_def using equal_digests by metis
qed

section \<open>Handlers as effects\<close>

definition receipted :: "'d pg \<Rightarrow> ustr \<Rightarrow> int \<Rightarrow> int \<Rightarrow> bool" where
  "receipted p requestId g s \<longleftrightarrow> (\<exists>x \<in> set (pgReceipts p). prRequest x = requestId \<and> prGeneration x = g \<and> prSeq x = s)"

lemma st_pres_bind_from:
  assumes "\<And>a b c. R a b \<Longrightarrow> R b c \<Longrightarrow> R a c" "st_pres R m" "\<And>w x w'. m w = (Inr x, w') \<Longrightarrow> R w' (snd (f x w'))"
  shows "st_pres R (st_bind m f)"
proof (rule st_presI)
  fix w
  show "R w (snd (st_bind m f w))"
    using assms(2)[THEN st_presD, of w] assms(1) assms(3)[of w]
    by (cases "m w"; cases "fst (m w)") (auto simp: st_bind_def)
qed

lemma claim_receipted:
  assumes "fst (apply_body env t requestId hash kind ops forced p) = Inr a"
  shows "receipted (snd (apply_body env t requestId hash kind ops forced p)) requestId (apGeneration a) (apSeq a)"
  using assms
  by (auto simp: apply_body_def claim_and_run_def receipted_def Let_def
      split: option.splits if_splits sum.splits dest!: find_SomeD)

lemma pg_transaction_cases:
  obtains (lost) "snd (pg_transaction env body w) = w\<lparr>wPgCalls := wPgCalls w + 1\<rparr>"
      "\<exists>e. fst (pg_transaction env body w) = Inl e"
  | (rolled_back) "snd (pg_transaction env body w)
      = w\<lparr>wPgCalls := wPgCalls w + 1, wPg := (wPg w)\<lparr>pgNextSeq := pgNextSeq (snd (body (wPg w)))\<rparr>\<rparr>"
      "\<exists>e. fst (body (wPg w)) = Inl e" "fst (pg_transaction env body w) = fst (body (wPg w))"
  | (committed) x where "snd (pg_transaction env body w) = w\<lparr>wPgCalls := wPgCalls w + 1, wPg := snd (body (wPg w))\<rparr>"
      "fst (body (wPg w)) = Inr x"
      "fst (pg_transaction env body w) = Inr x \<or> (\<exists>e. jePgFate env (wPgCalls w) = FailsAfter e \<and> fst (pg_transaction env body w) = Inl e)"
  by (cases "jePgFate env (wPgCalls w)"; cases "body (wPg w)"; cases "fst (body (wPg w))")
    (auto simp: pg_transaction_def Let_def)

lemma applied_receipted:
  assumes "apply_mutating_operations_with_receipt env requestId hash kind ops forced w = (Inr a, w')"
  shows "receipted (wPg w') requestId (apGeneration a) (apSeq a)"
proof -
  obtain t w1 where t: "clock env w = (Inr t, w1)" by (simp add: clock_def)
  let ?body = "apply_body env t requestId hash kind ops forced"
  have run: "pg_transaction env ?body w1 = (Inr a, w')"
    using assms t by (simp add: apply_mutating_operations_with_receipt_def st_bind_def)
  show ?thesis
    by (cases rule: pg_transaction_cases[of env ?body w1]) (use run claim_receipted[of env t requestId hash kind ops forced] in auto)
qed

locale replay_effect =
  fixes R :: "'d world \<Rightarrow> 'd world \<Rightarrow> bool" and env :: "'d jenv"
  assumes same: "R w w"
    and seq: "R a b \<Longrightarrow> R b c \<Longrightarrow> R a c"
    and counters: "R w (w\<lparr>wTicks := Suc (wTicks w)\<rparr>)" "R w (w\<lparr>wUuids := Suc (wUuids w)\<rparr>)"
      "R w (w\<lparr>wNonces := Suc (wNonces w)\<rparr>)" "R w (w\<lparr>wD1Calls := Suc (wD1Calls w)\<rparr>)"
    and inserted: "st_pres R (insert_pending_journal_entry env q hash kind n ciphertext now)"
    and retried: "st_pres R (mark_journal_pending env q m now)" "st_pres R (mark_journal_failed env q m d now)"
    and requeued: "st_pres R (requeue_ambiguous_failed_journal_entries env now)"
    and marked: "receipted (wPg w) q g s \<Longrightarrow> R w (snd (mark_journal_applied env q now g s w))"
    and claimed: "stands_for env q hash kind ops \<Longrightarrow> st_pres R (pg_transaction env (apply_body env now q hash kind ops forced))"
    and watermarks: "st_pres R (get_current_receipt_watermark env)"
begin

lemma pure:
  "st_pres R (st_return x :: ('d, 'a) jdb)" "st_pres R (st_throw e :: ('d, 'a) jdb)"
  "st_pres R (st_ensure b e :: ('d, unit) jdb)" "st_pres R (st_lift r :: ('d, 'a) jdb)"
  by (rule st_pres_pure, rule same)+

lemma clocks: "st_pres R (clock env)" "st_pres R (request_id env)" "st_pres R (fresh_nonce env)"
  by (simp_all add: st_pres_def clock_def request_id_def fresh_nonce_def counters)

lemma journal_reads: "st_pres R (journal_read env f)"
  by (rule st_presI) (simp add: journal_read_def Let_def counters split: fate.split)

lemma bind: "st_pres R m \<Longrightarrow> (\<And>x. st_pres R (f x)) \<Longrightarrow> st_pres R (st_bind m f)"
  by (rule st_pres_bind) (rule seq)

lemma caught: "st_pres R m \<Longrightarrow> (\<And>e. st_pres R (h e)) \<Longrightarrow> st_pres R (st_catch m h)"
  by (rule st_pres_catch) (rule seq)

lemma swallow: "st_pres R m \<Longrightarrow> st_pres R (swallowed m)"
  unfolding swallowed_def by (intro caught bind pure)

lemma apply_kept: "stands_for env q hash kind ops \<Longrightarrow> st_pres R (apply_mutating_operations_with_receipt env q hash kind ops forced)"
  unfolding apply_mutating_operations_with_receipt_def by (intro bind clocks claimed)

lemma marked_after_clock:
  assumes "receipted (wPg w) q g s"
  shows "R w (snd (st_bind (clock env) (\<lambda>now. mark_journal_applied env q now g s) w))"
proof -
  have "receipted (wPg (w\<lparr>wTicks := Suc (wTicks w)\<rparr>)) q g s" using assms by simp
  from seq[OF counters(1) marked[OF this]] show ?thesis
    by (simp add: st_bind_run clock_def)
qed

lemma swallow_from: "R w (snd (m w)) \<Longrightarrow> R w (snd (swallowed m w))"
  by (auto simp: swallowed_def st_catch_run st_bind_run st_simps split: sum.splits)

lemma journalled_run:
  assumes "stands_for env q hash kind ops"
  shows "st_pres R (run_journalled env q hash kind ops)"
proof -
  have "st_pres R (st_bind (apply_mutating_operations_with_receipt env q hash kind ops None) (\<lambda>a.
      st_bind (swallowed (st_bind (clock env) (\<lambda>now. mark_journal_applied env q now (apGeneration a) (apSeq a)))) (\<lambda>_.
      st_return (apResults a))))"
  proof (rule st_pres_bind_from[OF seq apply_kept[OF assms]])
    fix w a w' assume "apply_mutating_operations_with_receipt env q hash kind ops None w = (Inr a, w')"
    from swallow_from[where m = "st_bind (clock env) (\<lambda>now. mark_journal_applied env q now (apGeneration a) (apSeq a))",
        OF marked_after_clock[OF applied_receipted[OF this]]]
    show "R w' (snd (st_bind (swallowed (st_bind (clock env) (\<lambda>now. mark_journal_applied env q now (apGeneration a) (apSeq a))))
        (\<lambda>_. st_return (apResults a)) w'))"
      by (simp add: st_bind_run[of "swallowed _"] st_simps split: sum.split)
  qed
  moreover have "st_pres R (write_failed env q e :: ('d, nat list) jdb)" for e
    unfolding write_failed_def Let_def by (intro bind swallow clocks pure) (simp add: retried)
  ultimately show ?thesis unfolding run_journalled_def by (rule caught)
qed

lemma written: "\<not> jeDisabled env \<Longrightarrow> st_pres R (execute_mutating_operations env kind ops)"
  unfolding execute_mutating_operations_def Let_def
  by (simp, intro bind pure clocks inserted journalled_run built_stands_for)

lemma entry: "st_pres R (replay_entry env forced r)"
proof -
  have run: "st_pres R (st_bind (apply_mutating_operations_with_receipt env (jrRequest r) (jrHash r) (jrKind r) ops forced) (\<lambda>a.
      st_bind (clock env) (\<lambda>now. st_bind (mark_journal_applied env (jrRequest r) now (apGeneration a) (apSeq a)) (\<lambda>_. st_return 1))))"
    if "stands_for env (jrRequest r) (jrHash r) (jrKind r) ops" for ops
  proof (rule st_pres_bind_from[OF seq apply_kept[OF that]])
    fix w a w' assume "apply_mutating_operations_with_receipt env (jrRequest r) (jrHash r) (jrKind r) ops forced w = (Inr a, w')"
    from marked_after_clock[OF applied_receipted[OF this]]
    show "R w' (snd (st_bind (clock env) (\<lambda>now. st_bind (mark_journal_applied env (jrRequest r) now (apGeneration a) (apSeq a))
        (\<lambda>_. st_return 1)) w'))"
      by (auto simp: st_bind_run st_simps clock_def split: sum.split)
  qed
  show ?thesis unfolding replay_entry_def
  proof (rule st_pres_bind_from[OF seq pure(4)])
    fix w p w' assume "(st_lift (stored_payload env r) :: ('d, journal_payload) jdb) w = (Inr p, w')"
    then have "stored_payload env r = Inr p" by (simp add: st_lift_def split: sum.splits)
    from st_presD[OF run[OF stored_stands_for[OF this]]]
    show "R w' (snd (st_bind (apply_mutating_operations_with_receipt env (jrRequest r) (jrHash r) (jrKind r) (plOperations p) forced)
        (\<lambda>a. st_bind (clock env) (\<lambda>now. st_bind (mark_journal_applied env (jrRequest r) now (apGeneration a) (apSeq a)) (\<lambda>_. st_return 1))) w'))" .
  qed
qed

lemma replay_failure: "st_pres R (record_replay_failure env q e)"
  unfolding record_replay_failure_def by (intro bind clocks) (simp add: retried)

lemma replay_all: "st_pres R (replay_candidates env rs)"
  by (induction rs) (auto intro!: bind caught entry swallow replay_failure pure)

lemma replay: "st_pres R (replay_recovery_journal env limit)"
  unfolding replay_recovery_journal_def load_recovery_journal_candidates_def
  by (auto intro!: bind pure clocks requeued journal_reads replay_all)

lemma batch: "st_pres R (replay_batch env target rs)"
  by (induction rs) (auto intro!: bind caught entry replay_failure pure)

lemma exhausted:
  assumes "replay_until_exhausted env cov target limit n w = Some (r, w')"
  shows "R w w'"
proof -
  have "env' = env \<longrightarrow> R w (snd res)"
    if "replay_until_exhausted env' cov target limit n w = Some res" for env' res
  proof (rule replay_until_exhausted.raw_induct
      [where P = "\<lambda>env' cov target limit n w res. env' = env \<longrightarrow> R w (snd res)", OF _ that], intro impI)
    fix f env' and cov :: coverage and target limit n w res
    assume ih: "\<And>env' cov target limit n w res. f env' cov target limit n w = Some res \<Longrightarrow>
          env' = env \<longrightarrow> R w (snd res)"
      and env: "env' = env"
      and step: "(case load_recovery_replay_batch env' cov target limit w of
         (Inl e, w1) \<Rightarrow> Some (Inl e, w1)
       | (Inr batch, w1) \<Rightarrow> if batch = [] then Some (Inr n, w1)
           else (case replay_batch env' target batch w1 of (Inl e, w2) \<Rightarrow> Some (Inl e, w2)
             | (Inr m, w2) \<Rightarrow> f env' cov target limit (n + m) w2)) = Some res"
    obtain l w1 where load: "load_recovery_replay_batch env cov target limit w = (l, w1)" by fastforce
    have w1: "R w w1"
      using st_presD[OF journal_reads, of w] load unfolding load_recovery_replay_batch_def by (metis snd_conv)
    have w2: "R w (snd (replay_batch env target rows w1))" for rows by (rule seq[OF w1 st_presD[OF batch]])
    show "R w (snd res)"
    proof (cases "\<exists>rows m w2. l = Inr rows \<and> rows \<noteq> [] \<and> replay_batch env target rows w1 = (Inr m, w2)")
      case True
      then obtain rows m w2 where "l = Inr rows" "rows \<noteq> []" "replay_batch env target rows w1 = (Inr m, w2)" by blast
      moreover from this have "f env cov target limit (n + m) w2 = Some res" using step load env by simp
      ultimately show ?thesis using ih w2[of rows] seq by fastforce
    next
      case False
      then show ?thesis
        using step load env w1 w2 by (cases l) (auto split: if_splits prod.splits sum.splits)
    qed
  qed
  from this[OF assms] show ?thesis by simp
qed

end

text \<open>A recovery also raises the generation.\<close>

locale write_effect = replay_effect +
  assumes promoted: "st_pres R (promote_recovery_generation env cov target)"
begin

lemma recovery:
  assumes "complete_recovery_replay env cov target limit w = Some (r, w')"
  shows "R w w'"
proof -
  have prepared: "R w (snd (prepare_recovery env cov target w))"
    unfolding prepare_recovery_def by (intro st_presD[of R] bind pure clocks requeued promoted)
  obtain l w1 where l: "prepare_recovery env cov target w = (l, w1)" by fastforce
  have w1: "R w w1" using prepared l by simp
  have finish: "st_pres R (finish_recovery env cov target n)" for n
    unfolding finish_recovery_def count_recovery_replay_pending_def
    by (intro bind journal_reads watermarks) (simp add: pure split: prod.split)
  show ?thesis
  proof (cases l)
    case (Inl e)
    then show ?thesis using assms l w1 by (simp add: complete_recovery_replay_def)
  next
    case (Inr x)
    obtain r2 w2 where loop: "replay_until_exhausted env cov target limit 0 w1 = Some (r2, w2)"
      using assms l Inr by (auto simp: complete_recovery_replay_def split: option.splits)
    have w2: "R w w2" by (rule seq[OF w1 exhausted[OF loop]])
    have w3: "R w (snd (finish_recovery env cov target n w2))" for n by (rule seq[OF w2 st_presD[OF finish]])
    show ?thesis
    proof (cases r2)
      case (Inr n)
      then show ?thesis using assms l \<open>l = Inr x\<close> loop w3[of n] by (simp add: complete_recovery_replay_def)
    qed (use assms l Inr loop w2 in \<open>simp add: complete_recovery_replay_def\<close>)
  qed
qed

end

section \<open>Steps\<close>

text \<open>
  Everything the code does to the two databases, one awaited call at a time: handlers that run at the
  same time interleave their steps. A row is marked as applied only with a receipt that exists, which
  stays true under the steps of others; a claim runs the statements of the journal text whose digest it
  names.
\<close>

inductive journal_step :: "'d jenv \<Rightarrow> 'd world \<Rightarrow> 'd world \<Rightarrow> bool" for env where
  idle: "wJournal w' = wJournal w \<Longrightarrow> wPg w' = wPg w \<Longrightarrow> journal_step env w w'"
| record_write: "journal_step env w (snd (insert_pending_journal_entry env q hash kind n ciphertext now w))"
| settle_pending: "journal_step env w (snd (mark_journal_pending env q m now w))"
| settle_failed: "journal_step env w (snd (mark_journal_failed env q m d now w))"
| settle_applied: "receipted (wPg w) q g s \<Longrightarrow> journal_step env w (snd (mark_journal_applied env q now g s w))"
| requeue: "journal_step env w (snd (requeue_ambiguous_failed_journal_entries env now w))"
| claim: "stands_for env q hash kind ops \<Longrightarrow> journal_step env w (snd (pg_transaction env (apply_body env now q hash kind ops forced) w))"
| promote: "journal_step env w (snd (promote_recovery_generation env cov target w))"
| clean: "journal_step env w (snd (cleanup_applied_recovery_journal env snapshot limit w))"

abbreviation journal_steps :: "'d jenv \<Rightarrow> 'd world \<Rightarrow> 'd world \<Rightarrow> bool" where
  "journal_steps env \<equiv> (journal_step env)\<^sup>*\<^sup>*"

lemma one_step: "journal_step env w w' \<Longrightarrow> journal_steps env w w'" by (rule r_into_rtranclp)

lemma watermark_idle: "wJournal (snd (get_current_receipt_watermark env w)) = wJournal w
  \<and> wPg (snd (get_current_receipt_watermark env w)) = wPg w"
  by (simp add: get_current_receipt_watermark_def pg_transaction_def Let_def split: fate.splits option.splits sum.splits)

interpretation steps: write_effect "journal_steps env" env for env
proof
  show "journal_steps env w w" for w by simp
  show "journal_steps env a b \<Longrightarrow> journal_steps env b c \<Longrightarrow> journal_steps env a c" for a b c by (rule rtranclp_trans)
  show "journal_steps env w (w\<lparr>wTicks := i\<rparr>)" "journal_steps env w (w\<lparr>wUuids := i\<rparr>)"
    "journal_steps env w (w\<lparr>wNonces := i\<rparr>)" "journal_steps env w (w\<lparr>wD1Calls := i\<rparr>)" for w i
    by (rule one_step, rule journal_step.idle, simp, simp)+
  show "st_pres (journal_steps env) (get_current_receipt_watermark env)"
    using watermark_idle[of env] by (intro st_presI one_step journal_step.idle) blast+
qed (rule st_presI | rule one_step | rule journal_step.intros | assumption)+

section \<open>Once\<close>

fun run_log :: "'d jenv \<Rightarrow> sql_operation list list \<Rightarrow> 'd \<Rightarrow> 'd option" where
  "run_log env [] d = Some d"
| "run_log env (ops # hist) d = (case run_operations env ops d of Inl e \<Rightarrow> None | Inr (ns, d') \<Rightarrow> run_log env hist d')"

lemma run_log_append: "run_log env (xs @ ys) d = Option.bind (run_log env xs d) (run_log env ys)"
  by (induction xs arbitrary: d) (auto split: sum.split)

text \<open>The requests that got a receipt in between, each with the statements that ran for it.\<close>

definition has_run :: "'d jenv \<Rightarrow> (pg_receipt \<times> sql_operation list) list \<Rightarrow> 'd pg \<Rightarrow> 'd pg \<Rightarrow> bool" where
  "has_run env hist p p' \<longleftrightarrow> pgReceipts p' = pgReceipts p @ map fst hist
     \<and> distinct (map (prRequest \<circ> fst) hist) \<and> (\<forall>x \<in> set hist. prRequest (fst x) \<notin> prRequest ` set (pgReceipts p))
     \<and> (\<forall>(x, ops) \<in> set hist. of_request env x ops)
     \<and> run_log env (map snd hist) (pgData p) = Some (pgData p')"

lemma ran_nil: "pgReceipts p' = pgReceipts p \<Longrightarrow> pgData p' = pgData p \<Longrightarrow> has_run env [] p p'"
  by (simp add: has_run_def)

lemma ran_append: "has_run env xs p q \<Longrightarrow> has_run env ys q r \<Longrightarrow> has_run env (xs @ ys) p r"
  unfolding has_run_def by (simp add: run_log_append image_Un ball_Un) (fastforce simp: image_iff)

lemma claim_ran:
  assumes "of_request env r ops"
  shows "\<exists>hist. has_run env hist p (snd (claim_and_run env r ops p))"
proof (cases "receipt_check r \<and> \<not> (\<exists>x \<in> set (pgReceipts p). prRequest x = prRequest r \<or> prSeq x = prSeq r)")
  case True
  show ?thesis
  proof (cases "run_operations env ops (pgData p)")
    case (Inl e)
    then show ?thesis using True by (intro exI[of _ "[]"] ran_nil) (simp_all add: claim_and_run_def Let_def)
  next
    case (Inr res)
    then have "has_run env [(r, ops)] p (snd (claim_and_run env r ops p))"
      using True assms by (cases res) (auto simp: claim_and_run_def Let_def has_run_def)
    then show ?thesis ..
  qed
next
  case False
  then show ?thesis
    by (intro exI[of _ "[]"] ran_nil) (auto simp: claim_and_run_def Let_def split: option.split)
qed

lemma apply_ran:
  assumes "stands_for env q hash kind ops"
  shows "\<exists>hist. has_run env hist p (snd (apply_body env t q hash kind ops forced p))"
proof -
  let ?r = "\<lambda>s g. \<lparr>prSeq = s, prGeneration = g, prRequest = q, prHash = hash, prKind = kind, prCount = length ops, prAppliedAt = t\<rparr>"
  have "of_request env (?r s g) ops" for s g using assms by (simp add: of_request_def)
  note claimed = claim_ran[OF this, of p]
  have none: "\<exists>hist. has_run env hist p p" using ran_nil[of p p env] by blast
  show ?thesis
  proof (cases "pgGeneration p")
    case (Some g)
    then show ?thesis
      using claimed[of "pgNextSeq p" g] none by (cases "forced = None \<or> forced = Some g") (auto simp: apply_body_def Let_def split: option.split)
  qed (use none in \<open>simp add: apply_body_def\<close>)
qed

lemma transaction_ran:
  assumes "\<And>p. \<exists>hist. has_run env hist p (snd (body p))"
  shows "\<exists>hist. has_run env hist (wPg w) (wPg (snd (pg_transaction env body w)))"
  by (cases rule: pg_transaction_cases[of env body w]) (use assms in \<open>auto simp: has_run_def intro!: exI[of _ "[]"]\<close>)

lemma journal_run_pg [simp]: "wPg (snd (journal_run env s w)) = wPg w"
  by (auto simp: journal_run_def Let_def split: fate.splits sum.splits prod.splits)

lemmas journal_calls = insert_pending_journal_entry_def mark_journal_pending_def mark_journal_failed_def
  mark_journal_applied_def requeue_ambiguous_failed_journal_entries_def

lemma promote_same: "pgReceipts (snd (promote_body cov target p)) = pgReceipts p"
  "pgData (snd (promote_body cov target p)) = pgData p"
  by (simp_all add: promote_body_def split: option.split)

lemma cleanup_rows:
  "wPg (snd (cleanup_applied_recovery_journal env snapshot limit w)) = wPg w
    \<and> (\<exists>P. wJournal (snd (cleanup_applied_recovery_journal env snapshot limit w)) = filter P (wJournal w))"
proof -
  have keep: "\<exists>P. rows = filter P rows" for rows :: "journal_row list" by (rule exI[of _ "\<lambda>_. True"]) simp
  show ?thesis
    using keep[of "wJournal w"]
    by (auto simp: cleanup_applied_recovery_journal_def st_bind_run st_simps journal_read_def journal_run_def Let_def
        split: option.splits fate.splits sum.splits)
qed

lemma step_ran: "journal_step env w w' \<Longrightarrow> \<exists>hist. has_run env hist (wPg w) (wPg w')"
proof (induction rule: journal_step.induct)
  case (claim w now q hash kind ops forced)
  show ?case by (intro transaction_ran apply_ran claim)
next
  case (promote w cov target)
  show ?case unfolding promote_recovery_generation_def
    by (intro transaction_ran exI[of _ "[]"] ran_nil promote_same)
qed (auto simp: journal_calls cleanup_rows intro!: exI[of _ "[]"] ran_nil)

lemma steps_ran: "journal_steps env w w' \<Longrightarrow> \<exists>hist. has_run env hist (wPg w) (wPg w')"
proof (induction rule: rtranclp_induct)
  case base
  show ?case by (intro exI[of _ "[]"] ran_nil) simp_all
next
  case (step y z)
  then show ?case using step_ran ran_append by metis
qed

section \<open>What a row says\<close>

lemma journal_run_journal:
  "wJournal (snd (journal_run env s w)) = wJournal w
    \<or> (\<exists>n rows. s (wJournal w) = Inr (n, rows) \<and> wJournal (snd (journal_run env s w)) = rows)"
  by (auto simp: journal_run_def Let_def split: fate.splits sum.splits prod.splits)

lemma journal_run_done:
  "journal_run env s w = (Inr n, w') \<Longrightarrow> s (wJournal w) = Inr (n, wJournal w') \<and> wPg w' = wPg w"
  by (auto simp: journal_run_def Let_def split: fate.splits sum.splits prod.splits)

lemma update_journal_done:
  "update_journal p f rows = Inr (n, rows') \<Longrightarrow> rows' = update_rows p f rows"
  by (simp add: update_journal_def split: if_splits)

lemma insert_pending_done:
  "insert_pending q hash kind n ciphertext now rows = Inr (m, rows') \<Longrightarrow>
    \<exists>r. rows' = rows @ [r] \<and> jrRequest r = q \<and> jrStatus r = JournalPending \<and> q \<notin> jrRequest ` set rows"
  by (auto simp: insert_pending_def Let_def split: if_splits)

lemma transaction_journal [simp]: "wJournal (snd (pg_transaction env body w)) = wJournal w"
  by (cases rule: pg_transaction_cases[of env body w]) simp_all

text \<open>
  A law about single rows: rows that are not applied obey it, marking a row with a receipt that exists
  establishes it, and further receipts keep it. Then every step of the journal keeps it.
\<close>

locale row_law =
  fixes P :: "'d pg \<Rightarrow> journal_row \<Rightarrow> bool"
  assumes unsettled: "jrStatus r \<noteq> JournalApplied \<Longrightarrow> P p r"
    and settled: "receipted p (jrRequest r) g s \<Longrightarrow> P p (applied_row now g s r)"
    and later: "P p r \<Longrightarrow> pgReceipts p' = pgReceipts p @ xs \<Longrightarrow> P p' r"
begin

lemma updated:
  assumes "\<forall>r \<in> set (wJournal w). P (wPg w) r" "\<And>r. p r \<Longrightarrow> P (wPg w) (f r)"
  shows "\<forall>r \<in> set (wJournal (snd (journal_run env (update_journal p f) w))). P (wPg w) r"
proof -
  let ?w = "snd (journal_run env (update_journal p f) w)"
  consider "wJournal ?w = wJournal w" | "wJournal ?w = update_rows p f (wJournal w)"
    using journal_run_journal[of env "update_journal p f" w] update_journal_done by blast
  then show ?thesis
    by cases (use assms in \<open>auto simp: set_update_rows\<close>)
qed

lemma grown:
  assumes "journal_step env w w'" "wJournal w' = wJournal w" "\<forall>r \<in> set (wJournal w). P (wPg w) r"
  shows "\<forall>r \<in> set (wJournal w'). P (wPg w') r"
proof -
  obtain hist where "has_run env hist (wPg w) (wPg w')" using step_ran[OF assms(1)] by blast
  then have "pgReceipts (wPg w') = pgReceipts (wPg w) @ map fst hist" by (simp add: has_run_def)
  from later[OF _ this] show ?thesis using assms(2,3) by simp
qed

lemma step: "journal_step env w w' \<Longrightarrow> \<forall>r \<in> set (wJournal w). P (wPg w) r \<Longrightarrow> \<forall>r \<in> set (wJournal w'). P (wPg w') r"
proof (induction rule: journal_step.induct)
  case (record_write w q hash kind n ciphertext now)
  let ?w = "snd (insert_pending_journal_entry env q hash kind n ciphertext now w)"
  consider "wJournal ?w = wJournal w"
    | m rows where "insert_pending q hash kind n ciphertext now (wJournal w) = Inr (m, rows)" "wJournal ?w = rows"
    using journal_run_journal[of env "insert_pending q hash kind n ciphertext now" w]
    unfolding insert_pending_journal_entry_def by blast
  then show ?case
  proof cases
    case 1
    then show ?thesis using record_write by (simp add: insert_pending_journal_entry_def)
  next
    case 2
    from insert_pending_done[OF this(1)] obtain r where "rows = wJournal w @ [r]" "jrStatus r = JournalPending" by blast
    then show ?thesis using record_write 2(2) unsettled[of r] by (simp add: insert_pending_journal_entry_def)
  qed
next
  case (settle_applied w q g s now)
  from updated[OF this(2), of "\<lambda>r. jrRequest r = q" "applied_row now g s"] this(1) settled show ?case
    unfolding mark_journal_applied_def journal_run_pg by simp
next
  case (claim w now q hash kind ops forced)
  show ?case by (rule grown[OF journal_step.claim[OF claim(1)] _ claim(2)]) simp
next
  case (promote w cov target)
  show ?case by (rule grown[OF journal_step.promote _ promote]) (simp add: promote_recovery_generation_def)
next
  case (clean w cov limit)
  obtain Q where "wPg (snd (cleanup_applied_recovery_journal env cov limit w)) = wPg w"
    "wJournal (snd (cleanup_applied_recovery_journal env cov limit w)) = filter Q (wJournal w)"
    using cleanup_rows[of env cov limit w] by blast
  then show ?case using clean by simp
next
  case (settle_pending w q m now)
  from updated[OF this, of "\<lambda>r. jrRequest r = q" "retried_row JournalPending Blocking m now"] unsettled show ?case
    unfolding mark_journal_pending_def journal_run_pg by (simp add: retried_row_def)
next
  case (settle_failed w q m d now)
  from updated[OF this, of "\<lambda>r. jrRequest r = q" "retried_row JournalFailed d m now"] unsettled show ?case
    unfolding mark_journal_failed_def journal_run_pg by (simp add: retried_row_def)
next
  case (requeue w now)
  from updated[OF this, of requeueable "\<lambda>r. r\<lparr>jrStatus := JournalPending, jrDisposition := Blocking, jrUpdatedAt := now\<rparr>"] unsettled
  show ?case unfolding requeue_ambiguous_failed_journal_entries_def journal_run_pg by simp
next
  case (idle w' w)
  then show ?case by simp
qed

lemma kept: "journal_steps env w w' \<Longrightarrow> \<forall>r \<in> set (wJournal w). P (wPg w) r \<Longrightarrow> \<forall>r \<in> set (wJournal w'). P (wPg w') r"
  by (induction rule: rtranclp_induct) (simp, blast dest: step)

end

definition truthful_row :: "'d pg \<Rightarrow> journal_row \<Rightarrow> bool" where
  "truthful_row p r \<longleftrightarrow> (jrStatus r = JournalApplied \<longrightarrow>
     (\<exists>g s. jrGeneration r = Some g \<and> jrSeq r = Some s \<and> receipted p (jrRequest r) g s))"

interpretation truthful: row_law truthful_row
  by unfold_locales (auto simp: truthful_row_def applied_row_def receipted_def)

text \<open>
  Every handler of the journal, whatever it answers, is a sequence of the atomic steps: a write,
  the scheduled replay, a recovery that returns, and the removal of covered rows.
\<close>

theorem journal_handlers_are_steps:
  assumes "\<not> jeDisabled env"
  shows "journal_steps env w (snd (execute_mutating_operations env kind ops w))
    \<and> journal_steps env w (snd (replay_recovery_journal env limit w))
    \<and> (\<forall>r w'. complete_recovery_replay env cov target limit w = Some (r, w') \<longrightarrow> journal_steps env w w')
    \<and> journal_steps env w (snd (cleanup_applied_recovery_journal env snapshot limit w))"
  using st_presD[OF steps.written[OF assms]] st_presD[OF steps.replay] steps.recovery one_step[OF journal_step.clean]
  by blast

text \<open>
  C8. Under every interleaving and every fate of the calls, a request runs at most once: each receipt in
  PostgreSQL is of another request; its statements are as many as it counts, and those of the journal
  text whose digest it has; the data is what running the statements of each receipt once, in the order of the
  receipts, gives; and a row the journal calls applied has the receipt it names.
\<close>

theorem writes_run_once:
  assumes "journal_steps env w0 w" "wJournal w0 = []" "pgReceipts (wPg w0) = []"
  shows "\<exists>statements. distinct (map prRequest (pgReceipts (wPg w)))
      \<and> list_all2 (\<lambda>x ops. prCount x = length ops \<and> stands_for env (prRequest x) (prHash x) (prKind x) ops)
          (pgReceipts (wPg w)) statements
      \<and> run_log env statements (pgData (wPg w0)) = Some (pgData (wPg w))
      \<and> (\<forall>r \<in> set (wJournal w). jrStatus r = JournalApplied \<longrightarrow>
           (\<exists>g s. jrGeneration r = Some g \<and> jrSeq r = Some s \<and> receipted (wPg w) (jrRequest r) g s))"
proof -
  obtain hist where hist: "has_run env hist (wPg w0) (wPg w)" using steps_ran[OF assms(1)] by blast
  then have receipts: "pgReceipts (wPg w) = map fst hist" using assms(3) by (simp add: has_run_def)
  have "list_all2 (\<lambda>x ops. prCount x = length ops \<and> stands_for env (prRequest x) (prHash x) (prKind x) ops)
      (map fst hist) (map snd hist)"
    using hist by (auto simp: has_run_def of_request_def list_all2_conv_all_nth dest: nth_mem)
  moreover have "\<forall>r \<in> set (wJournal w). truthful_row (wPg w) r" using truthful.kept[OF assms(1)] assms(2) by simp
  ultimately show ?thesis
    using hist unfolding receipts has_run_def truthful_row_def by (intro exI[of _ "map snd hist"]) auto
qed

section \<open>Instances\<close>

definition sample_world :: "ustr list world" where
  "sample_world = \<lparr>wJournal = [], wPg = \<lparr>pgGeneration = Some 1, pgReceipts = [], pgNextSeq = 1, pgData = []\<rparr>,
     wTicks = 0, wUuids = 0, wNonces = 0, wPgCalls = 0, wD1Calls = 0\<rparr>"

definition sample_coverage :: coverage where "sample_coverage = \<lparr>cvGeneration = 1, cvWatermark = 0\<rparr>"

definition recovered_world :: "ustr list world" where
  "recovered_world = sample_world\<lparr>wPg := (wPg sample_world)\<lparr>pgGeneration := Some 2\<rparr>, wTicks := 1, wPgCalls := 2, wD1Calls := 3\<rparr>"

lemma empty_recovery:
  "complete_recovery_replay sample_env sample_coverage 2 24 sample_world
    = Some (Inr \<lparr>raGeneration = 2, raSeq = 0, raReplayed = 0, raPending = 0\<rparr>, recovered_world)"
  by (simp add: complete_recovery_replay_def prepare_recovery_def finish_recovery_def sample_world_def sample_env_def
      recovered_world_def sample_coverage_def
      st_bind_run st_simps clock_def requeue_ambiguous_failed_journal_entries_def journal_run_def update_journal_def
      promote_recovery_generation_def pg_transaction_def promote_body_def watermark_def replay_until_exhausted.simps
      load_recovery_replay_batch_def journal_read_def oldest_def count_recovery_replay_pending_def
      get_current_receipt_watermark_def count_rows_def update_rows_def)

lemma sample_enabled: "\<not> jeDisabled sample_env" by (simp add: sample_env_def)

lemma journal_handlers_are_steps_witness:
  "journal_steps sample_env sample_world (snd (execute_mutating_operations sample_env (u ''run'') [sample_op] sample_world))
    \<and> journal_steps sample_env sample_world recovered_world"
  using journal_handlers_are_steps[OF sample_enabled, of sample_world "u ''run''" "[sample_op]" 24 sample_coverage 2]
    empty_recovery by blast

lemma writes_run_once_witness:
  "\<exists>statements. list_all2 (\<lambda>x ops. prCount x = length ops)
        (pgReceipts (wPg (snd (execute_mutating_operations sample_env (u ''run'') [sample_op] sample_world)))) statements
      \<and> run_log sample_env statements []
        = Some (pgData (wPg (snd (execute_mutating_operations sample_env (u ''run'') [sample_op] sample_world))))"
proof -
  let ?run = "execute_mutating_operations sample_env (u ''run'') [sample_op] sample_world"
  have "journal_steps sample_env sample_world (snd ?run)"
    by (rule st_presD, rule steps.written[OF sample_enabled])
  moreover have world: "wJournal sample_world = []" "pgReceipts (wPg sample_world) = []" "pgData (wPg sample_world) = []"
    by (simp_all add: sample_world_def)
  ultimately obtain statements where
    "list_all2 (\<lambda>x ops. prCount x = length ops \<and> stands_for sample_env (prRequest x) (prHash x) (prKind x) ops)
          (pgReceipts (wPg (snd ?run))) statements"
    "run_log sample_env statements [] = Some (pgData (wPg (snd ?run)))"
    using writes_run_once[of sample_env sample_world "snd ?run"] unfolding world by blast
  then show ?thesis by (intro exI[of _ statements]) (auto elim!: list_all2_mono)
qed

end
