(* ===== verification/JournalRecovery.thy ===== *)
theory JournalRecovery
  imports JournalSafety
begin

text \<open>
  Recovery of PostgreSQL from a snapshot (\<open>completeRecoveryReplay\<close>, \<open>replayUntilExhausted\<close>): that its
  unbounded loop returns on a restored database, what is restored when it reports nothing outstanding,
  and the two situations in which it does not do its work: a database that was not restored, and a
  recovery resumed after an interrupted one.
\<close>

section \<open>The loop returns\<close>

text \<open>A restored database has only receipts the snapshot covers, or those of the target generation.\<close>

definition restored :: "coverage \<Rightarrow> int \<Rightarrow> 'd pg \<Rightarrow> bool" where
  "restored cov target p \<longleftrightarrow> (\<forall>x \<in> set (pgReceipts p). \<not> beyond_snapshot cov target (prGeneration x) (prSeq x))"

definition needing :: "coverage \<Rightarrow> int \<Rightarrow> 'd world \<Rightarrow> ustr set" where
  "needing cov target w = jrRequest ` {r \<in> set (wJournal w). needs_replay cov target r}"

lemma finite_needing [simp]: "finite (needing cov target w)"
  by (simp add: needing_def)

lemma restored_same: "pgReceipts p' = pgReceipts p \<Longrightarrow> restored cov target p' = restored cov target p"
  by (simp add: restored_def)

lemma claimed_receipts:
  "pgReceipts (snd (claim_and_run env r ops p)) = pgReceipts p \<or> pgReceipts (snd (claim_and_run env r ops p)) = pgReceipts p @ [r]"
proof (cases "receipt_check r \<and> \<not> (\<exists>x \<in> set (pgReceipts p). prRequest x = prRequest r \<or> prSeq x = prSeq r)")
  case True
  then show ?thesis by (cases "run_operations env ops (pgData p)") (auto simp: claim_and_run_def Let_def)
next
  case False
  then show ?thesis by (auto simp: claim_and_run_def Let_def split: option.split)
qed

lemma restored_body:
  assumes "restored cov target p"
  shows "restored cov target (snd (apply_body env t q hash kind ops (Some target) p))"
proof (cases "pgGeneration p")
  case (Some current)
  define r where "r = \<lparr>prSeq = pgNextSeq p, prGeneration = target, prRequest = q, prHash = hash,
           prKind = kind, prCount = length ops, prAppliedAt = t\<rparr>"
  have "\<not> beyond_snapshot cov target (prGeneration r) (prSeq r)" by (simp add: r_def beyond_snapshot_def)
  then have "restored cov target (snd (claim_and_run env r ops p))"
    using assms claimed_receipts[of env r ops p] unfolding restored_def by auto
  then show ?thesis using assms Some by (simp add: apply_body_def r_def Let_def)
qed (use assms in \<open>simp add: apply_body_def\<close>)

lemma restored_transaction:
  assumes "restored cov target (wPg w)" "\<And>p. restored cov target p \<Longrightarrow> restored cov target (snd (body p))"
  shows "restored cov target (wPg (snd (pg_transaction env body w)))"
  by (cases rule: pg_transaction_cases[of env body w]) (use assms in \<open>auto simp: restored_def\<close>)

lemma apply_journal [simp]:
  "wJournal (snd (apply_mutating_operations_with_receipt env q hash kind ops forced w)) = wJournal w"
  by (simp add: apply_mutating_operations_with_receipt_def st_bind_run clock_def)

lemma apply_restored:
  "restored cov target (wPg w)
    \<Longrightarrow> restored cov target (wPg (snd (apply_mutating_operations_with_receipt env q hash kind ops (Some target) w)))"
  by (auto simp: apply_mutating_operations_with_receipt_def st_bind_run clock_def intro!: restored_transaction restored_body)

text \<open>A request settled for good: its rows no longer need to be replayed.\<close>

lemma settled_needing:
  assumes "s = update_journal (\<lambda>r. jrRequest r = q) f" "\<And>r. jrRequest (f r) = jrRequest r"
    and "\<And>r. \<not> needs_replay cov target (f r)"
  shows "needing cov target (snd (journal_run env s w)) \<subseteq> needing cov target w"
    and "journal_run env s w = (Inr n, w') \<Longrightarrow> needing cov target w' \<subseteq> needing cov target w - {q}"
proof -
  have cut: "needing cov target v \<subseteq> needing cov target w - {q}"
    if "wJournal v = update_rows (\<lambda>r. jrRequest r = q) f (wJournal w)" for v :: "'a world"
    using that assms(2,3) by (auto simp: needing_def set_update_rows)
  consider "wJournal (snd (journal_run env s w)) = wJournal w"
    | "wJournal (snd (journal_run env s w)) = update_rows (\<lambda>r. jrRequest r = q) f (wJournal w)"
    using journal_run_journal[of env s w] update_journal_done unfolding assms(1) by blast
  then show "needing cov target (snd (journal_run env s w)) \<subseteq> needing cov target w"
    by cases (simp add: needing_def, use cut in blast)
  show "needing cov target w' \<subseteq> needing cov target w - {q}" if "journal_run env s w = (Inr n, w')"
    using journal_run_done[OF that] update_journal_done unfolding assms(1) by (intro cut) blast
qed

lemma applied_needing:
  assumes "\<not> beyond_snapshot cov target g s"
  shows "\<not> needs_replay cov target (applied_row now g s r)"
  using assms by (simp add: needs_replay_def applied_row_def)

lemma rejected_needing: "\<not> needs_replay cov target (retried_row JournalFailed d m now r)"
  by (simp add: needs_replay_def retried_row_def)

lemma needing_ticks [simp]: "needing cov target (w\<lparr>wTicks := n\<rparr>) = needing cov target w"
  by (simp add: needing_def)

text \<open>The handlers with their awaited calls in a row.\<close>

lemma replay_entry_run:
  "replay_entry env forced r w = (case stored_payload env r of Inl e \<Rightarrow> (Inl e, w) | Inr pl \<Rightarrow>
     (case apply_mutating_operations_with_receipt env (jrRequest r) (jrHash r) (jrKind r) (plOperations pl) forced w of
        (Inl e, w1) \<Rightarrow> (Inl e, w1)
      | (Inr a, w1) \<Rightarrow> (case mark_journal_applied env (jrRequest r) (jeClock env (wTicks w1)) (apGeneration a) (apSeq a)
            (w1\<lparr>wTicks := wTicks w1 + 1\<rparr>) of (Inl e, w2) \<Rightarrow> (Inl e, w2) | (Inr _, w2) \<Rightarrow> (Inr 1, w2))))"
  by (simp add: replay_entry_def st_bind_def st_lift_def clock_def st_return_def cong: sum.case_cong prod.case_cong)

definition batch_follows :: "'d jenv \<Rightarrow> int \<Rightarrow> journal_row list \<Rightarrow> nat \<Rightarrow> ('d, nat) jdb" where
  "batch_follows env target rs n w =
    (case replay_batch env target rs w of (Inl e, v) \<Rightarrow> (Inl e, v) | (Inr m, v) \<Rightarrow> (Inr (n + m), v))"

lemma replay_batch_run:
  "replay_batch env target (r # rs) w = (case replay_entry env (Some target) r w of
     (Inr n, w1) \<Rightarrow> batch_follows env target rs n w1
   | (Inl e, w1) \<Rightarrow> (case record_replay_failure env (jrRequest r) e w1 of
        (Inl e', w2) \<Rightarrow> (Inl e', w2)
      | (Inr _, w2) \<Rightarrow> if rejected_for_good env e then batch_follows env target rs 0 w2 else (Inl e, w2)))"
  by (simp add: st_bind_def st_catch_def st_throw_def st_return_def batch_follows_def split: prod.split sum.split)

lemma record_replay_failure_pg [simp]: "wPg (snd (record_replay_failure env q e w)) = wPg w"
  by (simp add: record_replay_failure_def st_bind_run clock_def mark_journal_failed_def mark_journal_pending_def)

lemma mark_journal_applied_pg [simp]: "wPg (snd (mark_journal_applied env q now g s w)) = wPg w"
  by (simp add: mark_journal_applied_def)

lemma marked_needing:
  assumes "\<not> beyond_snapshot cov target g s"
  shows "needing cov target (snd (mark_journal_applied env q now g s w)) \<subseteq> needing cov target w"
    and "mark_journal_applied env q now g s w = (Inr n, w') \<Longrightarrow> needing cov target w' \<subseteq> needing cov target w - {q}"
  using settled_needing[where q = q and f = "applied_row now g s" and cov = cov and target = target and env = env and w = w,
      OF refl _ applied_needing[OF assms]]
  unfolding mark_journal_applied_def by (simp_all add: applied_row_def)

lemma rejection_needing:
  assumes "rejected_for_good env e" "record_replay_failure env q e w = (Inr n, w')"
  shows "needing cov target w' \<subseteq> needing cov target w - {q}"
proof -
  let ?w = "w\<lparr>wTicks := wTicks w + 1\<rparr>" and ?now = "jeClock env (wTicks w)"
  have "journal_run env (update_journal (\<lambda>r. jrRequest r = q)
      (retried_row JournalFailed TerminalRejected (journal_failure_message e) ?now)) ?w = (Inr n, w')"
    using assms by (simp add: record_replay_failure_def st_bind_run clock_def mark_journal_failed_def)
  from settled_needing(2)[OF refl _ rejected_needing this]
  have "needing cov target w' \<subseteq> needing cov target ?w - {q}" by (simp add: retried_row_def)
  then show ?thesis by simp
qed

lemma entry_done:
  assumes "restored cov target (wPg w)" "replay_entry env (Some target) r w = (res, w')"
  shows "restored cov target (wPg w')" "needing cov target w' \<subseteq> needing cov target w"
    "res = Inr n \<Longrightarrow> needing cov target w' \<subseteq> needing cov target w - {jrRequest r}"
proof -
  have "restored cov target (wPg w') \<and> needing cov target w' \<subseteq> needing cov target w
    \<and> (\<forall>n. res = Inr n \<longrightarrow> needing cov target w' \<subseteq> needing cov target w - {jrRequest r})"
  proof (cases "stored_payload env r")
    case (Inl e)
    then show ?thesis using assms by (auto simp: replay_entry_run)
  next
    case (Inr pl)
    obtain a1 w1 where run: "apply_mutating_operations_with_receipt env (jrRequest r) (jrHash r) (jrKind r) (plOperations pl) (Some target) w
        = (a1, w1)" by fastforce
    have w1: "restored cov target (wPg w1)" "wJournal w1 = wJournal w"
      using apply_restored[OF assms(1), of env "jrRequest r" "jrHash r" "jrKind r" "plOperations pl"]
        apply_journal[of env "jrRequest r" "jrHash r" "jrKind r" "plOperations pl" "Some target" w] by (simp_all add: run)
    show ?thesis
    proof (cases a1)
      case (Inl e)
      then show ?thesis using assms(2) Inr run w1 by (auto simp: replay_entry_run needing_def)
    next
      case a: (Inr a)
      let ?w2 = "w1\<lparr>wTicks := wTicks w1 + 1\<rparr>" and ?now = "jeClock env (wTicks w1)"
      obtain m w3 where mark: "mark_journal_applied env (jrRequest r) ?now (apGeneration a) (apSeq a) ?w2 = (m, w3)" by fastforce
      have "receipted (wPg w1) (jrRequest r) (apGeneration a) (apSeq a)"
        using applied_receipted[of env] run unfolding a by blast
      then have covered: "\<not> beyond_snapshot cov target (apGeneration a) (apSeq a)"
        using w1(1) by (auto simp: receipted_def restored_def)
      have "wPg w3 = wPg w1"
        using mark_journal_applied_pg[of env "jrRequest r" ?now "apGeneration a" "apSeq a" ?w2] unfolding mark by simp
      moreover have "needing cov target ?w2 = needing cov target w" using w1(2) by (simp add: needing_def)
      moreover have "needing cov target w3 \<subseteq> needing cov target ?w2"
        using marked_needing(1)[OF covered, of env "jrRequest r" ?now ?w2] unfolding mark by simp
      moreover have "m = Inr k \<Longrightarrow> needing cov target w3 \<subseteq> needing cov target ?w2 - {jrRequest r}" for k
        using marked_needing(2)[OF covered, of env "jrRequest r" ?now ?w2] unfolding mark by simp
      moreover have "w' = w3" "\<exists>k. m = Inr k" if "res = Inr n'" for n'
        using assms(2) Inr run mark that by (cases m; simp add: replay_entry_run a)+
      moreover have "w' = w3" using assms(2) Inr run mark by (cases m) (simp_all add: replay_entry_run a)
      ultimately show ?thesis using w1(1) by metis
    qed
  qed
  then show "restored cov target (wPg w')" "needing cov target w' \<subseteq> needing cov target w"
    "res = Inr n \<Longrightarrow> needing cov target w' \<subseteq> needing cov target w - {jrRequest r}" by blast+
qed

lemma batch_done:
  assumes "restored cov target (wPg w)" "replay_batch env target rs w = (res, w')"
  shows "restored cov target (wPg w')
    \<and> (\<forall>n. res = Inr n \<longrightarrow> needing cov target w' \<subseteq> needing cov target w - jrRequest ` set rs)"
  using assms
proof (induction rs arbitrary: w res w')
  case Nil
  then show ?case by (auto simp: st_simps)
next
  case (Cons r rs)
  have rest: "restored cov target (wPg w')
      \<and> (\<forall>n. res = Inr n \<longrightarrow> needing cov target w' \<subseteq> needing cov target w - jrRequest ` set (r # rs))"
    if "restored cov target (wPg v)" "needing cov target v \<subseteq> needing cov target w - {jrRequest r}"
      "batch_follows env target rs k v = (res, w')" for k v
  proof -
    obtain r2 v2 where run: "replay_batch env target rs v = (r2, v2)" by fastforce
    note IH = Cons.IH[OF that(1) run]
    show ?thesis
    proof (cases r2)
      case (Inl e)
      then show ?thesis using that(3) run IH by (auto simp: batch_follows_def)
    next
      case (Inr m)
      then have "v2 = w'" using that(3) run by (simp add: batch_follows_def)
      then show ?thesis using IH that(2) Inr by auto
    qed
  qed
  obtain r1 w1 where entry: "replay_entry env (Some target) r w = (r1, w1)" by fastforce
  note first = entry_done[OF Cons.prems(1) entry]
  show ?case
  proof (cases r1)
    case (Inr n)
    then have "batch_follows env target rs n w1 = (res, w')" using Cons.prems(2) entry by (simp add: replay_batch_run del: replay_batch.simps)
    from rest[OF first(1) first(3)[OF Inr] this] show ?thesis .
  next
    case (Inl e)
    obtain r2 w2 where failed: "record_replay_failure env (jrRequest r) e w1 = (r2, w2)" by fastforce
    have pg: "restored cov target (wPg w2)"
      using record_replay_failure_pg[of env "jrRequest r" e w1] first(1) by (simp add: failed)
    show ?thesis
    proof (cases "rejected_for_good env e \<and> (\<exists>n. r2 = Inr n)")
      case True
      then obtain n where n: "r2 = Inr n" "rejected_for_good env e" by blast
      then have "batch_follows env target rs 0 w2 = (res, w')"
        using Cons.prems(2) entry Inl failed by (simp add: replay_batch_run del: replay_batch.simps)
      moreover have "needing cov target w2 \<subseteq> needing cov target w - {jrRequest r}"
        using rejection_needing[OF n(2) failed[unfolded n(1)]] first(2) by blast
      ultimately show ?thesis using rest[OF pg] by blast
    next
      case False
      then have "w' = w2 \<and> (\<exists>e. res = Inl e)"
        using Cons.prems(2) entry Inl failed by (cases r2) (auto simp: replay_batch_run simp del: replay_batch.simps)
      then show ?thesis using pg by auto
    qed
  qed
qed

lemma oldest_subset: "set (oldest limit p rows) \<subseteq> {r \<in> set rows. p r}"
  using set_take_subset[of limit "sort_key jrCreatedAt (filter p rows)"] by (auto simp: oldest_def)

lemma load_batch:
  assumes "load_recovery_replay_batch env cov target limit w = (l, w1)"
  shows "wJournal w1 = wJournal w" "wPg w1 = wPg w" "l = Inr rows \<Longrightarrow> rows = oldest limit (needs_replay cov target) (wJournal w)"
  using assms by (auto simp: load_recovery_replay_batch_def journal_read_def Let_def split: fate.splits)

lemma loop_run:
  assumes "load_recovery_replay_batch env cov target limit w = (l, w1)"
  shows "replay_until_exhausted env cov target limit n w = (case l of Inl e \<Rightarrow> Some (Inl e, w1) | Inr rows \<Rightarrow>
    if rows = [] then Some (Inr n, w1)
    else (case replay_batch env target rows w1 of (Inl e, w2) \<Rightarrow> Some (Inl e, w2)
      | (Inr m, w2) \<Rightarrow> replay_until_exhausted env cov target limit (n + m) w2))"
  by (subst replay_until_exhausted.simps) (simp add: assms)

lemma loop_returns:
  assumes "restored cov target (wPg w)"
  shows "\<exists>r w'. replay_until_exhausted env cov target limit n w = Some (r, w')"
  using assms
proof (induction "card (needing cov target w)" arbitrary: w n rule: less_induct)
  case less
  obtain l w1 where load: "load_recovery_replay_batch env cov target limit w = (l, w1)" by fastforce
  note w1 = load_batch[OF load]
  show ?case
  proof (cases l)
    case (Inl e)
    then show ?thesis unfolding loop_run[OF load] by simp
  next
    case (Inr rows)
    obtain b w2 where batch: "replay_batch env target rows w1 = (b, w2)" by fastforce
    show ?thesis
    proof (cases "rows \<noteq> [] \<and> (\<exists>m. b = Inr m)")
      case True
      then obtain m where m: "b = Inr m" "rows \<noteq> []" by blast
      have "restored cov target (wPg w1)" using less.prems w1 by simp
      note after = batch_done[OF this batch]
      have sub: "jrRequest ` set rows \<subseteq> needing cov target w"
        using oldest_subset[of limit "needs_replay cov target" "wJournal w"] unfolding w1(3)[OF Inr] needing_def by blast
      moreover have "needing cov target w1 = needing cov target w" by (simp add: needing_def w1)
      moreover have "hd rows \<in> set rows" using m(2) by simp
      ultimately have "needing cov target w2 \<subset> needing cov target w" using after m(1) by blast
      then have "card (needing cov target w2) < card (needing cov target w)" by (rule psubset_card_mono[OF finite_needing])
      from less.hyps[OF this, of "n + m"] after show ?thesis
        unfolding loop_run[OF load] by (simp add: Inr m batch)
    next
      case False
      then show ?thesis unfolding loop_run[OF load] by (cases b) (auto simp: Inr batch)
    qed
  qed
qed

lemma prepared_receipts: "pgReceipts (wPg (snd (prepare_recovery env cov target w))) = pgReceipts (wPg w)"
proof -
  have "pgReceipts (wPg (snd (promote_recovery_generation env cov target v))) = pgReceipts (wPg v)" for v
    unfolding promote_recovery_generation_def
    by (cases rule: pg_transaction_cases[of env "promote_body cov target" v]) (simp_all add: promote_same)
  then show ?thesis
    by (auto simp: prepare_recovery_def st_bind_run st_simps clock_def requeue_ambiguous_failed_journal_entries_def
        split: sum.split)
qed

text \<open>
  C14. A recovery of a restored database returns: under every fate of its calls, \<open>replayUntilExhausted\<close>
  leaves its \<open>while (true)\<close>, because each batch settles its rows for good or throws.
\<close>

theorem recovery_returns:
  assumes "\<forall>x \<in> set (pgReceipts (wPg w)). \<not> beyond_snapshot cov target (prGeneration x) (prSeq x)"
  shows "\<exists>r w'. complete_recovery_replay env cov target limit w = Some (r, w')"
proof -
  obtain l w1 where prep: "prepare_recovery env cov target w = (l, w1)" by fastforce
  then have "restored cov target (wPg w1)"
    using prepared_receipts[of env cov target w] assms by (simp add: restored_def)
  from loop_returns[OF this, of env limit 0] obtain r w' where
    "replay_until_exhausted env cov target limit 0 w1 = Some (r, w')" by blast
  then show ?thesis
    using prep by (cases l; cases r) (simp_all add: complete_recovery_replay_def split_paired_Ex[symmetric])
qed

section \<open>What a recovery restores\<close>

definition recovered_row :: "coverage \<Rightarrow> int \<Rightarrow> 'd pg \<Rightarrow> journal_row \<Rightarrow> bool" where
  "recovered_row cov target p r \<longleftrightarrow> (jrStatus r = JournalApplied \<and> \<not> needs_replay cov target r \<longrightarrow>
     (\<exists>x \<in> set (pgReceipts p). prRequest x = jrRequest r))"

interpretation recovered: row_law "recovered_row cov target" for cov target
  by unfold_locales (auto simp: recovered_row_def applied_row_def receipted_def)

text \<open>No handler but the removal of covered rows forgets a request.\<close>

definition remembers :: "'d world \<Rightarrow> 'd world \<Rightarrow> bool" where
  "remembers w w' \<longleftrightarrow> jrRequest ` set (wJournal w) \<subseteq> jrRequest ` set (wJournal w')"

lemma remembers_update:
  assumes "\<And>r. jrRequest (f r) = jrRequest r"
  shows "remembers w (snd (journal_run env (update_journal p f) w))"
proof -
  have "jrRequest ` set (update_rows p f rows) = jrRequest ` set rows" for rows
    using map_update_rows[of jrRequest f p rows] assms by (metis list.set_map)
  then show ?thesis
    using journal_run_journal[of env "update_journal p f" w] update_journal_done[of p f "wJournal w"]
    by (auto simp: remembers_def)
qed

lemma remembers_insert: "remembers w (snd (journal_run env (insert_pending q hash kind n ciphertext now) w))"
  using journal_run_journal[of env "insert_pending q hash kind n ciphertext now" w]
    insert_pending_done[of q hash kind n ciphertext now "wJournal w"]
  by (fastforce simp: remembers_def)

interpretation memory: write_effect remembers env for env
proof
  show "remembers w w" for w :: "'a world" by (simp add: remembers_def)
  show "remembers a b \<Longrightarrow> remembers b c \<Longrightarrow> remembers a c" for a b c :: "'a world" by (simp add: remembers_def)
  show "remembers w (w\<lparr>wTicks := i\<rparr>)" "remembers w (w\<lparr>wUuids := i\<rparr>)" "remembers w (w\<lparr>wNonces := i\<rparr>)"
    "remembers w (w\<lparr>wD1Calls := i\<rparr>)" for w :: "'a world" and i by (simp_all add: remembers_def)
  show "st_pres remembers (pg_transaction env (apply_body env now q hash kind ops forced))" for now q hash kind ops forced
    by (simp add: st_pres_def remembers_def)
  show "st_pres remembers (promote_recovery_generation env cov target)" for cov target
    by (simp add: st_pres_def remembers_def promote_recovery_generation_def)
  show "st_pres remembers (get_current_receipt_watermark env)"
    by (simp add: st_pres_def remembers_def watermark_idle)
qed (simp_all add: st_pres_def journal_calls remembers_insert remembers_update retried_row_def applied_row_def)

lemma finish_done:
  assumes "finish_recovery env cov target n w = (Inr a, w')"
  shows "raPending a = count_rows (outstanding cov target) (wJournal w)" "wJournal w' = wJournal w" "wPg w' = wPg w"
proof -
  obtain l w1 where read: "count_recovery_replay_pending env cov target w = (l, w1)" by fastforce
  have w1: "wJournal w1 = wJournal w" "wPg w1 = wPg w" "l = Inr m \<Longrightarrow> m = count_rows (outstanding cov target) (wJournal w)" for m
    using read by (auto simp: count_recovery_replay_pending_def journal_read_def Let_def split: fate.splits)
  obtain g w2 where mark: "get_current_receipt_watermark env w1 = (g, w2)" by fastforce
  have "wJournal w2 = wJournal w" "wPg w2 = wPg w" using watermark_idle[of env w1] mark w1 by simp_all
  moreover obtain m gs where "l = Inr m" "g = Inr gs" "a = \<lparr>raGeneration = fst gs, raSeq = snd gs, raReplayed = n, raPending = m\<rparr>" "w' = w2"
    using assms read mark by (cases l; cases g) (auto simp: finish_recovery_def st_bind_def st_return_def split: prod.splits)
  ultimately show "raPending a = count_rows (outstanding cov target) (wJournal w)" "wJournal w' = wJournal w" "wPg w' = wPg w"
    using w1 by simp_all
qed

lemma complete_finishes:
  assumes "complete_recovery_replay env cov target limit w = Some (Inr a, w')"
  obtains n w2 where "finish_recovery env cov target n w2 = (Inr a, w')"
  using assms by (auto simp: complete_recovery_replay_def split: prod.splits sum.splits option.splits)

text \<open>
  A recovery that answers with nothing pending has restored every write: each request the journal held
  has a receipt in PostgreSQL or was rejected for good, given that the snapshot contains the applied
  rows it is said to cover.
\<close>

lemma replay_restores_every_write:
  assumes "complete_recovery_replay env cov target limit w = Some (Inr a, w')" "raPending a = 0"
    and "\<forall>r \<in> set (wJournal w). jrStatus r = JournalApplied \<and> \<not> needs_replay cov target r \<longrightarrow>
      (\<exists>x \<in> set (pgReceipts (wPg w)). prRequest x = jrRequest r)"
  shows "\<forall>r \<in> set (wJournal w). \<exists>r' \<in> set (wJournal w'). jrRequest r' = jrRequest r
    \<and> (jrStatus r' = JournalFailed \<and> jrDisposition r' = TerminalRejected
       \<or> (\<exists>x \<in> set (pgReceipts (wPg w')). prRequest x = jrRequest r))"
proof
  fix r assume "r \<in> set (wJournal w)"
  then obtain r' where r': "r' \<in> set (wJournal w')" "jrRequest r' = jrRequest r"
    using memory.recovery[OF assms(1)] unfolding remembers_def by (metis imageE imageI subsetD)
  have "\<forall>r \<in> set (wJournal w). recovered_row cov target (wPg w) r" using assms(3) by (simp add: recovered_row_def)
  from recovered.kept[OF steps.recovery[OF assms(1)] this] r'(1) have row: "recovered_row cov target (wPg w') r'" by blast
  obtain n w2 where "finish_recovery env cov target n w2 = (Inr a, w')" using complete_finishes[OF assms(1)] .
  from finish_done[OF this] assms(2) r'(1) have "\<not> outstanding cov target r'" by (simp add: count_rows_0)
  then have "jrStatus r' = JournalFailed \<and> jrDisposition r' = TerminalRejected \<or> jrStatus r' = JournalApplied \<and> \<not> needs_replay cov target r'"
    by (cases "jrStatus r'"; cases "jrDisposition r'") (auto simp: outstanding_def needs_replay_def)
  then show "\<exists>r' \<in> set (wJournal w'). jrRequest r' = jrRequest r
    \<and> (jrStatus r' = JournalFailed \<and> jrDisposition r' = TerminalRejected
       \<or> (\<exists>x \<in> set (pgReceipts (wPg w')). prRequest x = jrRequest r))"
    using row r' unfolding recovered_row_def by metis
qed

section \<open>When it does not\<close>

lemma replay_nothing:
  assumes "jeD1Fate env = (\<lambda>_. Reaches)" "\<forall>r \<in> set (wJournal w). \<not> needs_replay cov target r"
  shows "replay_until_exhausted env cov target limit n w = Some (Inr n, w\<lparr>wD1Calls := wD1Calls w + 1\<rparr>)"
proof -
  have "oldest limit (needs_replay cov target) (wJournal w) = []"
    using assms(2) oldest_subset[of limit "needs_replay cov target" "wJournal w"] by (metis (no_types, lifting) empty_iff list.set(1) mem_Collect_eq set_empty subset_empty subsetI subset_iff)
  then have "load_recovery_replay_batch env cov target limit w = (Inr [], w\<lparr>wD1Calls := wD1Calls w + 1\<rparr>)"
    using assms(1) by (simp add: load_recovery_replay_batch_def journal_read_def)
  then show ?thesis by (simp add: loop_run)
qed

lemma requeue_none:
  assumes "jeD1Fate env = (\<lambda>_. Reaches)" "\<forall>r \<in> set (wJournal w). \<not> requeueable r"
  shows "requeue_ambiguous_failed_journal_entries env now w = (Inr 0, w\<lparr>wD1Calls := wD1Calls w + 1\<rparr>)"
proof -
  have "count_rows requeueable (wJournal w) = 0" using assms(2) by (simp add: count_rows_0)
  then show ?thesis
    using assms by (simp add: requeue_ambiguous_failed_journal_entries_def journal_run_def update_journal_def update_rows_none)
qed

text \<open>
  C33. A recovery that is resumed after an interrupted one loses writes: when the first attempt has marked
  the rows with the target generation and PostgreSQL is restored once more from the same snapshot, the
  second attempt replays nothing, counts nothing as outstanding and answers with the target generation,
  while PostgreSQL has the data of the snapshot.
\<close>

theorem resumed_recovery_loses_writes:
  assumes "complete_recovery_replay env cov target limit w0 = Some (r0, w1)"
    and "\<forall>r \<in> set (wJournal w1). jrStatus r = JournalApplied \<and> jrGeneration r = Some target \<and> jrSeq r \<noteq> None"
    and "w = w1\<lparr>wPg := wPg w0\<rparr>" "pgGeneration (wPg w0) = Some (cvGeneration cov)"
    and "cvWatermark cov \<le> watermark (pgReceipts (wPg w0))" "jePgFate env = (\<lambda>_. Reaches)" "jeD1Fate env = (\<lambda>_. Reaches)"
    and "jeAvailable env" "jeHasKey env"
  shows "\<exists>w'. complete_recovery_replay env cov target limit w
      = Some (Inr \<lparr>raGeneration = target, raSeq = watermark (pgReceipts (wPg w0)), raReplayed = 0, raPending = 0\<rparr>, w')
    \<and> pgData (wPg w') = pgData (wPg w0) \<and> pgReceipts (wPg w') = pgReceipts (wPg w0)"
proof -
  have rows: "\<forall>r \<in> set (wJournal w). \<not> needs_replay cov target r \<and> \<not> outstanding cov target r \<and> jrStatus r \<noteq> JournalFailed"
    using assms(2,3) by (auto simp: needs_replay_def outstanding_def beyond_snapshot_def)
  then have unfailed: "\<forall>r \<in> set (wJournal w). \<not> requeueable r" by (simp add: requeueable_def)
  let ?p = "(wPg w)\<lparr>pgGeneration := Some target\<rparr>"
  obtain w2 where prep: "prepare_recovery env cov target w = (Inr (), w2)" "wJournal w2 = wJournal w" "wPg w2 = ?p"
  proof
    let ?w1 = "w\<lparr>wTicks := wTicks w + 1, wD1Calls := wD1Calls w + 1\<rparr>"
    have "promote_recovery_generation env cov target ?w1 = (Inr (), ?w1\<lparr>wPgCalls := wPgCalls w + 1, wPg := ?p\<rparr>)"
      using assms(3-6) by (simp add: promote_recovery_generation_def pg_transaction_def promote_body_def)
    then show "prepare_recovery env cov target w = (Inr (), ?w1\<lparr>wPgCalls := wPgCalls w + 1, wPg := ?p\<rparr>)"
      using assms(7-9) rows unfailed requeue_none[of env "w\<lparr>wTicks := wTicks w + 1\<rparr>"]
      by (simp add: prepare_recovery_def st_bind_run st_simps clock_def)
  qed simp_all
  have pending: "count_rows (outstanding cov target) (wJournal w2) = 0" using rows prep(2) by (simp add: count_rows_0)
  have "replay_until_exhausted env cov target limit 0 w2 = Some (Inr 0, w2\<lparr>wD1Calls := wD1Calls w2 + 1\<rparr>)"
    using replay_nothing[of env w2] rows assms(7) prep(2) by simp
  moreover have "finish_recovery env cov target 0 (w2\<lparr>wD1Calls := wD1Calls w2 + 1\<rparr>)
    = (Inr \<lparr>raGeneration = target, raSeq = watermark (pgReceipts (wPg w0)), raReplayed = 0, raPending = 0\<rparr>,
       w2\<lparr>wD1Calls := wD1Calls w2 + 2, wPgCalls := wPgCalls w2 + 1\<rparr>)"
    using assms(3,6,7) prep(3) pending
    by (simp add: finish_recovery_def st_bind_run st_simps count_recovery_replay_pending_def journal_read_def
        get_current_receipt_watermark_def pg_transaction_def)
  ultimately show ?thesis using prep assms(3) by (simp add: complete_recovery_replay_def)
qed

section \<open>A write and its answers\<close>

lemma swallowed_run: "swallowed m w = (Inr (), snd (m w))"
  by (cases "m w"; cases "fst (m w)") (auto simp: swallowed_def st_catch_def st_bind_def st_return_def)

lemma updated_row:
  assumes "r \<in> set (wJournal w)" "jrRequest r = q"
  shows "r \<in> set (wJournal (snd (journal_run env (update_journal (\<lambda>r. jrRequest r = q) f) w)))
    \<or> f r \<in> set (wJournal (snd (journal_run env (update_journal (\<lambda>r. jrRequest r = q) f) w)))"
  using journal_run_journal[of env "update_journal (\<lambda>r. jrRequest r = q) f" w]
    update_journal_done[of "\<lambda>r. jrRequest r = q" f "wJournal w"] assms
  by (auto simp: set_update_rows)

text \<open>The answer of a claim by a request without a receipt.\<close>

lemma claim_fresh:
  assumes "prRequest r \<notin> prRequest ` set (pgReceipts p)" "fst (claim_and_run env r ops p) = Inr a"
  shows "pgReceipts (snd (claim_and_run env r ops p)) = pgReceipts p @ [r]"
    and "run_operations env ops (pgData p) = Inr (apResults a, pgData (snd (claim_and_run env r ops p)))"
proof -
  have "List.find (\<lambda>x. prRequest x = prRequest r) (pgReceipts p) = None"
    using assms(1) unfolding find_None_iff by (metis image_eqI)
  then have "receipt_check r" "\<not> (\<exists>x \<in> set (pgReceipts p). prRequest x = prRequest r \<or> prSeq x = prSeq r)"
    using assms(2) by (auto simp: claim_and_run_def Let_def split: if_splits)
  then show "pgReceipts (snd (claim_and_run env r ops p)) = pgReceipts p @ [r]"
    "run_operations env ops (pgData p) = Inr (apResults a, pgData (snd (claim_and_run env r ops p)))"
    using assms(2) by (cases "run_operations env ops (pgData p)"; auto simp: claim_and_run_def Let_def)+
qed

lemma apply_body_claims:
  assumes "fst (apply_body env t q hash kind ops forced p) = Inr a"
  shows "\<exists>r. prRequest r = q \<and> apply_body env t q hash kind ops forced p = claim_and_run env r ops p"
proof (cases "pgGeneration p")
  case (Some current)
  define r where "r = \<lparr>prSeq = pgNextSeq p, prGeneration = (case forced of None \<Rightarrow> current | Some g \<Rightarrow> g), prRequest = q,
      prHash = hash, prKind = kind, prCount = length ops, prAppliedAt = t\<rparr>"
  have "apply_body env t q hash kind ops forced p = claim_and_run env r ops p"
    using assms Some by (simp add: apply_body_def Let_def r_def split: if_splits)
  moreover have "prRequest r = q" by (simp add: r_def)
  ultimately show ?thesis by blast
qed (use assms in \<open>simp add: apply_body_def\<close>)

lemma apply_fresh:
  assumes "q \<notin> prRequest ` set (pgReceipts p)" "fst (apply_body env t q hash kind ops forced p) = Inr a"
  shows "\<exists>x. prRequest x = q \<and> pgReceipts (snd (apply_body env t q hash kind ops forced p)) = pgReceipts p @ [x]"
    and "run_operations env ops (pgData p) = Inr (apResults a, pgData (snd (apply_body env t q hash kind ops forced p)))"
proof -
  obtain r where r: "prRequest r = q" "apply_body env t q hash kind ops forced p = claim_and_run env r ops p"
    using apply_body_claims[OF assms(2)] by blast
  note claim = claim_fresh[of r p env ops a]
  show "\<exists>x. prRequest x = q \<and> pgReceipts (snd (apply_body env t q hash kind ops forced p)) = pgReceipts p @ [x]"
    "run_operations env ops (pgData p) = Inr (apResults a, pgData (snd (apply_body env t q hash kind ops forced p)))"
    using claim assms r by auto
qed

definition ran_once :: "'d jenv \<Rightarrow> ustr \<Rightarrow> sql_operation list \<Rightarrow> nat list \<Rightarrow> 'd pg \<Rightarrow> 'd pg \<Rightarrow> bool" where
  "ran_once env q ops ns p p' \<longleftrightarrow> run_operations env ops (pgData p) = Inr (ns, pgData p')
     \<and> (\<exists>x. prRequest x = q \<and> pgReceipts p' = pgReceipts p @ [x])"

definition did_nothing :: "'d pg \<Rightarrow> 'd pg \<Rightarrow> bool" where
  "did_nothing p p' \<longleftrightarrow> pgData p' = pgData p \<and> pgReceipts p' = pgReceipts p"

lemma apply_outcomes:
  assumes "apply_mutating_operations_with_receipt env q hash kind ops forced w = (res, w')" "q \<notin> prRequest ` set (pgReceipts (wPg w))"
  shows "(\<exists>e. res = Inl e) \<and> did_nothing (wPg w) (wPg w')
    \<or> (\<exists>a. (res = Inr a \<or> (\<exists>e. res = Inl e)) \<and> ran_once env q ops (apResults a) (wPg w) (wPg w'))"
proof -
  let ?w = "w\<lparr>wTicks := wTicks w + 1\<rparr>" and ?body = "apply_body env (jeClock env (wTicks w)) q hash kind ops forced"
  have run: "pg_transaction env ?body ?w = (res, w')"
    using assms(1) by (simp add: apply_mutating_operations_with_receipt_def st_bind_def clock_def)
  show ?thesis
  proof (cases rule: pg_transaction_cases[of env ?body ?w])
    case (committed a)
    then have "ran_once env q ops (apResults a) (wPg w) (wPg w')"
      using apply_fresh[OF assms(2), of env "jeClock env (wTicks w)" hash kind ops forced a] run by (simp add: ran_once_def)
    then show ?thesis using committed(3) run by auto
  qed (use run in \<open>auto simp: did_nothing_def\<close>)
qed

lemma write_failed_run:
  "write_failed env q e w = (Inl e, snd ((if \<not> is_terminal_postgres_write_rejection env e \<and> is_ambiguous_postgres_write_error env e
       then mark_journal_pending env q (journal_failure_message e) (jeClock env (wTicks w))
       else mark_journal_failed env q (journal_failure_message e)
         (if is_terminal_postgres_write_rejection env e then TerminalRejected else Blocking) (jeClock env (wTicks w)))
     (w\<lparr>wTicks := wTicks w + 1\<rparr>)))"
  unfolding write_failed_def Let_def st_bind_def[of "swallowed _"] swallowed_run st_throw_def
  by (simp add: st_bind_def clock_def cong: if_cong)

lemma write_failed_pg: "write_failed env q e w = (res, v) \<Longrightarrow> wPg v = wPg w"
  by (auto simp: write_failed_run mark_journal_pending_def mark_journal_failed_def)

text \<open>A failure that may have run leaves its row for the replay.\<close>

definition awaits :: "'d jenv \<Rightarrow> failure \<Rightarrow> journal_row \<Rightarrow> bool" where
  "awaits env e r \<longleftrightarrow> jrStatus r = JournalPending
     \<or> jrStatus r = JournalFailed \<and> (is_terminal_postgres_write_rejection env e \<or> \<not> is_ambiguous_postgres_write_error env e)"

lemma write_failed_awaits:
  assumes "write_failed env q e w = (res, v)" "r \<in> set (wJournal w)" "jrRequest r = q" "jrStatus r = JournalPending"
  shows "\<exists>r' \<in> set (wJournal v). jrRequest r' = q \<and> jrCiphertext r' = jrCiphertext r \<and> awaits env e r'"
proof -
  let ?now = "jeClock env (wTicks w)" and ?w = "w\<lparr>wTicks := wTicks w + 1\<rparr>" and ?m = "journal_failure_message e"
  let ?rejected = "is_terminal_postgres_write_rejection env e" and ?ambiguous = "is_ambiguous_postgres_write_error env e"
  have r: "r \<in> set (wJournal ?w)" using assms(2) by simp
  define status d where "status = (if \<not> ?rejected \<and> ?ambiguous then JournalPending else JournalFailed)"
    and "d = (if \<not> ?rejected \<and> ?ambiguous then Blocking else if ?rejected then TerminalRejected else Blocking)"
  have "v = snd (journal_run env (update_journal (\<lambda>r. jrRequest r = q) (retried_row status d ?m ?now)) ?w)"
    using assms(1) by (simp add: write_failed_run mark_journal_pending_def mark_journal_failed_def status_def d_def split: if_splits)
  then have "r \<in> set (wJournal v) \<or> retried_row status d ?m ?now r \<in> set (wJournal v)"
    using updated_row[OF r assms(3), of env "retried_row status d ?m ?now"] by simp
  moreover have "awaits env e (retried_row status d ?m ?now r)" by (auto simp: awaits_def retried_row_def status_def)
  moreover have "jrRequest (retried_row status d ?m ?now r) = q" "jrCiphertext (retried_row status d ?m ?now r) = jrCiphertext r"
    using assms(3) by (simp_all add: retried_row_def)
  ultimately show ?thesis using assms(3,4) unfolding awaits_def by blast
qed

lemma insert_journals:
  assumes "insert_pending q (jtHash p) kind (jtCount p) c now rows = Inr (n, rows')"
    "p = build_journal_payload (jeSha256 env) q kind ops" "c = encrypt_recovery_string (jeAead env) nonce (jtJson p)"
  shows "\<exists>r. rows' = rows @ [r] \<and> journals env nonce q kind ops r \<and> jrStatus r = JournalPending"
  using assms by (auto simp: insert_pending_def journals_def Let_def split: if_splits)

lemma journalled_outcomes:
  assumes "run_journalled env q hash kind ops w = (res, w')" "q \<notin> prRequest ` set (pgReceipts (wPg w))"
    and "r \<in> set (wJournal w)" "jrRequest r = q" "jrStatus r = JournalPending"
  shows "(\<exists>e. res = Inl e) \<and> did_nothing (wPg w) (wPg w')
    \<or> (\<exists>ns. ran_once env q ops ns (wPg w) (wPg w')
        \<and> (\<exists>r' \<in> set (wJournal w'). jrRequest r' = q \<and> jrCiphertext r' = jrCiphertext r
            \<and> (res = Inr ns \<and> jrStatus r' \<noteq> JournalFailed \<or> (\<exists>e. res = Inl e \<and> awaits env e r'))))"
proof -
  obtain l w1 where run: "apply_mutating_operations_with_receipt env q hash kind ops None w = (l, w1)" by fastforce
  have journal: "wJournal w1 = wJournal w" using apply_journal[of env q hash kind ops None w] by (simp add: run)
  note outcome = apply_outcomes[OF run assms(2)]
  show ?thesis
  proof (cases l)
    case (Inl e)
    then have failed: "write_failed env q e w1 = (res, w')"
      using assms(1) run unfolding run_journalled_def st_catch_def st_bind_def[of "apply_mutating_operations_with_receipt _ _ _ _ _ _"]
      by simp
    then have fin: "res = Inl e" by (simp add: write_failed_run)
    have pg: "wPg w' = wPg w1" by (rule write_failed_pg[OF failed])
    have "\<exists>r' \<in> set (wJournal w'). jrRequest r' = q \<and> jrCiphertext r' = jrCiphertext r \<and> awaits env e r'"
      using write_failed_awaits[OF failed _ assms(4,5)] assms(3) by (simp add: journal)
    then show ?thesis using outcome Inl unfolding pg fin by blast
  next
    case (Inr a)
    let ?w = "w1\<lparr>wTicks := wTicks w1 + 1\<rparr>" and ?f = "applied_row (jeClock env (wTicks w1)) (apGeneration a) (apSeq a)"
    have fin: "res = Inr (apResults a)" "w' = snd (mark_journal_applied env q (jeClock env (wTicks w1)) (apGeneration a) (apSeq a) ?w)"
      using assms(1) run Inr unfolding run_journalled_def st_catch_def st_bind_def[of "apply_mutating_operations_with_receipt _ _ _ _ _ _"]
        st_bind_def[of "swallowed _"]
      by (simp_all add: swallowed_run st_return_def st_bind_def clock_def)
    have pg: "wPg w' = wPg w1" by (simp add: fin(2))
    have "r \<in> set (wJournal ?w)" using assms(3) by (simp add: journal)
    from updated_row[OF this assms(4), of env ?f] have "r \<in> set (wJournal w') \<or> ?f r \<in> set (wJournal w')"
      by (simp add: fin(2) mark_journal_applied_def)
    moreover have "jrRequest (?f r) = q" "jrCiphertext (?f r) = jrCiphertext r" "jrStatus (?f r) \<noteq> JournalFailed"
      using assms(4) by (simp_all add: applied_row_def)
    ultimately have "\<exists>r' \<in> set (wJournal w'). jrRequest r' = q \<and> jrCiphertext r' = jrCiphertext r \<and> jrStatus r' \<noteq> JournalFailed"
      using assms(4,5) by auto
    then show ?thesis using outcome Inr unfolding pg fin(1) by auto
  qed
qed

lemma execute_run:
  assumes "\<not> jeDisabled env"
  shows "execute_mutating_operations env kind ops w =
    (let q = jeUuid env (wUuids w); p = build_journal_payload (jeSha256 env) q kind ops;
       c = encrypt_recovery_string (jeAead env) (jeNonce env (wNonces w)) (jtJson p);
       w1 = w\<lparr>wUuids := wUuids w + 1, wNonces := wNonces w + 1\<rparr> in
     if \<not> jeAvailable env then (Inl (fails ''PostgreSQL writes are blocked because the D1 recovery journal is unavailable.''), w)
     else if \<not> jeHasKey env then (Inl (fails ''PostgreSQL writes are blocked because CPOLY_BACKUP_MASTER_KEY is missing.''), w)
     else if jeMaxBytes env < length c
     then (Inl (fails ''PostgreSQL recovery journal payload exceeded the configured D1 cap.''), w1)
     else (case insert_pending_journal_entry env q (jtHash p) kind (jtCount p) c (jeClock env (wTicks w)) (w1\<lparr>wTicks := wTicks w + 1\<rparr>) of
         (Inl e, w2) \<Rightarrow> (Inl e, w2) | (Inr _, w2) \<Rightarrow> run_journalled env q (jtHash p) kind ops w2))"
  using assms by (simp add: execute_mutating_operations_def st_bind_def st_ensure_def st_return_def st_throw_def
      request_id_def fresh_nonce_def clock_def Let_def not_le cong: if_cong)

text \<open>
  C9. The answers of a write, under every fate of its calls. It fails and has changed nothing; or it has run
  exactly once, with one new receipt, and the journal holds its encrypted statements: then it answers the
  results, or an error (the answer was lost) that leaves the row to the replay unless PostgreSQL is known
  not to answer that way for a write that ran.
\<close>

theorem write_outcomes:
  assumes "execute_mutating_operations env kind ops w = (res, w')" "\<not> jeDisabled env"
    and "jeUuid env (wUuids w) \<notin> prRequest ` set (pgReceipts (wPg w))"
  shows "(\<exists>e. res = Inl e) \<and> did_nothing (wPg w) (wPg w')
    \<or> (\<exists>ns. ran_once env (jeUuid env (wUuids w)) ops ns (wPg w) (wPg w')
        \<and> (\<exists>r \<in> set (wJournal w'). jrRequest r = jeUuid env (wUuids w)
            \<and> jrCiphertext r = encrypt_recovery_string (jeAead env) (jeNonce env (wNonces w))
                (jtJson (build_journal_payload (jeSha256 env) (jeUuid env (wUuids w)) kind ops))
            \<and> (res = Inr ns \<and> jrStatus r \<noteq> JournalFailed \<or> (\<exists>e. res = Inl e \<and> awaits env e r))))"
proof -
  let ?q = "jeUuid env (wUuids w)" and ?nonce = "jeNonce env (wNonces w)"
  let ?p = "build_journal_payload (jeSha256 env) ?q kind ops"
  let ?c = "encrypt_recovery_string (jeAead env) ?nonce (jtJson ?p)" and ?now = "jeClock env (wTicks w)"
  let ?w1 = "w\<lparr>wUuids := wUuids w + 1, wNonces := wNonces w + 1, wTicks := wTicks w + 1\<rparr>"
  obtain l w2 where ins: "insert_pending_journal_entry env ?q (jtHash ?p) kind (jtCount ?p) ?c ?now ?w1 = (l, w2)" by fastforce
  have pg: "wPg w2 = wPg w"
    using journal_run_pg[of env "insert_pending ?q (jtHash ?p) kind (jtCount ?p) ?c ?now" ?w1]
    unfolding ins[unfolded insert_pending_journal_entry_def] by simp
  show ?thesis
  proof (cases "jeAvailable env \<and> jeHasKey env \<and> length ?c \<le> jeMaxBytes env")
    case False
    then have "(\<exists>e. res = Inl e) \<and> wPg w' = wPg w"
      using assms(1) unfolding execute_run[OF assms(2)] Let_def by (auto split: if_splits)
    then show ?thesis by (simp add: did_nothing_def)
  next
    case True
    then have step: "(case (l, w2) of (Inl e, w2) \<Rightarrow> (Inl e, w2) | (Inr _, w2) \<Rightarrow> run_journalled env ?q (jtHash ?p) kind ops w2) = (res, w')"
      using assms(1) ins unfolding execute_run[OF assms(2)] Let_def by simp
    show ?thesis
    proof (cases l)
      case (Inl e)
      then show ?thesis using step pg by (auto simp: did_nothing_def)
    next
      case (Inr n)
      have "insert_pending ?q (jtHash ?p) kind (jtCount ?p) ?c ?now (wJournal w) = Inr (n, wJournal w2)"
        using journal_run_done ins unfolding insert_pending_journal_entry_def Inr by force
      from insert_journals[OF this refl refl] obtain r where "wJournal w2 = wJournal w @ [r]" "journals env ?nonce ?q kind ops r"
        "jrStatus r = JournalPending" by blast
      then have r: "r \<in> set (wJournal w2)" "jrRequest r = ?q" "jrStatus r = JournalPending" "jrCiphertext r = ?c"
        by (simp_all add: journals_def Let_def)
      from step Inr have "run_journalled env ?q (jtHash ?p) kind ops w2 = (res, w')" by simp
      from journalled_outcomes[OF this _ r(1-3)] show ?thesis using assms(3) unfolding r(4) pg by simp
    qed
  qed
qed

section \<open>When they go wrong\<close>

lemma apply_body_run:
  "pgGeneration p = Some g \<Longrightarrow> forced = None \<or> forced = Some g \<Longrightarrow> apply_body env t q hash kind ops forced p =
    claim_and_run env \<lparr>prSeq = pgNextSeq p, prGeneration = g, prRequest = q, prHash = hash, prKind = kind,
      prCount = length ops, prAppliedAt = t\<rparr> ops p"
  by (auto simp: apply_body_def Let_def)

lemma claim_repeated:
  assumes "receipt_check r" "List.find (\<lambda>x. prRequest x = prRequest r) (pgReceipts p) = Some x"
    and "prHash x = prHash r" "prKind x = prKind r" "prCount x = length ops"
  shows "claim_and_run env r ops p = (Inr \<lparr>apResults = replicate (length ops) 0, apGeneration = prGeneration x, apSeq = prSeq x\<rparr>,
    p\<lparr>pgNextSeq := pgNextSeq p + 1\<rparr>)"
  using assms find_SomeD[OF assms(2)] by (auto simp: claim_and_run_def Let_def)

lemma replay_entry_pg:
  assumes "stored_payload env r = Inr pl"
    "apply_mutating_operations_with_receipt env (jrRequest r) (jrHash r) (jrKind r) (plOperations pl) forced w = (Inr a, w1)"
  shows "wPg (snd (replay_entry env forced r w)) = wPg w1"
proof -
  let ?w = "w1\<lparr>wTicks := wTicks w1 + 1\<rparr>" and ?now = "jeClock env (wTicks w1)"
  obtain m w2 where mark: "mark_journal_applied env (jrRequest r) ?now (apGeneration a) (apSeq a) ?w = (m, w2)" by fastforce
  have "wPg w2 = wPg w1"
    using mark_journal_applied_pg[of env "jrRequest r" ?now "apGeneration a" "apSeq a" ?w] unfolding mark by simp
  moreover have "snd (replay_entry env forced r w) = w2"
    using assms mark by (cases m) (simp_all add: replay_entry_run)
  ultimately show ?thesis by simp
qed

text \<open>
  C35. A write can answer that it changed nothing although it did: when the scheduled replay runs the pending
  row of a write that is still on its way, the claim of the write finds the receipt of the replay, and
  every statement is answered with zero changes.
\<close>

theorem overtaken_write_answers_zero:
  assumes "stored_payload env r = Inr pl" "length ops = jrCount r" "jePgFate env = (\<lambda>_. Reaches)"
    and "jrRequest r \<notin> prRequest ` set (pgReceipts (wPg w))"
    and "fst (apply_mutating_operations_with_receipt env (jrRequest r) (jrHash r) (jrKind r) (plOperations pl) None w) = Inr a"
  shows "let w1 = snd (replay_entry env None r w); (answer, w2) = run_journalled env (jrRequest r) (jrHash r) (jrKind r) ops w1 in
    run_operations env (plOperations pl) (pgData (wPg w)) = Inr (apResults a, pgData (wPg w1))
    \<and> answer = Inr (replicate (length ops) 0) \<and> pgData (wPg w2) = pgData (wPg w1)"
proof -
  obtain w1 where run: "apply_mutating_operations_with_receipt env (jrRequest r) (jrHash r) (jrKind r) (plOperations pl) None w = (Inr a, w1)"
    using assms(5) by (metis prod.collapse)
  let ?t = "jeClock env (wTicks w)" and ?w1 = "snd (replay_entry env None r w)"
  have pg: "wPg ?w1 = wPg w1"
    by (rule replay_entry_pg[OF assms(1) run])
  have n: "length (plOperations pl) = length ops" using assms(1,2) by (auto simp: stored_payload_def sbind_def ensure_def split: sum.splits if_splits)
  obtain g where g: "pgGeneration (wPg w) = Some g"
    using run assms(3) by (cases "pgGeneration (wPg w)")
      (auto simp: apply_mutating_operations_with_receipt_def st_bind_def clock_def pg_transaction_def apply_body_def Let_def)
  define x where "x = (\<lambda>s t. \<lparr>prSeq = s, prGeneration = g, prRequest = jrRequest r, prHash = jrHash r, prKind = jrKind r,
      prCount = length ops, prAppliedAt = t\<rparr>)"
  let ?c = "claim_and_run env (x (pgNextSeq (wPg w)) ?t) (plOperations pl) (wPg w)"
  have c: "fst ?c = Inr a" "wPg w1 = snd ?c"
    using run assms(3) by (auto simp: apply_mutating_operations_with_receipt_def st_bind_def clock_def pg_transaction_def
        apply_body_run[OF g] Let_def n x_def split: prod.splits sum.splits)
  have fresh: "prRequest (x (pgNextSeq (wPg w)) ?t) \<notin> prRequest ` set (pgReceipts (wPg w))" using assms(4) by (simp add: x_def)
  note claim = claim_fresh[OF fresh c(1), folded c(2)]
  have "receipt_check (x (pgNextSeq (wPg w)) ?t)" using c(1) by (auto simp: claim_and_run_def Let_def split: if_splits)
  then have check: "receipt_check (x s t)" for s t by (simp add: receipt_check_def x_def)
  have "List.find (\<lambda>y. prRequest y = jrRequest r) (pgReceipts (wPg w)) = None"
    using assms(4) unfolding find_None_iff by (metis image_eqI)
  then have found: "List.find (\<lambda>y. prRequest y = prRequest (x s t)) (pgReceipts (wPg w1)) = Some (x (pgNextSeq (wPg w)) ?t)" for s t
    unfolding claim(1) by (simp add: find_append x_def)
  have g1: "pgGeneration (wPg ?w1) = Some g"
    using g c by (auto simp: pg claim_and_run_def Let_def split: if_splits option.splits sum.splits)
  have again: "apply_mutating_operations_with_receipt env (jrRequest r) (jrHash r) (jrKind r) ops None ?w1
    = (Inr \<lparr>apResults = replicate (length ops) 0, apGeneration = g, apSeq = pgNextSeq (wPg w)\<rparr>,
       ?w1\<lparr>wTicks := wTicks ?w1 + 1, wPgCalls := wPgCalls ?w1 + 1, wPg := (wPg w1)\<lparr>pgNextSeq := pgNextSeq (wPg w1) + 1\<rparr>\<rparr>)"
    using assms(3) claim_repeated[OF check[of "pgNextSeq (wPg w1)" "jeClock env (wTicks ?w1)"]
        found[of "pgNextSeq (wPg w1)" "jeClock env (wTicks ?w1)"], of ops env]
    by (simp add: apply_mutating_operations_with_receipt_def st_bind_def clock_def pg_transaction_def apply_body_run[OF g1[unfolded pg]]
        pg x_def Let_def)
  let ?w3 = "?w1\<lparr>wTicks := wTicks ?w1 + 1, wPgCalls := wPgCalls ?w1 + 1, wPg := (wPg w1)\<lparr>pgNextSeq := pgNextSeq (wPg w1) + 1\<rparr>\<rparr>"
  obtain v where "run_journalled env (jrRequest r) (jrHash r) (jrKind r) ops ?w1 = (Inr (replicate (length ops) 0), v)" "wPg v = wPg ?w3"
  proof
    let ?v = "snd (mark_journal_applied env (jrRequest r) (jeClock env (wTicks ?w3)) g (pgNextSeq (wPg w)) (?w3\<lparr>wTicks := wTicks ?w3 + 1\<rparr>))"
    show "run_journalled env (jrRequest r) (jrHash r) (jrKind r) ops ?w1 = (Inr (replicate (length ops) 0), ?v)"
      unfolding run_journalled_def st_catch_def st_bind_def[of "apply_mutating_operations_with_receipt _ _ _ _ _ _"]
        st_bind_def[of "swallowed _"] again
      by (simp add: swallowed_run st_return_def st_bind_def clock_def)
    show "wPg ?v = wPg ?w3" by simp
  qed
  then show ?thesis using claim(2) by (simp add: Let_def pg)
qed

text \<open>
  A database that was not restored: every row of the journal is applied and its receipt is still there, or
  was rejected for good and has none; and some applied row is beyond the snapshot.
\<close>

definition receipt_kept :: "'d jenv \<Rightarrow> pg_receipt list \<Rightarrow> journal_row \<Rightarrow> bool" where
  "receipt_kept env xs r \<longleftrightarrow> jrStatus r = JournalApplied \<and> journal_check r
     \<and> (\<exists>pl x. stored_payload env r = Inr pl \<and> List.find (\<lambda>y. prRequest y = jrRequest r) xs = Some x
         \<and> prHash x = jrHash r \<and> prKind x = jrKind r \<and> prCount x = jrCount r
         \<and> jrGeneration r = Some (prGeneration x) \<and> jrSeq r = Some (prSeq x))"

definition rejected_row :: "pg_receipt list \<Rightarrow> journal_row \<Rightarrow> bool" where
  "rejected_row xs r \<longleftrightarrow> jrStatus r = JournalFailed \<and> jrDisposition r = TerminalRejected \<and> jrRequest r \<notin> prRequest ` set xs"

definition unrestored :: "'d jenv \<Rightarrow> coverage \<Rightarrow> int \<Rightarrow> 'd world \<Rightarrow> bool" where
  "unrestored env cov target w \<longleftrightarrow>
     (\<forall>r \<in> set (wJournal w). receipt_kept env (pgReceipts (wPg w)) r \<or> rejected_row (pgReceipts (wPg w)) r)
     \<and> (\<exists>r \<in> set (wJournal w). needs_replay cov target r)"

lemma unrestored_same:
  "unrestored env cov target w \<Longrightarrow> wJournal w' = wJournal w \<Longrightarrow> pgReceipts (wPg w') = pgReceipts (wPg w)
    \<Longrightarrow> unrestored env cov target w'"
  by (simp add: unrestored_def)

lemma stored_payload_applied: "stored_payload env (applied_row now g s r) = stored_payload env r"
  by (simp add: stored_payload_def applied_row_def)

text \<open>To mark such a row once more with its receipt changes neither what it is nor whether it is selected.\<close>

lemma marked_again:
  assumes "receipt_kept env xs r" "List.find (\<lambda>y. prRequest y = jrRequest r) xs = Some x"
  shows "receipt_kept env xs (applied_row now (prGeneration x) (prSeq x) r)"
    "needs_replay cov target (applied_row now (prGeneration x) (prSeq x) r) = needs_replay cov target r"
    "journal_check (applied_row now (prGeneration x) (prSeq x) r)"
proof -
  have r: "jrStatus r = JournalApplied" "journal_check r" "jrGeneration r = Some (prGeneration x)" "jrSeq r = Some (prSeq x)"
    using assms by (auto simp: receipt_kept_def)
  then show check: "journal_check (applied_row now (prGeneration x) (prSeq x) r)" by (simp add: journal_check_def applied_row_def)
  show "needs_replay cov target (applied_row now (prGeneration x) (prSeq x) r) = needs_replay cov target r"
    using r by (simp add: needs_replay_def applied_row_def)
  show "receipt_kept env xs (applied_row now (prGeneration x) (prSeq x) r)"
    using assms check r unfolding receipt_kept_def stored_payload_applied by (auto simp: applied_row_def)
qed

lemma all_marked_again:
  fixes now :: int
  assumes "\<forall>r \<in> set rows. receipt_kept env xs r \<or> rejected_row xs r" "\<exists>r \<in> set rows. needs_replay cov target r"
    "List.find (\<lambda>y. prRequest y = q) xs = Some x"
  defines "mark \<equiv> applied_row now (prGeneration x) (prSeq x)"
  shows "update_journal (\<lambda>r. jrRequest r = q) mark rows
      = Inr (count_rows (\<lambda>r. jrRequest r = q) rows, update_rows (\<lambda>r. jrRequest r = q) mark rows)"
    "\<forall>r \<in> set (update_rows (\<lambda>r. jrRequest r = q) mark rows). receipt_kept env xs r \<or> rejected_row xs r"
    "\<exists>r \<in> set (update_rows (\<lambda>r. jrRequest r = q) mark rows). needs_replay cov target r"
proof -
  have same: "receipt_kept env xs r \<and> List.find (\<lambda>y. prRequest y = jrRequest r) xs = Some x" if "r \<in> set rows" "jrRequest r = q" for r
  proof -
    have "prRequest x = jrRequest r" "x \<in> set xs" using find_SomeD[OF assms(3)] that(2) by simp_all
    then have "\<not> rejected_row xs r" unfolding rejected_row_def by (metis imageI)
    then show ?thesis using assms(1,3) that by auto
  qed
  note again = marked_again[where env = env and xs = xs and x = x and now = now, folded mark_def, OF conjunct1[OF same] conjunct2[OF same]]
  show "update_journal (\<lambda>r. jrRequest r = q) mark rows
      = Inr (count_rows (\<lambda>r. jrRequest r = q) rows, update_rows (\<lambda>r. jrRequest r = q) mark rows)"
    using again(3) unfolding update_journal_def by simp
  show "\<forall>r \<in> set (update_rows (\<lambda>r. jrRequest r = q) mark rows). receipt_kept env xs r \<or> rejected_row xs r"
    using assms(1) again(1) by (auto simp: set_update_rows)
  obtain r0 where r0: "r0 \<in> set rows" "needs_replay cov target r0" using assms(2) by blast
  then have "needs_replay cov target (if jrRequest r0 = q then mark r0 else r0)" using again(2)[of r0 cov target] by simp
  then show "\<exists>r \<in> set (update_rows (\<lambda>r. jrRequest r = q) mark rows). needs_replay cov target r"
    using r0(1) unfolding set_update_rows by blast
qed

lemma kept_entry:
  assumes "unrestored env cov target w" "receipt_kept env (pgReceipts (wPg w)) r" "pgGeneration (wPg w) = Some target" "1 \<le> target"
    and "jePgFate env = (\<lambda>_. Reaches)" "jeD1Fate env = (\<lambda>_. Reaches)"
  shows "\<exists>w'. replay_entry env (Some target) r w = (Inr 1, w') \<and> unrestored env cov target w'
    \<and> pgReceipts (wPg w') = pgReceipts (wPg w) \<and> pgGeneration (wPg w') = Some target"
proof -
  obtain pl x where x: "stored_payload env r = Inr pl" "List.find (\<lambda>y. prRequest y = jrRequest r) (pgReceipts (wPg w)) = Some x"
    "prHash x = jrHash r" "prKind x = jrKind r" "prCount x = jrCount r" and check: "journal_check r"
    using assms(2) by (auto simp: receipt_kept_def)
  have len: "length (plOperations pl) = jrCount r"
    using x(1) by (auto simp: stored_payload_def sbind_def ensure_def split: sum.splits if_splits)
  let ?new = "\<lparr>prSeq = pgNextSeq (wPg w), prGeneration = target, prRequest = jrRequest r, prHash = jrHash r,
      prKind = jrKind r, prCount = length (plOperations pl), prAppliedAt = jeClock env (wTicks w)\<rparr>"
  let ?p = "(wPg w)\<lparr>pgNextSeq := pgNextSeq (wPg w) + 1\<rparr>" and ?now = "jeClock env (wTicks w + 1)"
  let ?w1 = "w\<lparr>wTicks := wTicks w + 1, wPgCalls := wPgCalls w + 1, wPg := ?p\<rparr>"
  let ?answer = "\<lparr>apResults = replicate (length (plOperations pl)) 0, apGeneration = prGeneration x, apSeq = prSeq x\<rparr>"
  have "receipt_check ?new" using check assms(4) by (simp add: receipt_check_def journal_check_def len)
  then have "claim_and_run env ?new (plOperations pl) (wPg w) = (Inr ?answer, ?p)"
    using x by (intro claim_repeated) (simp_all add: len)
  then have run: "apply_mutating_operations_with_receipt env (jrRequest r) (jrHash r) (jrKind r) (plOperations pl) (Some target) w
      = (Inr ?answer, ?w1)"
    using assms(5)
    by (simp add: apply_mutating_operations_with_receipt_def st_bind_def clock_def pg_transaction_def apply_body_run[OF assms(3)] Let_def)
  let ?rows = "update_rows (\<lambda>r'. jrRequest r' = jrRequest r) (applied_row ?now (prGeneration x) (prSeq x)) (wJournal w)"
  note again = all_marked_again[OF conjunct1[OF assms(1)[unfolded unrestored_def]] conjunct2[OF assms(1)[unfolded unrestored_def]] x(2), where now = ?now]
  obtain n where "mark_journal_applied env (jrRequest r) ?now (prGeneration x) (prSeq x) (?w1\<lparr>wTicks := wTicks w + 2\<rparr>)
      = (Inr n, ?w1\<lparr>wTicks := wTicks w + 2, wD1Calls := wD1Calls w + 1, wJournal := ?rows\<rparr>)"
    using again(1) assms(6) by (simp add: mark_journal_applied_def journal_run_def Let_def)
  then have "replay_entry env (Some target) r w
      = (Inr 1, ?w1\<lparr>wTicks := wTicks w + 2, wD1Calls := wD1Calls w + 1, wJournal := ?rows\<rparr>)"
    using x(1) run by (simp add: replay_entry_run)
  then show ?thesis using assms(3) again(2,3) by (simp add: unrestored_def)
qed

lemma kept_batch:
  assumes "jePgFate env = (\<lambda>_. Reaches)" "jeD1Fate env = (\<lambda>_. Reaches)" "1 \<le> target"
  shows "unrestored env cov target w \<Longrightarrow> \<forall>r \<in> set rs. receipt_kept env (pgReceipts (wPg w)) r \<Longrightarrow> pgGeneration (wPg w) = Some target
    \<Longrightarrow> \<exists>n w'. replay_batch env target rs w = (Inr n, w') \<and> unrestored env cov target w' \<and> pgGeneration (wPg w') = Some target"
proof (induction rs arbitrary: w)
  case Nil
  then show ?case by (simp add: st_return_def)
next
  case (Cons r rs)
  obtain v where v: "replay_entry env (Some target) r w = (Inr 1, v)" "unrestored env cov target v"
    "pgReceipts (wPg v) = pgReceipts (wPg w)" "pgGeneration (wPg v) = Some target"
    using kept_entry[OF Cons.prems(1) _ Cons.prems(3) assms(3,1,2), of r] Cons.prems(2) by auto
  obtain n w' where "replay_batch env target rs v = (Inr n, w')" "unrestored env cov target w'" "pgGeneration (wPg w') = Some target"
    using Cons.IH[OF v(2) _ v(4)] Cons.prems(2) v(3) by auto
  then show ?case using v(1) by (simp add: replay_batch_run batch_follows_def del: replay_batch.simps)
qed

lemma unrestored_spins:
  assumes "replay_until_exhausted env cov target limit n w = Some res"
  shows "\<not> (unrestored env cov target w \<and> pgGeneration (wPg w) = Some target \<and> 0 < limit \<and> 1 \<le> target
    \<and> jePgFate env = (\<lambda>_. Reaches) \<and> jeD1Fate env = (\<lambda>_. Reaches))"
proof (rule replay_until_exhausted.raw_induct
    [where P = "\<lambda>env cov target limit n w res. \<not> (unrestored env cov target w \<and> pgGeneration (wPg w) = Some target \<and> 0 < limit
      \<and> 1 \<le> target \<and> jePgFate env = (\<lambda>_. Reaches) \<and> jeD1Fate env = (\<lambda>_. Reaches))", OF _ assms], rule notI)
  fix f and env :: "'a jenv" and cov target limit n w res
  assume ih: "\<And>env (cov :: coverage) target limit n w res. f env cov target limit n w = Some res \<Longrightarrow>
        \<not> (unrestored env cov target w \<and> pgGeneration (wPg w) = Some target \<and> 0 < limit \<and> 1 \<le> target
           \<and> jePgFate env = (\<lambda>_. Reaches) \<and> jeD1Fate env = (\<lambda>_. Reaches))"
    and step: "(case load_recovery_replay_batch env cov target limit w of
       (Inl e, w1) \<Rightarrow> Some (Inl e, w1)
     | (Inr batch, w1) \<Rightarrow> if batch = [] then Some (Inr n, w1)
         else (case replay_batch env target batch w1 of (Inl e, w2) \<Rightarrow> Some (Inl e, w2)
           | (Inr m, w2) \<Rightarrow> f env cov target limit (n + m) w2)) = Some res"
    and bad: "unrestored env cov target w \<and> pgGeneration (wPg w) = Some target \<and> 0 < limit \<and> 1 \<le> target
      \<and> jePgFate env = (\<lambda>_. Reaches) \<and> jeD1Fate env = (\<lambda>_. Reaches)"
  let ?w1 = "w\<lparr>wD1Calls := wD1Calls w + 1\<rparr>" and ?batch = "oldest limit (needs_replay cov target) (wJournal w)"
  have bad': "unrestored env cov target w" "0 < limit" "pgGeneration (wPg w) = Some target" "1 \<le> target"
    "jePgFate env = (\<lambda>_. Reaches)" "jeD1Fate env = (\<lambda>_. Reaches)" using bad by blast+
  have load: "load_recovery_replay_batch env cov target limit w = (Inr ?batch, ?w1)"
    using bad'(6) by (simp add: load_recovery_replay_batch_def journal_read_def)
  have some: "?batch \<noteq> []"
  proof -
    have "filter (needs_replay cov target) (wJournal w) \<noteq> []"
      using bad'(1) by (auto simp: unrestored_def filter_empty_conv)
    then have "sort_key jrCreatedAt (filter (needs_replay cov target) (wJournal w)) \<noteq> []"
      by (metis set_empty set_sort)
    then show ?thesis using bad'(2) by (simp add: oldest_def)
  qed
  have "unrestored env cov target ?w1" by (rule unrestored_same[OF bad'(1)]) simp_all
  moreover have "\<forall>r \<in> set ?batch. receipt_kept env (pgReceipts (wPg ?w1)) r"
    using bad'(1) oldest_subset[of limit "needs_replay cov target" "wJournal w"]
    by (fastforce simp: unrestored_def rejected_row_def needs_replay_def)
  ultimately obtain m w2 where w2: "replay_batch env target ?batch ?w1 = (Inr m, w2)" "unrestored env cov target w2"
    "pgGeneration (wPg w2) = Some target"
    using kept_batch[OF bad'(5,6,4), of cov ?w1 ?batch] bad'(3) by auto
  then have "f env cov target limit (n + m) w2 = Some res" using step load some by simp
  from ih[OF this] w2(2,3) bad'(2,4-6) show False by blast
qed


section \<open>Instances\<close>

definition crashed_world :: "ustr list world" where
  "crashed_world = sample_world\<lparr>wJournal := [sample_row]\<rparr>"

lemma crashed_recovery_runs:
  "map_option (\<lambda>(r, w). (r, pgData (wPg w), map (\<lambda>r. (jrStatus r, jrGeneration r, jrSeq r)) (wJournal w)))
      (complete_recovery_replay sample_env sample_coverage 2 24 crashed_world)
    = Some (Inr \<lparr>raGeneration = 2, raSeq = 1, raReplayed = 1, raPending = 0\<rparr>, [u ''UPDATE t SET a = $1''],
        [(JournalApplied, Some 2, Some 1)])"
  by code_simp

lemma crashed_recovery:
  obtains w where "complete_recovery_replay sample_env sample_coverage 2 24 crashed_world
      = Some (Inr \<lparr>raGeneration = 2, raSeq = 1, raReplayed = 1, raPending = 0\<rparr>, w)"
    "\<forall>r \<in> set (wJournal w). jrStatus r = JournalApplied \<and> jrGeneration r = Some 2 \<and> jrSeq r = Some 1"
    "pgData (wPg w) = [u ''UPDATE t SET a = $1'']"
  using crashed_recovery_runs by auto

lemma recovery_returns_witness: "\<exists>r w'. complete_recovery_replay sample_env sample_coverage 2 24 crashed_world = Some (r, w')"
  by (rule recovery_returns) (simp add: crashed_world_def sample_world_def)

lemma crashed_recovery_restores:
  "\<exists>w'. complete_recovery_replay sample_env sample_coverage 2 24 crashed_world
      = Some (Inr \<lparr>raGeneration = 2, raSeq = 1, raReplayed = 1, raPending = 0\<rparr>, w')
    \<and> (\<exists>r' \<in> set (wJournal w'). jrRequest r' = jrRequest sample_row \<and> (jrStatus r' = JournalFailed \<and> jrDisposition r' = TerminalRejected
       \<or> (\<exists>x \<in> set (pgReceipts (wPg w')). prRequest x = jrRequest sample_row)))"
proof -
  obtain w where w: "complete_recovery_replay sample_env sample_coverage 2 24 crashed_world
      = Some (Inr \<lparr>raGeneration = 2, raSeq = 1, raReplayed = 1, raPending = 0\<rparr>, w)" by (rule crashed_recovery)
  have "\<forall>r \<in> set (wJournal crashed_world). jrStatus r = JournalPending"
    by (simp add: crashed_world_def sample_row_def Let_def)
  then show ?thesis
    using replay_restores_every_write[OF w] w by (simp add: crashed_world_def)
qed

lemma resumed_recovery_loses_writes_witness:
  "\<exists>w1 w2 a. complete_recovery_replay sample_env sample_coverage 2 24 crashed_world
      = Some (Inr \<lparr>raGeneration = 2, raSeq = 1, raReplayed = 1, raPending = 0\<rparr>, w1)
    \<and> complete_recovery_replay sample_env sample_coverage 2 24 (w1\<lparr>wPg := wPg crashed_world\<rparr>) = Some (Inr a, w2)
    \<and> raPending a = 0 \<and> pgData (wPg w1) = [u ''UPDATE t SET a = $1''] \<and> pgData (wPg w2) = []"
proof -
  obtain w1 where w1: "complete_recovery_replay sample_env sample_coverage 2 24 crashed_world
      = Some (Inr \<lparr>raGeneration = 2, raSeq = 1, raReplayed = 1, raPending = 0\<rparr>, w1)"
    "\<forall>r \<in> set (wJournal w1). jrStatus r = JournalApplied \<and> jrGeneration r = Some 2 \<and> jrSeq r = Some 1"
    "pgData (wPg w1) = [u ''UPDATE t SET a = $1'']" by (rule crashed_recovery)
  have "pgGeneration (wPg crashed_world) = Some (cvGeneration sample_coverage)"
    "cvWatermark sample_coverage \<le> watermark (pgReceipts (wPg crashed_world))" "pgData (wPg crashed_world) = []"
    by (simp_all add: crashed_world_def sample_world_def sample_coverage_def watermark_def)
  moreover have "\<forall>r \<in> set (wJournal w1). jrStatus r = JournalApplied \<and> jrGeneration r = Some 2 \<and> jrSeq r \<noteq> None"
    using w1(2) by simp
  ultimately show ?thesis
    using resumed_recovery_loses_writes[OF w1(1) _ refl] w1(1,3) by (fastforce simp: sample_env_def)
qed


lemma sample_row_check: "journal_check sample_row" "length (jrCiphertext sample_row) \<le> jeMaxBytes sample_env"
  by code_simp+

lemma sample_write:
  "execute_mutating_operations sample_env (u ''run'') [sample_op] sample_world
    = run_journalled sample_env sample_request (jrHash sample_row) (u ''run'') [sample_op]
        (sample_world\<lparr>wJournal := [sample_row], wTicks := 1, wUuids := 1, wNonces := 1, wD1Calls := 1\<rparr>)"
proof -
  have id: "jeUuid sample_env 0 = sample_request" by code_simp
  let ?p = "build_journal_payload (jeSha256 sample_env) sample_request (u ''run'') [sample_op]"
  have row: "jrCiphertext sample_row = encrypt_recovery_string (jeAead sample_env) (jeNonce sample_env 0) (jtJson ?p)"
    "jrHash sample_row = jtHash ?p"
    by (simp_all add: sample_row_def Let_def sample_env_def)
  have "insert_pending sample_request (jtHash ?p) (u ''run'') (jtCount ?p)
      (encrypt_recovery_string (jeAead sample_env) (jeNonce sample_env 0) (jtJson ?p)) (jeClock sample_env 0) [] = Inr (1, [sample_row])"
    using sample_row_check(1) by (simp add: insert_pending_def sample_row_def Let_def sample_env_def)
  then show ?thesis
    using sample_row_check(2)
    by (simp add: execute_run[OF sample_enabled] Let_def row sample_world_def id insert_pending_journal_entry_def journal_run_def
        sample_env_def[THEN arg_cong[where f = jeAvailable]] sample_env_def[THEN arg_cong[where f = jeHasKey]]
        sample_env_def[THEN arg_cong[where f = jeD1Fate]])
qed

lemma write_outcomes_witness:
  "\<exists>ns r. ran_once sample_env sample_request [sample_op] ns (wPg sample_world)
      (wPg (snd (execute_mutating_operations sample_env (u ''run'') [sample_op] sample_world)))
    \<and> r \<in> set (wJournal (snd (execute_mutating_operations sample_env (u ''run'') [sample_op] sample_world)))
    \<and> jrRequest r = sample_request \<and> jrStatus r \<noteq> JournalFailed"
proof -
  let ?run = "execute_mutating_operations sample_env (u ''run'') [sample_op] sample_world"
  have "fst ?run = Inr [1]" unfolding sample_write by code_simp
  then obtain w' where run: "?run = (Inr [1], w')" by (metis prod.collapse)
  have id: "jeUuid sample_env (wUuids sample_world) = sample_request" by code_simp
  have "jeUuid sample_env (wUuids sample_world) \<notin> prRequest ` set (pgReceipts (wPg sample_world))"
    by (simp add: sample_world_def)
  from write_outcomes[OF run sample_enabled this] obtain ns r where
    "ran_once sample_env sample_request [sample_op] ns (wPg sample_world) (wPg w')"
    "r \<in> set (wJournal w')" "jrRequest r = sample_request" "jrStatus r \<noteq> JournalFailed"
    unfolding id by (metis Inr_Inl_False)
  then show ?thesis unfolding run snd_conv by blast
qed

definition sample_payload :: journal_payload where
  "sample_payload = \<lparr>plRequest = JStr sample_request, plKind = JStr (u ''run''),
     plOperations = [sample_op\<lparr>opParams := [PJson (JStr (u ''7'')), PJson JNull]\<rparr>]\<rparr>"

lemma sample_stored: "stored_payload sample_env sample_row = Inr sample_payload" by code_simp

lemma overtaken_write_answers_zero_witness:
  "fst (run_journalled sample_env sample_request (jrHash sample_row) (u ''run'') [sample_op]
      (snd (replay_entry sample_env None sample_row crashed_world))) = Inr [0]
    \<and> (\<exists>d. run_operations sample_env (plOperations sample_payload) [] = Inr ([1], d)
        \<and> pgData (wPg (snd (replay_entry sample_env None sample_row crashed_world))) = d \<and> d \<noteq> [])"
proof -
  have row: "jrRequest sample_row = sample_request" "jrKind sample_row = u ''run''" "length [sample_op] = jrCount sample_row"
    by (simp_all add: sample_row_def Let_def build_journal_payload_def)
  let ?apply = "apply_mutating_operations_with_receipt sample_env (jrRequest sample_row) (jrHash sample_row) (jrKind sample_row)
      (plOperations sample_payload) None crashed_world"
  have answer: "fst ?apply = Inr \<lparr>apResults = [1], apGeneration = 1, apSeq = 1\<rparr>" by code_simp
  have runs: "run_operations sample_env (plOperations sample_payload) [] = Inr ([1], [u ''UPDATE t SET a = $1''])" by code_simp
  have fates: "jePgFate sample_env = (\<lambda>_. Reaches)" by (simp add: sample_env_def)
  have w: "pgReceipts (wPg crashed_world) = []" "pgData (wPg crashed_world) = []" by (simp_all add: crashed_world_def sample_world_def)
  have "jrRequest sample_row \<notin> prRequest ` set (pgReceipts (wPg crashed_world))" by (simp add: w)
  from overtaken_write_answers_zero[OF sample_stored row(3) fates this answer] show ?thesis
    by (simp add: row w runs Let_def case_prod_beta) (elim conjE, drule sym, simp)
qed

definition sample_receipt :: pg_receipt where
  "sample_receipt = \<lparr>prSeq = 1, prGeneration = 1, prRequest = sample_request, prHash = replicate 64 48, prKind = u ''run'',
     prCount = 1, prAppliedAt = 0\<rparr>"

definition unrestored_world :: "ustr list world" where
  "unrestored_world = sample_world\<lparr>wJournal := [applied_row 3 1 1 sample_row],
     wPg := \<lparr>pgGeneration = Some 1, pgReceipts = [sample_receipt], pgNextSeq = 2, pgData = [u ''UPDATE t SET a = $1'']\<rparr>\<rparr>"


end
