(* ===== verification/BackupSamples.thy ===== *)
theory BackupSamples
  imports BackupRoutes BackupRoundtrip JournalRecovery
begin

text \<open>
  An environment, a store and the body of a request that creates a backup of two chunks. Its values are
  small enough to be evaluated; the examples of the properties start from them.
\<close>

section \<open>Calls\<close>

lemma demand_run: "demand b st m s = (if b then Inr () else Inl (Refused (Thrown \<lparr>reStatus = st, reMessage = m\<rparr>)), s)"
  by (simp add: demand_def st_simps)

lemma routed_run: "routed r s = (case r of Inl e \<Rightarrow> Inl (Refused e) | Inr x \<Rightarrow> Inr x, s)"
  by (simp add: routed_def st_simps split: sum.split)

lemma present_run: "present r s = (case r of None \<Rightarrow> Inl (Refused TypeError) | Some x \<Rightarrow> Inr x, s)"
  by (simp add: present_def st_simps split: option.split)

lemmas pure_runs = demand_run routed_run present_run st_simps

section \<open>Sizes of texts\<close>

text \<open>A bound of the length of a text that does not need the text.\<close>

primrec text_bound :: "jsv \<Rightarrow> nat" where
  "text_bound JUndef = 9"
| "text_bound JNull = 4"
| "text_bound (JBool b) = 5"
| "text_bound (JNum n) = length (num_str n)"
| "text_bound (JStr s) = 6 * length s + 2"
| "text_bound (JArr vs) = 2 + sum_list (map (\<lambda>n. n + 5) (map text_bound vs))"
| "text_bound (JObj kvs) = 2 + sum_list (map (\<lambda>(k, n). 6 * length k + 4 + n) (map (map_prod id text_bound) kvs))"

lemma quote_body_length: "length (quote_body s) \<le> 6 * length s"
proof -
  have one: "length (quote_unit c) \<le> 6" for c by (simp add: quote_unit_def hex4_def)
  show ?thesis
  proof (induction s rule: quote_body.induct)
    case (2 c d s)
    then show ?case using one[of c] by auto
  qed (use one in simp_all)
qed

lemma join_length: "length (join_with [c] ts) \<le> sum_list (map (\<lambda>t. length t + 1) ts)"
  by (induction "[c]" ts rule: join_with.induct) auto

lemma stringify_bound: "json_stringify v = Some s \<Longrightarrow> length s \<le> text_bound v"
proof (induction v arbitrary: s)
  case (JStr t)
  then show ?case using quote_body_length[of t] by (auto simp: json_quote_def)
next
  case (JArr vs)
  let ?ts = "map (\<lambda>r. case r of None \<Rightarrow> u ''null'' | Some s \<Rightarrow> s) (map json_stringify vs)"
  have s: "s = u ''['' @ join_with (u '','') ?ts @ u '']''" using JArr.prems by (simp only: json_stringify.simps option.inject)
  have "sum_list (map (\<lambda>t. length t + 1) ?ts) \<le> sum_list (map (\<lambda>n. n + 5) (map text_bound vs))"
    unfolding map_map by (rule sum_list_mono) (use JArr.IH in \<open>force split: option.split simp: u_def\<close>)
  then show ?case unfolding s using join_length[of 44 ?ts] by (simp add: u_def)
next
  case (JObj kvs)
  let ?t = "\<lambda>(k, r). case r of None \<Rightarrow> [] | Some s \<Rightarrow> [json_quote k @ u '':'' @ s]"
  let ?ts = "concat (map ?t (map (map_prod id json_stringify) kvs))"
  have s: "s = u ''{'' @ join_with (u '','') ?ts @ u ''}''" using JObj.prems by (simp only: json_stringify.simps option.inject)
  have one: "sum_list (map (\<lambda>t. length t + 1) (?t (map_prod id json_stringify kv))) \<le> 6 * length (fst kv) + 4 + text_bound (snd kv)"
    if "kv \<in> set kvs" for kv
  proof (cases "json_stringify (snd kv)")
    case (Some x)
    have "length x \<le> text_bound (snd kv)" using JObj.IH[OF that, of "snd kv" x] Some by (cases kv) (simp add: snds.simps)
    then show ?thesis using Some quote_body_length[of "fst kv"] by (cases kv) (simp add: json_quote_def u_def)
  qed (cases kv, simp)
  have "sum_list (map (\<lambda>t. length t + 1) ?ts) = sum_list (map (\<lambda>kv. sum_list (map (\<lambda>t. length t + 1) (?t (map_prod id json_stringify kv)))) kvs)"
    by (induction kvs) (simp_all del: sum_list_Suc)
  also have "\<dots> \<le> sum_list (map (\<lambda>kv. 6 * length (fst kv) + 4 + text_bound (snd kv)) kvs)"
    by (rule sum_list_mono) (use one in blast)
  also have "\<dots> = sum_list (map (\<lambda>(k, n). 6 * length k + 4 + n) (map (map_prod id text_bound) kvs))"
    by (simp add: comp_def case_prod_unfold)
  finally show ?case unfolding s using join_length[of 44 ?ts] by (simp add: u_def)
qed (auto simp: u_def)

lemma json_text_bound: "length (json_text v) \<le> text_bound v"
  using stringify_bound[of v] by (cases v) (auto simp: json_text_def u_def)

lemma encoded_length: "length (code_points s) \<le> length s" "length (utf8_encode s) \<le> 4 * length s"
proof -
  show points: "length (code_points s) \<le> length s" by (induction s rule: code_points.induct) auto
  have "length (utf8_point c) \<le> 4" for c by (simp add: utf8_point_def)
  then have "length (concat (map utf8_point cs)) \<le> 4 * length cs" for cs by (induction cs) (auto simp: add_mono)
  then show "length (utf8_encode s) \<le> 4 * length s" using points unfolding utf8_encode_def by (meson le_trans mult_le_mono2)
qed

section \<open>An example\<close>

definition sample_hash :: ustr where "sample_hash = replicate 64 48"

definition sample_platform :: platform where
  "sample_platform = \<lparr>pfLower = ascii_lower, pfDateValid = \<lambda>_. True, pfDecode = id, pfSha256 = \<lambda>_. sample_hash\<rparr>"

definition sample_vars :: bindings where
  "sample_vars = (\<lambda>name. if name = ''CPOLY_BACKUP_HMAC_KEY'' then JStr (u ''key'') else JUndef)"

definition sample_renv :: "ustr list renv" where
  "sample_renv = \<lparr>evJournal = sample_env, evPlatform = sample_platform, evVars = sample_vars, evHmac = \<lambda>_ _. sample_hash,
     evKvFate = \<lambda>_. KvReaches, evStore = True, evPostgres = True\<rparr>"

definition sample_manifest :: jsv where
  "sample_manifest = jobject [(''schema'', JStr (u ''cpoly_postgres_backup_v1'')),
     (''databases'', JArr [jobject [(''name'', JStr (u ''d'')), (''bytes'', jint 5), (''dump'', JStr (u ''d.dump''))]]),
     (''attestations'', attestations_json),
     (''claim_boundary'', JStr CLAIM_BOUNDARY),
     (''restore_test'', jobject [(''requested'', JBool False), (''status'', JStr (u ''NOT_RUN''))]),
     (''created_at_utc'', JStr (u ''2026'')), (''source_container'', JStr (u ''c'')), (''source_image'', JStr (u ''i'')),
     (''server_version'', JStr (u ''16'')),
     (''plaintext_file_hashes'', JArr [jobject [(''name'', JStr (u ''d.dump'')), (''bytes'', jint 5), (''sha256'', JStr sample_hash)]]),
     (''snapshotGeneration'', jint 1), (''postgresReceiptWatermark'', jint 0)]"

definition sample_body :: jsv where
  "sample_body = jobject [(''schema'', JStr BACKUP_DESCRIPTOR_SCHEMA), (''manifest'', sample_manifest),
     (''archive'', jobject [(''fileName'', JStr (u ''d.bin'')), (''sizeBytes'', jint 5), (''sha256'', JStr sample_hash),
        (''chunkCount'', jint 2), (''chunkSizeBytes'', jint 3)]),
     (''chunks'', JArr [jobject [(''index'', jint 0), (''sizeBytes'', jint 3), (''sha256'', JStr sample_hash)],
        jobject [(''index'', jint 1), (''sizeBytes'', jint 2), (''sha256'', JStr sample_hash)]])]"

lemma sample_body_plain: "json_plain sample_body" by code_simp

lemma sample_platform_lawful: "platform_lawful sample_platform"
proof -
  have "matches hex64 sample_hash" by code_simp
  then show ?thesis by (simp add: platform_lawful_def sample_platform_def)
qed

definition sample_archive :: archive where
  "sample_archive = \<lparr>arFileName = u ''d.bin'', arSizeBytes = 5, arSha256 = sample_hash, arChunkCount = 2, arChunkSizeBytes = 3,
     arContentType = u ''application/octet-stream'', arEncryption = UNENCRYPTED_FORMAT, arDatabase = None, arFormat = None\<rparr>"

definition sample_chunks :: "chunk list" where
  "sample_chunks = [\<lparr>ckIndex = 0, ckSizeBytes = 3, ckSha256 = sample_hash\<rparr>, \<lparr>ckIndex = 1, ckSizeBytes = 2, ckSha256 = sample_hash\<rparr>]"

definition sample_parsed :: manifest where
  "sample_parsed = \<lparr>mfJson = jobject [(''schema'', JStr (u ''cpoly_postgres_backup_v1'')), (''created_at_utc'', JStr (u ''2026'')),
     (''source_container'', JStr (u ''c'')), (''source_image'', JStr (u ''i'')), (''server_version'', JStr (u ''16'')),
     (''databases'', JArr [jobject [(''name'', JStr (u ''d'')), (''bytes'', jint 5), (''dump'', JStr (u ''d.dump''))]]),
     (''plaintext_file_hashes'', JArr [jobject [(''name'', JStr (u ''d.dump'')), (''bytes'', jint 5), (''sha256'', JStr sample_hash)]]),
     (''attestations'', attestations_json),
     (''restore_test'', jobject [(''requested'', JBool False), (''status'', JStr (u ''NOT_RUN'')), (''databases'', JArr [])]),
     (''claim_boundary'', JStr CLAIM_BOUNDARY), (''snapshotGeneration'', jint 1), (''postgresReceiptWatermark'', jint 0)],
     mfGeneration = 1, mfWatermark = 0\<rparr>"

lemma sample_archive_read: "normalize_archive sample_platform (backup_descriptor_limits sample_vars) (dot sample_body ''archive'') = Inr sample_archive" by code_simp
lemma sample_chunks_read: "normalize_chunks sample_platform (backup_descriptor_limits sample_vars) sample_archive (dot sample_body ''chunks'') = Inr sample_chunks" by code_simp
lemma sample_manifest_read: "normalize_manifest sample_platform sample_archive sample_manifest = Inr sample_parsed" by code_simp

lemma sample_text_bound: "text_bound (descriptor_json sample_archive sample_chunks (mfJson sample_parsed)) \<le> 65536"
  by code_simp


definition sample_descriptor :: descriptor where
  "sample_descriptor = (let json = json_text (descriptor_json sample_archive sample_chunks (mfJson sample_parsed)) in
     \<lparr>dsArchive = sample_archive, dsChunks = sample_chunks, dsManifest = sample_parsed, dsJson = json,
      dsSha256 = sample_hash, dsMetadataSha256 = sample_hash\<rparr>)"

lemma sample_requested: "requested_descriptor sample_platform sample_vars sample_body = Inr sample_descriptor"
proof -
  have "js_trim BACKUP_DESCRIPTOR_SCHEMA = BACKUP_DESCRIPTOR_SCHEMA" by code_simp
  then have schema: "non_empty_string (JStr BACKUP_DESCRIPTOR_SCHEMA) f 128 = Inr BACKUP_DESCRIPTOR_SCHEMA" for f
    by (simp add: non_empty_string_def js_or_def BACKUP_DESCRIPTOR_SCHEMA_def)
  have parts: "dot sample_body ''schema'' = JStr BACKUP_DESCRIPTOR_SCHEMA" "dot sample_body ''manifest'' = sample_manifest"
    by (simp_all add: sample_body_def dot_jobject)
  have m: "coalesce sample_manifest v = sample_manifest" for v by (simp add: coalesce_def sample_manifest_def jobject_def)
  have digest: "pfSha256 sample_platform bytes = sample_hash" for bytes by (simp add: sample_platform_def)
  have "length (utf8_encode (json_text (descriptor_json sample_archive sample_chunks (mfJson sample_parsed)))) \<le> 4 * 65536"
    using encoded_length(2) json_text_bound sample_text_bound by (meson le_trans mult_le_mono2)
  then show ?thesis
    unfolding requested_descriptor_def descriptor_parts_def parts m
    by (simp add: digest schema ensure_conv sample_archive_read sample_chunks_read sample_manifest_read Let_def sample_descriptor_def
        MAX_BACKUP_DESCRIPTOR_JSON_BYTES_def sha256_hex_utf8_def)
qed

definition sample_bytes :: "nat list" where "sample_bytes = json_text sample_body"

lemma sample_parse: "parse_required_json_body sample_renv sample_bytes BACKUP_DESCRIPTOR_SCHEMA = Inr sample_body"
proof -
  have "json_parse (json_text sample_body) = Some sample_body" by (rule json_roundtrip[OF sample_body_plain])
  moreover have "truthy sample_body" "strict_eq (dot sample_body ''schema'') (JStr BACKUP_DESCRIPTOR_SCHEMA)" "\<not> js_is_array sample_body"
    by (simp_all add: sample_body_def dot_jobject) (simp_all add: jobject_def)
  ultimately show ?thesis
    by (simp add: parse_required_json_body_def sample_renv_def sample_platform_def sample_bytes_def)
qed

definition sample_store :: "ustr list recovery" where
  "sample_store = \<lparr>rvWorld = sample_world, rvSets = [], rvChunks = [], rvLegacy = [], rvNonces = [], rvRuntime = None,
     rvObjects = [], rvKvCalls = 0\<rparr>"

lemma sample_creates: "\<exists>reply s'. create_backup_set sample_renv sample_bytes sample_store = (Inr reply, s')"
proof -
  have env: "evPlatform sample_renv = sample_platform" "evVars sample_renv = sample_vars" "evJournal sample_renv = sample_env"
    by (simp_all add: sample_renv_def)
  have hours: "requested_retention_hours sample_body sample_vars = Inr 168" by code_simp
  have "hash_like sample_hash" by code_simp
  moreover have "length (code_points (dsJson sample_descriptor)) \<le> 65536"
    using encoded_length(1) json_text_bound sample_text_bound by (simp add: sample_descriptor_def Let_def) (meson le_trans)
  ultimately have check: "set_check (new_backup_row i 0 (168 * 60 * 60 * 1000) sample_descriptor)" for i
    by (simp add: set_check_def new_backup_row_def when_set_def) (simp add: sample_descriptor_def sample_parsed_def Let_def)
  show ?thesis
    unfolding create_backup_set_def Let_def
    by (simp add: sample_parse env sample_requested hours routed_run st_simps st_bind_run now_ms_def fresh_uuid_def in_world_def clock_def
      request_id_def d1_def Let_def insert_set_def check[simplified] sample_store_def sample_world_def sample_env_def)
qed

end
