(* ===== verification/LaneEffects.thy ===== *)
theory LaneEffects
  imports BackupSamples
begin

text \<open>
  What a computation of the recovery lane does to the state, for any preorder on states that looking keeps:
  the reads of the lane, up to the verification of a whole backup, are proved once here. The relations
  are that nothing changes (\<open>untouched\<close>), that calls of the lane were made, and that backups were spared.
\<close>

section \<open>Looking\<close>

text \<open>The effect of the calls that only read: counters.\<close>

definition untouched :: "'d recovery \<Rightarrow> 'd recovery \<Rightarrow> bool" where
  "untouched s s' \<longleftrightarrow> rvSets s' = rvSets s \<and> rvChunks s' = rvChunks s \<and> rvLegacy s' = rvLegacy s \<and> rvNonces s' = rvNonces s
     \<and> rvRuntime s' = rvRuntime s \<and> rvObjects s' = rvObjects s \<and> wJournal (rvWorld s') = wJournal (rvWorld s)
     \<and> wPg (rvWorld s') = wPg (rvWorld s)"

lemma untouched_refl: "untouched s s"
  by (simp add: untouched_def)

lemma untouched_trans: "untouched s t \<Longrightarrow> untouched t r \<Longrightarrow> untouched s r"
  by (simp add: untouched_def)

abbreviation called :: "'d recovery \<Rightarrow> 'd recovery" where
  "called s \<equiv> s\<lparr>rvWorld := (rvWorld s)\<lparr>wD1Calls := wD1Calls (rvWorld s) + 1\<rparr>\<rparr>"

lemma called_untouched: "untouched s (called s)"
  by (simp add: untouched_def)

definition stmt_pres :: "('d recovery \<Rightarrow> 'd recovery \<Rightarrow> bool) \<Rightarrow> ('d, 'a) statement \<Rightarrow> bool" where
  "stmt_pres R q \<longleftrightarrow> (\<forall>s x t. q s = Inr (x, t) \<longrightarrow> R s t)"

lemma return_bind: "st_bind (st_return x) f = f x"
  by (rule ext) (simp add: st_bind_run st_simps)

section \<open>The interface\<close>

named_theorems lane_intros \<open>computations of the lane that respect a relation\<close>

locale lane_effect =
  fixes R :: "'d recovery \<Rightarrow> 'd recovery \<Rightarrow> bool"
  assumes same: "R s s"
    and seq: "R a b \<Longrightarrow> R b c \<Longrightarrow> R a c"
    and world: "wJournal w = wJournal (rvWorld s) \<Longrightarrow> wPg w = wPg (rvWorld s) \<Longrightarrow> wTicks (rvWorld s) \<le> wTicks w \<Longrightarrow> R s (s\<lparr>rvWorld := w\<rparr>)"
    and asked: "R s (s\<lparr>rvKvCalls := n\<rparr>)"
begin

abbreviation keeps :: "('d, 'a) rdb \<Rightarrow> bool" where
  "keeps m \<equiv> st_pres R m"

lemma pure [lane_intros]:
  "keeps (st_return x)" "keeps (st_throw e)" "keeps (demand b n m)" "keeps (routed r)" "keeps (present c)"
  by (rule st_presI, simp add: pure_runs same)+

lemma bind [lane_intros]: "keeps m \<Longrightarrow> (\<And>x. keeps (f x)) \<Longrightarrow> keeps (st_bind m f)"
  by (rule st_pres_bind) (rule seq)

lemma caught [lane_intros]: "keeps m \<Longrightarrow> (\<And>e. keeps (h e)) \<Longrightarrow> keeps (st_catch m h)"
  by (rule st_pres_catch) (rule seq)

lemma branch [lane_intros]: "keeps a \<Longrightarrow> keeps b \<Longrightarrow> keeps (if c then a else b)"
  by simp

lemma option [lane_intros]: "keeps a \<Longrightarrow> (\<And>x. keeps (b x)) \<Longrightarrow> keeps (case v of None \<Rightarrow> a | Some x \<Rightarrow> b x)"
  by (cases v) auto

lemma pair [lane_intros]: "(\<And>x y. keeps (b x y)) \<Longrightarrow> keeps (case v of (x, y) \<Rightarrow> b x y)"
  by (cases v) auto

lemma cells [lane_intros]: "keeps a \<Longrightarrow> (\<And>x xs. keeps (b x xs)) \<Longrightarrow> keeps (case v of [] \<Rightarrow> a | x # xs \<Rightarrow> b x xs)"
  by (cases v) auto

lemma shared [lane_intros]: "keeps (f x) \<Longrightarrow> keeps (let y = x in f y)"
  by simp

lemma counted: "R s (called s)"
  by (rule world) simp_all

lemma statement [lane_intros]: "stmt_pres R q \<Longrightarrow> keeps (d1 env q)"
proof (rule st_presI)
  fix s assume q: "stmt_pres R q"
  have "R s t" if "q (called s) = Inr (x, t)" for x t
    using q that counted[of s] unfolding stmt_pres_def by (meson seq)
  then show "R s (snd (d1 env q s))"
    using counted[of s] by (auto simp: d1_def Let_def simp del: One_nat_def split: fate.split sum.split)
qed

lemma look [lane_intros]: "keeps (d1_read env f)"
  unfolding d1_read_def by (rule statement) (simp add: stmt_pres_def same)

lemma batch [lane_intros]:
  assumes "\<And>q. q \<in> set qs \<Longrightarrow> stmt_pres R q"
  shows "stmt_pres R (in_batch qs)"
proof -
  have "in_batch qs s = Inr ((), t) \<Longrightarrow> R s t" for s t
    using assms
  proof (induction qs arbitrary: s)
    case (Cons q qs)
    then obtain y s1 where q: "q s = Inr (y, s1)" "in_batch qs s1 = Inr ((), t)" by (auto split: sum.splits)
    have "R s s1" using Cons.prems(2)[of q] q(1) by (auto simp: stmt_pres_def)
    moreover have "R s1 t" using Cons.IH[OF q(2)] Cons.prems(2) by auto
    ultimately show ?case by (rule seq)
  qed (simp add: same)
  then show ?thesis by (auto simp: stmt_pres_def)
qed

lemma stored: "(\<And>s x t. q s = (x, t) \<Longrightarrow> R s t) \<Longrightarrow> keeps (kv env q missed)"
proof (rule st_presI)
  fix s :: "'d recovery" assume q: "\<And>s x t. q s = (x, t) \<Longrightarrow> R s t"
  let ?s = "s\<lparr>rvKvCalls := rvKvCalls s + 1\<rparr>"
  have "R ?s (snd (q ?s))" by (rule q[of _ "fst (q ?s)"]) simp
  then have "R s ?s" "R s (snd (q ?s))" using asked seq by blast+
  then show "R s (snd (kv env q missed s))" by (simp add: kv_def Let_def case_prod_unfold split: kv_fate.split)
qed

lemma fetched [lane_intros]: "keeps (kv_get env key)"
  unfolding kv_get_def by (rule stored) (auto intro: same)

lemma clocks [lane_intros]: "keeps (now_ms env)" "keeps (fresh_uuid env)"
  by (rule st_presI, simp add: now_ms_def fresh_uuid_def in_world_def clock_def request_id_def world)+

lemma counting [lane_intros]: "keeps (in_world (count_recovery_replay_pending e cov target))"
  by (rule st_presI) (auto simp: in_world_def count_recovery_replay_pending_def journal_read_def Let_def intro!: world split: fate.split prod.split)

text \<open>Reads of the lane.\<close>

lemma ignored [lane_intros]: "keeps m \<Longrightarrow> keeps (ignoring m)"
  unfolding ignoring_def by (intro lane_intros)

lemma optional [lane_intros]: "keeps m \<Longrightarrow> keeps (or_none m)"
  unfolding or_none_def by (intro lane_intros)

lemma queries [lane_intros]:
  "keeps (load_backup_set env i)" "keeps (load_latest_complete_backups env n)" "keeps (query_backup_chunk_inventory env i)"
  "keeps (load_backup_chunk_page env i k n)" "keeps (find_chunk env i j)" "keeps (load_restore_set env c)"
  "keeps (read_backup_chunk_from_store env i j key)" "keeps (get_cpoly_recovery_runtime env)"
  unfolding load_backup_set_def load_latest_complete_backups_def query_backup_chunk_inventory_def load_backup_chunk_page_def
    find_chunk_def load_restore_set_def read_backup_chunk_from_store_def get_cpoly_recovery_runtime_def
  by (intro lane_intros)+

lemma checks [lane_intros]:
  "keeps (validate_descriptor_complete_body env i body d)" "keeps (requested_or_stored v d f)"
  "keeps (matching_id env v name active message)" "keeps (require_uuid i)" "keeps (require_postgres env)"
  "keeps (ensure_uploadable_backup b now)"
  unfolding validate_descriptor_complete_body_def if_given_def same_hash_def same_number_def requested_or_stored_def matching_id_def
    require_uuid_def require_postgres_def ensure_uploadable_backup_def
  by (intro lane_intros)+

lemma paged: "R s (snd (verify_pages env i d offset s))"
proof (induction env i d offset s rule: verify_pages.induct)
  case (1 env i d offset s)
  let ?body = "st_bind (load_backup_chunk_page env i offset 64) (\<lambda>rows.
      st_bind (demand (rows \<noteq> []) 409 chunks_incomplete) (\<lambda>_.
      st_bind (demand (list_all (chunk_record_matches env i d) rows) 409 chunk_mismatch) (\<lambda>_. st_return (length rows - 1))))"
  have "keeps ?body" by (intro lane_intros)
  then have body: "R s (snd (?body s))" by (rule st_presD)
  show ?case
  proof (cases "int offset < arChunkCount (dsArchive d)")
    case True
    obtain r s1 where run: "?body s = (r, s1)" by fastforce
    have later: "R s1 (snd (verify_pages env i d (offset + n + 1) s1))" if "r = Inr n" for n
      using 1[OF True run[symmetric] that] .
    show ?thesis
      by (subst verify_pages.simps)
        (use body run later True in \<open>auto simp del: verify_pages.simps split: sum.split elim: seq\<close>)
  qed (subst verify_pages.simps, simp add: same)
qed

lemma rows_read [lane_intros]: "keeps (read_rows env i d acc cs)"
  by (induction cs arbitrary: acc) (auto intro!: lane_intros)

lemma bytes_paged: "R s (snd (read_pages env i d offset acc s))"
proof (induction env i d offset acc s rule: read_pages.induct)
  case (1 env i d offset acc s)
  let ?body = "st_bind (load_backup_chunk_page env i offset 32) (\<lambda>rows.
      st_bind (demand (rows \<noteq> []) 409 chunks_incomplete) (\<lambda>_.
      st_bind (read_rows env i d acc rows) (\<lambda>acc'. st_return (length rows - 1, acc'))))"
  have "keeps ?body" by (intro lane_intros)
  then have body: "R s (snd (?body s))" by (rule st_presD)
  show ?case
  proof (cases "int offset < arChunkCount (dsArchive d)")
    case True
    obtain r s1 where run: "?body s = (r, s1)" by fastforce
    have later: "R s1 (snd (read_pages env i d (offset + n + 1) acc' s1))" if "r = Inr (n, acc')" for n acc'
      using 1[OF True run[symmetric] that refl] .
    show ?thesis
      by (subst read_pages.simps)
        (use body run later True in \<open>auto simp del: read_pages.simps split: sum.split elim: seq\<close>)
  qed (subst read_pages.simps, simp add: same)
qed

lemma pages [lane_intros]: "keeps (verify_pages env i d k)" "keeps (read_pages env i d k acc)"
  by (rule st_presI, rule paged, rule st_presI, rule bytes_paged)

lemma verification [lane_intros]:
  "keeps (verify_stored_chunk_inventory_metadata env i d)" "keeps (verify_backup_store_contents env i d)"
  unfolding verify_backup_store_contents_def verify_stored_chunk_inventory_metadata_def by (intro lane_intros)+

lemma status [lane_intros]: "keeps (status_reply env members)" "keeps (fetch_recovery_status env)"
  unfolding fetch_recovery_status_def status_reply_def by (intro lane_intros)+

lemma described [lane_intros]: "keeps (described env b message)"
  unfolding described_def by (intro lane_intros)

lemma completion_checks [lane_intros]: "keeps (check_completion env body)"
  unfolding check_completion_def by (intro lane_intros)

end

interpretation looking: lane_effect untouched
  by unfold_locales (simp_all add: untouched_def)

end
