(* ===== verification/BackupSafety.thy ===== *)
theory BackupSafety
  imports LaneEffects
begin

text \<open>
  What the backup routes guarantee: an accepted descriptor describes a tiling of its archive and is
  read back from the row it creates; a backup that is completed is held whole by the object store;
  pruning leaves what a recovery may be reading.
\<close>

section \<open>Calls\<close>

lemma d1_read_run:
  "d1_read env f s = (r, s') \<Longrightarrow> untouched s s' \<and> (\<forall>x. r = Inr x \<longrightarrow>
     x = f (s\<lparr>rvWorld := (rvWorld s)\<lparr>wD1Calls := wD1Calls (rvWorld s) + 1\<rparr>\<rparr>))"
  by (auto simp: d1_read_def d1_def Let_def untouched_def split: fate.splits)

lemma kv_get_run:
  "kv_get env key s = (r, s') \<Longrightarrow> untouched s s' \<and> (\<forall>x. r = Inr (Some x) \<longrightarrow> omap_get (rvObjects s) key = Some x)"
  by (auto simp: kv_get_def kv_def Let_def untouched_def split: kv_fate.splits)

lemma clock_run: "now_ms env s = (r, s') \<Longrightarrow> untouched s s' \<and> r = Inr (jeClock (evJournal env) (wTicks (rvWorld s)))"
  "fresh_uuid env s = (r', s'') \<Longrightarrow> untouched s s'' \<and> r' = Inr (jeUuid (evJournal env) (wUuids (rvWorld s)))"
  by (auto simp: now_ms_def fresh_uuid_def in_world_def clock_def request_id_def untouched_def)

lemma bind_Inr: "st_bind m f s = (Inr y, s2) \<Longrightarrow> (\<And>x s1. m s = (Inr x, s1) \<Longrightarrow> f x s1 = (Inr y, s2) \<Longrightarrow> P) \<Longrightarrow> P"
  unfolding st_bind_Inr by blast

section \<open>Descriptors\<close>

lemma chunk_at:
  assumes "normalize_chunks pf lm a v = Inr cs"
  shows "int (length cs) = arChunkCount a" "sum_list (map ckSizeBytes cs) = arSizeBytes a"
    "\<And>i. i < length cs \<Longrightarrow> ckIndex (cs ! i) = int i \<and> 1 \<le> ckSizeBytes (cs ! i) \<and> ckSizeBytes (cs ! i) \<le> arChunkSizeBytes a
       \<and> (i + 1 < length cs \<longrightarrow> ckSizeBytes (cs ! i) = arChunkSizeBytes a) \<and> matches SHA256_HEX_PATTERN (ckSha256 (cs ! i))"
proof -
  obtain vs where n: "int (length vs) = arChunkCount a" and run: "mapE (normalize_chunk pf lm a (length vs)) (enumerate 0 vs) = Inr cs"
    and total: "sum_list (map ckSizeBytes cs) = arSizeBytes a"
    using assms by (auto simp: normalize_chunks_def sbind_eq_Inr)
  have len: "length cs = length vs" using mapE_length[OF run] by simp
  show "int (length cs) = arChunkCount a" "sum_list (map ckSizeBytes cs) = arSizeBytes a" using n len total by simp_all
  fix i assume i: "i < length cs"
  let ?claim = "ckIndex (cs ! i) = int i \<and> 1 \<le> ckSizeBytes (cs ! i) \<and> ckSizeBytes (cs ! i) \<le> arChunkSizeBytes a
       \<and> (i + 1 < length cs \<longrightarrow> ckSizeBytes (cs ! i) = arChunkSizeBytes a) \<and> matches SHA256_HEX_PATTERN (ckSha256 (cs ! i))"
  from i have "normalize_chunk pf lm a (length vs) (i, vs ! i) = Inr (cs ! i)"
    using run len by (auto simp: mapE_eq_Inr list_all2_conv_all_nth nth_enumerate_eq)
  then have "normalize_chunk pf lm a (length vs) (i, vs ! i) = Inr (cs ! i)" .
  from this[unfolded normalize_chunk_def prod.case sbind_eq_Inr ensure_eq] show ?claim
  proof (elim exE conjE)
    fix object index size sha256
    assume parts: "positive_integer (dot object ''sizeBytes'') (indexed_field ''chunks'' i ''.sizeBytes'') 1 (arChunkSizeBytes a) = Inr size"
      "sha256_field pf (dot object ''sha256'') (indexed_field ''chunks'' i ''.sha256'') = Inr sha256"
      "\<not> (i + 1 < length vs \<and> size \<noteq> arChunkSizeBytes a)" "index = int i"
      and "Inr \<lparr>ckIndex = index, ckSizeBytes = size, ckSha256 = sha256\<rparr> = Inr (cs ! i)"
    then have "cs ! i = \<lparr>ckIndex = int i, ckSizeBytes = size, ckSha256 = sha256\<rparr>" by simp
    then show ?claim using positive_integer_bounds[OF parts(1)] sha256_field_hex[OF parts(2)] parts(3) len by simp
  qed
qed

lemma tiling_sum:
  assumes "\<And>i. i < length cs \<Longrightarrow> 1 \<le> ckSizeBytes (cs ! i) \<and> ckSizeBytes (cs ! i) \<le> k"
    "\<And>i. i + 1 < length cs \<Longrightarrow> ckSizeBytes (cs ! i) = k" "cs \<noteq> []"
  shows "(int (length cs) - 1) * k < sum_list (map ckSizeBytes cs) \<and> sum_list (map ckSizeBytes cs) \<le> int (length cs) * k"
proof -
  obtain xs c where cs: "cs = xs @ [c]" using assms(3) by (cases cs rule: rev_cases) auto
  have "ckSizeBytes (xs ! i) = k" if "i < length xs" for i
    using assms(2)[of i] that by (simp add: cs nth_append)
  then have "map ckSizeBytes xs = replicate (length xs) k" by (simp add: list_eq_iff_nth_eq)
  then have "sum_list (map ckSizeBytes cs) = int (length xs) * k + ckSizeBytes c" by (simp add: cs sum_list_replicate)
  moreover have "1 \<le> ckSizeBytes c \<and> ckSizeBytes c \<le> k" using assms(1)[of "length xs"] by (simp add: cs)
  ultimately show ?thesis by (simp add: cs algebra_simps)
qed

lemma archive_normal_bounds:
  assumes "archive_normal pf lm a"
  shows "1 \<le> arChunkCount a \<and> arChunkCount a \<le> lmChunks lm \<and> arChunkSizeBytes a \<le> lmChunkBytes lm \<and> arSizeBytes a \<le> lmBackupBytes lm"
proof -
  obtain v1 f1 v2 f2 v3 f3 where runs: "positive_integer v1 f1 1 (lmBackupBytes lm) = Inr (arSizeBytes a)"
    "positive_integer v2 f2 1 (lmChunks lm) = Inr (arChunkCount a)"
    "positive_integer v3 f3 1 (lmChunkBytes lm) = Inr (arChunkSizeBytes a)"
    using assms unfolding archive_normal_def by blast
  from runs[THEN positive_integer_bounds] show ?thesis by simp
qed

lemma descriptor_pieces:
  assumes "descriptor_parts pf lm body = Inr d"
  obtains v w where "normalize_archive pf lm v = Inr (dsArchive d)"
    "normalize_chunks pf lm (dsArchive d) w = Inr (dsChunks d)"
  using assms[unfolded descriptor_parts_def Let_def sbind_eq_Inr ensure_eq]
proof (elim exE conjE)
  fix a cs m
  assume parts: "normalize_archive pf lm (dot body ''archive'') = Inr a"
    "normalize_chunks pf lm a (dot body ''chunks'') = Inr cs"
    and d: "(if MAX_BACKUP_DESCRIPTOR_JSON_BYTES < length (utf8_encode (json_text (descriptor_json a cs (mfJson m))))
        then reject 413 (u ''Backup descriptor exceeded the configured limit.'')
        else Inr \<lparr>dsArchive = a, dsChunks = cs, dsManifest = m, dsJson = json_text (descriptor_json a cs (mfJson m)),
          dsSha256 = sha256_hex_utf8 (pfSha256 pf) (json_text (descriptor_json a cs (mfJson m))),
          dsMetadataSha256 = sha256_hex_utf8 (pfSha256 pf) (json_text (mfJson m))\<rparr>) = Inr d"
  have "dsArchive d = a" "dsChunks d = cs" using d by (auto split: if_splits)
  then show ?thesis using that parts by simp
qed

lemma requested_parts:
  assumes "requested_descriptor pf vars body = Inr d"
  obtains v w where "normalize_archive pf (backup_descriptor_limits vars) v = Inr (dsArchive d)"
    "normalize_chunks pf (backup_descriptor_limits vars) (dsArchive d) w = Inr (dsChunks d)"
  using assms unfolding requested_descriptor_def by (rule descriptor_pieces)

text \<open>The chunks are numbered from 0, have the size the archive declares but for the last, and fill it.\<close>

definition tiles :: "chunk list \<Rightarrow> archive \<Rightarrow> bool" where
  "tiles cs a \<longleftrightarrow> map ckIndex cs = map int [0..<length cs] \<and> int (length cs) = arChunkCount a
     \<and> sum_list (map ckSizeBytes cs) = arSizeBytes a
     \<and> (arChunkCount a - 1) * arChunkSizeBytes a < arSizeBytes a \<and> arSizeBytes a \<le> arChunkCount a * arChunkSizeBytes a"

lemma normalized_chunks_tile:
  assumes "normalize_chunks pf lm a v = Inr cs" "1 \<le> arChunkCount a"
  shows "tiles cs a"
proof -
  note at = chunk_at[OF assms(1)]
  have "map ckIndex cs = map int [0..<length cs]"
    by (rule nth_equalityI) (use at(3) in simp_all)
  moreover have "cs \<noteq> []" using at(1) assms(2) by auto
  then have "(int (length cs) - 1) * arChunkSizeBytes a < sum_list (map ckSizeBytes cs)
      \<and> sum_list (map ckSizeBytes cs) \<le> int (length cs) * arChunkSizeBytes a"
    using at(3) by (intro tiling_sum) auto
  ultimately show ?thesis unfolding tiles_def at(1)[symmetric] at(2)[symmetric] by simp
qed

section \<open>A created backup\<close>

lemma created_row_stores: "stores (new_backup_row i now expires d) d"
  by (simp add: stores_def new_backup_row_def)

lemma d1_done: "d1 env q s = (Inr x, s') \<Longrightarrow> q (called s) = Inr (x, s')"
  by (auto simp: d1_def Let_def split: fate.splits sum.splits)

lemma created_backup:
  assumes "create_backup_set env rawBody s = (Inr reply, s')"
  obtains body d i now hours where "parse_required_json_body env rawBody BACKUP_DESCRIPTOR_SCHEMA = Inr body"
    "requested_descriptor (evPlatform env) (evVars env) body = Inr d"
    "rvSets s' = rvSets s @ [new_backup_row i now (now + hours * 60 * 60 * 1000) d]" "i \<notin> bkId ` set (rvSets s)"
  using assms unfolding create_backup_set_def
proof (elim bind_Inr, goal_cases)
  case (1 body s1 d s2 now s3 i s4 hours s5)
  from 1(2-6) have same: "rvSets s5 = rvSets s"
    using clock_run by (fastforce simp: routed_run untouched_def split: sum.splits)
  let ?row = "new_backup_row i now (now + hours * 60 * 60 * 1000) d"
  obtain n s6 where "d1 env (insert_set ?row) s5 = (Inr n, s6)" "s' = s6"
    using 1(7) by (auto simp: Let_def st_bind_Inr st_simps)
  then have "insert_set ?row (called s5) = Inr (n, s')" using d1_done[of env "insert_set ?row" s5] by simp
  then have "rvSets s' = rvSets s @ [?row] \<and> i \<notin> bkId ` set (rvSets s)"
    using same by (auto simp: insert_set_def untouched_def new_backup_row_def split: if_splits)
  then show ?case using 1(1)[of body d i now hours] 1(2,3) by (auto simp: routed_run split: sum.splits)
qed

section \<open>What the store holds\<close>

definition held :: "'d recovery \<Rightarrow> chunk_row \<Rightarrow> nat list option" where
  "held s c = (if ciKey c = [] then None
     else if is_legacy_backup_chunk_key (ciKey c)
     then map_option lcBytes (List.find (\<lambda>l. lcBackup l = ciBackup c \<and> lcIndex l = ciIndex c) (rvLegacy s))
     else omap_get (rvObjects s) (ciKey c))"

text \<open>The object of a row has the declared size and digest.\<close>

definition holds_chunk :: "'d renv \<Rightarrow> 'd recovery \<Rightarrow> descriptor \<Rightarrow> chunk_row \<Rightarrow> nat list \<Rightarrow> bool" where
  "holds_chunk env s d c bytes \<longleftrightarrow> held s c = Some bytes \<and> (case expected_chunk d (ciIndex c) of None \<Rightarrow> False
     | Some e \<Rightarrow> int (length bytes) = ckSizeBytes e \<and> pfSha256 (evPlatform env) bytes = ckSha256 e)"

text \<open>The chunks of a backup, in their order, are the archive of the descriptor.\<close>

definition archived_whole :: "'d renv \<Rightarrow> 'd recovery \<Rightarrow> ustr \<Rightarrow> descriptor \<Rightarrow> bool" where
  "archived_whole env s backupId d \<longleftrightarrow> (let rows = backup_chunks backupId (rvChunks s) in
     map ciIndex rows = [0..<length rows] \<and> int (length rows) = arChunkCount (dsArchive d)
     \<and> (\<exists>parts. list_all2 (holds_chunk env s d) rows parts \<and> int (length (concat parts)) = arSizeBytes (dsArchive d)
          \<and> pfSha256 (evPlatform env) (concat parts) = arSha256 (dsArchive d)))"

lemma bind_demand: "st_bind (demand b st m) f s = (Inr y, s') \<Longrightarrow> b \<and> f () s = (Inr y, s')"
  by (auto simp: st_bind_Inr demand_run split: if_splits)

lemma held_untouched: "untouched s s' \<Longrightarrow> held s' = held s"
  by (auto simp: held_def untouched_def)

definition lowered :: "'d renv \<Rightarrow> chunk_row \<Rightarrow> chunk_row" where
  "lowered env c = c\<lparr>ciSha256 := pfLower (evPlatform env) (ciSha256 c)\<rparr>"

lemma lowered_simps [simp]: "ciKey (lowered env c) = ciKey c" "ciBackup (lowered env c) = ciBackup c"
    "ciIndex (lowered env c) = ciIndex c" "ciSize (lowered env c) = ciSize c"
  by (simp_all add: lowered_def)

lemma held_lowered [simp]: "held s (lowered env c) = held s c" "holds_chunk env' s d (lowered env c) = holds_chunk env' s d c"
  by (simp_all add: held_def holds_chunk_def fun_eq_iff)

lemma load_page:
  assumes "load_backup_chunk_page env i offset n s = (Inr rows, s')"
  shows "untouched s s'" "rows = map (lowered env) (take n (drop offset (backup_chunks i (rvChunks s))))"
  using d1_read_run[OF assms[unfolded load_backup_chunk_page_def]] by (simp_all add: lowered_def[abs_def])

lemma read_chunk:
  assumes "read_backup_chunk_from_store env (ciBackup c) (ciIndex c) (ciKey c) s = (Inr r, s')"
  shows "untouched s s'" "\<And>bytes. r = Some bytes \<Longrightarrow> held s c = Some bytes"
proof -
  show "untouched s s'" using st_presD[OF looking.queries(7)] assms by (metis snd_conv)
  show "held s c = Some bytes" if "r = Some bytes" for bytes
    using assms that unfolding read_backup_chunk_from_store_def held_def
    by (auto simp: st_simps eq_commute[of "Some bytes"] dest!: bind_demand d1_read_run kv_get_run split: if_splits)
qed

lemma read_rows_held:
  assumes "read_rows env i d acc rows s = (Inr bytes, s')" "\<forall>c \<in> set rows. ciBackup c = i"
  shows "untouched s s' \<and> (\<exists>parts. list_all2 (holds_chunk env s d) rows parts \<and> bytes = acc @ concat parts)"
  using assms
proof (induction rows arbitrary: acc s)
  case Nil
  then show ?case by (simp add: st_simps untouched_refl)
next
  case (Cons c cs)
  have match: "chunk_record_matches env i d c" and rest: "st_bind (read_backup_chunk_from_store env i (ciIndex c) (ciKey c)) (\<lambda>stored.
     case stored of None \<Rightarrow> refuse 409 (u ''Backup chunk was missing from object storage.'')
     | Some bytes \<Rightarrow> st_bind (demand (length bytes = ciSize c \<and> pfSha256 (evPlatform env) bytes = ciSha256 c) 409
           (u ''Backup chunk integrity verification failed.'')) (\<lambda>_. read_rows env i d (acc @ bytes) cs)) s = (Inr bytes, s')"
    using bind_demand[OF Cons.prems(1)[unfolded read_rows.simps]] by simp_all
  obtain r s1 where r: "read_backup_chunk_from_store env i (ciIndex c) (ciKey c) s = (Inr r, s1)"
    and rest: "(case r of None \<Rightarrow> refuse 409 (u ''Backup chunk was missing from object storage.'')
     | Some bytes \<Rightarrow> st_bind (demand (length bytes = ciSize c \<and> pfSha256 (evPlatform env) bytes = ciSha256 c) 409
           (u ''Backup chunk integrity verification failed.'')) (\<lambda>_. read_rows env i d (acc @ bytes) cs)) s1 = (Inr bytes, s')"
    using bind_Inr[OF rest] by blast
  obtain part where part: "r = Some part" using rest by (cases r) (simp_all add: st_simps)
  have size: "length part = ciSize c \<and> pfSha256 (evPlatform env) part = ciSha256 c"
    and later: "read_rows env i d (acc @ part) cs s1 = (Inr bytes, s')"
    using bind_demand[OF rest[unfolded part option.case]] by simp_all
  have c: "ciBackup c = i" using Cons.prems(2) by simp
  have s1: "untouched s s1" "held s c = Some part" using read_chunk[of env c s r s1] r part c by simp_all
  obtain parts where "untouched s1 s'" "list_all2 (holds_chunk env s1 d) cs parts" "bytes = (acc @ part) @ concat parts"
    using Cons.IH[OF later] Cons.prems(2) by auto
  moreover have "holds_chunk env s d c part"
    using match s1(2) size by (auto simp: holds_chunk_def chunk_record_matches_def split: option.splits)
  moreover have "holds_chunk env s1 = holds_chunk env s" using held_untouched[OF s1(1)] by (simp add: holds_chunk_def fun_eq_iff)
  ultimately show ?case using s1(1) untouched_trans by (intro conjI exI[of _ "part # parts"]) auto
qed

lemma read_pages_held:
  assumes "read_pages env i d offset acc s = (Inr bytes, s')"
    "int (length (backup_chunks i (rvChunks s))) = arChunkCount (dsArchive d)"
  shows "untouched s s' \<and> (\<exists>parts. list_all2 (holds_chunk env s d) (drop offset (backup_chunks i (rvChunks s))) parts
    \<and> bytes = acc @ concat parts)"
  using assms
proof (induction env i d offset acc s rule: read_pages.induct)
  case (1 env i d offset acc s)
  let ?rows = "backup_chunks i (rvChunks s)"
  let ?page = "map (lowered env) (take 32 (drop offset ?rows))"
  show ?case
  proof (cases "int offset < arChunkCount (dsArchive d)")
    case False
    then have "drop offset ?rows = []" "bytes = acc" "s' = s" using 1(2,3) by auto
    then show ?thesis by (simp add: untouched_refl)
  next
    case True
    let ?body = "st_bind (load_backup_chunk_page env i offset 32) (\<lambda>rows.
        st_bind (demand (rows \<noteq> []) 409 chunks_incomplete) (\<lambda>_.
        st_bind (read_rows env i d acc rows) (\<lambda>acc'. st_return (length rows - 1, acc'))))"
    obtain n acc' s1 where body: "?body s = (Inr (n, acc'), s1)" and later: "read_pages env i d (offset + n + 1) acc' s1 = (Inr bytes, s')"
      using 1(2) True by (auto split: prod.splits sum.splits)
    obtain rows s2 where rows: "load_backup_chunk_page env i offset 32 s = (Inr rows, s2)"
      and rest: "st_bind (demand (rows \<noteq> []) 409 chunks_incomplete) (\<lambda>_.
        st_bind (read_rows env i d acc rows) (\<lambda>acc'. st_return (length rows - 1, acc'))) s2 = (Inr (n, acc'), s1)"
      using bind_Inr[OF body] by blast
    have ne: "rows \<noteq> []" and "st_bind (read_rows env i d acc rows) (\<lambda>acc'. st_return (length rows - 1, acc')) s2 = (Inr (n, acc'), s1)"
      using bind_demand[OF rest] by simp_all
    then have run: "read_rows env i d acc rows s2 = (Inr acc', s1)" and n: "n = length rows - 1"
      by (auto simp: st_bind_Inr st_simps)
    have page: "untouched s s2" "rows = ?page" using load_page[OF rows] by simp_all
    have "\<forall>c \<in> set rows. ciBackup c = i"
      using set_take_subset set_drop_subset by (fastforce simp: page(2) backup_chunks_def dest: in_set_takeD in_set_dropD)
    from read_rows_held[OF run this] obtain parts where parts: "untouched s2 s1" "list_all2 (holds_chunk env s2 d) rows parts" "acc' = acc @ concat parts"
      by blast
    have s1: "untouched s s1" using page(1) parts(1) untouched_trans by blast
    then have same: "rvChunks s1 = rvChunks s" "holds_chunk env s1 = holds_chunk env s" "holds_chunk env s2 = holds_chunk env s"
      using held_untouched[OF s1] held_untouched[OF page(1)] by (simp_all add: untouched_def holds_chunk_def fun_eq_iff)
    have off: "offset + n + 1 = offset + length rows" using ne n by (cases rows) simp_all
    obtain more where more: "untouched s1 s'" "list_all2 (holds_chunk env s d) (drop (offset + length rows) ?rows) more" "bytes = acc' @ concat more"
      using 1(1)[OF True body[symmetric] refl refl later] 1(3) unfolding same off by blast
    have "list_all2 (holds_chunk env s d) (take (length rows) (drop offset ?rows)) parts"
    proof -
      have "take (length rows) (drop offset ?rows) = take 32 (drop offset ?rows)" by (simp add: page(2) min_def)
      then show ?thesis using parts(2) by (simp add: same page(2) list_all2_map1)
    qed
    moreover have "drop offset ?rows = take (length rows) (drop offset ?rows) @ drop (offset + length rows) ?rows"
      by (metis append_take_drop_id drop_drop add.commute)
    ultimately have "list_all2 (holds_chunk env s d) (drop offset ?rows) (parts @ more)"
      using more(2) list_all2_appendI by metis
    then show ?thesis using s1 more(1,3) parts(3) untouched_trans by (intro conjI exI[of _ "parts @ more"]) auto
  qed
qed

section \<open>Properties of the upload\<close>

text \<open>
  C16. A backup set that was created is described consistently. The request appends one row under a fresh
  id, in the state of an upload; the descriptor it stores declares at most the configured number of
  chunks and bytes, its chunks are numbered from 0, all but the last have the declared size, and together
  they are as long as the archive; and when every code unit is below \<open>2^16\<close> the row reads back as the same
  descriptor, with the limits of the reader and every digest checked again.
\<close>

theorem created_backup_reads_back:
  assumes "create_backup_set env rawBody s = (Inr reply, s')" "platform_lawful (evPlatform env)"
  shows "\<exists>b d. rvSets s' = rvSets s @ [b] \<and> bkId b \<notin> bkId ` set (rvSets s) \<and> bkStatus b = BackupUploading
    \<and> tiles (dsChunks d) (dsArchive d) \<and> arChunkCount (dsArchive d) \<le> max_backup_chunks (evVars env)
    \<and> arSizeBytes (dsArchive d) \<le> max_backup_bytes (evVars env) \<and> arChunkSizeBytes (dsArchive d) \<le> max_chunk_bytes (evVars env)
    \<and> (units16 (document d) \<longrightarrow> stored_descriptor (evPlatform env) b = Inr (Some d))"
proof (rule created_backup[OF assms(1)])
  fix body d i now hours
  assume d: "requested_descriptor (evPlatform env) (evVars env) body = Inr d"
    and s': "rvSets s' = rvSets s @ [new_backup_row i now (now + hours * 60 * 60 * 1000) d]" "i \<notin> bkId ` set (rvSets s)"
  obtain v w where parts: "normalize_archive (evPlatform env) (backup_descriptor_limits (evVars env)) v = Inr (dsArchive d)"
    "normalize_chunks (evPlatform env) (backup_descriptor_limits (evVars env)) (dsArchive d) w = Inr (dsChunks d)"
    using requested_parts[OF d] by blast
  note bounds = archive_normal_bounds[OF normalize_archive_normal[OF parts(1)]]
  then have "tiles (dsChunks d) (dsArchive d)" using normalized_chunks_tile[OF parts(2)] by simp
  then show ?thesis
    using s' bounds descriptor_reads_back[OF d assms(2) _ created_row_stores]
    by (intro exI[of _ "new_backup_row i now (now + hours * 60 * 60 * 1000) d"] exI[of _ d])
      (simp add: new_backup_row_def backup_descriptor_limits_def)
qed

lemma created_backup_reads_back_witness:
  "\<exists>reply s' b d. create_backup_set sample_renv sample_bytes sample_store = (Inr reply, s') \<and> rvSets s' = rvSets sample_store @ [b] \<and> tiles (dsChunks d) (dsArchive d)
    \<and> (units16 (document d) \<longrightarrow> stored_descriptor sample_platform b = Inr (Some d))"
proof -
  obtain reply s' where run: "create_backup_set sample_renv sample_bytes sample_store = (Inr reply, s')" using sample_creates by blast
  have pf: "evPlatform sample_renv = sample_platform" by (simp add: sample_renv_def)
  from created_backup_reads_back[OF run, unfolded pf, OF sample_platform_lawful] show ?thesis using run by (elim exE conjE) blast
qed

section \<open>A completed backup\<close>

lemma foldl_max_ge: "(a::nat) \<le> foldl max a xs"
  by (induction xs arbitrary: a) (simp, metis foldl_Cons max.bounded_iff)

lemma foldl_max: "k \<in> set xs \<Longrightarrow> (k::nat) \<le> foldl max a xs"
proof (induction xs arbitrary: a)
  case (Cons x xs)
  have "x \<le> foldl max (max a x) xs" using foldl_max_ge[of "max a x" xs] by simp
  then show ?case using Cons by auto
qed simp

lemma inventory_run:
  assumes "query_backup_chunk_inventory env i s = (Inr found, s')" "inventory_matches found a" "1 \<le> arChunkCount a"
    "distinct (map (\<lambda>c. (ciBackup c, ciIndex c)) (rvChunks s))"
  shows "untouched s s'" "int (length (backup_chunks i (rvChunks s))) = arChunkCount a"
    "map ciIndex (backup_chunks i (rvChunks s)) = [0..<length (backup_chunks i (rvChunks s))]"
proof -
  let ?rows = "filter (\<lambda>c. ciBackup c = i) (rvChunks s)"
  let ?is = "map ciIndex ?rows"
  have run: "untouched s s'" and found: "inCount found = length ?rows" "inMaxIndex found = (if ?is = [] then None else Some (foldl max 0 ?is))"
    using d1_read_run[OF assms(1)[unfolded query_backup_chunk_inventory_def]] by (simp_all add: Let_def)
  show "untouched s s'" by (rule run)
  have n: "int (length ?rows) = arChunkCount a" using assms(2) found by (simp add: inventory_matches_def)
  then show "int (length (backup_chunks i (rvChunks s))) = arChunkCount a" by (simp add: backup_chunks_def)
  have "?is \<noteq> []" and max: "int (foldl max 0 ?is) = arChunkCount a - 1"
    using assms(2,3) found(2) n by (auto simp: inventory_matches_def split: if_splits)
  have "k < length ?rows" if "k \<in> set ?is" for k
  proof -
    have "k \<le> foldl max 0 ?is" using that by (rule foldl_max)
    then show ?thesis using max n by linarith
  qed
  then have sub: "set ?is \<subseteq> {0..<length ?rows}" by auto
  have dist: "distinct ?is"
  proof -
    have "distinct (map (\<lambda>c. (ciBackup c, ciIndex c)) ?rows)" using assms(4) by (simp add: distinct_map_filter)
    then show ?thesis by (auto simp: distinct_map inj_on_def)
  qed
  then have "card (set ?is) = length ?rows" using distinct_card[OF dist] by (simp del: set_map)
  then have "set ?is = set [0..<length ?rows]" using sub by (simp add: card_subset_eq del: set_map)
  then show "map ciIndex (backup_chunks i (rvChunks s)) = [0..<length (backup_chunks i (rvChunks s))]"
    using dist unfolding backup_chunks_def
    by (intro sorted_distinct_set_unique) (auto simp: distinct_map)
qed

lemma verify_pages_untouched: "verify_pages env i d offset s = (Inr (), s') \<Longrightarrow> untouched s s'"
  using looking.paged[of s env i d offset] by simp

text \<open>The primary key of \<open>cpoly_backup_chunk_objects\<close>.\<close>

abbreviation chunk_keys :: "'d recovery \<Rightarrow> bool" where
  "chunk_keys s \<equiv> distinct (map (\<lambda>c. (ciBackup c, ciIndex c)) (rvChunks s))"

lemma verified_intact:
  assumes "verify_backup_store_contents env i d s = (Inr (), s')" "1 \<le> arChunkCount (dsArchive d)" "chunk_keys s"
  shows "untouched s s' \<and> archived_whole env s i d"
proof -
  obtain s1 where meta: "verify_stored_chunk_inventory_metadata env i d s = (Inr (), s1)" and rest:
    "st_bind (read_pages env i d 0 []) (\<lambda>bytes.
      demand (int (length bytes) = arSizeBytes (dsArchive d) \<and> pfSha256 (evPlatform env) bytes = arSha256 (dsArchive d)) 409
        (u ''Backup archive digest did not match the stored descriptor.'')) s1 = (Inr (), s')"
    using bind_Inr[OF assms(1)[unfolded verify_backup_store_contents_def]] by auto
  obtain found s2 where found: "query_backup_chunk_inventory env i s = (Inr found, s2)" and check:
    "st_bind (demand (inventory_matches found (dsArchive d)) 409 chunks_incomplete) (\<lambda>_. verify_pages env i d 0) s2 = (Inr (), s1)"
    using bind_Inr[OF meta[unfolded verify_stored_chunk_inventory_metadata_def]] by blast
  note found = inventory_run[OF found conjunct1[OF bind_demand[OF check]] assms(2,3)]
  have s1: "untouched s s1" using found(1) verify_pages_untouched[OF conjunct2[OF bind_demand[OF check]]] by (rule untouched_trans)
  obtain bytes where read: "read_pages env i d 0 [] s1 = (Inr bytes, s')"
    and total: "int (length bytes) = arSizeBytes (dsArchive d)" "pfSha256 (evPlatform env) bytes = arSha256 (dsArchive d)"
    using rest by (auto simp: st_bind_Inr demand_run split: if_splits)
  have same: "rvChunks s1 = rvChunks s" "holds_chunk env s1 = holds_chunk env s"
    using s1 held_untouched[OF s1] by (simp_all add: untouched_def holds_chunk_def fun_eq_iff)
  obtain parts where "untouched s1 s'" "list_all2 (holds_chunk env s d) (backup_chunks i (rvChunks s)) parts" "bytes = concat parts"
    using read_pages_held[OF read] found(2) unfolding same by auto
  then show ?thesis
    using untouched_trans[OF s1] total found(2,3) unfolding archived_whole_def Let_def by auto
qed

lemma verify_or_discard_done:
  "verify_or_discard env i d now s = (Inr (), s') \<Longrightarrow> verify_backup_store_contents env i d s = (Inr (), s')"
  by (auto simp: verify_or_discard_def st_catch_def st_bind_def st_throw_def split: prod.splits sum.splits)

lemma stored_bounds:
  assumes "stored_descriptor pf b = Inr (Some d)"
  shows "archive_normal pf stored_descriptor_limits (dsArchive d)" "tiles (dsChunks d) (dsArchive d)"
proof -
  obtain parsed where "descriptor_parts pf stored_descriptor_limits parsed = Inr d"
    using assms by (auto simp: stored_descriptor_def sbind_eq_Inr ensure_eq split: option.splits if_splits)
  then obtain v w where parts: "normalize_archive pf stored_descriptor_limits v = Inr (dsArchive d)"
    "normalize_chunks pf stored_descriptor_limits (dsArchive d) w = Inr (dsChunks d)"
    by (rule descriptor_pieces)
  show "archive_normal pf stored_descriptor_limits (dsArchive d)" by (rule normalize_archive_normal[OF parts(1)])
  from archive_normal_bounds[OF this] normalized_chunks_tile[OF parts(2)] show "tiles (dsChunks d) (dsArchive d)" by simp
qed

text \<open>Computations that do not touch the state.\<close>

definition stateless :: "('d, 'a) rdb \<Rightarrow> bool" where
  "stateless m \<longleftrightarrow> (\<forall>s. snd (m s) = s)"

lemma stateless_run: "stateless m \<Longrightarrow> m s = (r, s') \<Longrightarrow> s' = s"
  by (metis snd_conv stateless_def)

lemma stateless_basic [intro, simp]:
  "stateless (st_return x)" "stateless (st_throw e)" "stateless (demand b st m)" "stateless (routed r)" "stateless (present c)"
  by (simp_all add: stateless_def st_simps demand_run routed_run present_run)

lemma stateless_bind [intro]: "stateless m \<Longrightarrow> (\<And>x. stateless (f x)) \<Longrightarrow> stateless (st_bind m f)"
  by (auto simp: stateless_def st_bind_def split: prod.splits sum.splits) (metis snd_conv)+

lemma stateless_if [intro]: "stateless m \<Longrightarrow> stateless n \<Longrightarrow> stateless (if b then m else n)"
  by simp

lemma validation_stateless: "stateless (validate_descriptor_complete_body env i body stored)"
  unfolding validate_descriptor_complete_body_def if_given_def same_hash_def same_number_def
  by (intro stateless_bind stateless_if stateless_basic)

lemma validation_result: "validate_descriptor_complete_body env i body stored s = (Inr a, s') \<Longrightarrow> \<exists>d. stored = Some d \<and> a = dsArchive d"
  unfolding validate_descriptor_complete_body_def
  by (elim bind_Inr) (auto simp: present_run st_simps split: option.splits)

lemma d1_read_result: "d1_read env f s = (Inr x, s') \<Longrightarrow> s' = called s \<and> x = f (called s)"
  by (auto simp: d1_read_def d1_def Let_def split: fate.splits)

lemma load_set: "load_backup_set env i s = (Inr b, s') \<Longrightarrow> untouched s s' \<and> List.find (\<lambda>b. bkId b = i) (rvSets s) = Some b"
  by (auto simp: load_backup_set_def st_bind_Inr st_simps dest!: d1_read_run split: option.splits)

lemma finished_set:
  assumes "finish_backup_set env i a d now s = (Inr (), s')"
  shows "\<exists>t. untouched s t \<and> s' = t\<lparr>rvSets := update_rows (\<lambda>b. bkId b = i \<and> bkStatus b = BackupUploading) (completed_row a d now) (rvSets s)\<rparr>
    \<and> count_rows (\<lambda>b. bkId b = i \<and> bkStatus b = BackupUploading) (rvSets s) = 1"
proof -
  let ?p = "\<lambda>b. bkId b = i \<and> bkStatus b = BackupUploading"
  obtain s1 where run: "d1 env (update_sets ?p (completed_row a d now)) s = (Inr 1, s1)" and s1: "s' = s1"
    using assms by (auto simp: finish_backup_set_def st_bind_Inr demand_run split: if_splits)
  have "update_sets ?p (completed_row a d now) (called s) = Inr (1, s')" using d1_done[OF run] s1 by simp
  then show ?thesis using called_untouched[of s] by (intro exI[of _ "called s"]) (auto simp: update_sets_def split: if_splits)
qed

lemma loaded_parts:
  assumes "complete_loaded env b a d now s = (Inr reply, s')"
  obtains s1 t latest where "bkStatus b = BackupUploading" "now < bkExpiresAt b"
    "verify_backup_store_contents env (bkId b) d s = (Inr (), s1)" "finish_backup_set env (bkId b) a d now s1 = (Inr (), t)"
    "prune_expired_backups env now None t = (Inr latest, s')"
  using assms unfolding complete_loaded_def ensure_uploadable_backup_def
proof (elim bind_Inr, goal_cases)
  case (1 _ s1 _ s2 _ s3 _ s4 _ s5 latest s6)
  then show ?case
    using 1(1)[OF _ _ verify_or_discard_done] by (simp add: pure_runs Let_def split: if_splits)
qed

lemma completed_parts:
  assumes "complete_backup_set env i rawBody s = (Inr reply, s')"
  obtains b d now s1 s2 t where "untouched s s1" "List.find (\<lambda>b. bkId b = i) (rvSets s) = Some b"
    "stored_descriptor (evPlatform env) b = Inr (Some d)" "bkStatus b = BackupUploading" "now < bkExpiresAt b"
    "verify_backup_store_contents env i d s1 = (Inr (), s2)"
    "finish_backup_set env i (dsArchive d) d now s2 = (Inr (), t)"
    "\<exists>latest. prune_expired_backups env now None t = (Inr latest, s')"
  using assms unfolding complete_backup_set_def
proof (elim bind_Inr, goal_cases)
  case (1 _ s1 body s2 b s3 stored s4 a s5 now s6 d s7)
  have pure: "s1 = s" "s2 = s1" "s4 = s3" "s5 = s4" "s7 = s6" 
    using 1(2,3,5,8) stateless_run[where m="validate_descriptor_complete_body env i body stored", OF validation_stateless 1(6)]
    by (simp_all add: require_uuid_def pure_runs)
  have stored: "stored = Some d" "stored_descriptor (evPlatform env) b = Inr stored"
    using 1(5,8) by (auto simp: routed_run present_run split: sum.splits option.splits)
  have a: "a = dsArchive d" using validation_result[OF 1(6)] stored(1) by auto
  have b: "untouched s s3" "List.find (\<lambda>b. bkId b = i) (rvSets s) = Some b" using load_set[OF 1(4)] pure by simp_all
  have i: "bkId b = i" using b(2) by (auto simp: find_Some_iff)
  have s7: "untouched s s7" using b(1) clock_run(1)[OF 1(7)] pure untouched_trans by blast
  obtain s8 t latest where "bkStatus b = BackupUploading" "now < bkExpiresAt b"
    "verify_backup_store_contents env i d s7 = (Inr (), s8)" "finish_backup_set env i (dsArchive d) d now s8 = (Inr (), t)"
    "prune_expired_backups env now None t = (Inr latest, s')"
    using 1(9)[unfolded a] unfolding i[symmetric] by (rule loaded_parts)
  then show ?case using 1(1)[OF s7 b(2)] stored by blast
qed

text \<open>
  C11. A backup is complete only when the object store holds it. When a request completes a backup, the
  row it found was an upload that had not expired, its descriptor reads back, and before the status
  changes every declared chunk is there: the rows are numbered from 0, the object of each has the declared size
  and digest, and the objects one after the other have the length and the digest of the archive. The change
  itself writes the declared totals and digests to that row and nothing else; what follows it is the
  pruning of old backups.
\<close>

theorem completed_backup_is_intact:
  assumes "complete_backup_set env i rawBody s = (Inr reply, s')" "chunk_keys s"
  shows "\<exists>b d now t latest. List.find (\<lambda>b. bkId b = i) (rvSets s) = Some b \<and> bkStatus b = BackupUploading \<and> now < bkExpiresAt b
    \<and> stored_descriptor (evPlatform env) b = Inr (Some d) \<and> tiles (dsChunks d) (dsArchive d) \<and> archived_whole env s i d
    \<and> rvSets t = update_rows (\<lambda>b. bkId b = i \<and> bkStatus b = BackupUploading) (completed_row (dsArchive d) d now) (rvSets s)
    \<and> rvChunks t = rvChunks s \<and> rvObjects t = rvObjects s \<and> rvLegacy t = rvLegacy s \<and> rvRuntime t = rvRuntime s
    \<and> prune_expired_backups env now None t = (Inr latest, s')"
proof (rule completed_parts[OF assms(1)])
  fix b d now s1 s2 t
  assume s1: "untouched s s1" and b: "List.find (\<lambda>b. bkId b = i) (rvSets s) = Some b" "stored_descriptor (evPlatform env) b = Inr (Some d)"
    "bkStatus b = BackupUploading" "now < bkExpiresAt b"
    and run: "verify_backup_store_contents env i d s1 = (Inr (), s2)" "finish_backup_set env i (dsArchive d) d now s2 = (Inr (), t)"
    and prune: "\<exists>latest. prune_expired_backups env now None t = (Inr latest, s')"
  have same: "rvChunks s1 = rvChunks s" "holds_chunk env s1 = holds_chunk env s" "rvSets s1 = rvSets s" "rvObjects s1 = rvObjects s"
    "rvLegacy s1 = rvLegacy s" "rvRuntime s1 = rvRuntime s"
    using s1 held_untouched[OF s1] by (simp_all add: untouched_def holds_chunk_def fun_eq_iff)
  note bounds = archive_normal_bounds[OF stored_bounds(1)[OF b(2)]]
  have "untouched s1 s2 \<and> archived_whole env s1 i d" using verified_intact[OF run(1)] bounds assms(2) same(1) by simp
  then have "untouched s1 s2" "archived_whole env s i d" by (simp_all add: archived_whole_def same)
  then show ?thesis
    using finished_set[OF run(2)] prune b stored_bounds(2)[OF b(2)] same unfolding untouched_def
    by (intro exI[of _ b] exI[of _ d] exI[of _ now] exI[of _ t]) auto
qed

section \<open>An uploaded backup\<close>

definition sample_backup :: backup_row where
  "sample_backup = (new_backup_row sample_request 0 604800000 sample_descriptor)\<lparr>bkUploadedBytes := 5, bkUploadedChunks := 2\<rparr>"

definition sample_key :: "nat \<Rightarrow> ustr" where
  "sample_key i = chunk_key_prefix sample_renv sample_request i @ u ''/'' @ u ''t''"

definition sample_row_of :: "nat \<Rightarrow> nat \<Rightarrow> chunk_row" where
  "sample_row_of i n = \<lparr>ciBackup = sample_request, ciIndex = i, ciKey = sample_key i, ciSize = n, ciSha256 = sample_hash, ciCreatedAt = 0\<rparr>"

definition ready_runtime :: runtime where
  "ready_runtime = \<lparr>rtState = Ready, rtReadyGeneration = 1, rtTargetGeneration = None, rtRecoveryId = None, rtBackupId = None,
     rtGeneration = None, rtWatermark = None, rtLeaseExpiresAt = None, rtStartedAt = None, rtUpdatedAt = 0, rtCompletedAt = None,
     rtLastError = None\<rparr>"

definition sample_uploaded :: "ustr list recovery" where
  "sample_uploaded = sample_store\<lparr>rvSets := [sample_backup], rvChunks := [sample_row_of 0 3, sample_row_of 1 2],
     rvRuntime := Some ready_runtime, rvObjects := [(sample_key 0, [1, 2, 3]), (sample_key 1, [4, 5])]\<rparr>"

definition sample_finish :: jsv where "sample_finish = jobject [(''schema'', JStr BACKUP_DESCRIPTOR_SCHEMA)]"

lemma sample_finish_parse: "parse_required_json_body sample_renv (json_text sample_finish) BACKUP_DESCRIPTOR_SCHEMA = Inr sample_finish"
proof -
  have "json_plain sample_finish" by code_simp
  then have "json_parse (json_text sample_finish) = Some sample_finish" by (rule json_roundtrip)
  then show ?thesis
    by (simp add: parse_required_json_body_def sample_renv_def sample_platform_def sample_finish_def dot_jobject)
      (simp add: jobject_def)
qed

lemma sample_reads_back: "stores b sample_descriptor \<Longrightarrow> stored_descriptor sample_platform b = Inr (Some sample_descriptor)"
proof -
  have "units16 (document sample_descriptor)" unfolding document_def sample_descriptor_def Let_def descriptor.simps by code_simp
  then show "stores b sample_descriptor \<Longrightarrow> ?thesis"
    using descriptor_reads_back[OF sample_requested sample_platform_lawful] by blast
qed

lemma sample_key_facts: "sample_key 0 \<noteq> []" "sample_key 1 \<noteq> []" "sample_key 0 \<noteq> sample_key 1"
    "\<not> is_legacy_backup_chunk_key (sample_key 0)" "\<not> is_legacy_backup_chunk_key (sample_key 1)"
    "ascii_lower sample_hash = sample_hash"
  by code_simp+

lemma starts_with_append [simp]: "starts_with p (p @ q)"
  by (simp add: starts_with_def)

lemma sample_record_matches: "i < 2 \<Longrightarrow> n = (if i = 0 then 3 else 2) \<Longrightarrow> chunk_record_matches sample_renv sample_request sample_descriptor (lowered env (sample_row_of i n))
    = (pfLower (evPlatform env) sample_hash = sample_hash)"
  by (cases i) (auto simp: chunk_record_matches_def expected_chunk_def sample_row_of_def lowered_def sample_descriptor_def Let_def
    sample_chunks_def sample_key_def starts_with_def)

lemma sample_calls:
  "d1 sample_renv q s = (case q (called s) of Inl e \<Rightarrow> (Inl (Broken e), called s) | Inr (x, t) \<Rightarrow> (Inr x, t))"
  "d1_read sample_renv f s = (Inr (f (called s)), called s)"
  "kv_get sample_renv key s = (Inr (omap_get (rvObjects s) key), s\<lparr>rvKvCalls := rvKvCalls s + 1\<rparr>)"
  "now_ms sample_renv s = (Inr (int (wTicks (rvWorld s))), s\<lparr>rvWorld := (rvWorld s)\<lparr>wTicks := Suc (wTicks (rvWorld s))\<rparr>\<rparr>)"
  by (simp_all add: d1_read_def d1_def kv_get_def kv_def now_ms_def in_world_def clock_def sample_renv_def sample_env_def Let_def split: sum.splits)

lemma sample_environment: "evPlatform sample_renv = sample_platform" "evVars sample_renv = sample_vars" "evStore sample_renv"
    "pfLower sample_platform = ascii_lower" "pfSha256 sample_platform bytes = sample_hash" "evPostgres sample_renv"
  by (simp_all add: sample_renv_def sample_platform_def)

lemma sample_verified:
  assumes "rvChunks s = [sample_row_of 0 3, sample_row_of 1 2]" "rvObjects s = [(sample_key 0, [1, 2, 3]), (sample_key 1, [4, 5])]"
  shows "\<exists>s'. verify_backup_store_contents sample_renv sample_request sample_descriptor s = (Inr (), s')"
proof -
  have other: "sample_key (Suc 0) \<noteq> sample_key 0" using sample_key_facts(3) by simp
  note run = pure_runs st_bind_run sample_calls sample_environment
  have rows: "backup_chunks sample_request (rvChunks s) = [sample_row_of 0 3, sample_row_of 1 2]"
    by (simp add: assms backup_chunks_def sample_row_of_def)
  have parts: "dsArchive sample_descriptor = sample_archive" by (simp add: sample_descriptor_def Let_def)
  have keys: "ciKey (sample_row_of i n) = sample_key i" "ciIndex (sample_row_of i n) = i" "ciSize (sample_row_of i n) = n"
    "ciSha256 (lowered sample_renv (sample_row_of i n)) = sample_hash" "ciBackup (sample_row_of i n) = sample_request" for i n
    by (simp_all add: sample_row_of_def lowered_def sample_environment sample_key_facts[unfolded One_nat_def])
  have page: "load_backup_chunk_page sample_renv sample_request k n t = (Inr (map (lowered sample_renv) (take n (drop k [sample_row_of 0 3, sample_row_of 1 2]))), called t)"
    if "rvChunks t = rvChunks s" for t k n
    using rows that by (simp add: load_backup_chunk_page_def run lowered_def[abs_def] sample_environment)
  have inv: "query_backup_chunk_inventory sample_renv sample_request s
      = (Inr \<lparr>inCount = 2, inTotalBytes = 5, inMinIndex = Some 0, inMaxIndex = Some 1\<rparr>, called s)"
    by (simp add: query_backup_chunk_inventory_def run assms Let_def keys)
  have finished: "verify_pages sample_renv sample_request sample_descriptor 2 t = (Inr (), t)"
    "read_pages sample_renv sample_request sample_descriptor 2 acc t = (Inr acc, t)" for t acc
    by (subst verify_pages.simps, simp add: parts sample_archive_def del: verify_pages.simps)
      (subst read_pages.simps, simp add: parts sample_archive_def del: read_pages.simps)
  have pages: "verify_pages sample_renv sample_request sample_descriptor 0 t = (Inr (), called t)" if "rvChunks t = rvChunks s" for t
    by (subst verify_pages.simps)
      (simp add: run parts sample_archive_def page that sample_record_matches sample_key_facts[unfolded One_nat_def] finished[simplified numeral_2_eq_2] del: verify_pages.simps)
  have meta: "verify_stored_chunk_inventory_metadata sample_renv sample_request sample_descriptor s = (Inr (), called (called s))"
    unfolding verify_stored_chunk_inventory_metadata_def
    by (simp add: run inv inventory_matches_def parts sample_archive_def pages del: verify_pages.simps)
  have read: "\<exists>t'. read_pages sample_renv sample_request sample_descriptor 0 [] t = (Inr [1, 2, 3, 4, 5], t')"
    if "rvChunks t = rvChunks s" "rvObjects t = rvObjects s" for t
    by (subst read_pages.simps)
      (simp add: run page that parts sample_archive_def sample_record_matches sample_key_facts[unfolded One_nat_def] keys other read_backup_chunk_from_store_def
        assms finished[simplified numeral_2_eq_2] del: read_pages.simps)
  obtain t' where "read_pages sample_renv sample_request sample_descriptor 0 [] (called (called s)) = (Inr [1, 2, 3, 4, 5], t')"
    using read[of "called (called s)"] by auto
  then show ?thesis
    unfolding verify_backup_store_contents_def st_bind_run meta
    by (simp add: run parts sample_archive_def del: read_pages.simps)
qed

lemma sample_limits: "max_retained_backups sample_vars = 7" "max_retained_bytes sample_vars = 67108864"
  by code_simp+

lemma sample_completes:
  "\<exists>reply s'. complete_backup_set sample_renv sample_request (json_text sample_finish) sample_uploaded = (Inr reply, s')"
proof -
  note run = pure_runs st_bind_run sample_calls sample_environment
  have parts: "dsArchive sample_descriptor = sample_archive" "dsManifest sample_descriptor = sample_parsed"
    "dsSha256 sample_descriptor = sample_hash" "dsMetadataSha256 sample_descriptor = sample_hash"
    by (simp_all add: sample_descriptor_def Let_def)
  have cols: "bkId sample_backup = sample_request" "bkStatus sample_backup = BackupUploading" "bkExpiresAt sample_backup = 604800000"
    "bkUploadedChunks sample_backup = 2" "bkUploadedBytes sample_backup = 5" "bkLeaseExpiresAt sample_backup = None"
    "stores sample_backup sample_descriptor"
    by (simp_all add: sample_backup_def new_backup_row_def stores_def)
  have fields: "dot sample_finish k = (if k = ''schema'' then JStr BACKUP_DESCRIPTOR_SCHEMA else JUndef)" "truthy sample_finish" for k
    by (simp_all add: sample_finish_def dot_jobject) (simp add: jobject_def)
  have valid: "validate_descriptor_complete_body sample_renv sample_request sample_finish (Some sample_descriptor) s = (Inr sample_archive, s)" for s :: "ustr list recovery"
    by (simp add: validate_descriptor_complete_body_def same_hash_def same_number_def if_given_def given_def fields
      has_backup_descriptor_fields_def run parts)
  let ?s = "sample_uploaded\<lparr>rvWorld := (rvWorld sample_uploaded)\<lparr>wD1Calls := 1, wTicks := 1\<rparr>\<rparr>"
  obtain t where verified: "verify_backup_store_contents sample_renv sample_request sample_descriptor ?s = (Inr (), t)"
    using sample_verified[of ?s] by (auto simp: sample_uploaded_def)
  have "untouched ?s t"
    using verified_intact[OF verified] by (simp add: parts sample_archive_def sample_uploaded_def sample_row_of_def)
  then have t: "rvSets t = [sample_backup]" "rvRuntime t = Some ready_runtime" by (simp_all add: untouched_def sample_uploaded_def)
  have "hash_like sample_hash" by code_simp
  moreover have "length (code_points (dsJson sample_descriptor)) \<le> 65536"
    using encoded_length(1) json_text_bound sample_text_bound by (simp add: sample_descriptor_def Let_def) (meson le_trans)
  ultimately have check: "set_check (completed_row sample_archive sample_descriptor 0 sample_backup)"
    by (simp add: set_check_def completed_row_def sample_backup_def new_backup_row_def when_set_def parts sample_archive_def sample_parsed_def)
  define b where "b = completed_row sample_archive sample_descriptor 0 sample_backup"
  have b: "bkId b = sample_request" "bkStatus b = BackupComplete" "bkLeaseExpiresAt b = None" "bkExpiresAt b = 604800000"
    "bkTotalSize b = Some 5" "restorable b" "set_check b"
    using check by (simp_all add: b_def completed_row_def cols restorable_def sample_archive_def)
  have prune: "\<exists>r t'. prune_expired_backups sample_renv 0 None t = (Inr r, t')" if "rvSets t = [b]" "rvRuntime t = Some ready_runtime" for t
    by (simp add: prune_expired_backups_def get_cpoly_recovery_runtime_def run that newest_first_def b kept_sets_def keep_step_def
      protected_set_def or_else_def ready_runtime_def sample_limits batch_for_def Let_def)
  have finish: "finish_backup_set sample_renv sample_request sample_archive sample_descriptor 0 t = (Inr (), (called t)\<lparr>rvSets := [b]\<rparr>)"
    by (simp add: finish_backup_set_def run update_sets_def t cols check b_def[symmetric] b(7) update_rows_def count_rows_def)
  obtain r t' where pruned: "prune_expired_backups sample_renv 0 None ((called t)\<lparr>rvSets := [b]\<rparr>) = (Inr r, t')"
    using prune[of "(called t)\<lparr>rvSets := [b]\<rparr>"] t by auto
  have "verify_or_discard sample_renv sample_request sample_descriptor 0 ?s = (Inr (), t)"
    unfolding verify_or_discard_def st_catch_def verified by simp
  then have loaded: "\<exists>reply. complete_loaded sample_renv sample_backup sample_archive sample_descriptor 0 ?s = (Inr reply, t')"
    using pruned by (simp add: complete_loaded_def ensure_uploadable_backup_def run cols finish Let_def)
      (simp add: sample_archive_def st_simps)
  have "load_backup_set sample_renv sample_request sample_uploaded = (Inr sample_backup, called sample_uploaded)"
    by (simp add: load_backup_set_def run cols) (simp add: sample_uploaded_def cols st_simps)
  moreover have "wTicks (rvWorld sample_uploaded) = 0" "wD1Calls (rvWorld sample_uploaded) = 0"
    by (simp_all add: sample_uploaded_def sample_store_def sample_world_def)
  ultimately show ?thesis
    using loaded unfolding complete_backup_set_def
    by (simp add: require_uuid_def run sample_uuid sample_finish_parse sample_reads_back cols valid) blast
qed

lemma completed_backup_is_intact_witness:
  "\<exists>d. stored_descriptor sample_platform sample_backup = Inr (Some d) \<and> archived_whole sample_renv sample_uploaded sample_request d"
proof -
  obtain reply s' where run: "complete_backup_set sample_renv sample_request (json_text sample_finish) sample_uploaded = (Inr reply, s')"
    using sample_completes by blast
  have keys: "chunk_keys sample_uploaded" by (simp add: sample_uploaded_def sample_row_of_def)
  have "List.find (\<lambda>b. bkId b = sample_request) (rvSets sample_uploaded) = Some sample_backup"
    by (simp add: sample_uploaded_def sample_backup_def new_backup_row_def)
  with completed_backup_is_intact[OF run keys] show ?thesis by (auto simp: sample_environment)
qed

end
