(* ===== verification/RecoverySafety.thy ===== *)
theory RecoverySafety
  imports BackupSafety
begin

text \<open>
  The recovery lane under interleaving. Each awaited call of its handlers is a step; a handler is a
  sequence of steps, and the steps of several handlers may come in any order. What every step keeps,
  every request and every run of the scheduler keeps, whatever it answers and whichever calls fail.
\<close>

section \<open>Steps\<close>

inductive lane_call :: "'d renv \<Rightarrow> 'd recovery \<Rightarrow> 'd recovery \<Rightarrow> bool" for env where
  in_journal: "journal_steps (evJournal env) (rvWorld s) w \<Longrightarrow> wTicks (rvWorld s) \<le> wTicks w \<Longrightarrow> lane_call env s (s\<lparr>rvWorld := w\<rparr>)"
| kv_call: "lane_call env s (s\<lparr>rvKvCalls := n\<rparr>)"
| put_object: "lane_call env s (s\<lparr>rvObjects := omap_set key bytes (rvObjects s)\<rparr>)"
| delete_object: "lane_call env s (s\<lparr>rvObjects := filter (\<lambda>(k, v). k \<noteq> key) (rvObjects s)\<rparr>)"
| new_set: "insert_set (new_backup_row i now expiresAt d) s = Inr (n, t) \<Longrightarrow> lane_call env s t"
| new_chunk: "insert_chunk c s = Inr (n, t) \<Longrightarrow> lane_call env s t"
| count_upload: "update_sets (\<lambda>b. bkId b = i \<and> bkStatus b = BackupUploading)
    (\<lambda>b. b\<lparr>bkUploadedBytes := bytes, bkUploadedChunks := chunks, bkUpdatedAt := now\<rparr>) s = Inr (n, t) \<Longrightarrow> lane_call env s t"
| mend_chunk: "update_chunks (\<lambda>c. ciBackup c = i \<and> ciIndex c = k \<and> ciKey c = old)
    (\<lambda>c. c\<lparr>ciKey := key, ciSize := bytes, ciSha256 := hash, ciCreatedAt := now\<rparr>) s = Inr (n, t) \<Longrightarrow> lane_call env s t"
| finish_set: "update_sets (\<lambda>b. bkId b = i \<and> bkStatus b = BackupUploading) (completed_row (dsArchive d) d now) s = Inr (n, t)
    \<Longrightarrow> lane_call env s t"
| fail_set: "fail_statement now i s = Inr (n, t) \<Longrightarrow> lane_call env s t"
| expire_set: "expire_statement now i s = Inr (n, t) \<Longrightarrow> lane_call env s t"
| lease_set: "update_sets (\<lambda>b. bkId b = i \<and> bkStatus b = BackupComplete)
    (\<lambda>b. b\<lparr>bkLeaseExpiresAt := Some until, bkUpdatedAt := now\<rparr>) s = Inr (n, t) \<Longrightarrow> lane_call env s t"
| drop_set: "delete_set i s = Inr (n, t) \<Longrightarrow> lane_call env s t"
| note_error: "update_runtime (\<lambda>_. True) (\<lambda>r. r\<lparr>rtUpdatedAt := now, rtLastError := Some e\<rparr>) s = Inr (n, t) \<Longrightarrow> lane_call env s t"
| begin_run: "update_runtime (\<lambda>_. True) (begun_runtime seen recoveryId i cov until now) s = Inr (n, t) \<Longrightarrow> lane_call env s t"
| extend_run: "update_runtime (\<lambda>r. rtState r = Recovering \<and> rtRecoveryId (seen::runtime) \<noteq> None \<and> rtRecoveryId r = rtRecoveryId seen)
    (\<lambda>r. r\<lparr>rtLeaseExpiresAt := Some until, rtUpdatedAt := now, rtLastError := None\<rparr>) s = Inr (n, t) \<Longrightarrow> lane_call env s t"
| finish_run: "update_runtime (\<lambda>_. True) (finished_runtime seen now) s = Inr (n, t) \<Longrightarrow> lane_call env s t"
| note_nonce: "insert_nonce r s = Inr (n, t) \<Longrightarrow> lane_call env s t"
| prune_nonces: "k < wTicks (rvWorld s) \<Longrightarrow> old = map noNonce (take m (sort_key noExpiresAt
      (filter (\<lambda>r. noExpiresAt r \<le> jeClock (evJournal env) k) (rvNonces s))))
    \<Longrightarrow> lane_call env s (s\<lparr>rvNonces := filter (\<lambda>r. noNonce r \<notin> set old) (rvNonces s)\<rparr>)"

abbreviation lane_calls :: "'d renv \<Rightarrow> 'd recovery \<Rightarrow> 'd recovery \<Rightarrow> bool" where
  "lane_calls env \<equiv> (lane_call env)\<^sup>*\<^sup>*"

abbreviation calls :: "'d renv \<Rightarrow> ('d, 'a) rdb \<Rightarrow> bool" where
  "calls env m \<equiv> st_pres (lane_calls env) m"

lemma one_lane_call: "lane_call env s t \<Longrightarrow> lane_calls env s t" by (rule r_into_rtranclp)

lemma world_call: "journal_steps (evJournal env) (rvWorld s) w \<Longrightarrow> wTicks (rvWorld s) \<le> wTicks w \<Longrightarrow> lane_calls env s (s\<lparr>rvWorld := w\<rparr>)"
  by (rule one_lane_call) (rule in_journal)

interpretation lane: lane_effect "lane_calls env" for env
proof
  show "lane_calls env s (s\<lparr>rvWorld := w\<rparr>)"
    if "wJournal w = wJournal (rvWorld s)" "wPg w = wPg (rvWorld s)" "wTicks (rvWorld s) \<le> wTicks w" for s w
    using that by (intro world_call one_step journal_step.idle) simp_all
qed (auto intro: rtranclp_trans one_lane_call kv_call)

lemma statements [lane_intros]:
  "stmt_pres (lane_calls env) (insert_set (new_backup_row i now expiresAt d))" "stmt_pres (lane_calls env) (insert_chunk c)"
  "stmt_pres (lane_calls env) (update_sets (\<lambda>b. bkId b = i \<and> bkStatus b = BackupUploading)
     (\<lambda>b. b\<lparr>bkUploadedBytes := bytes, bkUploadedChunks := chunks, bkUpdatedAt := now\<rparr>))"
  "stmt_pres (lane_calls env) (update_chunks (\<lambda>c. ciBackup c = i \<and> ciIndex c = k \<and> ciKey c = old)
     (\<lambda>c. c\<lparr>ciKey := key, ciSize := size', ciSha256 := hash, ciCreatedAt := now\<rparr>))"
  "stmt_pres (lane_calls env) (update_sets (\<lambda>b. bkId b = i \<and> bkStatus b = BackupUploading) (completed_row (dsArchive d) d now))"
  "stmt_pres (lane_calls env) (fail_statement now i)" "stmt_pres (lane_calls env) (expire_statement now i)"
  "stmt_pres (lane_calls env) (update_sets (\<lambda>b. bkId b = i \<and> bkStatus b = BackupComplete)
     (\<lambda>b. b\<lparr>bkLeaseExpiresAt := Some until, bkUpdatedAt := now\<rparr>))"
  "stmt_pres (lane_calls env) (delete_set i)"
  "stmt_pres (lane_calls env) (update_runtime (\<lambda>_. True) (\<lambda>r. r\<lparr>rtUpdatedAt := now, rtLastError := Some e\<rparr>))"
  "stmt_pres (lane_calls env) (update_runtime (\<lambda>_. True) (begun_runtime seen recoveryId i cov until now))"
  "stmt_pres (lane_calls env) (update_runtime (\<lambda>r. rtState r = Recovering \<and> rtRecoveryId (seen::runtime) \<noteq> None \<and> rtRecoveryId r = rtRecoveryId seen)
     (\<lambda>r. r\<lparr>rtLeaseExpiresAt := Some until, rtUpdatedAt := now, rtLastError := None\<rparr>))"
  "stmt_pres (lane_calls env) (update_runtime (\<lambda>_. True) (finished_runtime seen now))" "stmt_pres (lane_calls env) (insert_nonce r)"
  unfolding stmt_pres_def by (intro allI impI one_lane_call, erule lane_call.intros)+

lemma calls_objects [lane_intros]: "calls env (kv_put env' key bytes)" "calls env (kv_delete env' key)"
  unfolding kv_put_def kv_delete_def
  by (rule lane.stored, auto intro: one_lane_call[OF put_object] one_lane_call[OF delete_object])+

lemma calls_world: "(\<And>w. journal_steps (evJournal env) w (snd (m w)) \<and> wTicks w \<le> wTicks (snd (m w))) \<Longrightarrow> calls env (in_world m)"
  by (rule st_presI) (auto simp: in_world_def split: prod.split intro!: world_call, (metis snd_conv)+)

section \<open>Journal calls\<close>

lemma journal_run_ticks: "wTicks (snd (journal_run env q w)) = wTicks w"
  by (simp add: journal_run_def Let_def split: fate.splits sum.splits prod.splits)

lemma transaction_ticks: "wTicks (snd (pg_transaction env body w)) = wTicks w"
  by (simp add: pg_transaction_def Let_def split: fate.splits option.splits sum.splits prod.splits)

interpretation forward: write_effect "\<lambda>w w'. wTicks w \<le> wTicks w'" env for env
  by unfold_locales
    (auto simp: st_pres_def journal_calls requeue_ambiguous_failed_journal_entries_def mark_journal_applied_def update_journal_def
      promote_recovery_generation_def get_current_receipt_watermark_def st_bind_run st_simps journal_run_ticks transaction_ticks
      split: sum.splits)

lemma calls_replay [lane_intros]: "calls env (in_world (replay_recovery_journal (evJournal env) limit))"
  using st_presD[OF steps.replay] st_presD[OF forward.replay] by (intro calls_world) blast

lemma cleanup_ticks: "wTicks (snd (cleanup_applied_recovery_journal env snapshot limit w)) = wTicks w"
  by (simp add: cleanup_applied_recovery_journal_def journal_read_def Let_def st_bind_run st_simps journal_run_ticks
    split: option.splits fate.splits sum.splits)

lemma calls_cleanup [lane_intros]: "calls env (in_world (cleanup_applied_recovery_journal (evJournal env) snapshot limit))"
  by (intro calls_world conjI one_step journal_step.clean) (simp add: cleanup_ticks)

lemma calls_recovery:
  assumes "complete_recovery_replay (evJournal env) cov target limit (rvWorld s) = Some (r, w)"
  shows "lane_calls env s (s\<lparr>rvWorld := w\<rparr>)"
  by (rule world_call) (rule steps.recovery[OF assms], rule forward.recovery[OF assms])

section \<open>Handlers are calls\<close>

lemma calls_store [lane_intros]:
  "calls env (build_backup_chunk_key env i j)"
  "calls env (put_backup_chunk_to_store env key bytes)" "calls env (delete_backup_chunk_from_store env key)"
  unfolding build_backup_chunk_key_def put_backup_chunk_to_store_def delete_backup_chunk_from_store_def
  by (intro lane_intros)+

lemma calls_delete_objects [lane_intros]: "calls env (delete_objects env cs)"
  by (induction cs) (auto intro!: lane_intros)

lemma calls_delete_best_effort [lane_intros]: "calls env (delete_backup_objects_best_effort env i)"
  unfolding delete_backup_objects_best_effort_def by (intro lane_intros)

lemma calls_upload [lane_intros]: "calls env (create_backup_set env body)" "calls env (upload_backup_chunk env i k body)"
  unfolding create_backup_set_def upload_backup_chunk_def upload_again_def upload_new_def repair_chunk_def store_chunk_def or_delete_def
    Let_def
  by (intro lane_intros | auto intro!: lane_intros)+

lemma calls_runtime [lane_intros]:
  "calls env (set_recovery_runtime_error env e)"
  "calls env (touch_backup_restore_lease env i until)"
  unfolding set_recovery_runtime_error_def touch_backup_restore_lease_def by (intro lane_intros)+

lemma calls_sets [lane_intros]:
  "calls env (batch_for env (expire_statement now) is)" "calls env (batch_for env (fail_statement now) is)" "calls env (batch_for env delete_set is)"
  unfolding batch_for_def by (intro lane_intros, auto intro!: lane_intros)+

lemma calls_delete_sets [lane_intros]: "calls env (delete_sets_objects env is)"
  by (induction "is") (auto intro!: lane_intros)

lemma calls_prune [lane_intros]: "calls env (prune_expired_backups env now rt)"
  unfolding prune_expired_backups_def Let_def by (intro lane_intros)

lemma calls_complete [lane_intros]: "calls env (complete_backup_set env i body)"
proof -
  have "calls env (finish_backup_set env j (dsArchive d) d now)" for j d now
    unfolding finish_backup_set_def by (intro lane_intros)
  moreover have "calls env (verify_or_discard env j d now)" for j d now
    unfolding verify_or_discard_def mark_backup_failed_def by (intro lane_intros)
  ultimately have "calls env (complete_loaded env b (dsArchive d) d now)" for b d now
    unfolding complete_loaded_def Let_def by (intro lane_intros)
  then have "calls env (st_bind (now_ms env) (\<lambda>now. st_bind (present (Some d)) (\<lambda>d. complete_loaded env b (dsArchive d) d now)))" for b d
    by (intro lane_intros)
  then have loaded: "calls env (st_bind (now_ms env) (\<lambda>now. st_bind (present (Some d)) (\<lambda>d'. complete_loaded env b (dsArchive d) d' now)))" for b d
    by (simp add: present_def return_bind)
  have "calls env (st_bind (validate_descriptor_complete_body env i v stored) (\<lambda>a.
    st_bind (now_ms env) (\<lambda>now. st_bind (present stored) (\<lambda>d. complete_loaded env b a d now))))" for v stored b
  proof (rule st_pres_bind_from[OF rtranclp_trans lane.checks(1)])
    fix s a s' assume "validate_descriptor_complete_body env i v stored s = (Inr a, s')"
    then obtain d where "stored = Some d" "a = dsArchive d" using validation_result by blast
    then show "lane_calls env s' (snd (st_bind (now_ms env) (\<lambda>now. st_bind (present stored) (\<lambda>d. complete_loaded env b a d now)) s'))"
      using st_presD[OF loaded] by simp
  qed
  then show ?thesis unfolding complete_backup_set_def
    by (rule lane.bind[OF lane.checks(4) lane.bind[OF lane.pure(4) lane.bind[OF lane.queries(1) lane.bind[OF lane.pure(4)]]]])
qed

lemma calls_reads [lane_intros]: "calls env (fetch_latest_backup env)" "calls env (fetch_backup_chunk env i k)"
  unfolding fetch_latest_backup_def fetch_backup_chunk_def Let_def by (intro lane_intros)+

lemma calls_begin [lane_intros]: "calls env (begin_recovery env body)"
  unfolding begin_recovery_def begin_or_extend_def extend_recovery_def start_recovery_def Let_def
  by (intro lane_intros)

lemma calls_conclude [lane_intros]: "calls env (conclude_recovery env seen cov a)"
  unfolding conclude_recovery_def by (intro lane_intros)

lemma calls_signed [lane_intros]: "calls env (verify_signed_cpoly_request env rq)"
  unfolding verify_signed_cpoly_request_def unauthorized_def Let_def by (intro lane_intros)

lemma calls_admit [lane_intros]: "calls env (admit env rq)"
  unfolding admit_def read_internal_request_body_def Let_def by (intro lane_intros)

lemma complete_recovery_calls:
  assumes "complete_recovery env body s = Some (r, s')"
  shows "lane_calls env s s'"
proof -
  obtain c s1 where c: "check_completion env body s = (c, s1)" by fastforce
  have "calls env (check_completion env body)" by (rule lane.completion_checks)
  from st_presD[OF this, of s] have s1: "lane_calls env s s1" using c by simp
  show ?thesis
  proof (cases c)
    case (Inl e)
    then show ?thesis using assms c s1 by (simp add: complete_recovery_def)
  next
    case (Inr x)
    obtain seen cov where x: "x = (seen, cov)" by fastforce
    obtain a w where w: "complete_recovery_replay (evJournal env) cov (target_generation seen)
        (nat (journal_replay_limit (evVars env))) (rvWorld s1) = Some (a, w)"
      using assms c Inr x by (auto simp: complete_recovery_def split: option.splits)
    have s2: "lane_calls env s (s1\<lparr>rvWorld := w\<rparr>)" using s1 calls_recovery[OF w] by (rule rtranclp_trans)
    show ?thesis
    proof (cases a)
      case (Inl e)
      then show ?thesis using assms c Inr x w s2 by (simp add: complete_recovery_def)
    next
      case (Inr y)
      have "lane_calls env (s1\<lparr>rvWorld := w\<rparr>) s'"
        using st_presD[OF calls_conclude, of env "s1\<lparr>rvWorld := w\<rparr>" seen cov y] assms c \<open>c = Inr x\<close> x w Inr
        by (simp add: complete_recovery_def)
      then show ?thesis by (rule rtranclp_trans[OF s2])
    qed
  qed
qed

lemma returning_calls: "returning m s = Some (r, s') \<Longrightarrow> calls env m \<Longrightarrow> lane_calls env s s'"
  by (auto simp: returning_def dest: st_presD[where s = s])

lemma dispatch_calls: "dispatch env rq s = Some (r, s') \<Longrightarrow> lane_calls env s s'"
  unfolding dispatch_def Let_def
  by (auto split: if_splits elim!: returning_calls complete_recovery_calls intro!: lane_intros)

lemma route_calls: "route_cpoly_backup_request env rq s = Some (r, s') \<Longrightarrow> lane_calls env s s'"
proof -
  obtain a s1 where a: "admit env rq s = (a, s1)" by fastforce
  then have "lane_calls env s s1" using st_presD[OF calls_admit, of env s rq] by simp
  moreover have "lane_calls env s1 t" if "dispatch env rq s1 = Some (q, t)" for q t using dispatch_calls[OF that] .
  ultimately show "route_cpoly_backup_request env rq s = Some (r, s') \<Longrightarrow> ?thesis"
    using a by (cases a) (auto simp: route_cpoly_backup_request_def apfst_def map_prod_def split: if_splits sum.splits intro: rtranclp_trans)
qed

lemma prune_nonces_calls:
  assumes "k < wTicks (rvWorld s)"
  shows "lane_calls env s (snd (prune_signed_nonces env (jeClock (evJournal env) k) n s))"
proof -
  let ?old = "map noNonce (take n (sort_key noExpiresAt (filter (\<lambda>r. noExpiresAt r \<le> jeClock (evJournal env) k) (rvNonces s))))"
  let ?t = "(called s)\<lparr>rvNonces := filter (\<lambda>r. noNonce r \<notin> set ?old) (rvNonces s)\<rparr>"
  have "lane_call env (called s) ?t" using lane_call.prune_nonces[of k "called s" ?old n env] assms by simp
  then have "lane_calls env s ?t" using lane.counted by (rule rtranclp.rtrancl_into_rtrancl[rotated])
  then show ?thesis
    using lane.counted[of env s] by (simp add: prune_signed_nonces_def d1_def Let_def st_bind_run st_simps split: fate.split)
qed

lemma maintenance_calls: "calls env (process_cpoly_recovery_maintenance env)"
  unfolding process_cpoly_recovery_maintenance_def
proof (rule st_pres_bind_from[OF rtranclp_trans lane.clocks(1)])
  fix s now s' assume run: "now_ms env s = (Inr now, s')"
  then have now: "now = jeClock (evJournal env) (wTicks (rvWorld s))" "wTicks (rvWorld s) < wTicks (rvWorld s')"
    by (auto simp: now_ms_def in_world_def clock_def)
  let ?rest = "\<lambda>_. st_bind (get_cpoly_recovery_runtime env) (\<lambda>rt. st_bind (or_none (prune_expired_backups env now (Some rt))) (\<lambda>snapshot.
    if rtState rt = Recovering \<or> \<not> evPostgres env then st_return ()
    else st_bind (ignoring (in_world (replay_recovery_journal (evJournal env) (nat (journal_replay_limit (evVars env)))))) (\<lambda>_.
      case snapshot of None \<Rightarrow> st_return ()
      | Some (i, cov) \<Rightarrow> ignoring (in_world (cleanup_applied_recovery_journal (evJournal env) (Some cov)
          (nat (journal_cleanup_limit (evVars env))))))))"
  let ?prune = "ignoring (prune_signed_nonces env now (nat (nonce_prune_limit (evVars env))))"
  have "lane_calls env s' (snd (?prune s'))"
    using prune_nonces_calls[OF now(2), of env] unfolding now(1) ignoring_def
    by (auto simp: st_catch_run st_bind_run st_simps split: sum.split)
  moreover have "calls env (?rest ())" by (intro lane_intros)
  ultimately show "lane_calls env s' (snd (st_bind ?prune ?rest s'))"
    by (auto simp: st_bind_run[of ?prune] split: sum.split intro: rtranclp_trans st_presD)
qed

section \<open>Invariants\<close>

locale lane_invariant =
  fixes I :: "'d recovery \<Rightarrow> bool" and env :: "'d renv"
  assumes step: "lane_call env s t \<Longrightarrow> I s \<Longrightarrow> I t"
begin

lemma kept: "lane_calls env s t \<Longrightarrow> I s \<Longrightarrow> I t"
  by (induction rule: rtranclp_induct) (auto dest: step)

lemma requested: "route_cpoly_backup_request env rq s = Some (r, s') \<Longrightarrow> I s \<Longrightarrow> I s'"
  using route_calls kept by blast

lemma maintained: "I s \<Longrightarrow> I (snd (process_cpoly_recovery_maintenance env s))"
  using st_presD[OF maintenance_calls] kept by blast

end

text \<open>The tables agree with their keys, references and checks.\<close>

definition set_ids :: "'d recovery \<Rightarrow> ustr set" where
  "set_ids s = bkId ` set (rvSets s)"

definition schema_holds :: "'d recovery \<Rightarrow> bool" where
  "schema_holds s \<longleftrightarrow> distinct (map bkId (rvSets s)) \<and> (\<forall>b \<in> set (rvSets s). set_check b)
     \<and> chunk_keys s \<and> distinct (map ciKey (rvChunks s)) \<and> (\<forall>c \<in> set (rvChunks s). chunk_check c \<and> ciBackup c \<in> set_ids s)
     \<and> distinct (map noNonce (rvNonces s)) \<and> (\<forall>r \<in> set (rvNonces s). nonce_check r)
     \<and> when_set (\<lambda>r. runtime_check r \<and> when_set (\<lambda>i. i \<in> set_ids s) (rtBackupId r)) (rvRuntime s)"

text \<open>
  A complete set can be selected for a restore, a set that is not complete has no time of completion, and a
  running recovery knows its run, its snapshot and the generation it builds, the next one.
\<close>

definition set_sound :: "backup_row \<Rightarrow> bool" where
  "set_sound b \<longleftrightarrow> bkDescriptorJson b \<noteq> None \<and> (bkStatus b = BackupComplete \<longrightarrow> restorable b \<and> bkCompletedAt b \<noteq> None
       \<and> bkTotalSize b \<noteq> None \<and> bkChunkCount b \<noteq> None \<and> bkSha256 b \<noteq> None)
     \<and> (bkCompletedAt b \<noteq> None \<longrightarrow> bkStatus b = BackupComplete)"

definition run_sound :: "runtime \<Rightarrow> bool" where
  "run_sound r \<longleftrightarrow> (rtState r = Recovering \<longrightarrow> rtTargetGeneration r = Some (rtReadyGeneration r + 1) \<and> rtRecoveryId r \<noteq> None
     \<and> rtGeneration r \<noteq> None \<and> rtWatermark r \<noteq> None \<and> rtLeaseExpiresAt r \<noteq> None \<and> rtStartedAt r \<noteq> None)"

definition lane_sound :: "'d recovery \<Rightarrow> bool" where
  "lane_sound s \<longleftrightarrow> schema_holds s \<and> (\<forall>b \<in> set (rvSets s). set_sound b)
     \<and> when_set run_sound (rvRuntime s)"

lemma updated_sets:
  assumes "update_sets p f s = Inr (n, t)"
  shows "t = s\<lparr>rvSets := map (\<lambda>b. if p b then f b else b) (rvSets s)\<rparr>" "\<And>b. b \<in> set (rvSets s) \<Longrightarrow> p b \<Longrightarrow> set_check (f b)"
  using assms by (auto simp: update_sets_def update_rows_def split: if_splits)

lemma update_sets_sound:
  assumes "update_sets p f s = Inr (n, t)" "lane_sound s" "\<And>b. bkId (f b) = bkId b" "\<And>b. p b \<Longrightarrow> set_sound b \<Longrightarrow> set_sound (f b)"
  shows "lane_sound t"
proof -
  note t = updated_sets[OF assms(1)]
  have ids: "map bkId (rvSets t) = map bkId (rvSets s)" by (simp add: t(1) assms(3))
  then have idset: "set_ids t = set_ids s" unfolding set_ids_def by (metis list.set_map)
  have same: "rvChunks t = rvChunks s" "rvNonces t = rvNonces s" "rvRuntime t = rvRuntime s" by (simp_all add: t(1))
  have "\<forall>b \<in> set (rvSets t). set_check b \<and> set_sound b"
    using assms(2,4) t(2) by (auto simp: t(1) lane_sound_def schema_holds_def)
  then show ?thesis
    using assms(2) unfolding lane_sound_def schema_holds_def same ids idset by simp
qed

lemma update_runtime_sound:
  assumes "update_runtime p f s = Inr (n, t)" "lane_sound s" "\<And>r. p r \<Longrightarrow> run_sound r \<Longrightarrow> run_sound (f r)"
  shows "lane_sound t"
proof (cases "t = s")
  case False
  then obtain r where r: "rvRuntime s = Some r" "p r" "runtime_check (f r)" "when_set (\<lambda>i. i \<in> set_ids s) (rtBackupId (f r))"
    "t = s\<lparr>rvRuntime := Some (f r)\<rparr>"
    using assms(1) by (auto simp: update_runtime_def set_ids_def split: option.splits if_splits)
  have "rvSets t = rvSets s" "rvChunks t = rvChunks s" "rvNonces t = rvNonces s" "set_ids t = set_ids s" "rvRuntime t = Some (f r)"
    by (simp_all add: r(5) set_ids_def)
  then show ?thesis using assms(2) r(1,3,4) assms(3)[OF r(2)] unfolding lane_sound_def schema_holds_def by (simp add: when_set_def)
qed (use assms(2) in simp)

lemma lane_sound_frame [simp]:
  "lane_sound (s\<lparr>rvWorld := w\<rparr>) = lane_sound s" "lane_sound (s\<lparr>rvKvCalls := n\<rparr>) = lane_sound s"
  "lane_sound (s\<lparr>rvObjects := x\<rparr>) = lane_sound s"
  by (simp_all add: lane_sound_def schema_holds_def set_ids_def)

lemma delete_set_sound:
  assumes "delete_set i s = Inr (n, t)" "lane_sound s"
  shows "lane_sound t"
proof -
  have t: "rvSets t = filter (\<lambda>b. bkId b \<noteq> i) (rvSets s)" "rvChunks t = filter (\<lambda>c. ciBackup c \<noteq> i) (rvChunks s)"
    "rvNonces t = rvNonces s"
    "rvRuntime t = map_option (\<lambda>r. if rtBackupId r = Some i \<and> i \<in> set_ids s then r\<lparr>rtBackupId := None\<rparr> else r) (rvRuntime s)"
    using assms(1) by (auto simp: delete_set_def set_ids_def)
  have ids: "set_ids t = set_ids s - {i}" by (auto simp: set_ids_def t)
  have lists: "distinct (map bkId (rvSets t))" "chunk_keys t" "distinct (map ciKey (rvChunks t))"
    using assms(2) by (simp_all add: lane_sound_def schema_holds_def t distinct_map_filter)
  have members: "\<forall>b \<in> set (rvSets t). set_check b \<and> set_sound b" "\<forall>c \<in> set (rvChunks t). chunk_check c \<and> ciBackup c \<in> set_ids t"
    using assms(2) unfolding lane_sound_def schema_holds_def ids t by auto
  have "when_set (\<lambda>r. runtime_check r \<and> when_set (\<lambda>i. i \<in> set_ids t) (rtBackupId r)) (rvRuntime t) \<and> when_set run_sound (rvRuntime t)"
    using assms(2) unfolding lane_sound_def schema_holds_def ids t
    by (cases "rvRuntime s") (auto simp: runtime_check_def run_sound_def when_set_def split: option.splits)
  then show ?thesis
    using assms(2) lists members unfolding lane_sound_def schema_holds_def t(3) by simp
qed

lemma update_chunks_sound:
  assumes "update_chunks p f s = Inr (n, t)" "lane_sound s" "\<And>c. ciBackup (f c) = ciBackup c"
  shows "lane_sound t"
proof -
  have t: "t = s\<lparr>rvChunks := update_rows p f (rvChunks s)\<rparr>" and checks: "\<forall>c \<in> set (rvChunks t). chunk_check c"
    "chunk_keys t" "distinct (map ciKey (rvChunks t))"
    using assms(1) by (auto simp: update_chunks_def Let_def split: if_splits)
  have "\<forall>c \<in> set (rvChunks t). ciBackup c \<in> set_ids t"
    using assms(2,3) by (auto simp: t update_rows_def lane_sound_def schema_holds_def set_ids_def)
  moreover have "rvSets t = rvSets s" "rvNonces t = rvNonces s" "rvRuntime t = rvRuntime s" "set_ids t = set_ids s" by (simp_all add: t set_ids_def)
  ultimately show ?thesis using assms(2) checks unfolding lane_sound_def schema_holds_def by simp
qed

lemma insert_sound:
  "insert_set (new_backup_row i now e d) s = Inr (n, t) \<Longrightarrow> lane_sound s \<Longrightarrow> lane_sound t"
  "insert_chunk c s = Inr (n, t) \<Longrightarrow> lane_sound s \<Longrightarrow> lane_sound t"
  "insert_nonce r s = Inr (n, t) \<Longrightarrow> lane_sound s \<Longrightarrow> lane_sound t"
proof -
  assume run: "insert_set (new_backup_row i now e d) s = Inr (n, t)" and s: "lane_sound s"
  have t: "t = s\<lparr>rvSets := rvSets s @ [new_backup_row i now e d]\<rparr>" "set_check (new_backup_row i now e d)" "i \<notin> set_ids s"
    using run by (auto simp: insert_set_def set_ids_def new_backup_row_def split: if_splits)
  have ids: "set_ids t = insert i (set_ids s)" by (auto simp: set_ids_def t(1) new_backup_row_def)
  have new: "set_sound (new_backup_row i now e d)" by (simp add: set_sound_def new_backup_row_def)
  have "distinct (map bkId (rvSets t))" "\<forall>b \<in> set (rvSets t). set_check b \<and> set_sound b"
    using s t(2,3) new by (auto simp: t(1) lane_sound_def schema_holds_def set_ids_def new_backup_row_def)
  moreover have "when_set (\<lambda>r. runtime_check r \<and> when_set (\<lambda>i. i \<in> set_ids t) (rtBackupId r)) (rvRuntime s)"
    using s by (auto simp: lane_sound_def schema_holds_def ids when_set_def split: option.splits)
  moreover have "rvChunks t = rvChunks s" "rvNonces t = rvNonces s" "rvRuntime t = rvRuntime s" by (simp_all add: t)
  ultimately show "lane_sound t" using s unfolding lane_sound_def schema_holds_def by (auto simp: ids)
next
  assume run: "insert_chunk c s = Inr (n, t)" and s: "lane_sound s"
  have t: "t = s\<lparr>rvChunks := rvChunks s @ [c]\<rparr>" "chunk_check c" "ciBackup c \<in> set_ids s"
    "(ciBackup c, ciIndex c) \<notin> set (map (\<lambda>c. (ciBackup c, ciIndex c)) (rvChunks s))" "ciKey c \<notin> set (map ciKey (rvChunks s))"
    using run by (auto simp: insert_chunk_def set_ids_def image_iff split: if_splits)
  have "chunk_keys t" "distinct (map ciKey (rvChunks t))" "\<forall>c \<in> set (rvChunks t). chunk_check c \<and> ciBackup c \<in> set_ids s"
    using s t(2-5) unfolding lane_sound_def schema_holds_def t(1) by (auto simp del: set_map)
  moreover have "rvSets t = rvSets s" "rvNonces t = rvNonces s" "rvRuntime t = rvRuntime s" "set_ids t = set_ids s" by (simp_all add: t(1) set_ids_def)
  ultimately show "lane_sound t" using s unfolding lane_sound_def schema_holds_def by simp
next
  assume "insert_nonce r s = Inr (n, t)" "lane_sound s"
  then show "lane_sound t" by (auto simp: insert_nonce_def lane_sound_def schema_holds_def set_ids_def split: if_splits option.splits)
qed

lemma call_sound: "lane_call env s t \<Longrightarrow> lane_sound s \<Longrightarrow> lane_sound t"
proof (induction rule: lane_call.induct)
  case (prune_nonces k s old m)
  then show ?case by (auto simp: lane_sound_def schema_holds_def set_ids_def distinct_map_filter)
next
  case (count_upload i bytes chunks now s n t)
  show ?case by (rule update_sets_sound[OF count_upload]) (auto simp: set_sound_def restorable_def)
next
  case (mend_chunk i k old key bytes hash now s n t)
  show ?case by (rule update_chunks_sound[OF mend_chunk]) simp
next
  case (finish_set i d now s n t)
  show ?case by (rule update_sets_sound[OF finish_set]) (auto simp: set_sound_def restorable_def completed_row_def)
next
  case (fail_set now i s n t)
  show ?case by (rule update_sets_sound[OF fail_set[unfolded fail_statement_def]]) (auto simp: set_sound_def)
next
  case (expire_set now i s n t)
  show ?case by (rule update_sets_sound[OF expire_set[unfolded expire_statement_def]]) (auto simp: set_sound_def)
next
  case (lease_set i until now s n t)
  show ?case by (rule update_sets_sound[OF lease_set]) (auto simp: set_sound_def restorable_def)
next
  case (note_error now e s n t)
  show ?case by (rule update_runtime_sound[OF note_error]) (simp add: run_sound_def)
next
  case (begin_run seen recoveryId i cov until now s n t)
  show ?case by (rule update_runtime_sound[OF begin_run]) (simp add: run_sound_def begun_runtime_def)
next
  case (extend_run seen until now s n t)
  show ?case by (rule update_runtime_sound[OF extend_run]) (simp add: run_sound_def)
next
  case (finish_run seen now s n t)
  show ?case by (rule update_runtime_sound[OF finish_run]) (simp add: run_sound_def finished_runtime_def)
qed (simp_all add: insert_sound delete_set_sound)

interpretation soundness: lane_invariant lane_sound env for env
  by unfold_locales (rule call_sound)

section \<open>Replayed requests\<close>

text \<open>A nonce is in the table until its time has passed on a clock that was read.\<close>

definition remembered :: "'d renv \<Rightarrow> nonce_row \<Rightarrow> 'd recovery \<Rightarrow> bool" where
  "remembered env r s \<longleftrightarrow> distinct (map noNonce (rvNonces s))
     \<and> (r \<in> set (rvNonces s) \<or> (\<exists>k < wTicks (rvWorld s). noExpiresAt r \<le> jeClock (evJournal env) k))"

lemma statement_frames:
  "insert_set b s = Inr (n, t) \<Longrightarrow> rvNonces t = rvNonces s \<and> rvWorld t = rvWorld s"
  "insert_chunk c s = Inr (n, t) \<Longrightarrow> rvNonces t = rvNonces s \<and> rvWorld t = rvWorld s"
  "update_sets p f s = Inr (n, t) \<Longrightarrow> rvNonces t = rvNonces s \<and> rvWorld t = rvWorld s"
  "update_chunks p' f' s = Inr (n, t) \<Longrightarrow> rvNonces t = rvNonces s \<and> rvWorld t = rvWorld s"
  "delete_set i s = Inr (n, t) \<Longrightarrow> rvNonces t = rvNonces s \<and> rvWorld t = rvWorld s"
  "update_runtime p'' f'' s = Inr (n, t) \<Longrightarrow> rvNonces t = rvNonces s \<and> rvWorld t = rvWorld s"
  by (auto simp: insert_set_def insert_chunk_def update_sets_def update_chunks_def delete_set_def update_runtime_def Let_def
    split: if_splits option.splits)

lemma call_remembered: "lane_call env s t \<Longrightarrow> remembered env r s \<Longrightarrow> remembered env r t"
proof (induction rule: lane_call.induct)
  case (in_journal s w)
  then show ?case by (auto simp: remembered_def intro: order_less_le_trans)
next
  case (note_nonce r s n t)
  then show ?case by (auto simp: remembered_def insert_nonce_def split: if_splits)
next
  case (prune_nonces k s old m)
  have dist: "distinct (map noNonce (rvNonces s))" using prune_nonces(3) by (simp add: remembered_def)
  have "noExpiresAt r \<le> jeClock (evJournal env) k" if row: "r \<in> set (rvNonces s)" "noNonce r \<in> set old"
  proof -
    obtain q where q: "q \<in> set (rvNonces s)" "noExpiresAt q \<le> jeClock (evJournal env) k" "noNonce q = noNonce r"
      using row(2) unfolding prune_nonces(2) by (force dest: in_set_takeD)
    then show ?thesis using row(1) dist by (auto simp: distinct_map dest: inj_onD)
  qed
  then show ?case using prune_nonces(1,3) by (auto simp: remembered_def distinct_map_filter)
qed (auto simp: remembered_def fail_statement_def expire_statement_def dest!: statement_frames)

interpretation memory_of: lane_invariant "remembered env r" env for env r
  by unfold_locales (rule call_remembered)

lemma signed_parts:
  assumes "verify_signed_cpoly_request env rq s = (Inr (), s')"
  obtains t where "parse_int (or_else (rqTimestamp rq) []) = Some t"
    "\<bar>jeClock (evJournal env) (wTicks (rvWorld s)) - t\<bar> \<le> CPOLY_SIGNATURE_WINDOW_MS"
    "rvNonces s' = rvNonces s @ [\<lparr>noNonce = header_text env (rqNonce rq), noMethod = rqMethod rq, noPath = rqPathname rq @ rqSearch rq,
       noBodySha256 = header_text env (rqBodySha256 rq), noCreatedAt = jeClock (evJournal env) (wTicks (rvWorld s)),
       noExpiresAt = t + CPOLY_SIGNATURE_WINDOW_MS\<rparr>]"
    "header_text env (rqNonce rq) \<notin> noNonce ` set (rvNonces s)" "jeClock (evJournal env) (wTicks (rvWorld s)) < t + CPOLY_SIGNATURE_WINDOW_MS"
    "constant_time_hex_equal (evHmac env (hmac_key env) (build_cpoly_canonical_text env (rqMethod rq) (rqPathname rq @ rqSearch rq) t
       (header_text env (rqNonce rq)) (header_text env (rqBodySha256 rq)))) (header_text env (rqSignature rq))"
    "constant_time_hex_equal (pfSha256 (evPlatform env) (rqBody rq)) (header_text env (rqBodySha256 rq))"
  using assms unfolding verify_signed_cpoly_request_def Let_def unauthorized_def
proof (elim bind_Inr, goal_cases)
  case (1 _ s1 now s2 _ s3 _ s4 _ s5 n s6)
  obtain t where t: "parse_int (or_else (rqTimestamp rq) []) = Some t" using 1(2) by (auto simp: demand_run split: if_splits option.splits)
  have s1: "s1 = s" using 1(2) by (auto simp: demand_run split: if_splits)
  have now: "now = jeClock (evJournal env) (wTicks (rvWorld s))" "rvNonces s2 = rvNonces s"
    using 1(3) by (auto simp: s1 now_ms_def in_world_def clock_def)
  have s5: "s5 = s2" and checks: "\<bar>now - t\<bar> \<le> CPOLY_SIGNATURE_WINDOW_MS"
    "constant_time_hex_equal (pfSha256 (evPlatform env) (rqBody rq)) (header_text env (rqBodySha256 rq))"
    "constant_time_hex_equal (evHmac env (hmac_key env) (build_cpoly_canonical_text env (rqMethod rq) (rqPathname rq @ rqSearch rq) t
       (header_text env (rqNonce rq)) (header_text env (rqBodySha256 rq)))) (header_text env (rqSignature rq))"
    using 1(4-6) t by (auto simp: demand_run split: if_splits)
  let ?r = "\<lparr>noNonce = header_text env (rqNonce rq), noMethod = rqMethod rq, noPath = rqPathname rq @ rqSearch rq,
       noBodySha256 = header_text env (rqBodySha256 rq), noCreatedAt = now, noExpiresAt = t + CPOLY_SIGNATURE_WINDOW_MS\<rparr>"
  have "n = 1" "s' = s6" using 1(8) by (auto simp: demand_run split: if_splits)
  moreover have "insert_nonce ?r (called s2) = Inr (n, s6)" using d1_done[OF 1(7)] t unfolding s5 by simp
  ultimately have "rvNonces s' = rvNonces s @ [?r]" "header_text env (rqNonce rq) \<notin> noNonce ` set (rvNonces s)" "now < t + CPOLY_SIGNATURE_WINDOW_MS"
    using now(2) by (auto simp: insert_nonce_def nonce_check_def split: if_splits)
  then show ?case using 1(1)[OF t] checks unfolding now(1) by blast
qed

section \<open>Properties of the lane\<close>

definition sample_signed :: request where
  "sample_signed = \<lparr>rqMethod = u ''GET'', rqPathname = u ''/api/internal/cpoly-recovery/status'', rqSearch = [], rqContentLength = None,
     rqTimestamp = Some (u ''5''), rqNonce = Some sample_request, rqBodySha256 = Some sample_hash, rqSignature = Some sample_hash, rqBody = []\<rparr>"

lemma sample_signature:
  "header_text sample_renv (Some sample_request) = sample_request" "header_text sample_renv (Some sample_hash) = sample_hash"
  "matches SHA256_HEX_PATTERN sample_hash" "constant_time_hex_equal sample_hash sample_hash" "parse_int (u ''5'') = Some 5" "hash_like sample_hash"
  by code_simp+

lemma sample_verifies: "\<exists>s'. verify_signed_cpoly_request sample_renv sample_signed sample_uploaded = (Inr (), s') \<and> rvRuntime s' = Some ready_runtime"
proof -
  have "evHmac sample_renv k m = sample_hash" for k m by (simp add: sample_renv_def)
  moreover have "wTicks (rvWorld sample_uploaded) = 0" "rvNonces sample_uploaded = []" "rvRuntime sample_uploaded = Some ready_runtime"
    by (simp_all add: sample_uploaded_def sample_store_def sample_world_def)
  ultimately show ?thesis
    by (simp add: verify_signed_cpoly_request_def unauthorized_def pure_runs st_bind_run sample_calls sample_environment sample_signed_def
      sample_signature or_else_def sample_uuid Let_def insert_nonce_def nonce_check_def MAX_SAFE_INTEGER_def CPOLY_SIGNATURE_WINDOW_MS_def)
qed

text \<open>
  C12. A signed request is accepted at most once. When the signature check has accepted a request, no later
  check accepts a request with the same nonce and timestamp, which the signature covers: not after any
  sequence of calls of any handlers, interleaved in any order and failing in any way, and not after the
  scheduler has pruned nonces. A nonce is forgotten only when the time window of its request is over, and at the
  boundary itself the constraint of the table refuses the row.
\<close>

theorem signed_request_accepted_once:
  assumes "mono (jeClock (evJournal env))" "distinct (map noNonce (rvNonces s))"
    "verify_signed_cpoly_request env rq s = (Inr (), s1)" "lane_calls env s1 s2"
    "header_text env (rqNonce rq') = header_text env (rqNonce rq)" "rqTimestamp rq' = rqTimestamp rq"
  shows "fst (verify_signed_cpoly_request env rq' s2) \<noteq> Inr ()"
proof
  assume "fst (verify_signed_cpoly_request env rq' s2) = Inr ()"
  then obtain s3 where second: "verify_signed_cpoly_request env rq' s2 = (Inr (), s3)" by (metis prod.collapse)
  obtain t r where t: "parse_int (or_else (rqTimestamp rq) []) = Some t" and r: "rvNonces s1 = rvNonces s @ [r]" "noNonce r \<notin> noNonce ` set (rvNonces s)"
    "noNonce r = header_text env (rqNonce rq)" "noExpiresAt r = t + CPOLY_SIGNATURE_WINDOW_MS"
    by (rule signed_parts[OF assms(3)]) force
  have "remembered env r s1" using assms(2) r by (auto simp: remembered_def)
  then have kept: "remembered env r s2" by (rule memory_of.kept[OF assms(4)])
  have fresh: "header_text env (rqNonce rq) \<notin> noNonce ` set (rvNonces s2)"
    "jeClock (evJournal env) (wTicks (rvWorld s2)) < t + CPOLY_SIGNATURE_WINDOW_MS"
    by (rule signed_parts[OF second], use t assms(5,6) in simp)+
  then obtain k where "k < wTicks (rvWorld s2)" "t + CPOLY_SIGNATURE_WINDOW_MS \<le> jeClock (evJournal env) k"
    using kept r(3,4) by (force simp: remembered_def image_iff)
  then show False using fresh(2) monoD[OF assms(1), of k "wTicks (rvWorld s2)"] by simp
qed

lemma signed_request_accepted_once_witness:
  "\<exists>s1. verify_signed_cpoly_request sample_renv sample_signed sample_uploaded = (Inr (), s1)
    \<and> fst (verify_signed_cpoly_request sample_renv sample_signed (snd (process_cpoly_recovery_maintenance sample_renv s1))) \<noteq> Inr ()"
proof -
  obtain s1 where first: "verify_signed_cpoly_request sample_renv sample_signed sample_uploaded = (Inr (), s1)" using sample_verifies by blast
  have "mono (jeClock (evJournal sample_renv))" by (simp add: sample_renv_def sample_env_def mono_def)
  moreover have "distinct (map noNonce (rvNonces sample_uploaded))" by (simp add: sample_uploaded_def sample_store_def)
  ultimately show ?thesis
    using first signed_request_accepted_once[OF _ _ first st_presD[OF maintenance_calls] refl refl] by blast
qed

text \<open>
  C23. Every request of the recovery lane and every run of its scheduler, whatever it answers, is a sequence
  of the lane's calls, and keeps the state sound: keys are unique and references point to rows, every row
  passes its checks, a complete set has what a restore selects it by, only a complete set has a time of completion, and a
  running recovery builds the generation after the ready one and knows its run and its snapshot.
\<close>

theorem lane_requests_keep_state_sound:
  "(route_cpoly_backup_request env rq s = Some (r, s') \<longrightarrow> lane_calls env s s' \<and> (lane_sound s \<longrightarrow> lane_sound s'))
    \<and> lane_calls env s (snd (process_cpoly_recovery_maintenance env s))
    \<and> (lane_sound s \<longrightarrow> lane_sound (snd (process_cpoly_recovery_maintenance env s)))"
  using route_calls soundness.requested soundness.maintained st_presD[OF maintenance_calls] by blast

lemma sample_sound: "lane_sound sample_uploaded"
proof -
  have "length (code_points (dsJson sample_descriptor)) \<le> 65536"
    using encoded_length(1) json_text_bound sample_text_bound by (simp add: sample_descriptor_def Let_def) (meson le_trans)
  moreover have "dsSha256 sample_descriptor = sample_hash" "dsMetadataSha256 sample_descriptor = sample_hash" "dsManifest sample_descriptor = sample_parsed"
    by (simp_all add: sample_descriptor_def Let_def)
  ultimately have "set_check sample_backup" "set_sound sample_backup"
    by (simp_all add: set_check_def set_sound_def sample_backup_def new_backup_row_def when_set_def sample_signature sample_parsed_def)
  moreover have "length (code_points (sample_key 0)) \<le> 512" "length (code_points (sample_key 1)) \<le> 512" "sample_key 0 \<noteq> sample_key 1"
    "1 \<le> length (code_points (sample_key 0))" "1 \<le> length (code_points (sample_key 1))"
    by code_simp+
  ultimately show ?thesis
    by (simp add: lane_sound_def schema_holds_def sample_uploaded_def sample_store_def sample_row_of_def chunk_check_def
      set_ids_def sample_backup_def new_backup_row_def sample_signature run_sound_def ready_runtime_def runtime_check_def when_set_def)
qed

lemma lane_requests_keep_state_sound_witness:
  "\<exists>r s'. route_cpoly_backup_request sample_renv sample_signed sample_uploaded = Some (r, s') \<and> lane_sound s'"
proof -
  obtain s1 where "verify_signed_cpoly_request sample_renv sample_signed sample_uploaded = (Inr (), s1)" "rvRuntime s1 = Some ready_runtime"
    using sample_verifies by blast
  moreover have "cpoly_backup_configured sample_renv" by code_simp
  moreover have "starts_with (u ''/api/internal/cpoly-recovery'') (rqPathname sample_signed)" by code_simp
  moreover have "internal_route_body_limit sample_renv sample_signed = 262144" by code_simp
  ultimately have "\<exists>r s'. route_cpoly_backup_request sample_renv sample_signed sample_uploaded = Some (r, s')"
    by (simp add: route_cpoly_backup_request_def admit_def read_internal_request_body_def pure_runs st_bind_run Let_def)
      (simp add: sample_signed_def or_else_def dispatch_def returning_def Let_def, metis surj_pair)
  then show ?thesis using lane_requests_keep_state_sound sample_sound by blast
qed

end
