(* ===== verification/RecoveryBehaviour.thy ===== *)
theory RecoveryBehaviour
  imports RecoverySafety
begin

text \<open>
  What the scheduler's pruning spares, what a completed recovery has restored, and two situations in which
  handlers that run at the same time defeat the purpose of the code.
\<close>

section \<open>Pruning\<close>

text \<open>
  \<open>D\<close> are the sets that are removed, \<open>K\<close> the keys of the objects of all others: a step spares them when it
  leaves the other sets, their chunks and their objects as they are.
\<close>

definition others :: "ustr set \<Rightarrow> 'd recovery \<Rightarrow> backup_row list \<times> chunk_row list \<times> legacy_chunk list" where
  "others D s = (filter (\<lambda>b. bkId b \<notin> D) (rvSets s), filter (\<lambda>c. ciBackup c \<notin> D) (rvChunks s), filter (\<lambda>c. lcBackup c \<notin> D) (rvLegacy s))"

definition keyed :: "ustr set \<Rightarrow> ustr set \<Rightarrow> 'd recovery \<Rightarrow> bool" where
  "keyed D K s \<longleftrightarrow> distinct (map ciKey (rvChunks s)) \<and> K = ciKey ` {c \<in> set (rvChunks s). ciBackup c \<notin> D}"

definition spares :: "ustr set \<Rightarrow> ustr set \<Rightarrow> 'd recovery \<Rightarrow> 'd recovery \<Rightarrow> bool" where
  "spares D K s t \<longleftrightarrow> (keyed D K s \<longrightarrow> keyed D K t \<and> others D t = others D s
     \<and> (\<forall>key \<in> K. omap_get (rvObjects t) key = omap_get (rvObjects s) key))"

abbreviation sparing :: "ustr set \<Rightarrow> ustr set \<Rightarrow> ('d, 'a) rdb \<Rightarrow> bool" where
  "sparing D K m \<equiv> st_pres (spares D K) m"

lemma spares_refl [simp]: "spares D K s s"
  by (simp add: spares_def)

lemma spares_trans: "spares D K s t \<Longrightarrow> spares D K t r \<Longrightarrow> spares D K s r"
  by (auto simp: spares_def)

lemma untouched_spares: "untouched s t \<Longrightarrow> spares D K s t"
  by (simp add: spares_def untouched_def keyed_def others_def)

interpretation sparing: lane_effect "spares D K" for D K
  by unfold_locales (auto intro: untouched_spares spares_trans simp: untouched_def)

lemma filter_update: "(\<And>b. p b \<Longrightarrow> \<not> g b) \<Longrightarrow> (\<And>b. g (f b) = g b) \<Longrightarrow> filter g (map (\<lambda>b. if p b then f b else b) bs) = filter g bs"
  by (induction bs) auto

lemma filter_keyed: "keyed D K s \<Longrightarrow> i \<in> D \<Longrightarrow> rvChunks t = filter (\<lambda>c. ciBackup c \<noteq> i) (rvChunks s) \<Longrightarrow> keyed D K t"
  by (auto simp: keyed_def distinct_map_filter)

lemma statements_spare [lane_intros]:
  assumes "i \<in> D"
  shows "stmt_pres (spares D K) (expire_statement now i)" "stmt_pres (spares D K) (fail_statement now i)" "stmt_pres (spares D K) (delete_set i)"
proof -
  show "stmt_pres (spares D K) (delete_set i)"
    using assms unfolding stmt_pres_def spares_def
    by (auto simp: delete_set_def others_def filter_keyed intro!: filter_cong)
  have "spares D K s t" if "update_sets (\<lambda>b. bkId b = i \<and> g b) f s = Inr (n, t)" "\<And>b. bkId (f b) = bkId b" for g f s t n
    using assms updated_sets(1)[OF that(1)] that(2) unfolding spares_def
    by (auto simp: others_def keyed_def intro: filter_update)
  then show "stmt_pres (spares D K) (expire_statement now i)" "stmt_pres (spares D K) (fail_statement now i)"
    unfolding stmt_pres_def expire_statement_def fail_statement_def by fastforce+
qed

lemma omap_get_filter: "omap_get (filter (\<lambda>(k, v). k \<noteq> key) m) k = (if k = key then None else omap_get m k)"
  by (induction m) auto

lemma sparing_kv_delete: "key \<notin> K \<Longrightarrow> sparing D K (kv_delete env key)"
proof (rule st_presI)
  fix s :: "'a recovery" assume key: "key \<notin> K"
  have "spares D K s (s\<lparr>rvKvCalls := n\<rparr>)"
    "spares D K s (s\<lparr>rvKvCalls := n, rvObjects := filter (\<lambda>(k, v). k \<noteq> key) (rvObjects s)\<rparr>)" for n
    using key by (auto simp: spares_def keyed_def others_def omap_get_filter)
  then show "spares D K s (snd (kv_delete env key s))"
    by (simp add: kv_delete_def kv_def Let_def split: kv_fate.split)
qed

lemma sparing_delete_objects: "\<forall>c \<in> set cs. ciKey c \<notin> K \<Longrightarrow> sparing D K (delete_objects env cs)"
proof (induction cs)
  case (Cons c cs)
  have "sparing D K (delete_backup_chunk_from_store env (ciKey c))"
    using Cons.prems unfolding delete_backup_chunk_from_store_def by (intro lane_intros sparing_kv_delete) simp
  then show ?case using Cons by (auto intro!: lane_intros)
qed (auto intro: lane_intros)

lemma page_keys:
  assumes "load_backup_chunk_page env i k n s = (Inr rows, s')" "keyed D K s" "i \<in> D"
  shows "\<forall>c \<in> set rows. ciKey c \<notin> K"
proof
  fix c assume "c \<in> set rows"
  then obtain c' where c': "c' \<in> set (rvChunks s)" "ciBackup c' = i" "ciKey c' = ciKey c"
    unfolding load_page(2)[OF assms(1)] backup_chunks_def by (fastforce dest: in_set_takeD in_set_dropD)
  then show "ciKey c \<notin> K" using assms(2,3) by (auto simp: keyed_def distinct_map dest: inj_onD)
qed

lemma sparing_best_effort:
  assumes "i \<in> D"
  shows "sparing D K (delete_backup_objects_best_effort env i)"
  unfolding delete_backup_objects_best_effort_def
proof (rule st_presI)
  let ?load = "load_backup_chunk_page env i 0 (nat (max (max_backup_chunks (evVars env)) 1))"
  fix s :: "'a recovery"
  have load: "spares D K s (snd (?load s))"
    unfolding load_backup_chunk_page_def by (rule st_presD[OF sparing.look])
  show "spares D K s (snd (st_bind ?load (delete_objects env) s))"
  proof (cases "?load s")
    case (Pair r s1)
    have "spares D K s1 (snd (delete_objects env rows s1))" if "r = Inr rows" "keyed D K s" for rows
      by (rule st_presD[OF sparing_delete_objects[OF page_keys]]) (use Pair that assms in blast)+
    then have "keyed D K s \<longrightarrow> spares D K s (snd (st_bind ?load (delete_objects env) s))"
      using load Pair by (auto simp: st_bind_def split: sum.split intro: spares_trans)
    then show ?thesis by (auto simp: spares_def)
  qed
qed

lemma sparing_sets: "set is \<subseteq> D \<Longrightarrow> sparing D K (delete_sets_objects env is)"
  by (induction "is") (auto intro!: lane_intros sparing_best_effort)

lemma deleted_subset: "delete_sets_objects env is s = (Inr done', s') \<Longrightarrow> set done' \<subseteq> set is"
  by (induction "is" arbitrary: s done' s') (auto simp: st_bind_Inr st_simps split: if_splits, blast+)

lemma sparing_batches [lane_intros]:
  assumes "set is \<subseteq> D"
  shows "sparing D K (batch_for env (expire_statement now) is)" "sparing D K (batch_for env (fail_statement now) is)" "sparing D K (batch_for env delete_set is)"
  using assms unfolding batch_for_def by (auto intro!: lane_intros)

text \<open>The deletion of the sets that were selected.\<close>

lemma removal_spares:
  assumes "set del \<subseteq> D" "set stale \<subseteq> D"
  shows "sparing D K (st_bind (batch_for env (expire_statement now) del) (\<lambda>_.
    st_bind (batch_for env (fail_statement now) stale) (\<lambda>_.
    st_bind (delete_sets_objects env (del @ stale)) (\<lambda>confirmed.
    st_bind (batch_for env delete_set confirmed) (\<lambda>_. st_return x)))))"
proof -
  have both: "set (del @ stale) \<subseteq> D" using assms by simp
  have "sparing D K (st_bind (delete_sets_objects env (del @ stale)) (\<lambda>confirmed. st_bind (batch_for env delete_set confirmed) (\<lambda>_. st_return x)))"
  proof (rule st_pres_bind_from[OF spares_trans sparing_sets[OF both]])
    fix s confirmed s' assume "delete_sets_objects env (del @ stale) s = (Inr confirmed, s')"
    from deleted_subset[OF this] both have "set confirmed \<subseteq> D" by blast
    then show "spares D K s' (snd (st_bind (batch_for env delete_set confirmed) (\<lambda>_. st_return x) s'))"
      by (rule st_presD[OF sparing.bind[OF sparing_batches(3) sparing.pure(1)]])
  qed
  then show ?thesis by (rule sparing.bind[OF sparing_batches(1)[OF assms(1)] sparing.bind[OF sparing_batches(2)[OF assms(2)]]])
qed

definition expired_ids :: "bindings \<Rightarrow> int \<Rightarrow> runtime \<Rightarrow> backup_row list \<Rightarrow> ustr list" where
  "expired_ids vars now rt sets = map bkId (filter (\<lambda>b. bkId b \<notin> set (kept_sets vars now rt (newest_first sets))) (newest_first sets))"

definition stale_ids :: "bindings \<Rightarrow> int \<Rightarrow> backup_row list \<Rightarrow> ustr list" where
  "stale_ids vars now sets = map bkId (filter (\<lambda>b. bkStatus b \<noteq> BackupComplete
     \<and> bkCreatedAt b \<le> now - stale_upload_hours vars * 60 * 60 * 1000) sets)"

definition removed_ids :: "bindings \<Rightarrow> int \<Rightarrow> runtime \<Rightarrow> backup_row list \<Rightarrow> ustr set" where
  "removed_ids vars now rt sets = set (expired_ids vars now rt sets) \<union> set (stale_ids vars now sets)"

lemma read_cases:
  assumes "st_bind (d1_read env f) g s = (r, s')"
  obtains (failed) e where "untouched s s'" "r = Inl e" | (read) "g (f (called s)) (called s) = (r, s')"
  using assms by (auto simp: d1_read_def d1_def st_bind_def Let_def untouched_def simp del: One_nat_def split: fate.splits)

lemma prune_spares:
  assumes "prune_expired_backups env now (Some rt) s = (r, s')"
  shows "spares (removed_ids (evVars env) now rt (rvSets s)) K s s'
    \<and> (\<forall>x. r = Inr x \<longrightarrow> x = latest_kept (kept_sets (evVars env) now rt (newest_first (rvSets s))) (newest_first (rvSets s)))"
proof -
  let ?rows = "newest_first (rvSets s)"
  let ?keep = "kept_sets (evVars env) now rt ?rows"
  let ?rest = "\<lambda>s stale. st_bind (batch_for env (expire_statement now) (expired_ids (evVars env) now rt (rvSets s))) (\<lambda>_.
    st_bind (batch_for env (fail_statement now) (filter (\<lambda>i. i \<notin> set (expired_ids (evVars env) now rt (rvSets s))) stale)) (\<lambda>_.
    st_bind (delete_sets_objects env (expired_ids (evVars env) now rt (rvSets s) @ filter (\<lambda>i. i \<notin> set (expired_ids (evVars env) now rt (rvSets s))) stale)) (\<lambda>confirmed.
    st_bind (batch_for env delete_set confirmed) (\<lambda>_. st_return (latest_kept ?keep ?rows)))))"
  have run: "st_bind (d1_read env (\<lambda>s. newest_first (rvSets s))) (\<lambda>completeRows.
      st_bind (d1_read env (\<lambda>s. map bkId (filter (\<lambda>b. bkStatus b \<noteq> BackupComplete \<and> bkCreatedAt b \<le> now - stale_upload_hours (evVars env) * 60 * 60 * 1000) (rvSets s)))) (\<lambda>stale.
        let keepIds = kept_sets (evVars env) now rt completeRows; deleteIds = map bkId (filter (\<lambda>b. bkId b \<notin> set keepIds) completeRows);
          staleDeleteIds = filter (\<lambda>i. i \<notin> set deleteIds) stale in
        st_bind (batch_for env (expire_statement now) deleteIds) (\<lambda>_.
        st_bind (batch_for env (fail_statement now) staleDeleteIds) (\<lambda>_.
        st_bind (delete_sets_objects env (deleteIds @ staleDeleteIds)) (\<lambda>confirmed.
        st_bind (batch_for env delete_set confirmed) (\<lambda>_. st_return (latest_kept keepIds completeRows))))))) s = (r, s')"
    using assms unfolding prune_expired_backups_def Let_def by (simp add: return_bind)
  show ?thesis
    using run
  proof (cases rule: read_cases)
    case (failed e)
    then show ?thesis by (simp add: untouched_spares)
  next
    case read
    from read show ?thesis
    proof (cases rule: read_cases)
      case (failed e)
      then show ?thesis using untouched_trans[OF called_untouched failed(1)] by (simp add: untouched_spares)
    next
      case read
      then have rest: "?rest s (stale_ids (evVars env) now (rvSets s)) (called (called s)) = (r, s')"
        by (simp add: Let_def expired_ids_def stale_ids_def)
      have "spares (removed_ids (evVars env) now rt (rvSets s)) K (called (called s))
          (snd (?rest s (stale_ids (evVars env) now (rvSets s)) (called (called s))))"
        by (rule st_presD, rule removal_spares) (auto simp: removed_ids_def)
      then have "spares (removed_ids (evVars env) now rt (rvSets s)) K (called (called s)) s'" unfolding rest by simp
      moreover have "\<forall>x. r = Inr x \<longrightarrow> x = latest_kept ?keep ?rows" using rest by (auto simp: st_bind_Inr st_simps)
      moreover have "untouched s (called (called s))" by (rule untouched_trans[OF called_untouched called_untouched])
      ultimately show ?thesis using untouched_spares spares_trans by blast
    qed
  qed
qed

lemma kept_more: "set (fst acc) \<subseteq> set (fst (foldl (keep_step vars now rt) acc rows))"
proof (induction rows arbitrary: acc)
  case (Cons b rows)
  have "set (fst acc) \<subseteq> set (fst (keep_step vars now rt acc b))" by (cases acc) (auto simp: keep_step_def Let_def)
  then show ?case using Cons[of "keep_step vars now rt acc b"] by simp
qed simp

lemma kept_protected: "b \<in> set rows \<Longrightarrow> protected_set now rt b \<Longrightarrow> bkId b \<in> set (kept_sets vars now rt rows)"
proof -
  have "b \<in> set rows \<Longrightarrow> protected_set now rt b \<Longrightarrow> bkId b \<in> set (fst (foldl (keep_step vars now rt) acc rows))" for acc
  proof (induction rows arbitrary: acc)
    case (Cons a rows)
    show ?case
    proof (cases "a = b")
      case True
      then have "bkId b \<in> set (fst (keep_step vars now rt acc a))" using Cons.prems(2) by (cases acc) (auto simp: keep_step_def Let_def)
      then show ?thesis using kept_more[of "keep_step vars now rt acc a" vars now rt rows] by auto
    qed (use Cons in auto)
  qed simp
  then show "b \<in> set rows \<Longrightarrow> protected_set now rt b \<Longrightarrow> ?thesis" by (simp add: kept_sets_def)
qed

lemma bounded_integer_least: "minimum \<le> fallback \<Longrightarrow> minimum \<le> maximum \<Longrightarrow> minimum \<le> bounded_integer v fallback minimum maximum"
  by (auto simp: bounded_integer_def split: option.splits)

lemma kept_first:
  assumes "now < bkExpiresAt b" "or_else (bkTotalSize b) 0 \<le> max_retained_bytes vars"
  shows "bkId b \<in> set (kept_sets vars now rt (b # rows))"
proof -
  have "1 \<le> max_retained_backups vars" unfolding max_retained_backups_def by (rule bounded_integer_least) simp_all
  then have "bkId b \<in> set (fst (keep_step vars now rt ([], 0) b))" using assms by (simp add: keep_step_def Let_def)
  then show ?thesis using kept_more[of "keep_step vars now rt ([], 0) b" vars now rt rows] by (auto simp: kept_sets_def)
qed

text \<open>
  A complete set is needed while it is leased, while the running recovery reads it, and while it is the
  newest one and has not expired (and fits the byte limit); an upload until it is stale.
\<close>

definition needed :: "bindings \<Rightarrow> int \<Rightarrow> runtime \<Rightarrow> backup_row list \<Rightarrow> backup_row \<Rightarrow> bool" where
  "needed vars now rt sets b \<longleftrightarrow> (if bkStatus b = BackupComplete
     then protected_set now rt b
       \<or> b = hd (newest_first sets) \<and> now < bkExpiresAt b \<and> or_else (bkTotalSize b) 0 \<le> max_retained_bytes vars
     else now - stale_upload_hours vars * 60 * 60 * 1000 < bkCreatedAt b)"

lemma needed_not_removed:
  assumes "lane_sound s" "b \<in> set (rvSets s)" "needed vars now rt (rvSets s) b"
  shows "bkId b \<notin> removed_ids vars now rt (rvSets s)"
proof -
  have dist: "distinct (map bkId (rvSets s))" and sound: "set_sound b" using assms(1,2) by (simp_all add: lane_sound_def schema_holds_def)
  have same: "b' = b" if "b' \<in> set (rvSets s)" "bkId b' = bkId b" for b'
    using dist that assms(2) by (auto simp: distinct_map dest: inj_onD)
  have rows: "b' \<in> set (newest_first (rvSets s)) \<longleftrightarrow> b' \<in> set (rvSets s) \<and> restorable b'" for b' by (auto simp: newest_first_def)
  show ?thesis
  proof (cases "bkStatus b = BackupComplete")
    case True
    then have mem: "b \<in> set (newest_first (rvSets s))" using sound assms(2) rows by (simp add: set_sound_def)
    then have "newest_first (rvSets s) = hd (newest_first (rvSets s)) # tl (newest_first (rvSets s))" by (cases "newest_first (rvSets s)") auto
    then have "bkId b \<in> set (kept_sets vars now rt (newest_first (rvSets s)))"
      using assms(3) True kept_protected[OF mem] kept_first[of now b vars rt "tl (newest_first (rvSets s))"] by (auto simp: needed_def)
    then show ?thesis using True same by (auto simp: removed_ids_def expired_ids_def stale_ids_def)
  next
    case False
    then show ?thesis using same rows assms(3) by (auto simp: removed_ids_def expired_ids_def stale_ids_def needed_def restorable_def)
  qed
qed

lemma find_filter: "(\<And>x. P x \<Longrightarrow> Q x) \<Longrightarrow> List.find P (filter Q xs) = List.find P xs"
  by (induction xs) auto

lemma spared:
  assumes "spares D (ciKey ` {c \<in> set (rvChunks s). ciBackup c \<notin> D}) s t" "distinct (map ciKey (rvChunks s))" "i \<notin> D"
  shows "filter (\<lambda>c. ciBackup c = i) (rvChunks t) = filter (\<lambda>c. ciBackup c = i) (rvChunks s)"
    "\<And>c. c \<in> set (rvChunks s) \<Longrightarrow> ciBackup c = i \<Longrightarrow> held t c = held s c"
    "\<And>b. b \<in> set (rvSets s) \<Longrightarrow> bkId b = i \<Longrightarrow> b \<in> set (rvSets t)"
proof -
  have eq: "others D t = others D s" and objects: "\<And>c. c \<in> set (rvChunks s) \<Longrightarrow> ciBackup c \<notin> D \<Longrightarrow> omap_get (rvObjects t) (ciKey c) = omap_get (rvObjects s) (ciKey c)"
    using assms(1,2) by (auto simp: spares_def keyed_def)
  have parts: "filter (\<lambda>c. ciBackup c = i) (rvChunks u) = filter (\<lambda>c. ciBackup c = i) (filter (\<lambda>c. ciBackup c \<notin> D) (rvChunks u))" for u :: "'a recovery"
    using assms(3) by (auto intro: filter_cong)
  show "filter (\<lambda>c. ciBackup c = i) (rvChunks t) = filter (\<lambda>c. ciBackup c = i) (rvChunks s)"
    unfolding parts[of t] parts[of s] using eq unfolding others_def by simp
  show "b \<in> set (rvSets t)" if "b \<in> set (rvSets s)" "bkId b = i" for b
  proof -
    have "b \<in> set (fst (others D s))" using that assms(3) by (simp add: others_def)
    then show ?thesis unfolding eq[symmetric] by (simp add: others_def)
  qed
  show "held t c = held s c" if "c \<in> set (rvChunks s)" "ciBackup c = i" for c
  proof -
    have "List.find (\<lambda>l. lcBackup l = i \<and> lcIndex l = ciIndex c) (rvLegacy u)
        = List.find (\<lambda>l. lcBackup l = i \<and> lcIndex l = ciIndex c) (snd (snd (others D u)))" for u :: "'a recovery"
      unfolding others_def fst_conv snd_conv by (rule find_filter[symmetric]) (use assms(3) in auto)
    then show ?thesis using that objects assms(3) by (simp add: held_def eq)
  qed
qed

lemma intact_spared:
  assumes "filter (\<lambda>c. ciBackup c = i) (rvChunks t) = filter (\<lambda>c. ciBackup c = i) (rvChunks s)"
    "\<And>c. c \<in> set (rvChunks s) \<Longrightarrow> ciBackup c = i \<Longrightarrow> held t c = held s c"
  shows "archived_whole env t i d = archived_whole env s i d"
proof -
  have rows: "backup_chunks i (rvChunks t) = backup_chunks i (rvChunks s)" using assms(1) by (simp add: backup_chunks_def)
  have "list_all2 (holds_chunk env t d) (backup_chunks i (rvChunks s)) parts = list_all2 (holds_chunk env s d) (backup_chunks i (rvChunks s)) parts" for parts
    by (rule list.rel_cong) (use assms(2) in \<open>auto simp: holds_chunk_def backup_chunks_def\<close>)
  then show ?thesis by (simp add: archived_whole_def rows)
qed

text \<open>
  C13. Pruning spares what a restore may need. Whatever calls fail on the way, a complete set that is leased,
  that the running recovery reads, or that is the newest one and has not expired, and an upload
  that is not stale, keeps its row, its chunks and their objects, so that it is as whole as before. The
  coverage pruning answers, up to which the journal may be cleared, is that of the newest set it keeps.
\<close>

theorem pruning_spares_needed_backups:
  assumes "lane_sound s" "b \<in> set (rvSets s)" "needed (evVars env) now rt (rvSets s) b"
    "prune_expired_backups env now (Some rt) s = (r, s')"
  shows "b \<in> set (rvSets s') \<and> filter (\<lambda>c. ciBackup c = bkId b) (rvChunks s') = filter (\<lambda>c. ciBackup c = bkId b) (rvChunks s)
    \<and> (\<forall>c \<in> set (rvChunks s). ciBackup c = bkId b \<longrightarrow> held s' c = held s c)
    \<and> (archived_whole env s (bkId b) d \<longrightarrow> archived_whole env s' (bkId b) d)
    \<and> (\<forall>x. r = Inr x \<longrightarrow> x = latest_kept (kept_sets (evVars env) now rt (newest_first (rvSets s))) (newest_first (rvSets s)))"
proof -
  have keys: "distinct (map ciKey (rvChunks s))" using assms(1) by (simp add: lane_sound_def schema_holds_def)
  note spared = spared[OF conjunct1[OF prune_spares[OF assms(4)]] keys needed_not_removed[OF assms(1-3)]]
  show ?thesis
    using spared(1,2) spared(3)[OF assms(2) refl] intact_spared[OF spared(1,2), of env d] prune_spares[OF assms(4)] by blast
qed

lemma pruning_spares_needed_backups_witness:
  "sample_backup \<in> set (rvSets (snd (prune_expired_backups sample_renv 1 (Some ready_runtime) sample_uploaded)))"
proof -
  have "needed (evVars sample_renv) 1 ready_runtime (rvSets sample_uploaded) sample_backup" by code_simp
  moreover have "sample_backup \<in> set (rvSets sample_uploaded)" by (simp add: sample_uploaded_def)
  ultimately show ?thesis
    using pruning_spares_needed_backups[OF sample_sound, of sample_backup sample_renv 1 ready_runtime
      "fst (prune_expired_backups sample_renv 1 (Some ready_runtime) sample_uploaded)"] by simp
qed

section \<open>A completed recovery\<close>

definition run_coverage :: "runtime \<Rightarrow> coverage" where
  "run_coverage r = \<lparr>cvGeneration = the (rtGeneration r), cvWatermark = the (rtWatermark r)\<rparr>"

lemma runtime_read: "get_cpoly_recovery_runtime env s = (Inr r, s') \<Longrightarrow> untouched s s' \<and> rvRuntime s = Some r"
  by (auto simp: get_cpoly_recovery_runtime_def st_bind_Inr st_simps dest!: d1_read_run split: option.splits)

lemma restore_set_read: "load_restore_set env c s = (Inr b, s') \<Longrightarrow> untouched s s' \<and> c = Some (bkId b) \<and> b \<in> set (rvSets s)"
  by (auto simp: load_restore_set_def st_bind_Inr st_simps find_Some_iff dest!: load_set split: option.splits)

lemma checked_completion:
  assumes "check_completion env body s = (Inr (seen, cov), s')"
  shows "untouched s s' \<and> rvRuntime s = Some seen \<and> rtState seen = Recovering \<and> cov = run_coverage seen
    \<and> (\<exists>b d. b \<in> set (rvSets s) \<and> rtBackupId seen = Some (bkId b) \<and> stored_descriptor (evPlatform env) b = Inr (Some d)
         \<and> descriptor_coverage d = cov)"
  using assms unfolding check_completion_def
proof (elim bind_Inr, goal_cases)
  case (1 _ s1 v s2 r s3 _ s4 _ s5 _ s6 c s7 _ s8 b s9 stored s10 d s11 _ s12)
  have pure: "s1 = s" "s2 = s1" "s4 = s3" "s5 = s4" "s6 = s5" "s7 = s6" "s8 = s7" "s10 = s9" "s11 = s10" "s12 = s11"
    using 1(1,2,4-8,10-12) by (auto simp: require_postgres_def matching_id_def if_given_def st_bind_Inr pure_runs split: if_splits sum.splits)
  have fin: "s' = s12" "r = seen" "c = cov" using 1(13) by (simp_all add: st_simps)
  have r: "untouched s s3" "rvRuntime s = Some seen" using runtime_read[OF 1(3)] pure fin by simp_all
  have b: "untouched s3 s9" "rtBackupId seen = Some (bkId b)" "b \<in> set (rvSets s3)" using restore_set_read[OF 1(9)] pure fin by simp_all
  have "rtState seen = Recovering" "rtGeneration seen = Some (cvGeneration cov) \<and> rtWatermark seen = Some (cvWatermark cov)"
    "stored = Some d" "stored_descriptor (evPlatform env) b = Inr stored" "descriptor_coverage d = cov"
    using 1(4,8,10-12) fin by (auto simp: pure_runs split: if_splits sum.splits option.splits)
  moreover from this(2) have "cov = run_coverage seen" by (cases cov) (simp add: run_coverage_def)
  ultimately show ?case using r b untouched_trans pure fin by (auto simp: untouched_def)
qed

lemma in_world_reads:
  "in_world (count_recovery_replay_pending e cov target) s = (Inr n, s') \<Longrightarrow> untouched s s' \<and> n = count_rows (outstanding cov target) (wJournal (rvWorld s))"
  by (auto simp: in_world_def count_recovery_replay_pending_def journal_read_def Let_def untouched_def split: fate.splits)

lemma lease_frame: "touch_backup_restore_lease env i t s = (Inr x, s') \<Longrightarrow> rvRuntime s' = rvRuntime s \<and> wJournal (rvWorld s') = wJournal (rvWorld s) \<and> wPg (rvWorld s') = wPg (rvWorld s)"
  unfolding touch_backup_restore_lease_def
proof (elim bind_Inr, goal_cases)
  case (1 now s1 n s2)
  then show ?case using clock_run(1)[OF 1(1)] updated_sets(1)[OF d1_done[OF 1(2)]] by (auto simp: untouched_def st_simps)
qed

lemma concluded:
  assumes "conclude_recovery env seen cov a s = (Inr reply, s')" "rvRuntime s = Some r"
  shows "count_rows (outstanding cov (target_generation seen)) (wJournal (rvWorld s)) = 0
    \<and> wJournal (rvWorld s') = wJournal (rvWorld s) \<and> wPg (rvWorld s') = wPg (rvWorld s)
    \<and> (\<exists>now. rvRuntime s' = Some (finished_runtime seen now r))"
  using assms(1) unfolding conclude_recovery_def
proof (elim bind_Inr, goal_cases)
  case (1 n s1 _ s2 reached s3 _ s4 now s5 m s6 _ s7)
  have s1: "untouched s s1" "n = count_rows (outstanding cov (target_generation seen)) (wJournal (rvWorld s))" using in_world_reads[OF 1(1)] by simp_all
  have n: "n = 0" "s2 = s1" using 1(2) by (auto simp: st_simps st_bind_Inr split: if_splits)
  have "s4 = s1" using 1(3,4) n by (auto simp: pure_runs st_bind_Inr split: if_splits sum.splits)
  then have s5: "untouched s s5" using clock_run(1)[OF 1(5)] untouched_trans[OF s1(1)] by simp
  have "rvRuntime s6 = Some (finished_runtime seen now r)" "wJournal (rvWorld s6) = wJournal (rvWorld s5)" "wPg (rvWorld s6) = wPg (rvWorld s5)"
    using d1_done[OF 1(6)] s5 assms(2) by (auto simp: update_runtime_def untouched_def split: if_splits)
  moreover have "rvRuntime s7 = rvRuntime s6 \<and> wJournal (rvWorld s7) = wJournal (rvWorld s6) \<and> wPg (rvWorld s7) = wPg (rvWorld s6)"
    using 1(7) by (cases "rtBackupId seen") (simp_all add: st_simps lease_frame)
  moreover have "untouched s7 s'" using 1(8) runtime_read unfolding status_reply_def by (auto simp: st_bind_Inr st_simps)
  ultimately show ?case using s1(2) n(1) s5 unfolding untouched_def by metis
qed

text \<open>Only a promotion changes the generation of PostgreSQL.\<close>

lemma write_generation: "pgGeneration (snd (apply_body env now q hash kind ops forced p)) = pgGeneration p"
  by (simp add: apply_body_def claim_and_run_def Let_def split: option.splits sum.splits prod.splits)

lemma transaction_generation:
  "(\<And>p. pgGeneration (snd (body p)) = pgGeneration p) \<Longrightarrow> pgGeneration (wPg (snd (pg_transaction env body w))) = pgGeneration (wPg w)"
  by (cases rule: pg_transaction_cases[of env body w]) auto

interpretation generation: replay_effect "\<lambda>w w'. pgGeneration (wPg w') = pgGeneration (wPg w)" env for env
  by unfold_locales
    (auto simp: st_pres_def journal_calls requeue_ambiguous_failed_journal_entries_def mark_journal_applied_def update_journal_def
      get_current_receipt_watermark_def st_bind_run st_simps transaction_generation write_generation split: sum.splits option.splits)

lemma prepared_generation:
  assumes "prepare_recovery env cov target w = (Inr (), w')"
  shows "pgGeneration (wPg w') = Some target"
proof -
  obtain w1 where "promote_recovery_generation env cov target w1 = (Inr (), w')"
    using assms unfolding prepare_recovery_def by (auto simp: st_bind_Inr st_simps split: if_splits)
  then have run: "pg_transaction env (promote_body cov target) w1 = (Inr (), w')" by (simp add: promote_recovery_generation_def)
  show ?thesis
    by (cases rule: pg_transaction_cases[of env "promote_body cov target" w1])
      (use run in \<open>auto simp: promote_body_def split: option.splits if_splits\<close>)
qed

lemma recovered_generation:
  assumes "complete_recovery_replay env cov target limit w = Some (Inr a, w')"
  shows "pgGeneration (wPg w') = Some target"
proof -
  obtain w1 n w2 where run: "prepare_recovery env cov target w = (Inr (), w1)"
    "replay_until_exhausted env cov target limit 0 w1 = Some (Inr n, w2)" "finish_recovery env cov target n w2 = (Inr a, w')"
    using assms by (auto simp: complete_recovery_replay_def split: prod.splits sum.splits option.splits)
  show ?thesis using prepared_generation[OF run(1)] generation.exhausted[OF run(2)] finish_done(3)[OF run(3)] by simp
qed

lemma completion_parts:
  assumes "complete_recovery env body s = Some (Inr reply, s')" "rvRuntime s = Some seen"
  obtains cov s1 a w where "check_completion env body s = (Inr (seen, cov), s1)"
    "complete_recovery_replay (evJournal env) cov (target_generation seen) (nat (journal_replay_limit (evVars env))) (rvWorld s1) = Some (Inr a, w)"
    "conclude_recovery env seen cov a (s1\<lparr>rvWorld := w\<rparr>) = (Inr reply, s')"
proof -
  obtain c s1 where c: "check_completion env body s = (c, s1)" by fastforce
  obtain seen' cov where x: "c = Inr (seen', cov)" using assms(1) c by (cases c) (auto simp: complete_recovery_def)
  have "seen' = seen" using checked_completion[of env body s seen' cov s1] assms(2) c x by simp
  then have seen: "check_completion env body s = (Inr (seen, cov), s1)" using c x by simp
  obtain r w where r: "complete_recovery_replay (evJournal env) cov (target_generation seen) (nat (journal_replay_limit (evVars env))) (rvWorld s1) = Some (r, w)"
    using assms(1) unfolding complete_recovery_def seen by (cases "complete_recovery_replay (evJournal env) cov (target_generation seen) (nat (journal_replay_limit (evVars env))) (rvWorld s1)") auto
  obtain a where a: "r = Inr a" using assms(1) unfolding complete_recovery_def seen by (cases r) (simp_all add: r)
  have "conclude_recovery env seen cov a (s1\<lparr>rvWorld := w\<rparr>) = (Inr reply, s')"
    using assms(1) unfolding complete_recovery_def seen by (simp add: r a)
  then show thesis by (rule that[OF seen r[unfolded a]])
qed

lemma settled_row:
  assumes "jrStatus r = JournalApplied" "\<not> needs_replay cov target r"
  shows "covered cov r \<or> (\<exists>g. jrGeneration r = Some g \<and> target \<le> g)"
proof (cases "jrGeneration r"; cases "jrSeq r")
  fix g s assume "jrGeneration r = Some g" "jrSeq r = Some s"
  with assms show ?thesis by (simp add: needs_replay_def covered_def beyond_snapshot_def) linarith
qed (use assms in \<open>simp_all add: needs_replay_def\<close>)


section \<open>A recovery that completes\<close>

definition sample_complete_set :: backup_row where
  "sample_complete_set = completed_row sample_archive sample_descriptor 0 sample_backup"

definition running_runtime :: runtime where
  "running_runtime = begun_runtime ready_runtime sample_request sample_request sample_coverage 100 0 ready_runtime"

definition sample_recovering :: "ustr list recovery" where
  "sample_recovering = sample_uploaded\<lparr>rvWorld := crashed_world, rvSets := [sample_complete_set], rvRuntime := Some running_runtime\<rparr>"

definition sample_done :: jsv where "sample_done = jobject [(''schema'', JStr RECOVERY_COMPLETE_SCHEMA)]"

lemma sample_done_parse: "parse_required_json_body sample_renv (json_text sample_done) RECOVERY_COMPLETE_SCHEMA = Inr sample_done"
proof -
  have "json_plain sample_done" by code_simp
  then have "json_parse (json_text sample_done) = Some sample_done" by (rule json_roundtrip)
  then show ?thesis
    by (simp add: parse_required_json_body_def sample_renv_def sample_platform_def sample_done_def dot_jobject)
      (simp add: jobject_def)
qed

lemma sample_set_facts: "bkId sample_complete_set = sample_request" "stores sample_complete_set sample_descriptor"
    "set_check sample_complete_set" "bkStatus sample_complete_set = BackupComplete"
proof -
  have parts: "dsManifest sample_descriptor = sample_parsed" "dsSha256 sample_descriptor = sample_hash" "dsMetadataSha256 sample_descriptor = sample_hash"
    by (simp_all add: sample_descriptor_def Let_def)
  have "length (code_points (dsJson sample_descriptor)) \<le> 65536"
    using encoded_length(1) json_text_bound sample_text_bound by (simp add: sample_descriptor_def Let_def) (meson le_trans)
  then show "set_check sample_complete_set"
    by (simp add: sample_complete_set_def set_check_def completed_row_def sample_backup_def new_backup_row_def when_set_def parts sample_archive_def
      sample_parsed_def sample_signature)
  show "bkId sample_complete_set = sample_request" "stores sample_complete_set sample_descriptor" "bkStatus sample_complete_set = BackupComplete"
    by (simp_all add: sample_complete_set_def completed_row_def sample_backup_def new_backup_row_def stores_def parts)
qed

lemma crashed_recovery_later:
  obtains w where "complete_recovery_replay sample_env sample_coverage 2 24 (crashed_world\<lparr>wD1Calls := 2\<rparr>)
      = Some (Inr \<lparr>raGeneration = 2, raSeq = 1, raReplayed = 1, raPending = 0\<rparr>, w)"
    "\<forall>r \<in> set (wJournal w). jrStatus r = JournalApplied \<and> jrGeneration r = Some 2 \<and> jrSeq r = Some 1"
proof -
  have "map_option (\<lambda>(r, w). (r, map (\<lambda>r. (jrStatus r, jrGeneration r, jrSeq r)) (wJournal w)))
      (complete_recovery_replay sample_env sample_coverage 2 24 (crashed_world\<lparr>wD1Calls := 2\<rparr>))
    = Some (Inr \<lparr>raGeneration = 2, raSeq = 1, raReplayed = 1, raPending = 0\<rparr>, [(JournalApplied, Some 2, Some 1)])"
    by code_simp
  then show ?thesis using that by auto
qed

lemma sample_recovers: "\<exists>reply s'. complete_recovery sample_renv (json_text sample_done) sample_recovering = Some (Inr reply, s')"
proof -
  note run = pure_runs st_bind_run sample_calls sample_environment
  have env: "evJournal sample_renv = sample_env" by (simp add: sample_renv_def)
  have fields: "dot sample_done k = (if k = ''schema'' then JStr RECOVERY_COMPLETE_SCHEMA else JUndef)" for k
    by (simp add: sample_done_def dot_jobject)
  have cov: "normalize_recovery_snapshot_coverage (JNum 1) (JNum 0) ''snapshot'' = Inr sample_coverage"
    "normalize_recovery_snapshot_coverage (JNum 2) (JNum 1) ''postgresReceipt'' = Inr \<lparr>cvGeneration = 2, cvWatermark = 1\<rparr>"
    "descriptor_coverage sample_descriptor = sample_coverage" "nat (journal_replay_limit sample_vars) = 24"
    by (code_simp, code_simp, simp add: descriptor_coverage_def sample_descriptor_def Let_def sample_parsed_def sample_coverage_def, code_simp)
  have runtime: "rtState running_runtime = Recovering" "rtGeneration running_runtime = Some 1" "rtWatermark running_runtime = Some 0"
    "rtBackupId running_runtime = Some sample_request" "target_generation running_runtime = 2"
    by (simp_all add: running_runtime_def begun_runtime_def sample_coverage_def target_generation_def or_else_def ready_runtime_def)
  let ?s = "sample_recovering\<lparr>rvWorld := crashed_world\<lparr>wD1Calls := 2\<rparr>\<rparr>"
  have state: "rvRuntime sample_recovering = Some running_runtime" "rvSets sample_recovering = [sample_complete_set]"
    "rvWorld sample_recovering = crashed_world" "wD1Calls crashed_world = 0"
    by (simp_all add: sample_recovering_def crashed_world_def sample_world_def)
  have "check_completion sample_renv (json_text sample_done) sample_recovering = (Inr (running_runtime, sample_coverage), ?s)"
    by (simp add: check_completion_def require_postgres_def run sample_done_parse get_cpoly_recovery_runtime_def matching_id_def if_given_def given_def
      fields runtime coalesce_def jnumber_def cov load_restore_set_def load_backup_set_def state sample_set_facts sample_reads_back sample_coverage_def)
  moreover obtain w where w: "complete_recovery_replay sample_env sample_coverage 2 24 (crashed_world\<lparr>wD1Calls := 2\<rparr>)
      = Some (Inr \<lparr>raGeneration = 2, raSeq = 1, raReplayed = 1, raPending = 0\<rparr>, w)"
    "\<forall>r \<in> set (wJournal w). jrStatus r = JournalApplied \<and> jrGeneration r = Some 2 \<and> jrSeq r = Some 1"
    by (rule crashed_recovery_later)
  moreover have "\<exists>reply s'. conclude_recovery sample_renv running_runtime sample_coverage
      \<lparr>raGeneration = 2, raSeq = 1, raReplayed = 1, raPending = 0\<rparr> (?s\<lparr>rvWorld := w\<rparr>) = (Inr reply, s')"
  proof -
    have "count_rows (outstanding sample_coverage 2) (wJournal w) = 0"
      using w(2) by (auto simp: count_rows_0 outstanding_def needs_replay_def beyond_snapshot_def sample_coverage_def)
    then have pending: "in_world (count_recovery_replay_pending sample_env sample_coverage 2) (s\<lparr>rvWorld := w\<rparr>)
        = (Inr 0, s\<lparr>rvWorld := w\<lparr>wD1Calls := Suc (wD1Calls w)\<rparr>\<rparr>)" for s :: "ustr list recovery"
      by (simp add: in_world_def count_recovery_replay_pending_def journal_read_def Let_def) (simp add: sample_env_def)
    have "runtime_check (finished_runtime running_runtime now running_runtime)" "rtBackupId (finished_runtime running_runtime now running_runtime) = None" for now
      by (simp_all add: runtime_check_def finished_runtime_def runtime when_set_def)
    moreover have "set_check (sample_complete_set\<lparr>bkLeaseExpiresAt := Some (int n), bkUpdatedAt := t\<rparr>)" for n t
      using sample_set_facts(3) by (simp add: set_check_def when_set_def)
    moreover have cw: "cvWatermark sample_coverage = 0" by (simp add: sample_coverage_def)
    ultimately show ?thesis
      by (simp add: conclude_recovery_def env run runtime pending cov cw update_runtime_def state when_set_def
        touch_backup_restore_lease_def update_sets_def sample_set_facts status_reply_def get_cpoly_recovery_runtime_def)
  qed
  ultimately show ?thesis
    by (simp add: complete_recovery_def env runtime cov state sample_environment)
qed


section \<open>When handlers overlap\<close>

text \<open>
  C36. A recovery that begins while another one is running replaces it. The handler decides on the runtime it
  read at the beginning; the update that starts the run has no condition. Whatever run is in the
  table by then, its recovery and its backup are overwritten, and the ready generation is set back to the
  one that was read, so that the new run builds a generation that may exist already.
\<close>

theorem overlapping_begin_replaces_recovery:
  assumes "begin_or_extend env seen backupId cov s = (Inr reply, s')" "rtState seen = Ready" "rvRuntime s = Some r"
  shows "\<exists>recoveryId until now. rvRuntime s' = Some (begun_runtime seen recoveryId backupId cov until now r)
    \<and> (\<exists>r'. rvRuntime s' = Some r' \<and> rtReadyGeneration r' = rtReadyGeneration seen \<and> rtTargetGeneration r' = Some (rtReadyGeneration seen + 1)
         \<and> rtBackupId r' = Some backupId)"
proof -
  have "\<exists>recoveryId until now. rvRuntime s' = Some (begun_runtime seen recoveryId backupId cov until now r)"
    using assms(1) unfolding begin_or_extend_def
  proof (elim bind_Inr, goal_cases)
    case (1 now s1)
    have "start_recovery env seen backupId cov now s1 = (Inr reply, s')" using 1(2) assms(2) by simp
    then show ?case unfolding start_recovery_def Let_def
    proof (elim bind_Inr, goal_cases)
      case (1 recoveryId s2 n s3 _ s4)
      have same: "untouched s s2" using clock_run(1)[OF \<open>now_ms env s = (Inr now, s1)\<close>] clock_run(2)[OF 1(1)] untouched_trans by blast
      let ?f = "begun_runtime seen recoveryId backupId cov (now + recovery_lease_ms (evVars env)) now"
      have "rvRuntime s3 = Some (?f r)"
        using d1_done[OF 1(2)] same assms(3) by (auto simp: update_runtime_def untouched_def split: if_splits)
      moreover have "rvRuntime s4 = rvRuntime s3" using lease_frame[OF 1(3)] by simp
      moreover have "untouched s4 s'" using 1(4) runtime_read unfolding status_reply_def by (auto simp: st_bind_Inr st_simps)
      ultimately show ?case unfolding untouched_def by metis
    qed
  qed
  then show ?thesis by (auto simp: begun_runtime_def)
qed

lemma sample_begins: "\<exists>reply s'. begin_or_extend sample_renv ready_runtime sample_request sample_coverage sample_recovering = (Inr reply, s')"
proof -
  note run = pure_runs st_bind_run sample_calls sample_environment
  have uuid: "fresh_uuid sample_renv s = (Inr (jeUuid sample_env (wUuids (rvWorld s))), s\<lparr>rvWorld := (rvWorld s)\<lparr>wUuids := Suc (wUuids (rvWorld s))\<rparr>\<rparr>)" for s
    by (simp add: fresh_uuid_def in_world_def request_id_def sample_renv_def)
  have state: "rvRuntime sample_recovering = Some running_runtime" "rvSets sample_recovering = [sample_complete_set]" "rtState ready_runtime = Ready"
    "recovery_lease_ms sample_vars = 3600000"
    by (simp_all add: sample_recovering_def ready_runtime_def) code_simp
  have "runtime_check (begun_runtime ready_runtime i sample_request sample_coverage (int n + 3600000) t running_runtime)"
      "rtBackupId (begun_runtime ready_runtime i sample_request sample_coverage (int n + 3600000) t running_runtime) = Some sample_request" for i n t
    by (simp_all add: runtime_check_def begun_runtime_def when_set_def ready_runtime_def sample_coverage_def)
  moreover have "set_check (sample_complete_set\<lparr>bkLeaseExpiresAt := Some (int n + 3600000), bkUpdatedAt := t\<rparr>)" for n t
    using sample_set_facts(3) by (simp add: set_check_def when_set_def)
  ultimately show ?thesis
    by (simp add: begin_or_extend_def start_recovery_def run uuid state Let_def update_runtime_def when_set_def sample_set_facts
      touch_backup_restore_lease_def update_sets_def status_reply_def get_cpoly_recovery_runtime_def)
qed

lemma overlapping_begin_replaces_recovery_witness:
  "\<exists>reply s' r'. begin_or_extend sample_renv ready_runtime sample_request sample_coverage sample_recovering = (Inr reply, s')
    \<and> rvRuntime s' = Some r' \<and> rtReadyGeneration r' = 1 \<and> rtTargetGeneration r' = Some 2"
proof -
  obtain reply s' where run: "begin_or_extend sample_renv ready_runtime sample_request sample_coverage sample_recovering = (Inr reply, s')"
    using sample_begins by blast
  have "rtState ready_runtime = Ready" "rvRuntime sample_recovering = Some running_runtime" "rtReadyGeneration ready_runtime = 1"
    by (simp_all add: ready_runtime_def sample_recovering_def)
  then show ?thesis using overlapping_begin_replaces_recovery[OF run] run by auto
qed

text \<open>A completion that fails after another one succeeded.\<close>

lemma deleted_objects:
  assumes "\<forall>n \<ge> rvKvCalls s. evKvFate env n = KvReaches" "evStore env"
  shows "\<exists>r s'. delete_objects env cs s = (Inr r, s') \<and> rvSets s' = rvSets s \<and> rvChunks s' = rvChunks s
    \<and> (\<forall>key. omap_get (rvObjects s) key = None \<longrightarrow> omap_get (rvObjects s') key = None)
    \<and> (\<forall>c \<in> set cs. \<not> is_legacy_backup_chunk_key (ciKey c) \<longrightarrow> omap_get (rvObjects s') (ciKey c) = None)"
  using assms
proof (induction cs arbitrary: s)
  case (Cons c cs)
  obtain t where one: "delete_backup_chunk_from_store env (ciKey c) s = (Inr True, t)" "rvKvCalls s \<le> rvKvCalls t"
    and same: "rvSets t = rvSets s" "rvChunks t = rvChunks s"
    and gone: "\<And>key. omap_get (rvObjects t) key = (if \<not> is_legacy_backup_chunk_key (ciKey c) \<and> key = ciKey c then None else omap_get (rvObjects s) key)"
  proof (cases "is_legacy_backup_chunk_key (ciKey c)")
    case True
    then show ?thesis using that[of s] by (simp add: delete_backup_chunk_from_store_def st_simps)
  next
    case False
    then show ?thesis
      using that[of "s\<lparr>rvKvCalls := rvKvCalls s + 1, rvObjects := filter (\<lambda>(k, v). k \<noteq> ciKey c) (rvObjects s)\<rparr>"] Cons.prems
      by (simp add: delete_backup_chunk_from_store_def kv_delete_def kv_def st_bind_run st_simps Let_def omap_get_filter)
  qed
  have reach: "\<forall>n \<ge> rvKvCalls t. evKvFate env n = KvReaches" using Cons.prems(1) one(2) by auto
  obtain r s2 where rest: "delete_objects env cs t = (Inr r, s2)" "rvSets s2 = rvSets t" "rvChunks s2 = rvChunks t"
    "\<forall>key. omap_get (rvObjects t) key = None \<longrightarrow> omap_get (rvObjects s2) key = None"
    "\<forall>c \<in> set cs. \<not> is_legacy_backup_chunk_key (ciKey c) \<longrightarrow> omap_get (rvObjects s2) (ciKey c) = None"
    using Cons.IH[OF reach Cons.prems(2)] by blast
  have "delete_objects env (c # cs) s = (Inr r, s2)"
    by (simp add: st_bind_run st_catch_run one(1) st_simps rest(1))
  then show ?case using rest(2-5) gone same by (intro exI[of _ r] exI[of _ s2]) auto
qed (auto simp: st_simps)

text \<open>
  C37. A completion whose verification fails deletes the objects of a backup that is complete. When two requests
  complete the same backup and the second one cannot read a chunk (the object store is eventually consistent), it marks
  the backup as failed only if it is still an upload, but deletes its objects in any case: the row
  stays complete, and every chunk it refers to in the object store is gone.
\<close>

theorem failed_verification_discards_complete_backup:
  assumes "verify_backup_store_contents env i d s = (Inl e, s1)" "lane_sound s"
    and "b \<in> set (rvSets s)" "bkId b = i" "bkStatus b = BackupComplete"
    and "\<forall>n. jeD1Fate (evJournal env) n = Reaches" "\<forall>n \<ge> rvKvCalls s1. evKvFate env n = KvReaches" "evStore env"
    and "int (length (backup_chunks i (rvChunks s))) \<le> max_backup_chunks (evVars env)"
  shows "\<exists>s'. verify_or_discard env i d now s = (Inl e, s') \<and> b \<in> set (rvSets s') \<and> rvChunks s' = rvChunks s
    \<and> (\<forall>c \<in> set (rvChunks s). ciBackup c = i \<and> \<not> is_legacy_backup_chunk_key (ciKey c) \<longrightarrow> held s' c = None)"
proof -
  have s1: "untouched s s1" using st_presD[OF looking.verification(2)] assms(1) by (metis snd_conv)
  have unique: "bkStatus b' = BackupComplete" if "b' \<in> set (rvSets s)" "bkId b' = i" for b'
    using assms(2-5) that by (auto simp: lane_sound_def schema_holds_def distinct_map dest: inj_onD)
  have "map (\<lambda>b. if bkId b = i \<and> bkStatus b = BackupUploading then b\<lparr>bkStatus := BackupFailed, bkUpdatedAt := now\<rparr> else b) (rvSets s1) = rvSets s1"
    using s1 unique by (auto simp: untouched_def intro!: map_idI)
  then have sets: "update_rows (\<lambda>b. bkId b = i \<and> bkStatus b = BackupUploading) (\<lambda>b. b\<lparr>bkStatus := BackupFailed, bkUpdatedAt := now\<rparr>) (rvSets s1) = rvSets s1"
    by (simp add: update_rows_def)
  have none: "\<forall>b \<in> set (rvSets s1). \<not> (bkId b = i \<and> bkStatus b = BackupUploading)" using unique s1 by (auto simp: untouched_def)
  have "fail_statement now i (called s1) = Inr (0, called s1)"
    using none sets by (cases s1) (auto simp: fail_statement_def update_sets_def count_rows_0)
  then have marked: "mark_backup_failed env i now s1 = (Inr (), called s1)"
    using assms(6) by (simp add: mark_backup_failed_def d1_def Let_def st_bind_run st_simps)
  let ?rows = "map (lowered env) (backup_chunks i (rvChunks s))"
  have page: "load_backup_chunk_page env i 0 (nat (max (max_backup_chunks (evVars env)) 1)) (called s1) = (Inr ?rows, called (called s1))"
    using assms(6,9) s1 by (simp add: load_backup_chunk_page_def d1_read_def d1_def Let_def lowered_def[abs_def] untouched_def)
  obtain r s' where del: "delete_objects env ?rows (called (called s1)) = (Inr r, s')" "rvSets s' = rvSets s1" "rvChunks s' = rvChunks s1"
    "\<forall>c \<in> set ?rows. \<not> is_legacy_backup_chunk_key (ciKey c) \<longrightarrow> omap_get (rvObjects s') (ciKey c) = None"
    using deleted_objects[of "called (called s1)" env ?rows] assms(7,8) by auto
  have "verify_or_discard env i d now s = (Inl e, s')"
    unfolding verify_or_discard_def st_catch_def assms(1) delete_backup_objects_best_effort_def
    by (simp add: st_bind_run marked page[simplified] del(1)[simplified] st_simps)
  moreover have "held s' c = None" if "c \<in> set (rvChunks s)" "ciBackup c = i" "\<not> is_legacy_backup_chunk_key (ciKey c)" for c
    using del(4) that by (simp add: held_def backup_chunks_def)
  ultimately show ?thesis using del(2,3) s1 assms(3) by (auto simp: untouched_def)
qed

definition missing_renv :: "ustr list renv" where
  "missing_renv = sample_renv\<lparr>evKvFate := \<lambda>n. if n = 0 then KvMisses else KvReaches\<rparr>"

definition sample_stored :: "ustr list recovery" where
  "sample_stored = sample_uploaded\<lparr>rvSets := [sample_complete_set]\<rparr>"

lemma missing_chunk:
  "\<exists>e s1. verify_backup_store_contents missing_renv sample_request sample_descriptor sample_stored = (Inl e, s1) \<and> 0 < rvKvCalls s1"
proof -
  have env: "evPlatform missing_renv = sample_platform" "evStore missing_renv" "\<And>s. lowered missing_renv s = lowered sample_renv s"
    by (simp_all add: missing_renv_def sample_environment lowered_def)
  have calls: "d1_read missing_renv f s = (Inr (f (called s)), called s)" for f :: "ustr list recovery \<Rightarrow> 'x" and s
    by (simp add: missing_renv_def sample_renv_def d1_read_def d1_def Let_def sample_env_def)
  have kv: "kv_get missing_renv key s = (if rvKvCalls s = 0 then Inr None else Inr (omap_get (rvObjects s) key), s\<lparr>rvKvCalls := rvKvCalls s + 1\<rparr>)" for key s
    by (simp add: missing_renv_def sample_renv_def kv_get_def kv_def Let_def)
  have match: "chunk_record_matches missing_renv i d c = chunk_record_matches sample_renv i d c" for i d c
  proof -
    have "chunk_key_prefix missing_renv = chunk_key_prefix sample_renv" "build_legacy_backup_chunk_key missing_renv = build_legacy_backup_chunk_key sample_renv"
      by (simp_all add: fun_eq_iff chunk_key_prefix_def build_legacy_backup_chunk_key_def env sample_environment)
    then show ?thesis by (simp add: chunk_record_matches_def split: option.split)
  qed
  note run = pure_runs st_bind_run calls kv env match
  have parts: "dsArchive sample_descriptor = sample_archive" by (simp add: sample_descriptor_def Let_def)
  have rows: "backup_chunks sample_request (rvChunks sample_stored) = [sample_row_of 0 3, sample_row_of 1 2]"
    by (simp add: sample_stored_def sample_uploaded_def backup_chunks_def sample_row_of_def)
  have page: "load_backup_chunk_page missing_renv sample_request k n t
      = (Inr (map (lowered sample_renv) (take n (drop k [sample_row_of 0 3, sample_row_of 1 2]))), called t)"
    if "rvChunks t = rvChunks sample_stored" for t k n
    using rows that by (simp add: load_backup_chunk_page_def run lowered_def[abs_def] sample_environment)
  have inv: "query_backup_chunk_inventory missing_renv sample_request sample_stored
      = (Inr \<lparr>inCount = 2, inTotalBytes = 5, inMinIndex = Some 0, inMaxIndex = Some 1\<rparr>, called sample_stored)"
    by (simp add: query_backup_chunk_inventory_def run Let_def sample_stored_def sample_uploaded_def sample_row_of_def)
  have keys: "ciKey (sample_row_of i n) = sample_key i" "ciIndex (sample_row_of i n) = i" for i n by (simp_all add: sample_row_of_def)
  note facts = parts sample_archive_def page sample_record_matches sample_key_facts[unfolded One_nat_def] sample_environment
  have finished: "verify_pages missing_renv sample_request sample_descriptor 2 t = (Inr (), t)" for t
    by (subst verify_pages.simps) (simp add: parts sample_archive_def del: verify_pages.simps)
  have pages: "verify_pages missing_renv sample_request sample_descriptor 0 t = (Inr (), called t)" if "rvChunks t = rvChunks sample_stored" for t
    by (subst verify_pages.simps) (simp add: run facts that finished[simplified numeral_2_eq_2] del: verify_pages.simps)
  have meta: "verify_stored_chunk_inventory_metadata missing_renv sample_request sample_descriptor sample_stored = (Inr (), called (called sample_stored))"
    unfolding verify_stored_chunk_inventory_metadata_def
    by (simp add: run inv inventory_matches_def parts sample_archive_def pages del: verify_pages.simps)
  have "\<exists>e t'. read_pages missing_renv sample_request sample_descriptor 0 [] t = (Inl e, t') \<and> 0 < rvKvCalls t'"
    if "rvChunks t = rvChunks sample_stored" "rvKvCalls t = 0" for t
    by (subst read_pages.simps) (simp add: run facts that keys read_backup_chunk_from_store_def del: read_pages.simps)
  from this[of "called (called sample_stored)"] obtain e t' where
    "read_pages missing_renv sample_request sample_descriptor 0 [] (called (called sample_stored)) = (Inl e, t')" "0 < rvKvCalls t'"
    by (auto simp: sample_stored_def sample_uploaded_def sample_store_def)
  then show ?thesis unfolding verify_backup_store_contents_def st_bind_run meta by (simp add: run del: read_pages.simps)
qed

lemma stored_sound: "lane_sound sample_stored"
proof -
  have "bkId sample_backup = sample_request" by (simp add: sample_backup_def new_backup_row_def)
  moreover have "set_sound sample_complete_set"
    by (simp add: set_sound_def sample_complete_set_def completed_row_def restorable_def sample_backup_def new_backup_row_def)
  ultimately show ?thesis
    using sample_sound sample_set_facts by (simp add: lane_sound_def schema_holds_def sample_stored_def sample_uploaded_def set_ids_def)
qed

lemma failed_verification_discards_complete_backup_witness:
  "\<exists>e s'. verify_or_discard missing_renv sample_request sample_descriptor 0 sample_stored = (Inl e, s') \<and> sample_complete_set \<in> set (rvSets s')
    \<and> held sample_stored (sample_row_of 0 3) = Some [1, 2, 3] \<and> held s' (sample_row_of 0 3) = None"
proof -
  obtain e s1 where run: "verify_backup_store_contents missing_renv sample_request sample_descriptor sample_stored = (Inl e, s1)" "0 < rvKvCalls s1"
    using missing_chunk by blast
  have "length (backup_chunks sample_request (rvChunks sample_stored)) = 2"
    by (simp add: backup_chunks_def sample_stored_def sample_uploaded_def sample_row_of_def)
  moreover have "max_backup_chunks sample_vars = 512" by code_simp
  ultimately have few: "int (length (backup_chunks sample_request (rvChunks sample_stored))) \<le> max_backup_chunks (evVars missing_renv)"
    by (simp add: missing_renv_def sample_environment)
  have env: "\<forall>n. jeD1Fate (evJournal missing_renv) n = Reaches" "\<forall>n \<ge> rvKvCalls s1. evKvFate missing_renv n = KvReaches" "evStore missing_renv"
    using run(2) by (simp_all add: missing_renv_def sample_renv_def sample_env_def)
  have row: "sample_complete_set \<in> set (rvSets sample_stored)" "sample_row_of 0 3 \<in> set (rvChunks sample_stored)" "ciBackup (sample_row_of 0 3) = sample_request"
    "\<not> is_legacy_backup_chunk_key (ciKey (sample_row_of 0 3))" "held sample_stored (sample_row_of 0 3) = Some [1, 2, 3]"
    using sample_key_facts by (simp_all add: sample_stored_def sample_uploaded_def sample_row_of_def held_def)
  from failed_verification_discards_complete_backup[OF run(1) stored_sound row(1) sample_set_facts(1,4) env few, of 0] row show ?thesis by auto
qed

end
