(* ===== verification/Spec2Isabelle.thy ===== *)
theory Spec2Isabelle
  imports SubmissionSafety ReceiptSafety IssueReporting RecoveryBehaviour
begin

text \<open>
  The adjudication workbench of ADG-Lang (\<open>tools/msa-adjudication-workbench\<close>): two participants
  annotate a packet of sentences independently, an adjudicator (J1) decides, a reviewer (J2)
  ratifies, the public discusses and appeals, and a signed receipt of the repository lets the result
  be published. A Cloudflare worker keeps the tables; the browser and the worker share the artifact
  protocol.

  How the parts interact. A request arrives at a handler of \<open>src/index.js\<close>; \<open>Intake\<close> validates its
  body, \<open>Protocol\<close> its artifact; \<open>Submission\<close> checks who may act and records the contribution in one
  transaction; \<open>Governance\<close> then reconciles the task: it computes the agreement of the annotations
  with \<open>Consensus\<close>, moves the task with \<open>ConsensusStore\<close>, releases held evidence and queues notices.
  The scheduler expires rounds and publishes tasks; \<open>Receipts\<close> reports what the repository merged.

  Theories of the language. \<open>Prelude\<close>: UTF-16 strings, thrown errors as a sum, the
  state-and-exception monad, insertion-ordered maps, rows of tables. \<open>Binary64\<close>: doubles as
  rationals, every operation rounded. \<open>JsValue\<close>, \<open>JsText\<close>: parsed JSON values, \<open>String\<close>, \<open>Number\<close>,
  \<open>JSON.stringify\<close>, replacements. \<open>Json\<close>: \<open>JSON.parse\<close>. \<open>Utf8\<close>: \<open>TextEncoder\<close>. \<open>Dates\<close>:
  \<open>toISOString\<close>. \<open>Patterns\<close>: regular expressions as terms, their language as an inductive relation,
  and a derivative matcher proved equal to it.

  Theories of the program.
  \<open>Consensus\<close> is \<open>src/consensus.js\<close>: the transition table, identities, the agreement metrics, the
  policy. Its properties bound the metrics in double arithmetic and say exactly which units count.
  \<open>Protocol\<close> is \<open>public/protocol.js\<close>: packet, annotation, adjudication and ratification validators and
  the canonical digests. The locale \<open>unique_loop\<close> (the loops that fill a \<open>Map\<close> and refuse a second
  key) is interpreted on its three loops, \<open>framing\<close> (a length-prefixed concatenation determines its
  parts) on the digest builder; \<open>Packets\<close> are compared by their roots up to a collision, which the
  statement exhibits.
  \<open>Store\<close> is the database: a record \<open>cdb\<close> with one list of rows per table of \<open>migrations/\<close>, and the
  inserts with their \<open>UNIQUE\<close> and \<open>CHECK\<close> constraints; a \<open>batch\<close> is a transaction, each awaited call an
  atomic step. \<open>ConsensusStore\<close> is \<open>src/consensus-store.js\<close>; \<open>Governance\<close> the consensus handlers of
  \<open>src/index.js\<close> (lines 1117 to 1298, 3922 to 4030, 5304 to 5378, 7269 to 7626, 7752 to 7788 and 8044
  to 8170); \<open>Submission\<close> is \<open>receiveSubmission\<close> with its eligibility checks and notices (6236 to 6681,
  7113 to 7268, 7675 to 7750); \<open>Receipts\<close> is \<open>receiveRepositoryReceipt\<close> (4106 to 4256, 5020 to 5302).
  \<open>Intake\<close> holds the validators of account data, drafts and submissions, \<open>Verification\<close> the codes of
  \<open>src/email-verification.js\<close>, \<open>Discussion\<close> is \<open>src/discussion.js\<close>, \<open>IssueReporting\<close> is
  \<open>src/issue-reporting.js\<close>.
  The database adapter with its write journal (\<open>src/database.js\<close>, and the journal half of
  \<open>src/cpoly-recovery.js\<close>): \<open>JournalPayload\<close> holds the payload of a journal row, its base 64, and the
  envelope of the cipher; \<open>SqlTranslation\<close> the translation of SQLite's SQL; \<open>Journal\<close> the journal table,
  the receipts and the generation in PostgreSQL, and the four handlers: the journalled write
  (\<open>executeMutatingOperations\<close>), the scheduled replay (\<open>replayRecoveryJournal\<close>), the recovery
  (\<open>completeRecoveryReplay\<close>) and the removal of covered rows. Each call of either database has a fate: it
  arrives, fails before its effect or fails after it. The loop of the recovery is a
  \<open>partial_function (option)\<close>, so that not returning is a value.
  The backup lane is the rest of \<open>src/cpoly-recovery.js\<close>. \<open>BackupDescriptor\<close> has the validators of a backup set
  (archive, chunks, manifest, snapshot), the descriptor that is stored as JSON and the reader that checks it
  again. \<open>BackupStore\<close> has the state \<open>recovery\<close>: the tables of migrations 0005 and 0006 with their checks, the
  object store, and the journal's world; the calls of both stores, which may fail like those of the journal; the
  runtime row; the HMAC of a request, its time window and its nonce; and the verification of a whole backup,
  page by page (its loops end because a page is not empty). \<open>BackupRoutes\<close> has the handlers: creating, reading,
  listing, uploading to, completing, failing and restoring from a backup set, beginning, extending and
  completing a recovery, the dispatcher with its authorisation, and the scheduled maintenance with the pruning of backups and nonces.
  A request that completes a recovery runs \<open>completeRecoveryReplay\<close> and is an option for the same reason.

  Proof libraries. \<open>Effects\<close> states what a handler does to the database for any preorder: the locale
  \<open>effect\<close> is the interface of the monad, \<open>transition_effect\<close> and \<open>governance_effect\<close> add the atomic
  writes of the consensus code, and every governance handler is proved once inside them;
  \<open>submission_effect\<close> and \<open>receipt_effect\<close> extend them to the other two entry points. Each invariant is
  an interpretation: the step relation itself (\<open>runs\<close>, \<open>sound_runs\<close>), the register of who took part
  (\<open>people\<close>, \<open>governed_people\<close>, \<open>staff\<close>), separation of duties (\<open>separation\<close>), the final results
  (\<open>finals_kept\<close>, \<open>finals_pinned\<close>) and acceptance by the repository (\<open>acceptance\<close>).
  \<open>ConsensusSafety\<close> has the step relation \<open>call\<close> of the consensus tables: a transition starts from an
  arbitrary, possibly stale snapshot, so reachability covers every interleaving of handlers. Its
  invariants (the event log of a task is its history through the state machine, a published task
  has passed review and its appeal window) hold in all reachable databases, and the handlers are
  refinements: sequences of calls. \<open>ConsensusBehaviour\<close> says branch by branch what single operations
  do; \<open>SubmissionSafety\<close> and \<open>ReceiptSafety\<close> the same for the two other entry points.
  For the journal, \<open>JsonRoundtrip\<close> proves that \<open>JSON.parse\<close> inverts \<open>JSON.stringify\<close>, and \<open>JournalRoundtrip\<close>
  that a journalled write comes back. \<open>JournalSafety\<close> has the locale \<open>replay_effect\<close> (a preorder kept by the
  atomic calls of the replay is kept by every handler of it) and its extension \<open>write_effect\<close> by the promotion of
  a generation, interpreted on the step relation (\<open>steps\<close>), on the memory of requests (\<open>memory\<close>) and on the
  generation PostgreSQL has (\<open>generation\<close>); and the locale \<open>row_law\<close> (what every step keeps of single rows),
  interpreted as \<open>truthful\<close> and \<open>recovered\<close>. \<open>JournalRecovery\<close> shows when the recovery returns, and three situations
  in which the code fails its purpose.
  For the backup lane, \<open>BackupRoundtrip\<close> proves that a stored descriptor reads back, \<open>BackupSamples\<close> evaluates a
  small backup. \<open>LaneEffects\<close> has the locale \<open>lane_effect\<close>, in which every read of the lane is proved once for
  any preorder: nothing changed (\<open>looking\<close>), calls of the lane were made (\<open>lane\<close>), other backups were spared
  (\<open>sparing\<close>). \<open>BackupSafety\<close> shows what a completed upload has. \<open>RecoverySafety\<close> has the step relation
  \<open>lane_call\<close>: each awaited call is a step, so its closure covers every interleaving; every request and every
  scheduler run is proved to be a sequence of steps, and the locale \<open>lane_invariant\<close> carries an invariant from
  the steps to the requests (\<open>soundness\<close> of the state, \<open>memory_of\<close> accepted nonces). \<open>RecoveryBehaviour\<close> shows
  what pruning spares, that a completed recovery has restored every write, and two races that defeat the code.

  Conventions. Errors are values: \<open>Inl\<close> of a \<open>thrown\<close>, which is a program error with its HTTP status
  or the \<open>TypeError\<close> of a read from a missing object. Tables other than those of \<open>cdb\<close>, and columns no
  modelled code reads, are absent; stored JSON text is the document it parses to. Arabic messages are
  constructors of \<open>problem\<close>, and the Arabic texts that are part of an output are lists of code units.

  Arguments of the model: the digests (SHA-256, HMAC), the clock and the UUID source (the n-th call),
  Unicode normalisation and lower-casing, \<open>Date.parse\<close>, the URL of a page, the session's account and
  the challenge service; for the journal the cipher, PostgreSQL's execution of a statement and the fates
  of the calls. No property assumes more of them than its statement says; a reused UUID
  or a colliding digest is an explicit hypothesis or alternative.

  Bounds. Only \<open>json_parse\<close> has fuel, one more than the length of the text; each level of nesting
  consumes two characters. Every other loop is structural. Doubles are finite rationals: overflow to
  infinity, NaN and negative zero do not occur in the modelled arithmetic. Times are integers of
  milliseconds.

  Not modelled: accounts, passkeys, sessions and OIDC (the credential checks belong to libraries);
  the transport of mail and blobs; the task catalogue and its claims; the handlers of comments,
  portal reports and drafts around the validators modelled here; the reads of the database adapter and
  its variant for the container; the container glue; the user interface; the command-line scripts;
  the C# compiler of the repository, a separate program.
\<close>

end
